(* ===== verification/Prelude.thy ===== *)
theory Prelude
  imports Main "HOL-Library.AList"
begin

section \<open>Prelude: results, loops, indexed vectors and hash tables\<close>

text \<open>
  What every component of the analyser shares.

  \<^item> A Rust function that may panic or fail to return is a function into \<open>rap_error + 'a\<close>.
    \<open>Inl\<close> carries the reason: an index out of bounds, \<open>unwrap\<close> of \<open>None\<close>, an
    \<open>unreachable!()\<close> or \<open>panic!()\<close> branch, a \<open>todo!()\<close>, or \<open>Diverges\<close> for a loop or a
    recursion that does not come back within the fuel the model gives it.
  \<^item> \<open>rbind\<close> sequences such computations, \<open>rfold\<close> is a \<open>for\<close> loop over a vector with a
    mutable state, \<open>at\<close> and \<open>set_at\<close> are \<open>xs[i]\<close> and \<open>xs[i] = v\<close>.
  \<^item> \<open>ok P r\<close> is total correctness (\<open>r\<close> returned and its value satisfies \<open>P\<close>), \<open>safe P r\<close>
    partial correctness; the collection \<open>ok_intros\<close> holds the rules the component proofs
    chain together.
  \<^item> A hash set is a list without duplicates, a hash map whose iteration order matters an
    association list; the order in which a loop visits a table is a parameter of the model
    wherever the source iterates one.
\<close>

named_theorems ok_intros \<open>introduction rules for total correctness\<close>

subsection \<open>Results\<close>

datatype rap_error =
    Out_of_bounds      \<comment> \<open>\<open>xs[i]\<close> with \<open>i >= xs.len()\<close>\<close>
  | Unwrap_none        \<comment> \<open>\<open>Option::unwrap\<close> on \<open>None\<close>\<close>
  | Unreachable_code   \<comment> \<open>\<open>unreachable!()\<close> and \<open>panic!()\<close>\<close>
  | Todo               \<comment> \<open>\<open>todo!()\<close>\<close>
  | Overflow           \<comment> \<open>arithmetic underflow or overflow\<close>
  | Diverges           \<comment> \<open>a loop or recursion that does not return\<close>

type_synonym 'a res = "rap_error + 'a"

fun rbind :: "'a res \<Rightarrow> ('a \<Rightarrow> 'b res) \<Rightarrow> 'b res" where
  "rbind (Inl e) f = Inl e"
| "rbind (Inr x) f = f x"

fun rfold :: "('a \<Rightarrow> 's \<Rightarrow> 's res) \<Rightarrow> 'a list \<Rightarrow> 's \<Rightarrow> 's res" where
  "rfold f [] s = Inr s"
| "rfold f (x # xs) s = rbind (f x s) (rfold f xs)"

definition at :: "'a list \<Rightarrow> nat \<Rightarrow> 'a res" where
  "at xs i = (if i < length xs then Inr (xs ! i) else Inl Out_of_bounds)"

definition set_at :: "'a list \<Rightarrow> nat \<Rightarrow> 'a \<Rightarrow> 'a list res" where
  "set_at xs i v = (if i < length xs then Inr (xs[i := v]) else Inl Out_of_bounds)"

definition unwrap :: "'a option \<Rightarrow> 'a res" where
  "unwrap x = (case x of None \<Rightarrow> Inl Unwrap_none | Some v \<Rightarrow> Inr v)"

lemma rbind_Inr_iff: "rbind m f = Inr y \<longleftrightarrow> (\<exists>x. m = Inr x \<and> f x = Inr y)"
  by (cases m) auto

lemma rbind_Inr_right [simp]: "rbind m Inr = m"
  by (cases m) auto

lemma rfold_Nil_eq [simp]: "rfold f [] = Inr"
  by (rule ext) simp

lemma rfold_single [simp]: "rfold f [x] = f x"
  by (rule ext) simp

lemma rbind_assoc: "rbind (rbind m f) g = rbind m (\<lambda>x. rbind (f x) g)"
  by (cases m) auto

lemma rbind_cong [fundef_cong]:
  "m = m' \<Longrightarrow> (\<And>x. m' = Inr x \<Longrightarrow> f x = f' x) \<Longrightarrow> rbind m f = rbind m' f'"
  by (cases m') auto

lemma rfold_append: "rfold f (xs @ ys) s = rbind (rfold f xs s) (rfold f ys)"
  by (induction xs arbitrary: s) (auto simp: rbind_assoc intro!: rbind_cong)

lemma rfold_cong [fundef_cong]:
  "xs = ys \<Longrightarrow> s = t \<Longrightarrow> (\<And>x u. x \<in> set ys \<Longrightarrow> f x u = g x u) \<Longrightarrow> rfold f xs s = rfold g ys t"
proof (induction ys arbitrary: xs s t)
  case (Cons y ys)
  then show ?case by (cases "g y t") auto
qed simp

lemma at_Inr [simp]: "i < length xs \<Longrightarrow> at xs i = Inr (xs ! i)"
  by (simp add: at_def)

lemma at_oob [simp]: "\<not> i < length xs \<Longrightarrow> at xs i = Inl Out_of_bounds"
  by (simp add: at_def)

lemma at_Inr_iff: "at xs i = Inr v \<longleftrightarrow> i < length xs \<and> v = xs ! i"
  by (auto simp: at_def)

lemma set_at_Inr [simp]: "i < length xs \<Longrightarrow> set_at xs i v = Inr (xs[i := v])"
  by (simp add: set_at_def)

lemma set_at_oob [simp]: "\<not> i < length xs \<Longrightarrow> set_at xs i v = Inl Out_of_bounds"
  by (simp add: set_at_def)

lemma set_at_Inr_iff: "set_at xs i v = Inr ys \<longleftrightarrow> i < length xs \<and> ys = xs[i := v]"
  by (auto simp: set_at_def)

lemma unwrap_simps [simp]: "unwrap None = Inl Unwrap_none" "unwrap (Some v) = Inr v"
  by (simp_all add: unwrap_def)

lemma unwrap_Inr_iff: "unwrap x = Inr v \<longleftrightarrow> x = Some v"
  by (cases x) auto

lemmas res_iffs = rbind_Inr_iff at_Inr_iff set_at_Inr_iff unwrap_Inr_iff

subsection \<open>Total and partial correctness\<close>

definition ok :: "('a \<Rightarrow> bool) \<Rightarrow> 'a res \<Rightarrow> bool" where
  "ok P r \<longleftrightarrow> (\<exists>x. r = Inr x \<and> P x)"

definition safe :: "('a \<Rightarrow> bool) \<Rightarrow> 'a res \<Rightarrow> bool" where
  "safe P r \<longleftrightarrow> (\<forall>x. r = Inr x \<longrightarrow> P x)"

lemma ok_Inr [simp]: "ok P (Inr x) \<longleftrightarrow> P x"
  by (simp add: ok_def)

lemma ok_Inl [simp]: "\<not> ok P (Inl e)"
  by (simp add: ok_def)

lemma safe_Inr [simp]: "safe P (Inr x) \<longleftrightarrow> P x"
  by (simp add: safe_def)

lemma safe_Inl [simp]: "safe P (Inl e)"
  by (simp add: safe_def)

lemma ok_rbind [ok_intros]: "ok (\<lambda>x. ok P (f x)) m \<Longrightarrow> ok P (rbind m f)"
  by (auto simp: ok_def)

lemma ok_rbindI: "ok Q m \<Longrightarrow> (\<And>x. Q x \<Longrightarrow> ok P (f x)) \<Longrightarrow> ok P (rbind m f)"
  by (auto simp: ok_def)

lemma safe_rbindI: "safe Q m \<Longrightarrow> (\<And>x. Q x \<Longrightarrow> safe P (f x)) \<Longrightarrow> safe P (rbind m f)"
  by (cases m) auto

lemma safe_bind_any: "(\<And>x. safe P (f x)) \<Longrightarrow> safe P (rbind m f)"
  by (cases m) auto

lemma ok_mono: "ok P r \<Longrightarrow> (\<And>x. P x \<Longrightarrow> Q x) \<Longrightarrow> ok Q r"
  by (auto simp: ok_def)

lemma safe_mono: "safe P r \<Longrightarrow> (\<And>x. P x \<Longrightarrow> Q x) \<Longrightarrow> safe Q r"
  by (auto simp: safe_def)

lemma ok_imp_safe: "ok P r \<Longrightarrow> safe P r"
  by (auto simp: ok_def safe_def)

lemma ok_conj: "ok P r \<Longrightarrow> safe Q r \<Longrightarrow> ok (\<lambda>x. P x \<and> Q x) r"
  by (auto simp: ok_def safe_def)

lemma ok_at [ok_intros]: "i < length xs \<Longrightarrow> P (xs ! i) \<Longrightarrow> ok P (at xs i)"
  by simp

lemma ok_set_at [ok_intros]: "i < length xs \<Longrightarrow> P (xs[i := v]) \<Longrightarrow> ok P (set_at xs i v)"
  by simp

lemma ok_rfold:
  assumes "P s" "\<And>x s. x \<in> set xs \<Longrightarrow> P s \<Longrightarrow> ok P (f x s)"
  shows "ok P (rfold f xs s)"
  using assms
proof (induction xs arbitrary: s)
  case (Cons x xs)
  have "ok P (f x s)" using Cons.prems by simp
  then show ?case using Cons by (auto intro!: ok_rbindI)
qed simp

text \<open>The same with an invariant that speaks of the elements visited so far.\<close>

lemma ok_rfold_prefix:
  assumes "P [] s" "\<And>ys x zs s. xs = ys @ x # zs \<Longrightarrow> P ys s \<Longrightarrow> ok (P (ys @ [x])) (f x s)"
  shows "ok (P xs) (rfold f xs s)"
proof -
  have "\<lbrakk>xs = ys @ zs; P ys s\<rbrakk> \<Longrightarrow> ok (P xs) (rfold f zs s)" for ys zs s
  proof (induction zs arbitrary: ys s)
    case (Cons z zs)
    have "ok (P (ys @ [z])) (f z s)" using Cons.prems by (rule assms(2))
    then show ?case using Cons.IH [of "ys @ [z]"] Cons.prems(1)
      by (auto intro!: ok_rbindI)
  qed simp
  from this [of "[]" xs s] assms(1) show ?thesis by simp
qed

lemma safe_rfold:
  assumes "P s" "\<And>x s. x \<in> set xs \<Longrightarrow> P s \<Longrightarrow> safe P (f x s)"
  shows "safe P (rfold f xs s)"
  using assms
proof (induction xs arbitrary: s)
  case (Cons x xs)
  have "safe P (f x s)" using Cons.prems by simp
  then show ?case using Cons by (auto intro!: safe_rbindI)
qed simp

text \<open>A loop that ends has run its body for every element.\<close>

lemma rfold_reaches:
  assumes "rfold f xs s = Inr s'" "x \<in> set xs"
  shows "\<exists>s1 s2. f x s1 = Inr s2"
  using assms by (induction xs arbitrary: s) (auto simp: rbind_Inr_iff)

lemma rfold_inv_cong:
  assumes "P s" "\<And>x s. x \<in> set xs \<Longrightarrow> P s \<Longrightarrow> f x s = g x s \<and> safe P (g x s)"
  shows "rfold f xs s = rfold g xs s"
  using assms
proof (induction xs arbitrary: s)
  case (Cons x xs)
  have "f x s = g x s" "safe P (g x s)" using Cons.prems by simp_all
  then show ?case using Cons by (cases "g x s") auto
qed simp

text \<open>A computation that may panic but always comes back.\<close>

definition returns :: "'a res \<Rightarrow> bool" where
  "returns r \<longleftrightarrow> r \<noteq> Inl Diverges"

lemma returns_Inr [simp]: "returns (Inr x)"
  by (simp add: returns_def)

lemma returns_Inl [simp]: "returns (Inl e) \<longleftrightarrow> e \<noteq> Diverges"
  by (simp add: returns_def)

lemma returns_rbind: "returns m \<Longrightarrow> (\<And>x. m = Inr x \<Longrightarrow> returns (f x)) \<Longrightarrow> returns (rbind m f)"
  by (cases m) auto

lemma returns_at [simp]: "returns (at xs i)"
  by (simp add: at_def)

lemma returns_set_at [simp]: "returns (set_at xs i v)"
  by (simp add: set_at_def)

lemma returns_unwrap [simp]: "returns (unwrap x)"
  by (cases x) auto

lemma returns_rfold:
  assumes "P s" "\<And>x s. x \<in> set xs \<Longrightarrow> P s \<Longrightarrow> returns (f x s) \<and> safe P (f x s)"
  shows "returns (rfold f xs s)"
  using assms
proof (induction xs arbitrary: s)
  case (Cons x xs)
  show ?case
  proof (simp, rule returns_rbind)
    show "returns (f x s)" using Cons.prems by simp
    fix s' assume "f x s = Inr s'"
    with Cons.prems have "P s'" by (fastforce simp: safe_def)
    with Cons show "returns (rfold f xs s')" by auto
  qed
qed simp

lemma ok_returns: "ok P r \<Longrightarrow> returns r"
  by (auto simp: ok_def)

text \<open>A computation that returns a value with \<open>P\<close> or fails with one of the errors \<open>E\<close>.\<close>

definition within :: "rap_error set \<Rightarrow> ('a \<Rightarrow> bool) \<Rightarrow> 'a res \<Rightarrow> bool" where
  "within E P r \<longleftrightarrow> (case r of Inl e \<Rightarrow> e \<in> E | Inr x \<Rightarrow> P x)"

lemma within_simps [simp]: "within E P (Inr x) \<longleftrightarrow> P x" "within E P (Inl e) \<longleftrightarrow> e \<in> E"
  by (simp_all add: within_def)

lemma within_rbindI: "within E Q m \<Longrightarrow> (\<And>x. Q x \<Longrightarrow> within E P (f x)) \<Longrightarrow> within E P (rbind m f)"
  by (cases m) auto

lemma within_mono: "within E P r \<Longrightarrow> (\<And>x. P x \<Longrightarrow> Q x) \<Longrightarrow> within E Q r"
  by (cases r) auto

lemma within_unwrap: "Unwrap_none \<in> E \<Longrightarrow> (\<And>v. x = Some v \<Longrightarrow> P v) \<Longrightarrow> within E P (unwrap x)"
  by (cases x) auto

lemma within_rfold:
  assumes "P s" "\<And>x s. x \<in> set xs \<Longrightarrow> P s \<Longrightarrow> within E P (f x s)"
  shows "within E P (rfold f xs s)"
  using assms
proof (induction xs arbitrary: s)
  case (Cons x xs)
  have "within E P (f x s)" using Cons.prems by simp
  then show ?case using Cons by (auto intro!: within_rbindI)
qed simp

subsection \<open>Machine words used as sentinels\<close>

definition usize_MAX :: nat where
  "usize_MAX = 2 ^ 64 - 1"

definition as_usize :: "nat \<Rightarrow> nat" where
  "as_usize v = v mod 2 ^ 64"

subsection \<open>Hash sets and hash maps\<close>

definition hs_insert :: "'a \<Rightarrow> 'a list \<Rightarrow> 'a list" where
  "hs_insert x xs = (if x \<in> set xs then xs else xs @ [x])"

definition hs_remove :: "'a \<Rightarrow> 'a list \<Rightarrow> 'a list" where
  "hs_remove x xs = filter (\<lambda>y. y \<noteq> x) xs"

definition hs_extend :: "'a list \<Rightarrow> 'a list \<Rightarrow> 'a list" where
  "hs_extend xs ys = fold hs_insert ys xs"

lemma set_hs_insert [simp]: "set (hs_insert x xs) = insert x (set xs)"
  by (auto simp: hs_insert_def)

lemma distinct_hs_insert [simp]: "distinct xs \<Longrightarrow> distinct (hs_insert x xs)"
  by (auto simp: hs_insert_def)

lemma set_hs_remove [simp]: "set (hs_remove x xs) = set xs - {x}"
  by (auto simp: hs_remove_def)

lemma distinct_hs_remove [simp]: "distinct xs \<Longrightarrow> distinct (hs_remove x xs)"
  by (simp add: hs_remove_def)

lemma set_hs_extend [simp]: "set (hs_extend xs ys) = set xs \<union> set ys"
  by (induction ys arbitrary: xs) (auto simp: hs_extend_def)

lemma distinct_hs_extend [simp]: "distinct xs \<Longrightarrow> distinct (hs_extend xs ys)"
  by (induction ys arbitrary: xs) (auto simp: hs_extend_def)

lemma length_hs_insert: "length (hs_insert x xs) = (if x \<in> set xs then length xs else Suc (length xs))"
  by (simp add: hs_insert_def)

text \<open>An enumeration order of a table: every element is visited, none twice.\<close>

definition enum_order :: "('a list \<Rightarrow> 'a list) \<Rightarrow> bool" where
  "enum_order h \<longleftrightarrow> (\<forall>xs. set (h xs) = set xs \<and> (distinct xs \<longrightarrow> distinct (h xs)))"

lemma enum_orderD: "enum_order h \<Longrightarrow> set (h xs) = set xs"
  by (simp add: enum_order_def)

lemma enum_order_id [simp]: "enum_order (\<lambda>xs. xs)" "enum_order rev"
  by (simp_all add: enum_order_def)

subsection \<open>Loops that stop at the first hit, and substring search\<close>

text \<open>A \<open>for\<close> loop whose body may \<open>return true\<close>; the state is threaded through.\<close>

fun rany :: "('a \<Rightarrow> 's \<Rightarrow> (bool \<times> 's) res) \<Rightarrow> 'a list \<Rightarrow> 's \<Rightarrow> (bool \<times> 's) res" where
  "rany f [] s = Inr (False, s)"
| "rany f (x # xs) s = rbind (f x s) (\<lambda>(b, s). if b then Inr (True, s) else rany f xs s)"

lemma rany_cong [fundef_cong]:
  "xs = ys \<Longrightarrow> s = t \<Longrightarrow> (\<And>x u. x \<in> set ys \<Longrightarrow> f x u = g x u) \<Longrightarrow> rany f xs s = rany g ys t"
proof (induction ys arbitrary: xs s t)
  case (Cons y ys)
  then show ?case by (cases "g y t") auto
qed simp

lemma returns_rany:
  assumes "P s" "\<And>x s. x \<in> set xs \<Longrightarrow> P s \<Longrightarrow> returns (f x s) \<and> safe (\<lambda>(b, s). P s) (f x s)"
  shows "returns (rany f xs s)"
  using assms
proof (induction xs arbitrary: s)
  case (Cons x xs)
  show ?case
  proof (simp, rule returns_rbind)
    show "returns (f x s)" using Cons.prems by simp
    fix r assume "f x s = Inr r"
    moreover obtain b s' where "r = (b, s')" by (cases r)
    moreover have "safe (\<lambda>(b, s). P s) (f x s)" using Cons.prems by simp
    ultimately have "P s'" by simp
    with Cons \<open>r = (b, s')\<close>
    show "returns (case r of (b, s) \<Rightarrow> if b then Inr (True, s) else rany f xs s)" by auto
  qed
qed simp

lemma rany_inv_cong:
  assumes "P s" "\<And>x s. x \<in> set xs \<Longrightarrow> P s \<Longrightarrow> f x s = g x s \<and> safe (\<lambda>(b, s). P s) (g x s)"
  shows "rany f xs s = rany g xs s"
  using assms
proof (induction xs arbitrary: s)
  case (Cons x xs)
  have "f x s = g x s" "safe (\<lambda>(b, s). P s) (g x s)" using Cons.prems by simp_all
  then show ?case using Cons by (cases "g x s") auto
qed simp

lemma safe_rany:
  assumes "P s" "\<And>x s. x \<in> set xs \<Longrightarrow> P s \<Longrightarrow> safe (\<lambda>(b, s). P s) (f x s)"
  shows "safe (\<lambda>(b, s). P s) (rany f xs s)"
  using assms
proof (induction xs arbitrary: s)
  case (Cons x xs)
  have "safe (\<lambda>(b, s). P s) (f x s)" using Cons.prems by simp
  then show ?case using Cons by (auto intro!: safe_rbindI)
qed simp

lemma rany_append:
  "rany f (xs @ ys) s = rbind (rany f xs s) (\<lambda>(b, s). if b then Inr (True, s) else rany f ys s)"
  by (induction xs arbitrary: s) (auto simp: rbind_assoc split: prod.splits intro!: rbind_cong)

fun str_prefix :: "string \<Rightarrow> string \<Rightarrow> bool" where
  "str_prefix [] _ = True"
| "str_prefix (c # cs) [] = False"
| "str_prefix (c # cs) (d # ds) = (c = d \<and> str_prefix cs ds)"

fun str_contains :: "string \<Rightarrow> string \<Rightarrow> bool" where
  "str_contains [] needle = str_prefix needle []"
| "str_contains (c # cs) needle = (str_prefix needle (c # cs) \<or> str_contains cs needle)"

lemma str_prefix_iff: "str_prefix p s \<longleftrightarrow> (\<exists>t. s = p @ t)"
  by (induction p s rule: str_prefix.induct) auto

lemma str_contains_iff: "str_contains s p \<longleftrightarrow> (\<exists>u v. s = u @ p @ v)"
proof (induction s)
  case (Cons c cs)
  show ?case
  proof
    assume "str_contains (c # cs) p"
    then consider t where "c # cs = p @ t" | u v where "cs = u @ p @ v"
      using Cons.IH by (auto simp: str_prefix_iff)
    then show "\<exists>u v. c # cs = u @ p @ v"
    proof cases
      case (1 t)
      then have "c # cs = [] @ p @ t" by simp
      then show ?thesis by blast
    next
      case (2 u v)
      then have "c # cs = (c # u) @ p @ v" by simp
      then show ?thesis by blast
    qed
  next
    assume "\<exists>u v. c # cs = u @ p @ v"
    then obtain u v where uv: "c # cs = u @ p @ v" by blast
    show "str_contains (c # cs) p"
    proof (cases u)
      case Nil
      with uv have "str_prefix p (c # cs)" by (auto simp: str_prefix_iff)
      then show ?thesis by simp
    next
      case (Cons d u')
      with uv have "cs = u' @ p @ v" by simp
      with Cons.IH show ?thesis by auto
    qed
  qed
qed (auto simp: str_prefix_iff)

end
