(* ===== verification/Alias_Result.thy ===== *)
theory Alias_Result
  imports Prelude
begin

section \<open>Function summaries: aliases among arguments and return value\<close>

text \<open>
  \<^verbatim>\<open>core/alias.rs\<close>: \<open>RetAlias\<close> relates two access paths of a function's interface (0 is the
  return value, 1, 2, ... the arguments, each with a sequence of field ids), \<open>FnRetAlias\<close> is the
  set of them a function may establish, and \<open>FnMap\<close> caches the summaries of analysed functions.
\<close>

record ret_alias =
  left_index :: nat
  left_field_seq :: "nat list"
  left_may_drop :: bool
  left_need_drop :: bool
  right_index :: nat
  right_field_seq :: "nat list"
  right_may_drop :: bool
  right_need_drop :: bool

definition ret_alias_new :: "nat \<Rightarrow> bool \<Rightarrow> bool \<Rightarrow> nat \<Rightarrow> bool \<Rightarrow> bool \<Rightarrow> ret_alias" where
  "ret_alias_new li lm ln ri rm rn =
     \<lparr>left_index = li, left_field_seq = [], left_may_drop = lm, left_need_drop = ln,
      right_index = ri, right_field_seq = [], right_may_drop = rm, right_need_drop = rn\<rparr>"

definition valuable :: "ret_alias \<Rightarrow> bool" where
  "valuable r \<longleftrightarrow> left_may_drop r \<and> right_may_drop r"

record fn_ret_alias =
  fra_arg_size :: nat
  fra_alias_set :: "ret_alias list"

definition fn_ret_alias_new :: "nat \<Rightarrow> fn_ret_alias" where
  "fn_ret_alias_new n = \<lparr>fra_arg_size = n, fra_alias_set = []\<rparr>"

definition add_alias :: "ret_alias \<Rightarrow> fn_ret_alias \<Rightarrow> fn_ret_alias" where
  "add_alias r f = f\<lparr>fra_alias_set := hs_insert r (fra_alias_set f)\<rparr>"

definition fra_len :: "fn_ret_alias \<Rightarrow> nat" where
  "fra_len f = length (fra_alias_set f)"

type_synonym fn_map = "nat \<rightharpoonup> fn_ret_alias"

subsection \<open>Printing\<close>

fun digit :: "nat \<Rightarrow> char" where
  "digit d = char_of (48 + d)"

function nat_to_string :: "nat \<Rightarrow> string" where
  "nat_to_string n = (if n < 10 then [digit n] else nat_to_string (n div 10) @ [digit (n mod 10)])"
  by pat_completeness auto
termination by (relation "measure id") auto

declare nat_to_string.simps [simp del]

fun push_fields :: "string \<Rightarrow> nat list \<Rightarrow> string" where
  "push_fields acc [] = acc"
| "push_fields acc (k # ks) = push_fields (acc @ ''.'' @ nat_to_string k) ks"

definition ra_get_index :: "nat \<Rightarrow> nat list \<Rightarrow> bool \<Rightarrow> string" where
  "ra_get_index index flds field_sensitive =
     (if \<not> field_sensitive then nat_to_string index
      else push_fields (nat_to_string index) flds)"

definition lhs_str :: "ret_alias \<Rightarrow> bool \<Rightarrow> string" where
  "lhs_str r fs = ra_get_index (left_index r) (left_field_seq r) fs"

definition rhs_str :: "ret_alias \<Rightarrow> bool \<Rightarrow> string" where
  "rhs_str r fs = ra_get_index (right_index r) (right_field_seq r) fs"

definition ret_alias_display :: "ret_alias \<Rightarrow> string" where
  "ret_alias_display r = ''('' @ lhs_str r True @ '','' @ rhs_str r True @ '')''"

fun join_with :: "string \<Rightarrow> string list \<Rightarrow> string" where
  "join_with sep [] = ''''"
| "join_with sep [x] = x"
| "join_with sep (x # y # ys) = x @ sep @ join_with sep (y # ys)"

definition fn_ret_alias_display :: "(ret_alias list \<Rightarrow> ret_alias list) \<Rightarrow> fn_ret_alias \<Rightarrow> string" where
  "fn_ret_alias_display order f =
     ''{'' @ join_with '','' (map ret_alias_display (order (fra_alias_set f))) @ ''}''"

subsection \<open>The printed form of an access path can be read back\<close>

definition is_digit :: "char \<Rightarrow> bool" where
  "is_digit c \<longleftrightarrow> 48 \<le> (of_char c :: nat) \<and> (of_char c :: nat) < 58"

definition digit_val :: "char \<Rightarrow> nat" where
  "digit_val c = of_char c - 48"

definition read_nat :: "string \<Rightarrow> nat" where
  "read_nat s = foldl (\<lambda>n c. 10 * n + digit_val c) 0 s"

fun split_dots :: "string \<Rightarrow> string \<Rightarrow> string list" where
  "split_dots acc [] = [acc]"
| "split_dots acc (c # cs) = (if c = CHR ''.'' then acc # split_dots [] cs else split_dots (acc @ [c]) cs)"

definition read_path :: "string \<Rightarrow> nat list" where
  "read_path s = map read_nat (split_dots [] s)"

lemma of_char_digit: "d < 10 \<Longrightarrow> of_char (digit d) = 48 + d"
  by simp

lemma digit_props: "d < 10 \<Longrightarrow> is_digit (digit d)" "d < 10 \<Longrightarrow> digit_val (digit d) = d"
  by (simp_all add: is_digit_def digit_val_def)

lemma nat_to_string_digits: "c \<in> set (nat_to_string n) \<Longrightarrow> is_digit c"
proof (induction n rule: nat_to_string.induct)
  case (1 n)
  then show ?case
    by (subst (asm) (2) nat_to_string.simps)
       (auto split: if_splits intro: digit_props simp del: digit.simps)
qed

lemma read_nat_snoc: "read_nat (s @ [c]) = 10 * read_nat s + digit_val c"
  by (simp add: read_nat_def)

lemma read_nat_to_string: "read_nat (nat_to_string n) = n"
proof (induction n rule: nat_to_string.induct)
  case (1 n)
  show ?case
  proof (cases "n < 10")
    case True
    then show ?thesis
      by (subst nat_to_string.simps) (simp add: read_nat_def digit_props del: digit.simps)
  next
    case False
    with 1 show ?thesis
      by (subst nat_to_string.simps) (simp add: read_nat_snoc digit_props del: digit.simps)
  qed
qed

lemma is_digit_not_dot: "is_digit c \<Longrightarrow> c \<noteq> CHR ''.''"
  by (auto simp: is_digit_def)

lemma split_dots_digits:
  "(\<And>c. c \<in> set ds \<Longrightarrow> is_digit c) \<Longrightarrow> split_dots acc (ds @ rest) = split_dots (acc @ ds) rest"
proof (induction ds arbitrary: acc)
  case (Cons d ds)
  then have "is_digit d" by simp
  with Cons show ?case by (auto dest: is_digit_not_dot)
qed simp

lemma push_fields_append: "push_fields acc ks = acc @ push_fields [] ks"
proof (induction ks arbitrary: acc)
  case (Cons k ks)
  show ?case
    using Cons [of "acc @ ''.'' @ nat_to_string k"] Cons [of "''.'' @ nat_to_string k"] by simp
qed simp

lemma split_dots_push_fields:
  "split_dots acc (push_fields [] ks) = acc # map nat_to_string ks"
proof (induction ks arbitrary: acc)
  case (Cons k ks)
  have "push_fields [] (k # ks) = ''.'' @ (nat_to_string k @ push_fields [] ks)"
    using push_fields_append [of "''.'' @ nat_to_string k" ks] by simp
  then show ?case
    using split_dots_digits [OF nat_to_string_digits, where acc = "[]"] Cons by simp
qed simp

lemma read_path_get_index: "read_path (ra_get_index i ks True) = i # ks"
proof -
  have "ra_get_index i ks True = nat_to_string i @ push_fields [] ks"
    using push_fields_append [of "nat_to_string i" ks] by (simp add: ra_get_index_def)
  then show ?thesis
    using split_dots_digits [OF nat_to_string_digits, where acc = "[]"]
    by (simp add: read_path_def split_dots_push_fields read_nat_to_string comp_def)
qed

text \<open>C13: the printed form of an access path determines it: reading the decimal numbers between the
  dots gives back the value index and its field sequence, so no two different access paths of a
  summary print alike.\<close>

theorem alias_path_print_roundtrip:
  "read_path (lhs_str r True) = left_index r # left_field_seq r \<and>
   read_path (rhs_str r True) = right_index r # right_field_seq r"
  by (simp add: lhs_str_def rhs_str_def read_path_get_index)

end
