(* ===== verification/Mir.thy ===== *)
theory Mir
  imports Alias_Result
begin

section \<open>The compiler's data the analyses read\<close>

text \<open>
  Rustc's mid-level intermediate representation, as far as the sources match on it: places,
  operands, rvalues, statements, terminators and bodies of \<open>rustc_middle::mir\<close>, and the type
  kinds of \<open>rustc_middle::ty\<close>. The compiler itself is not part of the program: every query the
  sources put to it is a field of the record \<open>tcx\<close>, which all definitions take as an argument.
  The enumeration orders of the program's hash tables, which \<open>FxHash\<close> and \<open>RandomState\<close> fix
  and the program cannot observe otherwise, are fields of the same record.
\<close>

type_synonym def_id = nat
type_synonym span = nat

subsection \<open>Types\<close>

datatype mutability = Mut | Not_mut

datatype ty =
    Ty_Bool | Ty_Char | Ty_Int nat | Ty_Uint nat | Ty_Float nat | Ty_Str
  | Ty_Array ty | Ty_Slice ty
  | Ty_RawPtr ty mutability | Ty_Ref ty mutability
  | Ty_Tuple "ty list"
  | Ty_Adt def_id "generic_arg list"
  | Ty_Param nat string
  | Ty_FnDef def_id "generic_arg list"
  | Ty_Other nat
and generic_arg = Ga_Lifetime nat | Ga_Type ty | Ga_Const nat

datatype adt_kind = Adt_Struct | Adt_Union | Adt_Enum

subsection \<open>Places, operands, rvalues\<close>

datatype proj_elem =
    Deref
  | Field nat ty
  | Index nat
  | ConstantIndex
  | Subslice
  | Downcast "string option" nat
  | OpaqueCast
  | Subtype

record place =
  p_local :: nat
  p_projection :: "proj_elem list"

text \<open>
  A constant operand: its kind with the value the evaluator finds for it (\<open>try_eval_scalar_int\<close>,
  \<open>try_to_scalar_int\<close>), its type, and what \<open>try_eval_target_usize\<close> answers.
\<close>

datatype const_kind = Const_Ty "nat option" | Const_Unevaluated | Const_Val "nat option"

record const_operand =
  c_const :: const_kind
  c_ty :: ty
  c_target_usize :: "nat option"
  c_text :: string

datatype operand = Copy place | Move place | Constant const_operand

datatype borrow_kind = Bk_Shared | Bk_Mut | Bk_Fake

datatype cast_kind = Ck_PtrToPtr | Ck_PointerCoercion | Ck_Other

datatype agg_kind =
    Agg_Array | Agg_Tuple | Agg_Adt def_id nat | Agg_Closure def_id | Agg_Coroutine def_id
  | Agg_CoroutineClosure def_id | Agg_RawPtr

datatype rvalue =
    Use operand
  | Repeat operand
  | Ref borrow_kind place
  | ThreadLocalRef
  | RawPtr mutability place
  | Len place
  | Cast cast_kind operand ty
  | BinaryOp operand operand
  | NullaryOp string
  | UnaryOp operand
  | Discriminant place
  | Aggregate agg_kind "operand list"
  | ShallowInitBox operand ty
  | CopyForDeref place

datatype stmt_kind =
    Assign place rvalue
  | CopyNonOverlapping operand operand
  | Other_stmt

record statement =
  s_kind :: stmt_kind
  s_span :: span

subsection \<open>Terminators and bodies\<close>

datatype unwind_action = Uw_Continue | Uw_Unreachable | Uw_Terminate | Uw_Cleanup nat

record switch_targets =
  sw_values :: "(nat \<times> nat) list"   \<comment> \<open>\<open>targets.iter()\<close>: value and target block\<close>
  sw_otherwise :: nat               \<comment> \<open>\<open>targets.otherwise()\<close>\<close>

definition all_targets :: "switch_targets \<Rightarrow> nat list" where
  "all_targets t = map snd (sw_values t) @ [sw_otherwise t]"

datatype term_kind =
    Goto nat
  | SwitchInt operand switch_targets
  | UnwindResume | UnwindTerminate | Return | Unreachable | CoroutineDrop
  | Drop place nat unwind_action
  | Call operand "operand list" place "nat option" unwind_action
  | TailCall
  | Assert nat unwind_action
  | Yield nat "nat option"
  | FalseEdge nat
  | FalseUnwind nat
  | InlineAsm "nat list" unwind_action

record terminator =
  t_kind :: term_kind
  t_span :: span

record bb_data =
  bb_statements :: "statement list"
  bb_terminator :: "terminator option"
  bb_is_cleanup :: bool

record body =
  local_decls :: "ty list"
  arg_count :: nat
  basic_blocks :: "bb_data list"
  body_span :: span

subsection \<open>The compiler context\<close>

record tcx =
  needs_drop :: "ty \<Rightarrow> bool"
  adt_debug_str :: "def_id \<Rightarrow> string"
  adt_kind_of :: "def_id \<Rightarrow> adt_kind"
  adt_variants :: "def_id \<Rightarrow> generic_arg list \<Rightarrow> ty list list"
  type_of :: "def_id \<Rightarrow> ty"
  is_phantom_data :: "def_id \<Rightarrow> bool"
  ty_debug_str :: "ty \<Rightarrow> string"
  mir_keys :: "def_id list"
  instance_mir :: "def_id \<Rightarrow> body"
  recursion_limit :: nat
  mir_available :: "def_id \<Rightarrow> bool"
  optimized_mir :: "def_id \<Rightarrow> body"
  def_index :: "def_id \<Rightarrow> nat"
  def_debug_str :: "def_id \<Rightarrow> string"
  def_path_str :: "def_id \<Rightarrow> string"
  local_debug_str :: "nat \<Rightarrow> string"
  field_debug_str :: "nat \<Rightarrow> string"
  place_ty :: "def_id \<Rightarrow> place \<Rightarrow> ty \<times> nat option"
  set_order :: "nat list \<Rightarrow> nat list"
  alias_order :: "ret_alias list \<Rightarrow> ret_alias list"

definition adt_all_fields :: "tcx \<Rightarrow> def_id \<Rightarrow> generic_arg list \<Rightarrow> ty list" where
  "adt_all_fields tcx d args = concat (adt_variants tcx d args)"

text \<open>Visiting a hash map visits its keys in the order of the table.\<close>

definition hm_iter :: "tcx \<Rightarrow> (nat \<times> 'v) list \<Rightarrow> (nat \<times> 'v) list" where
  "hm_iter tcx m = map (\<lambda>k. (k, the (map_of m k))) (set_order tcx (map fst m))"

lemma set_hm_iter:
  "enum_order (set_order tcx) \<Longrightarrow> distinct (map fst m) \<Longrightarrow> set (hm_iter tcx m) = set m"
  by (auto simp: hm_iter_def enum_orderD image_iff) force

text \<open>The definition indices the sources compare call targets with
  (\<^verbatim>\<open>analysis/utils/intrinsic_id.rs\<close>).\<close>

definition DROP :: nat where "DROP = 2177"
definition DROP_IN_PLACE :: nat where "DROP_IN_PLACE = 2744"
definition BOX_DROP_IN_PLACE :: nat where "BOX_DROP_IN_PLACE = 2699"
definition DEALLOC :: nat where "DEALLOC = 137"
definition MANUALLYDROP :: nat where "MANUALLYDROP = 2018"
definition CALL_MUT :: nat where "CALL_MUT = 3575"
definition NEXT :: nat where "NEXT = 8583"
definition CLONE :: nat where "CLONE = 2913"
definition COPY_FROM_NONOVERLAPPING :: nat where "COPY_FROM_NONOVERLAPPING = 2698"
definition COPY_TO_NONOVERLAPPING :: nat where "COPY_TO_NONOVERLAPPING = 2598"
definition COPY_TO :: nat where "COPY_TO = 2597"
definition COPY_FROM :: nat where "COPY_FROM = 2697"

text \<open>A small concrete context, for evaluating the model on examples.\<close>

definition demo_tcx :: tcx where
  "demo_tcx =
     \<lparr>needs_drop = (\<lambda>t. case t of Ty_Adt _ _ \<Rightarrow> True | _ \<Rightarrow> False),
      adt_debug_str = (\<lambda>_. ''adt''), adt_kind_of = (\<lambda>_. Adt_Struct), adt_variants = (\<lambda>_ _. []),
      type_of = (\<lambda>d. Ty_Adt d []), is_phantom_data = (\<lambda>_. False), ty_debug_str = (\<lambda>_. ''ty''), mir_keys = [0],
      instance_mir = (\<lambda>_. \<lparr>local_decls = [], arg_count = 0, basic_blocks = [], body_span = 0\<rparr>),
      recursion_limit = 8, mir_available = (\<lambda>_. False),
      optimized_mir = (\<lambda>_. \<lparr>local_decls = [], arg_count = 0, basic_blocks = [], body_span = 0\<rparr>),
      def_index = (\<lambda>d. d), def_debug_str = (\<lambda>_. ''main''), def_path_str = (\<lambda>_. ''main''),
      local_debug_str = (\<lambda>n. CHR ''_'' # nat_to_string n), field_debug_str = nat_to_string,
      place_ty = (\<lambda>_ _. (Ty_Bool, None)),
      set_order = (\<lambda>xs. xs), alias_order = (\<lambda>xs. xs)\<rparr>"

lemma demo_tcx_order [simp]: "enum_order (set_order demo_tcx)" "enum_order (alias_order demo_tcx)"
  by (simp_all add: demo_tcx_def)

end
