(* ===== verification/Union_Alias.thy ===== *)
theory Union_Alias
  imports Prelude
begin

section \<open>The alias sets: a union-find forest over value indices\<close>

text \<open>
  Both alias analyses keep their alias classes in a vector \<open>alias_set\<close> that maps a value index to
  the index of its parent, a root being its own parent
  (\<^verbatim>\<open>core/alias/mop/alias.rs\<close>, \<^verbatim>\<open>safedrop/alias.rs\<close>: \<open>union_find\<close>, \<open>union_merge\<close>,
  \<open>union_is_same\<close>, \<open>union_has_alias\<close>; the two files hold the same text). Following a
  parent chain is a \<open>while\<close> loop that only stops at a root: the model gives it one step per
  entry of the vector, and \<open>union_find_diverges_iff\<close> shows that the loop runs out of them exactly
  when it would never stop.
\<close>

subsection \<open>The operations\<close>

text \<open>\<^verbatim>\<open>while self.alias_set[r] != r { r = self.alias_set[r]; }\<close>\<close>

fun uf_walk :: "nat \<Rightarrow> nat list \<Rightarrow> nat \<Rightarrow> nat res" where
  "uf_walk 0 a r = Inl Diverges"
| "uf_walk (Suc n) a r =
     rbind (at a r) (\<lambda>p. if p = r then Inr r else uf_walk n a p)"

definition union_find :: "nat list \<Rightarrow> nat \<Rightarrow> nat res" where
  "union_find a e = uf_walk (Suc (length a)) a e"

definition union_compress_step :: "nat \<Rightarrow> nat list \<Rightarrow> nat list res" where
  "union_compress_step member a =
     rbind (at a member) (\<lambda>p.
     rbind (union_find a p) (\<lambda>r. set_at a member r))"

definition union_merge :: "nat list \<Rightarrow> nat \<Rightarrow> nat \<Rightarrow> nat list res" where
  "union_merge a e1 e2 =
     rbind (union_find a e1) (\<lambda>f1.
     rbind (union_find a e2) (\<lambda>f2.
     rbind (if f1 < f2 then set_at a f2 f1 else Inr a) (\<lambda>a.
     rbind (if f1 > f2 then set_at a f1 f2 else Inr a) (\<lambda>a.
     rfold union_compress_step [0..<length a] a))))"

definition union_is_same :: "nat list \<Rightarrow> nat \<Rightarrow> nat \<Rightarrow> bool res" where
  "union_is_same a e1 e2 =
     rbind (union_find a e1) (\<lambda>f1.
     rbind (union_find a e2) (\<lambda>f2. Inr (f1 = f2)))"

fun union_any_same :: "nat list \<Rightarrow> nat \<Rightarrow> nat list \<Rightarrow> bool res" where
  "union_any_same a e [] = Inr False"
| "union_any_same a e (i # is) =
     (if i = e then union_any_same a e is
      else rbind (union_is_same a e i) (\<lambda>b. if b then Inr True else union_any_same a e is))"

definition union_has_alias :: "nat list \<Rightarrow> nat \<Rightarrow> bool res" where
  "union_has_alias a e = union_any_same a e [0..<length a]"

subsection \<open>Parent chains\<close>

inductive uf_chain :: "nat list \<Rightarrow> nat \<Rightarrow> nat \<Rightarrow> nat \<Rightarrow> bool" for a where
  root: "i < length a \<Longrightarrow> a ! i = i \<Longrightarrow> uf_chain a 0 i i"
| step: "i < length a \<Longrightarrow> a ! i \<noteq> i \<Longrightarrow> uf_chain a k (a ! i) r \<Longrightarrow> uf_chain a (Suc k) i r"

inductive_cases uf_chain_0E: "uf_chain a 0 i r"
inductive_cases uf_chain_SucE: "uf_chain a (Suc k) i r"

lemma uf_chain_in: "uf_chain a k i r \<Longrightarrow> i < length a"
  by (auto elim: uf_chain.cases)

lemma uf_chain_root: "uf_chain a k i r \<Longrightarrow> r < length a \<and> a ! r = r"
  by (induction rule: uf_chain.induct) auto

lemma uf_chain_unique: "uf_chain a k i r \<Longrightarrow> uf_chain a k' i r' \<Longrightarrow> k = k' \<and> r = r'"
proof (induction arbitrary: k' r' rule: uf_chain.induct)
  case (root i)
  then show ?case by (auto elim: uf_chain.cases)
next
  case (step i k r)
  from step.prems step.hyps obtain m where "k' = Suc m" "uf_chain a m (a ! i) r'"
    by (auto elim: uf_chain.cases)
  with step.IH show ?case by auto
qed

lemma uf_chain_prefix: "uf_chain a k i r \<Longrightarrow> j \<le> k \<Longrightarrow> \<exists>m. uf_chain a j m r"
proof (induction rule: uf_chain.induct)
  case (root i)
  then show ?case by (auto intro: uf_chain.root)
next
  case (step i k r)
  show ?case
  proof (cases "j = Suc k")
    case True
    with step.hyps show ?thesis by (auto intro: uf_chain.step)
  qed (use step in auto)
qed

text \<open>Pigeonhole: the nodes of a chain lie at different distances from the root.\<close>

lemma uf_chain_short: "uf_chain a k i r \<Longrightarrow> k < length a"
proof -
  assume c: "uf_chain a k i r"
  from uf_chain_prefix [OF c] obtain g where g: "\<And>j. j \<le> k \<Longrightarrow> uf_chain a j (g j) r"
    by metis
  have "inj_on g {..k}"
    by (rule inj_onI) (metis atMost_iff g uf_chain_unique)
  moreover have "g ` {..k} \<subseteq> {..<length a}"
    using uf_chain_in [OF g] by auto
  ultimately have "card {..k} \<le> card {..<length a}"
    using card_inj_on_le finite_lessThan by blast
  then show ?thesis by simp
qed

lemma uf_walk_chain: "uf_chain a k i r \<Longrightarrow> k < n \<Longrightarrow> uf_walk n a i = Inr r"
proof (induction arbitrary: n rule: uf_chain.induct)
  case (root i)
  then show ?case by (cases n) auto
next
  case (step i k r)
  then show ?case by (cases n) auto
qed

lemma uf_walk_Inr: "uf_walk n a i = Inr r \<Longrightarrow> \<exists>k. uf_chain a k i r"
  by (induction n a i rule: uf_walk.induct)
     (auto simp: res_iffs split: if_splits intro: uf_chain.intros)

lemma union_find_Inr_iff: "union_find a i = Inr r \<longleftrightarrow> (\<exists>k. uf_chain a k i r)"
  unfolding union_find_def
  by (meson less_SucI uf_chain_short uf_walk_Inr uf_walk_chain)

text \<open>An endless parent chain: every node on it is a proper index and none is a root.\<close>

definition uf_endless :: "nat list \<Rightarrow> nat \<Rightarrow> bool" where
  "uf_endless a i \<longleftrightarrow> (\<forall>k. (nth a ^^ k) i < length a \<and> a ! ((nth a ^^ k) i) \<noteq> (nth a ^^ k) i)"

lemma uf_endless_step:
  "uf_endless a i \<longleftrightarrow> i < length a \<and> a ! i \<noteq> i \<and> uf_endless a (a ! i)"
proof
  assume e: "uf_endless a i"
  have "uf_endless a (a ! i)"
    unfolding uf_endless_def using e [unfolded uf_endless_def, rule_format, of "Suc _"]
    by (simp add: funpow_swap1)
  with e [unfolded uf_endless_def, rule_format, of 0]
  show "i < length a \<and> a ! i \<noteq> i \<and> uf_endless a (a ! i)" by simp
next
  assume s: "i < length a \<and> a ! i \<noteq> i \<and> uf_endless a (a ! i)"
  have "(nth a ^^ k) i < length a \<and> a ! ((nth a ^^ k) i) \<noteq> (nth a ^^ k) i" for k
    using s unfolding uf_endless_def by (cases k) (auto simp: funpow_swap1)
  then show "uf_endless a i" by (simp add: uf_endless_def)
qed

lemma uf_endless_walk: "uf_endless a i \<Longrightarrow> uf_walk n a i = Inl Diverges"
proof (induction n arbitrary: i)
  case (Suc n)
  then have "i < length a" "a ! i \<noteq> i" "uf_endless a (a ! i)"
    using uf_endless_step by blast+
  with Suc.IH show ?case by simp
qed simp

subsection \<open>The forest invariant and representatives\<close>

definition uf_forest :: "nat list \<Rightarrow> bool" where
  "uf_forest a \<longleftrightarrow> (\<forall>i<length a. \<exists>k r. uf_chain a k i r)"

definition uf_rep :: "nat list \<Rightarrow> nat \<Rightarrow> nat" where
  "uf_rep a i = (case union_find a i of Inl _ \<Rightarrow> i | Inr r \<Rightarrow> r)"

lemma uf_chain_rep: "uf_chain a k i r \<Longrightarrow> uf_rep a i = r"
  by (frule exI, drule iffD2 [OF union_find_Inr_iff]) (simp add: uf_rep_def)

lemma uf_forestE:
  assumes "uf_forest a" "i < length a"
  obtains k where "uf_chain a k i (uf_rep a i)"
  using assms uf_chain_rep by (fastforce simp: uf_forest_def)

lemma union_find_forest: "uf_forest a \<Longrightarrow> i < length a \<Longrightarrow> union_find a i = Inr (uf_rep a i)"
  by (meson uf_forestE union_find_Inr_iff)

lemma uf_rep_in: "uf_forest a \<Longrightarrow> i < length a \<Longrightarrow> uf_rep a i < length a"
  by (meson uf_forestE uf_chain_root)

lemma uf_rep_root: "uf_forest a \<Longrightarrow> i < length a \<Longrightarrow> a ! uf_rep a i = uf_rep a i"
  by (meson uf_forestE uf_chain_root)

lemma uf_root_rep: "i < length a \<Longrightarrow> a ! i = i \<Longrightarrow> uf_rep a i = i"
  by (meson uf_chain.root uf_chain_rep)

lemma uf_rep_idem: "uf_forest a \<Longrightarrow> i < length a \<Longrightarrow> uf_rep a (uf_rep a i) = uf_rep a i"
  by (simp add: uf_rep_in uf_rep_root uf_root_rep)

lemma uf_parent_in: "uf_forest a \<Longrightarrow> i < length a \<Longrightarrow> a ! i < length a"
  by (metis uf_chain.cases uf_chain_in uf_forest_def)

lemma uf_rep_parent: "uf_forest a \<Longrightarrow> i < length a \<Longrightarrow> uf_rep a (a ! i) = uf_rep a i"
proof -
  assume f: "uf_forest a" and i: "i < length a"
  from f i obtain k where "uf_chain a k i (uf_rep a i)" by (rule uf_forestE)
  then show ?thesis
    by (cases rule: uf_chain.cases) (auto simp: uf_chain_rep)
qed

lemma uf_forestI:
  assumes "\<And>i. i < length a \<Longrightarrow> \<exists>k. uf_chain a k i (f i)"
  shows "uf_forest a \<and> (\<forall>i<length a. uf_rep a i = f i)"
  using assms uf_chain_rep by (fastforce simp: uf_forest_def)

lemma uf_forest_upt [simp]: "uf_forest [0..<n]"
  by (auto simp: uf_forest_def intro!: exI uf_chain.root)

lemma uf_rep_upt [simp]: "i < n \<Longrightarrow> uf_rep [0..<n] i = i"
  by (simp add: uf_root_rep)

text \<open>A new value is pushed as its own root (\<^verbatim>\<open>alias_set.push(alias_set.len())\<close>).\<close>

lemma uf_chain_push: "uf_chain a k i r \<Longrightarrow> uf_chain (a @ [length a]) k i r"
  by (induction rule: uf_chain.induct) (auto simp: nth_append intro!: uf_chain.intros)

lemma uf_push:
  assumes "uf_forest a"
  shows "uf_forest (a @ [length a]) \<and>
    (\<forall>i \<le> length a. uf_rep (a @ [length a]) i = (if i = length a then i else uf_rep a i))"
proof -
  let ?f = "\<lambda>i. if i = length a then i else uf_rep a i"
  have "\<exists>k. uf_chain (a @ [length a]) k i (?f i)" if "i < length (a @ [length a])" for i
  proof (cases "i = length a")
    case True
    then have "uf_chain (a @ [length a]) 0 i i" by (intro uf_chain.root) auto
    with True show ?thesis by auto
  next
    case False
    with that assms obtain k where "uf_chain a k i (uf_rep a i)"
      by (metis less_SucE length_append_singleton uf_forestE)
    with False show ?thesis by (auto intro: uf_chain_push)
  qed
  from uf_forestI [OF this] show ?thesis by (auto simp: less_Suc_eq_le)
qed

subsection \<open>Linking two roots and compressing a path\<close>

lemma uf_link:
  assumes f: "uf_forest a" and x: "x < length a" "a ! x = x" and y: "y < length a" "a ! y = y"
    and ne: "x \<noteq> y"
  shows "uf_forest (a[y := x]) \<and>
    (\<forall>i<length a. uf_rep (a[y := x]) i = (if uf_rep a i = y then x else uf_rep a i))"
proof -
  have rx: "uf_chain (a[y := x]) 0 x x" using x ne by (intro uf_chain.root) auto
  have ry: "uf_chain (a[y := x]) (Suc 0) y x"
    by (rule uf_chain.step) (use y ne rx in auto)
  have "\<exists>k'. uf_chain (a[y := x]) k' i (if r = y then x else r)" if "uf_chain a k i r" for k i r
    using that
  proof (induction rule: uf_chain.induct)
    case (root i)
    show ?case
    proof (cases "i = y")
      case True
      with ry show ?thesis by auto
    next
      case False
      with root have "uf_chain (a[y := x]) 0 i i" by (intro uf_chain.root) auto
      with False show ?thesis by auto
    qed
  next
    case (step i k r)
    then have "i \<noteq> y" using y by auto
    from step.IH obtain k' where "uf_chain (a[y := x]) k' (a ! i) (if r = y then x else r)" ..
    then have "uf_chain (a[y := x]) (Suc k') i (if r = y then x else r)"
      using step.hyps \<open>i \<noteq> y\<close> by (intro uf_chain.step) auto
    then show ?case ..
  qed
  then have "\<exists>k. uf_chain (a[y := x]) k i (if uf_rep a i = y then x else uf_rep a i)"
    if "i < length (a[y := x])" for i
    using that by (metis f length_list_update uf_forestE)
  from uf_forestI [OF this] show ?thesis by simp
qed

lemma uf_compress:
  assumes f: "uf_forest a" and m: "m < length a"
  shows "uf_forest (a[m := uf_rep a m]) \<and> (\<forall>i<length a. uf_rep (a[m := uf_rep a m]) i = uf_rep a i)"
proof -
  let ?a = "a[m := uf_rep a m]"
  have "\<exists>k'. uf_chain ?a k' i r" if "uf_chain a k i r" for k i r
    using that
  proof (induction rule: uf_chain.induct)
    case (root i)
    then have "uf_chain ?a 0 i i"
      by (cases "i = m"; intro uf_chain.root) (auto simp: uf_root_rep)
    then show ?case ..
  next
    case (step i k r)
    show ?case
    proof (cases "i = m")
      case True
      have r: "uf_rep a m = r" "r < length a" "a ! r = r"
        using step.hyps True uf_chain_rep [OF uf_chain.step, OF step.hyps]
          uf_chain_root [OF step.hyps(3)] by auto
      then have "r \<noteq> m" using step.hyps True by auto
      with r have "uf_chain ?a 0 r r" by (intro uf_chain.root) auto
      then have "uf_chain ?a (Suc 0) i r"
        using True r \<open>r \<noteq> m\<close> m by (intro uf_chain.step) auto
      then show ?thesis ..
    next
      case False
      from step.IH obtain k' where "uf_chain ?a k' (a ! i) r" ..
      then have "uf_chain ?a (Suc k') i r"
        using step.hyps False by (intro uf_chain.step) auto
      then show ?thesis ..
    qed
  qed
  then have "\<exists>k. uf_chain ?a k i (uf_rep a i)" if "i < length ?a" for i
    using that by (metis f length_list_update uf_forestE)
  from uf_forestI [OF this] show ?thesis by simp
qed

subsection \<open>Functional correctness of the operations\<close>

lemma union_is_same_forest:
  "uf_forest a \<Longrightarrow> i < length a \<Longrightarrow> j < length a \<Longrightarrow>
     union_is_same a i j = Inr (uf_rep a i = uf_rep a j)"
  by (simp add: union_is_same_def union_find_forest)

lemma union_any_same_forest:
  "uf_forest a \<Longrightarrow> e < length a \<Longrightarrow> set is \<subseteq> {..<length a} \<Longrightarrow>
     union_any_same a e is = Inr (\<exists>i\<in>set is. i \<noteq> e \<and> uf_rep a e = uf_rep a i)"
  by (induction "is") (auto simp: union_is_same_forest)

lemma union_has_alias_forest:
  "uf_forest a \<Longrightarrow> e < length a \<Longrightarrow>
     union_has_alias a e = Inr (\<exists>i<length a. i \<noteq> e \<and> uf_rep a e = uf_rep a i)"
  unfolding union_has_alias_def
  by (subst union_any_same_forest) auto

text \<open>One pass of the compression loop: classes are kept, the visited prefix points at roots.\<close>

definition uf_flat_upto :: "nat \<Rightarrow> nat list \<Rightarrow> nat list \<Rightarrow> bool" where
  "uf_flat_upto m a b \<longleftrightarrow> length b = length a \<and> uf_forest b \<and>
     (\<forall>i<length a. uf_rep b i = uf_rep a i) \<and> (\<forall>i<m. b ! i = uf_rep a i)"

lemma union_compress_step_ok:
  assumes "uf_flat_upto m a b" "m < length a"
  shows "ok (uf_flat_upto (Suc m) a) (union_compress_step m b)"
proof -
  from assms have b: "uf_forest b" "length b = length a" "uf_rep b (b ! m) = uf_rep b m"
      "b ! m < length a"
    by (auto simp: uf_flat_upto_def uf_rep_parent dest: uf_parent_in)
  have step: "union_compress_step m b = Inr (b[m := uf_rep b m])"
    using b assms(2) by (simp add: union_compress_step_def union_find_forest uf_parent_in)
  from uf_compress [OF b(1), of m] b assms
  have "uf_flat_upto (Suc m) a (b[m := uf_rep b m])"
    by (auto simp: uf_flat_upto_def less_Suc_eq nth_list_update)
  with step show ?thesis by simp
qed

lemma union_compress_all:
  assumes "uf_forest a" "m \<le> length a"
  shows "ok (uf_flat_upto m a) (rfold union_compress_step [0..<m] a)"
  using assms(2)
proof (induction m)
  case 0
  with assms show ?case by (simp add: uf_flat_upto_def)
next
  case (Suc m)
  then have "ok (uf_flat_upto m a) (rfold union_compress_step [0..<m] a)" by simp
  then show ?case
    using Suc.prems by (auto simp: rfold_append intro!: ok_rbindI union_compress_step_ok)
qed

definition uf_flat :: "nat list \<Rightarrow> bool" where
  "uf_flat a \<longleftrightarrow> (\<forall>i<length a. a ! i = uf_rep a i)"

definition uf_joined :: "nat list \<Rightarrow> nat \<Rightarrow> nat \<Rightarrow> nat list \<Rightarrow> bool" where
  "uf_joined a x y b \<longleftrightarrow> length b = length a \<and> uf_forest b \<and> uf_flat b \<and>
     (\<forall>i<length a. uf_rep b i =
        (if uf_rep a i = uf_rep a x \<or> uf_rep a i = uf_rep a y
         then min (uf_rep a x) (uf_rep a y) else uf_rep a i))"

lemma union_merge_ok:
  assumes f: "uf_forest a" and x: "x < length a" and y: "y < length a"
  shows "ok (uf_joined a x y) (union_merge a x y)"
proof -
  let ?x = "uf_rep a x" and ?y = "uf_rep a y"
  let ?lo = "min ?x ?y" and ?hi = "max ?x ?y"
  define c where "c = (if ?x = ?y then a else a[?hi := ?lo])"
  have roots: "?x < length a" "a ! ?x = ?x" "?y < length a" "a ! ?y = ?y"
    using f x y by (auto simp: uf_rep_in uf_rep_root)
  have c: "uf_forest c" "length c = length a"
    "\<And>i. i < length a \<Longrightarrow> uf_rep c i =
      (if uf_rep a i = ?x \<or> uf_rep a i = ?y then ?lo else uf_rep a i)"
    using uf_link [OF f, of ?lo ?hi] f roots by (auto simp: c_def min_def max_def split: if_splits)
  have "union_merge a x y = rfold union_compress_step [0..<length c] c"
    using f x y roots by (auto simp: union_merge_def union_find_forest c_def min_def max_def)
  moreover have "ok (uf_flat_upto (length c) c) (rfold union_compress_step [0..<length c] c)"
    using c by (intro union_compress_all) auto
  ultimately show ?thesis
    using c by (auto simp: uf_joined_def uf_flat_upto_def uf_flat_def elim!: ok_mono)
qed

subsection \<open>The contract of an alias partition\<close>

text \<open>
  What the clients of the alias sets rely on: a query that decides a partition of the indices, and
  a merge that joins two blocks of it and touches nothing else. The consequence for a sequence of
  merges, proved once here, is that the partition is the equivalence generated by the merged
  pairs.
\<close>

locale alias_partition =
  fixes wf :: "'s \<Rightarrow> bool"
    and size_of :: "'s \<Rightarrow> nat"
    and same :: "'s \<Rightarrow> nat \<Rightarrow> nat \<Rightarrow> bool res"
    and merge :: "'s \<Rightarrow> nat \<Rightarrow> nat \<Rightarrow> 's res"
    and cls :: "'s \<Rightarrow> nat \<Rightarrow> nat \<Rightarrow> bool"
  assumes same_spec: "wf s \<Longrightarrow> i < size_of s \<Longrightarrow> j < size_of s \<Longrightarrow> same s i j = Inr (cls s i j)"
    and cls_refl: "cls s i i"
    and cls_sym: "cls s i j \<Longrightarrow> cls s j i"
    and cls_trans: "cls s i j \<Longrightarrow> cls s j k \<Longrightarrow> cls s i k"
    and merge_spec: "wf s \<Longrightarrow> i < size_of s \<Longrightarrow> j < size_of s \<Longrightarrow>
      ok (\<lambda>t. wf t \<and> size_of t = size_of s \<and>
        (\<forall>x<size_of s. \<forall>y<size_of s. cls t x y \<longleftrightarrow>
           cls s x y \<or> (cls s x i \<and> cls s j y) \<or> (cls s x j \<and> cls s i y))) (merge s i j)"
begin

definition block_rel :: "'s \<Rightarrow> (nat \<times> nat) set" where
  "block_rel s = {(x, y). x < size_of s \<and> y < size_of s \<and> cls s x y}"

definition merge_pairs :: "(nat \<times> nat) list \<Rightarrow> 's \<Rightarrow> 's res" where
  "merge_pairs ps s = rfold (\<lambda>(i, j) s. merge s i j) ps s"

lemma block_rel_rtrancl: "(x, y) \<in> (block_rel s)\<^sup>* \<Longrightarrow> x = y \<or> (x, y) \<in> block_rel s"
  by (induction rule: rtrancl_induct) (auto simp: block_rel_def intro: cls_trans)

lemma merge_closure:
  assumes "wf s" "i < size_of s" "j < size_of s"
  shows "ok (\<lambda>t. wf t \<and> size_of t = size_of s \<and>
    (\<forall>P. (block_rel t \<union> P)\<^sup>* = (block_rel s \<union> ({(i, j), (j, i)} \<union> P))\<^sup>*)) (merge s i j)"
proof (rule ok_mono [OF merge_spec [OF assms]], elim conjE, intro conjI allI)
  fix t P
  assume sz: "size_of t = size_of s"
    and t: "\<forall>x<size_of s. \<forall>y<size_of s. cls t x y \<longleftrightarrow>
           cls s x y \<or> (cls s x i \<and> cls s j y) \<or> (cls s x j \<and> cls s i y)"
  let ?R = "block_rel s \<union> ({(i, j), (j, i)} \<union> P)"
  have ins: "(x, y) \<in> ?R\<^sup>*" if "cls s x y" "x < size_of s" "y < size_of s" for x y
    using that by (auto simp: block_rel_def)
  have ij: "(i, j) \<in> ?R\<^sup>*" "(j, i) \<in> ?R\<^sup>*" by auto
  have "block_rel t \<subseteq> ?R\<^sup>*"
  proof (rule subrelI)
    fix x y assume "(x, y) \<in> block_rel t"
    then have xy: "x < size_of s" "y < size_of s"
      and "cls s x y \<or> (cls s x i \<and> cls s j y) \<or> (cls s x j \<and> cls s i y)"
      using t sz by (auto simp: block_rel_def)
    then consider "cls s x y" | "cls s x i" "cls s j y" | "cls s x j" "cls s i y" by blast
    then show "(x, y) \<in> ?R\<^sup>*"
    proof cases
      case 1
      with xy ins show ?thesis by blast
    next
      case 2
      with xy assms ins ij show ?thesis by (meson rtrancl_trans)
    next
      case 3
      with xy assms ins ij show ?thesis by (meson rtrancl_trans)
    qed
  qed
  then have "block_rel t \<union> P \<subseteq> ?R\<^sup>*" by auto
  moreover have "?R \<subseteq> (block_rel t \<union> P)\<^sup>*"
  proof -
    have "block_rel s \<subseteq> block_rel t" "(i, j) \<in> block_rel t" "(j, i) \<in> block_rel t"
      using t sz assms by (auto simp: block_rel_def cls_refl)
    then show ?thesis by auto
  qed
  ultimately show "(block_rel t \<union> P)\<^sup>* = ?R\<^sup>*"
    by (meson rtrancl_subset_rtrancl subset_antisym)
qed auto

lemma merge_pairs_closure:
  assumes "wf s" "set ps \<subseteq> {..<size_of s} \<times> {..<size_of s}"
  shows "ok (\<lambda>t. wf t \<and> size_of t = size_of s \<and>
    (block_rel t)\<^sup>* = (block_rel s \<union> (set ps \<union> (set ps)\<inverse>))\<^sup>*) (merge_pairs ps s)"
  using assms
proof (induction ps arbitrary: s)
  case Nil
  then show ?case by (simp add: merge_pairs_def)
next
  case (Cons p ps)
  obtain i j where p: "p = (i, j)" by (cases p)
  with Cons.prems have ij: "i < size_of s" "j < size_of s" by auto
  have eq: "{(i, j), (j, i)} \<union> (set ps \<union> (set ps)\<inverse>) = set (p # ps) \<union> (set (p # ps))\<inverse>"
    by (auto simp: p)
  have "ok (\<lambda>t. ok (\<lambda>u. wf u \<and> size_of u = size_of s \<and>
      (block_rel u)\<^sup>* = (block_rel s \<union> (set (p # ps) \<union> (set (p # ps))\<inverse>))\<^sup>*) (merge_pairs ps t)) (merge s i j)"
  proof (rule ok_mono [OF merge_closure [OF Cons.prems(1) ij]], elim conjE)
    fix t
    assume t: "wf t" "size_of t = size_of s"
      "\<forall>P. (block_rel t \<union> P)\<^sup>* = (block_rel s \<union> ({(i, j), (j, i)} \<union> P))\<^sup>*"
    with Cons.prems have "set ps \<subseteq> {..<size_of t} \<times> {..<size_of t}" by auto
    from Cons.IH [OF t(1) this] show "ok (\<lambda>u. wf u \<and> size_of u = size_of s \<and>
      (block_rel u)\<^sup>* = (block_rel s \<union> (set (p # ps) \<union> (set (p # ps))\<inverse>))\<^sup>*) (merge_pairs ps t)"
      by (rule ok_mono) (simp only: t(2) t(3) [rule_format] eq)
  qed
  then show ?case
    by (auto simp: merge_pairs_def p intro!: ok_rbind)
qed

lemma merge_pairs_same:
  assumes "wf s" "set ps \<subseteq> {..<size_of s} \<times> {..<size_of s}" "x < size_of s" "y < size_of s"
  shows "ok (\<lambda>t. same t x y = Inr ((x, y) \<in> (block_rel s \<union> (set ps \<union> (set ps)\<inverse>))\<^sup>*)) (merge_pairs ps s)"
proof (rule ok_mono [OF merge_pairs_closure [OF assms(1,2)]], elim conjE)
  fix t
  assume t: "wf t" "size_of t = size_of s"
    "(block_rel t)\<^sup>* = (block_rel s \<union> (set ps \<union> (set ps)\<inverse>))\<^sup>*"
  have "cls t x y \<longleftrightarrow> (x, y) \<in> (block_rel t)\<^sup>*"
    using t assms block_rel_rtrancl [of x y t] by (auto simp: block_rel_def cls_refl)
  with t assms show "same t x y = Inr ((x, y) \<in> (block_rel s \<union> (set ps \<union> (set ps)\<inverse>))\<^sup>*)"
    by (simp add: same_spec)
qed

end

interpretation uf: alias_partition uf_forest length union_is_same union_merge
  "\<lambda>a i j. uf_rep a i = uf_rep a j"
proof (unfold_locales, goal_cases)
  case (5 s i j)
  show ?case
    by (rule ok_mono [OF union_merge_ok [OF 5]]) (auto simp: uf_joined_def min_def)
qed (auto simp: union_is_same_forest)

subsection \<open>When the parent walk never stops\<close>

lemma uf_walk_diverges:
  "uf_walk n a i = Inl Diverges \<Longrightarrow> k < n \<Longrightarrow>
     (nth a ^^ k) i < length a \<and> a ! ((nth a ^^ k) i) \<noteq> (nth a ^^ k) i"
proof (induction n arbitrary: i k)
  case (Suc n)
  then have i: "i < length a" "a ! i \<noteq> i" "uf_walk n a (a ! i) = Inl Diverges"
    by (auto simp: at_def split: if_splits)
  show ?case
  proof (cases k)
    case 0
    with i show ?thesis by simp
  next
    case (Suc m)
    with Suc.IH [OF i(3), of m] Suc.prems show ?thesis by (simp add: funpow_swap1)
  qed
qed simp

lemma funpow_cycle_back:
  fixes f :: "'a \<Rightarrow> 'a"
  assumes "(f ^^ p) x = (f ^^ q) x" "p < q"
  shows "\<exists>j<q. (f ^^ k) x = (f ^^ j) x"
proof (induction k rule: less_induct)
  case (less k)
  show ?case
  proof (cases "k < q")
    case False
    then have "k = (k - q) + q" by simp
    then have "(f ^^ k) x = (f ^^ (k - q)) ((f ^^ q) x)" by (metis comp_apply funpow_add)
    also have "\<dots> = (f ^^ (k - q + p)) x" using assms(1) by (simp add: funpow_add)
    finally show ?thesis using less.IH [of "k - q + p"] False assms(2) by auto
  qed auto
qed

lemma walk_bound_endless:
  assumes "\<And>k. k \<le> length a \<Longrightarrow> (nth a ^^ k) i < length a \<and> a ! ((nth a ^^ k) i) \<noteq> (nth a ^^ k) i"
  shows "uf_endless a i"
proof -
  let ?w = "\<lambda>k. (nth a ^^ k) i"
  have "?w ` {..length a} \<subseteq> {..<length a}" using assms by auto
  then have "card (?w ` {..length a}) \<le> length a"
    by (metis card_lessThan card_mono finite_lessThan)
  then have "\<not> inj_on ?w {..length a}" using card_image by fastforce
  then obtain p q where "p \<le> length a" "q \<le> length a" "p < q" "?w p = ?w q"
    unfolding inj_on_def by (metis atMost_iff linorder_neqE_nat)
  then have "\<exists>j<q. ?w k = ?w j" for k by (intro funpow_cycle_back)
  then have "\<exists>j \<le> length a. ?w k = ?w j" for k
    using \<open>q \<le> length a\<close> by (meson less_imp_le order_trans)
  with assms show ?thesis unfolding uf_endless_def by metis
qed

subsection \<open>Properties\<close>

text \<open>C1: starting from the fresh alias set of \<open>n\<close> values, any sequence of \<open>union_merge\<close> calls
  on existing values returns, and afterwards \<open>union_is_same x y\<close> answers whether \<open>x\<close> and \<open>y\<close> are
  connected by the merged pairs: the alias classes are exactly the generated equivalence.\<close>

theorem union_merges_generate_equivalence:
  assumes "set ps \<subseteq> {..<n} \<times> {..<n}" "x < n" "y < n"
  shows "\<exists>a. rfold (\<lambda>(i, j) a. union_merge a i j) ps [0..<n] = Inr a \<and>
    union_is_same a x y = Inr ((x, y) \<in> (set ps \<union> (set ps)\<inverse>)\<^sup>*)"
proof -
  have "uf.block_rel [0..<n] \<subseteq> Id" by (auto simp: uf.block_rel_def)
  then have eq: "(uf.block_rel [0..<n] \<union> (set ps \<union> (set ps)\<inverse>))\<^sup>* = (set ps \<union> (set ps)\<inverse>)\<^sup>*"
    by (intro subset_antisym rtrancl_subset_rtrancl rtrancl_mono) auto
  from assms show ?thesis
    using uf.merge_pairs_same [of "[0..<n]" ps x y]
    by (simp add: eq uf.merge_pairs_def ok_def)
qed

theorem union_merges_generate_equivalence_witness:
  "\<exists>a. rfold (\<lambda>(i, j) a. union_merge a i j) [(1, 2), (2, 3)] [0..<5] = Inr a \<and>
    union_is_same a 1 3 = Inr True"
proof -
  let ?R = "set [(1, 2), (2, 3)] \<union> (set [(1, 2), (2, 3)])\<inverse> :: (nat \<times> nat) set"
  have "(1, 3) \<in> ?R\<^sup>*"
    by (rule converse_rtrancl_into_rtrancl [of _ 2], simp, rule r_into_rtrancl, simp)
  then show ?thesis
    using union_merges_generate_equivalence [of "[(1, 2), (2, 3)]" 5 1 3] by simp
qed

text \<open>\<open>union_merge\<close> on a well-formed alias set never panics and never diverges; it keeps the
  set well-formed, points every value directly at its representative, and the representative of
  the joined class is the smaller of the two old ones, all other classes being untouched.\<close>

theorem union_merge_correct:
  assumes "uf_forest a" "x < length a" "y < length a"
  shows "\<exists>b. union_merge a x y = Inr b \<and> length b = length a \<and> uf_forest b \<and>
    (\<forall>i<length a. union_find b i = Inr (b ! i) \<and>
       b ! i = (if uf_rep a i = uf_rep a x \<or> uf_rep a i = uf_rep a y
                then min (uf_rep a x) (uf_rep a y) else uf_rep a i))"
proof -
  from union_merge_ok [OF assms] obtain b where b: "union_merge a x y = Inr b" "uf_joined a x y b"
    by (auto simp: ok_def)
  then have "length b = length a" "uf_forest b" "\<And>i. i < length a \<Longrightarrow> b ! i = uf_rep b i"
    by (auto simp: uf_joined_def uf_flat_def)
  with b show ?thesis by (auto simp: uf_joined_def union_find_forest)
qed

theorem union_merge_correct_witness:
  "uf_forest [0..<4] \<and> (\<exists>b. union_merge [0..<4] 3 1 = Inr b \<and> b ! 3 = 1)"
  using union_merge_correct [of "[0..<4]" 3 1] by auto

text \<open>C14: \<open>union_find\<close> fails to return exactly when the parent chain of the value never meets a
  root. The direct write \<open>alias_set[lv] = rv\<close> of a discriminant assignment can build such a
  chain: with value 2 in the class of value 1, writing \<open>alias_set[1] = 2\<close> makes both walks
  endless.\<close>

theorem union_find_diverges_iff:
  "(union_find a e = Inl Diverges \<longleftrightarrow> uf_endless a e) \<and>
   (\<exists>b. union_merge [0, 1, 2] 1 2 = Inr b \<and> union_find (b[1 := 2]) 2 = Inl Diverges)"
proof
  show "union_find a e = Inl Diverges \<longleftrightarrow> uf_endless a e"
  proof
    assume "union_find a e = Inl Diverges"
    then show "uf_endless a e"
      unfolding union_find_def using uf_walk_diverges by (intro walk_bound_endless) (metis le_imp_less_Suc)
  qed (simp add: union_find_def uf_endless_walk del: uf_walk.simps)
  show "\<exists>b. union_merge [0, 1, 2] 1 2 = Inr b \<and> union_find (b[1 := 2]) 2 = Inl Diverges"
    by (simp add: union_merge_def union_find_def union_compress_step_def upt_rec at_def set_at_def)
qed

end
