(* ===== verification/Value_Node.thy ===== *)
theory Value_Node
  imports Mir Union_Alias
begin

section \<open>Value nodes, block nodes and assignments\<close>

text \<open>
  The data both alias analyses are built on: \<open>TyKind\<close>, \<open>kind\<close> and \<open>is_not_drop\<close> of
  \<^verbatim>\<open>core/alias/mop/types.rs\<close>, and \<open>AssignType\<close>, \<open>Assignment\<close>, \<open>ValueNode\<close>, \<open>BlockNode\<close> of
  \<^verbatim>\<open>core/alias/mop/graph.rs\<close>; the SafeDrop graph extends the two node records by the fields it
  adds (\<^verbatim>\<open>safedrop/graph.rs\<close>). The field \<open>scc_outer\<close> of a block node is written once with \<open>None\<close>
  and never read; it is left out.
\<close>

subsection \<open>Type kinds\<close>

datatype ty_kind = Kd_Adt | Kd_RawPtr | Kd_Tuple | Kd_CornerCase | Kd_Ref

definition mop_kind :: "tcx \<Rightarrow> ty \<Rightarrow> ty_kind" where
  "mop_kind tcx t =
     (case t of
        Ty_RawPtr _ _ \<Rightarrow> Kd_RawPtr
      | Ty_Ref _ _ \<Rightarrow> Kd_Ref
      | Ty_Tuple _ \<Rightarrow> Kd_Tuple
      | Ty_Adt d _ \<Rightarrow>
          (let s = adt_debug_str tcx d in
           if str_contains s ''cell::RefMut'' \<or> str_contains s ''cell::Ref'' \<or> str_contains s ''rc::Rc''
           then Kd_CornerCase else Kd_Adt)
      | _ \<Rightarrow> Kd_Adt)"

text \<open>
  \<open>is_not_drop\<close> recurses through arrays, tuples and the field types of ADTs. The number of nested
  calls is the type's by-value nesting depth, which the compiler bounds by its recursion limit.
\<close>

fun is_not_drop_fuel :: "nat \<Rightarrow> tcx \<Rightarrow> ty \<Rightarrow> bool res" where
  "is_not_drop_fuel 0 tcx t = Inl Diverges"
| "is_not_drop_fuel (Suc n) tcx t =
     (let all_not = (\<lambda>ts. rbind (rany (\<lambda>t s. rbind (is_not_drop_fuel n tcx t) (\<lambda>b. Inr (\<not> b, s))) ts ())
                            (\<lambda>(found, _). Inr (\<not> found)))
      in case t of
        Ty_Bool \<Rightarrow> Inr True | Ty_Char \<Rightarrow> Inr True | Ty_Int _ \<Rightarrow> Inr True
      | Ty_Uint _ \<Rightarrow> Inr True | Ty_Float _ \<Rightarrow> Inr True
      | Ty_Array t' \<Rightarrow> is_not_drop_fuel n tcx t'
      | Ty_Adt d args \<Rightarrow> all_not (adt_all_fields tcx d args)
      | Ty_Tuple ts \<Rightarrow> all_not ts
      | _ \<Rightarrow> Inr False)"

definition is_not_drop :: "tcx \<Rightarrow> ty \<Rightarrow> bool res" where
  "is_not_drop tcx t = is_not_drop_fuel (recursion_limit tcx) tcx t"

subsection \<open>Assignments and nodes\<close>

datatype assign_type = At_Copy | At_Move | At_InitBox | At_Variant

record assignment =
  as_lv :: place
  as_rv :: place
  as_atype :: assign_type
  as_span :: span

record block_node =
  b_index :: nat
  b_next :: "nat list"
  b_assignments :: "assignment list"
  b_calls :: "terminator list"
  b_scc_sub_blocks :: "nat list"
  b_const_value :: "(nat \<times> nat) list"
  b_switch_stmts :: "terminator list"
  b_modified_value :: "nat list"

definition add_next :: "nat \<Rightarrow> 'a block_node_scheme \<Rightarrow> 'a block_node_scheme" where
  "add_next i b = b\<lparr>b_next := hs_insert i (b_next b)\<rparr>"

record vnode =
  v_index :: nat
  v_local :: nat
  v_need_drop :: bool
  v_may_drop :: bool
  v_kind :: ty_kind
  v_father :: nat
  v_field_id :: nat
  v_fields :: "(nat \<times> nat) list"

definition vnode_new :: "nat \<Rightarrow> nat \<Rightarrow> bool \<Rightarrow> bool \<Rightarrow> vnode" where
  "vnode_new i l nd md =
     \<lparr>v_index = i, v_local = l, v_need_drop = nd, v_may_drop = md, v_kind = Kd_Adt,
      v_father = l, v_field_id = usize_MAX, v_fields = []\<rparr>"

definition is_tuple :: "'a vnode_scheme \<Rightarrow> bool" where
  "is_tuple v \<longleftrightarrow> v_kind v = Kd_Tuple"

definition is_ptr :: "'a vnode_scheme \<Rightarrow> bool" where
  "is_ptr v \<longleftrightarrow> v_kind v = Kd_RawPtr \<or> v_kind v = Kd_Ref"

definition is_ref :: "'a vnode_scheme \<Rightarrow> bool" where
  "is_ref v \<longleftrightarrow> v_kind v = Kd_Ref"

definition is_corner_case :: "'a vnode_scheme \<Rightarrow> bool" where
  "is_corner_case v \<longleftrightarrow> v_kind v = Kd_CornerCase"

text \<open>\<open>self.values[i].fields.insert(k, v)\<close> and \<open>.fields.get(&k)\<close>\<close>

definition field_insert :: "nat \<Rightarrow> nat \<Rightarrow> 'a vnode_scheme \<Rightarrow> 'a vnode_scheme" where
  "field_insert k f v = v\<lparr>v_fields := AList.update k f (v_fields v)\<rparr>"

definition field_get :: "nat \<Rightarrow> 'a vnode_scheme \<Rightarrow> nat option" where
  "field_get k v = map_of (v_fields v) k"

lemma field_insert_simps [simp]:
  "v_index (field_insert k f v) = v_index v" "v_local (field_insert k f v) = v_local v"
  "v_need_drop (field_insert k f v) = v_need_drop v" "v_may_drop (field_insert k f v) = v_may_drop v"
  "v_kind (field_insert k f v) = v_kind v" "v_father (field_insert k f v) = v_father v"
  "v_field_id (field_insert k f v) = v_field_id v" "vnode.more (field_insert k f v) = vnode.more v"
  by (simp_all add: field_insert_def)

lemma field_get_insert [simp]:
  "field_get k' (field_insert k f v) = (if k' = k then Some f else field_get k' v)"
  by (simp add: field_get_def field_insert_def update_conv')

lemma distinct_field_insert [simp]:
  "distinct (map fst (v_fields v)) \<Longrightarrow> distinct (map fst (v_fields (field_insert k f v)))"
  by (simp add: field_insert_def distinct_update)

lemma set_field_insert: "set (v_fields (field_insert k f v)) \<subseteq> insert (k, f) (set (v_fields v))"
proof -
  have "set (AList.update k f xs) \<subseteq> insert (k, f) (set xs)" for xs :: "(nat \<times> nat) list"
    by (induction xs) auto
  then show ?thesis by (simp add: field_insert_def)
qed

end
