(* ===== verification/Ownership.thy ===== *)
theory Ownership
  imports Mir
begin

section \<open>Heap ownership of types\<close>

text \<open>
  \<^verbatim>\<open>core/heap_item/ownership.rs\<close> and the result types of \<^verbatim>\<open>core/heap_item.rs\<close>: for every variant of
  an ADT, whether it owns heap memory and which of its generic parameters occur by value.
\<close>

datatype raw_type_owner = Unowned | Owned | Uninit

fun rto_is_owned :: "raw_type_owner \<Rightarrow> bool" where
  "rto_is_owned Owned = True"
| "rto_is_owned Unowned = False"
| "rto_is_owned Uninit = False"

type_synonym owner_unit = "raw_type_owner \<times> bool list"
type_synonym adt_owner = "def_id \<rightharpoonup> owner_unit list"

end
