(* ===== verification/Sd_Graph.thy ===== *)
theory Sd_Graph
  imports Value_Node Ownership
begin

section \<open>SafeDrop: the graph of a function\<close>

text \<open>
  \<^verbatim>\<open>safedrop/graph.rs\<close> (data types and \<open>SafeDropGraph::new\<close>), \<^verbatim>\<open>safedrop/types.rs\<close>,
  \<^verbatim>\<open>safedrop/bug_records.rs\<close> and the predicates of \<^verbatim>\<open>safedrop/corner_handle.rs\<close>. A function body
  becomes a vector of value nodes (one per local, later one per accessed field), a vector of
  block nodes with the assignments, calls and drops of each basic block, and the bookkeeping
  of the traversal.
\<close>

subsection \<open>Nodes and records\<close>

record sd_block = block_node +
  b_is_cleanup :: bool
  b_drops :: "terminator list"

definition sd_block_new :: "nat \<Rightarrow> bool \<Rightarrow> sd_block" where
  "sd_block_new i c =
     \<lparr>b_index = i, b_next = [], b_assignments = [], b_calls = [], b_scc_sub_blocks = [],
      b_const_value = [], b_switch_stmts = [], b_modified_value = [],
      b_is_cleanup = c, b_drops = []\<rparr>"

record sd_node = vnode +
  v_birth :: int

definition sd_node_new :: "nat \<Rightarrow> nat \<Rightarrow> bool \<Rightarrow> bool \<Rightarrow> sd_node" where
  "sd_node_new i l nd md =
     \<lparr>v_index = i, v_local = l, v_need_drop = nd, v_may_drop = md, v_kind = Kd_Adt,
      v_father = l, v_field_id = usize_MAX, v_fields = [], v_birth = 0\<rparr>"

definition dead :: "sd_node \<Rightarrow> sd_node" where
  "dead v = v\<lparr>v_birth := -1\<rparr>"

definition is_alive :: "sd_node \<Rightarrow> bool" where
  "is_alive v \<longleftrightarrow> v_birth v > -1"

record bug_records =
  df_bugs :: "nat \<rightharpoonup> span"
  df_bugs_unwind :: "nat \<rightharpoonup> span"
  uaf_bugs :: "span set"
  dp_bugs :: "span set"
  dp_bugs_unwind :: "span set"

definition bug_records_new :: bug_records where
  "bug_records_new =
     \<lparr>df_bugs = Map.empty, df_bugs_unwind = Map.empty, uaf_bugs = {}, dp_bugs = {}, dp_bugs_unwind = {}\<rparr>"

definition is_bug_free :: "bug_records \<Rightarrow> bool" where
  "is_bug_free r \<longleftrightarrow> df_bugs r = Map.empty \<and> uaf_bugs r = {} \<and> dp_bugs r = {} \<and> dp_bugs_unwind r = {}"

record sd_graph =
  g_def_id :: def_id
  g_span :: span
  g_values :: "sd_node list"
  g_blocks :: "sd_block list"
  g_arg_size :: nat
  g_scc_indices :: "nat list"
  g_constant :: "nat \<rightharpoonup> nat"
  g_return_set :: "(nat \<times> nat) set"
  g_bugs :: bug_records
  g_visit_times :: nat
  g_alias_set :: "nat list"
  g_dead_record :: "bool list"
  g_adt_owner :: adt_owner
  g_child_scc :: "nat \<rightharpoonup> sd_block \<times> switch_targets \<times> nat list"

subsection \<open>Predicates on types and definitions\<close>

definition is_corner_adt :: "string \<Rightarrow> bool" where
  "is_corner_adt s \<longleftrightarrow>
     str_contains s ''cell::RefMut'' \<or> str_contains s ''cell::Ref'' \<or> str_contains s ''rc::Rc''"

definition sd_kind :: "tcx \<Rightarrow> ty \<Rightarrow> ty_kind" where
  "sd_kind tcx t =
     (case t of
        Ty_RawPtr _ _ \<Rightarrow> Kd_RawPtr
      | Ty_Ref _ _ \<Rightarrow> Kd_Ref
      | Ty_Tuple _ \<Rightarrow> Kd_Tuple
      | Ty_Adt d _ \<Rightarrow> if is_corner_adt (adt_debug_str tcx d) then Kd_CornerCase else Kd_Adt
      | _ \<Rightarrow> Kd_Adt)"

text \<open>\<open>needs_drop || !is_not_drop\<close>, computed for every local and every accessed field\<close>

definition ty_drop_flags :: "tcx \<Rightarrow> ty \<Rightarrow> (bool \<times> bool) res" where
  "ty_drop_flags tcx t =
     rbind (is_not_drop tcx t) (\<lambda>nd.
     let need = needs_drop tcx t; may = \<not> nd in Inr (need, need \<or> may))"

definition corner_handle :: "tcx \<Rightarrow> def_id \<Rightarrow> bool" where
  "corner_handle tcx d \<longleftrightarrow>
     def_index tcx d = CALL_MUT \<or> def_index tcx d = NEXT \<or> def_index tcx d = CLONE"

text \<open>The text after the last \<open>::\<close> of a path (\<open>rfind\<close> and \<open>get\<close>).\<close>

fun after_last_colons :: "string \<Rightarrow> string option" where
  "after_last_colons [] = None"
| "after_last_colons (c # cs) =
     (case after_last_colons cs of
        Some t \<Rightarrow> Some t
      | None \<Rightarrow> if str_prefix ''::'' (c # cs) then Some (drop 2 (c # cs)) else None)"

definition should_check :: "tcx \<Rightarrow> def_id \<Rightarrow> bool" where
  "should_check tcx d =
     (let s = def_debug_str tcx d;
          s = (case after_last_colons s of Some t \<Rightarrow> t | None \<Rightarrow> s)
      in if str_contains s ''drop'' then False
         else if str_contains s ''dealloc'' then False
         else if str_contains s ''release'' then False
         else if str_contains s ''destroy'' then False
         else True)"

subsection \<open>Building the graph: locals and statements\<close>

record sd_build =
  bu_values :: "sd_node list"
  bu_alias :: "nat list"
  bu_dead :: "bool list"
  bu_block :: sd_block

fun sd_new_locals :: "tcx \<Rightarrow> ty list \<Rightarrow> sd_node list \<times> nat list \<times> bool list \<Rightarrow>
    (sd_node list \<times> nat list \<times> bool list) res" where
  "sd_new_locals tcx [] acc = Inr acc"
| "sd_new_locals tcx (t # ts) (vs, al, de) =
     rbind (ty_drop_flags tcx t) (\<lambda>(need, may).
     let node = (sd_node_new (length vs) (length vs) need may)\<lparr>v_kind := sd_kind tcx t\<rparr>
     in sd_new_locals tcx ts (vs @ [node], al @ [length al], de @ [False]))"

definition sd_push_assign :: "place \<Rightarrow> place \<Rightarrow> assign_type \<Rightarrow> span \<Rightarrow> sd_build \<Rightarrow> sd_build" where
  "sd_push_assign lv rv aty sp s =
     s\<lparr>bu_block := (bu_block s)\<lparr>b_assignments := b_assignments (bu_block s) @
        [\<lparr>as_lv = lv, as_rv = rv, as_atype = aty, as_span = sp\<rparr>]\<rparr>\<rparr>"

text \<open>\<open>if values[lv_local].may_drop && values[rv_local].may_drop { assignments.push(..) }\<close>\<close>

definition sd_guarded_assign :: "place \<Rightarrow> place \<Rightarrow> assign_type \<Rightarrow> span \<Rightarrow> sd_build \<Rightarrow> sd_build res" where
  "sd_guarded_assign lv rv aty sp s =
     rbind (at (bu_values s) (p_local lv)) (\<lambda>l.
     if \<not> v_may_drop l then Inr s
     else rbind (at (bu_values s) (p_local rv)) (\<lambda>r.
     if v_may_drop r then Inr (sd_push_assign lv rv aty sp s) else Inr s))"

definition sd_push_const :: "nat \<Rightarrow> nat option \<Rightarrow> sd_build \<Rightarrow> sd_build" where
  "sd_push_const lv sc s =
     (case sc of None \<Rightarrow> s
      | Some v \<Rightarrow> s\<lparr>bu_block := (bu_block s)\<lparr>b_const_value := b_const_value (bu_block s) @ [(lv, as_usize v)]\<rparr>\<rparr>)"

definition sd_init_box :: "nat \<Rightarrow> sd_build \<Rightarrow> sd_build res" where
  "sd_init_box lv s =
     rbind (at (bu_values s) lv) (\<lambda>l.
     if field_get 0 l \<noteq> None then Inr s
     else let lvl0 = (sd_node_new (length (bu_values s)) lv False True)\<lparr>v_birth := v_birth l, v_field_id := 0\<rparr>
          in Inr (s\<lparr>bu_values := (bu_values s)[lv := field_insert 0 (v_index lvl0) l] @ [lvl0],
                    bu_alias := bu_alias s @ [length (bu_alias s)],
                    bu_dead := bu_dead s @ [False]\<rparr>))"

definition sd_rvalue :: "place \<Rightarrow> rvalue \<Rightarrow> span \<Rightarrow> sd_build \<Rightarrow> sd_build res" where
  "sd_rvalue lv rv sp s =
     (case rv of
        Use (Copy p) \<Rightarrow> sd_guarded_assign lv p At_Copy sp s
      | Use (Move p) \<Rightarrow> sd_guarded_assign lv p At_Move sp s
      | Use (Constant c) \<Rightarrow>
          (case c_const c of
             Const_Ty sc \<Rightarrow> Inr (sd_push_const (p_local lv) sc s)
           | Const_Unevaluated \<Rightarrow> Inr s
           | Const_Val sc \<Rightarrow> Inr (sd_push_const (p_local lv) sc s))
      | Ref _ p \<Rightarrow> sd_guarded_assign lv p At_Copy sp s
      | RawPtr _ p \<Rightarrow> sd_guarded_assign lv p At_Copy sp s
      | ShallowInitBox x _ \<Rightarrow>
          rbind (sd_init_box (p_local lv) s) (\<lambda>s.
          case x of
            Copy p \<Rightarrow> sd_guarded_assign lv p At_InitBox sp s
          | Move p \<Rightarrow> sd_guarded_assign lv p At_InitBox sp s
          | Constant _ \<Rightarrow> Inr s)
      | Cast _ x _ \<Rightarrow>
          (case x of
             Copy p \<Rightarrow> sd_guarded_assign lv p At_Copy sp s
           | Move p \<Rightarrow> sd_guarded_assign lv p At_Move sp s
           | Constant _ \<Rightarrow> Inr s)
      | Aggregate _ xs \<Rightarrow>
          rfold (\<lambda>x s. case x of
             Copy p \<Rightarrow> sd_guarded_assign lv p At_Copy sp s
           | Move p \<Rightarrow> sd_guarded_assign lv p At_Copy sp s
           | Constant _ \<Rightarrow> Inr s) xs s
      | Discriminant p \<Rightarrow> Inr (sd_push_assign lv p At_Variant sp s)
      | _ \<Rightarrow> Inr s)"

definition sd_stmt :: "statement \<Rightarrow> sd_build \<Rightarrow> sd_build res" where
  "sd_stmt st s =
     (case s_kind st of
        Assign lv rv \<Rightarrow>
          let s = s\<lparr>bu_block := (bu_block s)\<lparr>b_modified_value :=
                      hs_insert (p_local lv) (b_modified_value (bu_block s))\<rparr>\<rparr>
          in sd_rvalue lv rv (s_span st) s
      | _ \<Rightarrow> Inr s)"

subsection \<open>Building the graph: terminators\<close>

definition add_cleanup :: "unwind_action \<Rightarrow> 'a block_node_scheme \<Rightarrow> 'a block_node_scheme" where
  "add_cleanup u b = (case u of Uw_Cleanup t \<Rightarrow> add_next t b | _ \<Rightarrow> b)"

definition is_drop_call :: "tcx \<Rightarrow> operand \<Rightarrow> bool" where
  "is_drop_call tcx f =
     (case f of
        Constant c \<Rightarrow>
          (case c_ty c of
             Ty_FnDef d _ \<Rightarrow> def_index tcx d \<in> {DROP, DROP_IN_PLACE, MANUALLYDROP, BOX_DROP_IN_PLACE, DEALLOC}
           | _ \<Rightarrow> False)
      | _ \<Rightarrow> False)"

definition sd_terminator :: "tcx \<Rightarrow> terminator \<Rightarrow> sd_block \<Rightarrow> sd_block res" where
  "sd_terminator tcx t b =
     (case t_kind t of
        Goto tgt \<Rightarrow> Inr (add_next tgt b)
      | SwitchInt _ targets \<Rightarrow>
          (let b = b\<lparr>b_switch_stmts := b_switch_stmts b @ [t]\<rparr>;
               b = fold (\<lambda>(_, tgt). add_next tgt) (sw_values targets) b
           in Inr (add_next (sw_otherwise targets) b))
      | UnwindResume \<Rightarrow> Inr b
      | Return \<Rightarrow> Inr b
      | UnwindTerminate \<Rightarrow> Inr b
      | Unreachable \<Rightarrow> Inr b
      | Drop _ tgt uw \<Rightarrow>
          (let b = add_next tgt b; b = b\<lparr>b_drops := b_drops b @ [t]\<rparr> in Inr (add_cleanup uw b))
      | Call f _ _ tgt uw \<Rightarrow>
          (let b = (if is_drop_call tcx f then b\<lparr>b_drops := b_drops b @ [t]\<rparr> else b);
               b = (case tgt of Some tt \<Rightarrow> add_next tt b | None \<Rightarrow> b);
               b = add_cleanup uw b
           in Inr (b\<lparr>b_calls := b_calls b @ [t]\<rparr>))
      | TailCall \<Rightarrow> Inl Todo
      | Assert tgt uw \<Rightarrow> Inr (add_cleanup uw (add_next tgt b))
      | Yield resume dr \<Rightarrow>
          (let b = add_next resume b in Inr (case dr of Some tgt \<Rightarrow> add_next tgt b | None \<Rightarrow> b))
      | FalseEdge r \<Rightarrow> Inr (add_next r b)
      | FalseUnwind r \<Rightarrow> Inr (add_next r b)
      | CoroutineDrop \<Rightarrow> Inr b
      | InlineAsm tgts uw \<Rightarrow> Inr (add_cleanup uw (fold add_next tgts b)))"

definition sd_new_block :: "tcx \<Rightarrow> nat \<Rightarrow> bb_data \<Rightarrow>
    sd_node list \<times> nat list \<times> bool list \<times> sd_block list \<Rightarrow>
    (sd_node list \<times> nat list \<times> bool list \<times> sd_block list) res" where
  "sd_new_block tcx i bb = (\<lambda>(vs, al, de, bs).
     rbind (unwrap (bb_terminator bb)) (\<lambda>t.
     rbind (rfold sd_stmt (bb_statements bb)
        \<lparr>bu_values = vs, bu_alias = al, bu_dead = de, bu_block = sd_block_new i (bb_is_cleanup bb)\<rparr>) (\<lambda>s.
     rbind (sd_terminator tcx t (bu_block s)) (\<lambda>b.
     Inr (bu_values s, bu_alias s, bu_dead s, bs @ [b])))))"

definition sd_new :: "body \<Rightarrow> tcx \<Rightarrow> def_id \<Rightarrow> adt_owner \<Rightarrow> sd_graph res" where
  "sd_new body tcx d owner =
     rbind (sd_new_locals tcx (local_decls body) ([], [], [])) (\<lambda>(vs, al, de).
     rbind (rfold (\<lambda>(i, bb). sd_new_block tcx i bb) (enumerate 0 (basic_blocks body)) (vs, al, de, []))
       (\<lambda>(vs, al, de, bs).
     Inr \<lparr>g_def_id = d, g_span = body_span body, g_values = vs, g_blocks = bs,
          g_arg_size = arg_count body, g_scc_indices = [0..<length (basic_blocks body)],
          g_constant = Map.empty, g_return_set = {}, g_bugs = bug_records_new, g_visit_times = 0,
          g_alias_set = al, g_dead_record = de, g_adt_owner = owner, g_child_scc = Map.empty\<rparr>))"

end
