(* ===== verification/Sd_Value.thy ===== *)
theory Sd_Value
  imports Sd_Graph
begin

section \<open>SafeDrop: projections and alias merging\<close>

text \<open>
  \<^verbatim>\<open>safedrop/alias.rs\<close>: \<open>fill_birth\<close>, \<open>projection\<close>, \<open>merge_alias\<close> and \<open>merge\<close>. They walk and extend the
  value nodes: a field that is accessed for the first time gets a node of its own. The recursive
  functions take a fuel argument that counts nested calls.
\<close>

subsection \<open>The operations\<close>

definition sd_upd_node :: "nat \<Rightarrow> (sd_node \<Rightarrow> sd_node) \<Rightarrow> sd_graph \<Rightarrow> sd_graph res" where
  "sd_upd_node i f g =
     rbind (at (g_values g) i) (\<lambda>v. Inr (g\<lparr>g_values := (g_values g)[i := f v]\<rparr>))"

text \<open>The four pushes that create a field node: \<open>al\<close> is the index pushed on the alias set.\<close>

definition sd_push_field :: "nat \<Rightarrow> nat \<Rightarrow> sd_node \<Rightarrow> nat \<Rightarrow> sd_graph \<Rightarrow> sd_graph res" where
  "sd_push_field owner k node al g =
     rbind (sd_upd_node owner (field_insert k (v_index node)) g) (\<lambda>g.
     Inr (g\<lparr>g_values := g_values g @ [node],
            g_alias_set := g_alias_set g @ [al],
            g_dead_record := g_dead_record g @ [False]\<rparr>))"

fun sd_fill_birth :: "nat \<Rightarrow> tcx \<Rightarrow> nat \<Rightarrow> int \<Rightarrow> sd_graph \<Rightarrow> sd_graph res" where
  "sd_fill_birth 0 tcx node birth g = Inl Diverges"
| "sd_fill_birth (Suc n) tcx node birth g =
     rbind (sd_upd_node node (\<lambda>v. v\<lparr>v_birth := birth\<rparr>) g) (\<lambda>g.
     rbind (rfold (\<lambda>i g.
        rbind (union_is_same (g_alias_set g) i node) (\<lambda>same.
        if \<not> same then Inr g
        else rbind (at (g_values g) i) (\<lambda>v.
             if v_birth v = -1 then sd_upd_node i (\<lambda>v. v\<lparr>v_birth := birth\<rparr>) g else Inr g)))
        [0..<length (g_values g)] g) (\<lambda>g.
     rbind (at (g_values g) node) (\<lambda>v.
     rfold (\<lambda>(_, f) g. sd_fill_birth n tcx f birth g) (hm_iter tcx (v_fields v)) g)))"

definition sd_proj_elem :: "tcx \<Rightarrow> bool \<Rightarrow> proj_elem \<Rightarrow> nat \<times> nat \<times> sd_graph \<Rightarrow> (nat \<times> nat \<times> sd_graph) res" where
  "sd_proj_elem tcx is_right proj = (\<lambda>(local, proj_id, g).
     let new_id = length (g_values g) in
     case proj of
       Deref \<Rightarrow> rbind (at (g_alias_set g) proj_id) (\<lambda>p. Inr (local, p, g))
     | Field field_idx t \<Rightarrow>
         rbind (if is_right
                then rbind (at (g_alias_set g) proj_id) (\<lambda>p.
                     if p \<noteq> proj_id then rbind (at (g_values g) p) (\<lambda>v. Inr (v_local v, p))
                     else Inr (local, proj_id))
                else Inr (local, proj_id)) (\<lambda>(local, proj_id).
         rbind (at (g_values g) proj_id) (\<lambda>v.
         rbind (if field_get field_idx v = None
                then rbind (ty_drop_flags tcx t) (\<lambda>(need, may).
                     sd_push_field proj_id field_idx
                       ((sd_node_new new_id local need may)
                          \<lparr>v_kind := sd_kind tcx t, v_birth := v_birth v, v_field_id := field_idx\<rparr>)
                       (length (g_alias_set g)) g)
                else Inr g) (\<lambda>g.
         rbind (at (g_values g) proj_id) (\<lambda>v.
         rbind (unwrap (field_get field_idx v)) (\<lambda>f. Inr (local, f, g))))))
     | _ \<Rightarrow> Inr (local, proj_id, g))"

definition sd_projection :: "tcx \<Rightarrow> bool \<Rightarrow> place \<Rightarrow> sd_graph \<Rightarrow> (nat \<times> sd_graph) res" where
  "sd_projection tcx is_right p g =
     rbind (rfold (sd_proj_elem tcx is_right) (p_projection p) (p_local p, p_local p, g))
       (\<lambda>(local, proj_id, g). Inr (proj_id, g))"

text \<open>The body of the field loop of \<open>merge_alias\<close>: the field \<open>k\<close> of \<open>lv\<close>, created like \<open>f\<close> if it is new.\<close>

definition sd_like_field :: "nat \<Rightarrow> nat \<Rightarrow> nat \<Rightarrow> sd_graph \<Rightarrow> (nat \<times> sd_graph) res" where
  "sd_like_field lv k f g =
     rbind (at (g_values g) lv) (\<lambda>l.
     rbind (if field_get k l = None
            then rbind (at (g_values g) f) (\<lambda>vf.
                 sd_push_field lv k
                   ((sd_node_new (length (g_values g)) (v_local l) (v_need_drop vf) (v_may_drop vf))
                      \<lparr>v_kind := v_kind vf, v_birth := v_birth l, v_field_id := k\<rparr>)
                   (length (g_alias_set g)) g)
            else Inr g) (\<lambda>g.
     rbind (at (g_values g) lv) (\<lambda>l.
     rbind (unwrap (field_get k l)) (\<lambda>lf. Inr (lf, g)))))"

fun sd_merge_alias :: "nat \<Rightarrow> tcx \<Rightarrow> nat \<Rightarrow> nat \<Rightarrow> sd_graph \<Rightarrow> sd_graph res" where
  "sd_merge_alias 0 tcx lv rv g = Inl Diverges"
| "sd_merge_alias (Suc n) tcx lv rv g =
     (if lv > length (g_values g) \<or> rv > length (g_values g) then Inr g
      else rbind (union_merge (g_alias_set g) lv rv) (\<lambda>a.
      let g = g\<lparr>g_alias_set := a\<rparr> in
      rbind (at (g_values g) rv) (\<lambda>r.
      rfold (\<lambda>(k, f) g. rbind (sd_like_field lv k f g) (\<lambda>(lf, g). sd_merge_alias n tcx lf f g))
        (hm_iter tcx (v_fields r)) g)))"

text \<open>
  The nested calls of \<open>merge_alias\<close> and \<open>fill_birth\<close> follow field edges; the bound below is the
  number of values at the outermost call plus one.
\<close>

definition sd_merge_alias_top :: "tcx \<Rightarrow> nat \<Rightarrow> nat \<Rightarrow> sd_graph \<Rightarrow> sd_graph res" where
  "sd_merge_alias_top tcx lv rv g = sd_merge_alias (Suc (length (g_values g))) tcx lv rv g"

definition sd_fill_birth_top :: "tcx \<Rightarrow> nat \<Rightarrow> int \<Rightarrow> sd_graph \<Rightarrow> sd_graph res" where
  "sd_fill_birth_top tcx node birth g = sd_fill_birth (Suc (length (g_values g))) tcx node birth g"

fun sd_left_fields :: "ret_alias \<Rightarrow> nat \<Rightarrow> nat list \<Rightarrow> nat \<times> sd_graph \<Rightarrow> (nat \<times> sd_graph) res" where
  "sd_left_fields ra left_init [] (lv, g) = Inr (lv, g)"
| "sd_left_fields ra left_init (index # ks) (lv, g) =
     rbind (at (g_values g) lv) (\<lambda>l.
     rbind (if field_get index l = None
            then sd_push_field lv index
                   ((sd_node_new (length (g_values g)) left_init (left_need_drop ra) (left_may_drop ra))
                      \<lparr>v_kind := Kd_RawPtr, v_birth := v_birth l, v_field_id := index\<rparr>)
                   (length (g_alias_set g)) g
            else Inr g) (\<lambda>g.
     rbind (at (g_values g) lv) (\<lambda>l.
     rbind (unwrap (field_get index l)) (\<lambda>lv. sd_left_fields ra left_init ks (lv, g)))))"

fun sd_right_fields :: "ret_alias \<Rightarrow> nat list \<Rightarrow> nat \<times> nat \<times> sd_graph \<Rightarrow> (nat \<times> sd_graph) res" where
  "sd_right_fields ra [] (right_init, rv, g) = Inr (rv, g)"
| "sd_right_fields ra (index # ks) (right_init, rv, g) =
     rbind (at (g_alias_set g) rv) (\<lambda>p.
     rbind (union_is_same (g_alias_set g) rv p) (\<lambda>same.
     rbind (if same
            then rbind (at (g_values g) rv) (\<lambda>v.
                 rbind (at (g_values g) (v_index v)) (\<lambda>w. Inr (v_local w, v_index v)))
            else Inr (right_init, rv)) (\<lambda>(right_init, rv).
     rbind (at (g_values g) rv) (\<lambda>r.
     rbind (if field_get index r = None
            then sd_push_field rv index
                   ((sd_node_new (length (g_alias_set g)) right_init (right_need_drop ra) (right_may_drop ra))
                      \<lparr>v_kind := Kd_RawPtr, v_birth := v_birth r, v_field_id := index\<rparr>)
                   (length (g_values g)) g
            else Inr g) (\<lambda>g.
     rbind (at (g_values g) rv) (\<lambda>r.
     rbind (unwrap (field_get index r)) (\<lambda>rv. sd_right_fields ra ks (right_init, rv, g))))))))"

definition sd_merge :: "tcx \<Rightarrow> ret_alias \<Rightarrow> nat list \<Rightarrow> sd_graph \<Rightarrow> sd_graph res" where
  "sd_merge tcx ra arg_vec g =
     (if left_index ra \<ge> length arg_vec \<or> right_index ra \<ge> length arg_vec then Inr g
      else let left_init = arg_vec ! left_index ra; right_init = arg_vec ! right_index ra in
      rbind (sd_left_fields ra left_init (left_field_seq ra) (left_init, g)) (\<lambda>(lv, g).
      rbind (sd_right_fields ra (right_field_seq ra) (right_init, right_init, g)) (\<lambda>(rv, g).
      sd_merge_alias_top tcx lv rv g)))"

subsection \<open>The value invariant\<close>

text \<open>
  Every value node stands at its own index, belongs to an existing value, and its field nodes
  are younger than it; the alias set and the dead record cover exactly the values.
\<close>

definition sd_node_wf :: "nat \<Rightarrow> nat \<Rightarrow> sd_node \<Rightarrow> bool" where
  "sd_node_wf n i v \<longleftrightarrow> v_index v = i \<and> v_local v < n \<and> distinct (map fst (v_fields v)) \<and>
     (\<forall>(k, f) \<in> set (v_fields v). i < f \<and> f < n)"

definition sd_wf :: "sd_graph \<Rightarrow> bool" where
  "sd_wf g \<longleftrightarrow> length (g_alias_set g) = length (g_values g) \<and>
     length (g_dead_record g) = length (g_values g) \<and> uf_forest (g_alias_set g) \<and>
     (\<forall>i<length (g_values g). sd_node_wf (length (g_values g)) i (g_values g ! i))"

definition sd_core :: "sd_graph \<Rightarrow> _" where
  "sd_core g = (g_def_id g, g_span g, g_blocks g, g_arg_size g, g_scc_indices g, g_constant g,
     g_visit_times g, g_adt_owner g, g_child_scc g)"

definition sd_grows :: "sd_graph \<Rightarrow> sd_graph \<Rightarrow> bool" where
  "sd_grows g g' \<longleftrightarrow> sd_wf g' \<and> length (g_values g) \<le> length (g_values g') \<and> sd_core g' = sd_core g"

lemma sd_grows_refl: "sd_wf g \<Longrightarrow> sd_grows g g"
  by (simp add: sd_grows_def)

lemma sd_grows_trans: "sd_grows g h \<Longrightarrow> sd_grows h k \<Longrightarrow> sd_grows g k"
  by (auto simp: sd_grows_def)

lemma sd_wf_node: "sd_wf g \<Longrightarrow> i < length (g_values g) \<Longrightarrow> sd_node_wf (length (g_values g)) i (g_values g ! i)"
  by (simp add: sd_wf_def)

lemma sd_wf_lens:
  "sd_wf g \<Longrightarrow> length (g_alias_set g) = length (g_values g)"
  "sd_wf g \<Longrightarrow> length (g_dead_record g) = length (g_values g)"
  "sd_wf g \<Longrightarrow> uf_forest (g_alias_set g)"
  by (simp_all add: sd_wf_def)

lemma field_get_in: "field_get k v = Some f \<Longrightarrow> (k, f) \<in> set (v_fields v)"
  by (simp add: field_get_def map_of_SomeD)

lemma sd_wf_field:
  "sd_wf g \<Longrightarrow> i < length (g_values g) \<Longrightarrow> field_get k (g_values g ! i) = Some f \<Longrightarrow>
     i < f \<and> f < length (g_values g)"
  by (fastforce dest: sd_wf_node field_get_in simp: sd_node_wf_def)

lemma sd_node_wf_mono: "sd_node_wf n i v \<Longrightarrow> n \<le> m \<Longrightarrow> sd_node_wf m i v"
  by (fastforce simp: sd_node_wf_def)

lemma sd_node_wf_field_insert:
  "sd_node_wf n i v \<Longrightarrow> i < f \<Longrightarrow> f < n \<Longrightarrow> sd_node_wf n i (field_insert k f v)"
  using set_field_insert [of k f v] by (auto simp: sd_node_wf_def)

lemma sd_node_new_wf:
  "l < n \<Longrightarrow> i < n \<Longrightarrow> sd_node_wf n i ((sd_node_new i l a b)\<lparr>v_kind := kd, v_birth := bi, v_field_id := fi\<rparr>)"
  by (simp add: sd_node_wf_def sd_node_new_def)

text \<open>Changing nothing but the birth of a node keeps the invariant.\<close>

lemma sd_upd_birth:
  assumes "sd_wf g" "i < length (g_values g)"
  shows "ok (\<lambda>h. sd_grows g h \<and> length (g_values h) = length (g_values g) \<and> g_alias_set h = g_alias_set g)
    (sd_upd_node i (\<lambda>v. v\<lparr>v_birth := b\<rparr>) g)"
  using assms
  by (auto simp: sd_upd_node_def sd_grows_def sd_wf_def sd_node_wf_def sd_core_def nth_list_update)

definition sd_pushed :: "nat \<Rightarrow> nat \<Rightarrow> sd_graph \<Rightarrow> sd_graph \<Rightarrow> bool" where
  "sd_pushed owner k g h \<longleftrightarrow> sd_grows g h \<and> length (g_values h) = Suc (length (g_values g)) \<and>
     field_get k (g_values h ! owner) = Some (length (g_values g)) \<and>
     (\<forall>i<length (g_values g). i \<noteq> owner \<longrightarrow> g_values h ! i = g_values g ! i) \<and>
     (\<forall>k'. k' \<noteq> k \<longrightarrow> field_get k' (g_values h ! owner) = field_get k' (g_values g ! owner)) \<and>
     v_local (g_values h ! owner) = v_local (g_values g ! owner) \<and>
     v_fields (g_values h ! length (g_values g)) = [] \<and>
     (\<forall>i<length (g_values g). uf_rep (g_alias_set h) i = uf_rep (g_alias_set g) i)"

lemma sd_push_field_ok:
  assumes wf: "sd_wf g" and o: "owner < length (g_values g)" and l: "l < length (g_values g)"
    and ix: "ix = length (g_values g)" and al: "al = length (g_values g)"
  shows "ok (sd_pushed owner k g)
    (sd_push_field owner k ((sd_node_new ix l a b)\<lparr>v_kind := kd, v_birth := bi, v_field_id := fi\<rparr>) al g)"
proof -
  let ?n = "length (g_values g)"
  let ?node = "(sd_node_new ?n l a b)\<lparr>v_kind := kd, v_birth := bi, v_field_id := fi\<rparr>"
  define h where "h = g\<lparr>g_values := (g_values g)[owner := field_insert k ?n (g_values g ! owner)] @ [?node],
    g_alias_set := g_alias_set g @ [?n], g_dead_record := g_dead_record g @ [False]\<rparr>"
  have push: "sd_push_field owner k ?node ?n g = Inr h"
    using o by (simp add: sd_push_field_def sd_upd_node_def h_def sd_node_new_def)
  have nodes: "sd_node_wf (Suc ?n) i (g_values h ! i)" if "i < Suc ?n" for i
  proof (cases "i = ?n")
    case True
    have "g_values h ! ?n = ?node" by (simp add: h_def nth_append)
    with True l show ?thesis by (simp add: sd_node_new_wf)
  next
    case False
    with that have i: "i < ?n" by simp
    have "sd_node_wf (Suc ?n) i (g_values g ! i)"
      using sd_wf_node [OF wf i] by (rule sd_node_wf_mono) simp
    with i o show ?thesis
      by (auto simp: h_def nth_append nth_list_update intro!: sd_node_wf_field_insert)
  qed
  have reps: "uf_forest (g_alias_set h)" "\<forall>i<?n. uf_rep (g_alias_set h) i = uf_rep (g_alias_set g) i"
    using uf_push [OF sd_wf_lens(3) [OF wf]] sd_wf_lens(1) [OF wf] by (auto simp: h_def)
  with wf nodes have "sd_wf h" by (simp add: sd_wf_def h_def)
  moreover note reps(2)
  ultimately have "sd_pushed owner k g h" using o
    by (auto simp: sd_pushed_def sd_grows_def sd_core_def h_def nth_append sd_node_new_def)
  with push show ?thesis by (simp add: ix al)
qed

subsection \<open>Looking a field up, creating it if it is new\<close>

definition sd_ensured :: "nat \<Rightarrow> nat \<Rightarrow> nat \<Rightarrow> sd_graph \<Rightarrow> sd_graph \<Rightarrow> bool" where
  "sd_ensured owner k f g h \<longleftrightarrow> sd_grows g h \<and> owner < f \<and> f < length (g_values h) \<and>
     field_get k (g_values h ! owner) = Some f \<and> 
     (h = g \<or> field_get k (g_values g ! owner) = None \<and> sd_pushed owner k g h \<and> f = length (g_values g))"

lemma sd_ensure:
  assumes wf: "sd_wf g" and o: "owner < length (g_values g)"
    and push: "field_get k (g_values g ! owner) = None \<Longrightarrow> ok (sd_pushed owner k g) m"
    and cont: "\<And>h f. sd_ensured owner k f g h \<Longrightarrow> ok P (c f h)"
  shows "ok P (rbind (if field_get k (g_values g ! owner) = None then m else Inr g) (\<lambda>g.
           rbind (at (g_values g) owner) (\<lambda>l. rbind (unwrap (field_get k l)) (\<lambda>f. c f g))))"
proof (cases "field_get k (g_values g ! owner)")
  case None
  from push [OF None] obtain h where h: "m = Inr h" "sd_pushed owner k g h" by (auto simp: ok_def)
  then have "sd_ensured owner k (length (g_values g)) g h" using o None
    by (auto simp: sd_ensured_def sd_pushed_def)
  then have "ok P (c (length (g_values g)) h)" by (rule cont)
  moreover have "length (g_values h) = Suc (length (g_values g))"
    and "field_get k (g_values h ! owner) = Some (length (g_values g))"
    using h(2) unfolding sd_pushed_def by blast+
  ultimately show ?thesis using None h(1) o by simp
next
  case (Some f)
  then have "sd_ensured owner k f g g"
    using wf sd_wf_field [OF wf o Some] by (simp add: sd_ensured_def sd_grows_refl)
  then have "ok P (c f g)" by (rule cont)
  then show ?thesis using Some o by simp
qed

lemma sd_ensured_wf: "sd_ensured owner k f g h \<Longrightarrow>
    sd_wf h \<and> sd_grows g h \<and> f < length (g_values h) \<and> length (g_values g) \<le> length (g_values h)"
  by (simp add: sd_ensured_def sd_grows_def)

subsection \<open>Projection\<close>

definition sd_at_node :: "sd_graph \<Rightarrow> nat \<times> nat \<times> sd_graph \<Rightarrow> bool" where
  "sd_at_node g = (\<lambda>(l, p, h). sd_grows g h \<and> l < length (g_values h) \<and> p < length (g_values h))"

definition place_tys_ok :: "tcx \<Rightarrow> place \<Rightarrow> bool" where
  "place_tys_ok tcx p \<longleftrightarrow>
     list_all (\<lambda>e. case e of Field _ t \<Rightarrow> ok (\<lambda>_. True) (is_not_drop tcx t) | _ \<Rightarrow> True) (p_projection p)"

lemma sd_proj_elem_ok:
  assumes st: "sd_at_node g (l, p, h)"
    and ty: "\<And>k t. e = Field k t \<Longrightarrow> ok (\<lambda>_. True) (is_not_drop tcx t)"
  shows "ok (sd_at_node g) (sd_proj_elem tcx is_right e (l, p, h))"
proof -
  from st have h: "sd_wf h" "sd_grows g h" "l < length (g_values h)" "p < length (g_values h)"
    by (auto simp: sd_at_node_def sd_grows_def)
  note lens = sd_wf_lens [OF h(1)]
  have pin: "g_alias_set h ! p < length (g_values h)"
    using uf_parent_in [OF lens(3), of p] h lens by simp
  have loc: "v_local (g_values h ! i) < length (g_values h)" if "i < length (g_values h)" for i
    using sd_wf_node [OF h(1) that] by (simp add: sd_node_wf_def)
  show ?thesis
  proof (cases e)
    case Deref
    with h pin lens show ?thesis by (simp add: sd_proj_elem_def sd_at_node_def)
  next
    case (Field k t)
    from ty [OF this] obtain nd where nd: "is_not_drop tcx t = Inr nd" by (auto simp: ok_def)
    have field: "ok (sd_at_node g) (rbind
        (if field_get k (g_values h ! p') = None
         then rbind (ty_drop_flags tcx t) (\<lambda>(need, may). sd_push_field p' k
                ((sd_node_new (length (g_values h)) l' need may)
                   \<lparr>v_kind := sd_kind tcx t, v_birth := v_birth (g_values h ! p'), v_field_id := k\<rparr>)
                (length (g_alias_set h)) h)
         else Inr h) (\<lambda>g. rbind (at (g_values g) p') (\<lambda>v.
           rbind (unwrap (field_get k v)) (\<lambda>f. Inr (l', f, g)))))"
      if "p' < length (g_values h)" "l' < length (g_values h)" for p' l'
    proof (rule sd_ensure [OF h(1) that(1)])
      show "ok (sd_pushed p' k h) (rbind (ty_drop_flags tcx t) (\<lambda>(need, may). sd_push_field p' k
                ((sd_node_new (length (g_values h)) l' need may)
                   \<lparr>v_kind := sd_kind tcx t, v_birth := v_birth (g_values h ! p'), v_field_id := k\<rparr>)
                (length (g_alias_set h)) h))"
        using that h(1) lens(1) nd by (simp add: ty_drop_flags_def Let_def sd_push_field_ok)
      fix h' f assume "sd_ensured p' k f h h'"
      then show "ok (sd_at_node g) (Inr (l', f, h'))"
        using that h(2) by (auto simp: sd_at_node_def dest!: sd_ensured_wf intro: sd_grows_trans)
    qed
    show ?thesis
    proof (cases "is_right \<and> g_alias_set h ! p \<noteq> p")
      case True
      with h(4) pin lens(1) field [OF pin loc [OF pin]] show ?thesis
        by (simp add: sd_proj_elem_def Field Let_def)
    next
      case False
      with h(4) lens(1) field [OF h(4,3)] show ?thesis
        by (auto simp: sd_proj_elem_def Field Let_def)
    qed
  qed (use st in \<open>auto simp: sd_proj_elem_def sd_at_node_def\<close>)
qed

lemma sd_projection_ok:
  assumes wf: "sd_wf g" and l: "p_local p < length (g_values g)" and ty: "place_tys_ok tcx p"
  shows "ok (\<lambda>(i, h). sd_grows g h \<and> i < length (g_values h)) (sd_projection tcx is_right p g)"
proof -
  have "ok (sd_at_node g) (rfold (sd_proj_elem tcx is_right) (p_projection p) (p_local p, p_local p, g))"
  proof (rule ok_rfold)
    show "sd_at_node g (p_local p, p_local p, g)"
      using wf l by (simp add: sd_at_node_def sd_grows_refl)
  next
    fix e s
    assume "e \<in> set (p_projection p)" "sd_at_node g s"
    then show "ok (sd_at_node g) (sd_proj_elem tcx is_right e s)"
      using ty by (cases s) (auto simp: place_tys_ok_def list_all_iff intro!: sd_proj_elem_ok)
  qed
  then show ?thesis
    by (auto simp: sd_projection_def sd_at_node_def intro!: ok_rbind elim!: ok_mono)
qed

subsection \<open>Reviving a value\<close>

text \<open>\<open>fill_birth\<close> changes births only, and writes nothing but the new birth.\<close>

definition sd_reborn :: "int \<Rightarrow> sd_graph \<Rightarrow> sd_graph \<Rightarrow> bool" where
  "sd_reborn b g h \<longleftrightarrow> (\<exists>vs. h = g\<lparr>g_values := vs\<rparr> \<and> length vs = length (g_values g) \<and>
     (\<forall>i<length vs. vs ! i = g_values g ! i \<or> vs ! i = (g_values g ! i)\<lparr>v_birth := b\<rparr>))"

lemma sd_reborn_refl: "sd_reborn b g g"
  by (auto simp: sd_reborn_def intro!: exI [of _ "g_values g"])

lemma sd_reborn_trans:
  assumes "sd_reborn b g h" "sd_reborn b h k"
  shows "sd_reborn b g k"
proof -
  from assms obtain vs ws where
    v: "h = g\<lparr>g_values := vs\<rparr>" "length vs = length (g_values g)"
      "\<And>i. i < length vs \<Longrightarrow> vs ! i = g_values g ! i \<or> vs ! i = (g_values g ! i)\<lparr>v_birth := b\<rparr>"
    and w: "k = h\<lparr>g_values := ws\<rparr>" "length ws = length (g_values h)"
      "\<And>i. i < length ws \<Longrightarrow> ws ! i = g_values h ! i \<or> ws ! i = (g_values h ! i)\<lparr>v_birth := b\<rparr>"
    unfolding sd_reborn_def by blast
  have "ws ! i = g_values g ! i \<or> ws ! i = (g_values g ! i)\<lparr>v_birth := b\<rparr>" if "i < length ws" for i
    using v(3) [of i] w(3) [OF that] that w(2) v(1,2) by auto
  moreover have "k = g\<lparr>g_values := ws\<rparr>" "length ws = length (g_values g)" using v w by simp_all
  ultimately show ?thesis unfolding sd_reborn_def by blast
qed

lemma sd_reborn_same:
  assumes "sd_reborn b g h"
  shows "length (g_values h) = length (g_values g)" "g_alias_set h = g_alias_set g"
    "g_dead_record h = g_dead_record g" "sd_core h = sd_core g"
    "i < length (g_values g) \<Longrightarrow> v_fields (g_values h ! i) = v_fields (g_values g ! i)"
    "i < length (g_values g) \<Longrightarrow> v_birth (g_values h ! i) \<in> {v_birth (g_values g ! i), b}"
    "sd_wf g \<Longrightarrow> sd_wf h"
proof -
  from assms obtain vs where v: "h = g\<lparr>g_values := vs\<rparr>" "length vs = length (g_values g)"
      "\<And>i. i < length vs \<Longrightarrow> vs ! i = g_values g ! i \<or> vs ! i = (g_values g ! i)\<lparr>v_birth := b\<rparr>"
    unfolding sd_reborn_def by blast
  show "length (g_values h) = length (g_values g)" "g_alias_set h = g_alias_set g"
    "g_dead_record h = g_dead_record g" "sd_core h = sd_core g"
    using v by (simp_all add: sd_core_def)
  show "i < length (g_values g) \<Longrightarrow> v_fields (g_values h ! i) = v_fields (g_values g ! i)"
    "i < length (g_values g) \<Longrightarrow> v_birth (g_values h ! i) \<in> {v_birth (g_values g ! i), b}"
    using v by (auto dest!: v(3) [of i, simplified v(2)])
  assume wf: "sd_wf g"
  have "sd_node_wf (length vs) i (vs ! i)" if "i < length vs" for i
    using v(3) [OF that] sd_wf_node [OF wf, of i] that v(2) by (auto simp: sd_node_wf_def)
  then show "sd_wf h" using wf v by (simp add: sd_wf_def)
qed

lemma sd_reborn_upd:
  assumes "i < length (g_values g)"
  shows "ok (\<lambda>h. sd_reborn b g h \<and> v_birth (g_values h ! i) = b) (sd_upd_node i (\<lambda>v. v\<lparr>v_birth := b\<rparr>) g)"
  using assms
  by (auto simp: sd_upd_node_def sd_reborn_def nth_list_update
      intro!: exI [of _ "(g_values g)[i := (g_values g ! i)\<lparr>v_birth := b\<rparr>]"])

text \<open>One step of the alias loop, and the whole loop: every dead alias is written.\<close>

definition sd_birth_step :: "nat \<Rightarrow> int \<Rightarrow> nat \<Rightarrow> sd_graph \<Rightarrow> sd_graph res" where
  "sd_birth_step node b i g =
     rbind (union_is_same (g_alias_set g) i node) (\<lambda>same.
        if \<not> same then Inr g
        else rbind (at (g_values g) i) (\<lambda>v.
             if v_birth v = -1 then sd_upd_node i (\<lambda>v. v\<lparr>v_birth := b\<rparr>) g else Inr g))"

definition sd_woken :: "nat \<Rightarrow> int \<Rightarrow> nat \<Rightarrow> sd_graph \<Rightarrow> sd_graph \<Rightarrow> bool" where
  "sd_woken node b m g h \<longleftrightarrow> sd_reborn b g h \<and>
     (\<forall>i<m. uf_rep (g_alias_set g) i = uf_rep (g_alias_set g) node \<longrightarrow> v_birth (g_values h ! i) \<noteq> -1)"

lemma sd_birth_step_ok:
  assumes wf: "sd_wf g" and n: "node < length (g_values g)" and m: "m < length (g_values g)"
    and b: "b \<noteq> -1" and w: "sd_woken node b m g h"
  shows "ok (sd_woken node b (Suc m) g) (sd_birth_step node b m h)"
proof -
  from w have re: "sd_reborn b g h" by (simp add: sd_woken_def)
  note s = sd_reborn_same [OF re] and lens = sd_wf_lens [OF wf]
  have same: "union_is_same (g_alias_set h) m node =
      Inr (uf_rep (g_alias_set g) m = uf_rep (g_alias_set g) node)"
    using s(2) lens n m by (simp add: union_is_same_forest)
  show ?thesis
  proof (cases "uf_rep (g_alias_set g) m = uf_rep (g_alias_set g) node \<and> v_birth (g_values h ! m) = -1")
    case True
    from m s(1) have "m < length (g_values h)" by simp
    then have "ok (\<lambda>k. sd_reborn b h k \<and> v_birth (g_values k ! m) = b)
        (sd_upd_node m (\<lambda>v. v\<lparr>v_birth := b\<rparr>) h)" by (rule sd_reborn_upd)
    then have "ok (sd_woken node b (Suc m) g) (sd_upd_node m (\<lambda>v. v\<lparr>v_birth := b\<rparr>) h)"
    proof (rule ok_mono, elim conjE)
      fix k assume k: "sd_reborn b h k" "v_birth (g_values k ! m) = b"
      have "v_birth (g_values k ! i) \<noteq> -1"
        if "i < Suc m" "uf_rep (g_alias_set g) i = uf_rep (g_alias_set g) node" for i
        using that w k b m s(1) sd_reborn_same(6) [OF k(1), of i]
        by (cases "i = m") (auto simp: sd_woken_def)
      then show "sd_woken node b (Suc m) g k"
        using sd_reborn_trans [OF re k(1)] by (simp add: sd_woken_def)
    qed
    with True same m s(1) show ?thesis by (simp add: sd_birth_step_def)
  next
    case False
    with w have "sd_woken node b (Suc m) g h" by (auto simp: sd_woken_def less_Suc_eq)
    with False same m s(1) show ?thesis by (auto simp: sd_birth_step_def)
  qed
qed

lemma sd_birth_loop_ok:
  assumes wf: "sd_wf g" and n: "node < length (g_values g)" and b: "b \<noteq> -1"
    and m: "m \<le> length (g_values g)"
  shows "ok (sd_woken node b m g) (rfold (sd_birth_step node b) [0..<m] g)"
  using m
proof (induction m)
  case 0
  then show ?case by (simp add: sd_woken_def sd_reborn_refl)
next
  case (Suc m)
  then have "ok (sd_woken node b m g) (rfold (sd_birth_step node b) [0..<m] g)" by simp
  then have "ok (sd_woken node b (Suc m) g)
      (rbind (rfold (sd_birth_step node b) [0..<m] g) (sd_birth_step node b m))"
    by (rule ok_rbindI) (use Suc.prems in \<open>auto intro: sd_birth_step_ok [OF wf n _ b]\<close>)
  then show ?case by (simp add: rfold_append)
qed

lemma sd_fill_birth_step:
  "sd_fill_birth (Suc n) tcx node birth g =
     rbind (sd_upd_node node (\<lambda>v. v\<lparr>v_birth := birth\<rparr>) g) (\<lambda>g.
     rbind (rfold (sd_birth_step node birth) [0..<length (g_values g)] g) (\<lambda>g.
     rbind (at (g_values g) node) (\<lambda>v.
     rfold (\<lambda>(_, f) g. sd_fill_birth n tcx f birth g) (hm_iter tcx (v_fields v)) g)))"
  by (simp add: sd_birth_step_def [abs_def])

declare sd_fill_birth.simps(2) [simp del]

lemma sd_fill_birth_ok:
  assumes ord: "enum_order (set_order tcx)" and b: "b \<noteq> -1"
  shows "sd_wf g \<Longrightarrow> node < length (g_values g) \<Longrightarrow> length (g_values g) \<le> n + node \<Longrightarrow>
    ok (\<lambda>h. sd_woken node b (length (g_values g)) g h \<and> v_birth (g_values h ! node) = b)
       (sd_fill_birth n tcx node b g)"
proof (induction n arbitrary: node g)
  case (Suc n)
  let ?N = "length (g_values g)"
  let ?P = "\<lambda>h. sd_woken node b ?N g h \<and> v_birth (g_values h ! node) = b"
  show ?case
  proof (simp only: sd_fill_birth_step, rule ok_rbindI [OF sd_reborn_upd [OF Suc.prems(2)]], elim conjE)
    fix h assume h: "sd_reborn b g h" "v_birth (g_values h ! node) = b"
    note s = sd_reborn_same [OF h(1)]
    have wh: "sd_wf h" "node < length (g_values h)" using s Suc.prems by simp_all
    show "ok ?P (rbind (rfold (sd_birth_step node b) [0..<length (g_values h)] h) (\<lambda>g.
        rbind (at (g_values g) node) (\<lambda>v.
        rfold (\<lambda>(_, f) g. sd_fill_birth n tcx f b g) (hm_iter tcx (v_fields v)) g)))"
    proof (rule ok_rbindI [OF sd_birth_loop_ok [OF wh b order_refl]])
      fix k assume k: "sd_woken node b (length (g_values h)) h k"
      then have re: "sd_reborn b g k" using h(1) sd_reborn_trans by (auto simp: sd_woken_def)
      note t = sd_reborn_same [OF re]
      have Pk: "?P k"
        using k h(2) s re wh sd_reborn_same(6) [of b h k node] by (auto simp: sd_woken_def)
      have in_fields: "node < f \<and> f < ?N" if "(i, f) \<in> set (hm_iter tcx (v_fields (g_values k ! node)))" for i f
        using that sd_wf_node [OF Suc.prems(1,2)] t(5) [OF Suc.prems(2)]
        by (auto simp: sd_node_wf_def set_hm_iter [OF ord])
      have "ok ?P (rfold (\<lambda>(_, f) g. sd_fill_birth n tcx f b g) (hm_iter tcx (v_fields (g_values k ! node))) k)"
      proof (rule ok_rfold [where P = ?P, OF Pk])
        fix x h' assume x: "x \<in> set (hm_iter tcx (v_fields (g_values k ! node)))" and w: "?P h'"
        obtain i f where xf: "x = (i, f)" by (cases x)
        with x have e: "(i, f) \<in> set (hm_iter tcx (v_fields (g_values k ! node)))" by simp
        from w have re': "sd_reborn b g h'" by (simp add: sd_woken_def)
        note t' = sd_reborn_same [OF re']
        from in_fields [OF e] have "ok (\<lambda>h. sd_woken f b (length (g_values h')) h' h \<and> v_birth (g_values h ! f) = b)
            (sd_fill_birth n tcx f b h')" using t' Suc by (intro Suc.IH) auto
        then have "ok ?P (sd_fill_birth n tcx f b h')"
        proof (rule ok_mono, elim conjE)
          fix h2 assume "sd_woken f b (length (g_values h')) h' h2"
          then have r2: "sd_reborn b h' h2" by (simp add: sd_woken_def)
          have "v_birth (g_values h2 ! i) \<in> {v_birth (g_values h' ! i), b}" if "i < ?N" for i
            using sd_reborn_same(6) [OF r2, of i] that t'(1) by simp
          then show "?P h2" using w b sd_reborn_trans [OF re' r2] Suc.prems(2)
            by (fastforce simp: sd_woken_def)
        qed
        with xf show "ok ?P ((\<lambda>(_, f) g. sd_fill_birth n tcx f b g) x h')" by simp
      qed
      with t(1) Suc.prems(2) show "ok ?P (rbind (at (g_values k) node) (\<lambda>v.
        rfold (\<lambda>(_, f) g. sd_fill_birth n tcx f b g) (hm_iter tcx (v_fields v)) k))" by simp
    qed
  qed
qed simp

end
