(* ===== verification/Sd_Merge.thy ===== *)
theory Sd_Merge
  imports Sd_Value
begin

section \<open>SafeDrop: what merging and projecting do to the value graph\<close>

text \<open>
  Theorems about \<open>merge_alias\<close>, \<open>projection\<close> and \<open>fill_birth\<close> of \<^verbatim>\<open>safedrop/alias.rs\<close>: merging two values
  with disjoint field trees makes one mirror the other, merging a value into its own field never
  ends, projections follow field paths.
\<close>

subsection \<open>Merging two values and, recursively, their fields\<close>

text \<open>
  A set \<open>L\<close> of value indices that contains every index not yet in use and that no field edge
  enters or leaves. Merging a value of \<open>L\<close> with a value outside it creates fields inside \<open>L\<close> only.
\<close>

definition sd_split :: "nat set \<Rightarrow> sd_graph \<Rightarrow> bool" where
  "sd_split L g \<longleftrightarrow> {length (g_values g)..} \<subseteq> L \<and>
     (\<forall>i<length (g_values g). \<forall>k f. field_get k (g_values g ! i) = Some f \<longrightarrow> (f \<in> L \<longleftrightarrow> i \<in> L))"

definition sd_same :: "sd_graph \<Rightarrow> nat \<Rightarrow> nat \<Rightarrow> bool" where
  "sd_same g i j \<longleftrightarrow> uf_rep (g_alias_set g) i = uf_rep (g_alias_set g) j"

text \<open>\<open>h\<close> arises from \<open>g\<close> by adding fields inside \<open>L\<close> and merging alias classes.\<close>

definition sd_ext :: "nat set \<Rightarrow> sd_graph \<Rightarrow> sd_graph \<Rightarrow> bool" where
  "sd_ext L g h \<longleftrightarrow> sd_grows g h \<and> sd_split L h \<and>
     (\<forall>i<length (g_values g). \<forall>k f. field_get k (g_values g ! i) = Some f \<longrightarrow>
        field_get k (g_values h ! i) = Some f) \<and>
     (\<forall>i<length (g_values g). i \<notin> L \<longrightarrow> v_fields (g_values h ! i) = v_fields (g_values g ! i)) \<and>
     (\<forall>i<length (g_values g). \<forall>j<length (g_values g). sd_same g i j \<longrightarrow> sd_same h i j)"

lemma sd_ext_refl: "sd_wf g \<Longrightarrow> sd_split L g \<Longrightarrow> sd_ext L g g"
  by (simp add: sd_ext_def sd_grows_refl)

lemma sd_ext_len: "sd_ext L g h \<Longrightarrow> length (g_values g) \<le> length (g_values h)"
  by (simp add: sd_ext_def sd_grows_def)

lemma sd_ext_wf: "sd_ext L g h \<Longrightarrow> sd_wf h \<and> sd_split L h"
  by (simp add: sd_ext_def sd_grows_def)

lemma sd_ext_trans:
  assumes "sd_ext L g h" "sd_ext L h k"
  shows "sd_ext L g k"
proof -
  note len = sd_ext_len [OF assms(1)]
  from assms have "sd_grows g k" by (auto simp: sd_ext_def intro: sd_grows_trans)
  with assms len show ?thesis by (simp add: sd_ext_def)
qed

lemma sd_ext_ensured:
  assumes e: "sd_ensured owner k f g h" and wf: "sd_wf g" and sp: "sd_split L g"
    and o: "owner < length (g_values g)" "owner \<in> L"
  shows "sd_ext L g h \<and> f \<in> L"
proof -
  from e consider "h = g" |
    (new) "field_get k (g_values g ! owner) = None" "sd_pushed owner k g h" "f = length (g_values g)"
    by (auto simp: sd_ensured_def)
  then show ?thesis
  proof cases
    case 1
    with e have "field_get k (g_values g ! owner) = Some f" by (simp add: sd_ensured_def)
    with sp o have "f \<in> L" unfolding sd_split_def by blast
    with 1 show ?thesis by (simp add: sd_ext_refl wf sp)
  next
    case new
    let ?n = "length (g_values g)"
    note p = new(2) [unfolded sd_pushed_def]
    have g1: "sd_grows g h" and len: "length (g_values h) = Suc ?n" using p by blast+
    have old: "field_get k' (g_values h ! i) = field_get k' (g_values g ! i)"
      if "i < ?n" "i \<noteq> owner \<or> k' \<noteq> k" for i k'
      using p that by (cases "i = owner") auto
    have own: "field_get k (g_values h ! owner) = Some ?n" using p by blast
    have fresh: "field_get k' (g_values h ! ?n) = None" for k' using p by (simp add: field_get_def)
    have nL: "?n \<in> L" "{Suc ?n..} \<subseteq> L" using sp by (auto simp: sd_split_def)
    have "f' \<in> L \<longleftrightarrow> i \<in> L" if "i < Suc ?n" "field_get k' (g_values h ! i) = Some f'" for i k' f'
    proof (cases "i < ?n \<and> (i \<noteq> owner \<or> k' \<noteq> k)")
      case True
      with old [of i k'] that sp show ?thesis by (auto simp: sd_split_def)
    next
      case False
      with that fresh [of k'] own nL o show ?thesis by (cases "i = ?n") auto
    qed
    then have "sd_split L h" using nL len by (simp add: sd_split_def)
    moreover have "field_get k' (g_values h ! i) = Some f'"
      if "i < ?n" "field_get k' (g_values g ! i) = Some f'" for i k' f'
      using old [of i k'] that new(1) by (cases "i = owner \<and> k' = k") auto
    moreover have "v_fields (g_values h ! i) = v_fields (g_values g ! i)" if "i < ?n" "i \<notin> L" for i
    proof -
      from that o(2) have "i \<noteq> owner" by blast
      with that(1) p show ?thesis by simp
    qed
    moreover have "sd_same h i j" if "i < ?n" "j < ?n" "sd_same g i j" for i j
      using that p by (simp add: sd_same_def)
    ultimately show ?thesis using g1 nL new(3) by (simp add: sd_ext_def)
  qed
qed

text \<open>The value a sequence of field ids leads to.\<close>

fun sd_walk :: "sd_graph \<Rightarrow> nat \<Rightarrow> nat list \<Rightarrow> nat option" where
  "sd_walk g i [] = Some i"
| "sd_walk g i (k # ks) =
     (if i < length (g_values g)
      then case field_get k (g_values g ! i) of None \<Rightarrow> None | Some f \<Rightarrow> sd_walk g f ks
      else None)"

text \<open>Every field path of \<open>rv\<close> exists below \<open>lv\<close> too, and the two values it leads to are aliases.\<close>

definition sd_mirror :: "sd_graph \<Rightarrow> nat \<Rightarrow> nat \<Rightarrow> bool" where
  "sd_mirror g lv rv \<longleftrightarrow>
     (\<forall>ks j. sd_walk g rv ks = Some j \<longrightarrow> (\<exists>i. sd_walk g lv ks = Some i \<and> sd_same g i j))"

lemma sd_walk_in: "sd_wf g \<Longrightarrow> i < length (g_values g) \<Longrightarrow> sd_walk g i ks = Some j \<Longrightarrow> j < length (g_values g)"
  by (induction g i ks rule: sd_walk.induct) (auto split: option.splits dest: sd_wf_field)

lemma sd_walk_ext:
  "sd_ext L g h \<Longrightarrow> sd_walk g i ks = Some j \<Longrightarrow> sd_walk h i ks = Some j"
proof (induction g i ks rule: sd_walk.induct)
  case (2 g i k ks)
  then obtain f where i: "i < length (g_values g)" and f: "field_get k (g_values g ! i) = Some f"
    and w: "sd_walk g f ks = Some j" by (auto split: if_splits option.splits)
  from i f 2(2) have "i < length (g_values h)" "field_get k (g_values h ! i) = Some f"
    by (auto simp: sd_ext_def sd_grows_def)
  then show ?case using "2.IH" [OF i f 2(2) w] by simp
qed simp

lemma sd_split_in: "sd_split L g \<Longrightarrow> i \<notin> L \<Longrightarrow> i < length (g_values g)"
  by (meson atLeast_iff not_le sd_split_def subsetD)

lemma sd_walk_frame:
  "sd_ext L g h \<Longrightarrow> sd_split L g \<Longrightarrow> i \<notin> L \<Longrightarrow> sd_walk h i ks = sd_walk g i ks"
proof (induction ks arbitrary: i)
  case (Cons k ks)
  note i = sd_split_in [OF Cons.prems(2,3)]
  have same: "field_get k (g_values h ! i) = field_get k (g_values g ! i)"
    using Cons.prems i by (simp add: sd_ext_def field_get_def)
  have "f \<notin> L" if "field_get k (g_values g ! i) = Some f" for f
    using that Cons.prems i by (auto simp: sd_split_def)
  with Cons i same sd_ext_len [OF Cons.prems(1)] show ?case by (auto split: option.splits)
qed simp

lemma sd_mirror_ext:
  assumes m: "sd_mirror g lv rv" and e: "sd_ext L g h" and sp: "sd_split L g" and rv: "rv \<notin> L"
    and lv: "lv < length (g_values g)" and wf: "sd_wf g"
  shows "sd_mirror h lv rv"
  unfolding sd_mirror_def
proof (intro allI impI)
  fix ks j assume "sd_walk h rv ks = Some j"
  then have j: "sd_walk g rv ks = Some j" using sd_walk_frame [OF e sp rv] by simp
  with m obtain i where i: "sd_walk g lv ks = Some i" "sd_same g i j" by (auto simp: sd_mirror_def)
  have "i < length (g_values g)" "j < length (g_values g)"
    using sd_walk_in [OF wf lv i(1)] sd_walk_in [OF wf sd_split_in [OF sp rv] j] by simp_all
  with e i(2) have "sd_same h i j" by (simp add: sd_ext_def)
  with sd_walk_ext [OF e i(1)] show "\<exists>i. sd_walk h lv ks = Some i \<and> sd_same h i j" by blast
qed

lemma sd_merge_classes:
  assumes wf: "sd_wf g" and sp: "sd_split L g" and lv: "lv < length (g_values g)" and rv: "rv < length (g_values g)"
  shows "ok (\<lambda>a. sd_ext L g (g\<lparr>g_alias_set := a\<rparr>) \<and> sd_same (g\<lparr>g_alias_set := a\<rparr>) lv rv)
    (union_merge (g_alias_set g) lv rv)"
proof -
  note lens = sd_wf_lens [OF wf]
  from lens lv rv have "ok (uf_joined (g_alias_set g) lv rv) (union_merge (g_alias_set g) lv rv)"
    by (simp add: union_merge_ok)
  then show ?thesis
  proof (rule ok_mono)
    fix a assume j: "uf_joined (g_alias_set g) lv rv a"
    then have "sd_wf (g\<lparr>g_alias_set := a\<rparr>)" using wf by (simp add: uf_joined_def sd_wf_def)
    with j sp lens(1) lv rv
    show "sd_ext L g (g\<lparr>g_alias_set := a\<rparr>) \<and> sd_same (g\<lparr>g_alias_set := a\<rparr>) lv rv"
      by (simp add: sd_ext_def sd_grows_def sd_core_def sd_split_def sd_same_def uf_joined_def)
  qed
qed

lemma sd_like_field_ok:
  assumes wf: "sd_wf g" and sp: "sd_split L g" and lv: "lv < length (g_values g)" "lv \<in> L"
    and f: "f < length (g_values g)"
  shows "ok (\<lambda>(lf, h). sd_ext L g h \<and> lf \<in> L \<and> lf < length (g_values h) \<and>
      field_get k (g_values h ! lv) = Some lf) (sd_like_field lv k f g)"
proof -
  have loc: "v_local (g_values g ! lv) < length (g_values g)"
    using sd_wf_node [OF wf lv(1)] by (simp add: sd_node_wf_def)
  show ?thesis
    unfolding sd_like_field_def at_Inr [OF lv(1)] rbind.simps
  proof (rule sd_ensure [OF wf lv(1)])
    show "ok (sd_pushed lv k g) (rbind (at (g_values g) f) (\<lambda>vf. sd_push_field lv k
        ((sd_node_new (length (g_values g)) (v_local (g_values g ! lv)) (v_need_drop vf) (v_may_drop vf))
           \<lparr>v_kind := v_kind vf, v_birth := v_birth (g_values g ! lv), v_field_id := k\<rparr>)
        (length (g_alias_set g)) g))"
      using f sd_wf_lens(1) [OF wf] by (simp add: sd_push_field_ok [OF wf lv(1) loc])
  qed (use sd_ext_ensured [OF _ wf sp lv] in \<open>auto simp: sd_ensured_def\<close>)
qed

definition sd_merged :: "nat set \<Rightarrow> nat \<Rightarrow> nat \<Rightarrow> sd_graph \<Rightarrow> sd_graph \<Rightarrow> bool" where
  "sd_merged L lv rv g h \<longleftrightarrow> sd_ext L g h \<and> sd_same h lv rv \<and> sd_mirror h lv rv"

text \<open>What holds after the fields \<open>ys\<close> have been merged.\<close>

definition sd_merging :: "nat set \<Rightarrow> nat \<Rightarrow> nat \<Rightarrow> sd_graph \<Rightarrow> (nat \<times> nat) list \<Rightarrow> sd_graph \<Rightarrow> bool" where
  "sd_merging L lv rv g ys h \<longleftrightarrow> sd_ext L g h \<and> sd_same h lv rv \<and>
     (\<forall>(k, f) \<in> set ys. \<exists>lf<length (g_values h). field_get k (g_values h ! lv) = Some lf \<and> sd_mirror h lf f)"

lemma sd_merging_ext:
  assumes m: "sd_merging L lv rv g ys h" and e: "sd_ext L h k" and lv: "lv < length (g_values g)"
    and rv: "rv < length (g_values g)" and ys: "\<And>i f. (i, f) \<in> set ys \<Longrightarrow> f \<notin> L"
  shows "sd_merging L lv rv g ys k"
proof -
  from m have gh: "sd_ext L g h" "sd_same h lv rv" by (auto simp: sd_merging_def)
  note wf = sd_ext_wf [OF gh(1)] and len = sd_ext_len [OF gh(1)] sd_ext_len [OF e]
  have "\<exists>lf<length (g_values k). field_get i (g_values k ! lv) = Some lf \<and> sd_mirror k lf f"
    if y: "(i, f) \<in> set ys" for i f
  proof -
    from m y obtain lf where lf: "lf < length (g_values h)" "field_get i (g_values h ! lv) = Some lf"
      "sd_mirror h lf f" by (force simp: sd_merging_def)
    have "sd_mirror k lf f"
      using sd_mirror_ext [OF lf(3) e _ ys [OF y] lf(1)] wf by simp
    moreover have "field_get i (g_values k ! lv) = Some lf" using e lf lv len by (simp add: sd_ext_def)
    ultimately show ?thesis using lf(1) len by (intro exI [of _ lf]) simp
  qed
  moreover have "sd_same k lv rv" using e gh(2) lv rv len by (simp add: sd_ext_def)
  ultimately show ?thesis using sd_ext_trans [OF gh(1) e] by (auto simp: sd_merging_def)
qed

lemma sd_merging_all:
  assumes m: "sd_merging L lv rv g ys h" and ys: "set ys = set (v_fields (g_values g ! rv))"
    and lv: "lv < length (g_values g)" and sp: "sd_split L g" and rv: "rv \<notin> L"
  shows "sd_merged L lv rv g h"
proof -
  from m have e: "sd_ext L g h" and s: "sd_same h lv rv" by (auto simp: sd_merging_def)
  have r: "rv < length (g_values g)" using sp rv by (rule sd_split_in)
  have fr: "field_get k (g_values h ! rv) = field_get k (g_values g ! rv)" for k
    using e r rv by (simp add: sd_ext_def field_get_def)
  have "\<exists>i. sd_walk h lv ks = Some i \<and> sd_same h i j" if "sd_walk h rv ks = Some j" for ks j
  proof (cases ks)
    case Nil
    with that s show ?thesis by simp
  next
    case (Cons k ks')
    with that fr obtain f where f: "field_get k (g_values g ! rv) = Some f" "sd_walk h f ks' = Some j"
      by (auto split: if_splits option.splits)
    then have "(k, f) \<in> set ys" using field_get_in ys by blast
    with m obtain lf where "field_get k (g_values h ! lv) = Some lf" "sd_mirror h lf f"
      by (force simp: sd_merging_def)
    with f(2) Cons lv sd_ext_len [OF e] show ?thesis by (auto simp: sd_mirror_def)
  qed
  with e s show ?thesis by (simp add: sd_merged_def sd_mirror_def)
qed

lemma sd_merging_step:
  assumes m: "sd_merging L lv rv g ys h" and lv: "lv < length (g_values g)" "lv \<in> L"
    and rv: "rv < length (g_values g)" and f: "f \<notin> L" and ys: "\<And>i f. (i, f) \<in> set ys \<Longrightarrow> f \<notin> L"
    and rec: "\<And>lf h'. \<lbrakk>sd_wf h'; sd_split L h'; lf < length (g_values h'); lf \<in> L\<rbrakk> \<Longrightarrow>
      ok (sd_merged L lf f h') (F lf h')"
  shows "ok (sd_merging L lv rv g (ys @ [(k, f)])) (rbind (sd_like_field lv k f h) (\<lambda>(lf, g). F lf g))"
proof -
  from m have e: "sd_ext L g h" by (simp add: sd_merging_def)
  note wh = sd_ext_wf [OF e] and len = sd_ext_len [OF e]
  have fh: "f < length (g_values h)" using wh f by (blast intro: sd_split_in)
  have lh: "lv < length (g_values h)" using lv(1) len by simp
  show ?thesis
  proof (rule ok_rbindI [OF sd_like_field_ok [OF wh [THEN conjunct1] wh [THEN conjunct2] lh lv(2) fh, of k]])
    fix y assume "case y of (lf, h') \<Rightarrow> sd_ext L h h' \<and> lf \<in> L \<and> lf < length (g_values h') \<and>
        field_get k (g_values h' ! lv) = Some lf"
    then obtain lf h' where y: "y = (lf, h')" "sd_ext L h h'" "lf \<in> L" "lf < length (g_values h')"
        "field_get k (g_values h' ! lv) = Some lf" by auto
    have "ok (sd_merged L lf f h') (F lf h')" using y sd_ext_wf [OF y(2)] by (intro rec) auto
    then have "ok (sd_merging L lv rv g (ys @ [(k, f)])) (F lf h')"
    proof (rule ok_mono)
      fix k2 assume k2: "sd_merged L lf f h' k2"
      then have e2: "sd_ext L h' k2" "sd_mirror k2 lf f" by (auto simp: sd_merged_def)
      have "sd_merging L lv rv g ys k2"
        by (rule sd_merging_ext [OF m sd_ext_trans [OF y(2) e2(1)] lv(1) rv ys])
      moreover have "field_get k (g_values k2 ! lv) = Some lf"
        using e2(1) y(5) lv len sd_ext_len [OF y(2)] by (simp add: sd_ext_def)
      moreover have "lf < length (g_values k2)" using y(4) sd_ext_len [OF e2(1)] by simp
      ultimately show "sd_merging L lv rv g (ys @ [(k, f)]) k2" using e2(2)
        by (auto simp: sd_merging_def)
    qed
    with y(1) show "ok (sd_merging L lv rv g (ys @ [(k, f)])) (case y of (lf, g) \<Rightarrow> F lf g)" by simp
  qed
qed

lemma sd_merge_alias_ok:
  assumes ord: "enum_order (set_order tcx)" and B: "- L \<subseteq> {..<B}"
  shows "\<lbrakk>sd_wf g; sd_split L g; lv < length (g_values g); lv \<in> L; rv \<notin> L; B \<le> n + rv\<rbrakk> \<Longrightarrow>
    ok (sd_merged L lv rv g) (sd_merge_alias n tcx lv rv g)"
proof (induction n arbitrary: lv rv g)
  case 0
  then have "rv \<in> {..<B}" using B by blast
  with 0 show ?case by simp
next
  case (Suc n)
  note wf = Suc.prems(1) and sp = Suc.prems(2) and lv = Suc.prems(3) and rv = Suc.prems(5)
  let ?xs = "hm_iter tcx (v_fields (g_values g ! rv))"
  have r: "rv < length (g_values g)" using sp rv by (rule sd_split_in)
  have xs: "set ?xs = set (v_fields (g_values g ! rv))"
    using sd_wf_node [OF wf r] by (simp add: sd_node_wf_def set_hm_iter [OF ord])
  have fields: "f \<notin> L \<and> rv < f" if "(k, f) \<in> set ?xs" for k f
  proof -
    from that xs sd_wf_node [OF wf r] have "field_get k (g_values g ! rv) = Some f" "rv < f"
      by (auto simp: sd_node_wf_def field_get_def)
    with sp r rv show ?thesis by (auto simp: sd_split_def)
  qed
  let ?step = "\<lambda>(k, f) g. rbind (sd_like_field lv k f g) (\<lambda>(lf, g). sd_merge_alias n tcx lf f g)"
  have loop: "ok (sd_merged L lv rv g) (rfold ?step ?xs (g\<lparr>g_alias_set := a\<rparr>))"
    if a: "sd_ext L g (g\<lparr>g_alias_set := a\<rparr>)" "sd_same (g\<lparr>g_alias_set := a\<rparr>) lv rv" for a
  proof -
    have "ok (sd_merging L lv rv g ?xs) (rfold ?step ?xs (g\<lparr>g_alias_set := a\<rparr>))"
    proof (rule ok_rfold_prefix)
      show "sd_merging L lv rv g [] (g\<lparr>g_alias_set := a\<rparr>)" using a by (simp add: sd_merging_def)
    next
      fix ys x zs h assume split: "?xs = ys @ x # zs" and m: "sd_merging L lv rv g ys h"
      obtain k f where x: "x = (k, f)" by (cases x)
      have mem: "(k, f) \<in> set ?xs" "set ys \<subseteq> set ?xs" using split x by auto
      have "ok (sd_merging L lv rv g (ys @ [(k, f)]))
          (rbind (sd_like_field lv k f h) (\<lambda>(lf, g). sd_merge_alias n tcx lf f g))"
        by (rule sd_merging_step [OF m lv Suc.prems(4) r])
           (use fields mem Suc.prems(6) in \<open>fastforce intro!: Suc.IH\<close>)+
      with x show "ok (sd_merging L lv rv g (ys @ [x])) (?step x h)" by simp
    qed
    then show ?thesis by (rule ok_mono) (rule sd_merging_all [OF _ xs lv sp rv])
  qed
  from sd_merge_classes [OF wf sp lv r] loop lv r show ?case by (auto simp: ok_def Let_def)
qed

subsection \<open>A merge that never ends\<close>

text \<open>A chain of values in which each is the only field of the one before.\<close>

definition sd_chain :: "nat \<Rightarrow> sd_graph \<Rightarrow> bool" where
  "sd_chain m g \<longleftrightarrow> sd_wf g \<and> length (g_values g) = Suc m \<and>
     (\<forall>i<m. v_fields (g_values g ! i) = [(0, Suc i)]) \<and> v_fields (g_values g ! m) = []"

lemma enum_order_single: "enum_order h \<Longrightarrow> h [x] = [x]"
proof -
  assume "enum_order h"
  then have s: "set (h [x]) = {x}" and d: "distinct (h [x])" by (auto simp: enum_order_def)
  from d have "length (h [x]) = card (set (h [x]))" by (simp add: distinct_card)
  with s have "length (h [x]) = 1" by simp
  with s show ?thesis by (cases "h [x]") auto
qed

lemma sd_chain_like_field:
  assumes c: "sd_chain (Suc m) g"
  shows "ok (\<lambda>(lf, h). lf = Suc (Suc m) \<and> sd_chain (Suc (Suc m)) h) (sd_like_field (Suc m) 0 (Suc m) g)"
proof -
  from c have wf: "sd_wf g" and len: "length (g_values g) = Suc (Suc m)"
    and fs: "\<And>i. i < Suc m \<Longrightarrow> v_fields (g_values g ! i) = [(0, Suc i)]" and last: "v_fields (g_values g ! Suc m) = []"
    by (auto simp: sd_chain_def)
  let ?n = "length (g_values g)"
  let ?v = "g_values g ! Suc m"
  let ?node = "(sd_node_new ?n (v_local ?v) (v_need_drop ?v) (v_may_drop ?v))
      \<lparr>v_kind := v_kind ?v, v_birth := v_birth ?v, v_field_id := 0\<rparr>"
  have new: "field_get 0 ?v = None" using last by (simp add: field_get_def)
  have "ok (sd_pushed (Suc m) 0 g) (sd_push_field (Suc m) 0 ?node ?n g)"
    using wf len sd_wf_node [OF wf, of "Suc m"] by (intro sd_push_field_ok) (auto simp: sd_node_wf_def)
  then obtain h where h: "sd_push_field (Suc m) 0 ?node ?n g = Inr h" "sd_pushed (Suc m) 0 g h"
    by (auto simp: ok_def)
  have h_eq: "g_values h = (g_values g)[Suc m := field_insert 0 ?n ?v] @ [?node]"
    using h(1) len by (auto simp: sd_push_field_def sd_upd_node_def sd_node_new_def)
  have "sd_wf h" using h(2) by (simp add: sd_pushed_def sd_grows_def)
  then have "sd_chain (Suc (Suc m)) h"
    using len fs last
    by (auto simp: sd_chain_def h_eq nth_append nth_list_update field_insert_def sd_node_new_def less_Suc_eq)
  moreover have "field_get 0 (g_values h ! Suc m) = Some ?n" using h(2) by (simp add: sd_pushed_def)
  ultimately show ?thesis
    using new h(1) len sd_wf_lens(1) [OF wf] h_eq by (simp add: sd_like_field_def)
qed

lemma sd_chain_merge_diverges:
  "enum_order (set_order tcx) \<Longrightarrow> sd_chain (Suc m) g \<Longrightarrow> sd_merge_alias n tcx (Suc m) m g = Inl Diverges"
proof (induction n arbitrary: m g)
  case (Suc n)
  then have wf: "sd_wf g" and len: "length (g_values g) = Suc (Suc m)"
    and fs: "v_fields (g_values g ! m) = [(0, Suc m)]" by (auto simp: sd_chain_def)
  have "ok (uf_joined (g_alias_set g) (Suc m) m) (union_merge (g_alias_set g) (Suc m) m)"
    using sd_wf_lens [OF wf] len by (simp add: union_merge_ok)
  then obtain a where a: "union_merge (g_alias_set g) (Suc m) m = Inr a" "uf_joined (g_alias_set g) (Suc m) m a"
    by (auto simp: ok_def)
  let ?g = "g\<lparr>g_alias_set := a\<rparr>"
  have "sd_chain (Suc m) ?g" using Suc.prems(2) a(2) by (auto simp: sd_chain_def sd_wf_def uf_joined_def)
  then have "ok (\<lambda>(lf, h). lf = Suc (Suc m) \<and> sd_chain (Suc (Suc m)) h) (sd_like_field (Suc m) 0 (Suc m) ?g)"
    by (rule sd_chain_like_field)
  then obtain h where h: "sd_like_field (Suc m) 0 (Suc m) ?g = Inr (Suc (Suc m), h)" "sd_chain (Suc (Suc m)) h"
    by (auto simp: ok_def)
  have "sd_merge_alias n tcx (Suc (Suc m)) (Suc m) h = Inl Diverges" using Suc.IH [OF Suc.prems(1) h(2)] .
  moreover have "hm_iter tcx (v_fields (g_values g ! m)) = [(0, Suc m)]"
    by (simp add: fs hm_iter_def enum_order_single [OF Suc.prems(1)])
  ultimately show ?case using len a(1) h(1) by simp
qed simp

subsection \<open>Field paths\<close>

lemma sd_split_UNIV [simp]: "sd_split UNIV g"
  by (simp add: sd_split_def)

lemma sd_walk_snoc:
  "sd_walk g i ks = Some p \<Longrightarrow> p < length (g_values g) \<Longrightarrow> field_get k (g_values g ! p) = Some f \<Longrightarrow>
     sd_walk g i (ks @ [k]) = Some f"
  by (induction g i ks rule: sd_walk.induct) (auto split: if_splits option.splits)

definition sd_reached :: "sd_graph \<Rightarrow> nat \<Rightarrow> nat list \<Rightarrow> nat \<times> nat \<times> sd_graph \<Rightarrow> bool" where
  "sd_reached g root ks = (\<lambda>(l, p, h). sd_ext UNIV g h \<and> l = root \<and> p < length (g_values h) \<and>
     sd_walk h root ks = Some p)"

lemma sd_proj_field_reached:
  assumes r: "sd_reached g root ks (l, p, h)" and root: "root < length (g_values g)"
    and ty: "ok (\<lambda>_. True) (is_not_drop tcx t)"
  shows "ok (sd_reached g root (ks @ [k])) (sd_proj_elem tcx False (Field k t) (l, p, h))"
proof -
  from r have e: "sd_ext UNIV g h" and lp: "l = root" "p < length (g_values h)" "sd_walk h root ks = Some p"
    by (auto simp: sd_reached_def)
  have wf: "sd_wf h" using sd_ext_wf [OF e] by simp
  have lh: "l < length (g_values h)" using sd_ext_len [OF e] lp root by simp
  from ty obtain nd where nd: "is_not_drop tcx t = Inr nd" by (auto simp: ok_def)
  have "ok (sd_reached g root (ks @ [k])) (rbind
      (if field_get k (g_values h ! p) = None
       then rbind (ty_drop_flags tcx t) (\<lambda>(need, may). sd_push_field p k
              ((sd_node_new (length (g_values h)) l need may)
                 \<lparr>v_kind := sd_kind tcx t, v_birth := v_birth (g_values h ! p), v_field_id := k\<rparr>)
              (length (g_alias_set h)) h)
       else Inr h) (\<lambda>g. rbind (at (g_values g) p) (\<lambda>v.
         rbind (unwrap (field_get k v)) (\<lambda>f. Inr (l, f, g)))))"
  proof (rule sd_ensure [OF wf lp(2)])
    show "ok (sd_pushed p k h) (rbind (ty_drop_flags tcx t) (\<lambda>(need, may). sd_push_field p k
              ((sd_node_new (length (g_values h)) l need may)
                 \<lparr>v_kind := sd_kind tcx t, v_birth := v_birth (g_values h ! p), v_field_id := k\<rparr>)
              (length (g_alias_set h)) h))"
      using lp(2) lh wf sd_wf_lens(1) [OF wf] nd by (simp add: ty_drop_flags_def Let_def sd_push_field_ok)
    fix h' f assume f: "sd_ensured p k f h h'"
    have e': "sd_ext UNIV h h'" using sd_ext_ensured [OF f wf sd_split_UNIV lp(2)] by simp
    have "sd_walk h' root (ks @ [k]) = Some f"
      using sd_walk_ext [OF e' lp(3)] f lp(2) sd_ext_len [OF e']
      by (intro sd_walk_snoc) (auto simp: sd_ensured_def)
    then show "ok (sd_reached g root (ks @ [k])) (Inr (l, f, h'))"
      using f lp(1) sd_ext_trans [OF e e'] by (auto simp: sd_reached_def sd_ensured_def)
  qed
  then show ?thesis using lp(2) by (simp add: sd_proj_elem_def Let_def)
qed

definition field_place :: "nat \<Rightarrow> (nat \<times> ty) list \<Rightarrow> place" where
  "field_place l kts = \<lparr>p_local = l, p_projection = map (\<lambda>(k, t). Field k t) kts\<rparr>"

lemma sd_proj_fields_reached:
  assumes "sd_reached g root ks s" "root < length (g_values g)"
    "list_all (\<lambda>(k, t). ok (\<lambda>_. True) (is_not_drop tcx t)) kts"
  shows "ok (sd_reached g root (ks @ map fst kts))
    (rfold (sd_proj_elem tcx False) (map (\<lambda>(k, t). Field k t) kts) s)"
  using assms
proof (induction kts arbitrary: ks s)
  case (Cons kt kts)
  obtain k t where kt: "kt = (k, t)" by (cases kt)
  obtain l p h where s: "s = (l, p, h)" by (cases s)
  have "ok (sd_reached g root (ks @ [k])) (sd_proj_elem tcx False (Field k t) s)"
    using Cons.prems kt s by (auto intro: sd_proj_field_reached)
  then show ?case
    using Cons.IH [of "ks @ [k]"] Cons.prems(2,3) kt by (auto intro: ok_rbindI)
qed simp

subsection \<open>Properties\<close>

definition demo_graph :: "(nat \<times> nat) list list \<Rightarrow> sd_graph" where
  "demo_graph fss =
     \<lparr>g_def_id = 0, g_span = 0,
      g_values = map (\<lambda>(i, fs). (sd_node_new i i True True)\<lparr>v_fields := fs\<rparr>) (enumerate 0 fss),
      g_blocks = [], g_arg_size = 0, g_scc_indices = [], g_constant = Map.empty, g_return_set = {},
      g_bugs = bug_records_new, g_visit_times = 0, g_alias_set = [0..<length fss],
      g_dead_record = replicate (length fss) False, g_adt_owner = Map.empty, g_child_scc = Map.empty\<rparr>"

lemma demo_graph_values:
  "length (g_values (demo_graph fss)) = length fss"
  "i < length fss \<Longrightarrow> g_values (demo_graph fss) ! i = (sd_node_new i i True True)\<lparr>v_fields := fss ! i\<rparr>"
  by (simp_all add: demo_graph_def nth_enumerate_eq)

lemma demo_graph_wf:
  "list_all (\<lambda>(i, fs). distinct (map fst fs) \<and> list_all (\<lambda>(k, f). i < f \<and> f < length fss) fs) (enumerate 0 fss)
   \<Longrightarrow> sd_wf (demo_graph fss)"
  by (force simp: sd_wf_def sd_node_wf_def demo_graph_values list_all_iff in_set_enumerate_eq
      sd_node_new_def demo_graph_def nth_enumerate_eq)

lemma demo_not_drop [simp]:
  "is_not_drop demo_tcx Ty_Bool = Inr True" "is_not_drop demo_tcx Ty_Char = Inr True"
  by (simp_all add: is_not_drop_def demo_tcx_def numeral_eq_Suc)

text \<open>projecting a place on a well-formed graph always returns the index of an existing value: no
  index is out of bounds and no \<open>unwrap\<close> fails, the graph stays well formed, and no value is lost.\<close>

theorem sd_projection_total:
  assumes "sd_wf g" "p_local p < length (g_values g)" "place_tys_ok tcx p"
  shows "\<exists>i h. sd_projection tcx is_right p g = Inr (i, h) \<and> i < length (g_values h) \<and> sd_wf h \<and>
    length (g_values g) \<le> length (g_values h)"
  using sd_projection_ok [OF assms] by (fastforce simp: ok_def sd_grows_def)

theorem sd_projection_total_witness:
  "\<exists>i h. sd_projection demo_tcx True \<lparr>p_local = 1, p_projection = [Field 0 Ty_Bool, Deref]\<rparr>
      (demo_graph [[], []]) = Inr (i, h) \<and> i < length (g_values h) \<and> sd_wf h"
proof -
  have "sd_wf (demo_graph [[], []])" by (simp add: demo_graph_wf)
  then show ?thesis
    using sd_projection_total [of "demo_graph [[], []]" "\<lparr>p_local = 1, p_projection = [Field 0 Ty_Bool, Deref]\<rparr>"
      demo_tcx True]
    by (auto simp: demo_graph_values place_tys_ok_def)
qed

text \<open>field sensitivity. Projecting \<open>x.k1.k2...\<close> on the left yields the value that the field path
  \<open>[k1, k2, ...]\<close> leads to from \<open>x\<close>, and projecting the same place again yields the same value.\<close>

theorem sd_projection_follows_fields:
  assumes "sd_wf g" "x < length (g_values g)"
    "list_all (\<lambda>(k, t). ok (\<lambda>_. True) (is_not_drop tcx t)) kts"
  shows "\<exists>i h. sd_projection tcx False (field_place x kts) g = Inr (i, h) \<and>
    sd_walk h x (map fst kts) = Some i \<and>
    (\<exists>h'. sd_projection tcx False (field_place x kts) h = Inr (i, h'))"
proof -
  have "sd_reached g x [] (x, x, g)"
    using assms by (simp add: sd_reached_def sd_ext_refl)
  from sd_proj_fields_reached [OF this assms(2,3)] obtain i h where
    1: "rfold (sd_proj_elem tcx False) (map (\<lambda>(k, t). Field k t) kts) (x, x, g) = Inr (x, i, h)"
    "sd_ext UNIV g h" "sd_walk h x (map fst kts) = Some i"
    by (auto simp: ok_def sd_reached_def)
  have xh: "x < length (g_values h)" using sd_ext_len [OF 1(2)] assms(2) by simp
  have "sd_reached h x [] (x, x, h)"
    using sd_ext_wf [OF 1(2)] xh by (simp add: sd_reached_def sd_ext_refl)
  from sd_proj_fields_reached [OF this xh assms(3)] obtain j h' where
    2: "rfold (sd_proj_elem tcx False) (map (\<lambda>(k, t). Field k t) kts) (x, x, h) = Inr (x, j, h')"
    "sd_ext UNIV h h'" "sd_walk h' x (map fst kts) = Some j"
    by (auto simp: ok_def sd_reached_def)
  have "j = i" using sd_walk_ext [OF 2(2) 1(3)] 2(3) by simp
  with 1 2 show ?thesis by (auto simp: sd_projection_def field_place_def)
qed

theorem sd_projection_follows_fields_witness:
  "\<exists>i h. sd_projection demo_tcx False (field_place 1 [(3, Ty_Bool), (0, Ty_Char)]) (demo_graph [[], []]) = Inr (i, h) \<and>
    sd_walk h 1 [3, 0] = Some i"
proof -
  have "sd_wf (demo_graph [[], []])" by (simp add: demo_graph_wf)
  from sd_projection_follows_fields [OF this, of 1 demo_tcx "[(3, Ty_Bool), (0, Ty_Char)]"]
  show ?thesis by (simp add: demo_graph_values del: sd_walk.simps) blast
qed

text \<open>\<open>fill_birth\<close> returns on every well-formed graph, sets the birth of the value, and leaves no
  dead value in its alias class; it changes nothing but births, and only to the new birth.\<close>

theorem sd_fill_birth_revives:
  assumes "sd_wf g" "node < length (g_values g)" "enum_order (set_order tcx)" "b \<noteq> -1"
  shows "\<exists>h. sd_fill_birth_top tcx node b g = Inr h \<and> v_birth (g_values h ! node) = b \<and>
    (\<forall>i<length (g_values g). union_is_same (g_alias_set g) i node = Inr True \<longrightarrow>
       v_birth (g_values h ! i) \<noteq> -1) \<and> sd_reborn b g h"
proof -
  from sd_fill_birth_ok [OF assms(3,4,1,2), of "Suc (length (g_values g))"] obtain h where
    h: "sd_fill_birth_top tcx node b g = Inr h" "sd_woken node b (length (g_values g)) g h"
      "v_birth (g_values h ! node) = b"
    by (auto simp: ok_def sd_fill_birth_top_def)
  with assms(1,2) sd_wf_lens [OF assms(1)] show ?thesis
    by (auto simp: sd_woken_def union_is_same_forest)
qed

theorem sd_fill_birth_revives_witness:
  "\<exists>h. sd_fill_birth_top demo_tcx 0 4 (demo_graph [[(0, 1)], []]) = Inr h \<and> v_birth (g_values h ! 0) = 4"
  using sd_fill_birth_revives [of "demo_graph [[(0, 1)], []]" 0 demo_tcx 4]
  by (auto simp: demo_graph_wf demo_graph_values)

text \<open>C5: if the field trees of \<open>lv\<close> and \<open>rv\<close> are disjoint, \<open>merge_alias\<close> returns a well-formed graph in
  which every field path of \<open>rv\<close> also exists below \<open>lv\<close> and leads to an alias of the value it leads
  to below \<open>rv\<close>; the fields of the values outside the tree of \<open>lv\<close> are as before.\<close>

theorem sd_merge_alias_mirrors:
  assumes "sd_wf g" "enum_order (set_order tcx)" "sd_split L g" "lv < length (g_values g)" "lv \<in> L" "rv \<notin> L"
  shows "\<exists>h. sd_merge_alias_top tcx lv rv g = Inr h \<and> sd_wf h \<and>
    (\<forall>ks j. sd_walk g rv ks = Some j \<longrightarrow>
       (\<exists>i. sd_walk h lv ks = Some i \<and> union_is_same (g_alias_set h) i j = Inr True)) \<and>
    (\<forall>i<length (g_values g). i \<notin> L \<longrightarrow> v_fields (g_values h ! i) = v_fields (g_values g ! i))"
proof -
  have "- L \<subseteq> {..<length (g_values g)}" using sd_split_in [OF assms(3)] by auto
  from sd_merge_alias_ok [OF assms(2) this assms(1,3,4,5,6), of "Suc (length (g_values g))"] obtain h where
    h: "sd_merge_alias_top tcx lv rv g = Inr h" and m: "sd_ext L g h" "sd_mirror h lv rv"
    by (auto simp: ok_def sd_merge_alias_top_def sd_merged_def)
  have wf: "sd_wf h" using sd_ext_wf [OF m(1)] by simp
  note lens = sd_wf_lens [OF wf]
  have "\<exists>i. sd_walk h lv ks = Some i \<and> union_is_same (g_alias_set h) i j = Inr True"
    if w: "sd_walk g rv ks = Some j" for ks j
  proof -
    have j: "sd_walk h rv ks = Some j" using sd_walk_ext [OF m(1) w] .
    with m(2) obtain i where i: "sd_walk h lv ks = Some i" "sd_same h i j" by (auto simp: sd_mirror_def)
    have "rv < length (g_values h)" using sd_split_in assms(6) sd_ext_wf [OF m(1)] by blast
    then have "i < length (g_values h)" "j < length (g_values h)"
      using sd_walk_in [OF wf _ i(1)] sd_walk_in [OF wf _ j] assms(4) sd_ext_len [OF m(1)] by auto
    with i lens show ?thesis by (auto simp: sd_same_def union_is_same_forest)
  qed
  with h wf m(1) show ?thesis by (auto simp: sd_ext_def)
qed

theorem sd_merge_alias_mirrors_witness:
  "\<exists>h i. sd_merge_alias_top demo_tcx 0 1 (demo_graph [[], [(5, 2)], []]) = Inr h \<and>
    sd_walk h 0 [5] = Some i \<and> union_is_same (g_alias_set h) i 2 = Inr True"
proof -
  let ?g = "demo_graph [[], [(5, 2)], []]" and ?L = "insert 0 {3..}"
  have "sd_split ?L ?g"
    by (auto simp: sd_split_def demo_graph_values numeral_eq_Suc less_Suc_eq field_get_def sd_node_new_def)
  moreover have "sd_wf ?g" by (simp add: demo_graph_wf)
  ultimately obtain h where h: "sd_merge_alias_top demo_tcx 0 1 ?g = Inr h"
    "\<And>ks j. sd_walk ?g 1 ks = Some j \<Longrightarrow>
      (\<exists>i. sd_walk h 0 ks = Some i \<and> union_is_same (g_alias_set h) i j = Inr True)"
    using sd_merge_alias_mirrors [of ?g demo_tcx ?L 0 1] by (force simp: demo_graph_values)
  moreover have "sd_walk ?g 1 [5] = Some 2" by (simp add: demo_graph_values field_get_def)
  ultimately show ?thesis using h(2) [of "[5]" 2] by blast
qed

text \<open>merging a value into its own field never ends, however many nested calls are allowed:
  \<open>merge_alias(x.0, x)\<close> keeps creating the field it is about to visit.\<close>

theorem sd_merge_alias_into_field_diverges:
  assumes "enum_order (set_order tcx)" "sd_wf g" "length (g_values g) = 2"
    "v_fields (g_values g ! 0) = [(0, 1)]" "v_fields (g_values g ! 1) = []"
  shows "sd_merge_alias n tcx 1 0 g = Inl Diverges"
  using sd_chain_merge_diverges [OF assms(1), of 0 g n] assms by (simp add: sd_chain_def)

theorem sd_merge_alias_into_field_diverges_witness:
  "sd_merge_alias 1000000 demo_tcx 1 0 (demo_graph [[(0, 1)], []]) = Inl Diverges"
  using sd_merge_alias_into_field_diverges [of demo_tcx "demo_graph [[(0, 1)], []]" 1000000]
  by (simp add: demo_graph_wf demo_graph_values)

end
