(* ===== verification/Graph_Search.thy ===== *)
theory Graph_Search
  imports Prelude
begin

section \<open>Depth-first search with a visited set\<close>

text \<open>
  The reference search that recursive traversals of the sources are instances of: visit a node,
  stop at the first bad one, record it, and descend into the successors that are not recorded
  yet. The fuel counts nested calls; one more than the number of unvisited nodes is enough.
\<close>

fun dfs_any :: "nat \<Rightarrow> ('a \<Rightarrow> 'a list) \<Rightarrow> ('a \<Rightarrow> bool) \<Rightarrow> 'a \<Rightarrow> 'a set \<Rightarrow> (bool \<times> 'a set) res" where
  "dfs_any 0 succs bad x rec = Inl Diverges"
| "dfs_any (Suc n) succs bad x rec =
     (if bad x then Inr (True, rec)
      else rany (\<lambda>y rec. if y \<in> rec then Inr (False, rec) else dfs_any n succs bad y rec)
             (succs x) (insert x rec))"

lemma dfs_any_grows: "safe (\<lambda>(b, r). rec \<subseteq> r) (dfs_any n succs bad x rec)"
proof (induction n arbitrary: x rec)
  case (Suc n)
  have "safe (\<lambda>(b, r). rec \<subseteq> r)
      (rany (\<lambda>y rec. if y \<in> rec then Inr (False, rec) else dfs_any n succs bad y rec) (succs x) (insert x rec))"
  proof (rule safe_rany)
    fix y r assume "rec \<subseteq> r"
    then show "safe (\<lambda>(b, r). rec \<subseteq> r) (if y \<in> r then Inr (False, r) else dfs_any n succs bad y r)"
      using Suc [of r y] by (auto elim!: safe_mono)
  qed auto
  then show ?case by simp
qed simp

locale dfs_graph =
  fixes V :: "'a set" and succs :: "'a \<Rightarrow> 'a list" and bad :: "'a \<Rightarrow> bool"
  assumes finite_V: "finite V"
    and succs_in: "x \<in> V \<Longrightarrow> set (succs x) \<subseteq> V"
begin

definition edges :: "('a \<times> 'a) set" where
  "edges = {(x, y). x \<in> V \<and> y \<in> set (succs x)}"

text \<open>What a call on \<open>x\<close> has done to the visited set: nothing is forgotten, and if it reported no
  bad node then the nodes it added are good and their successors are visited.\<close>

definition explored :: "'a set \<Rightarrow> bool \<times> 'a set \<Rightarrow> bool" where
  "explored rec = (\<lambda>(b, rec'). rec \<subseteq> rec' \<and> rec' \<subseteq> V \<and>
     (\<not> b \<longrightarrow> (\<forall>i \<in> rec' - rec. \<not> bad i \<and> set (succs i) \<subseteq> rec')))"

definition hit :: "'a \<Rightarrow> bool \<times> 'a set \<Rightarrow> bool" where
  "hit x = (\<lambda>(b, rec). if b then \<exists>j. (x, j) \<in> edges\<^sup>* \<and> bad j else x \<in> rec)"

lemma explored_trans:
  assumes "explored rec (False, r)" "explored r (b, r')"
  shows "explored rec (b, r')"
proof -
  have "\<not> bad i \<and> set (succs i) \<subseteq> r'" if "i \<in> r' - rec" "\<not> b" for i
    using assms that unfolding explored_def by (cases "i \<in> r") (simp, blast, simp)
  with assms show ?thesis by (auto simp: explored_def)
qed

lemma rany_visit:
  assumes visit: "\<And>y rec. \<lbrakk>y \<in> set ys; y \<notin> rec; rec0 \<subseteq> rec; rec \<subseteq> V\<rbrakk> \<Longrightarrow>
      ok (\<lambda>r. explored rec r \<and> hit y r) (f y rec)"
    and "rec0 \<subseteq> rec" "rec \<subseteq> V"
  shows "ok (\<lambda>(b, rec'). explored rec (b, rec') \<and>
      (if b then \<exists>y \<in> set ys. \<exists>j. (y, j) \<in> edges\<^sup>* \<and> bad j else set ys \<subseteq> rec'))
    (rany (\<lambda>y rec. if y \<in> rec then Inr (False, rec) else f y rec) ys rec)"
  using assms
proof (induction ys arbitrary: rec)
  case Nil
  then show ?case by (simp add: explored_def)
next
  case (Cons y ys)
  show ?case
  proof (cases "y \<in> rec")
    case True
    have "ok (\<lambda>(b, rec'). explored rec (b, rec') \<and>
        (if b then \<exists>y \<in> set ys. \<exists>j. (y, j) \<in> edges\<^sup>* \<and> bad j else set ys \<subseteq> rec'))
      (rany (\<lambda>y rec. if y \<in> rec then Inr (False, rec) else f y rec) ys rec)"
      using Cons by simp
    with True show ?thesis
      by (auto elim!: ok_mono simp: explored_def split: if_splits)
  next
    case False
    then have "ok (\<lambda>r. explored rec r \<and> hit y r) (f y rec)" using Cons.prems by simp
    then obtain b r where br: "f y rec = Inr (b, r)" "explored rec (b, r)" "hit y (b, r)"
      by (auto simp: ok_def)
    show ?thesis
    proof (cases b)
      case True
      with br False show ?thesis by (auto simp: explored_def hit_def)
    next
      case nb: False
      have sub: "rec \<subseteq> r" "r \<subseteq> V" "y \<in> r" using br nb by (auto simp: explored_def hit_def)
      have "ok (\<lambda>(b, rec'). explored r (b, rec') \<and>
          (if b then \<exists>y \<in> set ys. \<exists>j. (y, j) \<in> edges\<^sup>* \<and> bad j else set ys \<subseteq> rec'))
        (rany (\<lambda>y rec. if y \<in> rec then Inr (False, rec) else f y rec) ys r)"
        using Cons sub by (intro Cons.IH) auto
      then have "ok (\<lambda>(b, rec'). explored rec (b, rec') \<and>
          (if b then \<exists>y \<in> set (y # ys). \<exists>j. (y, j) \<in> edges\<^sup>* \<and> bad j else set (y # ys) \<subseteq> rec'))
        (rany (\<lambda>y rec. if y \<in> rec then Inr (False, rec) else f y rec) ys r)"
      proof (rule ok_mono, clarify)
        fix c r'
        assume e: "explored r (c, r')"
          and c: "if c then \<exists>y \<in> set ys. \<exists>j. (y, j) \<in> edges\<^sup>* \<and> bad j else set ys \<subseteq> r'"
        have "r \<subseteq> r'" using e by (auto simp: explored_def)
        with c sub explored_trans [OF _ e, of rec] br nb
        show "explored rec (c, r') \<and>
          (if c then \<exists>y \<in> set (y # ys). \<exists>j. (y, j) \<in> edges\<^sup>* \<and> bad j else set (y # ys) \<subseteq> r')"
          by (auto split: if_splits)
      qed
      with br False nb show ?thesis by simp
    qed
  qed
qed

lemma dfs_any_explores:
  "\<lbrakk>x \<in> V; x \<notin> rec; rec \<subseteq> V; card (V - rec) \<le> n\<rbrakk> \<Longrightarrow>
     ok (\<lambda>r. explored rec r \<and> hit x r) (dfs_any n succs bad x rec)"
proof (induction n arbitrary: x rec)
  case 0
  then have "V - rec = {}" using finite_V by auto
  with 0 show ?case by auto
next
  case (Suc n)
  show ?case
  proof (cases "bad x")
    case True
    then show ?thesis using Suc.prems by (auto simp: explored_def hit_def)
  next
    case False
    have "ok (\<lambda>(b, rec'). explored (insert x rec) (b, rec') \<and>
        (if b then \<exists>y \<in> set (succs x). \<exists>j. (y, j) \<in> edges\<^sup>* \<and> bad j else set (succs x) \<subseteq> rec'))
      (rany (\<lambda>y rec. if y \<in> rec then Inr (False, rec) else dfs_any n succs bad y rec) (succs x) (insert x rec))"
    proof (rule rany_visit)
      fix y r assume y: "y \<in> set (succs x)" "y \<notin> r" "insert x rec \<subseteq> r" "r \<subseteq> V"
      have "V - r \<subset> V - rec" using y(3) Suc.prems by blast
      then have "card (V - r) < card (V - rec)" using finite_V by (intro psubset_card_mono) auto
      then show "ok (\<lambda>ra. explored r ra \<and> hit y ra) (dfs_any n succs bad y r)"
        using Suc.IH [of y r] y Suc.prems succs_in by auto
    qed (use Suc.prems in auto)
    then show ?thesis
      using False Suc.prems
      by (auto elim!: ok_mono simp: explored_def hit_def edges_def split: if_splits
          intro: converse_rtrancl_into_rtrancl)
  qed
qed

text \<open>The search from the empty visited set finds a bad node exactly if one is reachable.\<close>

theorem dfs_any_iff:
  assumes "x \<in> V" "card V \<le> n"
  shows "\<exists>rec. dfs_any n succs bad x {} = Inr (\<exists>j. (x, j) \<in> edges\<^sup>* \<and> bad j, rec)"
proof -
  from dfs_any_explores [of x "{}" n] assms obtain b rec where
    r: "dfs_any n succs bad x {} = Inr (b, rec)" "explored {} (b, rec)" "hit x (b, rec)"
    by (auto simp: ok_def)
  have "\<not> (\<exists>j. (x, j) \<in> edges\<^sup>* \<and> bad j)" if "\<not> b"
  proof clarify
    fix j assume j: "(x, j) \<in> edges\<^sup>*" "bad j"
    have "j \<in> rec" using j(1)
      by (induction rule: rtrancl_induct) (use r that in \<open>auto simp: explored_def hit_def edges_def\<close>)
    with r that j(2) show False by (auto simp: explored_def)
  qed
  with r show ?thesis by (cases b) (auto simp: hit_def)
qed

end

subsection \<open>Search without a visited set\<close>

text \<open>
  The same search without recording the nodes it has seen. Whatever it answers is right; it returns
  on every node from which no cycle can be reached, and it never returns if no bad node but a cycle
  can be reached.
\<close>

fun dfs_find :: "nat \<Rightarrow> ('a \<Rightarrow> 'a list) \<Rightarrow> ('a \<Rightarrow> bool) \<Rightarrow> 'a \<Rightarrow> bool res" where
  "dfs_find 0 succs bad x = Inl Diverges"
| "dfs_find (Suc n) succs bad x =
     (if bad x then Inr True
      else rbind (rany (\<lambda>y u. rbind (dfs_find n succs bad y) (\<lambda>b. Inr (b, u))) (succs x) ()) (\<lambda>(b, _). Inr b))"

definition succ_rel :: "('a \<Rightarrow> 'a list) \<Rightarrow> ('a \<times> 'a) set" where
  "succ_rel succs = {(x, y). y \<in> set (succs x)}"

lemma rany_unit_Inr:
  assumes "rany (\<lambda>y u. rbind (h y) (\<lambda>b. Inr (b, u))) ys () = Inr (b, u)"
  shows "if b then \<exists>y\<in>set ys. h y = Inr True else \<forall>y\<in>set ys. h y = Inr False"
  using assms
proof (induction ys)
  case (Cons y ys)
  then show ?case by (cases "h y") (auto split: if_splits)
qed simp

lemma rany_unit_total:
  assumes "\<And>y. y \<in> set ys \<Longrightarrow> \<exists>b. h y = Inr b"
  shows "\<exists>b. rany (\<lambda>y u. rbind (h y) (\<lambda>b. Inr (b, u))) ys () = Inr (b, ())"
  using assms
proof (induction ys)
  case (Cons y ys)
  then obtain b where "h y = Inr b" by auto
  with Cons show ?case by auto
qed (auto intro: exI [of _ False])

lemma rany_unit_diverges:
  assumes "\<And>y. y \<in> set ys \<Longrightarrow> h y = Inr False \<or> h y = Inl e" "y \<in> set ys" "h y = Inl e"
  shows "rany (\<lambda>y u. rbind (h y) (\<lambda>b. Inr (b, u))) ys () = Inl e"
  using assms
proof (induction ys)
  case (Cons z ys)
  have "h z = Inr False \<or> h z = Inl e" using Cons.prems by simp
  then show ?case using Cons by (cases "h z") auto
qed simp

lemma dfs_find_sound:
  "dfs_find n succs bad x = Inr b \<Longrightarrow> b \<longleftrightarrow> (\<exists>j. (x, j) \<in> (succ_rel succs)\<^sup>* \<and> bad j)"
proof (induction n arbitrary: x b)
  case (Suc n)
  show ?case
  proof (cases "bad x")
    case True
    with Suc.prems show ?thesis by auto
  next
    case False
    with Suc.prems obtain u where
      "rany (\<lambda>y u. rbind (dfs_find n succs bad y) (\<lambda>b. Inr (b, u))) (succs x) () = Inr (b, u)"
      by (auto simp: rbind_Inr_iff)
    note r = rany_unit_Inr [OF this]
    have step: "(\<exists>j. (x, j) \<in> (succ_rel succs)\<^sup>* \<and> bad j) \<longleftrightarrow>
        (\<exists>y\<in>set (succs x). \<exists>j. (y, j) \<in> (succ_rel succs)\<^sup>* \<and> bad j)"
      using False by (auto simp: succ_rel_def elim: converse_rtranclE intro: converse_rtrancl_into_rtrancl)
    show ?thesis
    proof (cases b)
      case True
      with r obtain y where "y \<in> set (succs x)" "dfs_find n succs bad y = Inr True" by auto
      with Suc.IH [of y True] True show ?thesis unfolding step by auto
    next
      case nb: False
      with r have "\<forall>y\<in>set (succs x). dfs_find n succs bad y = Inr False" by simp
      with Suc.IH nb show ?thesis unfolding step by blast
    qed
  qed
qed simp

lemma reach_subset:
  assumes "\<And>x. x \<in> V \<Longrightarrow> set (succs x) \<subseteq> V" "x \<in> V"
  shows "(succ_rel succs)\<^sup>* `` {x} \<subseteq> V"
proof clarsimp
  fix y assume "(x, y) \<in> (succ_rel succs)\<^sup>*"
  then show "y \<in> V" by induction (use assms in \<open>auto simp: succ_rel_def\<close>)
qed

text \<open>Without cycles every step leaves fewer nodes to reach.\<close>

lemma card_reach_less:
  assumes "finite V" "\<And>x. x \<in> V \<Longrightarrow> set (succs x) \<subseteq> V" "\<And>x. x \<in> V \<Longrightarrow> (x, x) \<notin> (succ_rel succs)\<^sup>+"
    and "x \<in> V" "y \<in> set (succs x)"
  shows "card ((succ_rel succs)\<^sup>* `` {y}) < card ((succ_rel succs)\<^sup>* `` {x})"
proof -
  have xy: "(x, y) \<in> succ_rel succs" using assms(5) by (simp add: succ_rel_def)
  have "(succ_rel succs)\<^sup>* `` {y} \<subseteq> (succ_rel succs)\<^sup>* `` {x}"
    using xy by (auto intro: converse_rtrancl_into_rtrancl)
  moreover have "x \<notin> (succ_rel succs)\<^sup>* `` {y}"
    using assms(3) [OF assms(4)] xy by (auto dest: rtrancl_into_trancl2)
  ultimately have "(succ_rel succs)\<^sup>* `` {y} \<subset> (succ_rel succs)\<^sup>* `` {x}" by blast
  moreover have "finite ((succ_rel succs)\<^sup>* `` {x})"
    using reach_subset [OF assms(2,4)] assms(1) by (rule finite_subset)
  ultimately show ?thesis by (rule psubset_card_mono [rotated])
qed

lemma dfs_find_returns:
  assumes "finite V" "\<And>x. x \<in> V \<Longrightarrow> set (succs x) \<subseteq> V" "\<And>x. x \<in> V \<Longrightarrow> (x, x) \<notin> (succ_rel succs)\<^sup>+"
  shows "\<lbrakk>x \<in> V; card ((succ_rel succs)\<^sup>* `` {x}) \<le> n\<rbrakk> \<Longrightarrow> \<exists>b. dfs_find n succs bad x = Inr b"
proof (induction n arbitrary: x)
  case 0
  have "(succ_rel succs)\<^sup>* `` {x} \<subseteq> V" using reach_subset [OF assms(2) 0(1)] .
  then have "(succ_rel succs)\<^sup>* `` {x} = {}" using 0(2) assms(1) by (simp add: finite_subset)
  then show ?case by blast
next
  case (Suc n)
  have "\<exists>b. dfs_find n succs bad y = Inr b" if y: "y \<in> set (succs x)" for y
  proof (rule Suc.IH)
    show "y \<in> V" using assms(2) [OF Suc.prems(1)] y by blast
    have "card ((succ_rel succs)\<^sup>* `` {y}) < card ((succ_rel succs)\<^sup>* `` {x})"
      by (rule card_reach_less [OF assms]) (use Suc.prems(1) y in auto)
    with Suc.prems(2) show "card ((succ_rel succs)\<^sup>* `` {y}) \<le> n" by simp
  qed
  from rany_unit_total [of "succs x" "dfs_find n succs bad", OF this] show ?case by auto
qed

lemma dfs_find_error: "dfs_find m succs bad z = Inl e \<Longrightarrow> e = Diverges"
proof (induction m arbitrary: z)
  case (Suc m)
  have "rany (\<lambda>y u. rbind (dfs_find m succs bad y) (\<lambda>b. Inr (b, u))) ys () = Inl e \<Longrightarrow> e = Diverges" for ys
  proof (induction ys)
    case (Cons y ys)
    then show ?case using Suc.IH [of y] by (cases "dfs_find m succs bad y") (auto split: if_splits)
  qed simp
  from this [of "succs z"] Suc.prems show ?case
    by (cases "rany (\<lambda>y u. rbind (dfs_find m succs bad y) (\<lambda>b. Inr (b, u))) (succs z) ()") (auto split: if_splits)
qed simp

lemma dfs_find_diverges:
  assumes "(x, k) \<in> (succ_rel succs)\<^sup>*" "(k, k) \<in> (succ_rel succs)\<^sup>+"
    "\<nexists>j. (x, j) \<in> (succ_rel succs)\<^sup>* \<and> bad j"
  shows "dfs_find n succs bad x = Inl Diverges"
  using assms(1,3)
proof (induction n arbitrary: x)
  case (Suc n)
  obtain y where y: "(x, y) \<in> succ_rel succs" "(y, k) \<in> (succ_rel succs)\<^sup>*"
    using Suc.prems(1) assms(2) by (cases rule: converse_rtranclE) (auto dest: tranclD)
  have ok: "\<nexists>j. (z, j) \<in> (succ_rel succs)\<^sup>* \<and> bad j" if "(x, z) \<in> succ_rel succs" for z
    using Suc.prems(2) that by (meson converse_rtrancl_into_rtrancl)
  have "\<not> bad x" using Suc.prems(2) by blast
  have "rany (\<lambda>y u. rbind (dfs_find n succs bad y) (\<lambda>b. Inr (b, u))) (succs x) () = Inl Diverges"
  proof (rule rany_unit_diverges [where y = y])
    fix z assume "z \<in> set (succs x)"
    then show "dfs_find n succs bad z = Inr False \<or> dfs_find n succs bad z = Inl Diverges"
      using dfs_find_sound [of n succs bad z True] dfs_find_error [of n succs bad z] ok [of z]
      by (cases "dfs_find n succs bad z") (auto simp: succ_rel_def)
  next
    show "y \<in> set (succs x)" using y by (simp add: succ_rel_def)
    show "dfs_find n succs bad y = Inl Diverges" using Suc.IH y ok by blast
  qed
  with \<open>\<not> bad x\<close> show ?case by simp
qed simp

end
