(* ===== verification/Sd_Bugs.thy ===== *)
theory Sd_Bugs
  imports Sd_Merge Graph_Search
begin

section \<open>SafeDrop: bug checks and dropping a value\<close>

text \<open>
  \<^verbatim>\<open>safedrop/check_bugs.rs\<close>. \<open>exist_dead\<close> searches the value graph along alias classes and fields for
  a dead value; \<open>uaf_check\<close>, \<open>df_check\<close> and \<open>dp_check\<close> record use-after-free, double-free and
  dangling-pointer bugs; \<open>dead_node\<close> marks a dropped value, its aliases and its fields.
\<close>

subsection \<open>The operations\<close>

fun sd_exist_dead :: "nat \<Rightarrow> tcx \<Rightarrow> sd_graph \<Rightarrow> bool \<Rightarrow> nat \<Rightarrow> nat set \<Rightarrow> (bool \<times> nat set) res" where
  "sd_exist_dead 0 tcx g dangling node rec = Inl Diverges"
| "sd_exist_dead (Suc n) tcx g dangling node rec =
     (if node \<ge> length (g_values g) then Inr (False, rec)
      else let v = g_values g ! node in
      if \<not> is_alive v \<and> (dangling \<and> is_ptr v \<or> \<not> dangling) then Inr (True, rec)
      else let rec = insert node rec in
      rbind (union_has_alias (g_alias_set g) node) (\<lambda>has.
      rbind (if has
             then rany (\<lambda>i rec.
                    rbind (if i \<noteq> node
                           then rbind (union_is_same (g_alias_set g) i node) (\<lambda>same. Inr (\<not> same))
                           else Inr False) (\<lambda>skip.
                    if skip then Inr (False, rec)
                    else if i \<in> rec then Inr (False, rec)
                    else sd_exist_dead n tcx g dangling i rec))
                  [0..<length (g_alias_set g)] rec
             else Inr (False, rec)) (\<lambda>(found, rec).
      if found then Inr (True, rec)
      else rany (\<lambda>(_, f) rec.
             if f \<in> rec then Inr (False, rec) else sd_exist_dead n tcx g dangling f rec)
           (hm_iter tcx (v_fields v)) rec)))"

text \<open>The search visits each value at most once, so its nesting is bounded by their number.\<close>

definition sd_exists_dead_from :: "tcx \<Rightarrow> sd_graph \<Rightarrow> bool \<Rightarrow> nat \<Rightarrow> bool res" where
  "sd_exists_dead_from tcx g dangling node =
     rbind (sd_exist_dead (Suc (length (g_values g))) tcx g dangling node {}) (\<lambda>(b, _). Inr b)"

definition sd_is_dangling :: "tcx \<Rightarrow> sd_graph \<Rightarrow> nat \<Rightarrow> bool res" where
  "sd_is_dangling tcx g local = sd_exists_dead_from tcx g (local \<noteq> 0) local"

definition sd_uaf_check :: "tcx \<Rightarrow> nat \<Rightarrow> span \<Rightarrow> nat \<Rightarrow> bool \<Rightarrow> sd_graph \<Rightarrow> sd_graph res" where
  "sd_uaf_check tcx idx sp local is_func_call g =
     rbind (at (g_values g) idx) (\<lambda>v.
     if v_may_drop v \<and> (\<not> is_ptr v \<or> v_local v \<noteq> local \<or> is_func_call)
     then rbind (sd_exists_dead_from tcx g False idx) (\<lambda>d.
          if d \<and> sp \<notin> uaf_bugs (g_bugs g)
          then Inr (g\<lparr>g_bugs := (g_bugs g)\<lparr>uaf_bugs := insert sp (uaf_bugs (g_bugs g))\<rparr>\<rparr>)
          else Inr g)
     else Inr g)"

definition sd_df_check :: "nat \<Rightarrow> span \<Rightarrow> sd_graph \<Rightarrow> (bool \<times> sd_graph) res" where
  "sd_df_check drp sp g =
     rbind (at (g_values g) drp) (\<lambda>v.
     let root = v_local v;
         g = (if \<not> is_alive v \<and> df_bugs (g_bugs g) root = None
              then g\<lparr>g_bugs := (g_bugs g)\<lparr>df_bugs := (df_bugs (g_bugs g))(root \<mapsto> sp)\<rparr>\<rparr> else g)
     in Inr (\<not> is_alive v, g))"

definition sd_dangling_args :: "tcx \<Rightarrow> (sd_graph \<Rightarrow> sd_graph) \<Rightarrow> sd_graph \<Rightarrow> sd_graph res" where
  "sd_dangling_args tcx mark g =
     rfold (\<lambda>i g.
       rbind (at (g_values g) (i + 1)) (\<lambda>v.
       if is_ptr v then rbind (sd_is_dangling tcx g (i + 1)) (\<lambda>d. Inr (if d then mark g else g))
       else Inr g)) [0..<g_arg_size g] g"

definition sd_mark_dp :: "sd_graph \<Rightarrow> sd_graph" where
  "sd_mark_dp g = g\<lparr>g_bugs := (g_bugs g)\<lparr>dp_bugs := insert (g_span g) (dp_bugs (g_bugs g))\<rparr>\<rparr>"

definition sd_mark_dp_unwind :: "sd_graph \<Rightarrow> sd_graph" where
  "sd_mark_dp_unwind g =
     g\<lparr>g_bugs := (g_bugs g)\<lparr>dp_bugs_unwind := insert (g_span g) (dp_bugs_unwind (g_bugs g))\<rparr>\<rparr>"

definition sd_dp_check :: "tcx \<Rightarrow> bool \<Rightarrow> sd_graph \<Rightarrow> sd_graph res" where
  "sd_dp_check tcx is_cleanup g =
     (if is_cleanup then sd_dangling_args tcx sd_mark_dp_unwind g
      else rbind (at (g_values g) 0) (\<lambda>v0.
           rbind (if v_may_drop v0 then sd_is_dangling tcx g 0 else Inr False) (\<lambda>d.
           if d then Inr (sd_mark_dp g) else sd_dangling_args tcx sd_mark_dp g)))"

text \<open>The two loops of \<open>dead_node\<close>, over the aliases and over the fields; \<open>F\<close> is the recursive call.\<close>

definition sd_drop_aliases :: "nat \<Rightarrow> (nat \<Rightarrow> sd_graph \<Rightarrow> sd_graph res) \<Rightarrow> sd_graph \<Rightarrow> sd_graph res" where
  "sd_drop_aliases drp F g =
     rbind (at (g_alias_set g) drp) (\<lambda>p.
     if p \<noteq> drp
     then rfold (\<lambda>i g.
            rbind (union_is_same (g_alias_set g) drp i) (\<lambda>same.
            rbind (at (g_values g) i) (\<lambda>vi.
            if \<not> same \<or> i = drp \<or> is_ref vi then Inr g else F i g))) [0..<length (g_values g)] g
     else Inr g)"

definition sd_drop_fields :: "tcx \<Rightarrow> nat \<Rightarrow> (nat \<Rightarrow> sd_graph \<Rightarrow> sd_graph res) \<Rightarrow> sd_graph \<Rightarrow> sd_graph res" where
  "sd_drop_fields tcx drp F g =
     rbind (at (g_values g) drp) (\<lambda>v.
     rfold (\<lambda>(_, f) g.
       rbind (at (g_values g) drp) (\<lambda>v.
       rbind (at (g_values g) f) (\<lambda>vf.
       if is_tuple v \<and> \<not> v_need_drop vf then Inr g else F f g))) (hm_iter tcx (v_fields v)) g)"

fun sd_dead_node :: "nat \<Rightarrow> tcx \<Rightarrow> nat \<Rightarrow> nat \<Rightarrow> span \<Rightarrow> bool \<Rightarrow> sd_graph \<Rightarrow> sd_graph res" where
  "sd_dead_node 0 tcx drp birth sp alias g = Inl Diverges"
| "sd_dead_node (Suc n) tcx drp birth sp alias g =
     rbind (at (g_values g) drp) (\<lambda>v.
     if is_corner_case v then Inr g
     else rbind (if \<not> alias then sd_df_check drp sp g else Inr (False, g)) (\<lambda>(stop, g).
     if stop then Inr g
     else rbind (at (g_dead_record g) drp) (\<lambda>recorded.
     if recorded then Inr g
     else let g = g\<lparr>g_dead_record := (g_dead_record g)[drp := True]\<rparr> in
     rbind (sd_drop_aliases drp (\<lambda>i. sd_dead_node n tcx i birth sp True) g) (\<lambda>g.
     rbind (if \<not> alias then sd_drop_fields tcx drp (\<lambda>f. sd_dead_node n tcx f birth sp False) g else Inr g) (\<lambda>g.
     rbind (at (g_values g) drp) (\<lambda>v.
     if v_birth v < int birth \<and> v_may_drop v then sd_upd_node drp dead g else Inr g))))))"

text \<open>Every nested call that goes on records one more value as dead.\<close>

definition sd_dead_node_top :: "tcx \<Rightarrow> nat \<Rightarrow> nat \<Rightarrow> span \<Rightarrow> bool \<Rightarrow> sd_graph \<Rightarrow> sd_graph res" where
  "sd_dead_node_top tcx drp birth sp alias g =
     sd_dead_node (Suc (length (g_values g))) tcx drp birth sp alias g"

subsection \<open>The search as an instance of depth-first search\<close>

definition sd_succs :: "tcx \<Rightarrow> sd_graph \<Rightarrow> nat \<Rightarrow> nat list" where
  "sd_succs tcx g i =
     filter (\<lambda>j. j \<noteq> i \<and> sd_same g j i) [0..<length (g_values g)] @
     map snd (hm_iter tcx (v_fields (g_values g ! i)))"

definition sd_bad :: "sd_graph \<Rightarrow> bool \<Rightarrow> nat \<Rightarrow> bool" where
  "sd_bad g dangling i \<longleftrightarrow> \<not> is_alive (g_values g ! i) \<and> (dangling \<longrightarrow> is_ptr (g_values g ! i))"

lemma rany_map: "rany f (map h xs) s = rany (\<lambda>x. f (h x)) xs s"
  by (induction xs arbitrary: s) (auto intro!: rbind_cong)

lemma rany_filter:
  "(\<And>x s. x \<in> set xs \<Longrightarrow> \<not> P x \<Longrightarrow> Q s \<Longrightarrow> f x s = Inr (False, s)) \<Longrightarrow>
   (\<And>x s. x \<in> set xs \<Longrightarrow> P x \<Longrightarrow> Q s \<Longrightarrow> f x s = h x s) \<Longrightarrow>
   (\<And>x s. x \<in> set xs \<Longrightarrow> P x \<Longrightarrow> Q s \<Longrightarrow> safe (\<lambda>(b, s). Q s) (h x s)) \<Longrightarrow> Q s \<Longrightarrow>
   rany f xs s = rany h (filter P xs) s"
proof (induction xs arbitrary: s)
  case (Cons x xs)
  show ?case
  proof (cases "P x")
    case True
    then have "safe (\<lambda>(b, s). Q s) (h x s)" using Cons.prems by simp
    with True show ?thesis
      using Cons by (cases "h x s") auto
  next
    case False
    with Cons show ?thesis by simp
  qed
qed simp

lemma sd_exist_dead_dfs:
  assumes wf: "sd_wf g" and ord: "enum_order (set_order tcx)"
  shows "node < length (g_values g) \<Longrightarrow>
    sd_exist_dead n tcx g dangling node rec = dfs_any n (sd_succs tcx g) (sd_bad g dangling) node rec"
proof (induction n arbitrary: node rec)
  case (Suc n)
  let ?N = "length (g_values g)" and ?v = "g_values g ! node"
  let ?visit = "\<lambda>y rec. if y \<in> rec then Inr (False, rec) else dfs_any n (sd_succs tcx g) (sd_bad g dangling) y rec"
  let ?same = "filter (\<lambda>j. j \<noteq> node \<and> sd_same g j node) [0..<?N]"
  note lens = sd_wf_lens [OF wf]
  have fin: "f < ?N" if "(k, f) \<in> set (hm_iter tcx (v_fields ?v))" for k f
    using that sd_wf_node [OF wf Suc.prems] by (auto simp: sd_node_wf_def set_hm_iter [OF ord])
  have has: "union_has_alias (g_alias_set g) node = Inr (?same \<noteq> [])"
    using Suc.prems lens by (auto simp: union_has_alias_forest filter_empty_conv sd_same_def)
  have grow: "safe (\<lambda>(b, r). node \<in> r) (?visit y r)" if "node \<in> r" for y r
    using dfs_any_grows [of r n "sd_succs tcx g" "sd_bad g dangling" y] that
    by (auto elim!: safe_mono)
  have loop1: "rany (\<lambda>i rec.
        rbind (if i \<noteq> node then rbind (union_is_same (g_alias_set g) i node) (\<lambda>same. Inr (\<not> same)) else Inr False)
          (\<lambda>skip. if skip then Inr (False, rec) else if i \<in> rec then Inr (False, rec)
                  else sd_exist_dead n tcx g dangling i rec))
      [0..<length (g_alias_set g)] (insert node rec) = rany ?visit ?same (insert node rec)"
    unfolding lens(1)
    by (rule rany_filter [where Q = "\<lambda>r. node \<in> r"])
       (use Suc lens grow in \<open>auto simp: union_is_same_forest sd_same_def\<close>)
  have loop2: "rany (\<lambda>(_, f) rec. if f \<in> rec then Inr (False, rec) else sd_exist_dead n tcx g dangling f rec)
      (hm_iter tcx (v_fields ?v)) r = rany ?visit (map snd (hm_iter tcx (v_fields ?v))) r" for r
    unfolding rany_map using Suc.IH fin by (intro rany_cong) auto
  have succs: "sd_succs tcx g node = ?same @ map snd (hm_iter tcx (v_fields ?v))"
    by (simp add: sd_succs_def)
  show ?case
  proof (cases "sd_bad g dangling node")
    case True
    then have "\<not> is_alive ?v \<and> (dangling \<and> is_ptr ?v \<or> \<not> dangling)" by (auto simp: sd_bad_def)
    with True Suc.prems show ?thesis by simp
  next
    case False
    then have nb: "\<not> (\<not> is_alive ?v \<and> (dangling \<and> is_ptr ?v \<or> \<not> dangling))" by (auto simp: sd_bad_def)
    have "(if ?same \<noteq> [] then rany ?visit ?same (insert node rec) else Inr (False, insert node rec)) =
        rany ?visit ?same (insert node rec)" by auto
    moreover have "(?N \<le> node) = False" using Suc.prems by simp
    ultimately show ?thesis
      using False nb
      by (simp only: sd_exist_dead.simps dfs_any.simps Let_def if_False has rbind.simps loop1 loop2 succs
          rany_append)
  qed
qed simp

text \<open>The values the search can reach: aliases and fields, transitively.\<close>

definition sd_edges :: "sd_graph \<Rightarrow> (nat \<times> nat) set" where
  "sd_edges g = {(i, j). i < length (g_values g) \<and> j < length (g_values g) \<and>
     (sd_same g j i \<or> (\<exists>k. field_get k (g_values g ! i) = Some j))}"

lemma sd_succs_in:
  assumes "sd_wf g" "enum_order (set_order tcx)" "i < length (g_values g)"
  shows "j \<in> set (sd_succs tcx g i) \<longleftrightarrow> j \<noteq> i \<and> (i, j) \<in> sd_edges g"
proof -
  have w: "sd_node_wf (length (g_values g)) i (g_values g ! i)" using sd_wf_node [OF assms(1,3)] .
  then have "set (hm_iter tcx (v_fields (g_values g ! i))) = set (v_fields (g_values g ! i))"
    by (simp add: sd_node_wf_def set_hm_iter [OF assms(2)])
  moreover have "(k, j) \<in> set (v_fields (g_values g ! i)) \<longleftrightarrow> field_get k (g_values g ! i) = Some j" for k
    using w by (simp add: sd_node_wf_def field_get_def)
  ultimately have "j \<in> snd ` set (hm_iter tcx (v_fields (g_values g ! i))) \<longleftrightarrow>
      (\<exists>k. field_get k (g_values g ! i) = Some j)"
    by force
  moreover have "j \<noteq> i \<and> j < length (g_values g)" if "field_get k (g_values g ! i) = Some j" for k
    using sd_wf_field [OF assms(1,3) that] by simp
  ultimately show ?thesis using assms(3) by (auto simp: sd_succs_def sd_edges_def)
qed

definition sd_nodes :: "tcx \<Rightarrow> sd_graph \<Rightarrow> nat set" where
  "sd_nodes tcx g = (if sd_wf g \<and> enum_order (set_order tcx) then {..<length (g_values g)} else {})"

interpretation sd_search: dfs_graph "sd_nodes tcx g" "sd_succs tcx g" "sd_bad g dangling" for tcx g dangling
  by unfold_locales (auto simp: sd_nodes_def sd_succs_in sd_edges_def split: if_splits)

lemma sd_search_edges:
  assumes "sd_wf g" "enum_order (set_order tcx)"
  shows "(sd_search.edges tcx g)\<^sup>* = (sd_edges g)\<^sup>*"
proof -
  have "sd_search.edges tcx g = sd_edges g - Id"
    unfolding sd_search.edges_def using assms by (auto simp: sd_nodes_def sd_succs_in sd_edges_def)
  then show ?thesis by (simp add: rtrancl_r_diff_Id)
qed

lemma sd_exists_dead_iff:
  assumes "sd_wf g" "enum_order (set_order tcx)" "node < length (g_values g)"
  shows "sd_exists_dead_from tcx g dangling node =
    Inr (\<exists>j. (node, j) \<in> (sd_edges g)\<^sup>* \<and> sd_bad g dangling j)"
proof -
  have V: "sd_nodes tcx g = {..<length (g_values g)}" using assms by (simp add: sd_nodes_def)
  have E: "(dfs_graph.edges {..<length (g_values g)} (sd_succs tcx g))\<^sup>* = (sd_edges g)\<^sup>*"
    using sd_search_edges [OF assms(1,2)] unfolding V .
  from sd_search.dfs_any_iff [of node tcx g "Suc (length (g_values g))" dangling, unfolded V E] assms(3)
  obtain r where "dfs_any (Suc (length (g_values g))) (sd_succs tcx g) (sd_bad g dangling) node {} =
      Inr (\<exists>j. (node, j) \<in> (sd_edges g)\<^sup>* \<and> sd_bad g dangling j, r)"
    by (auto simp del: dfs_any.simps)
  then show ?thesis
    by (simp add: sd_exists_dead_from_def sd_exist_dead_dfs [OF assms])
qed

subsection \<open>Dropping a value\<close>

text \<open>\<open>dead_node\<close> only kills values, records them as dropped and adds double-free reports.\<close>

definition sd_killed :: "sd_graph \<Rightarrow> sd_graph \<Rightarrow> bool" where
  "sd_killed g h \<longleftrightarrow> (\<exists>vs dr df. h = g\<lparr>g_values := vs, g_dead_record := dr,
       g_bugs := (g_bugs g)\<lparr>df_bugs := df\<rparr>\<rparr> \<and>
     length vs = length (g_values g) \<and> length dr = length (g_dead_record g) \<and>
     (\<forall>i<length vs. vs ! i = g_values g ! i \<or> vs ! i = dead (g_values g ! i)) \<and>
     (\<forall>i<length dr. g_dead_record g ! i \<longrightarrow> dr ! i) \<and> df_bugs (g_bugs g) \<subseteq>\<^sub>m df)"

lemma sd_killed_refl: "sd_killed g g"
  unfolding sd_killed_def
  by (intro exI [of _ "g_values g"] exI [of _ "g_dead_record g"] exI [of _ "df_bugs (g_bugs g)"]) simp

lemma dead_dead [simp]: "dead (dead v) = dead v"
  by (simp add: dead_def)

lemma sd_killed_trans:
  assumes "sd_killed g h" "sd_killed h k"
  shows "sd_killed g k"
proof -
  from assms(1) obtain vs dr df where 1: "h = g\<lparr>g_values := vs, g_dead_record := dr,
       g_bugs := (g_bugs g)\<lparr>df_bugs := df\<rparr>\<rparr>" "length vs = length (g_values g)"
     "length dr = length (g_dead_record g)" "df_bugs (g_bugs g) \<subseteq>\<^sub>m df"
     "\<And>i. i < length vs \<Longrightarrow> vs ! i = g_values g ! i \<or> vs ! i = dead (g_values g ! i)"
     "\<And>i. i < length dr \<Longrightarrow> g_dead_record g ! i \<Longrightarrow> dr ! i" unfolding sd_killed_def by blast
  from assms(2) obtain vs' dr' df' where 2: "k = h\<lparr>g_values := vs', g_dead_record := dr',
       g_bugs := (g_bugs h)\<lparr>df_bugs := df'\<rparr>\<rparr>" "length vs' = length (g_values h)"
     "length dr' = length (g_dead_record h)" "df_bugs (g_bugs h) \<subseteq>\<^sub>m df'"
     "\<And>i. i < length vs' \<Longrightarrow> vs' ! i = g_values h ! i \<or> vs' ! i = dead (g_values h ! i)"
     "\<And>i. i < length dr' \<Longrightarrow> g_dead_record h ! i \<Longrightarrow> dr' ! i" unfolding sd_killed_def by blast
  have "vs' ! i = g_values g ! i \<or> vs' ! i = dead (g_values g ! i)" if "i < length vs'" for i
    using 2(5) [OF that] 1(5) [of i] that 1(1,2) 2(2) by auto
  moreover have "dr' ! i" if "i < length dr'" "g_dead_record g ! i" for i
    using 2(6) [OF that(1)] 1(6) [of i] that 1(1,3) 2(3) by auto
  moreover have "df_bugs (g_bugs g) \<subseteq>\<^sub>m df'" using 1(1,4) 2(4) by (auto intro: map_le_trans)
  moreover have "k = g\<lparr>g_values := vs', g_dead_record := dr', g_bugs := (g_bugs g)\<lparr>df_bugs := df'\<rparr>\<rparr>"
    "length vs' = length (g_values g)" "length dr' = length (g_dead_record g)"
    using 1(1,2,3) 2(1,2,3) by simp_all
  ultimately show ?thesis unfolding sd_killed_def by blast
qed

lemma sd_killed_same:
  assumes "sd_killed g h"
  shows "length (g_values h) = length (g_values g)" "g_alias_set h = g_alias_set g"
    "length (g_dead_record h) = length (g_dead_record g)"
    "i < length (g_values g) \<Longrightarrow> v_fields (g_values h ! i) = v_fields (g_values g ! i)"
    "i < length (g_values g) \<Longrightarrow> v_kind (g_values h ! i) = v_kind (g_values g ! i)"
    "i < length (g_values g) \<Longrightarrow> v_may_drop (g_values h ! i) = v_may_drop (g_values g ! i)"
    "i < length (g_values g) \<Longrightarrow> v_birth (g_values h ! i) \<in> {v_birth (g_values g ! i), -1}"
    "i < length (g_dead_record g) \<Longrightarrow> g_dead_record g ! i \<Longrightarrow> g_dead_record h ! i"
    "sd_wf g \<Longrightarrow> sd_wf h"
proof -
  from assms obtain vs dr df where 1: "h = g\<lparr>g_values := vs, g_dead_record := dr,
       g_bugs := (g_bugs g)\<lparr>df_bugs := df\<rparr>\<rparr>" "length vs = length (g_values g)"
     "length dr = length (g_dead_record g)"
     "\<And>i. i < length vs \<Longrightarrow> vs ! i = g_values g ! i \<or> vs ! i = dead (g_values g ! i)"
     "\<And>i. i < length dr \<Longrightarrow> g_dead_record g ! i \<Longrightarrow> dr ! i" unfolding sd_killed_def by blast
  show "length (g_values h) = length (g_values g)" "g_alias_set h = g_alias_set g"
    "length (g_dead_record h) = length (g_dead_record g)"
    using 1 by simp_all
  show "i < length (g_values g) \<Longrightarrow> v_fields (g_values h ! i) = v_fields (g_values g ! i)"
    "i < length (g_values g) \<Longrightarrow> v_kind (g_values h ! i) = v_kind (g_values g ! i)"
    "i < length (g_values g) \<Longrightarrow> v_may_drop (g_values h ! i) = v_may_drop (g_values g ! i)"
    "i < length (g_values g) \<Longrightarrow> v_birth (g_values h ! i) \<in> {v_birth (g_values g ! i), -1}"
    using 1(4) [of i] 1(1,2) by (auto simp: dead_def)
  show "i < length (g_dead_record g) \<Longrightarrow> g_dead_record g ! i \<Longrightarrow> g_dead_record h ! i"
    using 1(5) [of i] 1(1,3) by simp
  assume wf: "sd_wf g"
  have "sd_node_wf (length vs) i (vs ! i)" if "i < length vs" for i
    using 1(4) [OF that] sd_wf_node [OF wf, of i] that 1(2) by (auto simp: sd_node_wf_def dead_def)
  then show "sd_wf h" using wf 1 by (simp add: sd_wf_def)
qed

lemma sd_killed_kill:
  assumes "i < length (g_values g)"
  shows "ok (\<lambda>h. sd_killed g h \<and> v_birth (g_values h ! i) = -1 \<and> g_dead_record h = g_dead_record g)
    (sd_upd_node i dead g)"
  using assms
  by (auto simp: sd_upd_node_def sd_killed_def nth_list_update dead_def
      intro!: exI [of _ "(g_values g)[i := dead (g_values g ! i)]"] exI [of _ "g_dead_record g"]
        exI [of _ "df_bugs (g_bugs g)"])

lemma sd_killed_record:
  "sd_killed g (g\<lparr>g_dead_record := (g_dead_record g)[i := True]\<rparr>)"
proof -
  have "(g_dead_record g)[i := True] ! j" if "j < length (g_dead_record g)" "g_dead_record g ! j" for j
    using that by (cases "j = i") auto
  then show ?thesis
    by (auto simp: sd_killed_def
        intro!: exI [of _ "g_values g"] exI [of _ "(g_dead_record g)[i := True]"] exI [of _ "df_bugs (g_bugs g)"])
qed

lemma sd_df_check_ok:
  assumes "i < length (g_values g)"
  shows "ok (\<lambda>(b, h). sd_killed g h \<and> g_values h = g_values g \<and> g_dead_record h = g_dead_record g \<and>
      b = (\<not> is_alive (g_values g ! i)))
    (sd_df_check i sp g)"
  using assms
  by (auto simp: sd_df_check_def Let_def sd_killed_refl)
     (auto simp: sd_killed_def intro!: exI [of _ "g_values g"] exI [of _ "g_dead_record g"]
        exI [of _ "(df_bugs (g_bugs g))(v_local (g_values g ! i) \<mapsto> sp)"] simp: map_le_def)

text \<open>Whatever has been recorded as dropped since \<open>g\<close>, and may be dropped, is dead in \<open>h\<close>.\<close>

definition sd_settled :: "nat \<Rightarrow> sd_graph \<Rightarrow> sd_graph \<Rightarrow> bool" where
  "sd_settled birth g h \<longleftrightarrow> (\<forall>i<length (g_values g).
     g_dead_record h ! i \<and> \<not> g_dead_record g ! i \<and> v_birth (g_values g ! i) < int birth \<and>
     v_may_drop (g_values g ! i) \<longrightarrow> \<not> is_alive (g_values h ! i))"

text \<open>The values \<open>dead_node\<close> drops along with \<open>drp\<close> when \<open>drp\<close> does not represent its own class.\<close>

definition sd_drops_alias :: "sd_graph \<Rightarrow> nat \<Rightarrow> nat \<Rightarrow> bool" where
  "sd_drops_alias g drp i \<longleftrightarrow> i < length (g_values g) \<and> i \<noteq> drp \<and> sd_same g drp i \<and>
     \<not> is_ref (g_values g ! i) \<and> \<not> is_corner_case (g_values g ! i)"

definition sd_dropped :: "nat \<Rightarrow> bool \<Rightarrow> nat \<Rightarrow> sd_graph \<Rightarrow> sd_graph \<Rightarrow> bool" where
  "sd_dropped birth alias drp g h \<longleftrightarrow> sd_killed g h \<and> sd_settled birth g h \<and>
     (\<not> is_corner_case (g_values g ! drp) \<and> (alias \<or> is_alive (g_values g ! drp)) \<longrightarrow>
        g_dead_record h ! drp \<and>
        (\<not> g_dead_record g ! drp \<and> g_alias_set g ! drp \<noteq> drp \<longrightarrow>
           (\<forall>i. sd_drops_alias g drp i \<longrightarrow> g_dead_record h ! i)))"

lemma sd_settled_refl: "sd_settled birth g g"
  by (auto simp: sd_settled_def)

lemma sd_settled_trans:
  assumes "sd_killed g h" "sd_settled birth g h" "sd_killed h k" "sd_settled birth h k"
  shows "sd_settled birth g k"
  unfolding sd_settled_def
proof (intro allI impI, elim conjE)
  fix i assume i: "i < length (g_values g)" "g_dead_record k ! i" "\<not> g_dead_record g ! i"
    "v_birth (g_values g ! i) < int birth" "v_may_drop (g_values g ! i)"
  note s = sd_killed_same [OF assms(1)] and t = sd_killed_same [OF assms(3)]
  have ih: "i < length (g_values h)" using i(1) s(1) by simp
  show "\<not> is_alive (g_values k ! i)"
  proof (cases "g_dead_record h ! i")
    case True
    with assms(2) i have "\<not> is_alive (g_values h ! i)" by (simp add: sd_settled_def)
    with t(7) [OF ih] show ?thesis by (auto simp: is_alive_def)
  next
    case False
    have "v_birth (g_values h ! i) < int birth" using s(7) [OF i(1)] i(4) by auto
    with False assms(4) i s(6) [OF i(1)] ih show ?thesis by (simp add: sd_settled_def)
  qed
qed

lemma sd_drops_alias_killed: "sd_killed g h \<Longrightarrow> sd_drops_alias h drp i \<longleftrightarrow> sd_drops_alias g drp i"
  using sd_killed_same(1,2) [of g h] sd_killed_same(5) [of g h i]
  by (auto simp: sd_drops_alias_def sd_same_def is_ref_def is_corner_case_def)

definition sd_undead :: "sd_graph \<Rightarrow> nat set" where
  "sd_undead g = {i. i < length (g_values g) \<and> \<not> g_dead_record g ! i}"

lemma sd_undead_finite [simp]: "finite (sd_undead g)"
  by (simp add: sd_undead_def)

lemma sd_undead_killed: "sd_wf g \<Longrightarrow> sd_killed g h \<Longrightarrow> sd_undead h \<subseteq> sd_undead g"
  using sd_killed_same(1) [of g h] sd_killed_same(8) [of g h] sd_wf_lens(2) [of g] by (auto simp: sd_undead_def)

lemma sd_alias_loop:
  assumes wf: "sd_wf g" and d: "drp < length (g_values g)"
    and rec: "\<And>i h. sd_killed g h \<Longrightarrow> i < length (g_values g) \<Longrightarrow> ok (sd_dropped birth True i h) (F i h)"
  shows "ok (\<lambda>h. sd_killed g h \<and> sd_settled birth g h \<and>
      (g_alias_set g ! drp \<noteq> drp \<longrightarrow> (\<forall>i. sd_drops_alias g drp i \<longrightarrow> g_dead_record h ! i)))
    (sd_drop_aliases drp F g)"
proof -
  let ?step = "\<lambda>i g. rbind (union_is_same (g_alias_set g) drp i) (\<lambda>same.
        rbind (at (g_values g) i) (\<lambda>vi. if \<not> same \<or> i = drp \<or> is_ref vi then Inr g else F i g))"
  let ?xs = "[0..<length (g_values g)]"
  let ?P = "\<lambda>ys h. sd_killed g h \<and> sd_settled birth g h \<and>
      (\<forall>i \<in> set ys. sd_drops_alias g drp i \<longrightarrow> g_dead_record h ! i)"
  have "ok (?P ?xs) (rfold ?step ?xs g)"
  proof (rule ok_rfold_prefix [where P = ?P])
    show "?P [] g" by (simp add: sd_killed_refl sd_settled_refl)
  next
    fix ys i zs h assume split: "?xs = ys @ i # zs" and P: "?P ys h"
    have i: "i < length (g_values g)"
      by (metis split in_set_conv_decomp atLeastLessThan_iff set_upt)
    have k: "sd_killed g h" "sd_settled birth g h" using P by auto
    note s = sd_killed_same [OF k(1)] and lens = sd_wf_lens [OF sd_killed_same(9) [OF k(1) wf]]
    have same: "union_is_same (g_alias_set h) drp i = Inr (sd_same g drp i)"
      using lens s(1,2) d i by (simp add: union_is_same_forest sd_same_def)
    have ref: "is_ref (g_values h ! i) \<longleftrightarrow> is_ref (g_values g ! i)" using s(5) [OF i] by (simp add: is_ref_def)
    have corner: "is_corner_case (g_values h ! i) \<longleftrightarrow> is_corner_case (g_values g ! i)"
      using s(5) [OF i] by (simp add: is_corner_case_def)
    show "ok (?P (ys @ [i])) (?step i h)"
    proof (cases "\<not> sd_same g drp i \<or> i = drp \<or> is_ref (g_values g ! i)")
      case True
      with P same ref i s(1) show ?thesis by (auto simp: sd_drops_alias_def)
    next
      case False
      from rec [OF k(1) i] have "ok (?P (ys @ [i])) (F i h)"
      proof (rule ok_mono)
        fix h' assume "sd_dropped birth True i h h'"
        then have h': "sd_killed h h'" "sd_settled birth h h'"
          and ri: "\<not> is_corner_case (g_values g ! i) \<longrightarrow> g_dead_record h' ! i"
          using corner by (auto simp: sd_dropped_def)
        have "g_dead_record h' ! j" if "j \<in> set ys" "sd_drops_alias g drp j" for j
          using that P s(1) lens sd_killed_same(8) [OF h'(1), of j] by (auto simp: sd_drops_alias_def)
        with ri show "?P (ys @ [i]) h'"
          using sd_killed_trans [OF k(1) h'(1)] sd_settled_trans [OF k h']
          by (auto simp: sd_drops_alias_def)
      qed
      with False same ref i s(1) show ?thesis by simp
    qed
  qed
  then have "ok (\<lambda>h. sd_killed g h \<and> sd_settled birth g h \<and>
      (g_alias_set g ! drp \<noteq> drp \<longrightarrow> (\<forall>i. sd_drops_alias g drp i \<longrightarrow> g_dead_record h ! i))) (rfold ?step ?xs g)"
    by (rule ok_mono) (auto simp: sd_drops_alias_def)
  then show ?thesis
    using d sd_wf_lens(1) [OF wf]
    by (cases "g_alias_set g ! drp = drp") (simp_all add: sd_drop_aliases_def sd_killed_refl sd_settled_refl)
qed

lemma sd_field_loop:
  assumes wf: "sd_wf g" and d: "drp < length (g_values g)" and ord: "enum_order (set_order tcx)"
    and rec: "\<And>i h. sd_killed g h \<Longrightarrow> i < length (g_values g) \<Longrightarrow> ok (sd_dropped birth False i h) (F i h)"
  shows "ok (\<lambda>h. sd_killed g h \<and> sd_settled birth g h) (sd_drop_fields tcx drp F g)"
proof -
  let ?xs = "hm_iter tcx (v_fields (g_values g ! drp))" and ?P = "\<lambda>h. sd_killed g h \<and> sd_settled birth g h"
  have "ok ?P (rfold (\<lambda>(_, f) g. rbind (at (g_values g) drp) (\<lambda>v. rbind (at (g_values g) f) (\<lambda>vf.
        if is_tuple v \<and> \<not> v_need_drop vf then Inr g else F f g))) ?xs g)"
  proof (rule ok_rfold [where P = ?P])
    show "?P g" by (simp add: sd_killed_refl sd_settled_refl)
  next
    fix x h assume x: "x \<in> set ?xs" and h: "?P h"
    obtain k f where xf: "x = (k, f)" by (cases x)
    with x sd_wf_node [OF wf d] have f: "f < length (g_values g)"
      by (auto simp: sd_node_wf_def set_hm_iter [OF ord])
    have "ok ?P (F f h)"
      using rec [OF h [THEN conjunct1] f]
    proof (rule ok_mono)
      fix h' assume "sd_dropped birth False f h h'"
      then have h': "sd_killed h h'" "sd_settled birth h h'" by (simp_all add: sd_dropped_def)
      show "?P h'"
        using h sd_killed_trans [OF _ h'(1), of g] sd_settled_trans [OF _ _ h', of g] by simp
    qed
    with h xf f d sd_killed_same(1) [of g h]
    show "ok ?P ((\<lambda>(_, f) g. rbind (at (g_values g) drp) (\<lambda>v.
        rbind (at (g_values g) f) (\<lambda>vf. if is_tuple v \<and> \<not> v_need_drop vf then Inr g else F f g))) x h)"
      by simp
  qed
  with d show ?thesis by (simp add: sd_drop_fields_def)
qed

lemma sd_dropped_end:
  assumes wf: "sd_wf g" and d: "drp < length (g_values g)"
    and g1: "g1 = g\<lparr>g_dead_record := (g_dead_record g)[drp := True]\<rparr>"
    and k: "sd_killed g1 k" "sd_settled birth g1 k"
    and l: "sd_killed k l" "g_dead_record l = g_dead_record k"
    and dl: "v_birth (g_values k ! drp) < int birth \<and> v_may_drop (g_values k ! drp) \<longrightarrow> \<not> is_alive (g_values l ! drp)"
    and all: "g_alias_set g1 ! drp \<noteq> drp \<longrightarrow> (\<forall>i. sd_drops_alias g1 drp i \<longrightarrow> g_dead_record l ! i)"
  shows "sd_dropped birth alias drp g l"
proof -
  have k1: "sd_killed g g1" unfolding g1 by (rule sd_killed_record)
  note s = sd_killed_same [OF sd_killed_trans [OF k1 k(1)]] and t = sd_killed_same [OF l(1)]
  have r1: "g_dead_record g1 ! drp" "length (g_dead_record g) = length (g_values g)"
    using g1 d sd_wf_lens(2) [OF wf] by simp_all
  have "sd_settled birth g l"
    unfolding sd_settled_def
  proof (intro allI impI, elim conjE)
    fix i assume i: "i < length (g_values g)" "g_dead_record l ! i" "\<not> g_dead_record g ! i"
      "v_birth (g_values g ! i) < int birth" "v_may_drop (g_values g ! i)"
    show "\<not> is_alive (g_values l ! i)"
    proof (cases "i = drp")
      case True
      have "v_birth (g_values k ! drp) < int birth" using s(7) [OF d] i(4) True by auto
      with dl s(6) [OF d] i(5) True show ?thesis by simp
    next
      case False
      with i g1 have "\<not> g_dead_record g1 ! i" "g_values g1 = g_values g" by simp_all
      with k(2) i l(2) have "\<not> is_alive (g_values k ! i)" by (simp add: sd_settled_def)
      with t(7) [of i] s(1) i(1) show ?thesis by (auto simp: is_alive_def)
    qed
  qed
  moreover have "sd_killed g l" using sd_killed_trans [OF sd_killed_trans [OF k1 k(1)] l(1)] .
  moreover have "g_dead_record l ! drp"
    using sd_killed_same(8) [OF k(1) _ r1(1)] l(2) g1 d r1(2) by simp
  moreover have "\<forall>i. sd_drops_alias g drp i \<longrightarrow> g_dead_record l ! i" if "g_alias_set g ! drp \<noteq> drp"
    using all that sd_drops_alias_killed [OF k1] g1 by simp
  ultimately show ?thesis by (simp add: sd_dropped_def)
qed

text \<open>From the moment \<open>drp\<close> is recorded to the end of the call.\<close>

lemma sd_dead_body:
  assumes wf: "sd_wf g" and d: "drp < length (g_values g)" and ord: "enum_order (set_order tcx)"
    and nr: "\<not> g_dead_record g ! drp"
    and g1: "g1 = g\<lparr>g_dead_record := (g_dead_record g)[drp := True]\<rparr>"
    and rec: "\<And>a i h. sd_killed g1 h \<Longrightarrow> i < length (g_values g1) \<Longrightarrow> ok (sd_dropped birth a i h) (F a i h)"
  shows "ok (sd_dropped birth alias drp g)
    (rbind (sd_drop_aliases drp (F True) g1) (\<lambda>g.
     rbind (if \<not> alias then sd_drop_fields tcx drp (F False) g else Inr g) (\<lambda>g.
     rbind (at (g_values g) drp) (\<lambda>v.
     if v_birth v < int birth \<and> v_may_drop v then sd_upd_node drp dead g else Inr g))))"
proof -
  have k1: "sd_killed g g1" unfolding g1 by (rule sd_killed_record)
  note s1 = sd_killed_same [OF k1]
  have w1: "sd_wf g1" "drp < length (g_values g1)" using s1(1,9) wf d by simp_all
  have r1: "g_dead_record g1 ! drp" using g1 d sd_wf_lens(2) [OF wf] by simp
  show ?thesis
  proof (rule ok_rbindI [OF sd_alias_loop [OF w1 rec]], assumption, assumption, elim conjE)
    fix h assume h: "sd_killed g1 h" "sd_settled birth g1 h"
      and all: "g_alias_set g1 ! drp \<noteq> drp \<longrightarrow> (\<forall>i. sd_drops_alias g1 drp i \<longrightarrow> g_dead_record h ! i)"
    note sh = sd_killed_same [OF h(1)]
    have wh: "sd_wf h" "drp < length (g_values h)" using sh(1,9) w1 by simp_all
    have "ok (\<lambda>k. sd_killed h k \<and> sd_settled birth h k)
        (if \<not> alias then sd_drop_fields tcx drp (F False) h else Inr h)"
      using sd_field_loop [OF wh ord, of birth "F False"] rec sd_killed_trans [OF h(1)] sh(1)
      by (simp add: sd_killed_refl sd_settled_refl)
    then show "ok (sd_dropped birth alias drp g)
      (rbind (if \<not> alias then sd_drop_fields tcx drp (F False) h else Inr h) (\<lambda>g.
       rbind (at (g_values g) drp) (\<lambda>v.
       if v_birth v < int birth \<and> v_may_drop v then sd_upd_node drp dead g else Inr g)))"
    proof (rule ok_rbindI, elim conjE)
      fix k assume hk: "sd_killed h k" "sd_settled birth h k"
      have k: "sd_killed g1 k" "sd_settled birth g1 k"
        using sd_killed_trans [OF h(1) hk(1)] sd_settled_trans [OF h hk] by simp_all
      note sk = sd_killed_same [OF k(1)]
      have "ok (\<lambda>l. sd_killed k l \<and> g_dead_record l = g_dead_record k \<and>
            (v_birth (g_values k ! drp) < int birth \<and> v_may_drop (g_values k ! drp) \<longrightarrow> \<not> is_alive (g_values l ! drp)))
          (if v_birth (g_values k ! drp) < int birth \<and> v_may_drop (g_values k ! drp)
           then sd_upd_node drp dead k else Inr k)"
        using sd_killed_kill [of drp k] w1(2) sk(1)
        by (auto simp: sd_killed_refl is_alive_def elim!: ok_mono)
      then have "ok (sd_dropped birth alias drp g)
          (if v_birth (g_values k ! drp) < int birth \<and> v_may_drop (g_values k ! drp)
           then sd_upd_node drp dead k else Inr k)"
      proof (rule ok_mono, elim conjE)
        fix l assume l: "sd_killed k l" "g_dead_record l = g_dead_record k"
          and dl: "v_birth (g_values k ! drp) < int birth \<and> v_may_drop (g_values k ! drp) \<longrightarrow> \<not> is_alive (g_values l ! drp)"
        have "g_dead_record l ! i" if "g_dead_record h ! i" "sd_drops_alias g1 drp i" for i
          using that sd_killed_same(8) [OF hk(1), of i] sh(1) l(2) sd_wf_lens(2) [OF wh(1)]
          by (simp add: sd_drops_alias_def)
        with all show "sd_dropped birth alias drp g l"
          by (intro sd_dropped_end [OF wf d g1 k l dl]) simp
      qed
      then show "ok (sd_dropped birth alias drp g) (rbind (at (g_values k) drp) (\<lambda>v.
          if v_birth v < int birth \<and> v_may_drop v then sd_upd_node drp dead k else Inr k))"
        using w1(2) sk(1) by simp
    qed
  qed
qed

lemma sd_undead_record:
  assumes "sd_wf g" "drp < length (g_values g)" "\<not> g_dead_record g ! drp"
    "g1 = g\<lparr>g_dead_record := (g_dead_record g)[drp := True]\<rparr>" "sd_killed g1 h"
  shows "card (sd_undead h) < card (sd_undead g)"
proof -
  have k: "sd_killed g g1" using assms(4) sd_killed_record by simp
  have w: "sd_wf g1" using sd_killed_same(9) [OF k assms(1)] .
  have "sd_undead h \<subseteq> sd_undead g1" using sd_undead_killed [OF w assms(5)] .
  moreover have "drp \<notin> sd_undead g1" using assms(2,4) sd_wf_lens(2) [OF assms(1)] by (simp add: sd_undead_def)
  moreover have "drp \<in> sd_undead g" "sd_undead g1 \<subseteq> sd_undead g"
    using assms(2,3) sd_undead_killed [OF assms(1) k] by (auto simp: sd_undead_def)
  ultimately show ?thesis by (intro psubset_card_mono) auto
qed

lemma sd_dropped_idle:
  "g_dead_record g ! drp \<or> is_corner_case (g_values g ! drp) \<or> \<not> alias \<and> \<not> is_alive (g_values g ! drp) \<Longrightarrow>
   sd_dropped birth alias drp g g"
  by (auto simp: sd_dropped_def sd_killed_refl sd_settled_refl)

text \<open>A graph that differs in its double-free reports only is dropped in the same way.\<close>

lemma sd_dropped_reports:
  assumes "sd_killed g h" "g_values h = g_values g" "g_dead_record h = g_dead_record g" "sd_dropped birth alias drp h k"
  shows "sd_dropped birth alias drp g k"
proof -
  have "sd_killed g k" using assms(1,4) sd_killed_trans by (auto simp: sd_dropped_def)
  moreover have "sd_settled birth g k" using assms by (simp add: sd_dropped_def sd_settled_def)
  ultimately show ?thesis
    using assms sd_killed_same(2) [OF assms(1)] sd_drops_alias_killed [OF assms(1)]
    by (simp add: sd_dropped_def)
qed

lemma sd_dead_node_ok:
  assumes ord: "enum_order (set_order tcx)"
  shows "\<lbrakk>sd_wf g; drp < length (g_values g); card (sd_undead g) < n\<rbrakk> \<Longrightarrow>
    ok (sd_dropped birth al drp g) (sd_dead_node n tcx drp birth sp al g)"
proof (induction n arbitrary: drp al g)
  case (Suc n)
  note wf = Suc.prems(1) and d = Suc.prems(2)
  have "ok (\<lambda>(b, h). sd_killed g h \<and> g_values h = g_values g \<and> g_dead_record h = g_dead_record g \<and>
      b = (\<not> al \<and> \<not> is_alive (g_values g ! drp))) (if \<not> al then sd_df_check drp sp g else Inr (False, g))"
    using sd_df_check_ok [OF d, of sp] by (auto simp: sd_killed_refl elim!: ok_mono)
  then obtain h where chk: "(if \<not> al then sd_df_check drp sp g else Inr (False, g)) =
        Inr (\<not> al \<and> \<not> is_alive (g_values g ! drp), h)"
      and h: "sd_killed g h" "g_values h = g_values g" "g_dead_record h = g_dead_record g"
    by (auto simp: ok_def)
  show ?case
  proof (cases "g_dead_record g ! drp \<or> is_corner_case (g_values g ! drp) \<or> \<not> al \<and> \<not> is_alive (g_values g ! drp)")
    case True
    have "sd_dropped birth al drp g g" "sd_dropped birth al drp g h"
      using True sd_dropped_idle [of g drp al birth] sd_dropped_idle [of h drp al birth] h
        sd_dropped_reports [OF h] by auto
    with True d chk h(3) sd_wf_lens(2) [OF wf] show ?thesis by auto
  next
    case False
    let ?g1 = "h\<lparr>g_dead_record := (g_dead_record h)[drp := True]\<rparr>"
    have wh: "sd_wf h" "drp < length (g_values h)" "\<not> g_dead_record h ! drp"
      using sd_killed_same(9) [OF h(1) wf] h d False by simp_all
    have und: "sd_undead h = sd_undead g" using h by (simp add: sd_undead_def)
    have rec: "ok (sd_dropped birth a i k) (sd_dead_node n tcx i birth sp a k)"
      if k: "sd_killed ?g1 k" "i < length (g_values ?g1)" for a i k
    proof (rule Suc.IH)
      have "sd_killed h k" using sd_killed_trans [OF sd_killed_record k(1)] .
      then show "sd_wf k" "i < length (g_values k)" using sd_killed_same(1,9) [of h k] wh k(2) by simp_all
      show "card (sd_undead k) < n" using sd_undead_record [OF wh refl k(1)] und Suc.prems(3) by simp
    qed
    note body = sd_dead_body [OF wh(1,2) ord wh(3) refl, where F = "\<lambda>a i. sd_dead_node n tcx i birth sp a",
        OF rec, of al]
    have "ok (sd_dropped birth al drp h) (sd_dead_node (Suc n) tcx drp birth sp al g)"
      using body False d chk h sd_wf_lens(2) [OF wf] by (simp add: Let_def) blast
    then show ?thesis by (rule ok_mono) (rule sd_dropped_reports [OF h])
  qed
qed simp

subsection \<open>Properties\<close>

text \<open>C2: \<open>exist_dead\<close> from a fresh record is exactly reachability: it answers true if and only if a dead
  value (a dead pointer, for a dangling check) can be reached from the value over alias and field
  edges; it returns, whatever the order in which the field tables are visited.\<close>

theorem sd_exist_dead_correct:
  assumes "sd_wf g" "enum_order (set_order tcx)" "node < length (g_values g)"
  shows "sd_exists_dead_from tcx g dangling node =
    Inr (\<exists>j. (node, j) \<in> (sd_edges g)\<^sup>* \<and> \<not> is_alive (g_values g ! j) \<and> (dangling \<longrightarrow> is_ptr (g_values g ! j)))"
  using sd_exists_dead_iff [OF assms] by (simp add: sd_bad_def)

theorem sd_exist_dead_correct_witness:
  "sd_exists_dead_from demo_tcx (demo_graph [[(0, 1)], []]) False 0 = Inr False"
proof -
  let ?g = "demo_graph [[(0, 1)], []]"
  have alive: "is_alive (g_values ?g ! j)" if "j < 2" for j
    using that by (simp add: demo_graph_values is_alive_def sd_node_new_def)
  have "j < 2" if "(0, j) \<in> (sd_edges ?g)\<^sup>*" for j
    using that by (induction rule: rtrancl_induct) (auto simp: sd_edges_def demo_graph_values)
  with alive sd_exist_dead_correct [of ?g demo_tcx 0 False] show ?thesis
    by (force simp: demo_graph_wf demo_graph_values)
qed

text \<open>C3: dropping a value returns on every well-formed graph and keeps it well formed; it never revives
  a value; a value that was alive, is not a corner case and was not recorded before is recorded
  now, and is dead now if it may be dropped and is older than the drop. If it is not the
  representative of its alias class, the same holds for each of its aliases that is neither a
  reference nor a corner case.\<close>

theorem sd_dead_node_kills:
  assumes "sd_wf g" "enum_order (set_order tcx)" "drp < length (g_values g)"
    "\<not> is_corner_case (g_values g ! drp)" "is_alive (g_values g ! drp)" "\<not> g_dead_record g ! drp"
  shows "\<exists>h. sd_dead_node_top tcx drp birth sp False g = Inr h \<and> sd_wf h \<and>
    (\<forall>i<length (g_values g). \<not> is_alive (g_values g ! i) \<longrightarrow> \<not> is_alive (g_values h ! i)) \<and>
    (\<forall>i. (i = drp \<or> g_alias_set g ! drp \<noteq> drp \<and> sd_drops_alias g drp i) \<and> \<not> g_dead_record g ! i \<longrightarrow>
       g_dead_record h ! i \<and>
       (v_birth (g_values g ! i) < int birth \<and> v_may_drop (g_values g ! i) \<longrightarrow> \<not> is_alive (g_values h ! i)))"
proof -
  have "card (sd_undead g) \<le> card {..<length (g_values g)}"
    by (rule card_mono) (auto simp: sd_undead_def)
  then have c: "card (sd_undead g) < Suc (length (g_values g))" by simp
  from sd_dead_node_ok [OF assms(2,1,3) c, of birth False sp] obtain h where
    h: "sd_dead_node_top tcx drp birth sp False g = Inr h" and post: "sd_dropped birth False drp g h"
    by (auto simp: ok_def sd_dead_node_top_def)
  from post have k: "sd_killed g h" "sd_settled birth g h" by (auto simp: sd_dropped_def)
  note s = sd_killed_same [OF k(1)]
  have dead: "\<not> is_alive (g_values h ! i)" if "i < length (g_values g)" "\<not> is_alive (g_values g ! i)" for i
    using s(7) [OF that(1)] that(2) by (auto simp: is_alive_def)
  have rec: "g_dead_record h ! i" and "i < length (g_values g)"
    if "i = drp \<or> g_alias_set g ! drp \<noteq> drp \<and> sd_drops_alias g drp i" for i
    using post that assms(3-6) by (auto simp: sd_dropped_def sd_drops_alias_def)
  then have "g_dead_record h ! i \<and>
       (v_birth (g_values g ! i) < int birth \<and> v_may_drop (g_values g ! i) \<longrightarrow> \<not> is_alive (g_values h ! i))"
    if "(i = drp \<or> g_alias_set g ! drp \<noteq> drp \<and> sd_drops_alias g drp i) \<and> \<not> g_dead_record g ! i" for i
    using that k(2) by (simp add: sd_settled_def)
  with h s(9) assms(1) dead show ?thesis by blast
qed

theorem sd_dead_node_kills_witness:
  "\<exists>h. sd_dead_node_top demo_tcx 0 1 7 False (demo_graph [[(0, 1)], []]) = Inr h \<and> sd_wf h \<and>
     \<not> is_alive (g_values h ! 0)"
proof -
  let ?g = "demo_graph [[(0, 1)], []]"
  have v: "g_values ?g ! 0 = (sd_node_new 0 0 True True)\<lparr>v_fields := [(0, 1)]\<rparr>" "\<not> g_dead_record ?g ! 0"
    by (simp add: demo_graph_values) (simp add: demo_graph_def)
  have "sd_wf ?g" by (simp add: demo_graph_wf)
  from sd_dead_node_kills [OF this, of demo_tcx 0 1 7] v show ?thesis
    by (auto simp: demo_graph_values is_corner_case_def is_alive_def sd_node_new_def)
qed

text \<open>dropping a value that represents its alias class (\<open>alias_set[x] == x\<close>) and has no fields leaves every
  other value as it was, its aliases included: the loop over the aliases is skipped.\<close>

theorem sd_dead_node_spares_aliases_of_root:
  assumes "sd_wf g" "drp < length (g_values g)" "g_alias_set g ! drp = drp" "v_fields (g_values g ! drp) = []"
    "enum_order (set_order tcx)"
  shows "\<exists>h. sd_dead_node_top tcx drp birth sp False g = Inr h \<and>
    (\<forall>i<length (g_values g). i \<noteq> drp \<longrightarrow> g_values h ! i = g_values g ! i)"
proof -
  have nil: "set_order tcx [] = []" using assms(5) by (metis enum_orderD set_empty)
  show ?thesis
    using assms sd_wf_lens [OF assms(1)] nil
    by (auto simp: sd_dead_node_top_def sd_df_check_def Let_def sd_drop_aliases_def sd_drop_fields_def hm_iter_def
        sd_upd_node_def)
qed

theorem sd_dead_node_spares_aliases_of_root_witness:
  "\<exists>a h. union_merge [0, 1] 0 1 = Inr a \<and>
     sd_dead_node_top demo_tcx 0 1 7 False ((demo_graph [[], []])\<lparr>g_alias_set := a\<rparr>) = Inr h \<and>
     is_alive (g_values h ! 1)"
proof -
  let ?g = "(demo_graph [[], []])\<lparr>g_alias_set := [0, 0]\<rparr>"
  have m: "union_merge [0, 1] 0 1 = Inr [0, 0]" by code_simp
  have "uf_chain [0, 0] 0 0 0" "uf_chain [0, 0] 1 1 0"
    by (auto intro!: uf_chain.root uf_chain.step [of 1 "[0, 0]" 0 0, simplified])
  then have "uf_forest [0, 0]" unfolding uf_forest_def by (auto simp: less_Suc_eq numeral_2_eq_2)
  then have wf: "sd_wf ?g" using demo_graph_wf [of "[[], []]"] by (simp add: sd_wf_def) (simp add: demo_graph_def)
  then obtain h where "sd_dead_node_top demo_tcx 0 1 7 False ?g = Inr h"
      "\<forall>i<length (g_values ?g). i \<noteq> 0 \<longrightarrow> g_values h ! i = g_values ?g ! i"
    using sd_dead_node_spares_aliases_of_root [OF wf, of 0 demo_tcx 1 7]
    by (auto simp: demo_graph_values sd_node_new_def)
  with m show ?thesis by (auto simp: demo_graph_values is_alive_def sd_node_new_def)
qed

end
