(* ===== verification/Block_Scc.thy ===== *)
theory Block_Scc
  imports Value_Node
begin

section \<open>Strongly connected components of a body, and switches\<close>

text \<open>
  Code that \<^verbatim>\<open>core/alias/mop\<close> and \<^verbatim>\<open>safedrop\<close> have in common, word for word: \<open>tarjan\<close> and \<open>solve_scc\<close>
  of the two \<^verbatim>\<open>graph.rs\<close>, which shrink each component of the control-flow graph into its first
  block, and the parts of the two \<open>check\<close> functions that unfold a shrunk component for one target
  of its switch and pick the target of a switch on a known value. The two copies differ in the
  graph they work on and in \<open>switch_target\<close>, which is a parameter here. The top of the vector
  \<open>stack\<close> is the head of the list.
\<close>

subsection \<open>Tarjan's algorithm\<close>

record ('b, 'v) scc_state =
  sc_blocks :: "'b list"
  sc_indices :: "nat list"
  sc_child :: "nat \<rightharpoonup> 'b \<times> switch_targets \<times> nat list"
  sc_vals :: 'v
  sc_stack :: "nat list"
  sc_instack :: "nat set"
  sc_dfn :: "nat list"
  sc_low :: "nat list"
  sc_time :: nat

definition sc_upd_block :: "nat \<Rightarrow> ('b \<Rightarrow> 'b) \<Rightarrow> ('b, 'v) scc_state \<Rightarrow> ('b, 'v) scc_state res" where
  "sc_upd_block i f s =
     rbind (at (sc_blocks s) i) (\<lambda>b. Inr (s\<lparr>sc_blocks := (sc_blocks s)[i := f b]\<rparr>))"

text \<open>The loop that pops the component of \<open>index\<close> from the stack; besides the state it carries
  \<open>modified_set\<close>, \<open>switch_target\<close> and \<open>scc_block_set\<close>.\<close>

fun tarjan_pop :: "('a block_node_scheme \<Rightarrow> 'v \<Rightarrow> (nat option \<times> 'v) res) \<Rightarrow> nat \<Rightarrow> nat list \<Rightarrow>
    nat set \<Rightarrow> (nat \<times> terminator) list \<Rightarrow> nat list \<Rightarrow> ('a block_node_scheme, 'v) scc_state \<Rightarrow>
    (nat set \<times> (nat \<times> terminator) list \<times> nat list \<times> ('a block_node_scheme, 'v) scc_state) res" where
  "tarjan_pop sw index [] modified targets scc_set s = Inl Unwrap_none"
| "tarjan_pop sw index (node # stack) modified targets scc_set s =
     rbind (set_at (sc_indices s) node index) (\<lambda>ix.
     let s = s\<lparr>sc_stack := stack, sc_indices := ix, sc_instack := sc_instack s - {node}\<rparr> in
     if index = node then Inr (modified, targets, scc_set, s)
     else rbind (sc_upd_block index (\<lambda>b. b\<lparr>b_scc_sub_blocks := b_scc_sub_blocks b @ [node]\<rparr>) s) (\<lambda>s.
       rbind (at (sc_blocks s) index) (\<lambda>bi.
       let modified = modified \<union> set (b_modified_value bi) in
       rbind (at (sc_blocks s) node) (\<lambda>bn.
       rbind (sw bn (sc_vals s)) (\<lambda>(tgt, v).
       let s = s\<lparr>sc_vals := v\<rparr>;
           targets = (case tgt of
               Some t \<Rightarrow> if b_switch_stmts bi \<noteq> [] then targets @ [(t, hd (b_switch_stmts bi))] else targets
             | None \<Rightarrow> targets)
       in rbind (sc_upd_block index (\<lambda>b. b\<lparr>b_next := hs_extend (b_next b) (b_next bn)\<rparr>) s) (\<lambda>s.
          tarjan_pop sw index stack modified targets (hs_insert node scc_set) s))))))"

text \<open>The block that generates the component of \<open>index\<close>.\<close>

definition tarjan_scc :: "('a block_node_scheme \<Rightarrow> 'v \<Rightarrow> (nat option \<times> 'v) res) \<Rightarrow> nat \<Rightarrow>
    ('a block_node_scheme, 'v) scc_state \<Rightarrow> ('a block_node_scheme, 'v) scc_state res" where
  "tarjan_scc sw index s =
     rbind (at (sc_blocks s) index) (\<lambda>init_block.
     rbind (tarjan_pop sw index (sc_stack s) {} [] [] s) (\<lambda>(modified, targets, scc_set, s).
     let targets = filter (\<lambda>(t, _). t \<notin> modified) targets in
     rbind (case targets of
              [(_, term)] \<Rightarrow> (case t_kind term of
                  SwitchInt _ tg \<Rightarrow> Inr (s\<lparr>sc_child := (sc_child s)(index \<mapsto> (init_block, tg, scc_set))\<rparr>)
                | _ \<Rightarrow> Inl Unreachable_code)
            | _ \<Rightarrow> Inr s) (\<lambda>s.
     rbind (at (sc_blocks s) index) (\<lambda>b.
     rbind (rfold (\<lambda>i keep. rbind (at (sc_indices s) i) (\<lambda>r. Inr (if r = index then keep else keep @ [i])))
              (b_next b) []) (\<lambda>keep.
     sc_upd_block index (\<lambda>b. b\<lparr>b_next := keep, b_scc_sub_blocks := rev (b_scc_sub_blocks b)\<rparr>) s)))))"

fun tarjan :: "nat \<Rightarrow> (nat list \<Rightarrow> nat list) \<Rightarrow> ('a block_node_scheme \<Rightarrow> 'v \<Rightarrow> (nat option \<times> 'v) res) \<Rightarrow>
    nat \<Rightarrow> ('a block_node_scheme, 'v) scc_state \<Rightarrow> ('a block_node_scheme, 'v) scc_state res" where
  "tarjan 0 order sw index s = Inl Diverges"
| "tarjan (Suc n) order sw index s =
     rbind (set_at (sc_dfn s) index (sc_time s)) (\<lambda>dfn.
     rbind (set_at (sc_low s) index (sc_time s)) (\<lambda>low.
     let s = s\<lparr>sc_dfn := dfn, sc_low := low, sc_time := sc_time s + 1,
               sc_instack := insert index (sc_instack s), sc_stack := index # sc_stack s\<rparr> in
     rbind (at (sc_blocks s) index) (\<lambda>b.
     rbind (rfold (\<lambda>target s.
        rbind (at (sc_dfn s) target) (\<lambda>d.
        if d = 0
        then rbind (tarjan n order sw target s) (\<lambda>s.
             rbind (at (sc_low s) index) (\<lambda>li.
             rbind (at (sc_low s) target) (\<lambda>lt.
             Inr (s\<lparr>sc_low := (sc_low s)[index := min li lt]\<rparr>))))
        else if target \<in> sc_instack s
        then rbind (at (sc_low s) index) (\<lambda>li.
             Inr (s\<lparr>sc_low := (sc_low s)[index := min li d]\<rparr>))
        else Inr s)) (order (b_next b)) s) (\<lambda>s.
     rbind (at (sc_dfn s) index) (\<lambda>d.
     rbind (at (sc_low s) index) (\<lambda>l.
     if d = l then tarjan_scc sw index s else Inr s))))))"

text \<open>Every nested call but the first marks a block whose \<open>dfn\<close> was 0, so \<open>blocks.len() + 2\<close> calls
  can be nested at most.\<close>

definition solve_scc :: "(nat list \<Rightarrow> nat list) \<Rightarrow> ('a block_node_scheme \<Rightarrow> 'v \<Rightarrow> (nat option \<times> 'v) res) \<Rightarrow>
    'a block_node_scheme list \<Rightarrow> nat list \<Rightarrow> (nat \<rightharpoonup> 'a block_node_scheme \<times> switch_targets \<times> nat list) \<Rightarrow>
    'v \<Rightarrow> ('a block_node_scheme, 'v) scc_state res" where
  "solve_scc order sw blocks indices child v =
     tarjan (length blocks + 2) order sw 0
       \<lparr>sc_blocks = blocks, sc_indices = indices, sc_child = child, sc_vals = v, sc_stack = [],
        sc_instack = {}, sc_dfn = replicate (length blocks) 0, sc_low = replicate (length blocks) 0,
        sc_time = 0\<rparr>"

subsection \<open>Unfolding a component for one target of its switch\<close>

text \<open>\<open>real_node.next\<close>, or the one target the unfolding assumes if the node switches on it.\<close>

definition scc_nexts :: "(nat list \<Rightarrow> nat list) \<Rightarrow> switch_targets \<Rightarrow> nat \<Rightarrow> 'a block_node_scheme \<Rightarrow> nat list res" where
  "scc_nexts order cur_targets enum_index b =
     (case b_switch_stmts b of
        [] \<Rightarrow> Inr (order (b_next b))
      | t # _ \<Rightarrow> (case t_kind t of
            SwitchInt _ targets \<Rightarrow> Inr (if cur_targets = targets then [enum_index] else order (b_next b))
          | _ \<Rightarrow> Inl Unreachable_code))"

fun scc_work :: "nat \<Rightarrow> (nat list \<Rightarrow> nat list) \<Rightarrow> 'a block_node_scheme list \<Rightarrow> nat \<Rightarrow> 'a block_node_scheme \<Rightarrow>
    switch_targets \<Rightarrow> nat list \<Rightarrow> nat \<Rightarrow> nat list \<Rightarrow> nat set \<Rightarrow> 'a block_node_scheme \<Rightarrow> 'a block_node_scheme res" where
  "scc_work 0 order blocks init_index init_block cur_targets scc_set enum_index wl ws bn = Inl Diverges"
| "scc_work (Suc n) order blocks init_index init_block cur_targets scc_set enum_index wl ws bn =
     (case wl of
        [] \<Rightarrow> Inr bn
      | cur # wl \<Rightarrow>
          rbind (if cur \<noteq> init_index then at blocks cur else Inr init_block) (\<lambda>real.
          rbind (scc_nexts order cur_targets enum_index real) (\<lambda>nexts.
          let bn = bn\<lparr>b_scc_sub_blocks := b_scc_sub_blocks bn @ [cur], b_next := hs_extend (b_next bn) nexts\<rparr>;
              (wl, ws) = fold (\<lambda>i (wl, ws). if i \<in> set scc_set \<and> i \<notin> ws then (i # wl, insert i ws) else (wl, ws))
                           nexts (wl, ws)
          in scc_work n order blocks init_index init_block cur_targets scc_set enum_index wl ws bn)))"

definition scc_unfold :: "(nat list \<Rightarrow> nat list) \<Rightarrow> 'a block_node_scheme list \<Rightarrow> nat list \<Rightarrow> nat \<Rightarrow> nat \<Rightarrow>
    'a block_node_scheme \<times> switch_targets \<times> nat list \<Rightarrow> nat \<Rightarrow> 'a block_node_scheme res" where
  "scc_unfold order blocks indices bb_index init_index = (\<lambda>(init_block, cur_targets, scc_set) enum_index.
     rbind (if bb_index = init_index then Inr init_block else at blocks bb_index) (\<lambda>bn.
     rbind (case b_switch_stmts bn of
              [] \<Rightarrow> Inr bn
            | t # _ \<Rightarrow> (case t_kind t of
                  SwitchInt _ targets \<Rightarrow>
                    Inr (if cur_targets = targets then bn\<lparr>b_next := [enum_index]\<rparr> else bn)
                | _ \<Rightarrow> Inl Unreachable_code)) (\<lambda>bn.
     rbind (scc_work (length scc_set + 2) order blocks init_index init_block cur_targets scc_set enum_index
              [bb_index] {bb_index} bn) (\<lambda>bn.
     rbind (rfold (\<lambda>i keep. rbind (at indices i) (\<lambda>r. Inr (if r = init_index then keep else keep @ [i])))
              (b_next bn) []) (\<lambda>keep.
     Inr (bn\<lparr>b_next := keep\<rparr>))))))"

subsection \<open>The target of a switch on a known value\<close>

fun sw_iter :: "nat \<Rightarrow> (nat \<times> nat) list \<Rightarrow> nat" where
  "sw_iter v [] = 0"
| "sw_iter v ((val, tgt) # ts) = (if as_usize val = v then tgt else sw_iter v ts)"

definition sw_pick :: "switch_targets \<Rightarrow> nat \<Rightarrow> nat" where
  "sw_pick targets v =
     (let t = sw_iter v (sw_values targets) in if t = 0 then sw_otherwise targets else t)"

end
