(* ===== verification/Sd_Check.thy ===== *)
theory Sd_Check
  imports Sd_Bugs Block_Scc
begin

section \<open>SafeDrop: blocks, paths and the analysis of a function\<close>

text \<open>
  The path-sensitive traversal: \<open>alias_bb\<close> and \<open>alias_bbcall\<close> of \<^verbatim>\<open>safedrop/alias.rs\<close> interpret the
  assignments and the calls of a block, \<open>drop_check\<close> of \<^verbatim>\<open>safedrop/safedrop.rs\<close> its drops, \<open>check\<close>
  walks the shrunk control-flow graph, splitting the state at branches, and \<open>query_safedrop\<close> of
  \<^verbatim>\<open>analysis/safedrop.rs\<close> runs it on one function. \<open>solve_scc\<close>, \<open>switch_target\<close> and \<open>get_paths\<close> are those
  of \<^verbatim>\<open>safedrop/graph.rs\<close>.
\<close>

subsection \<open>Components\<close>

definition sd_switch_target :: "tcx \<Rightarrow> sd_block \<Rightarrow> sd_graph \<Rightarrow> (nat option \<times> sd_graph) res" where
  "sd_switch_target tcx b g =
     (case b_switch_stmts b of
        [] \<Rightarrow> Inr (None, g)
      | t # _ \<Rightarrow> (case t_kind t of
            SwitchInt discr _ \<Rightarrow> (case discr of
                Copy p \<Rightarrow> rbind (sd_projection tcx False p g) (\<lambda>(i, g). Inr (Some i, g))
              | Move p \<Rightarrow> rbind (sd_projection tcx False p g) (\<lambda>(i, g). Inr (Some i, g))
              | Constant _ \<Rightarrow> Inr (None, g))
          | _ \<Rightarrow> Inr (None, g)))"

definition sd_solve_scc :: "tcx \<Rightarrow> sd_graph \<Rightarrow> sd_graph res" where
  "sd_solve_scc tcx g =
     rbind (solve_scc (set_order tcx) (sd_switch_target tcx) (g_blocks g) (g_scc_indices g) (g_child_scc g) g)
       (\<lambda>s. Inr ((sc_vals s)\<lparr>g_blocks := sc_blocks s, g_scc_indices := sc_indices s, g_child_scc := sc_child s\<rparr>))"

text \<open>\<open>dfs_on_spanning_tree\<close>; the top of the vector \<open>stack\<close> is the head of the list.\<close>

fun sd_dfs_paths :: "nat \<Rightarrow> (nat list \<Rightarrow> nat list) \<Rightarrow> sd_graph \<Rightarrow> nat \<Rightarrow> nat list \<times> nat list list \<Rightarrow>
    (nat list \<times> nat list list) res" where
  "sd_dfs_paths 0 order g index st = Inl Diverges"
| "sd_dfs_paths (Suc n) order g index st =
     rbind (at (g_scc_indices g) index) (\<lambda>i.
     rbind (at (g_blocks g) i) (\<lambda>b.
     rbind (if b_next b = [] then Inr (fst st, snd st @ [rev (fst st)])
            else rfold (\<lambda>child st. sd_dfs_paths n order g child (child # fst st, snd st)) (order (b_next b)) st)
       (\<lambda>(stack, paths). Inr (tl stack, paths))))"

text \<open>On the shrunk graph, which has no cycles, a path has at most one block per component.\<close>

definition sd_get_paths :: "(nat list \<Rightarrow> nat list) \<Rightarrow> sd_graph \<Rightarrow> nat list list res" where
  "sd_get_paths order g =
     rbind (sd_dfs_paths (length (g_blocks g) + 1) order g 0 ([0], [])) (\<lambda>(_, paths). Inr paths)"

subsection \<open>Assignments\<close>

definition sd_alias_assign :: "tcx \<Rightarrow> nat \<Rightarrow> assignment \<Rightarrow> sd_graph \<Rightarrow> sd_graph res" where
  "sd_alias_assign tcx bb_index a g =
     rbind (sd_projection tcx False (as_lv a) g) (\<lambda>(lv, g).
     rbind (sd_projection tcx True (as_rv a) g) (\<lambda>(rv, g).
     if as_atype a = At_Variant
     then rbind (set_at (g_alias_set g) lv rv) (\<lambda>al. Inr (g\<lparr>g_alias_set := al\<rparr>))
     else
     rbind (if as_atype a = At_InitBox
            then rbind (at (g_values g) lv) (\<lambda>v. unwrap (field_get 0 v))
            else Inr lv) (\<lambda>lv.
     rbind (sd_uaf_check tcx rv (as_span a) (p_local (as_rv a)) False g) (\<lambda>g.
     rbind (at (g_scc_indices g) bb_index) (\<lambda>b.
     rbind (sd_fill_birth_top tcx lv (int b) g) (\<lambda>g.
     rbind (at (g_values g) lv) (\<lambda>l.
     rbind (at (g_values g) rv) (\<lambda>r.
     if v_local l \<noteq> v_local r then sd_merge_alias_top tcx lv rv g else Inr g))))))))"

definition sd_alias_bb :: "tcx \<Rightarrow> nat \<Rightarrow> sd_graph \<Rightarrow> sd_graph res" where
  "sd_alias_bb tcx bb_index g =
     rbind (at (g_blocks g) bb_index) (\<lambda>b.
     let g = g\<lparr>g_constant := fold (\<lambda>(k, v) m. m(k \<mapsto> v)) (b_const_value b) (g_constant g)\<rparr>
     in rfold (sd_alias_assign tcx bb_index) (b_assignments b) g)"

subsection \<open>Calls\<close>

text \<open>One argument: its value, and whether it may be dropped, are added to \<open>merge_vec\<close> and the counter.\<close>

definition sd_call_arg :: "tcx \<Rightarrow> span \<Rightarrow> operand \<Rightarrow> nat list \<times> nat \<times> sd_graph \<Rightarrow> (nat list \<times> nat \<times> sd_graph) res" where
  "sd_call_arg tcx sp arg = (\<lambda>(merge_vec, flag, g).
     let place = (\<lambda>p.
           rbind (sd_projection tcx True p g) (\<lambda>(rv, g).
           rbind (sd_uaf_check tcx rv sp (p_local p) True g) (\<lambda>g.
           rbind (at (g_values g) rv) (\<lambda>v.
           Inr (merge_vec @ [rv], if v_may_drop v then flag + 1 else flag, g)))))
     in case arg of Copy p \<Rightarrow> place p | Move p \<Rightarrow> place p | Constant _ \<Rightarrow> Inr (merge_vec @ [0], flag, g))"

text \<open>\<open>right_set\<close>: the values an unknown callee may return.\<close>

definition sd_right_set :: "nat \<Rightarrow> nat list \<Rightarrow> sd_graph \<Rightarrow> nat list res" where
  "sd_right_set lv merge_vec g =
     rfold (\<lambda>rv right.
       rbind (at (g_values g) rv) (\<lambda>r.
       rbind (at (g_values g) lv) (\<lambda>l.
       Inr (if v_may_drop r \<and> lv \<noteq> rv \<and> is_ptr l then right @ [rv] else right)))) merge_vec []"

definition sd_alias_callee :: "tcx \<Rightarrow> fn_map \<Rightarrow> def_id \<Rightarrow> nat \<Rightarrow> nat list \<Rightarrow> sd_graph \<Rightarrow> sd_graph res" where
  "sd_alias_callee tcx fm target lv merge_vec g =
     (if mir_available tcx target
      then (case fm target of
              None \<Rightarrow> Inr g
            | Some f \<Rightarrow> rfold (\<lambda>a g. if valuable a then sd_merge tcx a merge_vec g else Inr g)
                          (alias_order tcx (fra_alias_set f)) g)
      else rbind (at (g_values g) lv) (\<lambda>l.
           if v_may_drop l \<and> \<not> corner_handle tcx target
           then rbind (sd_right_set lv merge_vec g) (\<lambda>right.
                case right of [rv] \<Rightarrow> sd_merge_alias_top tcx lv rv g | _ \<Rightarrow> Inr g)
           else Inr g))"

definition sd_alias_call :: "tcx \<Rightarrow> fn_map \<Rightarrow> nat \<Rightarrow> terminator \<Rightarrow> sd_graph \<Rightarrow> sd_graph res" where
  "sd_alias_call tcx fm bb_index call g =
     (case t_kind call of
        Call (Constant c) args dest _ _ \<Rightarrow>
          rbind (sd_projection tcx False dest g) (\<lambda>(lv, g).
          rbind (at (g_scc_indices g) bb_index) (\<lambda>b.
          rbind (sd_upd_node lv (\<lambda>v. v\<lparr>v_birth := int b\<rparr>) g) (\<lambda>g.
          rbind (at (g_values g) lv) (\<lambda>l.
          rbind (rfold (sd_call_arg tcx (t_span call)) args ([lv], if v_may_drop l then 1 else 0, g))
            (\<lambda>(merge_vec, flag, g).
          case c_ty c of
            Ty_FnDef target _ \<Rightarrow> if flag > 1 then sd_alias_callee tcx fm target lv merge_vec g else Inr g
          | _ \<Rightarrow> Inr g)))))
      | _ \<Rightarrow> Inr g)"

definition sd_alias_bbcall :: "tcx \<Rightarrow> fn_map \<Rightarrow> nat \<Rightarrow> sd_graph \<Rightarrow> sd_graph res" where
  "sd_alias_bbcall tcx fm bb_index g =
     rbind (at (g_blocks g) bb_index) (\<lambda>b. rfold (sd_alias_call tcx fm bb_index) (b_calls b) g)"

subsection \<open>Drops\<close>

definition sd_drop_heap_item_check :: "tcx \<Rightarrow> place \<Rightarrow> sd_graph \<Rightarrow> bool res" where
  "sd_drop_heap_item_check tcx p g =
     (case place_ty tcx (g_def_id g) p of
        (Ty_Adt d _, variant) \<Rightarrow> (case g_adt_owner g d of
            None \<Rightarrow> Inr True
          | Some units \<Rightarrow>
              rbind (at units (case variant of Some v \<Rightarrow> v | None \<Rightarrow> 0)) (\<lambda>u.
              Inr (rto_is_owned (fst u) \<or> True \<in> set (snd u))))
      | _ \<Rightarrow> Inr True)"

definition sd_drop_place :: "tcx \<Rightarrow> nat \<Rightarrow> place \<Rightarrow> span \<Rightarrow> sd_graph \<Rightarrow> sd_graph res" where
  "sd_drop_place tcx bb_index p sp g =
     rbind (at (g_scc_indices g) bb_index) (\<lambda>birth.
     rbind (sd_projection tcx False p g) (\<lambda>(i, g).
     sd_dead_node_top tcx i birth sp False g))"

text \<open>The loop over the drops of a block; a constant argument ends the whole call.\<close>

fun sd_drops :: "tcx \<Rightarrow> nat \<Rightarrow> terminator list \<Rightarrow> sd_graph \<Rightarrow> sd_graph res" where
  "sd_drops tcx bb_index [] g = Inr g"
| "sd_drops tcx bb_index (d # ds) g =
     (case t_kind d of
        Drop p _ _ \<Rightarrow>
          rbind (sd_drop_heap_item_check tcx p g) (\<lambda>owned.
          rbind (if owned then sd_drop_place tcx bb_index p (t_span d) g else Inr g) (\<lambda>g.
          sd_drops tcx bb_index ds g))
      | Call _ args _ _ _ \<Rightarrow>
          (case args of
             [] \<Rightarrow> sd_drops tcx bb_index ds g
           | Copy p # _ \<Rightarrow> rbind (sd_drop_place tcx bb_index p (t_span d) g) (sd_drops tcx bb_index ds)
           | Move p # _ \<Rightarrow> rbind (sd_drop_place tcx bb_index p (t_span d) g) (sd_drops tcx bb_index ds)
           | Constant _ # _ \<Rightarrow> rbind (at (g_scc_indices g) bb_index) (\<lambda>_. Inr g))
      | _ \<Rightarrow> sd_drops tcx bb_index ds g)"

definition sd_drop_check :: "tcx \<Rightarrow> nat \<Rightarrow> sd_graph \<Rightarrow> sd_graph res" where
  "sd_drop_check tcx bb_index g =
     rbind (at (g_blocks g) bb_index) (\<lambda>b. sd_drops tcx bb_index (b_drops b) g)"

subsection \<open>Paths\<close>

definition sd_VISIT_LIMIT :: nat where
  "sd_VISIT_LIMIT = 1000"

text \<open>The three analyses \<open>check\<close> runs on a block, always together and in this order.\<close>

definition sd_visit :: "tcx \<Rightarrow> fn_map \<Rightarrow> nat \<Rightarrow> sd_graph \<Rightarrow> sd_graph res" where
  "sd_visit tcx fm i g =
     rbind (sd_alias_bb tcx i g) (\<lambda>g.
     rbind (sd_alias_bbcall tcx fm i g) (\<lambda>g.
     sd_drop_check tcx i g))"

text \<open>\<open>split_check\<close> and \<open>split_check_with_cond\<close>; \<open>F\<close> is the nested call of \<open>check\<close>.\<close>

definition sd_restore :: "sd_graph \<Rightarrow> sd_graph \<Rightarrow> sd_graph" where
  "sd_restore g h = h\<lparr>g_values := g_values g, g_constant := g_constant g,
     g_alias_set := g_alias_set g, g_dead_record := g_dead_record g\<rparr>"

definition sd_split_check :: "(nat \<Rightarrow> sd_graph \<Rightarrow> sd_graph res) \<Rightarrow> nat \<Rightarrow> sd_graph \<Rightarrow> sd_graph res" where
  "sd_split_check F bb_index g = rbind (F bb_index g) (\<lambda>h. Inr (sd_restore g h))"

definition sd_split_check_with_cond :: "(nat \<Rightarrow> sd_graph \<Rightarrow> sd_graph res) \<Rightarrow> nat \<Rightarrow> nat \<Rightarrow> nat \<Rightarrow> sd_graph \<Rightarrow> sd_graph res" where
  "sd_split_check_with_cond F bb_index discr_id discr_val g =
     rbind (F bb_index (g\<lparr>g_constant := (g_constant g)(discr_id \<mapsto> discr_val)\<rparr>)) (\<lambda>h. Inr (sd_restore g h))"

text \<open>The SwitchInt part of \<open>check\<close>: the single target, or the value to split on with its targets.\<close>

definition sd_switch :: "tcx \<Rightarrow> sd_block \<Rightarrow> sd_graph \<Rightarrow> (nat option \<times> (nat \<times> switch_targets) option \<times> sd_graph) res" where
  "sd_switch tcx b g =
     (case b_switch_stmts b of
        [] \<Rightarrow> Inr (None, None, g)
      | t # _ \<Rightarrow>
          if b_scc_sub_blocks b \<noteq> [] then Inr (None, None, g)
          else (case t_kind t of
            SwitchInt discr targets \<Rightarrow>
              (let place = (\<lambda>p.
                 rbind (sd_projection tcx False p g) (\<lambda>(i, g).
                 rbind (at (g_values g) i) (\<lambda>v.
                 Inr (map_option (sw_pick targets) (g_constant g (v_index v)),
                      if v_index v \<noteq> i then Some (v_index v, targets) else None, g))))
               in case discr of
                    Copy p \<Rightarrow> place p
                  | Move p \<Rightarrow> place p
                  | Constant c \<Rightarrow>
                      Inr (Some (sw_pick targets (case c_target_usize c of Some v \<Rightarrow> as_usize v | None \<Rightarrow> 0)), None, g))
          | _ \<Rightarrow> Inr (None, None, g)))"

definition sd_leaf :: "tcx \<Rightarrow> sd_block \<Rightarrow> sd_graph \<Rightarrow> sd_graph res" where
  "sd_leaf tcx cur_block g =
     (if should_check tcx (g_def_id g) then sd_dp_check tcx (b_is_cleanup cur_block) g else Inr g)"

text \<open>
  The body of \<open>check\<close> below the visit limit, in three parts; \<open>F\<close> is the nested call of \<open>check\<close>. First, one
  round of the loop over the targets of a component's switch (the flag says that the loop
  returns from \<open>check\<close>); then the branching at a block with several successors.
\<close>

definition sd_enum_target :: "(nat \<Rightarrow> sd_graph \<Rightarrow> sd_graph res) \<Rightarrow> tcx \<Rightarrow> fn_map \<Rightarrow> nat \<Rightarrow> nat \<Rightarrow> sd_block \<Rightarrow>
    sd_block \<times> switch_targets \<times> nat list \<Rightarrow> nat \<Rightarrow> sd_graph \<Rightarrow> (bool \<times> sd_graph) res" where
  "sd_enum_target F tcx fm bb_index init_index cur_block child enum_index g =
     (let backup_values = g_values g; backup_constant = g_constant g in
      rbind (scc_unfold (set_order tcx) (g_blocks g) (g_scc_indices g) bb_index init_index child enum_index) (\<lambda>bn.
      rbind (rfold (sd_visit tcx fm) (b_scc_sub_blocks bn) g) (\<lambda>g.
      if b_next bn = [] then rbind (sd_leaf tcx cur_block g) (\<lambda>g. Inr (True, g))
      else rbind (rfold F (set_order tcx (b_next bn)) g) (\<lambda>g.
           Inr (False, g\<lparr>g_values := backup_values, g_constant := backup_constant\<rparr>)))))"

definition sd_guarded :: "(sd_graph \<Rightarrow> sd_graph res) \<Rightarrow> sd_graph \<Rightarrow> sd_graph res" where
  "sd_guarded f g = (if g_visit_times g > sd_VISIT_LIMIT then Inr g else f g)"

definition sd_branch :: "(nat \<Rightarrow> sd_graph \<Rightarrow> sd_graph res) \<Rightarrow> tcx \<Rightarrow> sd_block \<Rightarrow> sd_graph \<Rightarrow> sd_graph res" where
  "sd_branch F tcx cur_block g =
     rbind (sd_switch tcx cur_block g) (\<lambda>(single, split, g).
     case single of
       Some tgt \<Rightarrow> F tgt g
     | None \<Rightarrow>
         (case split of
            Some (discr_id, targets) \<Rightarrow>
              rbind (rfold (\<lambda>(val, tgt). sd_guarded
                       (sd_split_check_with_cond F tgt discr_id (as_usize val)))
                     (sw_values targets) g)
                (sd_split_check_with_cond F (sw_otherwise targets) discr_id usize_MAX)
          | None \<Rightarrow>
              rfold (\<lambda>i. sd_guarded (sd_split_check F i)) (set_order tcx (b_next cur_block)) g))"

definition sd_check_body :: "(nat \<Rightarrow> sd_graph \<Rightarrow> sd_graph res) \<Rightarrow> tcx \<Rightarrow> fn_map \<Rightarrow> nat \<Rightarrow> sd_graph \<Rightarrow> sd_graph res" where
  "sd_check_body F tcx fm bb_index g =
      rbind (at (g_scc_indices g) bb_index) (\<lambda>i.
      rbind (at (g_blocks g) i) (\<lambda>cur_block.
      rbind (sd_visit tcx fm i g) (\<lambda>g.
      case g_child_scc g i of
        Some child \<Rightarrow>
          rbind (rany (sd_enum_target F tcx fm bb_index i cur_block child) (all_targets (fst (snd child))) g)
            (\<lambda>(_, g). Inr g)
      | None \<Rightarrow>
          rbind (rfold (sd_visit tcx fm) (b_scc_sub_blocks cur_block) g) (\<lambda>g.
          case b_next cur_block of
            [] \<Rightarrow> sd_leaf tcx cur_block g
          | [next] \<Rightarrow> F next g
          | _ \<Rightarrow> sd_branch F tcx cur_block g))))"

fun sd_check :: "nat \<Rightarrow> tcx \<Rightarrow> fn_map \<Rightarrow> nat \<Rightarrow> sd_graph \<Rightarrow> sd_graph res" where
  "sd_check 0 tcx fm bb_index g = Inl Diverges"
| "sd_check (Suc n) tcx fm bb_index g =
     (let g = g\<lparr>g_visit_times := g_visit_times g + 1\<rparr> in
      if g_visit_times g > sd_VISIT_LIMIT then Inr g
      else sd_check_body (sd_check n tcx fm) tcx fm bb_index g)"

text \<open>Every nested call of \<open>check\<close> counts one visit, and a call beyond the limit returns at once.\<close>

definition sd_check_top :: "tcx \<Rightarrow> fn_map \<Rightarrow> nat \<Rightarrow> sd_graph \<Rightarrow> sd_graph res" where
  "sd_check_top tcx fm bb_index g = sd_check (sd_VISIT_LIMIT + 1) tcx fm bb_index g"

text \<open>\<open>report_bugs\<close>: whether the function's records are printed (its file is not under \<^verbatim>\<open>.cargo\<close> and a bug was found).\<close>

definition sd_reports :: "string option \<Rightarrow> bug_records \<Rightarrow> bool" where
  "sd_reports filename r \<longleftrightarrow>
     \<not> (case filename of Some f \<Rightarrow> str_contains f ''.cargo'' | None \<Rightarrow> False) \<and> \<not> is_bug_free r"

text \<open>\<open>query_safedrop\<close>: the records to report, if the function is analysed and within the visit limit.\<close>

definition query_safedrop :: "tcx \<Rightarrow> (def_id \<Rightarrow> bool) \<Rightarrow> (def_id \<Rightarrow> string option) \<Rightarrow> fn_map \<Rightarrow> def_id \<Rightarrow> adt_owner \<Rightarrow>
    bug_records option res" where
  "query_safedrop tcx const_context get_filename fm d owner =
     (if const_context d then Inr None
      else if \<not> mir_available tcx d then Inr None
      else rbind (sd_new (optimized_mir tcx d) tcx d owner) (\<lambda>g.
           rbind (sd_solve_scc tcx g) (\<lambda>g.
           rbind (sd_check_top tcx fm 0 g) (\<lambda>g.
           Inr (if g_visit_times g \<le> sd_VISIT_LIMIT \<and> sd_reports (get_filename d) (g_bugs g)
                then Some (g_bugs g) else None)))))"

end
