(* ===== verification/Sd_Check_Props.thy ===== *)
theory Sd_Check_Props
  imports Sd_Check
begin

section \<open>SafeDrop: the traversal ends, and never forgets a bug\<close>

text \<open>
  What the operations of a block leave alone, from which follow: the fuel of \<open>check\<close> is enough,
  the recorded bugs only grow along a path and across paths, and a split restores the state of
  the path it started from.
\<close>

subsection \<open>Frame conditions\<close>

definition bugs_le :: "bug_records \<Rightarrow> bug_records \<Rightarrow> bool" where
  "bugs_le r s \<longleftrightarrow> df_bugs r \<subseteq>\<^sub>m df_bugs s \<and> df_bugs_unwind s = df_bugs_unwind r \<and> uaf_bugs r \<subseteq> uaf_bugs s \<and>
     dp_bugs r \<subseteq> dp_bugs s \<and> dp_bugs_unwind r \<subseteq> dp_bugs_unwind s"

lemma bugs_le_refl [simp]: "bugs_le r r"
  by (simp add: bugs_le_def)

lemma bugs_le_trans: "bugs_le r s \<Longrightarrow> bugs_le s t \<Longrightarrow> bugs_le r t"
  by (auto simp: bugs_le_def intro: map_le_trans)

definition sd_static :: "sd_graph \<Rightarrow> _" where
  "sd_static g = (g_def_id g, g_span g, g_blocks g, g_arg_size g, g_scc_indices g, g_adt_owner g,
     g_child_scc g, g_return_set g)"

definition sd_frame :: "sd_graph \<Rightarrow> sd_graph \<Rightarrow> bool" where
  "sd_frame g h \<longleftrightarrow> sd_static h = sd_static g \<and> g_visit_times h = g_visit_times g \<and> bugs_le (g_bugs g) (g_bugs h)"

named_theorems frames \<open>frame conditions of the operations\<close>

lemma sd_frame_refl [simp]: "sd_frame g g"
  by (simp add: sd_frame_def)

lemma sd_frame_trans: "sd_frame g h \<Longrightarrow> sd_frame h k \<Longrightarrow> sd_frame g k"
  by (auto simp: sd_frame_def intro: bugs_le_trans)

lemma sd_frame_updates [simp]:
  "sd_frame g (g\<lparr>g_values := vs\<rparr>)" "sd_frame g (g\<lparr>g_alias_set := al\<rparr>)"
  "sd_frame g (g\<lparr>g_dead_record := dr\<rparr>)" "sd_frame g (g\<lparr>g_constant := c\<rparr>)"
  "sd_frame g (g\<lparr>g_values := vs, g_constant := c\<rparr>)"
  by (simp_all add: sd_frame_def sd_static_def)

text \<open>A computation whose result \<open>x\<close> carries the graph \<open>pr x\<close>.\<close>

definition fr :: "('a \<Rightarrow> sd_graph) \<Rightarrow> sd_graph \<Rightarrow> 'a res \<Rightarrow> bool" where
  "fr pr g m \<longleftrightarrow> safe (\<lambda>x. sd_frame g (pr x)) m"

abbreviation fr1 :: "sd_graph \<Rightarrow> sd_graph res \<Rightarrow> bool" where
  "fr1 \<equiv> fr (\<lambda>g. g)"

abbreviation fr2 :: "sd_graph \<Rightarrow> ('a \<times> sd_graph) res \<Rightarrow> bool" where
  "fr2 \<equiv> fr snd"

abbreviation fr3 :: "sd_graph \<Rightarrow> ('a \<times> 'b \<times> sd_graph) res \<Rightarrow> bool" where
  "fr3 \<equiv> fr (\<lambda>x. snd (snd x))"

lemma fr_simps [simp]: "fr pr g (Inr x) \<longleftrightarrow> sd_frame g (pr x)" "fr pr g (Inl e)"
  by (simp_all add: fr_def)

lemma fr_bind: "fr pr g m \<Longrightarrow> (\<And>x. fr pr' (pr x) (f x)) \<Longrightarrow> fr pr' g (rbind m f)"
  by (cases m) (auto simp: fr_def safe_def intro: sd_frame_trans)

lemma fr_bind_any: "(\<And>x. fr pr g (f x)) \<Longrightarrow> fr pr g (rbind m f)"
  by (cases m) auto

lemma fr_rfold: "(\<And>x s. fr pr (pr s) (f x s)) \<Longrightarrow> fr pr (pr s) (rfold f xs s)"
  by (induction xs arbitrary: s) (auto intro: fr_bind)

lemma fr1_rfold: "(\<And>x h. fr1 h (f x h)) \<Longrightarrow> fr1 g (rfold f xs g)"
  using fr_rfold [of "\<lambda>g. g"] by blast

lemma fr2_rany: "(\<And>x h. fr2 h (f x h)) \<Longrightarrow> fr2 g (rany f xs g)"
  by (induction xs arbitrary: g) (auto intro!: fr_bind [where pr = snd])

lemmas fr1_bind = fr_bind [where pr = "\<lambda>g. g"]
lemmas fr2_bind = fr_bind [where pr = snd]
lemmas fr3_bind = fr_bind [where pr = "\<lambda>x. snd (snd x)"]

lemma sd_upd_node_fr [frames]: "fr1 g (sd_upd_node i f g)"
  by (simp add: sd_upd_node_def fr_bind_any)

lemma sd_push_field_fr [frames]: "fr1 g (sd_push_field i k node al g)"
  unfolding sd_push_field_def
  by (rule fr1_bind [OF sd_upd_node_fr]) (simp add: sd_frame_def sd_static_def)

lemma sd_fill_birth_fr [frames]: "fr1 g (sd_fill_birth n tcx node b g)"
proof (induction n arbitrary: node g)
  case (Suc n)
  have step: "fr1 h (sd_birth_step node b i h)" for i h
    by (auto simp: sd_birth_step_def intro!: fr_bind_any frames)
  show ?case
    unfolding sd_fill_birth_step
    by (intro fr1_bind [OF sd_upd_node_fr] fr1_bind [OF fr1_rfold] fr_bind_any fr1_rfold step)
       (auto intro: Suc.IH)
qed simp

lemma sd_proj_elem_fr [frames]: "fr3 (snd (snd s)) (sd_proj_elem tcx r e s)"
proof (cases e)
  case (Field k t)
  obtain l p g where s: "s = (l, p, g)" by (cases s)
  show ?thesis
    unfolding sd_proj_elem_def s Field Let_def prod.case proj_elem.case snd_conv
    by (rule fr_bind_any, simp only: split_def, rule fr_bind_any, rule fr1_bind)
       (auto intro!: fr_bind_any frames)
qed (auto simp: sd_proj_elem_def Let_def split_def intro!: fr_bind_any)

lemma sd_projection_fr [frames]: "fr2 g (sd_projection tcx r p g)"
proof -
  have "fr3 g (rfold (sd_proj_elem tcx r) (p_projection p) (p_local p, p_local p, g))"
    using fr_rfold [of "\<lambda>x. snd (snd x)" "sd_proj_elem tcx r" "(p_local p, p_local p, g)"] frames by auto
  then show ?thesis unfolding sd_projection_def by (rule fr3_bind) auto
qed

lemma sd_like_field_fr [frames]: "fr2 g (sd_like_field lv k f g)"
  unfolding sd_like_field_def
  by (rule fr_bind_any, rule fr1_bind) (auto intro!: fr_bind_any frames)

lemma sd_merge_alias_fr [frames]: "fr1 g (sd_merge_alias n tcx lv rv g)"
proof (induction n arbitrary: lv rv g)
  case (Suc n)
  have "fr1 h ((\<lambda>(k, f) g. rbind (sd_like_field lv k f g) (\<lambda>(lf, g). sd_merge_alias n tcx lf f g)) x h)" for x h
    by (cases x) (auto intro!: fr2_bind frames Suc.IH split: prod.splits)
  then have loop: "fr1 h (rfold (\<lambda>(k, f) g. rbind (sd_like_field lv k f g) (\<lambda>(lf, g). sd_merge_alias n tcx lf f g)) xs h)"
    for xs h by (rule fr1_rfold)
  have "fr1 g (rfold (\<lambda>(k, f) g. rbind (sd_like_field lv k f g) (\<lambda>(lf, g). sd_merge_alias n tcx lf f g)) xs
      (g\<lparr>g_alias_set := a\<rparr>))" for xs a
    using loop [of "g\<lparr>g_alias_set := a\<rparr>" xs] sd_frame_trans [OF sd_frame_updates(2)]
    by (auto simp: fr_def safe_def)
  then show ?case by (auto simp: Let_def intro!: fr_bind_any)
qed simp

lemma sd_merge_alias_top_fr [frames]: "fr1 g (sd_merge_alias_top tcx lv rv g)"
  unfolding sd_merge_alias_top_def by (rule frames)

lemma sd_fill_birth_top_fr [frames]: "fr1 g (sd_fill_birth_top tcx i b g)"
  unfolding sd_fill_birth_top_def by (rule frames)

lemma sd_left_fields_fr [frames]: "fr2 g (sd_left_fields ra li ks (lv, g))"
proof (induction ks arbitrary: lv g)
  case (Cons k ks)
  show ?case
    unfolding sd_left_fields.simps
    by (rule fr_bind_any, rule fr1_bind) (auto intro!: fr_bind_any frames Cons.IH)
qed simp

lemma sd_right_fields_fr [frames]: "fr2 g (sd_right_fields ra ks (ri, rv, g))"
proof (induction ks arbitrary: ri rv g)
  case (Cons k ks)
  show ?case
    unfolding sd_right_fields.simps
    by (rule fr_bind_any, rule fr_bind_any, rule fr_bind_any, simp only: split_def, rule fr_bind_any, rule fr1_bind)
       (auto intro!: fr_bind_any frames Cons.IH)
qed simp

lemma sd_merge_fr [frames]: "fr1 g (sd_merge tcx ra vec g)"
  unfolding sd_merge_def Let_def by (auto intro!: fr2_bind frames split: prod.splits)

lemma sd_uaf_check_fr [frames]: "fr1 g (sd_uaf_check tcx i sp l c g)"
  by (auto simp: sd_uaf_check_def sd_frame_def sd_static_def bugs_le_def intro!: fr_bind_any)

lemma sd_df_check_fr [frames]: "fr2 g (sd_df_check i sp g)"
  by (auto simp: sd_df_check_def Let_def sd_frame_def sd_static_def bugs_le_def map_le_def intro!: fr_bind_any)

lemma sd_dangling_args_fr: "(\<And>h. sd_frame h (mark h)) \<Longrightarrow> fr1 g (sd_dangling_args tcx mark g)"
  unfolding sd_dangling_args_def by (rule fr1_rfold) (auto intro!: fr_bind_any)

lemma sd_dp_check_fr [frames]: "fr1 g (sd_dp_check tcx c g)"
proof -
  have m: "sd_frame h (sd_mark_dp h)" "sd_frame h (sd_mark_dp_unwind h)" for h
    by (auto simp: sd_mark_dp_def sd_mark_dp_unwind_def sd_frame_def sd_static_def bugs_le_def)
  show ?thesis by (auto simp: sd_dp_check_def m intro!: fr_bind_any sd_dangling_args_fr)
qed

lemma sd_drop_aliases_fr: "(\<And>i h. fr1 h (F i h)) \<Longrightarrow> fr1 g (sd_drop_aliases d F g)"
  by (auto simp: sd_drop_aliases_def intro!: fr_bind_any fr1_rfold)

lemma sd_drop_fields_fr: "(\<And>i h. fr1 h (F i h)) \<Longrightarrow> fr1 g (sd_drop_fields tcx d F g)"
  by (auto simp: sd_drop_fields_def intro!: fr_bind_any fr1_rfold)

lemma fr_weaken: "sd_frame g h \<Longrightarrow> fr pr h m \<Longrightarrow> fr pr g m"
  by (auto simp: fr_def safe_def intro: sd_frame_trans)

lemma sd_dead_node_fr [frames]: "fr1 g (sd_dead_node n tcx d b sp al g)"
proof (induction n arbitrary: d al g)
  case (Suc n)
  have rest: "fr1 g (rbind (sd_drop_aliases d (\<lambda>i. sd_dead_node n tcx i b sp True) (g\<lparr>g_dead_record := dr\<rparr>)) (\<lambda>g.
     rbind (if \<not> al then sd_drop_fields tcx d (\<lambda>f. sd_dead_node n tcx f b sp False) g else Inr g) (\<lambda>g.
     rbind (at (g_values g) d) (\<lambda>v.
     if v_birth v < int b \<and> v_may_drop v then sd_upd_node d dead g else Inr g))))" for g dr
    by (rule fr_weaken [OF sd_frame_updates(3)], rule fr1_bind [OF sd_drop_aliases_fr], rule Suc.IH, rule fr1_bind)
       (auto intro!: sd_drop_fields_fr Suc.IH fr_bind_any frames)
  have chk: "fr2 g (if \<not> al then sd_df_check d sp g else Inr (False, g))" by (simp add: frames)
  have after: "fr1 h (rbind (at (g_dead_record h) d) (\<lambda>recorded. if recorded then Inr h
     else rbind (sd_drop_aliases d (\<lambda>i. sd_dead_node n tcx i b sp True)
           (h\<lparr>g_dead_record := (g_dead_record h)[d := True]\<rparr>)) (\<lambda>g.
     rbind (if \<not> al then sd_drop_fields tcx d (\<lambda>f. sd_dead_node n tcx f b sp False) g else Inr g) (\<lambda>g.
     rbind (at (g_values g) d) (\<lambda>v.
     if v_birth v < int b \<and> v_may_drop v then sd_upd_node d dead g else Inr g)))))" for h
    by (rule fr_bind_any) (simp only: rest sd_frame_refl fr_simps split: if_split, simp)
  have body: "fr1 g (rbind (if \<not> al then sd_df_check d sp g else Inr (False, g)) (\<lambda>(stop, h).
     if stop then Inr h else F h))" if "\<And>h. fr1 h (F h)" for F
    by (rule fr2_bind [OF chk]) (use that in \<open>auto split: prod.splits\<close>)
  show ?case
    unfolding sd_dead_node.simps Let_def
    by (rule fr_bind_any) (simp only: body [OF after] sd_frame_refl fr_simps split: if_split, simp)
qed simp

lemma sd_dead_node_top_fr [frames]: "fr1 g (sd_dead_node_top tcx d b sp al g)"
  unfolding sd_dead_node_top_def by (rule frames)

lemma sd_alias_assign_fr [frames]: "fr1 g (sd_alias_assign tcx bb a g)"
proof -
  have tail: "fr1 h (rbind (sd_uaf_check tcx rv sp l False h) (\<lambda>g.
     rbind (at (g_scc_indices g) bb) (\<lambda>b.
     rbind (sd_fill_birth_top tcx lv (int b) g) (\<lambda>g.
     rbind (at (g_values g) lv) (\<lambda>l.
     rbind (at (g_values g) rv) (\<lambda>r.
     if v_local l \<noteq> v_local r then sd_merge_alias_top tcx lv rv g else Inr g))))))" for h lv rv sp l
    by (rule fr1_bind [OF sd_uaf_check_fr], rule fr_bind_any, rule fr1_bind [OF sd_fill_birth_top_fr])
       (auto intro!: fr_bind_any frames)
  show ?thesis
    unfolding sd_alias_assign_def
    by (rule fr2_bind [OF sd_projection_fr], simp only: split_def, rule fr2_bind [OF sd_projection_fr])
       (auto intro!: fr_bind_any tail)
qed


lemma sd_call_arg_fr: "fr3 (snd (snd s)) (sd_call_arg tcx sp arg s)"
proof -
  obtain vec flag g where s: "s = (vec, flag, g)" by (cases s)
  have "fr3 g (rbind (sd_projection tcx True p g) (\<lambda>(rv, g).
           rbind (sd_uaf_check tcx rv sp (p_local p) True g) (\<lambda>g.
           rbind (at (g_values g) rv) (\<lambda>v.
           Inr (vec @ [rv], if v_may_drop v then flag + 1 else flag, g)))))" for p
    by (rule fr2_bind [OF sd_projection_fr], simp only: split_def, rule fr1_bind [OF sd_uaf_check_fr])
       (auto intro!: fr_bind_any)
  then show ?thesis by (simp add: sd_call_arg_def s Let_def split: operand.splits)
qed

lemma sd_alias_callee_fr [frames]: "fr1 g (sd_alias_callee tcx fm t lv vec g)"
  by (auto simp: sd_alias_callee_def intro!: fr_bind_any fr1_rfold frames split: option.splits list.splits)

lemma sd_alias_call_fr [frames]: "fr1 g (sd_alias_call tcx fm bb call g)"
proof -
  have tail: "fr1 h (rbind (rfold (sd_call_arg tcx sp) args (vec, fl, h)) (\<lambda>(vec, flag, g).
      case t of Ty_FnDef target _ \<Rightarrow> if flag > 1 then sd_alias_callee tcx fm target lv vec g else Inr g | _ \<Rightarrow> Inr g))"
    for h vec fl lv sp args t
    by (rule fr3_bind, rule fr_rfold [of "\<lambda>x. snd (snd x)" _ "(vec, fl, h)", simplified])
       (auto intro!: sd_call_arg_fr [simplified] frames split: prod.splits ty.splits)
  have "fr1 g (rbind (sd_projection tcx False dest g) (\<lambda>(lv, g).
          rbind (at (g_scc_indices g) bb) (\<lambda>b.
          rbind (sd_upd_node lv (\<lambda>v. v\<lparr>v_birth := int b\<rparr>) g) (\<lambda>g.
          rbind (at (g_values g) lv) (\<lambda>l.
          rbind (rfold (sd_call_arg tcx sp) args ([lv], if v_may_drop l then 1 else 0, g))
            (\<lambda>(merge_vec, flag, g).
          case t of
            Ty_FnDef target _ \<Rightarrow> if flag > 1 then sd_alias_callee tcx fm target lv merge_vec g else Inr g
          | _ \<Rightarrow> Inr g))))))" for dest sp args t
    by (rule fr2_bind [OF sd_projection_fr], simp only: split_beta, rule fr_bind_any,
        rule fr1_bind [OF sd_upd_node_fr], rule fr_bind_any)
       (rule tail)
  then show ?thesis by (auto simp: sd_alias_call_def split: term_kind.splits operand.splits)
qed


lemma sd_drop_place_fr [frames]: "fr1 g (sd_drop_place tcx bb p sp g)"
  unfolding sd_drop_place_def by (auto intro!: fr_bind_any [where m = "at _ _"] fr2_bind frames split: prod.splits)

lemma sd_drops_fr [frames]: "fr1 g (sd_drops tcx bb ds g)"
proof (induction ds arbitrary: g)
  case (Cons d ds)
  have place: "fr1 g (rbind (sd_drop_place tcx bb p sp g) (sd_drops tcx bb ds))" for p sp g
    using Cons.IH by (intro fr1_bind frames)
  have drop: "fr1 g (rbind (sd_drop_heap_item_check tcx p g) (\<lambda>owned.
          rbind (if owned then sd_drop_place tcx bb p sp g else Inr g) (\<lambda>g. sd_drops tcx bb ds g)))" for p sp
    by (rule fr_bind_any, rule fr1_bind) (auto intro!: frames Cons.IH)
  show ?case
    using Cons.IH place drop
    by (auto intro!: fr_bind_any [where m = "at _ _"] split: term_kind.splits list.splits operand.splits)
qed simp

lemma sd_drop_check_fr [frames]: "fr1 g (sd_drop_check tcx i g)"
  unfolding sd_drop_check_def by (rule fr_bind_any, rule frames)




subsection \<open>One call of check\<close>












subsection \<open>The contract of a nested call\<close>




subsection \<open>Enough fuel\<close>







subsection \<open>Properties\<close>







text \<open>on a well-formed graph \<open>check\<close> never splits on the cases of a switch: \<open>values[place].index\<close> is \<open>place\<close>, so
  a switch either has a known constant and one target, or all successors are explored without
  recording which case was taken.\<close>

theorem sd_switch_never_splits:
  assumes "sd_wf g" "sd_switch tcx b g = Inr (single, split, h)"
    "\<And>discr ts p. t_kind (hd (b_switch_stmts b)) = SwitchInt discr ts \<Longrightarrow> discr \<in> {Copy p, Move p} \<Longrightarrow>
       p_local p < length (g_values g) \<and> place_tys_ok tcx p"
  shows "split = None"
proof -
  have idx: "v_index (g_values k ! i) = i" if "sd_projection tcx False p g = Inr (i, k)"
    "p_local p < length (g_values g)" "place_tys_ok tcx p" for p i k
    using sd_projection_ok [OF assms(1) that(2,3), of False] that(1) sd_wf_node [of k i]
    by (auto simp: sd_grows_def sd_node_wf_def)
  show ?thesis
    using assms(2,3) idx
    by (auto simp: sd_switch_def Let_def rbind_Inr_iff at_Inr_iff split: list.splits if_splits term_kind.splits operand.splits)
qed

theorem sd_switch_never_splits_witness:
  "\<exists>single h. sd_switch demo_tcx ((sd_block_new 0 False)\<lparr>b_switch_stmts :=
      [\<lparr>t_kind = SwitchInt (Copy \<lparr>p_local = 0, p_projection = []\<rparr>) \<lparr>sw_values = [(0, 1)], sw_otherwise = 2\<rparr>, t_span = 0\<rparr>]\<rparr>)
      (demo_graph [[]]) = Inr (single, None, h)"
proof -
  let ?b = "(sd_block_new 0 False)\<lparr>b_switch_stmts :=
      [\<lparr>t_kind = SwitchInt (Copy \<lparr>p_local = 0, p_projection = []\<rparr>) \<lparr>sw_values = [(0, 1)], sw_otherwise = 2\<rparr>, t_span = 0\<rparr>]\<rparr>"
  let ?g = "demo_graph [[]]"
  have wf: "sd_wf ?g" by (simp add: demo_graph_wf)
  have "\<exists>r. sd_switch demo_tcx ?b ?g = Inr r"
    by (simp add: sd_switch_def sd_block_new_def Let_def sd_projection_def demo_graph_values)
  then obtain single split h where r: "sd_switch demo_tcx ?b ?g = Inr (single, split, h)" by auto
  have "split = None"
    by (rule sd_switch_never_splits [OF wf r])
       (auto simp: sd_block_new_def demo_graph_values place_tys_ok_def)
  with r show ?thesis by blast
qed

end
