(* ===== verification/Mop_Graph.thy ===== *)
theory Mop_Graph
  imports Block_Scc
begin

section \<open>MoP alias analysis: the graph of a function\<close>

text \<open>
  \<^verbatim>\<open>core/alias/mop/graph.rs\<close>: \<open>MopGraph\<close> and \<open>MopGraph::new\<close>, and the value operations of
  \<^verbatim>\<open>core/alias/mop/alias.rs\<close>: \<open>projection\<close>, \<open>merge_alias\<close>, \<open>merge\<close>, \<open>get_field_seq\<close> and \<open>merge_results\<close>.
\<close>

subsection \<open>The graph\<close>

record mop_graph =
  m_def_id :: def_id
  m_span :: span
  m_values :: "vnode list"
  m_blocks :: "block_node list"
  m_arg_size :: nat
  m_scc_indices :: "nat list"
  m_constant :: "nat \<rightharpoonup> nat"
  m_ret_alias :: fn_ret_alias
  m_visit_times :: nat
  m_alias_set :: "nat list"
  m_child_scc :: "nat \<rightharpoonup> block_node \<times> switch_targets \<times> nat list"
  m_disc_map :: "nat \<rightharpoonup> nat"
  m_terms :: "term_kind list"

definition block_node_new :: "nat \<Rightarrow> block_node" where
  "block_node_new i =
     \<lparr>b_index = i, b_next = [], b_assignments = [], b_calls = [], b_scc_sub_blocks = [],
      b_const_value = [], b_switch_stmts = [], b_modified_value = []\<rparr>"

subsection \<open>Building the graph\<close>

record mop_build =
  mb_values :: "vnode list"
  mb_alias :: "nat list"
  mb_block :: block_node
  mb_disc_map :: "nat \<rightharpoonup> nat"

definition mop_drop_flags :: "tcx \<Rightarrow> ty \<Rightarrow> (bool \<times> bool) res" where
  "mop_drop_flags tcx t =
     rbind (is_not_drop tcx t) (\<lambda>nd. let need = needs_drop tcx t in Inr (need, need \<or> \<not> nd))"

fun mop_new_locals :: "tcx \<Rightarrow> ty list \<Rightarrow> vnode list \<times> nat list \<Rightarrow> (vnode list \<times> nat list) res" where
  "mop_new_locals tcx [] acc = Inr acc"
| "mop_new_locals tcx (t # ts) (vs, al) =
     rbind (mop_drop_flags tcx t) (\<lambda>(need, may).
     mop_new_locals tcx ts
       (vs @ [(vnode_new (length vs) (length vs) need may)\<lparr>v_kind := mop_kind tcx t\<rparr>], al @ [length vs]))"

definition mop_push_assign :: "place \<Rightarrow> place \<Rightarrow> assign_type \<Rightarrow> span \<Rightarrow> mop_build \<Rightarrow> mop_build" where
  "mop_push_assign lv rv aty sp s =
     s\<lparr>mb_block := (mb_block s)\<lparr>b_assignments := b_assignments (mb_block s) @
        [\<lparr>as_lv = lv, as_rv = rv, as_atype = aty, as_span = sp\<rparr>]\<rparr>\<rparr>"

definition mop_guarded_assign :: "place \<Rightarrow> place \<Rightarrow> assign_type \<Rightarrow> span \<Rightarrow> mop_build \<Rightarrow> mop_build res" where
  "mop_guarded_assign lv rv aty sp s =
     rbind (at (mb_values s) (p_local lv)) (\<lambda>l.
     if \<not> v_may_drop l then Inr s
     else rbind (at (mb_values s) (p_local rv)) (\<lambda>r.
     if v_may_drop r then Inr (mop_push_assign lv rv aty sp s) else Inr s))"

definition mop_push_const :: "nat \<Rightarrow> nat option \<Rightarrow> mop_build \<Rightarrow> mop_build" where
  "mop_push_const lv sc s =
     (case sc of None \<Rightarrow> s
      | Some v \<Rightarrow> s\<lparr>mb_block := (mb_block s)\<lparr>b_const_value := b_const_value (mb_block s) @ [(lv, as_usize v)]\<rparr>\<rparr>)"

definition mop_init_box :: "nat \<Rightarrow> mop_build \<Rightarrow> mop_build res" where
  "mop_init_box lv s =
     rbind (at (mb_values s) lv) (\<lambda>l.
     if field_get 0 l \<noteq> None then Inr s
     else let lvl0 = (vnode_new (length (mb_values s)) lv False True)\<lparr>v_field_id := 0\<rparr>
          in Inr (s\<lparr>mb_values := (mb_values s)[lv := field_insert 0 (v_index lvl0) l] @ [lvl0],
                    mb_alias := mb_alias s @ [length (mb_values s)]\<rparr>))"

definition mop_rvalue :: "place \<Rightarrow> rvalue \<Rightarrow> span \<Rightarrow> mop_build \<Rightarrow> mop_build res" where
  "mop_rvalue lv rv sp s =
     (case rv of
        Use (Copy p) \<Rightarrow> mop_guarded_assign lv p At_Copy sp s
      | Use (Move p) \<Rightarrow> mop_guarded_assign lv p At_Move sp s
      | Use (Constant c) \<Rightarrow>
          (case c_const c of
             Const_Ty sc \<Rightarrow> Inr (mop_push_const (p_local lv) sc s)
           | Const_Unevaluated \<Rightarrow> Inr s
           | Const_Val sc \<Rightarrow> Inr (mop_push_const (p_local lv) sc s))
      | Ref _ p \<Rightarrow> mop_guarded_assign lv p At_Copy sp s
      | RawPtr _ p \<Rightarrow> mop_guarded_assign lv p At_Copy sp s
      | ShallowInitBox x _ \<Rightarrow>
          rbind (mop_init_box (p_local lv) s) (\<lambda>s.
          case x of
            Copy p \<Rightarrow> mop_guarded_assign lv p At_InitBox sp s
          | Move p \<Rightarrow> mop_guarded_assign lv p At_InitBox sp s
          | Constant _ \<Rightarrow> Inr s)
      | Cast _ x _ \<Rightarrow>
          (case x of
             Copy p \<Rightarrow> mop_guarded_assign lv p At_Copy sp s
           | Move p \<Rightarrow> mop_guarded_assign lv p At_Move sp s
           | Constant _ \<Rightarrow> Inr s)
      | Aggregate _ xs \<Rightarrow>
          rfold (\<lambda>x s. case x of
             Copy p \<Rightarrow> mop_guarded_assign lv p At_Copy sp s
           | Move p \<Rightarrow> mop_guarded_assign lv p At_Copy sp s
           | Constant _ \<Rightarrow> Inr s) xs s
      | Discriminant p \<Rightarrow>
          (let s = mop_push_assign lv p At_Variant sp s
           in Inr (s\<lparr>mb_disc_map := (mb_disc_map s)(p_local lv \<mapsto> p_local p)\<rparr>))
      | _ \<Rightarrow> Inr s)"

definition mop_stmt :: "statement \<Rightarrow> mop_build \<Rightarrow> mop_build res" where
  "mop_stmt st s =
     (case s_kind st of
        Assign lv rv \<Rightarrow>
          mop_rvalue lv rv (s_span st)
            (s\<lparr>mb_block := (mb_block s)\<lparr>b_modified_value := hs_insert (p_local lv) (b_modified_value (mb_block s))\<rparr>\<rparr>)
      | _ \<Rightarrow> Inr s)"

definition mop_cleanup :: "unwind_action \<Rightarrow> block_node \<Rightarrow> block_node" where
  "mop_cleanup u b = (case u of Uw_Cleanup t \<Rightarrow> add_next t b | _ \<Rightarrow> b)"

definition mop_terminator :: "terminator \<Rightarrow> block_node \<Rightarrow> block_node res" where
  "mop_terminator t b =
     (case t_kind t of
        Goto tgt \<Rightarrow> Inr (add_next tgt b)
      | SwitchInt _ targets \<Rightarrow>
          (let b = b\<lparr>b_switch_stmts := b_switch_stmts b @ [t]\<rparr>;
               b = fold (\<lambda>(_, tgt). add_next tgt) (sw_values targets) b
           in Inr (add_next (sw_otherwise targets) b))
      | UnwindResume \<Rightarrow> Inr b
      | Return \<Rightarrow> Inr b
      | UnwindTerminate \<Rightarrow> Inr b
      | CoroutineDrop \<Rightarrow> Inr b
      | Unreachable \<Rightarrow> Inr b
      | Drop _ tgt uw \<Rightarrow> Inr (mop_cleanup uw (add_next tgt b))
      | Call _ _ _ tgt uw \<Rightarrow>
          (let b = (case tgt of Some tt \<Rightarrow> add_next tt b | None \<Rightarrow> b); b = mop_cleanup uw b
           in Inr (b\<lparr>b_calls := b_calls b @ [t]\<rparr>))
      | TailCall \<Rightarrow> Inl Todo
      | Assert tgt uw \<Rightarrow> Inr (mop_cleanup uw (add_next tgt b))
      | Yield resume dr \<Rightarrow>
          (let b = add_next resume b in Inr (case dr of Some tgt \<Rightarrow> add_next tgt b | None \<Rightarrow> b))
      | FalseEdge r \<Rightarrow> Inr (add_next r b)
      | FalseUnwind r \<Rightarrow> Inr (add_next r b)
      | InlineAsm tgts uw \<Rightarrow> Inr (mop_cleanup uw (fold add_next tgts b)))"

definition mop_new_block :: "nat \<Rightarrow> bb_data \<Rightarrow>
    vnode list \<times> nat list \<times> (nat \<rightharpoonup> nat) \<times> block_node list \<times> term_kind list \<Rightarrow>
    (vnode list \<times> nat list \<times> (nat \<rightharpoonup> nat) \<times> block_node list \<times> term_kind list) res" where
  "mop_new_block i bb = (\<lambda>(vs, al, dm, bs, ts).
     rbind (unwrap (bb_terminator bb)) (\<lambda>t.
     rbind (rfold mop_stmt (bb_statements bb)
        \<lparr>mb_values = vs, mb_alias = al, mb_block = block_node_new i, mb_disc_map = dm\<rparr>) (\<lambda>s.
     rbind (mop_terminator t (mb_block s)) (\<lambda>b.
     Inr (mb_values s, mb_alias s, mb_disc_map s, bs @ [b], ts @ [t_kind t])))))"

definition mop_new :: "tcx \<Rightarrow> def_id \<Rightarrow> mop_graph res" where
  "mop_new tcx d =
     (let body = optimized_mir tcx d in
      rbind (mop_new_locals tcx (local_decls body) ([], [])) (\<lambda>(vs, al).
      rbind (rfold (\<lambda>(i, bb). mop_new_block i bb) (enumerate 0 (basic_blocks body)) (vs, al, Map.empty, [], []))
        (\<lambda>(vs, al, dm, bs, ts).
      Inr \<lparr>m_def_id = d, m_span = body_span body, m_values = vs, m_blocks = bs, m_arg_size = arg_count body,
           m_scc_indices = [0..<length (basic_blocks body)], m_constant = Map.empty,
           m_ret_alias = fn_ret_alias_new (arg_count body), m_visit_times = 0, m_alias_set = al,
           m_child_scc = Map.empty, m_disc_map = dm, m_terms = ts\<rparr>)))"

subsection \<open>Values\<close>

text \<open>The pushes that create a field node.\<close>

definition mop_push_field :: "nat \<Rightarrow> nat \<Rightarrow> vnode \<Rightarrow> mop_graph \<Rightarrow> mop_graph res" where
  "mop_push_field owner k node g =
     rbind (at (m_values g) owner) (\<lambda>v.
     Inr (g\<lparr>m_values := (m_values g)[owner := field_insert k (v_index node) v] @ [node],
            m_alias_set := m_alias_set g @ [length (m_values g)]\<rparr>))"

definition mop_proj_elem :: "tcx \<Rightarrow> bool \<Rightarrow> proj_elem \<Rightarrow> nat \<times> nat \<times> mop_graph \<Rightarrow> (nat \<times> nat \<times> mop_graph) res" where
  "mop_proj_elem tcx is_right proj = (\<lambda>(local, proj_id, g).
     let new_id = length (m_values g) in
     case proj of
       Deref \<Rightarrow> rbind (at (m_values g) proj_id) (\<lambda>v. Inr (local, v_index v, g))
     | Field field_idx t \<Rightarrow>
         rbind (if is_right
                then rbind (at (m_values g) proj_id) (\<lambda>v.
                     if v_index v \<noteq> proj_id
                     then rbind (at (m_values g) (v_index v)) (\<lambda>w. Inr (v_local w, v_index v))
                     else Inr (local, proj_id))
                else Inr (local, proj_id)) (\<lambda>(local, proj_id).
         rbind (at (m_values g) proj_id) (\<lambda>v.
         rbind (if field_get field_idx v = None
                then rbind (mop_drop_flags tcx t) (\<lambda>(need, may).
                     mop_push_field proj_id field_idx
                       ((vnode_new new_id local need may)\<lparr>v_kind := mop_kind tcx t, v_field_id := field_idx\<rparr>) g)
                else Inr g) (\<lambda>g.
         rbind (at (m_values g) proj_id) (\<lambda>v.
         rbind (unwrap (field_get field_idx v)) (\<lambda>f. Inr (local, f, g))))))
     | _ \<Rightarrow> Inr (local, proj_id, g))"

definition mop_projection :: "tcx \<Rightarrow> bool \<Rightarrow> place \<Rightarrow> mop_graph \<Rightarrow> (nat \<times> mop_graph) res" where
  "mop_projection tcx is_right p g =
     rbind (rfold (mop_proj_elem tcx is_right) (p_projection p) (p_local p, p_local p, g))
       (\<lambda>(local, proj_id, g). Inr (proj_id, g))"

definition mop_like_field :: "nat \<Rightarrow> nat \<Rightarrow> nat \<Rightarrow> mop_graph \<Rightarrow> (nat \<times> mop_graph) res" where
  "mop_like_field lv k f g =
     rbind (at (m_values g) lv) (\<lambda>l.
     rbind (if field_get k l = None
            then rbind (at (m_values g) f) (\<lambda>vf.
                 mop_push_field lv k
                   ((vnode_new (length (m_values g)) (v_local l) (v_need_drop vf) (v_may_drop vf))
                      \<lparr>v_kind := v_kind vf, v_field_id := k\<rparr>) g)
            else Inr g) (\<lambda>g.
     rbind (at (m_values g) lv) (\<lambda>l.
     rbind (unwrap (field_get k l)) (\<lambda>lf. Inr (lf, g)))))"

fun mop_merge_alias :: "nat \<Rightarrow> tcx \<Rightarrow> nat \<Rightarrow> nat \<Rightarrow> mop_graph \<Rightarrow> mop_graph res" where
  "mop_merge_alias 0 tcx lv rv g = Inl Diverges"
| "mop_merge_alias (Suc n) tcx lv rv g =
     rbind (union_merge (m_alias_set g) lv rv) (\<lambda>a.
     let g = g\<lparr>m_alias_set := a\<rparr> in
     rbind (at (m_values g) rv) (\<lambda>r.
     rfold (\<lambda>(k, f) g. rbind (mop_like_field lv k f g) (\<lambda>(lf, g). mop_merge_alias n tcx lf f g))
       (hm_iter tcx (v_fields r)) g))"

definition mop_merge_alias_top :: "tcx \<Rightarrow> nat \<Rightarrow> nat \<Rightarrow> mop_graph \<Rightarrow> mop_graph res" where
  "mop_merge_alias_top tcx lv rv g = mop_merge_alias (Suc (length (m_values g))) tcx lv rv g"

text \<open>The two loops of \<open>merge\<close> over the field sequences of a summary.\<close>

fun mop_left_fields :: "ret_alias \<Rightarrow> nat \<Rightarrow> nat list \<Rightarrow> nat \<times> mop_graph \<Rightarrow> (nat \<times> mop_graph) res" where
  "mop_left_fields ra left_init [] (lv, g) = Inr (lv, g)"
| "mop_left_fields ra left_init (index # ks) (lv, g) =
     rbind (at (m_values g) lv) (\<lambda>l.
     rbind (if field_get index l = None
            then mop_push_field lv index
                   ((vnode_new (length (m_values g)) left_init (left_need_drop ra) (left_may_drop ra))
                      \<lparr>v_kind := Kd_RawPtr, v_field_id := index\<rparr>) g
            else Inr g) (\<lambda>g.
     rbind (at (m_values g) lv) (\<lambda>l.
     rbind (unwrap (field_get index l)) (\<lambda>lv. mop_left_fields ra left_init ks (lv, g)))))"

fun mop_right_fields :: "ret_alias \<Rightarrow> nat list \<Rightarrow> nat \<times> nat \<times> mop_graph \<Rightarrow> (nat \<times> mop_graph) res" where
  "mop_right_fields ra [] (right_init, rv, g) = Inr (rv, g)"
| "mop_right_fields ra (index # ks) (right_init, rv, g) =
     rbind (at (m_alias_set g) rv) (\<lambda>p.
     rbind (union_is_same (m_alias_set g) rv p) (\<lambda>same.
     rbind (at (m_values g) rv) (\<lambda>r.
     let right_init = (if same then v_local r else right_init) in
     rbind (if field_get index r = None
            then mop_push_field rv index
                   ((vnode_new (length (m_values g)) right_init (right_need_drop ra) (right_may_drop ra))
                      \<lparr>v_kind := Kd_RawPtr, v_field_id := index\<rparr>) g
            else Inr g) (\<lambda>g.
     rbind (at (m_values g) rv) (\<lambda>r.
     rbind (unwrap (field_get index r)) (\<lambda>rv. mop_right_fields ra ks (right_init, rv, g)))))))"

definition mop_merge :: "tcx \<Rightarrow> ret_alias \<Rightarrow> nat list \<Rightarrow> mop_graph \<Rightarrow> mop_graph res" where
  "mop_merge tcx ra arg_vec g =
     (if left_index ra \<ge> length arg_vec \<or> right_index ra \<ge> length arg_vec then Inr g
      else let left_init = arg_vec ! left_index ra; right_init = arg_vec ! right_index ra in
      rbind (mop_left_fields ra left_init (left_field_seq ra) (left_init, g)) (\<lambda>(lv, g).
      rbind (mop_right_fields ra (right_field_seq ra) (right_init, right_init, g)) (\<lambda>(rv, g).
      mop_merge_alias_top tcx lv rv g)))"

subsection \<open>Results of a path\<close>

text \<open>The \<open>while\<close> loop of \<open>get_field_seq\<close>: \<open>node\<close> is \<open>node_ref\<close>.\<close>

fun mop_field_seq_loop :: "nat \<Rightarrow> mop_graph \<Rightarrow> vnode \<Rightarrow> vnode \<Rightarrow> nat list \<Rightarrow> nat list res" where
  "mop_field_seq_loop 0 g v node acc = Inl Diverges"
| "mop_field_seq_loop (Suc n) g v node acc =
     (if v_field_id node \<noteq> usize_MAX
      then rbind (at (m_values g) (v_father v)) (\<lambda>p. mop_field_seq_loop n g v p (acc @ [v_field_id node]))
      else Inr acc)"

definition mop_get_field_seq :: "mop_graph \<Rightarrow> vnode \<Rightarrow> nat list res" where
  "mop_get_field_seq g v = mop_field_seq_loop 2 g v v []"

text \<open>The alias that a pair of values of \<open>results_nodes\<close> contributes to the summary.\<close>

definition mop_pair_alias :: "mop_graph \<Rightarrow> vnode \<Rightarrow> vnode \<Rightarrow> ret_alias res" where
  "mop_pair_alias g node other =
     (let (l, r) = (if v_local other = 0 then (other, node) else (node, other)) in
      rbind (mop_get_field_seq g l) (\<lambda>ls.
      rbind (mop_get_field_seq g r) (\<lambda>rs.
      Inr ((ret_alias_new (v_local l) (v_may_drop l) (v_need_drop l) (v_local r) (v_may_drop r) (v_need_drop r))
             \<lparr>left_field_seq := ls, right_field_seq := rs\<rparr>))))"

definition mop_merge_node :: "vnode list \<Rightarrow> vnode \<Rightarrow> mop_graph \<Rightarrow> mop_graph res" where
  "mop_merge_node results node g =
     (if v_local node > m_arg_size g then Inr g
      else rbind (at (m_alias_set g) (v_index node)) (\<lambda>p.
      rbind (union_is_same (m_alias_set g) (v_index node) p) (\<lambda>same.
      if \<not> (same \<or> p \<noteq> v_index node) \<or> length (m_values g) = 1 then Inr g
      else rfold (\<lambda>idx g.
        rbind (union_is_same (m_alias_set g) idx (v_index node)) (\<lambda>same.
        if \<not> same then Inr g
        else rbind (at results idx) (\<lambda>other.
        if v_local other \<le> m_arg_size g \<and> idx \<noteq> v_index node \<and> v_local node \<noteq> v_local other
        then rbind (mop_pair_alias g node other) (\<lambda>a.
             Inr (g\<lparr>m_ret_alias := add_alias a (m_ret_alias g)\<rparr>))
        else Inr g))) [1..<length (m_values g)] g)))"

definition mop_merge_results :: "mop_graph \<Rightarrow> mop_graph res" where
  "mop_merge_results g = rfold (mop_merge_node (m_values g)) (m_values g) g"

end
