(* ===== verification/Mop_Check.thy ===== *)
theory Mop_Check
  imports Mop_Graph
begin

section \<open>MoP alias analysis: blocks, paths, functions and the crate\<close>

text \<open>
  \<^verbatim>\<open>core/alias/mop/alias.rs\<close> (\<open>alias_bb\<close>, \<open>alias_bbcall\<close>), \<^verbatim>\<open>core/alias/mop/mop.rs\<close> (\<open>check\<close>, the splits,
  \<open>calculate_scc_order\<close>) and \<^verbatim>\<open>core/alias/mop.rs\<close> (\<open>query_mop\<close>, \<open>handle_conor_cases\<close>, \<open>start\<close>). The
  analysis is interprocedural: a call of a function without summary builds the callee's graph and
  checks it with the same summary table and the set of functions under analysis, so the state of
  a traversal is the graph, \<open>fn_map\<close> and \<open>recursion_set\<close>.
\<close>

type_synonym mop_state = "mop_graph \<times> fn_map \<times> def_id set"

subsection \<open>Components\<close>

definition mop_switch_target :: "tcx \<Rightarrow> block_node \<Rightarrow> mop_graph \<Rightarrow> (nat option \<times> mop_graph) res" where
  "mop_switch_target tcx b g =
     (case b_switch_stmts b of
        [] \<Rightarrow> Inr (None, g)
      | t # _ \<Rightarrow> (case t_kind t of
            SwitchInt discr _ \<Rightarrow> (case discr of
                Copy p \<Rightarrow> rbind (mop_projection tcx False p g) (\<lambda>(i, g). Inr (Some i, g))
              | Move p \<Rightarrow> rbind (mop_projection tcx False p g) (\<lambda>(i, g). Inr (Some i, g))
              | Constant _ \<Rightarrow> Inr (None, g))
          | _ \<Rightarrow> Inr (None, g)))"

definition mop_tarjan :: "nat \<Rightarrow> tcx \<Rightarrow> nat \<Rightarrow> (block_node, mop_graph) scc_state \<Rightarrow> (block_node, mop_graph) scc_state res" where
  "mop_tarjan n tcx = tarjan n (set_order tcx) (mop_switch_target tcx)"

definition mop_solve_scc :: "tcx \<Rightarrow> mop_graph \<Rightarrow> mop_graph res" where
  "mop_solve_scc tcx g =
     rbind (mop_tarjan (length (m_blocks g) + 2) tcx 0
       \<lparr>sc_blocks = m_blocks g, sc_indices = m_scc_indices g, sc_child = m_child_scc g, sc_vals = g, sc_stack = [],
        sc_instack = {}, sc_dfn = replicate (length (m_blocks g)) 0, sc_low = replicate (length (m_blocks g)) 0,
        sc_time = 0\<rparr>)
       (\<lambda>s. Inr ((sc_vals s)\<lparr>m_blocks := sc_blocks s, m_scc_indices := sc_indices s, m_child_scc := sc_child s\<rparr>))"

subsection \<open>Assignments\<close>

definition mop_alias_assign :: "tcx \<Rightarrow> assignment \<Rightarrow> mop_graph \<Rightarrow> mop_graph res" where
  "mop_alias_assign tcx a g =
     rbind (mop_projection tcx False (as_lv a) g) (\<lambda>(lv, g).
     rbind (mop_projection tcx True (as_rv a) g) (\<lambda>(rv, g).
     if as_atype a = At_Variant
     then rbind (set_at (m_alias_set g) lv rv) (\<lambda>al. Inr (g\<lparr>m_alias_set := al\<rparr>))
     else
     rbind (if as_atype a = At_InitBox
            then rbind (at (m_values g) lv) (\<lambda>v. unwrap (field_get 0 v))
            else Inr lv) (\<lambda>lv.
     rbind (at (m_values g) lv) (\<lambda>l.
     rbind (at (m_values g) rv) (\<lambda>r.
     if v_local l \<noteq> v_local r then mop_merge_alias_top tcx lv rv g else Inr g)))))"

definition mop_alias_bb :: "tcx \<Rightarrow> nat \<Rightarrow> mop_graph \<Rightarrow> mop_graph res" where
  "mop_alias_bb tcx bb_index g =
     rbind (at (m_blocks g) bb_index) (\<lambda>b.
     let g = g\<lparr>m_constant := fold (\<lambda>(k, v) m. m(k \<mapsto> v)) (b_const_value b) (m_constant g)\<rparr>
     in rfold (mop_alias_assign tcx) (b_assignments b) g)"

subsection \<open>Calls\<close>

definition mop_call_arg :: "tcx \<Rightarrow> operand \<Rightarrow> nat list \<times> nat \<times> mop_graph \<Rightarrow> (nat list \<times> nat \<times> mop_graph) res" where
  "mop_call_arg tcx arg = (\<lambda>(merge_vec, flag, g).
     let place = (\<lambda>p.
           rbind (mop_projection tcx True p g) (\<lambda>(rv, g).
           rbind (at (m_values g) rv) (\<lambda>v.
           Inr (merge_vec @ [rv], if v_may_drop v then flag + 1 else flag, g))))
     in case arg of Copy p \<Rightarrow> place p | Move p \<Rightarrow> place p | Constant _ \<Rightarrow> Inr (merge_vec @ [0], flag, g))"

definition mop_right_set :: "nat \<Rightarrow> nat list \<Rightarrow> mop_graph \<Rightarrow> nat list res" where
  "mop_right_set lv merge_vec g =
     rfold (\<lambda>rv right.
       rbind (at (m_values g) rv) (\<lambda>r.
       rbind (at (m_values g) lv) (\<lambda>l.
       Inr (if v_may_drop r \<and> lv \<noteq> rv \<and> is_ptr l then right @ [rv] else right)))) merge_vec []"

definition mop_apply_summary :: "tcx \<Rightarrow> fn_ret_alias \<Rightarrow> nat list \<Rightarrow> mop_graph \<Rightarrow> mop_graph res" where
  "mop_apply_summary tcx f merge_vec g =
     rfold (\<lambda>a g. if valuable a then mop_merge tcx a merge_vec g else Inr g) (alias_order tcx (fra_alias_set f)) g"

text \<open>The callee: its summary if there is one, else \<open>analyse\<close> computes it (\<open>MopGraph::new\<close>, \<open>solve_scc\<close>, \<open>check\<close>).\<close>

definition mop_alias_callee ::
    "(def_id \<Rightarrow> fn_map \<Rightarrow> def_id set \<Rightarrow> (fn_ret_alias \<times> fn_map \<times> def_id set) res) \<Rightarrow>
     tcx \<Rightarrow> def_id \<Rightarrow> nat \<Rightarrow> nat list \<Rightarrow> mop_state \<Rightarrow> mop_state res" where
  "mop_alias_callee analyse tcx target lv merge_vec = (\<lambda>(g, fm, rs).
     if mir_available tcx target
     then (case fm target of
             Some f \<Rightarrow> rbind (mop_apply_summary tcx f merge_vec g) (\<lambda>g. Inr (g, fm, rs))
           | None \<Rightarrow>
               if target \<in> rs then Inr (g, fm, rs)
               else rbind (analyse target fm (insert target rs)) (\<lambda>(ret, fm, rs).
                    rbind (mop_apply_summary tcx ret merge_vec g) (\<lambda>g.
                    Inr (g, fm(target \<mapsto> ret), rs - {target}))))
     else rbind (at (m_values g) lv) (\<lambda>l.
          if v_may_drop l \<and> \<not> (def_index tcx target = CALL_MUT \<or> def_index tcx target = NEXT)
          then rbind (mop_right_set lv merge_vec g) (\<lambda>right.
               case right of
                 [rv] \<Rightarrow> rbind (mop_merge_alias_top tcx lv rv g) (\<lambda>g. Inr (g, fm, rs))
               | _ \<Rightarrow> Inr (g, fm, rs))
          else Inr (g, fm, rs)))"

definition mop_alias_call ::
    "(def_id \<Rightarrow> fn_map \<Rightarrow> def_id set \<Rightarrow> (fn_ret_alias \<times> fn_map \<times> def_id set) res) \<Rightarrow>
     tcx \<Rightarrow> terminator \<Rightarrow> mop_state \<Rightarrow> mop_state res" where
  "mop_alias_call analyse tcx call = (\<lambda>(g, fm, rs).
     case t_kind call of
       Call (Constant c) args dest _ _ \<Rightarrow>
         rbind (mop_projection tcx False dest g) (\<lambda>(lv, g).
         rbind (at (m_values g) lv) (\<lambda>l.
         rbind (rfold (mop_call_arg tcx) args ([lv], if v_may_drop l then 1 else 0, g)) (\<lambda>(merge_vec, flag, g).
         case c_ty c of
           Ty_FnDef target _ \<Rightarrow>
             if flag > 0 then mop_alias_callee analyse tcx target lv merge_vec (g, fm, rs) else Inr (g, fm, rs)
         | _ \<Rightarrow> Inr (g, fm, rs))))
     | _ \<Rightarrow> Inr (g, fm, rs))"

definition mop_alias_bbcall ::
    "(def_id \<Rightarrow> fn_map \<Rightarrow> def_id set \<Rightarrow> (fn_ret_alias \<times> fn_map \<times> def_id set) res) \<Rightarrow>
     tcx \<Rightarrow> nat \<Rightarrow> mop_state \<Rightarrow> mop_state res" where
  "mop_alias_bbcall analyse tcx bb_index st =
     rbind (at (m_blocks (fst st)) bb_index) (\<lambda>b. rfold (mop_alias_call analyse tcx) (b_calls b) st)"

subsection \<open>Orders of a component\<close>

text \<open>
  \<open>calculate_scc_order\<close>: the walks through a component from \<open>root\<close> back to it. Every \<open>path.push\<close> and
  \<open>disc_map.insert\<close> of the source is undone after the nested call, so both are arguments here;
  the set \<open>visit\<close> is written and never read. \<open>F\<close> is the nested call.
\<close>

definition scc_targets :: "switch_targets \<Rightarrow> nat option \<Rightarrow> nat list \<Rightarrow> (nat \<times> nat) list" where
  "scc_targets targets known path =
     filter (\<lambda>(v, t). t \<notin> set path \<and> (case known of Some c \<Rightarrow> as_usize v = c | None \<Rightarrow> True)) (sw_values targets)"

definition mop_scc_switch ::
    "(nat list \<Rightarrow> (nat \<rightharpoonup> nat) \<Rightarrow> nat \<Rightarrow> mop_graph \<times> nat list list \<Rightarrow> (mop_graph \<times> nat list list) res) \<Rightarrow>
     tcx \<Rightarrow> nat list \<Rightarrow> (nat \<rightharpoonup> nat) \<Rightarrow> place \<Rightarrow> switch_targets \<Rightarrow> mop_graph \<times> nat list list \<Rightarrow>
     (mop_graph \<times> nat list list) res" where
  "mop_scc_switch F tcx path dm p targets = (\<lambda>(g, ans).
     rbind (mop_projection tcx False p g) (\<lambda>(place, g).
     rbind (at (m_values g) place) (\<lambda>v.
     let father = m_disc_map g (v_local v);
         key = (case father of Some f \<Rightarrow> f | None \<Rightarrow> place);
         known = dm key;
         dm' = (\<lambda>c. if known = None then dm(key \<mapsto> c) else dm)
     in rbind (rfold (\<lambda>(val, t) st. F (path @ [t]) (dm' (as_usize val)) t st)
                (scc_targets targets known path) (g, ans)) (\<lambda>st.
        if father = None \<and> known = None \<and> sw_otherwise targets \<notin> set path
        then F (path @ [sw_otherwise targets]) (dm' (length (sw_values targets))) (sw_otherwise targets) st
        else Inr st))))"

definition mop_scc_step ::
    "(nat list \<Rightarrow> (nat \<rightharpoonup> nat) \<Rightarrow> nat \<Rightarrow> mop_graph \<times> nat list list \<Rightarrow> (mop_graph \<times> nat list list) res) \<Rightarrow>
     tcx \<Rightarrow> nat list \<Rightarrow> nat \<Rightarrow> nat list \<Rightarrow> (nat \<rightharpoonup> nat) \<Rightarrow> nat \<Rightarrow> mop_graph \<times> nat list list \<Rightarrow>
     (mop_graph \<times> nat list list) res" where
  "mop_scc_step F tcx scc root path dm idx st =
     (if idx = root \<and> path \<noteq> [] then Inr (fst st, snd st @ [path])
      else rbind (at (m_terms (fst st)) idx) (\<lambda>term.
      case term of
        SwitchInt discr targets \<Rightarrow>
          (case discr of
             Copy p \<Rightarrow> mop_scc_switch F tcx path dm p targets st
           | Move p \<Rightarrow> mop_scc_switch F tcx path dm p targets st
           | Constant _ \<Rightarrow> Inr st)
      | _ \<Rightarrow>
          rbind (at (m_blocks (fst st)) idx) (\<lambda>b.
          rfold (\<lambda>t st.
            if t \<notin> set scc \<and> t \<noteq> root then Inr st
            else F (if t \<noteq> root then path @ [t] else path) dm t st)
            (set_order tcx (b_next b)) st)))"

fun mop_scc_order :: "nat \<Rightarrow> tcx \<Rightarrow> nat list \<Rightarrow> nat \<Rightarrow> nat list \<Rightarrow> (nat \<rightharpoonup> nat) \<Rightarrow> nat \<Rightarrow>
    mop_graph \<times> nat list list \<Rightarrow> (mop_graph \<times> nat list list) res" where
  "mop_scc_order 0 tcx scc root path dm idx st = Inl Diverges"
| "mop_scc_order (Suc n) tcx scc root path dm idx st =
     mop_scc_step (mop_scc_order n tcx scc root) tcx scc root path dm idx st"

text \<open>
  A switch never pushes a block that is on the path, so a walk in which every cycle passes a
  switch has at most \<open>(blocks.len() + 1) ^ 2\<close> blocks.
\<close>

definition mop_calculate_scc_order :: "tcx \<Rightarrow> nat list \<Rightarrow> nat \<Rightarrow> mop_graph \<Rightarrow> (mop_graph \<times> nat list list) res" where
  "mop_calculate_scc_order tcx scc bb_index g =
     mop_scc_order ((length (m_blocks g) + 1) ^ 2 + 1) tcx scc bb_index [] Map.empty bb_index (g, [[]])"

subsection \<open>Paths\<close>

definition mop_VISIT_LIMIT :: nat where
  "mop_VISIT_LIMIT = 100"

definition mop_restore :: "mop_graph \<Rightarrow> mop_graph \<Rightarrow> mop_graph" where
  "mop_restore g h = h\<lparr>m_alias_set := m_alias_set g, m_values := m_values g, m_constant := m_constant g\<rparr>"

definition mop_split_check :: "(nat \<Rightarrow> mop_state \<Rightarrow> mop_state res) \<Rightarrow> nat \<Rightarrow> mop_state \<Rightarrow> mop_state res" where
  "mop_split_check F bb_index = (\<lambda>(g, fm, rs).
     rbind (F bb_index (g, fm, rs)) (\<lambda>(h, fm, rs). Inr (mop_restore g h, fm, rs)))"

definition mop_split_check_with_cond :: "(nat \<Rightarrow> mop_state \<Rightarrow> mop_state res) \<Rightarrow> nat \<Rightarrow> nat \<Rightarrow> nat \<Rightarrow> mop_state \<Rightarrow> mop_state res" where
  "mop_split_check_with_cond F bb_index discr_id discr_val = (\<lambda>(g, fm, rs).
     rbind (F bb_index (g\<lparr>m_constant := (m_constant g)(discr_id \<mapsto> discr_val)\<rparr>, fm, rs)) (\<lambda>(h, fm, rs).
     Inr (mop_restore g h, fm, rs)))"

definition mop_guarded :: "(mop_state \<Rightarrow> mop_state res) \<Rightarrow> mop_state \<Rightarrow> mop_state res" where
  "mop_guarded f st = (if m_visit_times (fst st) > mop_VISIT_LIMIT then Inr st else f st)"

definition mop_switch :: "tcx \<Rightarrow> block_node \<Rightarrow> mop_graph \<Rightarrow> (nat option \<times> (nat \<times> switch_targets) option \<times> mop_graph) res" where
  "mop_switch tcx b g =
     (case b_switch_stmts b of
        [] \<Rightarrow> Inr (None, None, g)
      | t # _ \<Rightarrow>
          if b_scc_sub_blocks b \<noteq> [] then Inr (None, None, g)
          else (case t_kind t of
            SwitchInt discr targets \<Rightarrow>
              (let place = (\<lambda>p.
                 rbind (mop_projection tcx False p g) (\<lambda>(i, g).
                 rbind (at (m_values g) i) (\<lambda>v.
                 Inr (case m_disc_map g (v_local v) of
                        None \<Rightarrow> (None, None, g)
                      | Some father \<Rightarrow>
                          ((case m_constant g father of
                              Some c \<Rightarrow> if c \<noteq> usize_MAX then Some (sw_pick targets c) else None
                            | None \<Rightarrow> None),
                           if v_local v = i then Some (father, targets) else None, g)))))
               in case discr of
                    Copy p \<Rightarrow> place p
                  | Move p \<Rightarrow> place p
                  | Constant c \<Rightarrow>
                      Inr (Some (sw_pick targets (case c_target_usize c of Some v \<Rightarrow> as_usize v | None \<Rightarrow> 0)), None, g))
          | _ \<Rightarrow> Inr (None, None, g)))"

definition mop_branch :: "(nat \<Rightarrow> mop_state \<Rightarrow> mop_state res) \<Rightarrow> tcx \<Rightarrow> block_node \<Rightarrow> mop_state \<Rightarrow> mop_state res" where
  "mop_branch F tcx cur_block = (\<lambda>(g, fm, rs).
     rbind (mop_switch tcx cur_block g) (\<lambda>(single, split, g).
     case single of
       Some tgt \<Rightarrow> F tgt (g, fm, rs)
     | None \<Rightarrow>
         (case split of
            Some (discr_id, targets) \<Rightarrow>
              rbind (rfold (\<lambda>(val, tgt). mop_guarded
                       (mop_split_check_with_cond F tgt discr_id (as_usize val)))
                     (sw_values targets) (g, fm, rs))
                (mop_split_check_with_cond F (sw_otherwise targets) discr_id usize_MAX)
          | None \<Rightarrow>
              rfold (\<lambda>i. mop_guarded (mop_split_check F i)) (set_order tcx (b_next cur_block)) (g, fm, rs))))"

definition mop_visit ::
    "(def_id \<Rightarrow> fn_map \<Rightarrow> def_id set \<Rightarrow> (fn_ret_alias \<times> fn_map \<times> def_id set) res) \<Rightarrow>
     tcx \<Rightarrow> nat \<Rightarrow> mop_state \<Rightarrow> mop_state res" where
  "mop_visit analyse tcx i = (\<lambda>(g, fm, rs).
     rbind (mop_alias_bb tcx i g) (\<lambda>g. mop_alias_bbcall analyse tcx i (g, fm, rs)))"

text \<open>One round of the loop over the targets of a component's switch.\<close>

definition mop_enum_target ::
    "(def_id \<Rightarrow> fn_map \<Rightarrow> def_id set \<Rightarrow> (fn_ret_alias \<times> fn_map \<times> def_id set) res) \<Rightarrow>
     (nat \<Rightarrow> mop_state \<Rightarrow> mop_state res) \<Rightarrow> tcx \<Rightarrow> nat \<Rightarrow> nat \<Rightarrow>
     block_node \<times> switch_targets \<times> nat list \<Rightarrow> nat \<Rightarrow> mop_state \<Rightarrow> mop_state res" where
  "mop_enum_target analyse F tcx bb_index init_index child enum_index = (\<lambda>(g, fm, rs).
     rbind (scc_unfold (set_order tcx) (m_blocks g) (m_scc_indices g) bb_index init_index child enum_index) (\<lambda>bn.
     rbind (rfold (mop_visit analyse tcx) (b_scc_sub_blocks bn) (g, fm, rs)) (\<lambda>st.
     rbind (rfold F (set_order tcx (b_next bn)) st) (\<lambda>(h, fm, rs).
     Inr (h\<lparr>m_values := m_values g, m_constant := m_constant g\<rparr>, fm, rs)))))"

text \<open>One round of the loop over the orders of a component: the path state and the summaries are reset
  first; the flag says that the loop returns from \<open>check\<close>.\<close>

definition mop_order_round ::
    "(def_id \<Rightarrow> fn_map \<Rightarrow> def_id set \<Rightarrow> (fn_ret_alias \<times> fn_map \<times> def_id set) res) \<Rightarrow>
     (nat \<Rightarrow> mop_state \<Rightarrow> mop_state res) \<Rightarrow> tcx \<Rightarrow> block_node \<Rightarrow> mop_state \<Rightarrow> nat list \<Rightarrow> mop_state \<Rightarrow>
     (bool \<times> mop_state) res" where
  "mop_order_round analyse F tcx cur_block = (\<lambda>(g0, fm0, rs0) scc_each (g, _, _).
     rbind (rfold (mop_visit analyse tcx) scc_each (mop_restore g0 g, fm0, rs0)) (\<lambda>(g, fm, rs).
     case b_next cur_block of
       [] \<Rightarrow> rbind (mop_merge_results g) (\<lambda>g. Inr (True, g, fm, rs))
     | [next] \<Rightarrow> rbind (F next (g, fm, rs)) (\<lambda>st. Inr (True, st))
     | _ \<Rightarrow> rbind (mop_branch F tcx cur_block (g, fm, rs)) (\<lambda>st. Inr (False, st))))"

definition mop_check_body ::
    "(def_id \<Rightarrow> fn_map \<Rightarrow> def_id set \<Rightarrow> (fn_ret_alias \<times> fn_map \<times> def_id set) res) \<Rightarrow>
     (nat \<Rightarrow> mop_state \<Rightarrow> mop_state res) \<Rightarrow> bool \<Rightarrow> tcx \<Rightarrow> nat \<Rightarrow> mop_state \<Rightarrow> mop_state res" where
  "mop_check_body analyse F fast tcx bb_index st =
     rbind (at (m_scc_indices (fst st)) bb_index) (\<lambda>i.
     rbind (at (m_blocks (fst st)) i) (\<lambda>cur_block.
     rbind (mop_visit analyse tcx i st) (\<lambda>(g, fm, rs).
     case m_child_scc g i of
       Some child \<Rightarrow> rfold (mop_enum_target analyse F tcx bb_index i child) (all_targets (fst (snd child))) (g, fm, rs)
     | None \<Rightarrow>
         rbind (if b_scc_sub_blocks cur_block = [] then Inr (g, [[]])
                else if fast then Inr (g, [[], b_scc_sub_blocks cur_block])
                else mop_calculate_scc_order tcx (b_scc_sub_blocks cur_block) bb_index g) (\<lambda>(g, order).
         rbind (rany (mop_order_round analyse F tcx cur_block (g, fm, rs)) order (g, fm, rs)) (\<lambda>(_, st). Inr st)))))"

text \<open>
  \<open>check\<close>, with the flag \<open>fast\<close> for the environment variable \<open>FAST_ALIAS\<close>. The fuel counts nested calls of
  \<open>check\<close>, those for callees included.
\<close>

fun mop_check :: "nat \<Rightarrow> bool \<Rightarrow> tcx \<Rightarrow> nat \<Rightarrow> mop_state \<Rightarrow> mop_state res" where
  "mop_check 0 fast tcx bb_index st = Inl Diverges"
| "mop_check (Suc n) fast tcx bb_index (g, fm, rs) =
     (let g = g\<lparr>m_visit_times := m_visit_times g + 1\<rparr> in
      if m_visit_times g > mop_VISIT_LIMIT then Inr (g, fm, rs)
      else mop_check_body
        (\<lambda>d fm rs. rbind (mop_new tcx d) (\<lambda>g. rbind (mop_solve_scc tcx g) (\<lambda>g.
           rbind (mop_check n fast tcx 0 (g, fm, rs)) (\<lambda>(g, fm, rs). Inr (m_ret_alias g, fm, rs)))))
        (mop_check n fast tcx) fast tcx bb_index (g, fm, rs))"

subsection \<open>The crate\<close>

definition query_mop :: "nat \<Rightarrow> bool \<Rightarrow> tcx \<Rightarrow> (def_id \<Rightarrow> bool) \<Rightarrow> def_id \<Rightarrow> fn_map \<Rightarrow> fn_map res" where
  "query_mop n fast tcx const_context d fm =
     (if const_context d then Inr fm
      else if \<not> mir_available tcx d then Inr fm
      else rbind (mop_new tcx d) (\<lambda>g.
           rbind (mop_solve_scc tcx g) (\<lambda>g.
           rbind (mop_check n fast tcx 0 (g, fm, {})) (\<lambda>(g, fm, rs). Inr fm))))"

definition conor_alias :: ret_alias where
  "conor_alias = ret_alias_new 1 True True 2 True True"

definition handle_conor_cases :: "tcx \<Rightarrow> fn_map \<Rightarrow> fn_map" where
  "handle_conor_cases tcx fm = (\<lambda>d.
     if def_index tcx d \<in> {COPY_FROM_NONOVERLAPPING, COPY_TO_NONOVERLAPPING, COPY_TO, COPY_FROM}
     then map_option (\<lambda>f. f\<lparr>fra_alias_set := [conor_alias]\<rparr>) (fm d)
     else fm d)"

text \<open>\<open>start\<close>: \<open>defs\<close> are the local definitions that have a body.\<close>

definition mop_start :: "nat \<Rightarrow> bool \<Rightarrow> tcx \<Rightarrow> (def_id \<Rightarrow> bool) \<Rightarrow> def_id list \<Rightarrow> fn_map res" where
  "mop_start n fast tcx const_context defs =
     rbind (rfold (query_mop n fast tcx const_context) defs Map.empty) (\<lambda>fm. Inr (handle_conor_cases tcx fm))"

end
