(* ===== verification/Mop_Check_Props.thy ===== *)
theory Mop_Check_Props
  imports Mop_Check
begin

section \<open>MoP alias analysis: summaries only grow, and the analysis ends\<close>

text \<open>
  The state of a traversal is the graph, the summary table and the set of functions under
  analysis. A call of \<open>check\<close> never changes a summary that exists, leaves the set of functions under
  analysis as it was, and only adds aliases to the summary being computed; with these the nesting
  of \<open>check\<close>, callees included, is bounded.
\<close>

subsection \<open>What the operations on values leave alone\<close>

definition mop_static :: "mop_graph \<Rightarrow> _" where
  "mop_static g = (m_def_id g, m_span g, m_blocks g, m_arg_size g, m_scc_indices g, m_child_scc g, m_disc_map g, m_terms g)"

definition mop_frame :: "mop_graph \<Rightarrow> mop_graph \<Rightarrow> bool" where
  "mop_frame g h \<longleftrightarrow> mop_static h = mop_static g \<and> m_visit_times h = m_visit_times g \<and> m_ret_alias h = m_ret_alias g"

named_theorems mframes \<open>frame conditions of the operations\<close>

lemma mop_frame_refl [simp]: "mop_frame g g"
  by (simp add: mop_frame_def)

lemma mop_frame_trans: "mop_frame g h \<Longrightarrow> mop_frame h k \<Longrightarrow> mop_frame g k"
  by (simp add: mop_frame_def)

lemma mop_frame_updates [simp]:
  "mop_frame g (g\<lparr>m_alias_set := al\<rparr>)" "mop_frame g (g\<lparr>m_constant := c\<rparr>)"
  "mop_frame g (g\<lparr>m_values := vs, m_alias_set := al\<rparr>)"
  by (simp_all add: mop_frame_def mop_static_def)

definition mf :: "('a \<Rightarrow> mop_graph) \<Rightarrow> mop_graph \<Rightarrow> 'a res \<Rightarrow> bool" where
  "mf pr g m \<longleftrightarrow> safe (\<lambda>x. mop_frame g (pr x)) m"

abbreviation mf1 :: "mop_graph \<Rightarrow> mop_graph res \<Rightarrow> bool" where
  "mf1 \<equiv> mf (\<lambda>g. g)"

abbreviation mf2 :: "mop_graph \<Rightarrow> ('a \<times> mop_graph) res \<Rightarrow> bool" where
  "mf2 \<equiv> mf snd"

abbreviation mf3 :: "mop_graph \<Rightarrow> ('a \<times> 'b \<times> mop_graph) res \<Rightarrow> bool" where
  "mf3 \<equiv> mf (\<lambda>x. snd (snd x))"

lemma mf_simps [simp]: "mf pr g (Inr x) \<longleftrightarrow> mop_frame g (pr x)" "mf pr g (Inl e)"
  by (simp_all add: mf_def)

lemma mf_bind: "mf pr g m \<Longrightarrow> (\<And>x. mf pr' (pr x) (f x)) \<Longrightarrow> mf pr' g (rbind m f)"
  by (cases m) (auto simp: mf_def safe_def intro: mop_frame_trans)

lemma mf_bind_any: "(\<And>x. mf pr g (f x)) \<Longrightarrow> mf pr g (rbind m f)"
  by (cases m) auto

lemma mf_weaken: "mop_frame g h \<Longrightarrow> mf pr h m \<Longrightarrow> mf pr g m"
  by (auto simp: mf_def safe_def intro: mop_frame_trans)

lemma mf_rfold: "(\<And>x s. mf pr (pr s) (f x s)) \<Longrightarrow> mf pr (pr s) (rfold f xs s)"
  by (induction xs arbitrary: s) (auto intro: mf_bind)

lemma mf1_rfold: "(\<And>x h. mf1 h (f x h)) \<Longrightarrow> mf1 g (rfold f xs g)"
  using mf_rfold [of "\<lambda>g. g"] by blast

lemmas mf1_bind = mf_bind [where pr = "\<lambda>g. g"]
lemmas mf2_bind = mf_bind [where pr = snd]
lemmas mf3_bind = mf_bind [where pr = "\<lambda>x. snd (snd x)"]

lemma mop_push_field_mf [mframes]: "mf1 g (mop_push_field i k node g)"
  unfolding mop_push_field_def by (rule mf_bind_any) simp

lemma mop_proj_elem_mf [mframes]: "mf3 (snd (snd s)) (mop_proj_elem tcx r e s)"
proof (cases e)
  case (Field k t)
  obtain l p g where s: "s = (l, p, g)" by (cases s)
  show ?thesis
    unfolding mop_proj_elem_def s Field Let_def prod.case proj_elem.case snd_conv
    by (rule mf_bind_any, simp only: split_def, rule mf_bind_any, rule mf1_bind)
       (auto intro!: mf_bind_any mframes)
qed (auto simp: mop_proj_elem_def Let_def split_def intro!: mf_bind_any)

lemma mop_projection_mf [mframes]: "mf2 g (mop_projection tcx r p g)"
proof -
  have "mf3 g (rfold (mop_proj_elem tcx r) (p_projection p) (p_local p, p_local p, g))"
    using mf_rfold [of "\<lambda>x. snd (snd x)" "mop_proj_elem tcx r" "(p_local p, p_local p, g)"] mframes by auto
  then show ?thesis unfolding mop_projection_def by (rule mf3_bind) auto
qed

lemma mop_like_field_mf [mframes]: "mf2 g (mop_like_field lv k f g)"
  unfolding mop_like_field_def
  by (rule mf_bind_any, rule mf1_bind) (auto intro!: mf_bind_any mframes)

lemma mop_merge_alias_mf [mframes]: "mf1 g (mop_merge_alias n tcx lv rv g)"
proof (induction n arbitrary: lv rv g)
  case (Suc n)
  have step: "mf1 h ((\<lambda>(k, f) g. rbind (mop_like_field lv k f g) (\<lambda>(lf, g). mop_merge_alias n tcx lf f g)) x h)" for x h
    by (cases x) (auto intro!: mf2_bind mframes Suc.IH split: prod.splits)
  show ?case
    unfolding mop_merge_alias.simps Let_def
    by (rule mf_bind_any, rule mf_bind_any, rule mf_weaken [OF mop_frame_updates(1)], rule mf1_rfold, rule step)
qed simp

lemma mop_merge_alias_top_mf [mframes]: "mf1 g (mop_merge_alias_top tcx lv rv g)"
  unfolding mop_merge_alias_top_def by (rule mframes)

lemma mop_left_fields_mf [mframes]: "mf2 g (mop_left_fields ra li ks (lv, g))"
proof (induction ks arbitrary: lv g)
  case (Cons k ks)
  show ?case
    unfolding mop_left_fields.simps
    by (rule mf_bind_any, rule mf1_bind) (auto intro!: mf_bind_any mframes Cons.IH)
qed simp

lemma mop_right_fields_mf [mframes]: "mf2 g (mop_right_fields ra ks (ri, rv, g))"
proof (induction ks arbitrary: ri rv g)
  case (Cons k ks)
  show ?case
    unfolding mop_right_fields.simps Let_def
    by (rule mf_bind_any, rule mf_bind_any, rule mf_bind_any, rule mf1_bind)
       (auto intro!: mf_bind_any mframes Cons.IH)
qed simp

lemma mop_merge_mf [mframes]: "mf1 g (mop_merge tcx ra vec g)"
  unfolding mop_merge_def Let_def by (auto intro!: mf2_bind mframes split: prod.splits)

lemma mop_alias_assign_mf [mframes]: "mf1 g (mop_alias_assign tcx a g)"
  unfolding mop_alias_assign_def
  by (rule mf2_bind [OF mop_projection_mf], simp only: split_def, rule mf2_bind [OF mop_projection_mf])
     (auto intro!: mf_bind_any mframes)

lemma mop_alias_bb_mf [mframes]: "mf1 g (mop_alias_bb tcx i g)"
  unfolding mop_alias_bb_def Let_def
  by (rule mf_bind_any, rule mf_weaken [OF mop_frame_updates(2)], rule mf1_rfold, rule mframes)

lemma mop_call_arg_mf: "mf3 (snd (snd s)) (mop_call_arg tcx arg s)"
proof -
  obtain vec flag g where s: "s = (vec, flag, g)" by (cases s)
  have "mf3 g (rbind (mop_projection tcx True p g) (\<lambda>(rv, g).
           rbind (at (m_values g) rv) (\<lambda>v.
           Inr (vec @ [rv], if v_may_drop v then flag + 1 else flag, g))))" for p
    by (rule mf2_bind [OF mop_projection_mf]) (auto intro!: mf_bind_any split: prod.splits)
  then show ?thesis by (simp add: mop_call_arg_def s Let_def split: operand.splits)
qed

lemma mop_call_args_mf: "mf3 g (rfold (mop_call_arg tcx) args (vec, fl, g))"
  using mf_rfold [of "\<lambda>x. snd (snd x)", OF mop_call_arg_mf, of "(vec, fl, g)"] by simp

lemma mop_apply_summary_mf [mframes]: "mf1 g (mop_apply_summary tcx f vec g)"
  unfolding mop_apply_summary_def by (rule mf1_rfold) (simp add: mframes)

lemma mop_switch_mf [mframes]: "mf3 g (mop_switch tcx b g)"
proof -
  have "mf3 g (rbind (mop_projection tcx False p g) (\<lambda>(i, g).
                 rbind (at (m_values g) i) (\<lambda>v.
                 Inr (case m_disc_map g (v_local v) of
                        None \<Rightarrow> (None, None, g)
                      | Some father \<Rightarrow>
                          ((case m_constant g father of
                              Some c \<Rightarrow> if c \<noteq> usize_MAX then Some (sw_pick targets c) else None
                            | None \<Rightarrow> None),
                           if v_local v = i then Some (father, targets) else None, g)))))" for p targets
    by (rule mf2_bind [OF mop_projection_mf]) (auto intro!: mf_bind_any split: prod.splits option.splits)
  then show ?thesis
    by (auto simp: mop_switch_def Let_def split: list.splits term_kind.splits operand.splits)
qed

lemma mop_scc_order_mf [mframes]: "mf (\<lambda>x. fst x) (fst st) (mop_scc_order n tcx scc root path dm idx st)"
proof (induction n arbitrary: path dm idx st)
  case (Suc n)
  let ?F = "mop_scc_order n tcx scc root"
  note loop = mf_rfold [where pr = "\<lambda>x :: mop_graph \<times> nat list list. fst x"]
  have loop2: "mf (\<lambda>x. fst x) h (rfold f xs (h, a))"
    if "\<And>x s. mf (\<lambda>x :: mop_graph \<times> nat list list. fst x) (fst s) (f x s)" for f xs h a
    using loop [of f "(h, a)" xs] that by simp
  have sw: "mf (\<lambda>x. fst x) (fst st) (mop_scc_switch ?F tcx path dm p targets st)" for p targets
    unfolding mop_scc_switch_def Let_def split_def
    by (rule mf2_bind [OF mop_projection_mf], rule mf_bind_any, rule mf_bind [where pr = "\<lambda>x. fst x", OF loop2])
       (auto intro!: Suc.IH split: prod.splits)
  have succs: "mf fst (fst st) (rbind (at (m_blocks (fst st)) idx) (\<lambda>b.
      rfold (\<lambda>t st. if t \<notin> set scc \<and> t \<noteq> root then Inr st
            else ?F (if t \<noteq> root then path @ [t] else path) dm t st) (set_order tcx (b_next b)) st))"
    by (rule mf_bind_any, rule loop) (simp add: Suc.IH)
  show ?case
    unfolding mop_scc_order.simps mop_scc_step_def
    using sw succs
    by (cases "idx = root \<and> path \<noteq> []")
       (auto intro!: mf_bind_any [where m = "at (m_terms _) _"] split: term_kind.split operand.split)
qed simp

subsection \<open>The summary of a path\<close>

definition mop_grows :: "mop_graph \<Rightarrow> mop_graph \<Rightarrow> bool" where
  "mop_grows g h \<longleftrightarrow> mop_static h = mop_static g \<and> m_visit_times g \<le> m_visit_times h \<and>
     set (fra_alias_set (m_ret_alias g)) \<subseteq> set (fra_alias_set (m_ret_alias h))"

lemma mop_grows_refl [simp]: "mop_grows g g"
  by (simp add: mop_grows_def)

lemma mop_grows_trans: "mop_grows g h \<Longrightarrow> mop_grows h k \<Longrightarrow> mop_grows g k"
  by (auto simp: mop_grows_def)

lemma mop_frame_grows: "mop_frame g h \<Longrightarrow> mop_grows g h"
  by (simp add: mop_frame_def mop_grows_def)

lemma mop_grows_restore [simp]: "mop_grows g (mop_restore k h) \<longleftrightarrow> mop_grows g h"
  "mop_grows g (h\<lparr>m_values := vs, m_constant := c\<rparr>) \<longleftrightarrow> mop_grows g h"
  "mop_grows (g\<lparr>m_constant := c\<rparr>) h \<longleftrightarrow> mop_grows g h"
  by (simp_all add: mop_grows_def mop_static_def mop_restore_def)

lemma mop_merge_node_grows: "safe (mop_grows g) (mop_merge_node rs node g)"
proof -
  have add: "mop_grows g (h\<lparr>m_ret_alias := add_alias a (m_ret_alias h)\<rparr>)" if "mop_grows g h" for a h
    using that by (auto simp: mop_grows_def mop_static_def add_alias_def)
  have step: "safe (mop_grows g) (rbind (union_is_same (m_alias_set h) idx (v_index node)) (\<lambda>same.
        if \<not> same then Inr h
        else rbind (at rs idx) (\<lambda>other.
        if v_local other \<le> m_arg_size h \<and> idx \<noteq> v_index node \<and> v_local node \<noteq> v_local other
        then rbind (mop_pair_alias h node other) (\<lambda>a.
             Inr (h\<lparr>m_ret_alias := add_alias a (m_ret_alias h)\<rparr>))
        else Inr h)))" if "mop_grows g h" for idx h
    by (intro safe_bind_any) (simp add: that, intro impI safe_bind_any, simp add: that, intro impI safe_bind_any,
        simp add: add that)
  show ?thesis
    unfolding mop_merge_node_def
    by (simp, intro impI safe_bind_any) (simp, intro impI safe_rfold step, simp)
qed

lemma mop_merge_results_grows: "safe (mop_grows g) (mop_merge_results g)"
  unfolding mop_merge_results_def
  by (rule safe_rfold) (auto intro: safe_mono [OF mop_merge_node_grows] mop_grows_trans)

subsection \<open>The contract of a nested call\<close>

definition mop_adv :: "mop_state \<Rightarrow> mop_state \<Rightarrow> bool" where
  "mop_adv s t \<longleftrightarrow> mop_grows (fst s) (fst t) \<and> fst (snd s) \<subseteq>\<^sub>m fst (snd t) \<and> snd (snd t) = snd (snd s)"

lemma mop_adv_refl [simp]: "mop_adv s s"
  by (simp add: mop_adv_def)

lemma mop_adv_trans: "mop_adv s t \<Longrightarrow> mop_adv t u \<Longrightarrow> mop_adv s u"
  by (auto simp: mop_adv_def intro: mop_grows_trans map_le_trans)

lemma safe_mop_adv: "safe (mop_adv t) m \<Longrightarrow> mop_adv s t \<Longrightarrow> safe (mop_adv s) m"
  by (auto elim!: safe_mono intro: mop_adv_trans)

lemma mf_adv_bind:
  assumes "mf pr g m" "\<And>x. mop_frame g (pr x) \<Longrightarrow> safe (mop_adv (g, fm, rs)) (f x)"
  shows "safe (mop_adv (g, fm, rs)) (rbind m f)"
  using assms by (cases m) (auto simp: mf_def safe_def)

lemma mop_frame_adv: "mop_frame g h \<Longrightarrow> mop_adv (g, fm, rs) (h, fm, rs)"
  by (simp add: mop_adv_def mop_frame_grows)

locale mop_nested =
  fixes analyse :: "def_id \<Rightarrow> fn_map \<Rightarrow> def_id set \<Rightarrow> (fn_ret_alias \<times> fn_map \<times> def_id set) res"
    and F :: "nat \<Rightarrow> mop_state \<Rightarrow> mop_state res"
  assumes analyse_adv: "safe (\<lambda>(ret, fm', rs'). fm \<subseteq>\<^sub>m fm' \<and> rs' = rs) (analyse d fm rs)"
    and F_adv: "safe (mop_adv s) (F i s)"
begin

lemma callee_adv: "safe (mop_adv s) (mop_alias_callee analyse tcx target lv vec s)"
proof -
  obtain g fm rs where s: "s = (g, fm, rs)" by (cases s)
  have known: "safe (mop_adv s) (rbind (mop_apply_summary tcx f vec g) (\<lambda>g. Inr (g, fm, rs)))" for f
    unfolding s by (rule mf_adv_bind [OF mop_apply_summary_mf]) (simp add: mop_frame_adv)
  have new: "safe (mop_adv s) (rbind (analyse target fm (insert target rs)) (\<lambda>(ret, fm, rs).
      rbind (mop_apply_summary tcx ret vec g) (\<lambda>g. Inr (g, fm(target \<mapsto> ret), rs - {target}))))"
    if n: "fm target = None" "target \<notin> rs"
  proof (rule safe_rbindI [OF analyse_adv], clarify)
    fix ret fm' assume le: "fm \<subseteq>\<^sub>m fm'"
    have "mop_adv s (h, fm'(target \<mapsto> ret), insert target rs - {target})" if "mop_frame g h" for h
      using that n le by (auto simp: s mop_adv_def mop_frame_grows map_le_def dom_def)
    then show "safe (mop_adv s) (rbind (mop_apply_summary tcx ret vec g) (\<lambda>g.
        Inr (g, fm'(target \<mapsto> ret), insert target rs - {target})))"
      unfolding s by (intro mf_adv_bind [OF mop_apply_summary_mf]) simp
  qed
  have unknown: "safe (mop_adv s) (rbind (mop_merge_alias_top tcx lv rv g) (\<lambda>g. Inr (g, fm, rs)))" for rv
    unfolding s by (rule mf_adv_bind [OF mop_merge_alias_top_mf]) (simp add: mop_frame_adv)
  show ?thesis
    using known new unknown
    by (auto simp: mop_alias_callee_def s intro!: safe_bind_any [where m = "at _ _"]
        safe_bind_any [where m = "mop_right_set _ _ _"] split: option.splits list.splits)
qed

lemma call_adv: "safe (mop_adv s) (mop_alias_call analyse tcx call s)"
proof -
  obtain g fm rs where s: "s = (g, fm, rs)" by (cases s)
  have tail: "safe (mop_adv s) (rbind (rfold (mop_call_arg tcx) args (vec, fl, h)) (\<lambda>(merge_vec, flag, g).
         case t of
           Ty_FnDef target _ \<Rightarrow>
             if flag > 0 then mop_alias_callee analyse tcx target lv merge_vec (g, fm, rs) else Inr (g, fm, rs)
         | _ \<Rightarrow> Inr (g, fm, rs)))" if h: "mop_frame g h" for args vec fl h lv t
  proof (rule safe_mop_adv [OF mf_adv_bind [OF mop_call_args_mf]])
    fix x :: "nat list \<times> nat \<times> mop_graph" assume f: "mop_frame h (snd (snd x))"
    obtain v fg k where x: "x = (v, fg, k)" by (cases x)
    have a: "mop_adv (h, fm, rs) (k, fm, rs)" using f x by (simp add: mop_frame_adv)
    show "safe (mop_adv (h, fm, rs)) (case x of (merge_vec, flag, g) \<Rightarrow> case t of
           Ty_FnDef target _ \<Rightarrow>
             if flag > 0 then mop_alias_callee analyse tcx target lv merge_vec (g, fm, rs) else Inr (g, fm, rs)
         | _ \<Rightarrow> Inr (g, fm, rs))"
      using a safe_mop_adv [OF callee_adv a] by (simp add: x split: ty.splits)
  qed (simp add: s h mop_frame_adv)
  have "safe (mop_adv s) (rbind (mop_projection tcx False dest g) (\<lambda>(lv, g).
         rbind (at (m_values g) lv) (\<lambda>l.
         rbind (rfold (mop_call_arg tcx) args ([lv], if v_may_drop l then 1 else 0, g)) (\<lambda>(merge_vec, flag, g).
         case t of
           Ty_FnDef target _ \<Rightarrow>
             if flag > 0 then mop_alias_callee analyse tcx target lv merge_vec (g, fm, rs) else Inr (g, fm, rs)
         | _ \<Rightarrow> Inr (g, fm, rs)))))" for dest args t
    unfolding s
  proof (rule mf_adv_bind [OF mop_projection_mf])
    fix x :: "nat \<times> mop_graph" assume f: "mop_frame g (snd x)"
    obtain lv h where x: "x = (lv, h)" by (cases x)
    with f have h: "mop_frame g h" by simp
    show "safe (mop_adv (g, fm, rs)) (case x of (lv, g) \<Rightarrow> rbind (at (m_values g) lv) (\<lambda>l.
         rbind (rfold (mop_call_arg tcx) args ([lv], if v_may_drop l then 1 else 0, g)) (\<lambda>(merge_vec, flag, g).
         case t of
           Ty_FnDef target _ \<Rightarrow>
             if flag > 0 then mop_alias_callee analyse tcx target lv merge_vec (g, fm, rs) else Inr (g, fm, rs)
         | _ \<Rightarrow> Inr (g, fm, rs))))"
      unfolding x prod.case by (rule safe_bind_any, rule tail [OF h, unfolded s])
  qed
  then show ?thesis by (auto simp: mop_alias_call_def s split: term_kind.splits operand.splits)
qed

lemma loop_adv:
  assumes "\<And>x s. safe (mop_adv s) (f x s)"
  shows "safe (mop_adv s) (rfold f xs s)"
  by (rule safe_rfold, rule mop_adv_refl) (rule safe_mop_adv [OF assms])

lemma bbcall_adv: "safe (mop_adv s) (mop_alias_bbcall analyse tcx i s)"
  unfolding mop_alias_bbcall_def by (rule safe_bind_any, rule loop_adv, rule call_adv)

lemma visit_adv: "safe (mop_adv s) (mop_visit analyse tcx i s)"
proof -
  obtain g fm rs where s: "s = (g, fm, rs)" by (cases s)
  show ?thesis
    unfolding s mop_visit_def prod.case
    by (rule mf_adv_bind [OF mop_alias_bb_mf]) (rule safe_mop_adv [OF bbcall_adv mop_frame_adv])
qed

lemma split_adv:
  "safe (mop_adv s) (mop_split_check F i s)" "safe (mop_adv s) (mop_split_check_with_cond F i d v s)"
proof -
  obtain g fm rs where s: "s = (g, fm, rs)" by (cases s)
  show "safe (mop_adv s) (mop_split_check F i s)"
    unfolding s mop_split_check_def prod.case
    by (rule safe_rbindI [OF F_adv]) (auto simp: mop_adv_def)
  show "safe (mop_adv s) (mop_split_check_with_cond F i d v s)"
    unfolding s mop_split_check_with_cond_def prod.case
    by (rule safe_rbindI [OF F_adv]) (auto simp: mop_adv_def)
qed

lemma guarded_adv:
  "safe (mop_adv s) (mop_guarded (mop_split_check F i) s)"
  "safe (mop_adv s) (mop_guarded (mop_split_check_with_cond F i d v) s)"
  using split_adv by (simp_all add: mop_guarded_def)

lemma enum_target_adv: "safe (mop_adv s) (mop_enum_target analyse F tcx bb i child e s)"
proof -
  obtain g fm rs where s: "s = (g, fm, rs)" by (cases s)
  show ?thesis
    unfolding s mop_enum_target_def prod.case
    by (rule safe_bind_any, rule safe_rbindI [OF loop_adv [OF visit_adv]],
        rule safe_rbindI [OF safe_mop_adv [OF loop_adv [OF F_adv]]], assumption)
       (auto simp: mop_adv_def)
qed

lemma branch_adv: "safe (mop_adv s) (mop_branch F tcx cur s)"
proof -
  obtain g fm rs where s: "s = (g, fm, rs)" by (cases s)
  have cond: "safe (mop_adv s) (rbind
      (rfold (\<lambda>(val, tgt). mop_guarded (mop_split_check_with_cond F tgt d (as_usize val))) xs s)
      (mop_split_check_with_cond F i d v))" for d xs i v s
    by (rule safe_rbindI [OF loop_adv]) (auto intro: guarded_adv safe_mop_adv [OF split_adv(2)] split: prod.splits)
  have all: "safe (mop_adv s) (rfold (\<lambda>i. mop_guarded (mop_split_check F i)) xs s)" for xs s
    by (rule loop_adv, rule guarded_adv)
  show ?thesis
    unfolding s mop_branch_def prod.case
  proof (rule mf_adv_bind [OF mop_switch_mf])
    fix x :: "nat option \<times> (nat \<times> switch_targets) option \<times> mop_graph" assume f: "mop_frame g (snd (snd x))"
    obtain single split h where x: "x = (single, split, h)" by (cases x)
    have a: "mop_adv (g, fm, rs) (h, fm, rs)" using f x by (simp add: mop_frame_adv)
    show "safe (mop_adv (g, fm, rs)) (case x of (single, split, g) \<Rightarrow>
      case single of Some tgt \<Rightarrow> F tgt (g, fm, rs)
      | None \<Rightarrow> (case split of
            Some (discr_id, targets) \<Rightarrow>
              rbind (rfold (\<lambda>(val, tgt). mop_guarded (mop_split_check_with_cond F tgt discr_id (as_usize val)))
                     (sw_values targets) (g, fm, rs))
                (mop_split_check_with_cond F (sw_otherwise targets) discr_id usize_MAX)
          | None \<Rightarrow> rfold (\<lambda>i. mop_guarded (mop_split_check F i)) (set_order tcx (b_next cur)) (g, fm, rs)))"
      using safe_mop_adv [OF F_adv a] safe_mop_adv [OF cond a] safe_mop_adv [OF all a]
      by (simp add: x split: option.splits prod.splits)
  qed
qed

lemma order_round_adv:
  assumes "mop_adv s0 s"
  shows "safe (\<lambda>(b, s). mop_adv s0 s) (mop_order_round analyse F tcx cur s0 each s)"
proof -
  obtain g0 fm0 rs0 g fm rs where s: "s0 = (g0, fm0, rs0)" "s = (g, fm, rs)" by (cases s0; cases s)
  have a: "mop_adv s0 (mop_restore g0 g, fm0, rs0)" using assms by (auto simp: s mop_adv_def)
  have "safe (mop_adv s0) (rfold (mop_visit analyse tcx) each (mop_restore g0 g, fm0, rs0))"
    by (rule safe_mop_adv [OF loop_adv [OF visit_adv] a])
  then show ?thesis
    unfolding s mop_order_round_def prod.case
  proof (rule safe_rbindI)
    fix x assume x: "mop_adv (g0, fm0, rs0) x"
    obtain h fm' rs' where xe: "x = (h, fm', rs')" by (cases x)
    have merge: "safe (\<lambda>(b, s). mop_adv (g0, fm0, rs0) s) (rbind (mop_merge_results h) (\<lambda>g. Inr (True, g, fm', rs')))"
      by (rule safe_rbindI [OF mop_merge_results_grows]) (use x xe mop_grows_trans in \<open>auto simp: mop_adv_def\<close>)
    have "safe (\<lambda>(b, s). mop_adv (g0, fm0, rs0) s) (rbind (F i x) (\<lambda>s. Inr (True, s)))" for i
      by (rule safe_rbindI [OF safe_mop_adv [OF F_adv x]]) simp
    moreover have "safe (\<lambda>(b, s). mop_adv (g0, fm0, rs0) s) (rbind (mop_branch F tcx cur x) (\<lambda>s. Inr (False, s)))"
      by (rule safe_rbindI [OF safe_mop_adv [OF branch_adv x]]) simp
    ultimately show "safe (\<lambda>(b, s). mop_adv (g0, fm0, rs0) s) (case x of (g, fm, rs) \<Rightarrow>
       case b_next cur of [] \<Rightarrow> rbind (mop_merge_results g) (\<lambda>g. Inr (True, g, fm, rs))
       | [next] \<Rightarrow> rbind (F next (g, fm, rs)) (\<lambda>st. Inr (True, st))
       | _ \<Rightarrow> rbind (mop_branch F tcx cur (g, fm, rs)) (\<lambda>st. Inr (False, st)))"
      using merge by (simp add: xe split: list.splits)
  qed
qed

lemma orders_adv:
  assumes "mop_adv s0 s"
  shows "safe (\<lambda>(b, s). mop_adv s0 s) (rany (mop_order_round analyse F tcx cur s0) order s)"
  using assms by (rule safe_rany) (rule order_round_adv)

lemma calculate_mf: "mf fst g (mop_calculate_scc_order tcx scc bb g)"
  unfolding mop_calculate_scc_order_def using mop_scc_order_mf [of "(g, [[]])"] by (simp del: mop_scc_order.simps)

lemma body_adv: "safe (mop_adv s) (mop_check_body analyse F fast tcx bb s)"
  unfolding mop_check_body_def
proof (rule safe_bind_any, rule safe_bind_any, rule safe_rbindI [OF visit_adv], clarify)
  fix i cur g fm rs assume a: "mop_adv s (g, fm, rs)"
  have children: "safe (mop_adv s) (rfold (mop_enum_target analyse F tcx bb i child) xs (g, fm, rs))" for child xs
    by (rule safe_mop_adv [OF loop_adv [OF enum_target_adv] a])
  have rounds: "safe (mop_adv (g, fm, rs)) (case x of (g, order) \<Rightarrow>
      rbind (rany (mop_order_round analyse F tcx cur (g, fm, rs)) order (g, fm, rs)) (\<lambda>(_, st). Inr st))"
    if "mop_frame g (fst x)" for x
  proof -
    obtain h order where x: "x = (h, order)" by (cases x)
    have "mop_adv (g, fm, rs) (h, fm, rs)" using that x by (simp add: mop_frame_adv)
    then have "safe (mop_adv (g, fm, rs))
        (rbind (rany (mop_order_round analyse F tcx cur (h, fm, rs)) order (h, fm, rs)) (\<lambda>(_, st). Inr st))"
      by (intro safe_rbindI [OF orders_adv [OF mop_adv_refl]]) (auto intro: mop_adv_trans)
    with x show ?thesis by simp
  qed
  have ord: "mf fst g (if b_scc_sub_blocks cur = [] then Inr (g, [[]])
                else if fast then Inr (g, [[], b_scc_sub_blocks cur])
                else mop_calculate_scc_order tcx (b_scc_sub_blocks cur) bb g)"
    by (simp add: calculate_mf)
  show "safe (mop_adv s) (case m_child_scc g i of
       Some child \<Rightarrow> rfold (mop_enum_target analyse F tcx bb i child) (all_targets (fst (snd child))) (g, fm, rs)
     | None \<Rightarrow>
         rbind (if b_scc_sub_blocks cur = [] then Inr (g, [[]])
                else if fast then Inr (g, [[], b_scc_sub_blocks cur])
                else mop_calculate_scc_order tcx (b_scc_sub_blocks cur) bb g) (\<lambda>(g, order).
         rbind (rany (mop_order_round analyse F tcx cur (g, fm, rs)) order (g, fm, rs)) (\<lambda>(_, st). Inr st)))"
  proof (cases "m_child_scc g i")
    case None
    show ?thesis unfolding None option.case by (rule safe_mop_adv [OF mf_adv_bind [OF ord rounds] a])
  qed (simp only: option.case children)
qed

end

definition mop_analyse :: "nat \<Rightarrow> bool \<Rightarrow> tcx \<Rightarrow> def_id \<Rightarrow> fn_map \<Rightarrow> def_id set \<Rightarrow>
    (fn_ret_alias \<times> fn_map \<times> def_id set) res" where
  "mop_analyse n fast tcx d fm rs =
     rbind (mop_new tcx d) (\<lambda>g. rbind (mop_solve_scc tcx g) (\<lambda>g.
     rbind (mop_check n fast tcx 0 (g, fm, rs)) (\<lambda>(g, fm, rs). Inr (m_ret_alias g, fm, rs))))"

lemma mop_check_Suc:
  "mop_check (Suc n) fast tcx bb s =
     (let g = fst s; g1 = g\<lparr>m_visit_times := m_visit_times g + 1\<rparr> in
      if m_visit_times g \<ge> mop_VISIT_LIMIT then Inr (g1, snd s)
      else mop_check_body (mop_analyse n fast tcx) (mop_check n fast tcx) fast tcx bb (g1, snd s))"
  by (cases s) (simp add: Let_def less_Suc_eq_le mop_analyse_def [abs_def])

declare mop_check.simps(2) [simp del]

lemma mop_check_nested: "mop_nested (mop_analyse n fast tcx) (mop_check n fast tcx)"
proof (induction n)
  case 0
  show ?case
  proof (unfold_locales)
    fix fm rs d show "safe (\<lambda>(ret, fm', rs'). fm \<subseteq>\<^sub>m fm' \<and> rs' = rs) (mop_analyse 0 fast tcx d fm rs)"
      unfolding mop_analyse_def by (rule safe_bind_any, rule safe_bind_any) simp
  qed simp
next
  case (Suc n)
  have adv: "safe (mop_adv s) (mop_check (Suc n) fast tcx i s)" for s i
  proof -
    obtain g fm rs where s: "s = (g, fm, rs)" by (cases s)
    have "mop_adv s (g\<lparr>m_visit_times := m_visit_times g + 1\<rparr>, fm, rs)"
      by (simp add: s mop_adv_def mop_grows_def mop_static_def)
    then show ?thesis
      using safe_mop_adv [OF mop_nested.body_adv [OF Suc]] by (simp add: mop_check_Suc s Let_def)
  qed
  show ?case
  proof (unfold_locales)
    fix fm rs d show "safe (\<lambda>(ret, fm', rs'). fm \<subseteq>\<^sub>m fm' \<and> rs' = rs) (mop_analyse (Suc n) fast tcx d fm rs)"
      unfolding mop_analyse_def
      by (rule safe_bind_any, rule safe_bind_any, rule safe_rbindI [OF adv]) (auto simp: mop_adv_def)
  qed (rule adv)
qed

interpretation mopc: mop_nested "mop_analyse n fast tcx" "mop_check n fast tcx" for n fast tcx
  by (rule mop_check_nested)

subsection \<open>Enough fuel\<close>

text \<open>
  Two nested calls that agree on the states a call of \<open>check\<close> can reach: visit counts from \<open>t\<close> on, and
  the functions \<open>r0\<close> under analysis; callees are analysed with one function more.
\<close>

locale mop_agree = mop_nested A' G
  for A' :: "def_id \<Rightarrow> fn_map \<Rightarrow> def_id set \<Rightarrow> (fn_ret_alias \<times> fn_map \<times> def_id set) res"
    and G :: "nat \<Rightarrow> mop_state \<Rightarrow> mop_state res" +
  fixes A :: "def_id \<Rightarrow> fn_map \<Rightarrow> def_id set \<Rightarrow> (fn_ret_alias \<times> fn_map \<times> def_id set) res"
    and F :: "nat \<Rightarrow> mop_state \<Rightarrow> mop_state res"
    and tcx :: tcx and t :: nat and r0 :: "def_id set"
  assumes A_eq: "mir_available tcx d \<Longrightarrow> d \<notin> r0 \<Longrightarrow> A d fm (insert d r0) = A' d fm (insert d r0)"
    and F_eq: "t \<le> m_visit_times (fst s) \<Longrightarrow> snd (snd s) = r0 \<Longrightarrow> F i s = G i s"
begin

definition P :: "mop_state \<Rightarrow> bool" where
  "P s \<longleftrightarrow> t \<le> m_visit_times (fst s) \<and> snd (snd s) = r0"

lemma P_adv: "mop_adv s u \<Longrightarrow> P s \<Longrightarrow> P u"
  by (auto simp: P_def mop_adv_def mop_grows_def)

lemma safe_P: "safe (mop_adv s) m \<Longrightarrow> P s \<Longrightarrow> safe P m"
  by (auto elim!: safe_mono intro: P_adv)

lemma F_eq_P: "P s \<Longrightarrow> F i s = G i s"
  by (simp add: P_def F_eq)

lemma P_frame: "mop_frame g h \<Longrightarrow> P (g, fm, rs) \<Longrightarrow> P (h, fm, rs)"
  by (simp add: P_def mop_frame_def)

lemma mf_frame: "mf pr g m \<Longrightarrow> m = Inr x \<Longrightarrow> mop_frame g (pr x)"
  by simp

lemma loop_eq:
  assumes "\<And>x s. P s \<Longrightarrow> f x s = g x s" "\<And>x s. safe (mop_adv s) (g x s)" "P s"
  shows "rfold f xs s = rfold g xs s"
  using assms(3) by (rule rfold_inv_cong) (use assms(1) safe_P [OF assms(2)] in auto)

lemma callee_eq: "P s \<Longrightarrow> mop_alias_callee A tcx d lv vec s = mop_alias_callee A' tcx d lv vec s"
  by (cases s) (auto simp: mop_alias_callee_def P_def A_eq split: option.splits)

lemma call_eq: "P s \<Longrightarrow> mop_alias_call A tcx call s = mop_alias_call A' tcx call s"
proof -
  assume P: "P s"
  obtain g fm rs where s: "s = (g, fm, rs)" by (cases s)
  have tail: "rbind (rfold (mop_call_arg tcx) args (vec, fl, h)) (\<lambda>(merge_vec, flag, g).
         case ct of
           Ty_FnDef target _ \<Rightarrow>
             if flag > 0 then mop_alias_callee A tcx target lv merge_vec (g, fm, rs) else Inr (g, fm, rs)
         | _ \<Rightarrow> Inr (g, fm, rs)) =
       rbind (rfold (mop_call_arg tcx) args (vec, fl, h)) (\<lambda>(merge_vec, flag, g).
         case ct of
           Ty_FnDef target _ \<Rightarrow>
             if flag > 0 then mop_alias_callee A' tcx target lv merge_vec (g, fm, rs) else Inr (g, fm, rs)
         | _ \<Rightarrow> Inr (g, fm, rs))" if "P (h, fm, rs)" for args vec fl h lv ct
  proof (intro rbind_cong refl)
    fix x assume "rfold (mop_call_arg tcx) args (vec, fl, h) = Inr x"
    then have "mop_frame h (snd (snd x))" using mop_call_args_mf by (rule mf_frame [rotated])
    then have "P (snd (snd x), fm, rs)" using that by (rule P_frame)
    then show "(case x of (merge_vec, flag, g) \<Rightarrow> case ct of
           Ty_FnDef target _ \<Rightarrow>
             if flag > 0 then mop_alias_callee A tcx target lv merge_vec (g, fm, rs) else Inr (g, fm, rs)
         | _ \<Rightarrow> Inr (g, fm, rs)) =
       (case x of (merge_vec, flag, g) \<Rightarrow> case ct of
           Ty_FnDef target _ \<Rightarrow>
             if flag > 0 then mop_alias_callee A' tcx target lv merge_vec (g, fm, rs) else Inr (g, fm, rs)
         | _ \<Rightarrow> Inr (g, fm, rs))"
      by (auto simp: callee_eq split: prod.splits ty.splits)
  qed
  have Ph: "P (h, fm, rs)" if "mop_projection tcx False dest g = Inr (lv, h)" for dest lv h
    using mf_frame [OF mop_projection_mf that] P_frame P s by simp
  have "rbind (mop_projection tcx False dest g) (\<lambda>(lv, g).
         rbind (at (m_values g) lv) (\<lambda>l.
         rbind (rfold (mop_call_arg tcx) args ([lv], if v_may_drop l then 1 else 0, g)) (\<lambda>(merge_vec, flag, g).
         case ct of
           Ty_FnDef target _ \<Rightarrow>
             if flag > 0 then mop_alias_callee A tcx target lv merge_vec (g, fm, rs) else Inr (g, fm, rs)
         | _ \<Rightarrow> Inr (g, fm, rs)))) =
       rbind (mop_projection tcx False dest g) (\<lambda>(lv, g).
         rbind (at (m_values g) lv) (\<lambda>l.
         rbind (rfold (mop_call_arg tcx) args ([lv], if v_may_drop l then 1 else 0, g)) (\<lambda>(merge_vec, flag, g).
         case ct of
           Ty_FnDef target _ \<Rightarrow>
             if flag > 0 then mop_alias_callee A' tcx target lv merge_vec (g, fm, rs) else Inr (g, fm, rs)
         | _ \<Rightarrow> Inr (g, fm, rs))))" for dest args ct
  proof (rule rbind_cong [OF refl], clarify)
    fix lv h assume "mop_projection tcx False dest g = Inr (lv, h)"
    then show "rbind (at (m_values h) lv) (\<lambda>l.
         rbind (rfold (mop_call_arg tcx) args ([lv], if v_may_drop l then 1 else 0, h)) (\<lambda>(merge_vec, flag, g).
         case ct of
           Ty_FnDef target _ \<Rightarrow>
             if flag > 0 then mop_alias_callee A tcx target lv merge_vec (g, fm, rs) else Inr (g, fm, rs)
         | _ \<Rightarrow> Inr (g, fm, rs))) =
       rbind (at (m_values h) lv) (\<lambda>l.
         rbind (rfold (mop_call_arg tcx) args ([lv], if v_may_drop l then 1 else 0, h)) (\<lambda>(merge_vec, flag, g).
         case ct of
           Ty_FnDef target _ \<Rightarrow>
             if flag > 0 then mop_alias_callee A' tcx target lv merge_vec (g, fm, rs) else Inr (g, fm, rs)
         | _ \<Rightarrow> Inr (g, fm, rs)))"
      by (intro rbind_cong [OF refl] tail Ph)
  qed
  then show ?thesis
    by (auto simp: mop_alias_call_def s split: term_kind.splits operand.splits)
qed

lemma visit_eq: "P s \<Longrightarrow> mop_visit A tcx i s = mop_visit A' tcx i s"
proof -
  assume P: "P s"
  obtain g fm rs where s: "s = (g, fm, rs)" by (cases s)
  have "mop_alias_bbcall A tcx i u = mop_alias_bbcall A' tcx i u" if "P u" for u
    unfolding mop_alias_bbcall_def by (intro rbind_cong refl loop_eq call_eq call_adv that)
  moreover have "P (h, fm, rs)" if "mop_alias_bb tcx i g = Inr h" for h
    using mf_frame [OF mop_alias_bb_mf that] P_frame P s by simp
  ultimately show ?thesis unfolding s mop_visit_def by (auto intro!: rbind_cong)
qed

lemma split_eq:
  "P s \<Longrightarrow> mop_split_check F i s = mop_split_check G i s"
  "P s \<Longrightarrow> mop_split_check_with_cond F i d v s = mop_split_check_with_cond G i d v s"
  by (cases s, simp add: mop_split_check_def F_eq_P)
     (cases s, simp add: mop_split_check_with_cond_def F_eq P_def)

lemma guarded_eq:
  "P s \<Longrightarrow> mop_guarded (mop_split_check F i) s = mop_guarded (mop_split_check G i) s"
  "P s \<Longrightarrow> mop_guarded (mop_split_check_with_cond F i d v) s = mop_guarded (mop_split_check_with_cond G i d v) s"
  by (simp_all add: mop_guarded_def split_eq)

lemma visits_eq: "P s \<Longrightarrow> rfold (mop_visit A tcx) xs s = rfold (mop_visit A' tcx) xs s"
  by (intro loop_eq visit_eq visit_adv)

lemma visits_P: "P s \<Longrightarrow> rfold (mop_visit A' tcx) xs s = Inr u \<Longrightarrow> P u"
  using safe_P [OF loop_adv [where f = "mop_visit A' tcx", OF visit_adv], of s xs] by (simp add: safe_def)

lemma enum_target_eq: "P s \<Longrightarrow> mop_enum_target A F tcx bb i child e s = mop_enum_target A' G tcx bb i child e s"
proof -
  assume P: "P s"
  obtain g fm rs where s: "s = (g, fm, rs)" by (cases s)
  show ?thesis
    using P unfolding s mop_enum_target_def prod.case
    by (simp only: visits_eq) (intro rbind_cong refl loop_eq F_eq_P F_adv, auto intro: visits_P)
qed

lemma branch_eq: "P s \<Longrightarrow> mop_branch F tcx cur s = mop_branch G tcx cur s"
proof -
  assume P: "P s"
  obtain g fm rs where s: "s = (g, fm, rs)" by (cases s)
  let ?cond = "\<lambda>F d (val, tgt). mop_guarded (mop_split_check_with_cond F tgt d (as_usize val))"
  have adv: "safe (mop_adv u) (?cond G d x u)" for d x u by (cases x) (simp add: guarded_adv)
  have eq: "rfold (?cond F d) xs u = rfold (?cond G d) xs u" if "P u" for d xs u
    using that by (rule loop_eq [rotated 2]) (auto simp: guarded_eq adv [unfolded split_def] guarded_adv split: prod.splits)
  have cond: "rbind (rfold (?cond F d) xs u) (mop_split_check_with_cond F i d v) =
      rbind (rfold (?cond G d) xs u) (mop_split_check_with_cond G i d v)" if u: "P u" for d xs i v u
    unfolding eq [OF u]
  proof (intro rbind_cong refl)
    fix w assume "rfold (?cond G d) xs u = Inr w"
    then have "P w" using safe_P [OF loop_adv [where f = "?cond G d", OF adv] u, of xs] by (simp add: safe_def)
    then show "mop_split_check_with_cond F i d v w = mop_split_check_with_cond G i d v w" by (rule split_eq)
  qed
  have all: "rfold (\<lambda>i. mop_guarded (mop_split_check F i)) xs u = rfold (\<lambda>i. mop_guarded (mop_split_check G i)) xs u"
    if "P u" for xs u
    by (intro loop_eq guarded_eq(1) guarded_adv(1) that)
  show ?thesis
    unfolding s mop_branch_def prod.case
  proof (intro rbind_cong refl)
    fix x assume "mop_switch tcx cur g = Inr x"
    then have "P (snd (snd x), fm, rs)" using mf_frame [OF mop_switch_mf] P_frame P s by blast
    then show "(case x of (single, split, g) \<Rightarrow>
      case single of Some tgt \<Rightarrow> F tgt (g, fm, rs)
      | None \<Rightarrow> (case split of
            Some (discr_id, targets) \<Rightarrow>
              rbind (rfold (?cond F discr_id) (sw_values targets) (g, fm, rs))
                (mop_split_check_with_cond F (sw_otherwise targets) discr_id usize_MAX)
          | None \<Rightarrow> rfold (\<lambda>i. mop_guarded (mop_split_check F i)) (set_order tcx (b_next cur)) (g, fm, rs))) =
      (case x of (single, split, g) \<Rightarrow>
      case single of Some tgt \<Rightarrow> G tgt (g, fm, rs)
      | None \<Rightarrow> (case split of
            Some (discr_id, targets) \<Rightarrow>
              rbind (rfold (?cond G discr_id) (sw_values targets) (g, fm, rs))
                (mop_split_check_with_cond G (sw_otherwise targets) discr_id usize_MAX)
          | None \<Rightarrow> rfold (\<lambda>i. mop_guarded (mop_split_check G i)) (set_order tcx (b_next cur)) (g, fm, rs)))"
      by (cases x) (auto simp: F_eq_P cond all split: option.splits)
  qed
qed

lemma order_round_eq:
  assumes "P s0" "mop_adv s0 s"
  shows "mop_order_round A F tcx cur s0 each s = mop_order_round A' G tcx cur s0 each s"
proof -
  obtain g0 fm0 rs0 g fm rs where s: "s0 = (g0, fm0, rs0)" "s = (g, fm, rs)" by (cases s0; cases s)
  have "mop_adv s0 (mop_restore g0 g, fm0, rs0)" using assms(2) by (auto simp: s mop_adv_def)
  then have r: "P (mop_restore g0 g, fm0, rs0)" using assms(1) by (rule P_adv)
  show ?thesis
    unfolding s mop_order_round_def prod.case visits_eq [OF r]
  proof (intro rbind_cong refl)
    fix x assume "rfold (mop_visit A' tcx) each (mop_restore g0 g, fm0, rs0) = Inr x"
    then have "P x" by (rule visits_P [OF r])
    then show "(case x of (g, fm, rs) \<Rightarrow>
       case b_next cur of [] \<Rightarrow> rbind (mop_merge_results g) (\<lambda>g. Inr (True, g, fm, rs))
       | [next] \<Rightarrow> rbind (F next (g, fm, rs)) (\<lambda>st. Inr (True, st))
       | _ \<Rightarrow> rbind (mop_branch F tcx cur (g, fm, rs)) (\<lambda>st. Inr (False, st))) =
      (case x of (g, fm, rs) \<Rightarrow>
       case b_next cur of [] \<Rightarrow> rbind (mop_merge_results g) (\<lambda>g. Inr (True, g, fm, rs))
       | [next] \<Rightarrow> rbind (G next (g, fm, rs)) (\<lambda>st. Inr (True, st))
       | _ \<Rightarrow> rbind (mop_branch G tcx cur (g, fm, rs)) (\<lambda>st. Inr (False, st)))"
      by (auto simp: F_eq_P branch_eq split: list.splits prod.splits)
  qed
qed

lemma body_eq:
  assumes "P s"
  shows "mop_check_body A F fast tcx bb s = mop_check_body A' G fast tcx bb s"
  unfolding mop_check_body_def visit_eq [OF assms]
proof (intro rbind_cong refl)
  fix i cur x assume "mop_visit A' tcx i s = Inr x"
  then have Px: "P x" using safe_P [OF visit_adv assms, of tcx i] by (simp add: safe_def)
  obtain g fm rs where x: "x = (g, fm, rs)" by (cases x)
  have children: "rfold (mop_enum_target A F tcx bb i child) xs x = rfold (mop_enum_target A' G tcx bb i child) xs x"
    for child xs by (intro loop_eq enum_target_eq enum_target_adv Px)
  have rounds: "rany (mop_order_round A F tcx cur (h, fm, rs)) order (h, fm, rs) =
      rany (mop_order_round A' G tcx cur (h, fm, rs)) order (h, fm, rs)" if "mop_frame g h" for h order
  proof (rule rany_inv_cong [where P = "mop_adv (h, fm, rs)", OF mop_adv_refl], intro conjI)
    fix each u assume u: "mop_adv (h, fm, rs) u"
    have "P (h, fm, rs)" using Px x that P_frame by simp
    then show "mop_order_round A F tcx cur (h, fm, rs) each u = mop_order_round A' G tcx cur (h, fm, rs) each u"
      using u by (rule order_round_eq)
    show "safe (\<lambda>(b, s). mop_adv (h, fm, rs) s) (mop_order_round A' G tcx cur (h, fm, rs) each u)"
      using u by (rule order_round_adv)
  qed
  let ?ord = "if b_scc_sub_blocks cur = [] then Inr (g, [[]])
                else if fast then Inr (g, [[], b_scc_sub_blocks cur])
                else mop_calculate_scc_order tcx (b_scc_sub_blocks cur) bb g"
  have ord: "mf fst g ?ord" by (simp add: calculate_mf)
  have "rbind ?ord (\<lambda>(g, order).
         rbind (rany (mop_order_round A F tcx cur (g, fm, rs)) order (g, fm, rs)) (\<lambda>(_, st). Inr st)) =
      rbind ?ord (\<lambda>(g, order).
         rbind (rany (mop_order_round A' G tcx cur (g, fm, rs)) order (g, fm, rs)) (\<lambda>(_, st). Inr st))"
  proof (intro rbind_cong refl)
    fix y assume "?ord = Inr y"
    with ord have "mop_frame g (fst y)" by (rule mf_frame)
    then show "(case y of (g, order) \<Rightarrow>
         rbind (rany (mop_order_round A F tcx cur (g, fm, rs)) order (g, fm, rs)) (\<lambda>(_, st). Inr st)) =
      (case y of (g, order) \<Rightarrow>
         rbind (rany (mop_order_round A' G tcx cur (g, fm, rs)) order (g, fm, rs)) (\<lambda>(_, st). Inr st))"
      by (cases y) (simp add: rounds)
  qed
  with children show "(case x of (g, fm, rs) \<Rightarrow> case m_child_scc g i of
       Some child \<Rightarrow> rfold (mop_enum_target A F tcx bb i child) (all_targets (fst (snd child))) (g, fm, rs)
     | None \<Rightarrow>
         rbind (if b_scc_sub_blocks cur = [] then Inr (g, [[]])
                else if fast then Inr (g, [[], b_scc_sub_blocks cur])
                else mop_calculate_scc_order tcx (b_scc_sub_blocks cur) bb g) (\<lambda>(g, order).
         rbind (rany (mop_order_round A F tcx cur (g, fm, rs)) order (g, fm, rs)) (\<lambda>(_, st). Inr st))) =
    (case x of (g, fm, rs) \<Rightarrow> case m_child_scc g i of
       Some child \<Rightarrow> rfold (mop_enum_target A' G tcx bb i child) (all_targets (fst (snd child))) (g, fm, rs)
     | None \<Rightarrow>
         rbind (if b_scc_sub_blocks cur = [] then Inr (g, [[]])
                else if fast then Inr (g, [[], b_scc_sub_blocks cur])
                else mop_calculate_scc_order tcx (b_scc_sub_blocks cur) bb g) (\<lambda>(g, order).
         rbind (rany (mop_order_round A' G tcx cur (g, fm, rs)) order (g, fm, rs)) (\<lambda>(_, st). Inr st)))"
    unfolding x prod.case by (cases "m_child_scc g i") (simp_all only: option.case)
qed

end

text \<open>
  The rank of a state: what is left of the visit limit, and a full visit limit for each function
  of \<open>U\<close> that is not under analysis.
\<close>

definition mop_rank :: "def_id set \<Rightarrow> mop_state \<Rightarrow> nat" where
  "mop_rank U s = card (U - snd (snd s)) * (mop_VISIT_LIMIT + 1) + (mop_VISIT_LIMIT + 1 - m_visit_times (fst s))"

lemma mop_check_fuel:
  assumes U: "finite U" "\<And>d. mir_available tcx d \<Longrightarrow> d \<in> U"
  shows "mop_rank U s \<le> n \<Longrightarrow> 0 < n \<Longrightarrow> n \<le> m \<Longrightarrow> mop_check n fast tcx bb s = mop_check m fast tcx bb s"
proof (induction n arbitrary: m bb s)
  case (Suc n)
  then obtain m' where m: "m = Suc m'" "n \<le> m'" by (cases m) auto
  obtain g fm rs where s: "s = (g, fm, rs)" by (cases s)
  show ?case
  proof (cases "mop_VISIT_LIMIT \<le> m_visit_times g")
    case False
    let ?s = "(g\<lparr>m_visit_times := m_visit_times g + 1\<rparr>, fm, rs)"
    have pos: "0 < n" using Suc.prems(1) False by (simp add: s mop_rank_def)
    have rec: "mop_check n fast tcx i u = mop_check m' fast tcx i u"
      if "mop_rank U u \<le> n" for i u using Suc.IH [OF that pos m(2)] .
    have callee: "mop_analyse n fast tcx d f (insert d rs) = mop_analyse m' fast tcx d f (insert d rs)"
      if d: "mir_available tcx d" "d \<notin> rs" for d f
    proof -
      have "card (U - insert d rs) < card (U - rs)"
        using U d by (intro psubset_card_mono) auto
      then have c: "Suc (card (U - insert d rs)) * (mop_VISIT_LIMIT + 1) \<le> card (U - rs) * (mop_VISIT_LIMIT + 1)"
        by (intro mult_le_mono1) simp
      have "mop_rank U (h, f', insert d rs) \<le> n" for h f'
        using c Suc.prems(1) False by (simp add: s mop_rank_def)
      then show ?thesis unfolding mop_analyse_def by (simp add: rec)
    qed
    have "mop_agree (mop_analyse m' fast tcx) (mop_check m' fast tcx) (mop_analyse n fast tcx) (mop_check n fast tcx)
        tcx (Suc (m_visit_times g)) rs"
    proof (rule mop_agree.intro [OF mop_check_nested], unfold_locales)
      fix u :: mop_state and i assume u: "Suc (m_visit_times g) \<le> m_visit_times (fst u)" "snd (snd u) = rs"
      have "mop_rank U u \<le> n" using u Suc.prems(1) False by (simp add: s mop_rank_def)
      then show "mop_check n fast tcx i u = mop_check m' fast tcx i u" by (rule rec)
    qed (rule callee)
    then have "mop_check_body (mop_analyse n fast tcx) (mop_check n fast tcx) fast tcx bb ?s =
        mop_check_body (mop_analyse m' fast tcx) (mop_check m' fast tcx) fast tcx bb ?s"
      by (rule mop_agree.body_eq) (simp add: mop_agree.P_def [OF \<open>mop_agree _ _ _ _ _ _ _\<close>])
    with False show ?thesis by (simp add: mop_check_Suc m s Let_def)
  qed (simp add: mop_check_Suc m s)
qed simp

text \<open>Enough for every state of a crate whose functions with MIR are finitely many.\<close>

definition mop_fuel :: "tcx \<Rightarrow> nat" where
  "mop_fuel tcx = card {d. mir_available tcx d} * (mop_VISIT_LIMIT + 1) + (mop_VISIT_LIMIT + 1)"

lemma mop_check_enough:
  assumes "finite {d. mir_available tcx d}" "mop_fuel tcx \<le> n"
  shows "mop_check (mop_fuel tcx) fast tcx bb s = mop_check n fast tcx bb s"
proof (rule mop_check_fuel [OF assms(1) _ _ _ assms(2)])
  have "card ({d. mir_available tcx d} - snd (snd s)) \<le> card {d. mir_available tcx d}"
    using assms(1) by (intro card_mono) auto
  then have "card ({d. mir_available tcx d} - snd (snd s)) * (mop_VISIT_LIMIT + 1) \<le>
      card {d. mir_available tcx d} * (mop_VISIT_LIMIT + 1)" by (rule mult_le_mono1)
  then show "mop_rank {d. mir_available tcx d} s \<le> mop_fuel tcx" by (simp add: mop_rank_def mop_fuel_def)
qed (auto simp: mop_fuel_def)

interpretation mop_enough: mop_agree
  "mop_analyse (mop_fuel tcx + (if finite {d. mir_available tcx d} then k else 0)) fast tcx"
  "mop_check (mop_fuel tcx + (if finite {d. mir_available tcx d} then k else 0)) fast tcx"
  "mop_analyse (mop_fuel tcx) fast tcx" "mop_check (mop_fuel tcx) fast tcx" tcx t r0 for tcx k fast t r0
proof (rule mop_agree.intro [OF mop_check_nested], unfold_locales)
  have eq: "mop_check (mop_fuel tcx) fast tcx i s =
      mop_check (mop_fuel tcx + (if finite {d. mir_available tcx d} then k else 0)) fast tcx i s" for i s
    using mop_check_enough [of tcx "mop_fuel tcx + k"] by simp
  then show "mop_check (mop_fuel tcx) fast tcx i s =
      mop_check (mop_fuel tcx + (if finite {d. mir_available tcx d} then k else 0)) fast tcx i s" for s i .
  show "mop_analyse (mop_fuel tcx) fast tcx d fm (insert d r0) =
      mop_analyse (mop_fuel tcx + (if finite {d. mir_available tcx d} then k else 0)) fast tcx d fm (insert d r0)" for d fm
    unfolding mop_analyse_def eq ..
qed

end
