(* ===== verification/Mop_Summary.thy ===== *)
theory Mop_Summary
  imports Mop_Check_Props
begin

section \<open>MoP alias analysis: the summary of a function\<close>

text \<open>
  What \<open>merge_results\<close> adds to the summary at the end of a path, what \<open>get_field_seq\<close> records of an access
  path, and the properties of the analysis of a crate.
\<close>

subsection \<open>What a path contributes to the summary\<close>

definition mop_wf :: "mop_graph \<Rightarrow> bool" where
  "mop_wf g \<longleftrightarrow> length (m_alias_set g) = length (m_values g) \<and> uf_forest (m_alias_set g) \<and>
     m_arg_size g < length (m_values g) \<and>
     (\<forall>i<length (m_values g). v_index (m_values g ! i) = i \<and> v_father (m_values g ! i) = v_local (m_values g ! i)) \<and>
     (\<forall>i \<le> m_arg_size g. v_field_id (m_values g ! i) = usize_MAX)"

text \<open>The summary entry of two values, the return value on the left.\<close>

definition own_field :: "vnode \<Rightarrow> nat list" where
  "own_field v = (if v_field_id v = usize_MAX then [] else [v_field_id v])"

definition pair_entry :: "vnode \<Rightarrow> vnode \<Rightarrow> ret_alias" where
  "pair_entry v w =
     (let (l, r) = (if v_local w = 0 then (w, v) else (v, w)) in
      \<lparr>left_index = v_local l, left_field_seq = own_field l, left_may_drop = v_may_drop l, left_need_drop = v_need_drop l,
       right_index = v_local r, right_field_seq = own_field r, right_may_drop = v_may_drop r, right_need_drop = v_need_drop r\<rparr>)"

definition interface_pair :: "mop_graph \<Rightarrow> nat \<Rightarrow> nat \<Rightarrow> bool" where
  "interface_pair g i j \<longleftrightarrow> i < length (m_values g) \<and> 1 \<le> j \<and> j < length (m_values g) \<and> i \<noteq> j \<and>
     uf_rep (m_alias_set g) i = uf_rep (m_alias_set g) j \<and>
     v_local (m_values g ! i) \<le> m_arg_size g \<and> v_local (m_values g ! j) \<le> m_arg_size g \<and>
     v_local (m_values g ! i) \<noteq> v_local (m_values g ! j)"

lemma mop_field_seq_loop_ret: "mop_field_seq_loop n (g\<lparr>m_ret_alias := r\<rparr>) v w acc = mop_field_seq_loop n g v w acc"
  by (induction n arbitrary: w acc) (simp_all cong: rbind_cong)

lemma mop_pair_alias_ret: "mop_pair_alias (g\<lparr>m_ret_alias := r\<rparr>) = mop_pair_alias g"
  by (intro ext) (simp add: mop_pair_alias_def mop_get_field_seq_def mop_field_seq_loop_ret del: mop_field_seq_loop.simps)

lemma mop_field_seq_own:
  assumes "v_father v < length (m_values g)" "v_field_id (m_values g ! v_father v) = usize_MAX"
  shows "mop_get_field_seq g v = Inr (own_field v)"
  using assms by (simp add: mop_get_field_seq_def own_field_def numeral_2_eq_2)

lemma mop_pair_alias_entry:
  assumes wf: "mop_wf g" and i: "i < length (m_values g)" "v_local (m_values g ! i) \<le> m_arg_size g"
    and j: "j < length (m_values g)" "v_local (m_values g ! j) \<le> m_arg_size g"
  shows "mop_pair_alias g (m_values g ! i) (m_values g ! j) = Inr (pair_entry (m_values g ! i) (m_values g ! j))"
proof -
  have "mop_get_field_seq g (m_values g ! k) = Inr (own_field (m_values g ! k))"
    if "k < length (m_values g)" "v_local (m_values g ! k) \<le> m_arg_size g" for k
    using that wf by (intro mop_field_seq_own) (auto simp: mop_wf_def)
  with i j show ?thesis by (simp add: mop_pair_alias_def pair_entry_def Let_def ret_alias_new_def)
qed

text \<open>\<open>h\<close> is \<open>g\<close> with the entries of the pairs in \<open>S\<close> added.\<close>

definition mop_added :: "mop_graph \<Rightarrow> (nat \<times> nat) set \<Rightarrow> mop_graph \<Rightarrow> bool" where
  "mop_added g S h \<longleftrightarrow> (\<exists>r. h = g\<lparr>m_ret_alias := r\<rparr> \<and>
     set (fra_alias_set r) = set (fra_alias_set (m_ret_alias g)) \<union> (\<lambda>(i, j). pair_entry (m_values g ! i) (m_values g ! j)) ` S)"

lemma mop_merge_node_added:
  assumes wf: "mop_wf g" and a: "mop_added g S h" and i: "i < length (m_values g)"
  shows "ok (mop_added g (S \<union> {(i, j) | j. interface_pair g i j})) (mop_merge_node (m_values g) (m_values g ! i) h)"
proof -
  let ?v = "m_values g ! i" and ?N = "length (m_values g)"
  have f: "uf_forest (m_alias_set g)" "length (m_alias_set g) = ?N" and vi: "v_index ?v = i"
    using wf i by (auto simp: mop_wf_def)
  have hg: "m_values k = m_values g" "m_alias_set k = m_alias_set g" "m_arg_size k = m_arg_size g"
    if "mop_added g T k" for T k using that by (auto simp: mop_added_def)
  have par: "m_alias_set g ! i < ?N" "uf_rep (m_alias_set g) (m_alias_set g ! i) = uf_rep (m_alias_set g) i"
    using uf_parent_in [OF f(1)] uf_rep_parent [OF f(1)] f(2) i by auto
  let ?step = "\<lambda>idx g'. rbind (union_is_same (m_alias_set g') idx i) (\<lambda>same.
        if \<not> same then Inr g'
        else rbind (at (m_values g) idx) (\<lambda>other.
        if v_local other \<le> m_arg_size g' \<and> idx \<noteq> i \<and> v_local ?v \<noteq> v_local other
        then rbind (mop_pair_alias g' ?v other) (\<lambda>a. Inr (g'\<lparr>m_ret_alias := add_alias a (m_ret_alias g')\<rparr>))
        else Inr g'))"
  let ?P = "\<lambda>ys. mop_added g (S \<union> {(i, j) | j. j \<in> set ys \<and> interface_pair g i j})"
  have loop: "ok (?P [1..<?N]) (rfold ?step [1..<?N] h)" if l: "v_local ?v \<le> m_arg_size g"
  proof (rule ok_rfold_prefix [where P = ?P])
    show "?P [] h" using a by simp
  next
    fix ys j zs k assume split: "[1..<?N] = ys @ j # zs" and P: "?P ys k"
    have "j \<in> set [1..<?N]" using split by (metis in_set_conv_decomp)
    then have j: "1 \<le> j" "j < ?N" by auto
    note k = hg [OF P]
    have same: "union_is_same (m_alias_set k) j i = Inr (uf_rep (m_alias_set g) j = uf_rep (m_alias_set g) i)"
      using f i j k by (simp add: union_is_same_forest)
    have pair: "mop_pair_alias k ?v (m_values g ! j) = Inr (pair_entry ?v (m_values g ! j))"
      if "v_local (m_values g ! j) \<le> m_arg_size g"
      using mop_pair_alias_entry [OF wf i l j(2) that] P by (auto simp: mop_added_def mop_pair_alias_ret)
    show "ok (?P (ys @ [j])) (?step j k)"
    proof (cases "interface_pair g i j")
      case True
      then have c: "uf_rep (m_alias_set g) j = uf_rep (m_alias_set g) i" "v_local (m_values g ! j) \<le> m_arg_size g"
        "j \<noteq> i" "v_local ?v \<noteq> v_local (m_values g ! j)" by (auto simp: interface_pair_def)
      from P obtain r where r: "k = g\<lparr>m_ret_alias := r\<rparr>" and S: "set (fra_alias_set r) =
          set (fra_alias_set (m_ret_alias g)) \<union> (\<lambda>(i, j). pair_entry (m_values g ! i) (m_values g ! j)) `
            (S \<union> {(i, j) | j. j \<in> set ys \<and> interface_pair g i j})" by (auto simp: mop_added_def)
      let ?r = "add_alias (pair_entry ?v (m_values g ! j)) r"
      have e1: "S \<union> {(i, j') | j'. j' \<in> set (ys @ [j]) \<and> interface_pair g i j'} =
          insert (i, j) (S \<union> {(i, j) | j. j \<in> set ys \<and> interface_pair g i j})" using True by auto
      have e2: "set (fra_alias_set ?r) = set (fra_alias_set (m_ret_alias g)) \<union>
          (\<lambda>(i, j). pair_entry (m_values g ! i) (m_values g ! j)) `
            insert (i, j) (S \<union> {(i, j) | j. j \<in> set ys \<and> interface_pair g i j})"
        by (simp add: add_alias_def S)
      have "?P (ys @ [j]) (k\<lparr>m_ret_alias := ?r\<rparr>)"
        unfolding mop_added_def e1 by (intro exI [of _ ?r] conjI e2) (simp add: r)
      with c same pair j k r show ?thesis by simp
    next
      case False
      have "{(i, j') | j'. j' \<in> set (ys @ [j]) \<and> interface_pair g i j'} = {(i, j') | j'. j' \<in> set ys \<and> interface_pair g i j'}"
        using False by auto
      with P have "?P (ys @ [j]) k" by simp
      with False same j k l i show ?thesis by (auto simp: interface_pair_def)
    qed
  qed
  show ?thesis
  proof (cases "v_local ?v \<le> m_arg_size g \<and> ?N \<noteq> 1")
    case True
    have "{(i, j) | j. j \<in> set [1..<?N] \<and> interface_pair g i j} = {(i, j) | j. interface_pair g i j}"
      by (auto simp: interface_pair_def)
    with loop True show ?thesis using hg [OF a] par f i
      unfolding mop_merge_node_def vi by (simp add: union_is_same_forest)
  next
    case False
    then have "{(i, j) | j. interface_pair g i j} = {}" by (auto simp: interface_pair_def)
    with a False show ?thesis using hg [OF a] par f i
      by (auto simp: mop_merge_node_def vi union_is_same_forest)
  qed
qed

lemma mop_merge_results_added:
  assumes wf: "mop_wf g"
  shows "ok (mop_added g {(i, j). interface_pair g i j}) (mop_merge_results g)"
proof -
  let ?vs = "m_values g"
  let ?P = "\<lambda>n. mop_added g {(i, j). i < n \<and> interface_pair g i j}"
  have "ok (?P n) (rfold (mop_merge_node ?vs) (take n ?vs) g)" if "n \<le> length ?vs" for n
    using that
  proof (induction n)
    case 0
    show ?case by (auto simp: mop_added_def intro!: exI [of _ "m_ret_alias g"])
  next
    case (Suc n)
    then have n: "n < length ?vs" and IH: "ok (?P n) (rfold (mop_merge_node ?vs) (take n ?vs) g)" by simp_all
    have "ok (?P (Suc n)) (rbind (rfold (mop_merge_node ?vs) (take n ?vs) g) (mop_merge_node ?vs (?vs ! n)))"
    proof (rule ok_rbindI [OF IH])
      fix h assume h: "?P n h"
      have "{(i, j). i < Suc n \<and> interface_pair g i j} =
          {(i, j). i < n \<and> interface_pair g i j} \<union> {(n, j) | j. interface_pair g n j}"
        by (auto simp: less_Suc_eq)
      with mop_merge_node_added [OF wf h n] show "ok (?P (Suc n)) (mop_merge_node ?vs (?vs ! n) h)" by simp
    qed
    then show ?case using n by (simp add: take_Suc_conv_app_nth rfold_append)
  qed
  from this [of "length ?vs"] have "ok (?P (length ?vs)) (mop_merge_results g)"
    by (simp add: mop_merge_results_def)
  moreover have "{(i, j). i < length ?vs \<and> interface_pair g i j} = {(i, j). interface_pair g i j}"
    by (auto simp: interface_pair_def)
  ultimately show ?thesis by simp
qed

subsection \<open>Properties\<close>

definition demo_mop :: "vnode list \<Rightarrow> nat list \<Rightarrow> nat \<Rightarrow> mop_graph" where
  "demo_mop vs al args =
     \<lparr>m_def_id = 0, m_span = 0, m_values = vs, m_blocks = [], m_arg_size = args, m_scc_indices = [],
      m_constant = Map.empty, m_ret_alias = fn_ret_alias_new args, m_visit_times = 0, m_alias_set = al,
      m_child_scc = Map.empty, m_disc_map = Map.empty, m_terms = []\<rparr>"

text \<open>C4: at the end of a path the summary gains exactly the alias pairs of the interface: one entry for every
  two values of different arguments (or the return value) that are in one alias class, with the
  return value on the left, and nothing else; the step never panics.\<close>

theorem mop_merge_results_exact:
  assumes "mop_wf g"
  shows "\<exists>h. mop_merge_results g = Inr h \<and> m_values h = m_values g \<and> m_alias_set h = m_alias_set g \<and>
    set (fra_alias_set (m_ret_alias h)) = set (fra_alias_set (m_ret_alias g)) \<union>
      {pair_entry (m_values g ! i) (m_values g ! j) | i j. interface_pair g i j}"
proof -
  from mop_merge_results_added [OF assms] obtain h where h: "mop_merge_results g = Inr h"
    and a: "mop_added g {(i, j). interface_pair g i j} h" by (auto simp: ok_def)
  have "(\<lambda>(i, j). pair_entry (m_values g ! i) (m_values g ! j)) ` {(i, j). interface_pair g i j} =
      {pair_entry (m_values g ! i) (m_values g ! j) | i j. interface_pair g i j}" by auto
  with a have "m_values h = m_values g" "m_alias_set h = m_alias_set g"
    "set (fra_alias_set (m_ret_alias h)) = set (fra_alias_set (m_ret_alias g)) \<union>
      {pair_entry (m_values g ! i) (m_values g ! j) | i j. interface_pair g i j}"
    by (auto simp: mop_added_def)
  with h show ?thesis by blast
qed

theorem mop_merge_results_exact_witness:
  "\<exists>h. mop_merge_results (demo_mop [vnode_new 0 0 True True, vnode_new 1 1 True True] [0, 0] 1) = Inr h \<and>
     ret_alias_new 0 True True 1 True True \<in> set (fra_alias_set (m_ret_alias h))"
proof -
  let ?g = "demo_mop [vnode_new 0 0 True True, vnode_new 1 1 True True] [0, 0] 1"
  have c: "uf_chain [0, 0] 0 0 0" "uf_chain [0, 0] 1 1 0"
    by (auto intro!: uf_chain.root uf_chain.step [of 1 "[0, 0]" 0 0, simplified])
  then have f: "uf_forest [0, 0]" unfolding uf_forest_def by (auto simp: less_Suc_eq numeral_2_eq_2)
  have wf: "mop_wf ?g" using f by (auto simp: mop_wf_def demo_mop_def vnode_new_def less_Suc_eq le_Suc_eq)
  have "uf_rep [0, 0] 0 = 0" "uf_rep [0, 0] 1 = 0" using c by (simp_all add: uf_chain_rep)
  then have "interface_pair ?g 0 1" by (simp add: interface_pair_def demo_mop_def vnode_new_def)
  moreover have "pair_entry (m_values ?g ! 0) (m_values ?g ! 1) = ret_alias_new 0 True True 1 True True"
    by (simp add: pair_entry_def demo_mop_def vnode_new_def ret_alias_new_def own_field_def)
  ultimately have "ret_alias_new 0 True True 1 True True \<in>
      {pair_entry (m_values ?g ! i) (m_values ?g ! j) | i j. interface_pair ?g i j}" by (intro CollectI exI [of _ 0] exI [of _ 1]) simp
  moreover obtain h where "mop_merge_results ?g = Inr h" "set (fra_alias_set (m_ret_alias h)) =
      set (fra_alias_set (m_ret_alias ?g)) \<union> {pair_entry (m_values ?g ! i) (m_values ?g ! j) | i j. interface_pair ?g i j}"
    using mop_merge_results_exact [OF wf] by blast
  ultimately show ?thesis by blast
qed

text \<open>\<open>get_field_seq\<close> never records more than one field: the loop restarts from the father of the value it was
  called with, so it returns the value's own field id if the father is a plain local, and it
  does not return at all if the father is itself a field.\<close>

theorem mop_get_field_seq_one_level:
  assumes "v_father v < length (m_values g)"
  shows "if v_field_id v = usize_MAX then mop_get_field_seq g v = Inr []
    else if v_field_id (m_values g ! v_father v) = usize_MAX then mop_get_field_seq g v = Inr [v_field_id v]
    else (\<forall>n acc. mop_field_seq_loop n g v v acc = Inl Diverges)"
proof -
  have "mop_field_seq_loop n g v (m_values g ! v_father v) acc = Inl Diverges"
    if "v_field_id (m_values g ! v_father v) \<noteq> usize_MAX" for n acc
    using that assms by (induction n arbitrary: acc) simp_all
  moreover have "mop_field_seq_loop n g v v acc = Inl Diverges"
    if "v_field_id v \<noteq> usize_MAX" "\<And>n acc. mop_field_seq_loop n g v (m_values g ! v_father v) acc = Inl Diverges" for n acc
    using that assms by (cases n) simp_all
  ultimately show ?thesis using assms by (simp add: mop_get_field_seq_def numeral_2_eq_2)
qed

theorem mop_get_field_seq_one_level_witness:
  "mop_get_field_seq (demo_mop [vnode_new 0 0 True True] [0] 0) ((vnode_new 5 0 True True)\<lparr>v_field_id := 3\<rparr>) = Inr [3]"
  using mop_get_field_seq_one_level [of "(vnode_new 5 0 True True)\<lparr>v_field_id := 3\<rparr>" "demo_mop [vnode_new 0 0 True True] [0] 0"]
  by (simp add: demo_mop_def vnode_new_def usize_MAX_def)

text \<open>C11: the interprocedural analysis never revises a summary: whatever functions a call of \<open>check\<close> analyses on
  the way, every summary that was in the table is still there unchanged, the set of functions
  under analysis is the one it started with, and the summary in progress keeps its entries.\<close>

theorem mop_check_keeps_summaries:
  assumes "mop_check n fast tcx bb (g, fm, rs) = Inr (h, fm', rs')"
  shows "fm \<subseteq>\<^sub>m fm' \<and> rs' = rs \<and>
    set (fra_alias_set (m_ret_alias g)) \<subseteq> set (fra_alias_set (m_ret_alias h)) \<and> m_blocks h = m_blocks g"
  using mopc.F_adv [of "(g, fm, rs)" n fast tcx bb] assms
  by (simp add: mop_adv_def mop_grows_def mop_static_def)

theorem mop_check_keeps_summaries_witness:
  "\<exists>h fm' rs'. mop_check 1 False demo_tcx 0 ((demo_mop [] [] 0)\<lparr>m_visit_times := 100\<rparr>, [3 \<mapsto> fn_ret_alias_new 1], {}) =
     Inr (h, fm', rs') \<and> fm' 3 = Some (fn_ret_alias_new 1)"
proof -
  let ?g = "(demo_mop [] [] 0)\<lparr>m_visit_times := 100\<rparr>"
  have r: "mop_check 1 False demo_tcx 0 (?g, [3 \<mapsto> fn_ret_alias_new 1], {}) =
      Inr (?g\<lparr>m_visit_times := 101\<rparr>, [3 \<mapsto> fn_ret_alias_new 1], {})"
    using mop_check_Suc [of 0] by (simp add: mop_VISIT_LIMIT_def)
  from mop_check_keeps_summaries [OF r] r show ?thesis by auto
qed



end
