(* ===== verification/Dataflow_Graph.thy ===== *)
theory Dataflow_Graph
  imports Mir
begin

section \<open>The dataflow graph of a function\<close>

text \<open>
  \<^verbatim>\<open>core/dataflow/graph.rs\<close> and \<^verbatim>\<open>core/dataflow.rs\<close>: a graph with one node per local of the body plus
  marker nodes for projections and constants; the edges into a node carry the number of the
  statement they come from (\<open>seq\<close>). \<open>add_statm_to_graph\<close> and \<open>add_terminator_to_graph\<close> extend it,
  \<open>dfs\<close> traverses it with a node operator and an edge validator, both of which may keep state.
  \<open>println!\<close> before a \<open>todo!()\<close> is left out.
\<close>

subsection \<open>Nodes and edges\<close>

datatype df_agg_kind = Ak_Array | Ak_Tuple | Ak_Adt def_id | Ak_Closure def_id | Ak_Coroutine def_id

datatype node_op =
    No_Nop | No_Err | No_Const string
  | No_Use | No_Repeat | No_Ref | No_ThreadLocalRef | No_AddressOf | No_Len | No_Cast
  | No_BinaryOp | No_CheckedBinaryOp | No_NullaryOp | No_UnaryOp | No_Discriminant
  | No_Aggregate df_agg_kind | No_ShallowInitBox | No_CopyForDeref | No_RawPtr
  | No_Call def_id | No_CallOperand

datatype edge_op =
    Eo_Nop | Eo_Move | Eo_Copy | Eo_Const | Eo_Immut | Eo_Mut
  | Eo_Deref | Eo_Field string | Eo_Downcast string | Eo_Index | Eo_ConstIndex | Eo_SubSlice | Eo_SubType

record graph_edge =
  ge_src :: nat
  ge_dst :: nat
  ge_op :: edge_op
  ge_seq :: nat

record graph_node =
  gn_ops :: "node_op list"
  gn_span :: span
  gn_seq :: nat
  gn_out_edges :: "nat list"
  gn_in_edges :: "nat list"

text \<open>\<open>DUMMY_SP\<close> is the span 0.\<close>

definition graph_node_new :: graph_node where
  "graph_node_new = \<lparr>gn_ops = [No_Nop], gn_span = 0, gn_seq = 0, gn_out_edges = [], gn_in_edges = []\<rparr>"

record df_graph =
  df_def_id :: def_id
  df_span :: span
  df_argc :: nat
  df_nodes :: "graph_node list"
  df_edges :: "graph_edge list"
  df_n_locals :: nat

definition df_new :: "def_id \<Rightarrow> span \<Rightarrow> nat \<Rightarrow> nat \<Rightarrow> df_graph" where
  "df_new d sp argc n_locals =
     \<lparr>df_def_id = d, df_span = sp, df_argc = argc, df_nodes = replicate n_locals graph_node_new,
      df_edges = [], df_n_locals = n_locals\<rparr>"

subsection \<open>Construction\<close>

definition df_upd_node :: "nat \<Rightarrow> (graph_node \<Rightarrow> graph_node) \<Rightarrow> df_graph \<Rightarrow> df_graph res" where
  "df_upd_node i f g =
     rbind (at (df_nodes g) i) (\<lambda>n. Inr (g\<lparr>df_nodes := (df_nodes g)[i := f n]\<rparr>))"

definition add_node_edge :: "nat \<Rightarrow> nat \<Rightarrow> edge_op \<Rightarrow> df_graph \<Rightarrow> df_graph res" where
  "add_node_edge src dst op g =
     rbind (at (df_nodes g) dst) (\<lambda>d.
     let idx = length (df_edges g);
         g = g\<lparr>df_edges := df_edges g @ [\<lparr>ge_src = src, ge_dst = dst, ge_op = op, ge_seq = gn_seq d\<rparr>]\<rparr>
     in rbind (df_upd_node dst (\<lambda>n. n\<lparr>gn_in_edges := gn_in_edges n @ [idx]\<rparr>) g)
          (df_upd_node src (\<lambda>n. n\<lparr>gn_out_edges := gn_out_edges n @ [idx]\<rparr>)))"

definition add_const_edge :: "string \<Rightarrow> nat \<Rightarrow> edge_op \<Rightarrow> df_graph \<Rightarrow> df_graph res" where
  "add_const_edge s dst op g =
     rbind (at (df_nodes g) dst) (\<lambda>d.
     let src = length (df_nodes g); idx = length (df_edges g);
         g = g\<lparr>df_nodes := df_nodes g @ [graph_node_new\<lparr>gn_ops := [No_Const s]\<rparr>],
               df_edges := df_edges g @ [\<lparr>ge_src = src, ge_dst = dst, ge_op = op, ge_seq = gn_seq d\<rparr>]\<rparr>
     in df_upd_node dst (\<lambda>n. n\<lparr>gn_in_edges := gn_in_edges n @ [idx]\<rparr>) g)"

text \<open>The match of \<open>parse_one_step\<close> on the projection element.\<close>

definition add_elem_edge :: "tcx \<Rightarrow> proj_elem \<Rightarrow> nat \<Rightarrow> nat \<Rightarrow> df_graph \<Rightarrow> df_graph res" where
  "add_elem_edge tcx elem src dst g =
     (case elem of
        Deref \<Rightarrow> add_node_edge src dst Eo_Deref g
      | Field k _ \<Rightarrow> add_node_edge src dst (Eo_Field (field_debug_str tcx k)) g
      | Downcast symbol _ \<Rightarrow> rbind (unwrap symbol) (\<lambda>s. add_node_edge src dst (Eo_Downcast s) g)
      | Index idx \<Rightarrow> rbind (add_node_edge src dst Eo_Index g) (add_node_edge idx dst Eo_Index)
      | ConstantIndex \<Rightarrow> add_node_edge src dst Eo_ConstIndex g
      | Subslice \<Rightarrow> add_node_edge src dst Eo_SubSlice g
      | Subtype \<Rightarrow> add_node_edge src dst Eo_SubType g
      | OpaqueCast \<Rightarrow> Inl Todo)"

definition parse_one_step :: "tcx \<Rightarrow> proj_elem \<Rightarrow> nat \<times> df_graph \<Rightarrow> (nat \<times> df_graph) res" where
  "parse_one_step tcx elem = (\<lambda>(src, g).
     let dst = length (df_nodes g) in
     rbind (add_elem_edge tcx elem src dst (g\<lparr>df_nodes := df_nodes g @ [graph_node_new]\<rparr>)) (\<lambda>g. Inr (dst, g)))"

definition parse_place :: "tcx \<Rightarrow> place \<Rightarrow> df_graph \<Rightarrow> (nat \<times> df_graph) res" where
  "parse_place tcx p g = rfold (parse_one_step tcx) (p_projection p) (p_local p, g)"

definition add_operand :: "tcx \<Rightarrow> operand \<Rightarrow> nat \<Rightarrow> df_graph \<Rightarrow> df_graph res" where
  "add_operand tcx opnd dst g =
     (case opnd of
        Copy p \<Rightarrow> rbind (parse_place tcx p g) (\<lambda>(src, g). add_node_edge src dst Eo_Copy g)
      | Move p \<Rightarrow> rbind (parse_place tcx p g) (\<lambda>(src, g). add_node_edge src dst Eo_Move g)
      | Constant c \<Rightarrow> add_const_edge (c_text c) dst Eo_Const g)"

definition add_operands :: "tcx \<Rightarrow> operand list \<Rightarrow> nat \<Rightarrow> df_graph \<Rightarrow> df_graph res" where
  "add_operands tcx ops dst g = rfold (\<lambda>opnd. add_operand tcx opnd dst) ops g"

definition add_place :: "tcx \<Rightarrow> place \<Rightarrow> nat \<Rightarrow> edge_op \<Rightarrow> df_graph \<Rightarrow> df_graph res" where
  "add_place tcx p dst op g = rbind (parse_place tcx p g) (\<lambda>(src, g). add_node_edge src dst op g)"

text \<open>\<open>self.nodes[dst].ops[seq] = op\<close>, and the fresh slot that is pushed first if \<open>seq\<close> is the length.\<close>

definition df_set_op :: "nat \<Rightarrow> nat \<Rightarrow> node_op \<Rightarrow> df_graph \<Rightarrow> df_graph res" where
  "df_set_op dst seq op g =
     rbind (at (df_nodes g) dst) (\<lambda>n.
     rbind (set_at (gn_ops n) seq op) (\<lambda>ops. df_upd_node dst (\<lambda>n. n\<lparr>gn_ops := ops\<rparr>) g))"

definition df_open_slot :: "nat \<Rightarrow> df_graph \<Rightarrow> (nat \<times> df_graph) res" where
  "df_open_slot dst g =
     rbind (at (df_nodes g) dst) (\<lambda>n.
     if gn_seq n = length (gn_ops n)
     then rbind (df_upd_node dst (\<lambda>n. n\<lparr>gn_ops := gn_ops n @ [No_Nop]\<rparr>) g) (\<lambda>g. Inr (gn_seq n, g))
     else Inr (gn_seq n, g))"

definition borrow_edge :: "borrow_kind \<Rightarrow> edge_op" where
  "borrow_edge k = (case k of Bk_Shared \<Rightarrow> Eo_Immut | Bk_Mut \<Rightarrow> Eo_Mut | Bk_Fake \<Rightarrow> Eo_Nop)"

definition agg_op :: "agg_kind \<Rightarrow> node_op res" where
  "agg_op k =
     (case k of
        Agg_Array \<Rightarrow> Inr (No_Aggregate Ak_Array)
      | Agg_Tuple \<Rightarrow> Inr (No_Aggregate Ak_Tuple)
      | Agg_Adt d _ \<Rightarrow> Inr (No_Aggregate (Ak_Adt d))
      | Agg_Closure d \<Rightarrow> Inr (No_Aggregate (Ak_Closure d))
      | Agg_Coroutine d \<Rightarrow> Inr (No_Aggregate (Ak_Coroutine d))
      | _ \<Rightarrow> Inl Todo)"

text \<open>The match on the rvalue: the edges it adds into \<open>dst\<close>, and the operation it stores.\<close>

definition add_rvalue :: "tcx \<Rightarrow> rvalue \<Rightarrow> nat \<Rightarrow> nat \<Rightarrow> df_graph \<Rightarrow> df_graph res" where
  "add_rvalue tcx rv dst seq g =
     (case rv of
        Use op \<Rightarrow> rbind (add_operand tcx op dst g) (df_set_op dst seq No_Use)
      | Repeat op \<Rightarrow> rbind (add_operand tcx op dst g) (df_set_op dst seq No_Repeat)
      | Ref k p \<Rightarrow> rbind (add_place tcx p dst (borrow_edge k) g) (df_set_op dst seq No_Ref)
      | Len p \<Rightarrow> rbind (add_place tcx p dst Eo_Nop g) (df_set_op dst seq No_Len)
      | Cast _ op _ \<Rightarrow> rbind (add_operand tcx op dst g) (df_set_op dst seq No_Cast)
      | BinaryOp a b \<Rightarrow> rbind (add_operands tcx [a, b] dst g) (df_set_op dst seq No_CheckedBinaryOp)
      | Aggregate k ops \<Rightarrow> rbind (add_operands tcx ops dst g) (\<lambda>g. rbind (agg_op k) (\<lambda>op. df_set_op dst seq op g))
      | UnaryOp op \<Rightarrow> rbind (add_operand tcx op dst g) (df_set_op dst seq No_UnaryOp)
      | NullaryOp t \<Rightarrow> rbind (add_const_edge t dst Eo_Nop g) (df_set_op dst seq No_NullaryOp)
      | ThreadLocalRef \<Rightarrow> Inl Todo
      | Discriminant p \<Rightarrow> rbind (add_place tcx p dst Eo_Nop g) (df_set_op dst seq No_Discriminant)
      | ShallowInitBox op _ \<Rightarrow> rbind (add_operand tcx op dst g) (df_set_op dst seq No_ShallowInitBox)
      | CopyForDeref p \<Rightarrow> rbind (add_place tcx p dst Eo_Nop g) (df_set_op dst seq No_CopyForDeref)
      | RawPtr _ p \<Rightarrow> rbind (add_place tcx p dst Eo_Nop g) (df_set_op dst seq No_RawPtr))"

definition add_statm_to_graph :: "tcx \<Rightarrow> statement \<Rightarrow> df_graph \<Rightarrow> df_graph res" where
  "add_statm_to_graph tcx s g =
     (case s_kind s of
        Assign p rv \<Rightarrow>
          rbind (parse_place tcx p g) (\<lambda>(dst, g).
          rbind (df_upd_node dst (\<lambda>n. n\<lparr>gn_span := s_span s\<rparr>) g) (\<lambda>g.
          rbind (df_open_slot dst g) (\<lambda>(seq, g).
          rbind (add_rvalue tcx rv dst seq g)
            (df_upd_node dst (\<lambda>n. n\<lparr>gn_seq := seq + 1\<rparr>)))))
      | _ \<Rightarrow> Inr g)"

definition add_call :: "tcx \<Rightarrow> operand \<Rightarrow> operand list \<Rightarrow> nat \<Rightarrow> nat \<Rightarrow> df_graph \<Rightarrow> df_graph res" where
  "add_call tcx func args dst seq g =
     (case func of
        Constant c \<Rightarrow>
          (case (c_const c, c_ty c) of
             (Const_Val _, Ty_FnDef d _) \<Rightarrow> rbind (add_operands tcx args dst g) (df_set_op dst seq (No_Call d))
           | _ \<Rightarrow> Inr g)
      | Move _ \<Rightarrow>
          rbind (add_operand tcx func dst g) (\<lambda>g.
          rbind (add_operands tcx args dst g) (df_set_op dst seq No_CallOperand))
      | Copy _ \<Rightarrow> Inl Todo)"

definition add_terminator_to_graph :: "tcx \<Rightarrow> terminator \<Rightarrow> df_graph \<Rightarrow> df_graph res" where
  "add_terminator_to_graph tcx t g =
     (case t_kind t of
        Call func args dest _ _ \<Rightarrow>
          (let dst = p_local dest in
           rbind (df_open_slot dst g) (\<lambda>(seq, g).
           rbind (add_call tcx func args dst seq g)
             (df_upd_node dst (\<lambda>n. n\<lparr>gn_span := t_span t, gn_seq := seq + 1\<rparr>))))
      | _ \<Rightarrow> Inr g)"

definition df_add_block :: "tcx \<Rightarrow> bb_data \<Rightarrow> df_graph \<Rightarrow> df_graph res" where
  "df_add_block tcx bb g =
     rbind (rfold (add_statm_to_graph tcx) (bb_statements bb) g) (\<lambda>g.
     case bb_terminator bb of Some t \<Rightarrow> add_terminator_to_graph tcx t g | None \<Rightarrow> Inr g)"

definition build_graph :: "tcx \<Rightarrow> def_id \<Rightarrow> df_graph res" where
  "build_graph tcx d =
     (let b = optimized_mir tcx d in
      rfold (df_add_block tcx) (basic_blocks b) (df_new d (body_span b) (arg_count b) (length (local_decls b))))"

text \<open>\<open>build_graphs\<close>: \<open>is_fn\<close> says which of the local definitions are functions with a body.\<close>

definition build_graphs :: "tcx \<Rightarrow> (def_id \<Rightarrow> bool) \<Rightarrow> def_id list \<Rightarrow> (def_id \<rightharpoonup> df_graph) res" where
  "build_graphs tcx is_fn defs =
     rfold (\<lambda>d gs. if is_fn d then rbind (build_graph tcx d) (\<lambda>g. Inr (gs(d \<mapsto> g))) else Inr gs) defs Map.empty"

subsection \<open>Traversal\<close>

datatype direction = Upside | Downside | Both

datatype dfs_status = Continue | Stop

fun status_and :: "dfs_status \<Rightarrow> dfs_status \<Rightarrow> dfs_status" where
  "status_and s1 s2 = (if s1 = Stop \<or> s2 = Stop then Stop else Continue)"

fun status_or :: "dfs_status \<Rightarrow> dfs_status \<Rightarrow> dfs_status" where
  "status_or s1 s2 = (if s1 = Continue \<or> s2 = Continue then Continue else Stop)"

definition equivalent_edge_validator :: "df_graph \<Rightarrow> nat \<Rightarrow> dfs_status res" where
  "equivalent_edge_validator g e =
     rbind (at (df_edges g) e) (\<lambda>ed. Inr (if ge_op ed \<in> {Eo_Copy, Eo_Move, Eo_Mut, Eo_Immut} then Continue else Stop))"

definition always_true_edge_validator :: "df_graph \<Rightarrow> nat \<Rightarrow> dfs_status res" where
  "always_true_edge_validator g e = Inr Continue"

text \<open>An edge validator without state of its own.\<close>

definition pure_validator :: "(df_graph \<Rightarrow> nat \<Rightarrow> dfs_status res) \<Rightarrow> df_graph \<Rightarrow> nat \<Rightarrow> 's \<Rightarrow> (dfs_status \<times> 's) res" where
  "pure_validator v g e s = rbind (v g e) (\<lambda>r. Inr (r, s))"

text \<open>The macro \<open>traverse!\<close>: the loop over the edges; the flag says that it returns \<open>Stop\<close>.\<close>

definition df_traverse :: "(nat \<Rightarrow> 's \<Rightarrow> (dfs_status \<times> 's) res) \<Rightarrow> (nat \<Rightarrow> 's \<Rightarrow> (dfs_status \<times> 's) res) \<Rightarrow> bool \<Rightarrow>
    df_graph \<Rightarrow> (graph_edge \<Rightarrow> nat) \<Rightarrow> nat list \<Rightarrow> 's \<Rightarrow> (bool \<times> 's) res" where
  "df_traverse F edge_validator traverse_all g endpoint es s =
     rany (\<lambda>e s.
       rbind (at (df_edges g) e) (\<lambda>ed.
       rbind (edge_validator e s) (\<lambda>(v, s).
       if v = Continue
       then rbind (F (endpoint ed) s) (\<lambda>(r, s). Inr (r = Stop \<and> \<not> traverse_all, s))
       else Inr (False, s)))) es s"

fun df_dfs :: "nat \<Rightarrow> df_graph \<Rightarrow> direction \<Rightarrow> (nat \<Rightarrow> 's \<Rightarrow> (dfs_status \<times> 's) res) \<Rightarrow> (nat \<Rightarrow> 's \<Rightarrow> (dfs_status \<times> 's) res) \<Rightarrow>
    bool \<Rightarrow> nat \<Rightarrow> 's \<Rightarrow> (dfs_status \<times> 's) res" where
  "df_dfs 0 g dir node_operator edge_validator traverse_all now s = Inl Diverges"
| "df_dfs (Suc n) g dir node_operator edge_validator traverse_all now s =
     rbind (node_operator now s) (\<lambda>(st, s).
     if st = Continue
     then rbind (at (df_nodes g) now) (\<lambda>node.
          let F = df_dfs n g dir node_operator edge_validator traverse_all;
              up = df_traverse F edge_validator traverse_all g ge_src (gn_in_edges node);
              down = df_traverse F edge_validator traverse_all g ge_dst (gn_out_edges node)
          in rbind (case dir of
                      Upside \<Rightarrow> up s
                    | Downside \<Rightarrow> down s
                    | Both \<Rightarrow> rbind (up s) (\<lambda>(stop, s). if stop then Inr (True, s) else down s))
               (\<lambda>(stop, s). Inr (if stop then Stop else Continue, s)))
     else Inr (Stop, s))"

text \<open>The nesting allowed at the top: one call per node and one more.\<close>

definition df_dfs_top :: "df_graph \<Rightarrow> direction \<Rightarrow> (nat \<Rightarrow> 's \<Rightarrow> (dfs_status \<times> 's) res) \<Rightarrow> (nat \<Rightarrow> 's \<Rightarrow> (dfs_status \<times> 's) res) \<Rightarrow>
    bool \<Rightarrow> nat \<Rightarrow> 's \<Rightarrow> (dfs_status \<times> 's) res" where
  "df_dfs_top g = df_dfs (Suc (length (df_nodes g))) g"

subsection \<open>Queries\<close>

definition is_equiv_op :: "node_op \<Rightarrow> bool" where
  "is_equiv_op op \<longleftrightarrow> op = No_Nop \<or> op = No_Use \<or> op = No_Ref"

text \<open>\<open>map(...).reduce(f).unwrap()\<close> over the operations of a node.\<close>

fun reduce_status :: "(dfs_status \<Rightarrow> dfs_status \<Rightarrow> dfs_status) \<Rightarrow> dfs_status list \<Rightarrow> dfs_status res" where
  "reduce_status f [] = Inl Unwrap_none"
| "reduce_status f (x # xs) = Inr (foldl f x xs)"

definition op_status :: "node_op \<Rightarrow> dfs_status" where
  "op_status op = (if is_equiv_op op then Continue else Stop)"

definition reduce_func :: "bool \<Rightarrow> dfs_status \<Rightarrow> dfs_status \<Rightarrow> dfs_status" where
  "reduce_func strict = (if strict then status_and else status_or)"

text \<open>The two closures of \<open>collect_equivalent_locals\<close>; their states are \<open>root\<close> and \<open>set\<close>.\<close>

definition find_root_operator :: "df_graph \<Rightarrow> bool \<Rightarrow> nat \<Rightarrow> nat \<Rightarrow> (dfs_status \<times> nat) res" where
  "find_root_operator g strict idx root =
     rbind (at (df_nodes g) idx) (\<lambda>node.
     let root = (if list_ex is_equiv_op (gn_ops node) then idx else root) in
     rbind (reduce_status (reduce_func strict) (map op_status (gn_ops node))) (\<lambda>r. Inr (r, root)))"

definition find_equivalent_operator :: "df_graph \<Rightarrow> bool \<Rightarrow> nat \<Rightarrow> nat list \<Rightarrow> (dfs_status \<times> nat list) res" where
  "find_equivalent_operator g strict idx set0 =
     rbind (at (df_nodes g) idx) (\<lambda>node.
     if idx \<in> set set0 then Inr (Stop, set0)
     else let set1 = (if list_ex is_equiv_op (gn_ops node) then hs_insert idx set0 else set0) in
     rbind (reduce_status (reduce_func strict) (map op_status (gn_ops node))) (\<lambda>r. Inr (r, set1)))"

definition collect_equivalent_locals :: "df_graph \<Rightarrow> nat \<Rightarrow> bool \<Rightarrow> nat list res" where
  "collect_equivalent_locals g local strict =
     rbind (df_dfs_top g Upside (find_root_operator g strict) (pure_validator equivalent_edge_validator g) True local local)
       (\<lambda>(_, root).
     rbind (df_dfs_top g Downside (find_equivalent_operator g strict) (pure_validator equivalent_edge_validator g) True root [])
       (\<lambda>(_, set1). Inr set1))"

definition find_operator :: "nat \<Rightarrow> nat \<Rightarrow> bool \<Rightarrow> (dfs_status \<times> bool) res" where
  "find_operator target idx found = Inr (if idx = target then Stop else Continue, idx = target)"

definition is_connected :: "df_graph \<Rightarrow> nat \<Rightarrow> nat \<Rightarrow> bool res" where
  "is_connected g idx1 idx2 =
     rbind (df_dfs_top g Downside (find_operator idx2) (pure_validator always_true_edge_validator g) False idx1 False)
       (\<lambda>(_, found).
     if found then Inr True
     else rbind (df_dfs_top g Upside (find_operator idx2) (pure_validator always_true_edge_validator g) False idx1 found)
            (\<lambda>(_, found). Inr found))"

definition param_return_deps :: "df_graph \<Rightarrow> bool list res" where
  "param_return_deps g =
     rfold (\<lambda>i deps. rbind (is_connected g i 0) (\<lambda>b. Inr (deps @ [b]))) [0..<df_argc g + 1] []"

definition get_upside_idx :: "df_graph \<Rightarrow> nat \<Rightarrow> nat \<Rightarrow> nat option res" where
  "get_upside_idx g i k =
     rbind (at (df_nodes g) i) (\<lambda>n.
     if k < length (gn_in_edges n)
     then rbind (at (df_edges g) (gn_in_edges n ! k)) (\<lambda>e. Inr (Some (ge_src e))) else Inr None)"

definition get_downside_idx :: "df_graph \<Rightarrow> nat \<Rightarrow> nat \<Rightarrow> nat option res" where
  "get_downside_idx g i k =
     rbind (at (df_nodes g) i) (\<lambda>n.
     if k < length (gn_out_edges n)
     then rbind (at (df_edges g) (gn_out_edges n ! k)) (\<lambda>e. Inr (Some (ge_dst e))) else Inr None)"

end
