(* ===== verification/Dataflow_Props.thy ===== *)
theory Dataflow_Props
  imports Dataflow_Graph Graph_Search
begin

section \<open>The dataflow graph: structure and queries\<close>

text \<open>
  The invariant of a graph under construction (edge lists complete, sorted and without dangling
  indices, an operation slot per statement), that building the graph of a body keeps it, and what
  the queries over a graph answer.
\<close>

subsection \<open>Bodies with valid locals\<close>

definition place_ok :: "nat \<Rightarrow> place \<Rightarrow> bool" where
  "place_ok n p \<longleftrightarrow> p_local p < n \<and> list_all (\<lambda>e. case e of Index i \<Rightarrow> i < n | _ \<Rightarrow> True) (p_projection p)"

fun operand_ok :: "nat \<Rightarrow> operand \<Rightarrow> bool" where
  "operand_ok n (Copy p) = place_ok n p"
| "operand_ok n (Move p) = place_ok n p"
| "operand_ok n (Constant _) = True"

fun rvalue_ok :: "nat \<Rightarrow> rvalue \<Rightarrow> bool" where
  "rvalue_ok n (Use op) = operand_ok n op"
| "rvalue_ok n (Repeat op) = operand_ok n op"
| "rvalue_ok n (Ref _ p) = place_ok n p"
| "rvalue_ok n ThreadLocalRef = True"
| "rvalue_ok n (RawPtr _ p) = place_ok n p"
| "rvalue_ok n (Len p) = place_ok n p"
| "rvalue_ok n (Cast _ op _) = operand_ok n op"
| "rvalue_ok n (BinaryOp a b) = (operand_ok n a \<and> operand_ok n b)"
| "rvalue_ok n (NullaryOp _) = True"
| "rvalue_ok n (UnaryOp op) = operand_ok n op"
| "rvalue_ok n (Discriminant p) = place_ok n p"
| "rvalue_ok n (Aggregate _ ops) = list_all (operand_ok n) ops"
| "rvalue_ok n (ShallowInitBox op _) = operand_ok n op"
| "rvalue_ok n (CopyForDeref p) = place_ok n p"

definition stmt_ok :: "nat \<Rightarrow> statement \<Rightarrow> bool" where
  "stmt_ok n s \<longleftrightarrow> (case s_kind s of Assign p rv \<Rightarrow> place_ok n p \<and> rvalue_ok n rv | _ \<Rightarrow> True)"

definition term_ok :: "nat \<Rightarrow> terminator \<Rightarrow> bool" where
  "term_ok n t \<longleftrightarrow> (case t_kind t of
      Call func args dest _ _ \<Rightarrow> operand_ok n func \<and> list_all (operand_ok n) args \<and> p_local dest < n
    | _ \<Rightarrow> True)"

definition body_ok :: "body \<Rightarrow> bool" where
  "body_ok b \<longleftrightarrow> list_all (\<lambda>bb. list_all (stmt_ok (length (local_decls b))) (bb_statements bb) \<and>
     pred_option (term_ok (length (local_decls b))) (bb_terminator bb)) (basic_blocks b)"

subsection \<open>The invariant\<close>

definition is_const_node :: "graph_node \<Rightarrow> bool" where
  "is_const_node n \<longleftrightarrow> (case gn_ops n of [No_Const _] \<Rightarrow> True | _ \<Rightarrow> False)"

text \<open>The edges that satisfy \<open>P\<close>, in the order they were added.\<close>

definition edges_where :: "(graph_edge \<Rightarrow> bool) \<Rightarrow> graph_edge list \<Rightarrow> nat list" where
  "edges_where P es = filter (\<lambda>k. P (es ! k)) [0..<length es]"

definition df_node_wf :: "nat \<Rightarrow> graph_edge list \<Rightarrow> nat \<Rightarrow> graph_node \<Rightarrow> bool" where
  "df_node_wf n_locals es i n \<longleftrightarrow>
     gn_in_edges n = edges_where (\<lambda>e. ge_dst e = i) es \<and>
     (if is_const_node n then n_locals \<le> i \<and> gn_out_edges n = [] \<and> gn_in_edges n = []
      else gn_out_edges n = edges_where (\<lambda>e. ge_src e = i) es) \<and>
     gn_ops n \<noteq> [] \<and> gn_seq n \<le> length (gn_ops n)"

definition df_wf :: "df_graph \<Rightarrow> bool" where
  "df_wf g \<longleftrightarrow> df_n_locals g \<le> length (df_nodes g) \<and>
     (\<forall>e \<in> set (df_edges g). ge_src e < length (df_nodes g) \<and> ge_dst e < length (df_nodes g) \<and>
        ge_seq e < length (gn_ops (df_nodes g ! ge_dst e))) \<and>
     (\<forall>i < length (df_nodes g). df_node_wf (df_n_locals g) (df_edges g) i (df_nodes g ! i))"

text \<open>A node that edges may be drawn from and into: not a constant.\<close>

definition df_plain :: "df_graph \<Rightarrow> nat \<Rightarrow> bool" where
  "df_plain g i \<longleftrightarrow> i < length (df_nodes g) \<and> \<not> is_const_node (df_nodes g ! i)"

definition df_ext :: "df_graph \<Rightarrow> df_graph \<Rightarrow> bool" where
  "df_ext g h \<longleftrightarrow> df_n_locals h = df_n_locals g \<and> df_def_id h = df_def_id g \<and> df_argc h = df_argc g \<and>
     length (df_nodes g) \<le> length (df_nodes h) \<and>
     (\<forall>i < length (df_nodes g). gn_ops (df_nodes h ! i) = gn_ops (df_nodes g ! i) \<and>
        gn_seq (df_nodes h ! i) = gn_seq (df_nodes g ! i))"

lemma edges_where_append:
  "edges_where P (es @ [e]) = edges_where P es @ (if P e then [length es] else [])"
proof -
  have "filter (\<lambda>k. P ((es @ [e]) ! k)) [0..<length es] = filter (\<lambda>k. P (es ! k)) [0..<length es]"
    by (rule filter_cong) (auto simp: nth_append)
  then show ?thesis by (simp add: edges_where_def)
qed

lemma edges_where_none: "(\<And>e. e \<in> set es \<Longrightarrow> \<not> P e) \<Longrightarrow> edges_where P es = []"
  by (auto simp: edges_where_def filter_empty_conv)

lemma in_edges_where: "k \<in> set (edges_where P es) \<longleftrightarrow> k < length es \<and> P (es ! k)"
  by (auto simp: edges_where_def)

lemma sorted_edges_where: "sorted (edges_where P es)" "distinct (edges_where P es)"
  by (simp_all add: edges_where_def sorted_wrt_filter)

lemma df_ext_refl [simp]: "df_ext g g"
  by (simp add: df_ext_def)

lemma df_ext_trans: "df_ext g h \<Longrightarrow> df_ext h k \<Longrightarrow> df_ext g k"
  by (simp add: df_ext_def)

lemma df_plain_ext: "df_ext g h \<Longrightarrow> df_plain g i \<Longrightarrow> df_plain h i"
  by (auto simp: df_ext_def df_plain_def is_const_node_def)

lemma df_plain_local:
  assumes "df_wf g" "i < df_n_locals g"
  shows "df_plain g i"
proof -
  have i: "i < length (df_nodes g)" using assms by (simp add: df_wf_def)
  with assms have "df_node_wf (df_n_locals g) (df_edges g) i (df_nodes g ! i)" by (simp add: df_wf_def)
  with assms i show ?thesis by (auto simp: df_plain_def df_node_wf_def split: if_splits)
qed

lemma df_new_wf: "df_wf (df_new d sp argc n)"
  by (auto simp: df_wf_def df_new_def df_node_wf_def graph_node_new_def is_const_node_def edges_where_def)

subsection \<open>Edges\<close>

text \<open>A node that edges may be added into: its current operation slot exists.\<close>

definition df_open :: "df_graph \<Rightarrow> nat \<Rightarrow> bool" where
  "df_open g i \<longleftrightarrow> df_plain g i \<and> gn_seq (df_nodes g ! i) < length (gn_ops (df_nodes g ! i))"

lemma df_open_ext: "df_ext g h \<Longrightarrow> df_open g i \<Longrightarrow> df_open h i"
  by (auto simp: df_open_def df_plain_ext) (auto simp: df_ext_def df_plain_def)

text \<open>What an operation that only adds edges and marker nodes promises.\<close>

definition df_step :: "df_graph \<Rightarrow> df_graph \<Rightarrow> bool" where
  "df_step g h \<longleftrightarrow> df_wf h \<and> df_ext g h"

lemma df_step_trans: "df_step g h \<Longrightarrow> df_step h k \<Longrightarrow> df_step g k"
  by (auto simp: df_step_def intro: df_ext_trans)

lemma df_step_open: "df_step g h \<Longrightarrow> df_open g i \<Longrightarrow> df_open h i"
  by (auto simp: df_step_def df_open_ext)

lemma df_step_plain: "df_step g h \<Longrightarrow> df_plain g i \<Longrightarrow> df_plain h i"
  by (auto simp: df_step_def df_plain_ext)

lemma df_nodeD: "df_wf g \<Longrightarrow> i < length (df_nodes g) \<Longrightarrow> df_node_wf (df_n_locals g) (df_edges g) i (df_nodes g ! i)"
  by (simp add: df_wf_def)

lemma add_node_edge_step:
  assumes g: "df_wf g" "df_plain g src" "df_open g dst"
  shows "ok (df_step g) (add_node_edge src dst op g)"
proof -
  define e where "e = \<lparr>ge_src = src, ge_dst = dst, ge_op = op, ge_seq = gn_seq (df_nodes g ! dst)\<rparr>"
  define k where "k = length (df_edges g)"
  define into where "into = (\<lambda>n :: graph_node. n\<lparr>gn_in_edges := gn_in_edges n @ [k]\<rparr>)"
  define out where "out = (\<lambda>n :: graph_node. n\<lparr>gn_out_edges := gn_out_edges n @ [k]\<rparr>)"
  define ns where "ns = (df_nodes g)[dst := into (df_nodes g ! dst)]"
  define h where "h = g\<lparr>df_edges := df_edges g @ [e], df_nodes := ns[src := out (ns ! src)]\<rparr>"
  have b: "src < length (df_nodes g)" "dst < length (df_nodes g)"
    "\<not> is_const_node (df_nodes g ! src)" "\<not> is_const_node (df_nodes g ! dst)"
    using g by (auto simp: df_plain_def df_open_def)
  have run: "add_node_edge src dst op g = Inr h"
    using b by (simp add: add_node_edge_def df_upd_node_def Let_def h_def ns_def into_def out_def e_def k_def)
  have node: "df_nodes h ! i = (let n = df_nodes g ! i; n = (if i = dst then into n else n) in if i = src then out n else n)"
    if "i < length (df_nodes g)" for i
    using that b by (simp add: h_def ns_def Let_def nth_list_update)
  have keep: "gn_ops (df_nodes h ! i) = gn_ops (df_nodes g ! i)" "gn_seq (df_nodes h ! i) = gn_seq (df_nodes g ! i)"
    if "i < length (df_nodes g)" for i
    using node [OF that] by (simp_all add: into_def out_def Let_def)
  have len: "length (df_nodes h) = length (df_nodes g)" by (simp add: h_def ns_def)
  have const: "is_const_node (df_nodes h ! i) = is_const_node (df_nodes g ! i)" if "i < length (df_nodes g)" for i
    using keep(1) [OF that] by (simp add: is_const_node_def)
  have wfn: "df_node_wf (df_n_locals h) (df_edges h) i (df_nodes h ! i)" if i: "i < length (df_nodes g)" for i
  proof -
    have inh: "gn_in_edges (df_nodes h ! i) = gn_in_edges (df_nodes g ! i) @ (if i = dst then [k] else [])"
      and outh: "gn_out_edges (df_nodes h ! i) = gn_out_edges (df_nodes g ! i) @ (if i = src then [k] else [])"
      using node [OF i] by (simp_all add: into_def out_def Let_def)
    have "ge_dst e = dst" "ge_src e = src" "df_edges h = df_edges g @ [e]" "df_n_locals h = df_n_locals g"
      by (simp_all add: e_def h_def)
    with df_nodeD [OF g(1) i] b inh outh const [OF i] keep [OF i] i show ?thesis
      by (auto simp: df_node_wf_def edges_where_append k_def)
  qed
  have seq: "ge_seq e < length (gn_ops (df_nodes g ! dst))" using g by (simp add: df_open_def e_def)
  have "\<forall>e' \<in> set (df_edges h). ge_src e' < length (df_nodes h) \<and> ge_dst e' < length (df_nodes h) \<and>
      ge_seq e' < length (gn_ops (df_nodes h ! ge_dst e'))"
    using g(1) b seq keep(1) len by (auto simp: df_wf_def h_def [THEN arg_cong [of _ _ df_edges], simplified] e_def)
  moreover have "df_n_locals h \<le> length (df_nodes h)" using g(1) len by (simp add: df_wf_def h_def)
  ultimately have "df_wf h" using wfn len by (simp add: df_wf_def)
  moreover have "df_ext g h" using keep len by (simp add: df_ext_def) (simp add: h_def)
  ultimately show ?thesis by (simp add: run df_step_def)
qed

text \<open>A new node without edges.\<close>

lemma df_push_node_step:
  assumes g: "df_wf g" and n: "gn_in_edges n = []" "gn_out_edges n = []" "gn_ops n \<noteq> []" "gn_seq n \<le> length (gn_ops n)"
  shows "df_step g (g\<lparr>df_nodes := df_nodes g @ [n]\<rparr>)"
proof -
  have none: "edges_where (\<lambda>e. ge_dst e = length (df_nodes g)) (df_edges g) = []"
    "edges_where (\<lambda>e. ge_src e = length (df_nodes g)) (df_edges g) = []"
    using g by (auto intro!: edges_where_none simp: df_wf_def)
  have "df_n_locals g \<le> length (df_nodes g)" using g by (simp add: df_wf_def)
  with none n have new: "df_node_wf (df_n_locals g) (df_edges g) (length (df_nodes g)) n"
    by (simp add: df_node_wf_def)
  have "\<forall>e \<in> set (df_edges g). ge_src e < Suc (length (df_nodes g)) \<and> ge_dst e < Suc (length (df_nodes g)) \<and>
      ge_seq e < length (gn_ops ((df_nodes g @ [n]) ! ge_dst e))"
  proof
    fix e assume "e \<in> set (df_edges g)"
    then have "ge_src e < length (df_nodes g)" "ge_dst e < length (df_nodes g)"
      "ge_seq e < length (gn_ops (df_nodes g ! ge_dst e))" using g by (auto simp: df_wf_def)
    then show "ge_src e < Suc (length (df_nodes g)) \<and> ge_dst e < Suc (length (df_nodes g)) \<and>
      ge_seq e < length (gn_ops ((df_nodes g @ [n]) ! ge_dst e))" by (simp add: nth_append)
  qed
  then have "df_wf (g\<lparr>df_nodes := df_nodes g @ [n]\<rparr>)"
    using g new unfolding df_wf_def by (auto simp: nth_append less_Suc_eq)
  moreover have "df_ext g (g\<lparr>df_nodes := df_nodes g @ [n]\<rparr>)" by (simp add: df_ext_def nth_append)
  ultimately show ?thesis by (simp add: df_step_def)
qed

lemma add_const_edge_step:
  assumes g: "df_wf g" "df_open g dst"
  shows "ok (df_step g) (add_const_edge s dst op g)"
proof -
  define c where "c = graph_node_new\<lparr>gn_ops := [No_Const s]\<rparr>"
  define e where "e = \<lparr>ge_src = length (df_nodes g), ge_dst = dst, ge_op = op, ge_seq = gn_seq (df_nodes g ! dst)\<rparr>"
  define k where "k = length (df_edges g)"
  define g1 where "g1 = g\<lparr>df_nodes := df_nodes g @ [c]\<rparr>"
  define d where "d = (df_nodes g ! dst)\<lparr>gn_in_edges := gn_in_edges (df_nodes g ! dst) @ [k]\<rparr>"
  define h where "h = g1\<lparr>df_edges := df_edges g @ [e], df_nodes := (df_nodes g1)[dst := d]\<rparr>"
  have b: "dst < length (df_nodes g)" "\<not> is_const_node (df_nodes g ! dst)" using g by (auto simp: df_open_def df_plain_def)
  have c: "is_const_node c" "gn_in_edges c = []" "gn_out_edges c = []" "gn_seq c = 0" "gn_ops c \<noteq> []"
    by (simp_all add: c_def graph_node_new_def is_const_node_def)
  have run: "add_const_edge s dst op g = Inr h"
    using b by (simp add: add_const_edge_def df_upd_node_def Let_def h_def g1_def d_def c_def e_def k_def nth_append)
  have s1: "df_step g g1" unfolding g1_def by (rule df_push_node_step) (use g c in auto)
  then have w1: "df_wf g1" by (simp add: df_step_def)
  have es: "df_edges h = df_edges g1 @ [e]" "length (df_nodes h) = length (df_nodes g1)" "df_n_locals h = df_n_locals g1"
    "length (df_edges g1) = k" by (simp_all add: h_def g1_def k_def)
  have dst1: "dst < length (df_nodes g1)" "df_nodes g1 ! dst = df_nodes g ! dst" using b by (simp_all add: g1_def nth_append)
  have node: "df_nodes h ! i = (if i = dst then d else df_nodes g1 ! i)" if "i < length (df_nodes g1)" for i
    using that b by (auto simp: h_def nth_list_update)
  have keep: "gn_ops (df_nodes h ! i) = gn_ops (df_nodes g1 ! i)" "gn_seq (df_nodes h ! i) = gn_seq (df_nodes g1 ! i)"
    "gn_out_edges (df_nodes h ! i) = gn_out_edges (df_nodes g1 ! i)"
    "gn_in_edges (df_nodes h ! i) = gn_in_edges (df_nodes g1 ! i) @ (if i = dst then [k] else [])"
    "is_const_node (df_nodes h ! i) = is_const_node (df_nodes g1 ! i)"
    if "i < length (df_nodes g1)" for i
    using node [OF that] dst1 by (auto simp: d_def is_const_node_def)
  have last: "df_nodes g1 ! length (df_nodes g) = c" by (simp add: g1_def)
  have wfn: "df_node_wf (df_n_locals h) (df_edges h) i (df_nodes h ! i)" if i: "i < length (df_nodes g1)" for i
  proof (cases "is_const_node (df_nodes g1 ! i)")
    case True
    then have "i \<noteq> dst" using b dst1 by auto
    with True df_nodeD [OF w1 i] keep [OF i] es show ?thesis
      by (auto simp: df_node_wf_def edges_where_append e_def)
  next
    case False
    then have "i \<noteq> length (df_nodes g)" using last c by auto
    with False df_nodeD [OF w1 i] keep [OF i] es show ?thesis
      by (auto simp: df_node_wf_def edges_where_append e_def)
  qed
  have seq: "ge_seq e < length (gn_ops (df_nodes g1 ! dst))" using g dst1 by (simp add: df_open_def e_def)
  have "\<forall>e' \<in> set (df_edges h). ge_src e' < length (df_nodes h) \<and> ge_dst e' < length (df_nodes h) \<and>
      ge_seq e' < length (gn_ops (df_nodes h ! ge_dst e'))"
    using w1 dst1 seq keep(1) es unfolding df_wf_def by (auto simp: e_def g1_def)
  moreover have "df_n_locals h \<le> length (df_nodes h)" using w1 es by (simp add: df_wf_def)
  ultimately have "df_wf h" using wfn es by (simp add: df_wf_def)
  moreover have "df_ext g1 h" using keep es by (simp add: df_ext_def) (simp add: h_def)
  ultimately have "df_step g1 h" by (simp add: df_step_def)
  with s1 show ?thesis using df_step_trans by (auto simp: run)
qed

subsection \<open>Places and operands\<close>

definition df_errors :: "rap_error set" where
  "df_errors = {Todo, Unwrap_none}"

lemma ok_imp_within: "ok P r \<Longrightarrow> within E P r"
  by (auto simp: ok_def)

lemma df_step_wf: "df_step g h \<Longrightarrow> df_wf h"
  by (simp add: df_step_def)

lemma df_step_n_locals: "df_step g h \<Longrightarrow> df_n_locals h = df_n_locals g"
  by (simp add: df_step_def df_ext_def)

lemma df_step_refl: "df_wf g \<Longrightarrow> df_step g g"
  by (simp add: df_step_def)

lemma add_node_edge_within:
  "df_wf g \<Longrightarrow> df_plain g src \<Longrightarrow> df_open g dst \<Longrightarrow> within E (df_step g) (add_node_edge src dst op g)"
  by (rule ok_imp_within) (rule add_node_edge_step)

lemma add_elem_edge_step:
  assumes g: "df_wf g" "df_plain g src" "df_open g dst" and e: "case elem of Index i \<Rightarrow> i < df_n_locals g | _ \<Rightarrow> True"
  shows "within df_errors (df_step g) (add_elem_edge tcx elem src dst g)"
proof -
  have edge: "within df_errors (df_step g) (add_node_edge src dst op g)" for op
    using g by (rule add_node_edge_within)
  show ?thesis
  proof (cases elem)
    case (Downcast symbol v)
    have "within df_errors (df_step g) (rbind (unwrap symbol) (\<lambda>s. add_node_edge src dst (Eo_Downcast s) g))"
      by (rule within_rbindI [where Q = "\<lambda>_. True"]) (simp_all add: edge within_unwrap df_errors_def [symmetric], simp add: within_unwrap df_errors_def)
    with Downcast show ?thesis by (simp add: add_elem_edge_def)
  next
    case (Index i)
    have "within df_errors (df_step g) (rbind (add_node_edge src dst Eo_Index g) (add_node_edge i dst Eo_Index))"
    proof (rule within_rbindI [OF edge])
      fix h assume h: "df_step g h"
      have "df_plain g i" using e Index df_plain_local [OF g(1)] by simp
      then have "within df_errors (df_step h) (add_node_edge i dst Eo_Index h)"
        using h g df_step_plain df_step_open by (intro add_node_edge_within) (auto simp: df_step_wf)
      then show "within df_errors (df_step g) (add_node_edge i dst Eo_Index h)"
        by (rule within_mono) (use h df_step_trans in blast)
    qed
    with Index show ?thesis by (simp add: add_elem_edge_def)
  qed (simp_all add: add_elem_edge_def edge, simp add: df_errors_def)
qed

lemma parse_one_step_step:
  assumes g: "df_wf g" "df_plain g src" and e: "case elem of Index i \<Rightarrow> i < df_n_locals g | _ \<Rightarrow> True"
  shows "within df_errors (\<lambda>(dst, h). df_step g h \<and> df_open h dst) (parse_one_step tcx elem (src, g))"
proof -
  define dst where "dst = length (df_nodes g)"
  define g1 where "g1 = g\<lparr>df_nodes := df_nodes g @ [graph_node_new]\<rparr>"
  have s1: "df_step g g1" unfolding g1_def
    by (rule df_push_node_step) (use g in \<open>simp_all add: graph_node_new_def\<close>)
  have o: "df_open g1 dst"
    by (simp add: df_open_def df_plain_def g1_def dst_def graph_node_new_def is_const_node_def)
  have "within df_errors (df_step g1) (add_elem_edge tcx elem src dst g1)"
    using s1 g o df_step_plain e df_step_n_locals [OF s1] by (intro add_elem_edge_step) (auto simp: df_step_wf split: proj_elem.splits)
  then have "within df_errors (\<lambda>(d, h). df_step g h \<and> df_open h d)
      (rbind (add_elem_edge tcx elem src dst g1) (\<lambda>h. Inr (dst, h)))"
    by (rule within_rbindI) (use s1 o df_step_trans df_step_open in auto)
  then show ?thesis by (simp add: parse_one_step_def Let_def dst_def g1_def)
qed

lemma parse_place_step:
  assumes g: "df_wf g" and p: "place_ok (df_n_locals g) p"
  shows "within df_errors (\<lambda>(dst, h). df_step g h \<and> df_plain h dst) (parse_place tcx p g)"
  unfolding parse_place_def
proof (rule within_rfold)
  have "p_local p < df_n_locals g" using p by (simp add: place_ok_def)
  with g show "case (p_local p, g) of (dst, h) \<Rightarrow> df_step g h \<and> df_plain h dst"
    by (auto simp: df_step_refl df_plain_local)
next
  fix e s assume e: "e \<in> set (p_projection p)" and s: "case s of (dst, h) \<Rightarrow> df_step g h \<and> df_plain h dst"
  obtain src h where sh: "s = (src, h)" by (cases s)
  with s have h: "df_step g h" "df_plain h src" by auto
  have "case e of Index i \<Rightarrow> i < df_n_locals h | _ \<Rightarrow> True"
    using p e df_step_n_locals [OF h(1)] by (fastforce simp: place_ok_def list_all_iff split: proj_elem.splits)
  then have "within df_errors (\<lambda>(dst, k). df_step h k \<and> df_open k dst) (parse_one_step tcx e (src, h))"
    using h by (intro parse_one_step_step) (auto simp: df_step_wf)
  then show "within df_errors (\<lambda>(dst, h). df_step g h \<and> df_plain h dst) (parse_one_step tcx e s)"
    unfolding sh by (rule within_mono) (use h df_step_trans df_open_def in auto)
qed

lemma add_place_step:
  assumes g: "df_wf g" "df_open g dst" and p: "place_ok (df_n_locals g) p"
  shows "within df_errors (df_step g) (add_place tcx p dst op g)"
  unfolding add_place_def
proof (rule within_rbindI [OF parse_place_step [OF g(1) p]], clarify)
  fix src h assume h: "df_step g h" "df_plain h src"
  then have "within df_errors (df_step h) (add_node_edge src dst op h)"
    using g by (intro add_node_edge_within) (auto simp: df_step_wf df_step_open)
  then show "within df_errors (df_step g) (add_node_edge src dst op h)"
    by (rule within_mono) (use h df_step_trans in blast)
qed

lemma add_operand_step:
  assumes "df_wf g" "df_open g dst" "operand_ok (df_n_locals g) opnd"
  shows "within df_errors (df_step g) (add_operand tcx opnd dst g)"
proof (cases opnd)
  case (Constant c)
  then show ?thesis using assms by (auto simp: add_operand_def intro: ok_imp_within add_const_edge_step)
qed (use assms add_place_step [of g dst] in \<open>auto simp: add_operand_def add_place_def\<close>)

lemma add_operands_step:
  assumes "df_wf g" "df_open g dst" "list_all (operand_ok (df_n_locals g)) ops"
  shows "within df_errors (df_step g) (add_operands tcx ops dst g)"
  unfolding add_operands_def
proof (rule within_rfold)
  fix opnd h assume "opnd \<in> set ops" and h: "df_step g h"
  then have "within df_errors (df_step h) (add_operand tcx opnd dst h)"
    using assms by (intro add_operand_step) (auto simp: df_step_wf df_step_open df_step_n_locals list_all_iff)
  then show "within df_errors (df_step g) (add_operand tcx opnd dst h)"
    by (rule within_mono) (use h df_step_trans in blast)
qed (use assms df_step_refl in auto)

subsection \<open>Statements\<close>

text \<open>
  Between opening the slot of a statement and closing it the slot holds any operation but a
  constant; \<open>df_same g h\<close> says what stays of the graph as a whole.
\<close>

definition df_same :: "df_graph \<Rightarrow> df_graph \<Rightarrow> bool" where
  "df_same g h \<longleftrightarrow> df_wf h \<and> df_n_locals h = df_n_locals g \<and> df_def_id h = df_def_id g \<and> df_argc h = df_argc g \<and>
     length (df_nodes g) \<le> length (df_nodes h)"

lemma df_step_same: "df_step g h \<Longrightarrow> df_same g h"
  by (simp add: df_step_def df_ext_def df_same_def)

lemma df_same_trans: "df_same g h \<Longrightarrow> df_same h k \<Longrightarrow> df_same g k"
  by (simp add: df_same_def)

text \<open>Updating the operations, the span or the counter of a plain node.\<close>

lemma df_upd_same:
  assumes g: "df_wf g" "df_plain g i"
    and f: "gn_in_edges (f n) = gn_in_edges n" "gn_out_edges (f n) = gn_out_edges n" "\<not> is_const_node (f n)"
      "length (gn_ops n) \<le> length (gn_ops (f n))" "gn_seq (f n) \<le> length (gn_ops (f n))"
    and n: "n = df_nodes g ! i"
  shows "ok (\<lambda>h. df_same g h \<and> df_nodes h = (df_nodes g)[i := f n] \<and> df_edges h = df_edges g) (df_upd_node i f g)"
proof -
  have i: "i < length (df_nodes g)" "\<not> is_const_node n" using g n by (auto simp: df_plain_def)
  define h where "h = g\<lparr>df_nodes := (df_nodes g)[i := f n]\<rparr>"
  have node: "df_nodes h ! j = (if j = i then f n else df_nodes g ! j)" if "j < length (df_nodes g)" for j
    using that i by (auto simp: h_def nth_list_update)
  have wfn: "df_node_wf (df_n_locals g) (df_edges g) j (df_nodes h ! j)" if j: "j < length (df_nodes g)" for j
    using node [OF j] df_nodeD [OF g(1) j] i f n by (auto simp: df_node_wf_def)
  have ops: "length (gn_ops (df_nodes g ! j)) \<le> length (gn_ops (df_nodes h ! j))" if "j < length (df_nodes g)" for j
    using node [OF that] f n by auto
  have "\<forall>e \<in> set (df_edges g). ge_src e < length (df_nodes g) \<and> ge_dst e < length (df_nodes g) \<and>
      ge_seq e < length (gn_ops (df_nodes h ! ge_dst e))"
    using g(1) ops unfolding df_wf_def by (meson order_less_le_trans)
  with wfn g(1) have "df_wf h" by (simp add: df_wf_def h_def)
  then have "df_same g h" by (simp add: df_same_def h_def)
  then show ?thesis using i n by (simp add: df_upd_node_def h_def)
qed

lemma df_open_slot_open:
  assumes g: "df_wf g" "df_plain g dst"
  shows "ok (\<lambda>(seq, h). df_same g h \<and> df_open h dst \<and> seq = gn_seq (df_nodes h ! dst)) (df_open_slot dst g)"
proof -
  define n where "n = df_nodes g ! dst"
  have d: "dst < length (df_nodes g)" "\<not> is_const_node n" using g by (auto simp: df_plain_def n_def)
  have nwf: "gn_ops n \<noteq> []" "gn_seq n \<le> length (gn_ops n)"
    using df_nodeD [OF g(1) d(1)] by (simp_all add: df_node_wf_def n_def)
  show ?thesis
  proof (cases "gn_seq n = length (gn_ops n)")
    case True
    have nc: "\<not> is_const_node (n\<lparr>gn_ops := gn_ops n @ [No_Nop]\<rparr>)"
      using nwf by (cases "gn_ops n") (auto simp: is_const_node_def split: list.splits node_op.splits)
    have "ok (\<lambda>h. df_same g h \<and> df_nodes h = (df_nodes g)[dst := n\<lparr>gn_ops := gn_ops n @ [No_Nop]\<rparr>] \<and> df_edges h = df_edges g)
        (df_upd_node dst (\<lambda>n. n\<lparr>gn_ops := gn_ops n @ [No_Nop]\<rparr>) g)"
      by (rule df_upd_same [OF g]) (use nc nwf in \<open>simp_all add: n_def\<close>)
    with True d nc show ?thesis
      by (auto simp: df_open_slot_def n_def [symmetric] ok_def df_open_def df_plain_def)
  next
    case False
    then show ?thesis using g d nwf
      by (simp add: df_open_slot_def n_def [symmetric] df_open_def df_same_def)
  qed
qed

lemma df_set_op_same:
  assumes g: "df_wf g" "df_open g dst" "seq = gn_seq (df_nodes g ! dst)" and op: "\<And>s. op \<noteq> No_Const s"
  shows "ok (\<lambda>h. df_same g h \<and> df_open h dst \<and> gn_seq (df_nodes h ! dst) = seq) (df_set_op dst seq op g)"
proof -
  define n where "n = df_nodes g ! dst"
  have d: "df_plain g dst" "dst < length (df_nodes g)" "seq < length (gn_ops n)"
    using g by (auto simp: df_open_def df_plain_def n_def)
  have nwf: "gn_seq n \<le> length (gn_ops n)"
    using df_nodeD [OF g(1) d(2)] by (simp add: df_node_wf_def n_def)
  have nc: "\<not> is_const_node (n\<lparr>gn_ops := (gn_ops n)[seq := op]\<rparr>)"
  proof
    assume "is_const_node (n\<lparr>gn_ops := (gn_ops n)[seq := op]\<rparr>)"
    then obtain s where s: "(gn_ops n)[seq := op] = [No_Const s]"
      by (auto simp: is_const_node_def split: list.splits node_op.splits)
    then have "length (gn_ops n) = 1" by (metis length_list_update length_Cons list.size(3) One_nat_def)
    with d have "(gn_ops n)[seq := op] ! 0 = op" by simp
    with s op [of s] show False by simp
  qed
  have "ok (\<lambda>h. df_same g h \<and> df_nodes h = (df_nodes g)[dst := n\<lparr>gn_ops := (gn_ops n)[seq := op]\<rparr>] \<and> df_edges h = df_edges g)
      (df_upd_node dst (\<lambda>m. m\<lparr>gn_ops := (gn_ops n)[seq := op]\<rparr>) g)"
    by (rule df_upd_same [OF g(1) d(1)]) (use nc nwf in \<open>simp_all add: n_def\<close>)
  with d nc nwf g(3) show ?thesis
    by (auto simp: df_set_op_def n_def [symmetric] ok_def df_open_def df_plain_def)
qed

lemma df_close_slot_same:
  assumes g: "df_wf g" "df_open g dst" "seq = gn_seq (df_nodes g ! dst)"
  shows "ok (df_same g) (df_upd_node dst (\<lambda>n. n\<lparr>gn_seq := seq + 1\<rparr>) g)"
    "ok (df_same g) (df_upd_node dst (\<lambda>n. n\<lparr>gn_span := sp, gn_seq := seq + 1\<rparr>) g)"
proof -
  have p: "df_plain g dst" "\<not> is_const_node (df_nodes g ! dst)" using g by (auto simp: df_open_def df_plain_def)
  show "ok (df_same g) (df_upd_node dst (\<lambda>n. n\<lparr>gn_seq := seq + 1\<rparr>) g)"
    by (rule ok_mono [OF df_upd_same [OF g(1) p(1)]])
      (use p g in \<open>auto simp: is_const_node_def df_open_def\<close>)
  show "ok (df_same g) (df_upd_node dst (\<lambda>n. n\<lparr>gn_span := sp, gn_seq := seq + 1\<rparr>) g)"
    by (rule ok_mono [OF df_upd_same [OF g(1) p(1)]])
      (use p g in \<open>auto simp: is_const_node_def df_open_def\<close>)
qed

text \<open>Adding edges and then storing the operation.\<close>

lemma df_edges_then_op:
  assumes g: "df_wf g" "df_open g dst" "seq = gn_seq (df_nodes g ! dst)"
    and m: "within df_errors (df_step g) m" and op: "\<And>s. op \<noteq> No_Const s"
  shows "within df_errors (\<lambda>h. df_same g h \<and> df_open h dst \<and> gn_seq (df_nodes h ! dst) = seq)
    (rbind m (df_set_op dst seq op))"
proof (rule within_rbindI [OF m])
  fix h assume h: "df_step g h"
  have d: "dst < length (df_nodes g)" using g by (simp add: df_open_def df_plain_def)
  have "gn_seq (df_nodes h ! dst) = seq" using h g d by (simp add: df_step_def df_ext_def)
  then have "ok (\<lambda>k. df_same h k \<and> df_open k dst \<and> gn_seq (df_nodes k ! dst) = seq) (df_set_op dst seq op h)"
    using h g op by (intro df_set_op_same) (auto simp: df_step_wf df_step_open)
  then show "within df_errors (\<lambda>h. df_same g h \<and> df_open h dst \<and> gn_seq (df_nodes h ! dst) = seq) (df_set_op dst seq op h)"
    by (intro ok_imp_within) (auto elim!: ok_mono intro: df_same_trans df_step_same [OF h])
qed

lemma add_rvalue_same:
  assumes g: "df_wf g" "df_open g dst" "seq = gn_seq (df_nodes g ! dst)" and rv: "rvalue_ok (df_n_locals g) rv"
  shows "within df_errors (\<lambda>h. df_same g h \<and> df_open h dst \<and> gn_seq (df_nodes h ! dst) = seq) (add_rvalue tcx rv dst seq g)"
proof -
  note store = df_edges_then_op [OF g]
  note adds = add_operand_step [OF g(1,2)] add_operands_step [OF g(1,2)] add_place_step [OF g(1,2)]
  show ?thesis
  proof (cases rv)
    case (Aggregate k ops)
    have m: "within df_errors (df_step g) (add_operands tcx ops dst g)" using rv Aggregate by (simp add: adds)
    show ?thesis
    proof (cases "agg_op k")
      case (Inl e)
      then have "e \<in> df_errors" by (auto simp: agg_op_def df_errors_def split: agg_kind.splits)
      with m Inl Aggregate show ?thesis
        by (cases "add_operands tcx ops dst g") (auto simp: add_rvalue_def)
    next
      case (Inr op)
      then have "op \<noteq> No_Const s" for s by (auto simp: agg_op_def split: agg_kind.splits)
      with store [OF m] Aggregate Inr show ?thesis by (simp add: add_rvalue_def)
    qed
  next
    case ThreadLocalRef
    then show ?thesis by (simp add: add_rvalue_def df_errors_def)
  next
    case (NullaryOp t)
    then show ?thesis using store [OF ok_imp_within [OF add_const_edge_step [OF g(1,2)]]]
      by (simp add: add_rvalue_def)
  qed (use rv adds in \<open>simp_all add: add_rvalue_def store\<close>)
qed

text \<open>Opening a slot, filling it and closing it.\<close>

lemma df_slot_same:
  assumes g: "df_wf g" "df_plain g dst"
    and body: "\<And>h. \<lbrakk>df_same g h; df_open h dst\<rbrakk> \<Longrightarrow>
      within df_errors (\<lambda>k. df_same h k \<and> df_open k dst \<and> gn_seq (df_nodes k ! dst) = gn_seq (df_nodes h ! dst))
        (body (gn_seq (df_nodes h ! dst)) h)"
    and close: "\<And>k seq. \<lbrakk>df_wf k; df_open k dst; seq = gn_seq (df_nodes k ! dst)\<rbrakk> \<Longrightarrow> ok (df_same k) (close seq k)"
  shows "within df_errors (df_same g) (rbind (df_open_slot dst g) (\<lambda>(seq, h). rbind (body seq h) (close seq)))"
proof (rule within_rbindI [OF ok_imp_within [OF df_open_slot_open [OF g]]], clarify)
  fix h assume h: "df_same g h" "df_open h dst"
  show "within df_errors (df_same g) (rbind (body (gn_seq (df_nodes h ! dst)) h) (close (gn_seq (df_nodes h ! dst))))"
  proof (rule within_rbindI [OF body [OF h]], elim conjE)
    fix k assume k: "df_same h k" "df_open k dst" "gn_seq (df_nodes k ! dst) = gn_seq (df_nodes h ! dst)"
    then have "ok (df_same k) (close (gn_seq (df_nodes h ! dst)) k)" by (intro close) (auto simp: df_same_def)
    with h k show "within df_errors (df_same g) (close (gn_seq (df_nodes h ! dst)) k)"
      by (intro ok_imp_within) (blast intro: ok_mono df_same_trans)
  qed
qed

lemma df_set_span_same:
  assumes "df_wf g" "df_plain g dst"
  shows "ok (\<lambda>h. df_same g h \<and> df_plain h dst) (df_upd_node dst (\<lambda>n. n\<lparr>gn_span := sp\<rparr>) g)"
proof -
  have d: "dst < length (df_nodes g)" "\<not> is_const_node (df_nodes g ! dst)" using assms by (auto simp: df_plain_def)
  have "gn_seq (df_nodes g ! dst) \<le> length (gn_ops (df_nodes g ! dst))"
    using df_nodeD [OF assms(1) d(1)] by (simp add: df_node_wf_def)
  with d show ?thesis by (intro ok_mono [OF df_upd_same [OF assms]]) (auto simp: is_const_node_def df_plain_def)
qed

lemma add_statm_same:
  assumes g: "df_wf g" and s: "stmt_ok (df_n_locals g) s"
  shows "within df_errors (df_same g) (add_statm_to_graph tcx s g)"
proof (cases "s_kind s")
  case (Assign p rv)
  with s have p: "place_ok (df_n_locals g) p" "rvalue_ok (df_n_locals g) rv" by (auto simp: stmt_ok_def)
  have slot: "within df_errors (df_same g2) (rbind (df_open_slot dst g2) (\<lambda>(seq, h).
      rbind (add_rvalue tcx rv dst seq h) (df_upd_node dst (\<lambda>n. n\<lparr>gn_seq := seq + 1\<rparr>))))"
    if g2: "df_same g g2" "df_plain g2 dst" for g2 dst
  proof (rule df_slot_same)
    show "df_wf g2" "df_plain g2 dst" using g2 by (auto simp: df_same_def)
    fix h assume h: "df_same g2 h" "df_open h dst"
    then have "rvalue_ok (df_n_locals h) rv" using p g2 by (simp add: df_same_def)
    with h show "within df_errors (\<lambda>k. df_same h k \<and> df_open k dst \<and> gn_seq (df_nodes k ! dst) = gn_seq (df_nodes h ! dst))
        (add_rvalue tcx rv dst (gn_seq (df_nodes h ! dst)) h)" by (intro add_rvalue_same) (auto simp: df_same_def)
  qed (rule df_close_slot_same)
  have "within df_errors (df_same g)
      (rbind (parse_place tcx p g) (\<lambda>(dst, g).
          rbind (df_upd_node dst (\<lambda>n. n\<lparr>gn_span := s_span s\<rparr>) g) (\<lambda>g.
          rbind (df_open_slot dst g) (\<lambda>(seq, g).
          rbind (add_rvalue tcx rv dst seq g) (df_upd_node dst (\<lambda>n. n\<lparr>gn_seq := seq + 1\<rparr>))))))"
  proof (rule within_rbindI [OF parse_place_step [OF g p(1)]], clarify,
      rule within_rbindI [OF ok_imp_within [OF df_set_span_same]], simp add: df_step_wf, assumption, elim conjE)
    fix dst g1 g2 assume "df_step g g1" "df_same g1 g2" "df_plain g2 dst"
    then have "df_same g g2" using df_same_trans df_step_same by blast
    from slot [OF this \<open>df_plain g2 dst\<close>] this
    show "within df_errors (df_same g) (rbind (df_open_slot dst g2) (\<lambda>(seq, h).
      rbind (add_rvalue tcx rv dst seq h) (df_upd_node dst (\<lambda>n. n\<lparr>gn_seq := seq + 1\<rparr>))))"
      by (blast intro: within_mono df_same_trans)
  qed
  with Assign show ?thesis by (simp add: add_statm_to_graph_def)
qed (use g in \<open>simp_all add: add_statm_to_graph_def df_same_def\<close>)

lemma add_call_same:
  assumes g: "df_wf g" "df_open g dst"
    and ops: "operand_ok (df_n_locals g) func" "list_all (operand_ok (df_n_locals g)) args"
  shows "within df_errors (\<lambda>h. df_same g h \<and> df_open h dst \<and> gn_seq (df_nodes h ! dst) = gn_seq (df_nodes g ! dst))
    (add_call tcx func args dst (gn_seq (df_nodes g ! dst)) g)"
proof -
  note store = df_edges_then_op [OF g refl]
  have args: "within df_errors (df_step g) (add_operands tcx args dst g)" using g ops by (intro add_operands_step)
  show ?thesis
  proof (cases func)
    case (Constant c)
    then show ?thesis using store [OF args] g
      by (auto simp: add_call_def df_same_def split: const_kind.splits ty.splits)
  next
    case (Move p)
    have "within df_errors (df_step g) (rbind (add_operand tcx func dst g) (add_operands tcx args dst))"
    proof (rule within_rbindI [OF add_operand_step [OF g ops(1)]])
      fix h assume h: "df_step g h"
      then have "within df_errors (df_step h) (add_operands tcx args dst h)"
        using g ops by (intro add_operands_step) (auto simp: df_step_wf df_step_open df_step_n_locals)
      then show "within df_errors (df_step g) (add_operands tcx args dst h)"
        by (rule within_mono) (use h df_step_trans in blast)
    qed
    from store [OF this] Move show ?thesis by (simp add: add_call_def rbind_assoc)
  qed (simp add: add_call_def df_errors_def)
qed

lemma add_terminator_same:
  assumes g: "df_wf g" and t: "term_ok (df_n_locals g) t"
  shows "within df_errors (df_same g) (add_terminator_to_graph tcx t g)"
proof (cases "t_kind t")
  case (Call func args dest tgt uw)
  with t have ops: "operand_ok (df_n_locals g) func" "list_all (operand_ok (df_n_locals g)) args" "p_local dest < df_n_locals g"
    by (auto simp: term_ok_def)
  have "within df_errors (df_same g) (rbind (df_open_slot (p_local dest) g) (\<lambda>(seq, h).
      rbind (add_call tcx func args (p_local dest) seq h)
        (df_upd_node (p_local dest) (\<lambda>n. n\<lparr>gn_span := t_span t, gn_seq := seq + 1\<rparr>))))"
  proof (rule df_slot_same)
    show "df_plain g (p_local dest)" using g ops by (simp add: df_plain_local)
    fix h assume h: "df_same g h" "df_open h (p_local dest)"
    with ops show "within df_errors (\<lambda>k. df_same h k \<and> df_open k (p_local dest) \<and>
        gn_seq (df_nodes k ! p_local dest) = gn_seq (df_nodes h ! p_local dest))
      (add_call tcx func args (p_local dest) (gn_seq (df_nodes h ! p_local dest)) h)"
      by (intro add_call_same) (auto simp: df_same_def)
  qed (use g df_close_slot_same in auto)
  with Call show ?thesis by (simp add: add_terminator_to_graph_def Let_def)
qed (use g in \<open>simp_all add: add_terminator_to_graph_def df_same_def\<close>)

lemma df_add_block_same:
  assumes g: "df_wf g" and bb: "list_all (stmt_ok (df_n_locals g)) (bb_statements bb)"
    "pred_option (term_ok (df_n_locals g)) (bb_terminator bb)"
  shows "within df_errors (df_same g) (df_add_block tcx bb g)"
proof -
  have "within df_errors (df_same g) (rfold (add_statm_to_graph tcx) (bb_statements bb) g)"
  proof (rule within_rfold)
    fix s h assume "s \<in> set (bb_statements bb)" and h: "df_same g h"
    then have "within df_errors (df_same h) (add_statm_to_graph tcx s h)"
      using bb by (intro add_statm_same) (auto simp: df_same_def list_all_iff)
    then show "within df_errors (df_same g) (add_statm_to_graph tcx s h)"
      by (rule within_mono) (use h df_same_trans in blast)
  qed (use g in \<open>simp add: df_same_def\<close>)
  then show ?thesis unfolding df_add_block_def
  proof (rule within_rbindI)
    fix h assume h: "df_same g h"
    show "within df_errors (df_same g) (case bb_terminator bb of None \<Rightarrow> Inr h | Some t \<Rightarrow> add_terminator_to_graph tcx t h)"
    proof (cases "bb_terminator bb")
      case (Some t)
      then have "within df_errors (df_same h) (add_terminator_to_graph tcx t h)"
        using bb h by (intro add_terminator_same) (auto simp: df_same_def)
      then have "within df_errors (df_same g) (add_terminator_to_graph tcx t h)"
        by (rule within_mono) (use h df_same_trans in blast)
      with Some show ?thesis by simp
    qed (use h in simp)
  qed
qed

lemma build_graph_same:
  assumes "body_ok (optimized_mir tcx d)"
  shows "within df_errors (\<lambda>g. df_wf g \<and> df_n_locals g = length (local_decls (optimized_mir tcx d)) \<and>
      df_argc g = arg_count (optimized_mir tcx d)) (build_graph tcx d)"
proof -
  define b where "b = optimized_mir tcx d"
  define g0 where "g0 = df_new d (body_span b) (arg_count b) (length (local_decls b))"
  have n0: "df_n_locals g0 = length (local_decls b)" "df_argc g0 = arg_count b" by (simp_all add: g0_def df_new_def)
  have "within df_errors (df_same g0) (rfold (df_add_block tcx) (basic_blocks b) g0)"
  proof (rule within_rfold)
    fix bb h assume "bb \<in> set (basic_blocks b)" and h: "df_same g0 h"
    then have "within df_errors (df_same h) (df_add_block tcx bb h)"
      using assms n0 by (intro df_add_block_same) (auto simp: df_same_def body_ok_def b_def list_all_iff)
    then show "within df_errors (df_same g0) (df_add_block tcx bb h)"
      by (rule within_mono) (use h df_same_trans in blast)
  qed (simp add: df_same_def g0_def df_new_wf)
  then show ?thesis
    unfolding build_graph_def Let_def b_def [symmetric] g0_def [symmetric]
    by (rule within_mono) (use n0 in \<open>auto simp: df_same_def\<close>)
qed


text \<open>A body over three locals with the given assignments, for examples.\<close>

definition demo_place :: "nat \<Rightarrow> place" where
  "demo_place i = \<lparr>p_local = i, p_projection = []\<rparr>"

definition demo_flow_tcx :: "(nat \<times> rvalue) list \<Rightarrow> tcx" where
  "demo_flow_tcx asg = demo_tcx\<lparr>optimized_mir := (\<lambda>_.
     \<lparr>local_decls = [Ty_Bool, Ty_Bool, Ty_Bool], arg_count = 1,
      basic_blocks = [\<lparr>bb_statements = map (\<lambda>(d, rv). \<lparr>s_kind = Assign (demo_place d) rv, s_span = d\<rparr>) asg,
         bb_terminator = None, bb_is_cleanup = False\<rparr>], body_span = 0\<rparr>)\<rparr>"

lemmas demo_flow_simps = demo_flow_tcx_def demo_place_def body_ok_def stmt_ok_def place_ok_def build_graph_def
  df_add_block_def add_statm_to_graph_def parse_place_def df_upd_node_def df_open_slot_def add_rvalue_def add_operand_def
  add_operands_def add_node_edge_def add_const_edge_def df_set_op_def df_new_def graph_node_new_def Let_def at_def set_at_def




lemma demo_flow_wf:
  assumes "build_graph (demo_flow_tcx asg) 0 = Inr g" "body_ok (optimized_mir (demo_flow_tcx asg) 0)"
  shows "df_wf g" "df_n_locals g = 3"
  using build_graph_same [OF assms(2)] assms(1) by (simp_all add: demo_flow_tcx_def)

subsection \<open>Connectivity\<close>

definition df_nbrs :: "df_graph \<Rightarrow> direction \<Rightarrow> nat \<Rightarrow> nat list" where
  "df_nbrs g dir i =
     (let up = map (\<lambda>e. ge_src (df_edges g ! e)) (gn_in_edges (df_nodes g ! i));
          down = map (\<lambda>e. ge_dst (df_edges g ! e)) (gn_out_edges (df_nodes g ! i))
      in case dir of Upside \<Rightarrow> up | Downside \<Rightarrow> down | Both \<Rightarrow> up @ down)"

definition df_flow :: "df_graph \<Rightarrow> (nat \<times> nat) set" where
  "df_flow g = {(ge_src e, ge_dst e) | e. e \<in> set (df_edges g)}"

lemma df_flow_image: "df_flow g = (\<lambda>e. (ge_src e, ge_dst e)) ` set (df_edges g)"
  by (auto simp: df_flow_def)

lemma df_edge_lists:
  assumes "df_wf g" "i < length (df_nodes g)"
  shows "k \<in> set (gn_in_edges (df_nodes g ! i)) \<longleftrightarrow> k < length (df_edges g) \<and> ge_dst (df_edges g ! k) = i"
    "df_plain g i \<Longrightarrow> k \<in> set (gn_out_edges (df_nodes g ! i)) \<longleftrightarrow> k < length (df_edges g) \<and> ge_src (df_edges g ! k) = i"
    "k \<in> set (gn_out_edges (df_nodes g ! i)) \<Longrightarrow> k < length (df_edges g)"
    "\<not> df_plain g i \<Longrightarrow> gn_in_edges (df_nodes g ! i) = [] \<and> gn_out_edges (df_nodes g ! i) = []"
  using df_nodeD [OF assms] assms(2)
  by (auto simp: df_node_wf_def in_edges_where df_plain_def split: if_splits)

text \<open>The target of an edge is never a constant.\<close>

lemma df_flow_plain:
  assumes "df_wf g" "(i, j) \<in> df_flow g"
  shows "df_plain g j" "i < length (df_nodes g)"
proof -
  from assms obtain k where k: "k < length (df_edges g)" "ge_dst (df_edges g ! k) = j" "ge_src (df_edges g ! k) = i"
    by (auto simp: df_flow_def in_set_conv_nth)
  then have b: "j < length (df_nodes g)" "i < length (df_nodes g)"
    using assms(1) nth_mem [OF k(1)] by (auto simp: df_wf_def)
  then have "k \<in> set (gn_in_edges (df_nodes g ! j))" using k df_edge_lists(1) [OF assms(1)] by simp
  then show "df_plain g j" using df_edge_lists(4) [OF assms(1) b(1)] by (cases "df_plain g j") auto
  show "i < length (df_nodes g)" by (rule b(2))
qed


lemma df_nbrs_down:
  assumes "df_wf g" "df_plain g i"
  shows "j \<in> set (df_nbrs g Downside i) \<longleftrightarrow> (i, j) \<in> df_flow g"
proof -
  have "i < length (df_nodes g)" using assms by (simp add: df_plain_def)
  from df_edge_lists(2) [OF assms(1) this assms(2)] show ?thesis
    by (auto simp: df_nbrs_def df_flow_def in_set_conv_nth [of _ "df_edges g"] image_iff) (metis nth_mem)+
qed

lemma df_nbrs_in:
  assumes "df_wf g" "i < length (df_nodes g)" "j \<in> set (df_nbrs g dir i)"
  shows "j < length (df_nodes g)"
proof -
  have "ge_src (df_edges g ! k) < length (df_nodes g)" "ge_dst (df_edges g ! k) < length (df_nodes g)"
    if "k < length (df_edges g)" for k
    using assms(1) nth_mem [OF that] by (auto simp: df_wf_def)
  with assms df_edge_lists(1,3) [OF assms(1,2)] show ?thesis
    by (auto simp: df_nbrs_def Let_def split: direction.splits)
qed

text \<open>The traversal with a validator that lets every edge pass is a search over the neighbours.\<close>

lemma df_traverse_all_edges:
  assumes "\<forall>k \<in> set ks. k < length (df_edges g)"
  shows "df_traverse F (pure_validator always_true_edge_validator g) tall g ep ks s =
    rany (\<lambda>y s. rbind (F y s) (\<lambda>(r, s). Inr (r = Stop \<and> \<not> tall, s))) (map (\<lambda>k. ep (df_edges g ! k)) ks) s"
  using assms
proof (induction ks arbitrary: s)
  case Nil
  then show ?case by (simp add: df_traverse_def)
next
  case (Cons k ks)
  then show ?case
    by (auto simp: df_traverse_def pure_validator_def always_true_edge_validator_def rbind_assoc
        split: prod.splits intro!: rbind_cong)
qed

lemma df_dfs_all_edges:
  assumes g: "df_wf g" "now < length (df_nodes g)"
  shows "df_dfs (Suc n) g dir node_operator (pure_validator always_true_edge_validator g) tall now s =
    rbind (node_operator now s) (\<lambda>(st, s).
      if st = Continue
      then rbind (rany (\<lambda>y s. rbind (df_dfs n g dir node_operator (pure_validator always_true_edge_validator g) tall y s)
                          (\<lambda>(r, s). Inr (r = Stop \<and> \<not> tall, s))) (df_nbrs g dir now) s)
             (\<lambda>(stop, s). Inr (if stop then Stop else Continue, s))
      else Inr (Stop, s))"
proof -
  have "\<forall>k \<in> set (gn_in_edges (df_nodes g ! now)). k < length (df_edges g)"
    "\<forall>k \<in> set (gn_out_edges (df_nodes g ! now)). k < length (df_edges g)"
    using df_edge_lists(1,3) [OF g] by auto
  then show ?thesis using g
    by (simp only: df_dfs.simps df_traverse_all_edges df_nbrs_def Let_def at_Inr rbind.simps split: direction.split)
      (auto simp: rany_append intro!: rbind_cong)
qed

lemma rany_find:
  assumes "\<And>y s. y \<in> set ys \<Longrightarrow> F y s = rbind (h y) (\<lambda>b. Inr (if b then Stop else Continue, b))"
  shows "rany (\<lambda>y s. rbind (F y s) (\<lambda>(r, s). Inr (r = Stop \<and> \<not> False, s))) ys False =
    rbind (rany (\<lambda>y u. rbind (h y) (\<lambda>b. Inr (b, u))) ys ()) (\<lambda>(b, _). Inr (b, b))"
  using assms
proof (induction ys)
  case (Cons y ys)
  then show ?case by (cases "h y") (auto simp: Cons.prems)
qed simp

lemma df_dfs_find:
  assumes g: "df_wf g"
  shows "now < length (df_nodes g) \<Longrightarrow>
    df_dfs n g dir (find_operator t) (pure_validator always_true_edge_validator g) False now s =
    rbind (dfs_find n (df_nbrs g dir) (\<lambda>x. x = t) now) (\<lambda>b. Inr (if b then Stop else Continue, b))"
proof (induction n arbitrary: now s)
  case (Suc n)
  show ?case
  proof (cases "now = t")
    case True
    then show ?thesis by (simp only: df_dfs_all_edges [OF g Suc.prems]) (simp add: find_operator_def)
  next
    case False
    have "rany (\<lambda>y s. rbind (df_dfs n g dir (find_operator t) (pure_validator always_true_edge_validator g) False y s)
        (\<lambda>(r, s). Inr (r = Stop \<and> \<not> False, s))) (df_nbrs g dir now) False =
      rbind (rany (\<lambda>y u. rbind (dfs_find n (df_nbrs g dir) (\<lambda>x. x = t) y) (\<lambda>b. Inr (b, u))) (df_nbrs g dir now) ())
        (\<lambda>(b, _). Inr (b, b))"
      by (rule rany_find) (use Suc.IH df_nbrs_in [OF g Suc.prems] in blast)
    with False show ?thesis
      by (simp only: df_dfs_all_edges [OF g Suc.prems])
        (auto simp: find_operator_def rbind_assoc split: prod.splits intro!: rbind_cong)
  qed
qed simp

text \<open>Reachability over the neighbour lists is reachability in the flow relation.\<close>

lemma df_down_reach:
  assumes g: "df_wf g" "df_plain g i"
  shows "(i, j) \<in> (succ_rel (df_nbrs g Downside))\<^sup>* \<longleftrightarrow> (i, j) \<in> (df_flow g)\<^sup>*"
proof
  assume "(i, j) \<in> (succ_rel (df_nbrs g Downside))\<^sup>*"
  then have "(i, j) \<in> (df_flow g)\<^sup>* \<and> df_plain g j"
  proof induction
    case (step y z)
    then have "(y, z) \<in> df_flow g" using df_nbrs_down [OF g(1)] by (simp add: succ_rel_def)
    with step df_flow_plain [OF g(1)] show ?case by (meson rtrancl.rtrancl_into_rtrancl)
  qed (use g in simp)
  then show "(i, j) \<in> (df_flow g)\<^sup>*" ..
next
  assume "(i, j) \<in> (df_flow g)\<^sup>*"
  then have "(i, j) \<in> (succ_rel (df_nbrs g Downside))\<^sup>* \<and> df_plain g j"
  proof induction
    case (step y z)
    then have "(y, z) \<in> succ_rel (df_nbrs g Downside)" using df_nbrs_down [OF g(1)] by (simp add: succ_rel_def)
    with step df_flow_plain [OF g(1)] show ?case by (meson rtrancl.rtrancl_into_rtrancl)
  qed (use g in simp)
  then show "(i, j) \<in> (succ_rel (df_nbrs g Downside))\<^sup>*" ..
qed






text \<open>the traversal keeps no record of the nodes it has seen: if a cycle can be reached from \<open>i\<close> but \<open>j\<close>
  cannot, \<open>is_connected\<close> does not return, however many nested calls are allowed. A local that is
  assigned from itself (\<open>_1 = Add(_1, 1)\<close>) is such a cycle.\<close>

theorem is_connected_diverges:
  assumes "df_wf g" "df_plain g i" "(i, k) \<in> (df_flow g)\<^sup>*" "(k, k) \<in> (df_flow g)\<^sup>+" "(i, j) \<notin> (df_flow g)\<^sup>*"
  shows "df_dfs n g Downside (find_operator j) (pure_validator always_true_edge_validator g) False i s = Inl Diverges \<and>
    is_connected g i j = Inl Diverges"
proof -
  have i: "i < length (df_nodes g)" using assms by (simp add: df_plain_def)
  let ?S = "succ_rel (df_nbrs g Downside)"
  have ik: "(i, k) \<in> ?S\<^sup>*" using assms df_down_reach by blast
  have k: "df_plain g k" using assms(1,4) df_flow_plain by (auto dest: tranclD2)
  obtain y where y: "(k, y) \<in> df_flow g" "(y, k) \<in> (df_flow g)\<^sup>*" using assms(4) by (auto dest: tranclD)
  then have "(k, y) \<in> ?S" using k df_nbrs_down [OF assms(1)] by (simp add: succ_rel_def)
  moreover have "(y, k) \<in> ?S\<^sup>*" using y df_down_reach [OF assms(1)] df_flow_plain [OF assms(1)] by blast
  ultimately have kk: "(k, k) \<in> ?S\<^sup>+" by (rule rtrancl_into_trancl2)
  have "dfs_find m (df_nbrs g Downside) (\<lambda>x. x = j) i = Inl Diverges" for m
    by (rule dfs_find_diverges [OF ik kk]) (use assms df_down_reach in blast)
  then show ?thesis by (simp add: is_connected_def df_dfs_top_def df_dfs_find [OF assms(1) i] del: dfs_find.simps df_dfs.simps)
qed

text \<open>The loop counter \<open>_1 = Add(_1, 1)\<close>.\<close>

definition demo_counter_asg :: "(nat \<times> rvalue) list" where
  "demo_counter_asg = [(1, BinaryOp (Copy (demo_place 1))
     (Constant \<lparr>c_const = Const_Val (Some 1), c_ty = Ty_Uint 64, c_target_usize = Some 1, c_text = ''1''\<rparr>))]"

definition demo_counter :: df_graph where
  "demo_counter = projr (build_graph (demo_flow_tcx demo_counter_asg) 0)"

lemma demo_counter_eq:
  "build_graph (demo_flow_tcx demo_counter_asg) 0 = Inr demo_counter"
  "df_edges demo_counter = [\<lparr>ge_src = 1, ge_dst = 1, ge_op = Eo_Copy, ge_seq = 0\<rparr>, \<lparr>ge_src = 3, ge_dst = 1, ge_op = Eo_Const, ge_seq = 0\<rparr>]"
  "df_n_locals demo_counter = 3"
  by (simp_all add: demo_counter_def demo_counter_asg_def demo_flow_simps eval_nat_numeral)

theorem is_connected_diverges_witness: "is_connected demo_counter 1 0 = Inl Diverges"
proof -
  have wf: "df_wf demo_counter"
    by (rule demo_flow_wf(1) [OF demo_counter_eq(1)]) (simp add: demo_flow_simps demo_counter_asg_def)
  have flow: "df_flow demo_counter = {(1, 1), (3, 1)}" by (simp add: df_flow_image demo_counter_eq)
  have plain: "df_plain demo_counter 1" by (rule df_plain_local [OF wf]) (simp add: demo_counter_eq)
  have "(1, 0) \<notin> (df_flow demo_counter)\<^sup>*"
  proof
    assume "(1, 0) \<in> (df_flow demo_counter)\<^sup>*"
    then have "(0 :: nat) = 1" by induction (auto simp: flow)
    then show False by simp
  qed
  moreover have "(1, 1) \<in> (df_flow demo_counter)\<^sup>+" by (rule r_into_trancl) (simp add: flow)
  ultimately show ?thesis using is_connected_diverges [OF wf plain, of 1 0] by simp
qed

end
