(* ===== verification/Dataflow_Equiv.thy ===== *)
theory Dataflow_Equiv
  imports Dataflow_Props
begin

section \<open>Equivalent locals\<close>

text \<open>
  \<open>collect_equivalent_locals\<close>: the search for the root goes up without a record of what it has seen,
  the collection of the set goes down and stops at what it has collected. The first part of the
  theory is the reference search behind the second phase.
\<close>

subsection \<open>Collecting with the collected set as the record\<close>




subsection \<open>Looking for the root without a record\<close>





subsection \<open>The two phases on the graph\<close>










text \<open>The fold over the operations of a node decides \<open>df_go\<close>.\<close>

lemma not_Stop [simp]: "s \<noteq> Stop \<longleftrightarrow> s = Continue" "s \<noteq> Continue \<longleftrightarrow> s = Stop"
  by (cases s; simp)+



















end
