(* ===== verification/Type_Visit.thy ===== *)
theory Type_Visit
  imports Ownership
begin

section \<open>Type visitors and the type analysis\<close>

text \<open>
  \<^verbatim>\<open>core/heap_item/type_visitor.rs\<close> and the visitor structs of \<^verbatim>\<open>core/heap_item.rs\<close>. The analysis walks the
  bodies of the crate, records every ADT it meets, and then computes for every variant of every
  recorded ADT whether it owns heap memory and which generic parameters it holds by value.

  A \<open>TypeVisitor\<close> is a function of the type and the visitor's state whose result says whether the walk
  was broken off (\<open>ControlFlow::Break\<close>); \<open>super_visit_with\<close> visits the components of a type in order and
  stops at the first break, which is \<open>rany\<close>. The visitors that follow the fields of an ADT take fuel;
  \<open>visit_bound\<close> of the theory \<open>Type_Visit_Props\<close> is enough for them.
\<close>

subsection \<open>Components of a type\<close>

text \<open>\<open>substs.types()\<close>, and the types below a type that \<open>super_visit_with\<close> hands to the visitor (the
  visitors call it on arrays, tuples and ADTs only).\<close>

fun arg_types :: "generic_arg list \<Rightarrow> ty list" where
  "arg_types [] = []"
| "arg_types (Ga_Type t # as) = t # arg_types as"
| "arg_types (Ga_Lifetime _ # as) = arg_types as"
| "arg_types (Ga_Const _ # as) = arg_types as"

fun super_parts :: "ty \<Rightarrow> ty list" where
  "super_parts (Ty_Array t) = [t]"
| "super_parts (Ty_Tuple ts) = ts"
| "super_parts (Ty_Adt d args) = arg_types args"
| "super_parts _ = []"

lemma arg_types_iff: "t \<in> set (arg_types args) \<longleftrightarrow> Ga_Type t \<in> set args"
  by (induction args rule: arg_types.induct) auto

lemma size_arg_type: "Ga_Type t \<in> set args \<Longrightarrow> size t < size (Ty_Adt d args)"
  by (induction args) auto

lemma size_in_arg_types [termination_simp]: "t \<in> set (arg_types args) \<Longrightarrow> size t < Suc (size_list size args)"
  using size_arg_type [of t args 0] by (simp add: arg_types_iff)

lemma size_super_parts: "u \<in> set (super_parts t) \<Longrightarrow> size u < size t"
proof (cases t)
  case (Ty_Tuple ts)
  then show "u \<in> set (super_parts t) \<Longrightarrow> size u < size t"
    by (auto simp: less_Suc_eq_le size_list_estimation')
next
  case (Ty_Adt d args)
  then show "u \<in> set (super_parts t) \<Longrightarrow> size u < size t"
    using size_arg_type [of u args d] by (simp add: arg_types_iff)
qed auto

subsection \<open>Parameters held by value\<close>

text \<open>\<open>IsolatedParam\<close>: the flags of the parameters that occur in the type itself, in arrays and in tuples.\<close>

type_synonym isolated_param = "bool list"

definition isolated_param_new :: "nat \<Rightarrow> isolated_param" where
  "isolated_param_new len = replicate len False"

fun iso_visit :: "ty \<Rightarrow> isolated_param \<Rightarrow> (bool \<times> isolated_param) res" where
  "iso_visit (Ty_Array t) record = rany iso_visit (super_parts (Ty_Array t)) record"
| "iso_visit (Ty_Tuple ts) record = rany iso_visit (super_parts (Ty_Tuple ts)) record"
| "iso_visit (Ty_Param i _) record = rbind (set_at record i True) (\<lambda>record. Inr (False, record))"
| "iso_visit _ record = Inr (False, record)"

text \<open>\<open>IsolatedParamFieldSubst\<close>: the set of all parameters in a type argument. It never breaks off.\<close>

fun field_subst_visit :: "ty \<Rightarrow> nat list \<Rightarrow> nat list" where
  "field_subst_visit (Ty_Array t) ps = fold field_subst_visit (super_parts (Ty_Array t)) ps"
| "field_subst_visit (Ty_Tuple ts) ps = fold field_subst_visit (super_parts (Ty_Tuple ts)) ps"
| "field_subst_visit (Ty_Adt d args) ps = fold field_subst_visit (super_parts (Ty_Adt d args)) ps"
| "field_subst_visit (Ty_Param i _) ps = hs_insert i ps"
| "field_subst_visit _ ps = ps"

definition contains_param :: "nat list \<Rightarrow> bool" where
  "contains_param ps \<longleftrightarrow> ps \<noteq> []"

subsection \<open>Propagating parameters through field types\<close>

text \<open>The parameters in each type argument that has any, by the index of the argument.\<close>

fun subst_params :: "(nat \<times> generic_arg) list \<Rightarrow> (nat \<times> nat list) list" where
  "subst_params [] = []"
| "subst_params ((i, Ga_Type t) # as) =
     (let ps = field_subst_visit t [] in
      if contains_param ps then (i, ps) # subst_params as else subst_params as)"
| "subst_params ((i, Ga_Lifetime _) # as) = subst_params as"
| "subst_params ((i, Ga_Const _) # as) = subst_params as"

definition set_flags :: "nat list \<Rightarrow> bool list \<Rightarrow> bool list res" where
  "set_flags = rfold (\<lambda>i record. set_at record i True)"

definition iso_prop_flags :: "tcx \<Rightarrow> bool list \<Rightarrow> (nat \<times> nat list) list \<Rightarrow> bool list \<Rightarrow> bool list res" where
  "iso_prop_flags tcx flags params record =
     rfold (\<lambda>(index, flag) record.
         case map_of params index of
           Some ps \<Rightarrow> if flag then set_flags (set_order tcx ps) record else Inr record
         | None \<Rightarrow> Inr record)
       (enumerate 0 flags) record"

text \<open>Visiting a list of fields, whatever the visit of a field says about breaking off.\<close>

definition visit_fields :: "(ty \<Rightarrow> 's \<Rightarrow> (bool \<times> 's) res) \<Rightarrow> ty list \<Rightarrow> 's \<Rightarrow> 's res" where
  "visit_fields visit = rfold (\<lambda>t s. rbind (visit t s) (\<lambda>(_, s). Inr s))"

text \<open>\<open>IsolatedParamPropagation\<close>: the flags and the ADTs on the current path.\<close>

type_synonym iso_prop = "bool list \<times> def_id list"

fun iso_prop_visit :: "nat \<Rightarrow> tcx \<Rightarrow> adt_owner \<Rightarrow> bool \<Rightarrow> ty \<Rightarrow> iso_prop \<Rightarrow> (bool \<times> iso_prop) res" where
  "iso_prop_visit 0 tcx owner source_enum ty s = Inl Diverges"
| "iso_prop_visit (Suc n) tcx owner source_enum ty (record, unique) =
     (case ty of
        Ty_Adt d substs \<Rightarrow>
          (if substs = [] then Inr (True, record, unique)
           else if \<not> source_enum \<and> adt_kind_of tcx d = Adt_Enum then Inr (True, record, unique)
           else if d \<in> set unique then Inr (False, record, unique)
           else
             let unique = hs_insert d unique; params = subst_params (enumerate 0 substs) in
             if params = [] then Inr (True, record, unique)
             else rbind (unwrap (owner d)) (\<lambda>ans.
               if ans = [] then Inr (True, record, unique)
               else rbind (iso_prop_flags tcx (snd (ans ! 0)) params record) (\<lambda>record.
                 rbind (visit_fields (iso_prop_visit n tcx owner source_enum) (adt_all_fields tcx d substs) (record, unique))
                   (\<lambda>(record, unique).
                     rany (iso_prop_visit n tcx owner source_enum) (super_parts ty) (record, hs_remove d unique)))))
      | Ty_Array _ \<Rightarrow> rany (iso_prop_visit n tcx owner source_enum) (super_parts ty) (record, unique)
      | Ty_Tuple _ \<Rightarrow> rany (iso_prop_visit n tcx owner source_enum) (super_parts ty) (record, unique)
      | _ \<Rightarrow> Inr (False, record, unique))"

subsection \<open>Propagating ownership and finding pointers\<close>

type_synonym owner_prop = "raw_type_owner \<times> def_id list"

fun owner_prop_visit :: "nat \<Rightarrow> tcx \<Rightarrow> adt_owner \<Rightarrow> ty \<Rightarrow> owner_prop \<Rightarrow> (bool \<times> owner_prop) res" where
  "owner_prop_visit 0 tcx owner ty s = Inl Diverges"
| "owner_prop_visit (Suc n) tcx owner ty (ownership, unique) =
     (case ty of
        Ty_Adt d substs \<Rightarrow>
          (if d \<in> set unique then Inr (False, ownership, unique)
           else
             let unique = hs_insert d unique in
             if adt_kind_of tcx d = Adt_Enum then Inr (True, ownership, unique)
             else rbind (unwrap (owner d)) (\<lambda>ans.
               if ans = [] then Inr (True, ownership, unique)
               else if fst (ans ! 0) = Owned then Inr (True, Owned, unique)
               else rbind (visit_fields (owner_prop_visit n tcx owner) (adt_all_fields tcx d substs) (ownership, unique))
                 (\<lambda>(ownership, unique).
                   rany (owner_prop_visit n tcx owner) (super_parts ty) (ownership, hs_remove d unique))))
      | Ty_Array _ \<Rightarrow> rany (owner_prop_visit n tcx owner) (super_parts ty) (ownership, unique)
      | Ty_Tuple _ \<Rightarrow> rany (owner_prop_visit n tcx owner) (super_parts ty) (ownership, unique)
      | _ \<Rightarrow> Inr (False, ownership, unique))"

type_synonym find_ptr = "bool \<times> def_id list"

fun find_ptr_visit :: "nat \<Rightarrow> tcx \<Rightarrow> ty \<Rightarrow> find_ptr \<Rightarrow> (bool \<times> find_ptr) res" where
  "find_ptr_visit 0 tcx ty s = Inl Diverges"
| "find_ptr_visit (Suc n) tcx ty (ptr, unique) =
     (case ty of
        Ty_Adt d substs \<Rightarrow>
          (if adt_kind_of tcx d = Adt_Struct then
             if d \<in> set unique then Inr (False, ptr, unique)
             else rbind (visit_fields (find_ptr_visit n tcx) (adt_all_fields tcx d substs) (ptr, hs_insert d unique))
               (\<lambda>(ptr, unique). Inr (False, ptr, hs_remove d unique))
           else Inr (False, ptr, unique))
      | Ty_Tuple _ \<Rightarrow> rany (find_ptr_visit n tcx) (super_parts ty) (ptr, unique)
      | Ty_RawPtr _ _ \<Rightarrow> Inr (True, True, unique)
      | Ty_Ref _ _ \<Rightarrow> Inr (True, True, unique)
      | _ \<Rightarrow> Inr (False, ptr, unique))"

subsection \<open>The default ownership of a type\<close>

record default_ownership =
  do_res :: raw_type_owner
  do_param :: bool
  do_ptr :: bool
  do_unique :: "def_id list"

definition default_ownership_new :: default_ownership where
  "default_ownership_new = \<lparr>do_res = Unowned, do_param = False, do_ptr = False, do_unique = []\<rparr>"

definition expect_ty :: "generic_arg \<Rightarrow> ty res" where
  "expect_ty a = (case a of Ga_Type t \<Rightarrow> Inr t | _ \<Rightarrow> Inl Unreachable_code)"

lemma expect_ty_Inr_iff: "expect_ty a = Inr t \<longleftrightarrow> a = Ga_Type t"
  by (cases a) (simp_all add: expect_ty_def)

lemma expect_ty_size [termination_simp]:
  "at substs i = Inr a \<Longrightarrow> expect_ty a = Inr t \<Longrightarrow> size t < Suc (size_list size substs)"
  using size_arg_type [of t substs 0] nth_mem [of i substs] by (auto simp: at_Inr_iff expect_ty_Inr_iff)

fun default_own_visit :: "tcx \<Rightarrow> adt_owner \<Rightarrow> ty \<Rightarrow> default_ownership \<Rightarrow> (bool \<times> default_ownership) res" where
  "default_own_visit tcx owner (Ty_Adt d substs) s =
     (if adt_kind_of tcx d = Adt_Enum then Inr (True, s)
      else if d \<in> set (do_unique s) then Inr (False, s)
      else
        let s = s\<lparr>do_unique := hs_insert d (do_unique s)\<rparr> in
        rbind (unwrap (owner d)) (\<lambda>ans.
          if ans = [] then Inr (True, s)
          else case fst (ans ! 0) of
            Owned \<Rightarrow> Inr (True, s\<lparr>do_res := Owned\<rparr>)
          | Unowned \<Rightarrow>
              rbind
                (rfold (\<lambda>(index, each_generic) s.
                    if \<not> each_generic then Inr s
                    else rbind (at substs index) (\<lambda>a. rbind (expect_ty a) (\<lambda>subset_ty.
                      rbind (default_own_visit tcx owner subset_ty (s\<lparr>do_unique := hs_remove d (do_unique s)\<rparr>))
                        (\<lambda>(_, s). Inr s))))
                  (enumerate 0 (snd (ans ! 0))) s)
                (\<lambda>s. Inr (False, s))
          | Uninit \<Rightarrow> Inl Unreachable_code))"
| "default_own_visit tcx owner (Ty_Array t) s = rany (default_own_visit tcx owner) (super_parts (Ty_Array t)) s"
| "default_own_visit tcx owner (Ty_Tuple ts) s = rany (default_own_visit tcx owner) (super_parts (Ty_Tuple ts)) s"
| "default_own_visit tcx owner (Ty_Param _ _) s = Inr (True, s\<lparr>do_param := True, do_res := Owned\<rparr>)"
| "default_own_visit tcx owner (Ty_RawPtr _ _) s = Inr (False, s\<lparr>do_ptr := True\<rparr>)"
| "default_own_visit tcx owner (Ty_Ref _ _) s = Inr (False, s\<lparr>do_ptr := True\<rparr>)"
| "default_own_visit tcx owner _ s = Inr (False, s)"

subsection \<open>Collecting the ADTs of the crate\<close>

record type_analysis =
  ta_fn_set :: "def_id list"
  ta_ty_map :: "(ty \<times> string) list"
  ta_adt_recorder :: "def_id list"
  ta_adt_owner :: "(def_id \<times> owner_unit list) list"

definition type_analysis_new :: type_analysis where
  "type_analysis_new = \<lparr>ta_fn_set = [], ta_ty_map = [], ta_adt_recorder = [], ta_adt_owner = []\<rparr>"

definition ta_record_adt :: "tcx \<Rightarrow> ty \<Rightarrow> def_id \<Rightarrow> type_analysis \<Rightarrow> type_analysis" where
  "ta_record_adt tcx ty d s =
     s\<lparr>ta_ty_map := AList.update ty (ty_debug_str tcx ty) (ta_ty_map s),
       ta_adt_recorder := hs_insert d (ta_adt_recorder s)\<rparr>"

fun ta_visit_ty :: "nat \<Rightarrow> tcx \<Rightarrow> ty \<Rightarrow> type_analysis \<Rightarrow> type_analysis res" where
  "ta_visit_ty 0 tcx ty s = Inl Diverges"
| "ta_visit_ty (Suc n) tcx ty s =
     (case ty of
        Ty_Adt d substs \<Rightarrow>
          (if map_of (ta_ty_map s) ty \<noteq> None then Inr s
           else rbind (rfold (ta_visit_ty n tcx) (adt_all_fields tcx d substs) (ta_record_adt tcx ty d s))
             (rfold (ta_visit_ty n tcx) (arg_types substs)))
      | Ty_Array t \<Rightarrow> ta_visit_ty n tcx t s
      | Ty_Slice t \<Rightarrow> ta_visit_ty n tcx t s
      | Ty_RawPtr t _ \<Rightarrow> ta_visit_ty n tcx t s
      | Ty_Ref t _ \<Rightarrow> ta_visit_ty n tcx t s
      | Ty_Tuple ts \<Rightarrow> rfold (ta_visit_ty n tcx) ts s
      | _ \<Rightarrow> Inr s)"

text \<open>\<open>visit_local_decl\<close>, \<open>visit_basic_block_data\<close> and \<open>visit_body\<close>; the fuel of the bodies bounds the
  nesting of calls, that of the types (\<open>tn\<close>) the nesting of types.\<close>

definition ta_visit_local_decl :: "nat \<Rightarrow> tcx \<Rightarrow> ty \<Rightarrow> type_analysis \<Rightarrow> type_analysis res" where
  "ta_visit_local_decl tn tcx local_ty s = ta_visit_ty tn tcx local_ty s"

definition ta_visit_basic_block_data ::
    "(body \<Rightarrow> type_analysis \<Rightarrow> type_analysis res) \<Rightarrow> tcx \<Rightarrow> bb_data \<Rightarrow> type_analysis \<Rightarrow> type_analysis res" where
  "ta_visit_basic_block_data visit_body tcx data s =
     rbind (unwrap (bb_terminator data)) (\<lambda>term.
       case t_kind term of
         Call func args dest target unwind \<Rightarrow>
           (case func of
              Constant constant \<Rightarrow>
                (case c_ty constant of
                   Ty_FnDef def_id _ \<Rightarrow>
                     if mir_available tcx def_id \<and> def_id \<notin> set (ta_fn_set s)
                     then visit_body (instance_mir tcx def_id) (s\<lparr>ta_fn_set := hs_insert def_id (ta_fn_set s)\<rparr>)
                     else Inr s
                 | _ \<Rightarrow> Inr s)
            | _ \<Rightarrow> Inr s)
       | _ \<Rightarrow> Inr s)"

fun ta_visit_body :: "nat \<Rightarrow> nat \<Rightarrow> tcx \<Rightarrow> body \<Rightarrow> type_analysis \<Rightarrow> type_analysis res" where
  "ta_visit_body 0 tn tcx body s = Inl Diverges"
| "ta_visit_body (Suc n) tn tcx body s =
     rbind (rfold (ta_visit_local_decl tn tcx) (local_decls body) s)
       (rfold (ta_visit_basic_block_data (ta_visit_body n tn tcx) tcx) (basic_blocks body))"

subsection \<open>The phases of the analysis\<close>

definition extract_raw_generic :: "tcx \<Rightarrow> def_id \<Rightarrow> type_analysis \<Rightarrow> type_analysis res" where
  "extract_raw_generic tcx did s =
     (case type_of tcx did of
        Ty_Adt d substs \<Rightarrow>
          rbind
            (rfold (\<lambda>fields v_res.
                rbind (visit_fields iso_visit fields (isolated_param_new (length substs)))
                  (\<lambda>record. Inr (v_res @ [(Unowned, record)])))
              (adt_variants tcx d substs) [])
            (\<lambda>v_res. Inr (s\<lparr>ta_adt_owner := AList.update did v_res (ta_adt_owner s)\<rparr>))
      | _ \<Rightarrow> Inl Unreachable_code)"

definition iso_prop_variant ::
    "nat \<Rightarrow> tcx \<Rightarrow> adt_owner \<Rightarrow> bool \<Rightarrow> nat \<times> ty list \<Rightarrow> owner_unit list \<Rightarrow> owner_unit list res" where
  "iso_prop_variant n tcx owner source_enum = (\<lambda>(variant_index, fields) v_res.
     rbind (at v_res variant_index) (\<lambda>res.
       rbind (visit_fields (iso_prop_visit n tcx owner source_enum) fields (snd res, []))
         (\<lambda>(record, _). set_at v_res variant_index (Unowned, record))))"

definition extract_raw_generic_prop :: "nat \<Rightarrow> tcx \<Rightarrow> def_id \<Rightarrow> type_analysis \<Rightarrow> type_analysis res" where
  "extract_raw_generic_prop n tcx did s =
     (case type_of tcx did of
        Ty_Adt d substs \<Rightarrow>
          rbind (unwrap (map_of (ta_adt_owner s) did)) (\<lambda>v_res.
            rbind
              (rfold (iso_prop_variant n tcx (map_of (ta_adt_owner s)) (adt_kind_of tcx d = Adt_Enum))
                (enumerate 0 (adt_variants tcx d substs)) v_res)
              (\<lambda>v_res. Inr (s\<lparr>ta_adt_owner := AList.update did v_res (ta_adt_owner s)\<rparr>)))
      | _ \<Rightarrow> Inl Unreachable_code)"

definition fields_have_ptr :: "nat \<Rightarrow> tcx \<Rightarrow> ty list \<Rightarrow> bool res" where
  "fields_have_ptr n tcx all_fields =
     rbind (rany (\<lambda>t u. rbind (find_ptr_visit n tcx t (False, [])) (\<lambda>(_, has_ptr, _). Inr (has_ptr, u))) all_fields ())
       (\<lambda>(has_ptr, _). Inr has_ptr)"

text \<open>The loop over the arguments of one \<open>PhantomData\<close> field; the result says whether the function returned.\<close>

definition phantom_arg ::
    "nat \<Rightarrow> tcx \<Rightarrow> def_id \<Rightarrow> ty list \<Rightarrow> owner_unit \<Rightarrow> generic_arg \<Rightarrow> type_analysis \<Rightarrow> (bool \<times> type_analysis) res" where
  "phantom_arg n tcx did all_fields res arg s =
     (case arg of
        Ga_Type g_ty \<Rightarrow>
          if contains_param (field_subst_visit g_ty []) then
            rbind (fields_have_ptr n tcx all_fields) (\<lambda>has_ptr.
              if \<not> has_ptr then Inr (True, s)
              else Inr (True, s\<lparr>ta_adt_owner := AList.update did [(Owned, snd res)] (ta_adt_owner s)\<rparr>))
          else Inr (False, s)
      | Ga_Lifetime _ \<Rightarrow> Inr (True, s)
      | Ga_Const _ \<Rightarrow> Inr (True, s))"

definition phantom_field ::
    "nat \<Rightarrow> tcx \<Rightarrow> def_id \<Rightarrow> ty list \<Rightarrow> owner_unit \<Rightarrow> ty \<Rightarrow> type_analysis \<Rightarrow> (bool \<times> type_analysis) res" where
  "phantom_field n tcx did all_fields res field_ty s =
     (case field_ty of
        Ty_Adt field_adt field_substs \<Rightarrow>
          if is_phantom_data tcx field_adt then rany (phantom_arg n tcx did all_fields res) field_substs s
          else Inr (False, s)
      | _ \<Rightarrow> Inr (False, s))"

definition extract_phantom_unit :: "nat \<Rightarrow> tcx \<Rightarrow> def_id \<Rightarrow> type_analysis \<Rightarrow> type_analysis res" where
  "extract_phantom_unit n tcx did s =
     (case type_of tcx did of
        Ty_Adt d substs \<Rightarrow>
          if adt_kind_of tcx d = Adt_Struct then
            rbind (unwrap (map_of (ta_adt_owner s) did)) (\<lambda>v_res. rbind (at v_res 0) (\<lambda>res.
              rbind (rany (phantom_field n tcx did (adt_all_fields tcx d substs) res) (adt_all_fields tcx d substs) s)
                (\<lambda>(_, s). Inr s)))
          else Inr s
      | _ \<Rightarrow> Inl Unreachable_code)"

definition owner_prop_variant ::
    "nat \<Rightarrow> tcx \<Rightarrow> adt_owner \<Rightarrow> nat \<times> ty list \<Rightarrow> owner_unit list \<Rightarrow> owner_unit list res" where
  "owner_prop_variant n tcx owner = (\<lambda>(variant_index, fields) v_res.
     rbind (at v_res variant_index) (\<lambda>res.
       rbind (visit_fields (owner_prop_visit n tcx owner) fields (fst res, []))
         (\<lambda>(ownership, _). set_at v_res variant_index (ownership, snd res))))"

definition extract_owner_prop :: "nat \<Rightarrow> tcx \<Rightarrow> def_id \<Rightarrow> type_analysis \<Rightarrow> type_analysis res" where
  "extract_owner_prop n tcx did s =
     (case type_of tcx did of
        Ty_Adt d substs \<Rightarrow>
          rbind (unwrap (map_of (ta_adt_owner s) did)) (\<lambda>v_res.
            rbind
              (rfold (owner_prop_variant n tcx (map_of (ta_adt_owner s))) (enumerate 0 (adt_variants tcx d substs)) v_res)
              (\<lambda>v_res. Inr (s\<lparr>ta_adt_owner := AList.update did v_res (ta_adt_owner s)\<rparr>)))
      | _ \<Rightarrow> Inl Unreachable_code)"

text \<open>\<open>visitor\<close> and \<open>start\<close>. The first argument is the fuel of the field-following visitors, the second
  that of the nesting of calls, the third that of the nesting of types.\<close>

definition ta_visit_key :: "nat \<Rightarrow> nat \<Rightarrow> tcx \<Rightarrow> def_id \<Rightarrow> type_analysis \<Rightarrow> type_analysis res" where
  "ta_visit_key bn tn tcx def_id s =
     (if def_id \<notin> set (ta_fn_set s)
      then ta_visit_body bn tn tcx (instance_mir tcx def_id) (s\<lparr>ta_fn_set := hs_insert def_id (ta_fn_set s)\<rparr>)
      else Inr s)"

definition ta_phases :: "nat \<Rightarrow> tcx \<Rightarrow> def_id list \<Rightarrow> type_analysis \<Rightarrow> type_analysis res" where
  "ta_phases n tcx dids s =
     rbind (rfold (extract_raw_generic tcx) dids s) (\<lambda>s.
     rbind (rfold (extract_raw_generic_prop n tcx) dids s) (\<lambda>s.
     rbind (rfold (extract_phantom_unit n tcx) dids s)
       (rfold (extract_owner_prop n tcx) dids)))"

definition ta_visitor :: "nat \<Rightarrow> nat \<Rightarrow> nat \<Rightarrow> tcx \<Rightarrow> type_analysis \<Rightarrow> type_analysis res" where
  "ta_visitor n bn tn tcx s =
     rbind (rfold (ta_visit_key bn tn tcx) (mir_keys tcx) s) (\<lambda>s.
       ta_phases n tcx (set_order tcx (ta_adt_recorder s)) s)"

definition ta_start :: "nat \<Rightarrow> nat \<Rightarrow> nat \<Rightarrow> tcx \<Rightarrow> type_analysis \<Rightarrow> type_analysis res" where
  "ta_start = ta_visitor"

subsection \<open>Printing the result\<close>

fun rto_display :: "raw_type_owner \<Rightarrow> string" where
  "rto_display Unowned = ''0''"
| "rto_display Owned = ''1''"
| "rto_display Uninit = ''2''"

definition format_owner_unit :: "owner_unit \<Rightarrow> string" where
  "format_owner_unit unit =
     ''('' @ rto_display (fst unit) @ '', ['' @ join_with '','' (map (\<lambda>b. if b then ''1'' else ''0'') (snd unit)) @ ''])''"

text \<open>The lines \<open>output\<close> logs, as name and ownership, without the colours.\<close>

definition ta_output :: "tcx \<Rightarrow> type_analysis \<Rightarrow> (string \<times> string) list" where
  "ta_output tcx s =
     map (\<lambda>(d, units). (ty_debug_str tcx (type_of tcx d), join_with '', '' (map format_owner_unit units)))
       (hm_iter tcx (ta_adt_owner s))"

end
