(* ===== verification/Safedrop_Start.thy ===== *)
theory Safedrop_Start
  imports Sd_Check Mop_Check Type_Visit
begin

section \<open>SafeDrop: the analysis of a crate\<close>

text \<open>
  \<^verbatim>\<open>safedrop.rs\<close>, \<open>SafeDrop::start\<close>: the alias analysis gives the summaries, the type analysis the ownership
  table, and then every local function with a body is checked. The result lists what is reported for which
  function. \<open>defs\<close> are the local definitions that have a body, in the order of \<open>iter_local_def_id\<close>.
\<close>

definition sd_start ::
    "nat \<Rightarrow> nat \<Rightarrow> nat \<Rightarrow> nat \<Rightarrow> bool \<Rightarrow> tcx \<Rightarrow> (def_id \<Rightarrow> bool) \<Rightarrow> (def_id \<Rightarrow> string option) \<Rightarrow> def_id list \<Rightarrow>
      (def_id \<times> bug_records) list res" where
  "sd_start mn n bn tn fast tcx const_context get_filename defs =
     rbind (mop_start mn fast tcx const_context defs) (\<lambda>fn_map.
     rbind (ta_start n bn tn tcx type_analysis_new) (\<lambda>ta.
     rfold (\<lambda>d reports.
         rbind (query_safedrop tcx const_context get_filename fn_map d (map_of (ta_adt_owner ta))) (\<lambda>report.
         Inr (case report of Some bugs \<Rightarrow> reports @ [(d, bugs)] | None \<Rightarrow> reports)))
       defs []))"

end
