(* ===== verification/Type_Visit_Props.thy ===== *)
theory Type_Visit_Props
  imports Type_Visit
begin

section \<open>Properties of the type visitors\<close>

text \<open>
  The parameters the first phase flags are exactly those held by value. The three visitors that follow the
  fields of ADTs (\<open>IsolatedParamPropagation\<close>, \<open>OwnerPropagation\<close>, \<open>FindPtr\<close>) keep a set of the ADTs on the
  current path; the locale \<open>path_visitor\<close> states what they have in common, and that this set makes every
  visit come back although the types on a path may grow without bound.
\<close>

subsection \<open>Visits that never break off\<close>

lemma rany_no_break:
  assumes "\<And>x s. x \<in> set xs \<Longrightarrow> I s \<Longrightarrow> f x s = Inr (False, g x s) \<and> I (g x s)" "I s"
  shows "rany f xs s = Inr (False, fold g xs s)"
  using assms by (induction xs arbitrary: s) auto

lemma ok_rany:
  assumes "P s" "\<And>x s. x \<in> set xs \<Longrightarrow> P s \<Longrightarrow> ok (\<lambda>(b, s). P s) (f x s)"
  shows "ok (\<lambda>(b, s). P s) (rany f xs s)"
  using assms
proof (induction xs arbitrary: s)
  case (Cons x xs)
  have "ok (\<lambda>(b, s). P s) (f x s)" using Cons.prems by simp
  then show ?case using Cons by (auto intro!: ok_rbindI)
qed simp

lemma ok_rbind_snd: "ok (\<lambda>(b, s). P s) m \<Longrightarrow> ok P (rbind m (\<lambda>(_, s). Inr s))"
  by (auto simp: ok_def)

lemma ok_visit_fields:
  assumes "P s" "\<And>t s. t \<in> set ts \<Longrightarrow> P s \<Longrightarrow> ok (\<lambda>(b, s). P s) (visit t s)"
  shows "ok P (visit_fields visit ts s)"
  unfolding visit_fields_def
proof (rule ok_rfold)
  fix t s assume "t \<in> set ts" "P s"
  then have "ok (\<lambda>(b, s). P s) (visit t s)" by (rule assms(2))
  then show "ok P (rbind (visit t s) (\<lambda>(_, s). Inr s))" by (rule ok_rbind_snd)
qed (rule assms(1))

subsection \<open>The parameters a type holds by value\<close>

fun raw_params :: "ty \<Rightarrow> nat set" where
  "raw_params (Ty_Array t) = raw_params t"
| "raw_params (Ty_Tuple ts) = (\<Union>t \<in> set ts. raw_params t)"
| "raw_params (Ty_Param i _) = {i}"
| "raw_params _ = {}"

definition flagged :: "nat set \<Rightarrow> bool list \<Rightarrow> bool list" where
  "flagged S r = map (\<lambda>i. r ! i \<or> i \<in> S) [0..<length r]"

lemma length_flagged [simp]: "length (flagged S r) = length r"
  by (simp add: flagged_def)

lemma flagged_nth [simp]: "i < length r \<Longrightarrow> flagged S r ! i \<longleftrightarrow> r ! i \<or> i \<in> S"
  by (simp add: flagged_def)

lemma flagged_empty [simp]: "flagged {} r = r"
  by (simp add: list_eq_iff_nth_eq)

lemma flagged_flagged [simp]: "flagged S (flagged T r) = flagged (S \<union> T) r"
  by (auto simp: list_eq_iff_nth_eq)

lemma flagged_single [simp]: "flagged {i} r = r[i := True]"
proof (rule nth_equalityI)
  fix j assume "j < length (flagged {i} r)"
  then show "flagged {i} r ! j = r[i := True] ! j" by (cases "j = i") auto
qed simp

lemma fold_flagged: "fold (\<lambda>t. flagged (f t)) ts r = flagged (\<Union>t \<in> set ts. f t) r"
  by (induction ts arbitrary: r) (auto simp: Un_commute)

lemma iso_visit_flags:
  "raw_params t \<subseteq> {..<length r} \<Longrightarrow> iso_visit t r = Inr (False, flagged (raw_params t) r)"
proof (induction t r rule: iso_visit.induct)
  case (2 ts r)
  have "rany iso_visit ts r = Inr (False, fold (\<lambda>t. flagged (raw_params t)) ts r)"
  proof (rule rany_no_break [where I = "\<lambda>s. length s = length r"])
    fix t and s :: "bool list" assume t: "t \<in> set ts" "length s = length r"
    then have "raw_params t \<subseteq> {..<length s}" using "2.prems" by auto
    with "2.IH" [of t s] t
    show "iso_visit t s = Inr (False, flagged (raw_params t) s) \<and> length (flagged (raw_params t) s) = length r"
      by simp
  qed simp
  then show ?case by (simp add: fold_flagged)
qed auto

lemma visit_fields_iso:
  assumes "(\<Union>t \<in> set ts. raw_params t) \<subseteq> {..<length r}"
  shows "visit_fields iso_visit ts r = Inr (flagged (\<Union>t \<in> set ts. raw_params t) r)"
  using assms
proof (induction ts arbitrary: r)
  case (Cons t ts)
  from Cons.prems have "iso_visit t r = Inr (False, flagged (raw_params t) r)" by (intro iso_visit_flags) simp
  with Cons show ?case by (simp add: visit_fields_def Un_commute)
qed (simp add: visit_fields_def)

subsection \<open>The parameters in a type argument\<close>

fun field_params :: "ty \<Rightarrow> nat set" where
  "field_params (Ty_Array t) = field_params t"
| "field_params (Ty_Tuple ts) = (\<Union>t \<in> set ts. field_params t)"
| "field_params (Ty_Adt d args) = (\<Union>t \<in> set (arg_types args). field_params t)"
| "field_params (Ty_Param i _) = {i}"
| "field_params _ = {}"

lemma set_fold_union:
  assumes "\<And>x s. x \<in> set xs \<Longrightarrow> set (f x s) = set s \<union> g x"
  shows "set (fold f xs s) = set s \<union> (\<Union>x \<in> set xs. g x)"
  using assms by (induction xs arbitrary: s) auto

lemma set_field_subst_visit: "set (field_subst_visit t ps) = set ps \<union> field_params t"
proof (induction t ps rule: field_subst_visit.induct)
  case (2 ts ps)
  then have "set (fold field_subst_visit ts ps) = set ps \<union> (\<Union>x \<in> set ts. field_params x)"
    by (intro set_fold_union) simp
  then show ?case by simp
next
  case (3 d args ps)
  then have "set (fold field_subst_visit (arg_types args) ps) = set ps \<union> (\<Union>x \<in> set (arg_types args). field_params x)"
    by (intro set_fold_union) simp
  then show ?case by simp
qed auto

lemma raw_params_subset: "raw_params t \<subseteq> field_params t"
  by (induction t rule: raw_params.induct) auto

lemma subst_params_sound:
  "(i, ps) \<in> set (subst_params as) \<Longrightarrow> \<exists>t. (i, Ga_Type t) \<in> set as \<and> set ps = field_params t"
  by (induction as rule: subst_params.induct) (auto simp: Let_def set_field_subst_visit split: if_splits)

lemma field_params_super:
  "u \<in> set (super_parts t) \<Longrightarrow> field_params u \<subseteq> field_params t"
  by (cases t) auto

lemma subst_params_range:
  assumes "map_of (subst_params (enumerate 0 args)) i = Some ps"
  shows "set ps \<subseteq> field_params (Ty_Adt d args)"
proof -
  from subst_params_sound [OF map_of_SomeD [OF assms]] obtain t where
    "(i, Ga_Type t) \<in> set (enumerate 0 args)" "set ps = field_params t" by blast
  moreover from this have "Ga_Type t \<in> set args"
    using nth_mem [of i args] by (auto simp: in_set_enumerate_eq)
  then have "t \<in> set (arg_types args)" by (simp add: arg_types_iff)
  ultimately show ?thesis by auto
qed

text \<open>The positions of an argument list that hold types, and flags that are set only there.\<close>

definition ty_positions :: "generic_arg list \<Rightarrow> nat set" where
  "ty_positions ids = {i. i < length ids \<and> (\<exists>t. ids ! i = Ga_Type t)}"

definition flags_ok :: "generic_arg list \<Rightarrow> bool list \<Rightarrow> bool" where
  "flags_ok ids r \<longleftrightarrow> length r = length ids \<and> (\<forall>i < length r. r ! i \<longrightarrow> i \<in> ty_positions ids)"

lemma flags_ok_update: "flags_ok ids r \<Longrightarrow> i \<in> ty_positions ids \<Longrightarrow> flags_ok ids (r[i := True])"
  unfolding flags_ok_def by (metis length_list_update nth_list_update_neq)

lemma ok_set_flags:
  "set ps \<subseteq> ty_positions ids \<Longrightarrow> flags_ok ids r \<Longrightarrow> ok (flags_ok ids) (set_flags ps r)"
  unfolding set_flags_def
proof (rule ok_rfold)
  fix i r assume "set ps \<subseteq> ty_positions ids" "i \<in> set ps" "flags_ok ids r"
  moreover from this have "i < length r" by (auto simp: ty_positions_def flags_ok_def)
  ultimately show "ok (flags_ok ids) (set_at r i True)" by (auto intro: flags_ok_update)
qed

lemma ok_iso_prop_flags:
  assumes ord: "enum_order (set_order tcx)" and r: "flags_ok ids r"
    and ps: "\<And>i ps. map_of params i = Some ps \<Longrightarrow> set ps \<subseteq> ty_positions ids"
  shows "ok (flags_ok ids) (iso_prop_flags tcx flags params r)"
  unfolding iso_prop_flags_def
proof (rule ok_rfold, rule r)
  fix x :: "nat \<times> bool" and s assume s: "flags_ok ids s"
  obtain i flag where x: "x = (i, flag)" by (cases x)
  have "ok (flags_ok ids) (set_flags (set_order tcx ps') s)" if "map_of params i = Some ps'" for ps'
    using ps [OF that] s by (intro ok_set_flags) (simp_all add: enum_orderD [OF ord])
  with s x show "ok (flags_ok ids) ((\<lambda>(index, flag) record. case map_of params index of
      Some ps \<Rightarrow> if flag then set_flags (set_order tcx ps) record else Inr record | None \<Rightarrow> Inr record) x s)"
    by (auto split: option.splits)
qed

subsection \<open>Visitors that keep the ADTs of the current path\<close>

text \<open>How deep the visit of a type can nest when \<open>k\<close> more ADTs can be put on the path: the fields of an ADT
  are visited with one ADT more on the path, the components of a type are smaller.\<close>

function visit_bound :: "(def_id \<Rightarrow> generic_arg list \<Rightarrow> ty list) \<Rightarrow> nat \<Rightarrow> ty \<Rightarrow> nat" where
  "visit_bound F k t =
     Suc (max
       (if k = 0 then 0 else
          case t of Ty_Adt d args \<Rightarrow> foldr (\<lambda>u. max (visit_bound F (k - 1) u)) (F d args) 0 | _ \<Rightarrow> 0)
       (foldr (\<lambda>u. max (visit_bound F k u)) (super_parts t) 0))"
  by pat_completeness auto
termination
  by (relation "measures [\<lambda>(F, k, t). k, \<lambda>(F, k, t). size t]") (auto intro: size_super_parts)

declare visit_bound.simps [simp del]

lemma foldr_max_ge: "x \<in> set xs \<Longrightarrow> f x \<le> foldr (\<lambda>u. max (f u)) xs (0::nat)"
  by (induction xs) auto

lemma visit_bound_pos: "0 < visit_bound F k t"
  by (subst visit_bound.simps) simp

lemma visit_bound_super: "u \<in> set (super_parts t) \<Longrightarrow> visit_bound F k u < visit_bound F k t"
  by (subst (2) visit_bound.simps) (auto simp: less_Suc_eq_le le_max_iff_disj intro: foldr_max_ge)

lemma visit_bound_field: "u \<in> set (F d args) \<Longrightarrow> visit_bound F k u < visit_bound F (Suc k) (Ty_Adt d args)"
  by (subst (2) visit_bound.simps) (auto simp: less_Suc_eq_le le_max_iff_disj intro: foldr_max_ge)

text \<open>
  The contract of such a visitor. \<open>R\<close> are the ADTs that can come up, \<open>Q\<close> holds of the types visited, \<open>P\<close> of
  the state of the visitor. A visit answers at once, or goes on to some components of the type, or puts an
  ADT that is not yet there on the path, visits its fields and then goes on to components.
\<close>

locale path_visitor =
  fixes visit :: "nat \<Rightarrow> ty \<Rightarrow> 's \<times> def_id list \<Rightarrow> (bool \<times> 's \<times> def_id list) res"
    and F :: "def_id \<Rightarrow> generic_arg list \<Rightarrow> ty list"
    and R :: "def_id set" and Q :: "ty \<Rightarrow> bool" and P :: "'s \<Rightarrow> bool"
  assumes finite_R: "finite R"
    and Q_super: "Q t \<Longrightarrow> u \<in> set (super_parts t) \<Longrightarrow> Q u"
    and Q_adt: "Q (Ty_Adt d args) \<Longrightarrow> d \<in> R"
    and Q_field: "Q (Ty_Adt d args) \<Longrightarrow> u \<in> set (F d args) \<Longrightarrow> Q u"
    and step: "Q t \<Longrightarrow> P s \<Longrightarrow>
      (\<exists>b s' U'. visit (Suc n) t (s, U) = Inr (b, s', U') \<and> P s' \<and> set U \<subseteq> set U') \<or>
      (\<exists>ps. set ps \<subseteq> set (super_parts t) \<and> visit (Suc n) t (s, U) = rany (visit n) ps (s, U)) \<or>
      (\<exists>d args s' ps. t = Ty_Adt d args \<and> d \<notin> set U \<and> P s' \<and> set ps \<subseteq> set (super_parts t) \<and>
         visit (Suc n) t (s, U) =
           rbind (visit_fields (visit n) (F d args) (s', hs_insert d U))
             (\<lambda>(s, U). rany (visit n) ps (s, hs_remove d U)))"
begin

lemma rany_ok:
  assumes IH: "\<And>t s U. \<lbrakk>t \<in> set ps; P s; set U0 \<subseteq> set U\<rbrakk> \<Longrightarrow>
      ok (\<lambda>(b, s', U'). P s' \<and> set U \<subseteq> set U') (visit n t (s, U))"
    and "P s" "set U0 \<subseteq> set U"
  shows "ok (\<lambda>(b, s', U'). P s' \<and> set U0 \<subseteq> set U') (rany (visit n) ps (s, U))"
proof -
  have "ok (\<lambda>(b, s). case s of (s', U') \<Rightarrow> P s' \<and> set U0 \<subseteq> set U') (rany (visit n) ps (s, U))"
  proof (rule ok_rany)
    fix t and x :: "'s \<times> def_id list"
    assume "t \<in> set ps" "case x of (s', U') \<Rightarrow> P s' \<and> set U0 \<subseteq> set U'"
    then show "ok (\<lambda>(b, s). case s of (s', U') \<Rightarrow> P s' \<and> set U0 \<subseteq> set U') (visit n t x)"
      using IH [of t "fst x" "snd x"] by (cases x) (auto elim!: ok_mono)
  qed (use assms in simp)
  then show ?thesis by (simp add: case_prod_unfold)
qed

lemma fields_ok:
  assumes IH: "\<And>t s U. \<lbrakk>t \<in> set ts; P s; set U0 \<subseteq> set U\<rbrakk> \<Longrightarrow>
      ok (\<lambda>(b, s', U'). P s' \<and> set U \<subseteq> set U') (visit n t (s, U))"
    and "P s"
  shows "ok (\<lambda>(s', U'). P s' \<and> set U0 \<subseteq> set U') (visit_fields (visit n) ts (s, U0))"
proof (rule ok_visit_fields)
  fix t and x :: "'s \<times> def_id list"
  assume "t \<in> set ts" "case x of (s', U') \<Rightarrow> P s' \<and> set U0 \<subseteq> set U'"
  then show "ok (\<lambda>(b, s). case s of (s', U') \<Rightarrow> P s' \<and> set U0 \<subseteq> set U') (visit n t x)"
    using IH [of t "fst x" "snd x"] by (cases x) (auto elim!: ok_mono)
qed (use assms in simp)

lemma visit_ok:
  "\<lbrakk>Q t; P s; card (R - set U) \<le> k; visit_bound F k t \<le> n\<rbrakk> \<Longrightarrow>
     ok (\<lambda>(b, s', U'). P s' \<and> set U \<subseteq> set U') (visit n t (s, U))"
proof (induction n arbitrary: k t s U)
  case 0
  then show ?case using visit_bound_pos [of F k t] by simp
next
  case (Suc n)
  have card_le: "card (R - set U') \<le> k" if "set U \<subseteq> set U'" for U'
    using Suc.prems(3) card_mono [of "R - set U" "R - set U'"] finite_R that by fastforce
  have part: "ok (\<lambda>(b, s', U''). P s' \<and> set U' \<subseteq> set U'') (visit n u (s', U'))"
    if "u \<in> set (super_parts t)" "P s'" "set U \<subseteq> set U'" for u s' U'
    using that Suc.prems Q_super [of t u] card_le [of U'] visit_bound_super [of u t F k]
    by (intro Suc.IH [where k = k]) auto
  from step [OF Suc.prems(1,2), of n U] show ?case
  proof (elim disjE exE conjE)
    fix ps assume "set ps \<subseteq> set (super_parts t)" "visit (Suc n) t (s, U) = rany (visit n) ps (s, U)"
    then show ?thesis using part Suc.prems(2) by (auto intro!: rany_ok)
  next
    fix d args s' ps
    assume t: "t = Ty_Adt d args" and d: "d \<notin> set U" and s': "P s'" and ps: "set ps \<subseteq> set (super_parts t)"
      and eq: "visit (Suc n) t (s, U) = rbind (visit_fields (visit n) (F d args) (s', hs_insert d U))
             (\<lambda>(s, U). rany (visit n) ps (s, hs_remove d U))"
    have "d \<in> R - set U" using Q_adt [of d args] Suc.prems(1) d t by simp
    then have less: "card (R - set (hs_insert d U)) < card (R - set U)"
      using finite_R by (intro psubset_card_mono) auto
    then obtain j where j: "k = Suc j" using Suc.prems(3) by (cases k) auto
    have "ok (\<lambda>(s', U'). P s' \<and> set (hs_insert d U) \<subseteq> set U')
        (visit_fields (visit n) (F d args) (s', hs_insert d U))"
    proof (rule fields_ok)
      fix u s'' U' assume u: "u \<in> set (F d args)" "P s''" "set (hs_insert d U) \<subseteq> set U'"
      then have "card (R - set U') \<le> card (R - set (hs_insert d U))"
        using finite_R by (intro card_mono) auto
      with u less j t Suc.prems visit_bound_field [of u F d args j] Q_field [of d args u]
      show "ok (\<lambda>(b, s', U''). P s' \<and> set U' \<subseteq> set U'') (visit n u (s'', U'))"
        by (intro Suc.IH [where k = j]) auto
    qed (rule s')
    then show ?thesis unfolding eq
    proof (rule ok_rbindI)
      fix x :: "'s \<times> def_id list"
      assume "case x of (s', U') \<Rightarrow> P s' \<and> set (hs_insert d U) \<subseteq> set U'"
      with d ps part show "ok (\<lambda>(b, s', U'). P s' \<and> set U \<subseteq> set U')
          (case x of (s, U) \<Rightarrow> rany (visit n) ps (s, hs_remove d U))"
        by (cases x) (auto intro!: rany_ok)
    qed
  qed auto
qed

end

subsection \<open>What the analysis relies on of the compiler's types\<close>

text \<open>The ADTs a type mentions, also behind pointers.\<close>

fun heads :: "ty \<Rightarrow> def_id set" where
  "heads (Ty_Array t) = heads t"
| "heads (Ty_Slice t) = heads t"
| "heads (Ty_RawPtr t _) = heads t"
| "heads (Ty_Ref t _) = heads t"
| "heads (Ty_Tuple ts) = (\<Union>t \<in> set ts. heads t)"
| "heads (Ty_Adt d args) = insert d (\<Union>t \<in> set (arg_types args). heads t)"
| "heads _ = {}"

definition adt_ids :: "tcx \<Rightarrow> def_id \<Rightarrow> generic_arg list" where
  "adt_ids tcx d = (case type_of tcx d of Ty_Adt _ ids \<Rightarrow> ids | _ \<Rightarrow> [])"

definition decl_heads :: "tcx \<Rightarrow> def_id \<Rightarrow> def_id set" where
  "decl_heads tcx d = (\<Union>t \<in> set (adt_all_fields tcx d (adt_ids tcx d)). heads t)"

text \<open>
  \<open>type_of\<close> of an ADT is the ADT applied to its own parameters; \<open>field.ty\<close> replaces parameters by
  arguments, so an instance mentions the ADTs of the declaration, those of the arguments and no others,
  and no parameters but those of the arguments; a struct or union has one variant.
\<close>

definition type_of_law :: "tcx \<Rightarrow> bool" where
  "type_of_law tcx \<longleftrightarrow> (\<forall>d. type_of tcx d = Ty_Adt d (adt_ids tcx d) \<and>
     field_params (type_of tcx d) \<subseteq> ty_positions (adt_ids tcx d) \<and> heads (type_of tcx d) = {d})"

definition field_ty_law :: "tcx \<Rightarrow> bool" where
  "field_ty_law tcx \<longleftrightarrow> (\<forall>d args.
     (\<forall>t \<in> set (adt_all_fields tcx d args).
        field_params t \<subseteq> field_params (Ty_Adt d args) \<and> heads t \<subseteq> decl_heads tcx d \<union> heads (Ty_Adt d args)) \<and>
     decl_heads tcx d \<subseteq> (\<Union>t \<in> set (adt_all_fields tcx d args). heads t))"

definition variant_law :: "tcx \<Rightarrow> bool" where
  "variant_law tcx \<longleftrightarrow> (\<forall>d args. adt_kind_of tcx d \<noteq> Adt_Enum \<longrightarrow> length (adt_variants tcx d args) = 1)"

definition ty_laws :: "tcx \<Rightarrow> bool" where
  "ty_laws tcx \<longleftrightarrow> type_of_law tcx \<and> field_ty_law tcx \<and> variant_law tcx \<and> enum_order (set_order tcx)"

lemma ty_lawsD:
  assumes "ty_laws tcx"
  shows "type_of tcx d = Ty_Adt d (adt_ids tcx d)"
    and "field_params (Ty_Adt d (adt_ids tcx d)) \<subseteq> ty_positions (adt_ids tcx d)"
    and "heads (Ty_Adt d (adt_ids tcx d)) = {d}"
    and "t \<in> set (adt_all_fields tcx d args) \<Longrightarrow> field_params t \<subseteq> field_params (Ty_Adt d args)"
    and "t \<in> set (adt_all_fields tcx d args) \<Longrightarrow> heads t \<subseteq> decl_heads tcx d \<union> heads (Ty_Adt d args)"
    and "decl_heads tcx d \<subseteq> (\<Union>t \<in> set (adt_all_fields tcx d args). heads t)"
    and "adt_kind_of tcx d \<noteq> Adt_Enum \<Longrightarrow> length (adt_variants tcx d args) = 1"
    and "enum_order (set_order tcx)"
  using assms unfolding ty_laws_def type_of_law_def field_ty_law_def variant_law_def by metis+

lemma heads_super: "u \<in> set (super_parts t) \<Longrightarrow> heads u \<subseteq> heads t"
  by (cases t) auto

text \<open>A well-formed table for the ADTs \<open>R\<close>: one unit per variant, one flag per parameter, set only
  for type parameters, no unit uninitialised.\<close>

definition units_ok :: "tcx \<Rightarrow> def_id \<Rightarrow> owner_unit list \<Rightarrow> bool" where
  "units_ok tcx d us \<longleftrightarrow> length us = length (adt_variants tcx d (adt_ids tcx d)) \<and>
     (\<forall>u \<in> set us. fst u \<noteq> Uninit \<and> flags_ok (adt_ids tcx d) (snd u))"

definition owner_ok :: "tcx \<Rightarrow> def_id set \<Rightarrow> adt_owner \<Rightarrow> bool" where
  "owner_ok tcx R m \<longleftrightarrow> (\<forall>d \<in> R. \<exists>us. m d = Some us \<and> units_ok tcx d us)"

definition adts_closed :: "tcx \<Rightarrow> def_id set \<Rightarrow> bool" where
  "adts_closed tcx R \<longleftrightarrow> (\<forall>d \<in> R. decl_heads tcx d \<subseteq> R)"

definition visitable :: "tcx \<Rightarrow> adt_owner \<Rightarrow> def_id list \<Rightarrow> generic_arg list \<Rightarrow> ty \<Rightarrow> bool" where
  "visitable tcx owner R ids t \<longleftrightarrow> ty_laws tcx \<and> owner_ok tcx (set R) owner \<and> adts_closed tcx (set R) \<and>
     heads t \<subseteq> set R \<and> field_params t \<subseteq> ty_positions ids"

lemma visitable_super: "visitable tcx owner R ids t \<Longrightarrow> u \<in> set (super_parts t) \<Longrightarrow> visitable tcx owner R ids u"
  using heads_super field_params_super unfolding visitable_def by blast

lemma visitable_adt: "visitable tcx owner R ids (Ty_Adt d args) \<Longrightarrow> d \<in> set R"
  by (simp add: visitable_def)

lemma visitable_owner:
  assumes "visitable tcx owner R ids (Ty_Adt d args)"
  obtains us where "owner d = Some us" "units_ok tcx d us"
  using assms by (auto simp: visitable_def owner_ok_def)

lemma visitable_field:
  assumes "visitable tcx owner R ids (Ty_Adt d args)" "u \<in> set (adt_all_fields tcx d args)"
  shows "visitable tcx owner R ids u"
proof -
  have law: "ty_laws tcx" and "decl_heads tcx d \<subseteq> set R" and "heads (Ty_Adt d args) \<subseteq> set R"
    and "field_params (Ty_Adt d args) \<subseteq> ty_positions ids"
    using assms(1) by (auto simp: visitable_def adts_closed_def)
  with ty_lawsD(4,5) [OF law assms(2)] have "heads u \<subseteq> set R" "field_params u \<subseteq> ty_positions ids" by blast+
  with assms(1) show ?thesis by (simp add: visitable_def)
qed

subsection \<open>The visitors meet the contract\<close>

lemma iso_prop_step:
  assumes q: "visitable tcx owner R ids t" and p: "flags_ok ids record"
  shows "(\<exists>b s' U'. iso_prop_visit (Suc n) tcx owner se t (record, U) = Inr (b, s', U') \<and> flags_ok ids s' \<and> set U \<subseteq> set U') \<or>
      (\<exists>ps. set ps \<subseteq> set (super_parts t) \<and>
         iso_prop_visit (Suc n) tcx owner se t (record, U) = rany (iso_prop_visit n tcx owner se) ps (record, U)) \<or>
      (\<exists>d args s' ps. t = Ty_Adt d args \<and> d \<notin> set U \<and> flags_ok ids s' \<and> set ps \<subseteq> set (super_parts t) \<and>
         iso_prop_visit (Suc n) tcx owner se t (record, U) =
           rbind (visit_fields (iso_prop_visit n tcx owner se) (adt_all_fields tcx d args) (s', hs_insert d U))
             (\<lambda>(s, U). rany (iso_prop_visit n tcx owner se) ps (s, hs_remove d U)))"
proof (cases t)
  case (Ty_Adt d args)
  show ?thesis
  proof (cases "args = [] \<or> \<not> se \<and> adt_kind_of tcx d = Adt_Enum \<or> d \<in> set U \<or> subst_params (enumerate 0 args) = []")
    case True
    with p Ty_Adt show ?thesis by (intro disjI1) (auto simp: Let_def)
  next
    case go: False
    from q Ty_Adt obtain us where us: "owner d = Some us" by (blast elim: visitable_owner)
    show ?thesis
    proof (cases "us = []")
      case True
      with go us p Ty_Adt show ?thesis by (intro disjI1) (auto simp: Let_def)
    next
      case False
      have "ok (flags_ok ids) (iso_prop_flags tcx (snd (us ! 0)) (subst_params (enumerate 0 args)) record)"
      proof (rule ok_iso_prop_flags)
        show "flags_ok ids record" by (rule p)
        show "enum_order (set_order tcx)" using q by (auto simp: visitable_def dest: ty_lawsD(8))
        fix i ps assume "map_of (subst_params (enumerate 0 args)) i = Some ps"
        from subst_params_range [OF this, of d] show "set ps \<subseteq> ty_positions ids"
          by (rule order_trans) (use q p Ty_Adt in \<open>simp add: visitable_def\<close>)
      qed
      then obtain r where "iso_prop_flags tcx (snd (us ! 0)) (subst_params (enumerate 0 args)) record = Inr r"
        "flags_ok ids r" by (auto simp: ok_def)
      with go us False Ty_Adt show ?thesis
        by (intro disjI2) (rule exI [of _ d], rule exI [of _ args], rule exI [of _ r],
            rule exI [of _ "arg_types args"], auto simp: Let_def)
    qed
  qed
next
  case (Ty_Array u)
  then show ?thesis by (intro disjI2 [OF disjI1] exI [of _ "[u]"]) simp
next
  case (Ty_Tuple ts)
  then show ?thesis by (intro disjI2 [OF disjI1] exI [of _ ts]) simp
qed (use p in auto)

interpretation ipv: path_visitor "\<lambda>n. iso_prop_visit n tcx owner se" "adt_all_fields tcx" "set R"
    "visitable tcx owner R ids" "\<lambda>record. flags_ok ids record" for tcx owner se R ids
  by unfold_locales
    (simp, erule visitable_super, assumption, erule visitable_adt, erule visitable_field, assumption, erule iso_prop_step)

lemma owner_prop_step:
  assumes q: "visitable tcx owner R ids t" and p: "own \<noteq> Uninit"
  shows "(\<exists>b s' U'. owner_prop_visit (Suc n) tcx owner t (own, U) = Inr (b, s', U') \<and> s' \<noteq> Uninit \<and> set U \<subseteq> set U') \<or>
      (\<exists>ps. set ps \<subseteq> set (super_parts t) \<and>
         owner_prop_visit (Suc n) tcx owner t (own, U) = rany (owner_prop_visit n tcx owner) ps (own, U)) \<or>
      (\<exists>d args s' ps. t = Ty_Adt d args \<and> d \<notin> set U \<and> s' \<noteq> Uninit \<and> set ps \<subseteq> set (super_parts t) \<and>
         owner_prop_visit (Suc n) tcx owner t (own, U) =
           rbind (visit_fields (owner_prop_visit n tcx owner) (adt_all_fields tcx d args) (s', hs_insert d U))
             (\<lambda>(s, U). rany (owner_prop_visit n tcx owner) ps (s, hs_remove d U)))"
proof (cases t)
  case (Ty_Adt d args)
  from q Ty_Adt obtain us where us: "owner d = Some us" by (blast elim: visitable_owner)
  show ?thesis
  proof (cases "d \<in> set U \<or> adt_kind_of tcx d = Adt_Enum \<or> us = [] \<or> fst (us ! 0) = Owned")
    case True
    with p us Ty_Adt show ?thesis by (intro disjI1) (auto simp: Let_def)
  next
    case False
    with p us Ty_Adt show ?thesis
      by (intro disjI2) (rule exI [of _ d], rule exI [of _ args], rule exI [of _ own],
          rule exI [of _ "arg_types args"], simp add: Let_def)
  qed
next
  case (Ty_Array u)
  then show ?thesis by (intro disjI2 [OF disjI1] exI [of _ "[u]"]) simp
next
  case (Ty_Tuple ts)
  then show ?thesis by (intro disjI2 [OF disjI1] exI [of _ ts]) simp
qed (use p in auto)

interpretation opv: path_visitor "\<lambda>n. owner_prop_visit n tcx owner" "adt_all_fields tcx" "set R"
    "visitable tcx owner R ids" "\<lambda>own. own \<noteq> Uninit" for tcx owner R ids
  by unfold_locales
    (simp, erule visitable_super, assumption, erule visitable_adt, erule visitable_field, assumption, erule owner_prop_step)

lemma find_ptr_step:
  "(\<exists>b s' U'. find_ptr_visit (Suc n) tcx t (ptr, U) = Inr (b, s', U') \<and> True \<and> set U \<subseteq> set U') \<or>
   (\<exists>ps. set ps \<subseteq> set (super_parts t) \<and> find_ptr_visit (Suc n) tcx t (ptr, U) = rany (find_ptr_visit n tcx) ps (ptr, U)) \<or>
   (\<exists>d args s' ps. t = Ty_Adt d args \<and> d \<notin> set U \<and> True \<and> set ps \<subseteq> set (super_parts t) \<and>
      find_ptr_visit (Suc n) tcx t (ptr, U) =
        rbind (visit_fields (find_ptr_visit n tcx) (adt_all_fields tcx d args) (s', hs_insert d U))
          (\<lambda>(s, U). rany (find_ptr_visit n tcx) ps (s, hs_remove d U)))"
proof (cases t)
  case (Ty_Adt d args)
  then show ?thesis
  proof (cases "adt_kind_of tcx d = Adt_Struct \<and> d \<notin> set U")
    case True
    with Ty_Adt show ?thesis
      by (intro disjI2) (rule exI [of _ d], rule exI [of _ args], rule exI [of _ ptr], rule exI [of _ "[]"], simp)
  next
    case False
    with Ty_Adt show ?thesis by (intro disjI1) auto
  qed
qed auto

interpretation fpv: path_visitor "\<lambda>n. find_ptr_visit n tcx" "adt_all_fields tcx" "set R"
    "visitable tcx owner R ids" "\<lambda>ptr. True" for tcx owner R ids
  by unfold_locales
    (simp, erule visitable_super, assumption, erule visitable_adt, erule visitable_field, assumption, rule find_ptr_step)

end
