(* ===== verification/Heap_Item.thy ===== *)
theory Heap_Item
  imports Type_Visit
begin

section \<open>Heap items: layouts and queries\<close>

text \<open>
  The interface of the type analysis to its clients (\<^verbatim>\<open>core/heap_item.rs\<close>): the ownership layout of a type
  (\<open>Encoder\<close>, with its result type of \<^verbatim>\<open>core/heap_item/ownership.rs\<close>), the queries \<open>HeapItem\<close> and
  \<open>IsolatedParameter\<close>, and the types with an index. A query returns a Rust \<open>Result\<close>, so an \<open>Err\<close> is the
  value \<open>Inl\<close> of a sum inside the panic monad.
\<close>

subsection \<open>Ownership layouts\<close>

record layout_result =
  lay_layout :: "raw_type_owner list"
  lay_param :: bool
  lay_requirement :: bool
  lay_owned :: bool

definition layout_result_new :: layout_result where
  "layout_result_new = \<lparr>lay_layout = [], lay_param = False, lay_requirement = False, lay_owned = False\<rparr>"

definition update_from_default_ownership_visitor :: "default_ownership \<Rightarrow> layout_result \<Rightarrow> layout_result" where
  "update_from_default_ownership_visitor v r =
     (let r = (if do_res v = Owned \<or> do_ptr v then r\<lparr>lay_requirement := True\<rparr> else r);
          r = (if do_res v = Owned then r\<lparr>lay_owned := True\<rparr> else r);
          r = r\<lparr>lay_layout := lay_layout r @ [do_res v]\<rparr>
      in r\<lparr>lay_param := do_param v\<rparr>)"

text \<open>Every component gets a visitor of its own.\<close>

definition encode_part :: "tcx \<Rightarrow> adt_owner \<Rightarrow> ty \<Rightarrow> layout_result \<Rightarrow> layout_result res" where
  "encode_part tcx owner t r =
     rbind (default_own_visit tcx owner t default_ownership_new)
       (\<lambda>(_, v). Inr (update_from_default_ownership_visitor v r))"

definition encode :: "tcx \<Rightarrow> adt_owner \<Rightarrow> ty \<Rightarrow> nat option \<Rightarrow> layout_result res" where
  "encode tcx owner ty variant =
     (case ty of
        Ty_Array _ \<Rightarrow> encode_part tcx owner ty layout_result_new
      | Ty_Tuple ts \<Rightarrow> rfold (encode_part tcx owner) ts layout_result_new
      | Ty_Adt d substs \<Rightarrow>
          if adt_kind_of tcx d = Adt_Enum \<and> variant = None then Inr layout_result_new
          else if adt_kind_of tcx d = Adt_Struct \<or> adt_kind_of tcx d = Adt_Union
          then rfold (encode_part tcx owner) (adt_all_fields tcx d substs) layout_result_new
          else rbind (unwrap variant) (\<lambda>vidx. rbind (at (adt_variants tcx d substs) vidx)
                 (\<lambda>vfields. rfold (encode_part tcx owner) vfields layout_result_new))
      | Ty_Param _ _ \<Rightarrow>
          Inr (layout_result_new\<lparr>lay_requirement := True, lay_param := True, lay_owned := True, lay_layout := [Owned]\<rparr>)
      | Ty_RawPtr _ _ \<Rightarrow> Inr (layout_result_new\<lparr>lay_requirement := True, lay_layout := [Unowned]\<rparr>)
      | Ty_Ref _ _ \<Rightarrow> Inr (layout_result_new\<lparr>lay_requirement := True, lay_layout := [Unowned]\<rparr>)
      | _ \<Rightarrow> Inr layout_result_new)"

subsection \<open>The queries\<close>

type_synonym 'a query = "(string + 'a) res"

definition unit_owned :: "owner_unit \<Rightarrow> bool" where
  "unit_owned u \<longleftrightarrow> fst u = Owned"

definition unit_has_param :: "owner_unit \<Rightarrow> bool" where
  "unit_has_param u \<longleftrightarrow> list_ex (\<lambda>x. x = True) (snd u)"

definition heap_is_adt :: "adt_owner \<Rightarrow> ty \<Rightarrow> bool query" where
  "heap_is_adt owner ty =
     (case ty of
        Ty_Adt d _ \<Rightarrow> rbind (unwrap (owner d)) (\<lambda>ans. Inr (Inr (list_ex unit_owned ans)))
      | _ \<Rightarrow> Inr (Inl ''The input is not an ADT''))"

definition heap_is_struct :: "tcx \<Rightarrow> adt_owner \<Rightarrow> ty \<Rightarrow> bool query" where
  "heap_is_struct tcx owner ty =
     (case ty of
        Ty_Adt d _ \<Rightarrow>
          if adt_kind_of tcx d \<noteq> Adt_Struct \<and> adt_kind_of tcx d \<noteq> Adt_Union
          then Inr (Inl ''The input is not a struct'')
          else rbind (unwrap (owner d)) (\<lambda>ans. rbind (at ans 0) (\<lambda>u. Inr (Inr (unit_owned u))))
      | _ \<Rightarrow> Inr (Inl ''The input is not an ADT''))"

definition heap_is_enum :: "tcx \<Rightarrow> adt_owner \<Rightarrow> ty \<Rightarrow> bool query" where
  "heap_is_enum tcx owner ty =
     (case ty of
        Ty_Adt d _ \<Rightarrow>
          if adt_kind_of tcx d \<noteq> Adt_Enum then Inr (Inl ''The input is not an enum'')
          else rbind (unwrap (owner d)) (\<lambda>ans. Inr (Inr (list_ex unit_owned ans)))
      | _ \<Rightarrow> Inr (Inl ''The input is not an ADT''))"

definition heap_is_enum_vidx :: "tcx \<Rightarrow> adt_owner \<Rightarrow> ty \<Rightarrow> nat \<Rightarrow> bool query" where
  "heap_is_enum_vidx tcx owner ty idx =
     (case ty of
        Ty_Adt d _ \<Rightarrow>
          if adt_kind_of tcx d \<noteq> Adt_Enum then Inr (Inl ''The input is not an enum'')
          else rbind (unwrap (owner d)) (\<lambda>ans.
            if idx > length ans then Inr (Inl ''The index is not a valid variance'')
            else rbind (at ans idx) (\<lambda>u. Inr (Inr (unit_owned u))))
      | _ \<Rightarrow> Inr (Inl ''The input is not an ADT''))"

definition heap_is_enum_flattened :: "tcx \<Rightarrow> adt_owner \<Rightarrow> ty \<Rightarrow> bool list query" where
  "heap_is_enum_flattened tcx owner ty =
     (case ty of
        Ty_Adt d _ \<Rightarrow>
          if adt_kind_of tcx d \<noteq> Adt_Enum then Inr (Inl ''The input is not an enum'')
          else rbind (unwrap (owner d)) (\<lambda>ans. Inr (Inr (map unit_owned ans)))
      | _ \<Rightarrow> Inr (Inl ''The input is not an ADT''))"

definition iso_is_adt :: "adt_owner \<Rightarrow> ty \<Rightarrow> bool query" where
  "iso_is_adt owner ty =
     (case ty of
        Ty_Adt d _ \<Rightarrow> rbind (unwrap (owner d)) (\<lambda>ans. Inr (Inr (list_ex unit_has_param ans)))
      | _ \<Rightarrow> Inr (Inl ''The input is not an ADT''))"

definition iso_is_struct :: "tcx \<Rightarrow> adt_owner \<Rightarrow> ty \<Rightarrow> bool query" where
  "iso_is_struct tcx owner ty =
     (case ty of
        Ty_Adt d _ \<Rightarrow>
          if adt_kind_of tcx d \<noteq> Adt_Struct \<and> adt_kind_of tcx d \<noteq> Adt_Union
          then Inr (Inl ''The input is not a struct'')
          else rbind (unwrap (owner d)) (\<lambda>ans. rbind (at ans 0) (\<lambda>u. Inr (Inr (unit_has_param u))))
      | _ \<Rightarrow> Inr (Inl ''The input is not an ADT''))"

definition iso_is_enum :: "tcx \<Rightarrow> adt_owner \<Rightarrow> ty \<Rightarrow> bool query" where
  "iso_is_enum tcx owner ty =
     (case ty of
        Ty_Adt d _ \<Rightarrow>
          if adt_kind_of tcx d \<noteq> Adt_Enum then Inr (Inl ''The input is not an enum'')
          else rbind (unwrap (owner d)) (\<lambda>ans. Inr (Inr (list_ex unit_has_param ans)))
      | _ \<Rightarrow> Inr (Inl ''The input is not an ADT''))"

definition iso_is_enum_vidx :: "tcx \<Rightarrow> adt_owner \<Rightarrow> ty \<Rightarrow> nat \<Rightarrow> bool query" where
  "iso_is_enum_vidx tcx owner ty idx =
     (case ty of
        Ty_Adt d _ \<Rightarrow>
          if adt_kind_of tcx d \<noteq> Adt_Enum then Inr (Inl ''The input is not an enum'')
          else rbind (unwrap (owner d)) (\<lambda>ans.
            if idx > length ans then Inr (Inl ''The index is not a valid variance'')
            else rbind (at ans idx) (\<lambda>u. Inr (Inr (unit_has_param u))))
      | _ \<Rightarrow> Inr (Inl ''The input is not an ADT''))"

definition iso_is_enum_flattened :: "tcx \<Rightarrow> adt_owner \<Rightarrow> ty \<Rightarrow> bool list list query" where
  "iso_is_enum_flattened tcx owner ty =
     (case ty of
        Ty_Adt d _ \<Rightarrow>
          if adt_kind_of tcx d \<noteq> Adt_Enum then Inr (Inl ''The input is not an enum'')
          else rbind (unwrap (owner d)) (\<lambda>ans. Inr (Inr (map snd ans)))
      | _ \<Rightarrow> Inr (Inl ''The input is not an ADT''))"

subsection \<open>Types with an index\<close>

text \<open>\<open>IndexedTy\<close>, and \<open>TyWithIndex\<close> of \<^verbatim>\<open>type_visitor.rs\<close>, which is the same text: the number of components of a
  value, its type, the variant of an enum, and whether the solver has to track it.\<close>

type_synonym indexed_ty = "(nat \<times> ty \<times> nat option \<times> bool) option"

definition indexed_ty_new :: "tcx \<Rightarrow> ty \<Rightarrow> nat option \<Rightarrow> indexed_ty res" where
  "indexed_ty_new tcx ty vidx =
     (case ty of
        Ty_Tuple ts \<Rightarrow> Inr (Some (length ts, ty, None, True))
      | Ty_Adt d args \<Rightarrow>
          if adt_kind_of tcx d = Adt_Enum then
            (case vidx of
               None \<Rightarrow> Inr None
             | Some idx \<Rightarrow> rbind (at (adt_variants tcx d args) idx)
                 (\<lambda>vfields. Inr (Some (length vfields, ty, Some idx, True))))
          else rbind (at (adt_variants tcx d args) 0) (\<lambda>vfields. Inr (Some (length vfields, ty, None, True)))
      | Ty_Array _ \<Rightarrow> Inr (Some (1, ty, None, True))
      | Ty_Param _ _ \<Rightarrow> Inr (Some (1, ty, None, True))
      | Ty_RawPtr _ _ \<Rightarrow> Inr (Some (1, ty, None, True))
      | Ty_Ref _ _ \<Rightarrow> Inr (Some (1, ty, None, True))
      | Ty_Bool \<Rightarrow> Inr (Some (1, ty, None, False))
      | Ty_Char \<Rightarrow> Inr (Some (1, ty, None, False))
      | Ty_Int _ \<Rightarrow> Inr (Some (1, ty, None, False))
      | Ty_Uint _ \<Rightarrow> Inr (Some (1, ty, None, False))
      | Ty_Float _ \<Rightarrow> Inr (Some (1, ty, None, False))
      | Ty_Str \<Rightarrow> Inr (Some (1, ty, None, False))
      | Ty_Slice _ \<Rightarrow> Inr (Some (1, ty, None, False))
      | _ \<Rightarrow> Inr None)"

definition get_priority :: "indexed_ty \<Rightarrow> nat" where
  "get_priority t =
     (case t of
        None \<Rightarrow> 0
      | Some (len, _, _, needed) \<Rightarrow> if len = 0 then 1 else if needed then 2 else 1)"

end
