(* ===== verification/Type_Analysis_Props.thy ===== *)
theory Type_Analysis_Props
  imports Type_Visit_Props Heap_Item
begin

section \<open>Properties of the type analysis\<close>

text \<open>
  The collection of types returns on every crate with finitely many types and records every ADT a body
  mentions; the recorded ADTs are closed under declarations, so that no phase finds an ADT missing from the
  table, and the table the phases leave has one unit per variant and one flag per parameter. Then the
  queries and the layouts, which rely on this table.
\<close>

subsection \<open>The phases\<close>

lemma adt_all_fields_iff: "t \<in> set (adt_all_fields tcx d args) \<longleftrightarrow> (\<exists>fs \<in> set (adt_variants tcx d args). t \<in> set fs)"
  by (auto simp: adt_all_fields_def)

lemma rfold_push:
  assumes "\<And>x. x \<in> set xs \<Longrightarrow> g x = Inr (h x)"
  shows "rfold (\<lambda>x v. rbind (g x) (\<lambda>r. Inr (v @ [k r]))) xs v = Inr (v @ map (\<lambda>x. k (h x)) xs)"
  using assms by (induction xs arbitrary: v) auto

text \<open>The flags of the first phase: which parameters of the ADT its fields hold by value.\<close>

definition raw_flags :: "tcx \<Rightarrow> def_id \<Rightarrow> ty list \<Rightarrow> bool list" where
  "raw_flags tcx d fs = map (\<lambda>i. \<exists>t \<in> set fs. i \<in> raw_params t) [0..<length (adt_ids tcx d)]"

lemma raw_params_positions:
  assumes laws: "ty_laws tcx" and fs: "fs \<in> set (adt_variants tcx d (adt_ids tcx d))" and t: "t \<in> set fs"
  shows "raw_params t \<subseteq> ty_positions (adt_ids tcx d)"
proof -
  have "t \<in> set (adt_all_fields tcx d (adt_ids tcx d))" using t fs by (auto simp: adt_all_fields_iff)
  then show ?thesis
    by (rule order_trans [OF raw_params_subset order_trans [OF ty_lawsD(4) [OF laws] ty_lawsD(2) [OF laws]]])
qed

lemma extract_raw_generic_eq:
  assumes laws: "ty_laws tcx"
  shows "extract_raw_generic tcx d s = Inr (s\<lparr>ta_adt_owner :=
    AList.update d (map (\<lambda>fs. (Unowned, raw_flags tcx d fs)) (adt_variants tcx d (adt_ids tcx d))) (ta_adt_owner s)\<rparr>)"
proof -
  have "visit_fields iso_visit fs (isolated_param_new (length (adt_ids tcx d))) = Inr (raw_flags tcx d fs)"
    if fs: "fs \<in> set (adt_variants tcx d (adt_ids tcx d))" for fs
  proof -
    have "visit_fields iso_visit fs (isolated_param_new (length (adt_ids tcx d)))
        = Inr (flagged (\<Union>t \<in> set fs. raw_params t) (isolated_param_new (length (adt_ids tcx d))))"
      using raw_params_positions [OF laws fs]
      by (intro visit_fields_iso) (fastforce simp: isolated_param_new_def ty_positions_def)
    also have "flagged (\<Union>t \<in> set fs. raw_params t) (isolated_param_new (length (adt_ids tcx d))) = raw_flags tcx d fs"
      by (simp add: flagged_def raw_flags_def isolated_param_new_def cong: map_cong)
    finally show ?thesis .
  qed
  then show ?thesis
    using rfold_push [of "adt_variants tcx d (adt_ids tcx d)"
        "\<lambda>fs. visit_fields iso_visit fs (isolated_param_new (length (adt_ids tcx d)))" "raw_flags tcx d" "Pair Unowned"]
    by (simp add: extract_raw_generic_def ty_lawsD(1) [OF laws, of d])
qed

lemma units_ok_raw:
  assumes "ty_laws tcx"
  shows "units_ok tcx d (map (\<lambda>fs. (Unowned, raw_flags tcx d fs)) (adt_variants tcx d (adt_ids tcx d)))"
  using raw_params_positions [OF assms] by (fastforce simp: units_ok_def raw_flags_def flags_ok_def)

lemma units_ok_update:
  assumes "units_ok tcx d v" "i < length v" "fst u \<noteq> Uninit" "flags_ok (adt_ids tcx d) (snd u)"
  shows "units_ok tcx d (v[i := u])"
  using assms set_update_subset_insert [of v i u] unfolding units_ok_def by (metis insert_iff length_list_update subsetD)

text \<open>A phase only changes the table, and keeps it well-formed.\<close>

definition table_kept :: "tcx \<Rightarrow> def_id list \<Rightarrow> type_analysis \<Rightarrow> type_analysis \<Rightarrow> bool" where
  "table_kept tcx R s s' \<longleftrightarrow> ta_fn_set s' = ta_fn_set s \<and> ta_ty_map s' = ta_ty_map s \<and>
     ta_adt_recorder s' = ta_adt_recorder s \<and> owner_ok tcx (set R) (map_of (ta_adt_owner s')) \<and>
     dom (map_of (ta_adt_owner s')) = dom (map_of (ta_adt_owner s))"

lemma table_kept_refl: "owner_ok tcx (set R) (map_of (ta_adt_owner s)) \<Longrightarrow> table_kept tcx R s s"
  by (simp add: table_kept_def)

lemma table_kept_trans: "table_kept tcx R s t \<Longrightarrow> table_kept tcx R t u \<Longrightarrow> table_kept tcx R s u"
  by (auto simp: table_kept_def)

lemma table_kept_update:
  assumes "table_kept tcx R s t" "d \<in> set R" "units_ok tcx d us"
  shows "table_kept tcx R s (t\<lparr>ta_adt_owner := AList.update d us (ta_adt_owner t)\<rparr>)"
proof -
  have "insert d (dom (map_of (ta_adt_owner t))) = dom (map_of (ta_adt_owner t))"
    using assms(1,2) by (fastforce simp: table_kept_def owner_ok_def)
  with assms show ?thesis
    by (simp add: table_kept_def owner_ok_def update_conv' dom_fun_upd)
qed

text \<open>Enough fuel for the visitors: it covers the fields of the recorded ADTs.\<close>

definition fields_fuel :: "tcx \<Rightarrow> def_id list \<Rightarrow> nat \<Rightarrow> bool" where
  "fields_fuel tcx R n \<longleftrightarrow> (\<forall>d \<in> set R. \<forall>t \<in> set (adt_all_fields tcx d (adt_ids tcx d)).
     visit_bound (adt_all_fields tcx) (card (set R)) t \<le> n)"

lemma fields_fuel_ex:
  assumes "finite D"
  shows "\<exists>N. \<forall>n \<ge> N. \<forall>R. set R \<subseteq> D \<longrightarrow> fields_fuel tcx R n"
proof -
  let ?S = "\<Union>d \<in> D. set (adt_all_fields tcx d (adt_ids tcx d))"
  let ?B = "(\<lambda>(k, t). visit_bound (adt_all_fields tcx) k t) ` ({..card D} \<times> ?S)"
  have "finite ?B" using assms by simp
  then obtain N where N: "\<forall>x \<in> ?B. x \<le> N" using finite_nat_set_iff_bounded_le by auto
  have "fields_fuel tcx R n" if n: "N \<le> n" and R: "set R \<subseteq> D" for n R
    unfolding fields_fuel_def
  proof (intro ballI)
    fix d t assume "d \<in> set R" "t \<in> set (adt_all_fields tcx d (adt_ids tcx d))"
    moreover have "card (set R) \<le> card D" using R assms by (rule card_mono [rotated])
    ultimately have "visit_bound (adt_all_fields tcx) (card (set R)) t \<in> ?B" using R by force
    with N n show "visit_bound (adt_all_fields tcx) (card (set R)) t \<le> n" by (meson order_trans)
  qed
  then show ?thesis by blast
qed

lemma visitable_ids:
  assumes "ty_laws tcx" "owner_ok tcx (set R) owner" "adts_closed tcx (set R)" "d \<in> set R"
    "t \<in> set (adt_all_fields tcx d (adt_ids tcx d))"
  shows "visitable tcx owner R (adt_ids tcx d) t"
proof -
  have "visitable tcx owner R (adt_ids tcx d) (Ty_Adt d (adt_ids tcx d))"
    using ty_lawsD(2,3) [OF assms(1), of d] assms by (simp only: visitable_def) simp
  from visitable_field [OF this assms(5)] show ?thesis .
qed

lemma card_diff_le: "card (set R - set U) \<le> card (set R)"
  by (rule card_mono) auto

lemma unit_flags: "units_ok tcx d v \<Longrightarrow> i < length v \<Longrightarrow> flags_ok (adt_ids tcx d) (snd (v ! i))"
  by (simp add: units_ok_def)

lemma iso_prop_variant_ok:
  assumes laws: "ty_laws tcx" "owner_ok tcx (set R) owner" "adts_closed tcx (set R)" "fields_fuel tcx R n"
    and d: "d \<in> set R" and x: "x \<in> set (enumerate 0 (adt_variants tcx d (adt_ids tcx d)))"
    and v: "units_ok tcx d v"
  shows "ok (units_ok tcx d) (iso_prop_variant n tcx owner se x v)"
proof -
  obtain i fs where xi: "x = (i, fs)" by (cases x)
  with x have i: "i < length v" "fs \<in> set (adt_variants tcx d (adt_ids tcx d))"
    using v by (auto simp: units_ok_def in_set_enumerate_eq)
  have "ok (\<lambda>(r, U'). flags_ok (adt_ids tcx d) r \<and> set [] \<subseteq> set U')
      (visit_fields (iso_prop_visit n tcx owner se) fs (snd (v ! i), []))"
  proof (rule ipv.fields_ok)
    fix t U and r :: "bool list" assume t: "t \<in> set fs" and r: "flags_ok (adt_ids tcx d) r"
    then have "t \<in> set (adt_all_fields tcx d (adt_ids tcx d))" using i by (auto simp: adt_all_fields_iff)
    from this visitable_ids [OF laws(1-3) d this] r laws(4) d
    show "ok (\<lambda>(b, s', U'). flags_ok (adt_ids tcx d) s' \<and> set U \<subseteq> set U') (iso_prop_visit n tcx owner se t (r, U))"
      by (intro ipv.visit_ok [OF _ _ card_diff_le]) (auto simp: fields_fuel_def)
  qed (use v i in \<open>simp add: units_ok_def\<close>)
  then show ?thesis using i v
    by (auto simp: xi iso_prop_variant_def intro!: units_ok_update elim!: ok_rbindI)
qed

lemma owner_prop_variant_ok:
  assumes laws: "ty_laws tcx" "owner_ok tcx (set R) owner" "adts_closed tcx (set R)" "fields_fuel tcx R n"
    and d: "d \<in> set R" and x: "x \<in> set (enumerate 0 (adt_variants tcx d (adt_ids tcx d)))"
    and v: "units_ok tcx d v"
  shows "ok (units_ok tcx d) (owner_prop_variant n tcx owner x v)"
proof -
  obtain i fs where xi: "x = (i, fs)" by (cases x)
  with x have i: "i < length v" "fs \<in> set (adt_variants tcx d (adt_ids tcx d))"
    using v by (auto simp: units_ok_def in_set_enumerate_eq)
  have "ok (\<lambda>(r, U'). r \<noteq> Uninit \<and> set [] \<subseteq> set U') (visit_fields (owner_prop_visit n tcx owner) fs (fst (v ! i), []))"
  proof (rule opv.fields_ok)
    fix t r U assume t: "t \<in> set fs" and r: "r \<noteq> Uninit"
    then have "t \<in> set (adt_all_fields tcx d (adt_ids tcx d))" using i by (auto simp: adt_all_fields_iff)
    from this visitable_ids [OF laws(1-3) d this] r laws(4) d
    show "ok (\<lambda>(b, s', U'). s' \<noteq> Uninit \<and> set U \<subseteq> set U') (owner_prop_visit n tcx owner t (r, U))"
      by (intro opv.visit_ok [OF _ _ card_diff_le]) (auto simp: fields_fuel_def)
  qed (use v i in \<open>simp add: units_ok_def\<close>)
  then show ?thesis using i v
    by (auto simp: xi owner_prop_variant_def unit_flags intro!: units_ok_update elim!: ok_rbindI)
qed

lemma extract_raw_generic_prop_ok:
  assumes laws: "ty_laws tcx" "adts_closed tcx (set R)" "fields_fuel tcx R n"
    and d: "d \<in> set R" and s: "table_kept tcx R s0 s"
  shows "ok (table_kept tcx R s0) (extract_raw_generic_prop n tcx d s)"
proof -
  from s have own: "owner_ok tcx (set R) (map_of (ta_adt_owner s))" by (simp add: table_kept_def)
  with d obtain us where us: "map_of (ta_adt_owner s) d = Some us" "units_ok tcx d us" by (auto simp: owner_ok_def)
  have "ok (units_ok tcx d) (rfold (iso_prop_variant n tcx (map_of (ta_adt_owner s)) (adt_kind_of tcx d = Adt_Enum))
      (enumerate 0 (adt_variants tcx d (adt_ids tcx d))) us)"
    using us(2) by (rule ok_rfold) (rule iso_prop_variant_ok [OF laws(1) own laws(2,3) d])
  then show ?thesis
    using us table_kept_update [OF s d]
    by (auto simp: extract_raw_generic_prop_def ty_lawsD(1) [OF laws(1), of d] intro!: ok_rbindI)
qed

lemma extract_owner_prop_ok:
  assumes laws: "ty_laws tcx" "adts_closed tcx (set R)" "fields_fuel tcx R n"
    and d: "d \<in> set R" and s: "table_kept tcx R s0 s"
  shows "ok (table_kept tcx R s0) (extract_owner_prop n tcx d s)"
proof -
  from s have own: "owner_ok tcx (set R) (map_of (ta_adt_owner s))" by (simp add: table_kept_def)
  with d obtain us where us: "map_of (ta_adt_owner s) d = Some us" "units_ok tcx d us" by (auto simp: owner_ok_def)
  have "ok (units_ok tcx d) (rfold (owner_prop_variant n tcx (map_of (ta_adt_owner s)))
      (enumerate 0 (adt_variants tcx d (adt_ids tcx d))) us)"
    using us(2) by (rule ok_rfold) (rule owner_prop_variant_ok [OF laws(1) own laws(2,3) d])
  then show ?thesis
    using us table_kept_update [OF s d]
    by (auto simp: extract_owner_prop_def ty_lawsD(1) [OF laws(1), of d] intro!: ok_rbindI)
qed

lemma fields_have_ptr_ok:
  assumes laws: "ty_laws tcx" "adts_closed tcx (set R)" "fields_fuel tcx R n" "owner_ok tcx (set R) owner" "d \<in> set R"
  shows "ok (\<lambda>_. True) (fields_have_ptr n tcx (adt_all_fields tcx d (adt_ids tcx d)))"
proof -
  have "ok (\<lambda>(b, s). True) (rany (\<lambda>t u. rbind (find_ptr_visit n tcx t (False, [])) (\<lambda>(_, has_ptr, _). Inr (has_ptr, u)))
      (adt_all_fields tcx d (adt_ids tcx d)) ())"
  proof (rule ok_rany)
    fix t and u :: unit assume t: "t \<in> set (adt_all_fields tcx d (adt_ids tcx d))"
    have "ok (\<lambda>(b, s', U'). True \<and> set [] \<subseteq> set U') (find_ptr_visit n tcx t (False, []))"
      using visitable_ids [OF laws(1,4,2,5) t] laws(3,5) t
      by (intro fpv.visit_ok [OF _ _ card_diff_le]) (auto simp: fields_fuel_def)
    then show "ok (\<lambda>(b, s). True) (rbind (find_ptr_visit n tcx t (False, [])) (\<lambda>(_, has_ptr, _). Inr (has_ptr, u)))"
      by (auto simp: ok_def)
  qed simp
  then show ?thesis by (auto simp: fields_have_ptr_def ok_def)
qed

lemma extract_phantom_unit_ok:
  assumes laws: "ty_laws tcx" "adts_closed tcx (set R)" "fields_fuel tcx R n"
    and d: "d \<in> set R" and s: "table_kept tcx R s0 s"
  shows "ok (table_kept tcx R s0) (extract_phantom_unit n tcx d s)"
proof (cases "adt_kind_of tcx d = Adt_Struct")
  case True
  from s have own: "owner_ok tcx (set R) (map_of (ta_adt_owner s))" by (simp add: table_kept_def)
  with d obtain us where us: "map_of (ta_adt_owner s) d = Some us" "units_ok tcx d us" by (auto simp: owner_ok_def)
  have len: "length us = 1" using us(2) ty_lawsD(7) [OF laws(1), of d "adt_ids tcx d"] True by (simp add: units_ok_def)
  then have "us ! 0 \<in> set us" by simp
  with us(2) len have unit: "units_ok tcx d [(Owned, snd (us ! 0))]" by (auto simp: units_ok_def)
  let ?fs = "adt_all_fields tcx d (adt_ids tcx d)"
  have arg: "ok (\<lambda>(b, s). table_kept tcx R s0 s) (phantom_arg n tcx d ?fs (us ! 0) a t)" if "table_kept tcx R s0 t" for a t
    using that table_kept_update [OF that d unit] fields_have_ptr_ok [OF laws own d]
    by (cases a) (auto simp: phantom_arg_def intro!: ok_rbindI)
  have field: "ok (\<lambda>(b, s). table_kept tcx R s0 s) (phantom_field n tcx d ?fs (us ! 0) u t)" if "table_kept tcx R s0 t" for u t
    using that by (cases u) (auto simp: phantom_field_def intro!: ok_rany arg)
  have "ok (\<lambda>(b, s). table_kept tcx R s0 s) (rany (phantom_field n tcx d ?fs (us ! 0)) ?fs s)"
    by (rule ok_rany) (use s field in auto)
  then show ?thesis
    using us(1) len True by (auto simp: extract_phantom_unit_def ty_lawsD(1) [OF laws(1), of d] ok_def)
qed (use s in \<open>simp add: extract_phantom_unit_def ty_lawsD(1) [OF laws(1), of d]\<close>)

text \<open>The four phases on the recorded ADTs.\<close>

lemma ta_phases_ok:
  assumes laws: "ty_laws tcx" "adts_closed tcx (set R)" "fields_fuel tcx R n"
  shows "ok (\<lambda>s'. ta_fn_set s' = ta_fn_set s \<and> ta_ty_map s' = ta_ty_map s \<and> ta_adt_recorder s' = ta_adt_recorder s \<and>
      owner_ok tcx (set R) (map_of (ta_adt_owner s')) \<and>
      dom (map_of (ta_adt_owner s')) = dom (map_of (ta_adt_owner s)) \<union> set R)
    (ta_phases n tcx R s)"
proof -
  have "ok (\<lambda>t. ta_fn_set t = ta_fn_set s \<and> ta_ty_map t = ta_ty_map s \<and> ta_adt_recorder t = ta_adt_recorder s \<and>
      owner_ok tcx (set R) (map_of (ta_adt_owner t)) \<and>
      dom (map_of (ta_adt_owner t)) = dom (map_of (ta_adt_owner s)) \<union> set R) (rfold (extract_raw_generic tcx) R s)"
    by (rule ok_rfold_prefix [where P = "\<lambda>ds t. ta_fn_set t = ta_fn_set s \<and> ta_ty_map t = ta_ty_map s \<and>
        ta_adt_recorder t = ta_adt_recorder s \<and> owner_ok tcx (set ds) (map_of (ta_adt_owner t)) \<and>
        dom (map_of (ta_adt_owner t)) = dom (map_of (ta_adt_owner s)) \<union> set ds"])
      (auto simp: extract_raw_generic_eq [OF laws(1)] owner_ok_def update_conv' units_ok_raw [OF laws(1)])
  then show ?thesis unfolding ta_phases_def
  proof (rule ok_rbindI, elim conjE)
    fix t :: type_analysis assume t: "ta_fn_set t = ta_fn_set s" "ta_ty_map t = ta_ty_map s" "ta_adt_recorder t = ta_adt_recorder s"
      "owner_ok tcx (set R) (map_of (ta_adt_owner t))" "dom (map_of (ta_adt_owner t)) = dom (map_of (ta_adt_owner s)) \<union> set R"
    have "ok (table_kept tcx R t) (rbind (rfold (extract_raw_generic_prop n tcx) R t)
        (\<lambda>s. rbind (rfold (extract_phantom_unit n tcx) R s) (rfold (extract_owner_prop n tcx) R)))"
      by (intro ok_rbindI [where Q = "table_kept tcx R t"] ok_rfold table_kept_refl t
          extract_raw_generic_prop_ok extract_phantom_unit_ok extract_owner_prop_ok laws)
    then show "ok (\<lambda>s'. ta_fn_set s' = ta_fn_set s \<and> ta_ty_map s' = ta_ty_map s \<and> ta_adt_recorder s' = ta_adt_recorder s \<and>
      owner_ok tcx (set R) (map_of (ta_adt_owner s')) \<and>
      dom (map_of (ta_adt_owner s')) = dom (map_of (ta_adt_owner s)) \<union> set R)
      (rbind (rfold (extract_raw_generic_prop n tcx) R t)
        (\<lambda>s. rbind (rfold (extract_phantom_unit n tcx) R s) (rfold (extract_owner_prop n tcx) R)))"
      by (rule ok_mono) (use t in \<open>simp add: table_kept_def\<close>)
  qed
qed

subsection \<open>Collecting types\<close>

text \<open>The types \<open>visit_ty\<close> goes on to, and the ADT types at the surface of a type.\<close>

fun ta_parts :: "tcx \<Rightarrow> ty \<Rightarrow> ty list" where
  "ta_parts tcx (Ty_Adt d args) = adt_all_fields tcx d args @ arg_types args"
| "ta_parts tcx (Ty_Array t) = [t]"
| "ta_parts tcx (Ty_Slice t) = [t]"
| "ta_parts tcx (Ty_RawPtr t _) = [t]"
| "ta_parts tcx (Ty_Ref t _) = [t]"
| "ta_parts tcx (Ty_Tuple ts) = ts"
| "ta_parts tcx _ = []"

fun surface :: "ty \<Rightarrow> ty set" where
  "surface (Ty_Adt d args) = {Ty_Adt d args}"
| "surface (Ty_Array t) = surface t"
| "surface (Ty_Slice t) = surface t"
| "surface (Ty_RawPtr t _) = surface t"
| "surface (Ty_Ref t _) = surface t"
| "surface (Ty_Tuple ts) = (\<Union>t \<in> set ts. surface t)"
| "surface _ = {}"

definition is_adt :: "ty \<Rightarrow> bool" where
  "is_adt t \<longleftrightarrow> (\<exists>d args. t = Ty_Adt d args)"

definition seen :: "type_analysis \<Rightarrow> ty set" where
  "seen s = fst ` set (ta_ty_map s)"

definition adt_dids :: "ty set \<Rightarrow> def_id set" where
  "adt_dids A = {d. \<exists>args. Ty_Adt d args \<in> A}"

lemma map_of_seen: "map_of (ta_ty_map s) t \<noteq> None \<longleftrightarrow> t \<in> seen s"
  by (auto simp: seen_def map_of_eq_None_iff)

lemma seen_record [simp]: "seen (ta_record_adt tcx t d s) = insert t (seen s)"
  by (simp add: seen_def ta_record_adt_def dom_update)

lemma ta_visit_ty_adt:
  "ta_visit_ty (Suc n) tcx (Ty_Adt d args) s =
     (if Ty_Adt d args \<in> seen s then Inr s
      else rfold (ta_visit_ty n tcx) (ta_parts tcx (Ty_Adt d args)) (ta_record_adt tcx (Ty_Adt d args) d s))"
  using map_of_seen [of s "Ty_Adt d args"] by (simp add: rfold_append)

lemma ta_visit_ty_other:
  "\<not> is_adt t \<Longrightarrow> ta_visit_ty (Suc n) tcx t s = rfold (ta_visit_ty n tcx) (ta_parts tcx t) s"
  by (cases t) (auto simp: is_adt_def)

lemma surface_other: "\<not> is_adt t \<Longrightarrow> surface t = (\<Union>p \<in> set (ta_parts tcx t). surface p)"
  by (cases t) (auto simp: is_adt_def)

lemma size_part: "\<not> is_adt t \<Longrightarrow> p \<in> set (ta_parts tcx t) \<Longrightarrow> size p < size t"
  by (cases t) (auto simp: is_adt_def less_Suc_eq_le size_list_estimation')

text \<open>What a visit does: the new ADT types are completely explored and recorded, and so are the local
  declarations of the functions it entered.\<close>

definition locals_seen :: "tcx \<Rightarrow> def_id \<Rightarrow> type_analysis \<Rightarrow> bool" where
  "locals_seen tcx f s \<longleftrightarrow> (\<forall>t \<in> set (local_decls (instance_mir tcx f)). surface t \<subseteq> seen s)"

definition ta_post :: "tcx \<Rightarrow> def_id set \<Rightarrow> ty set \<Rightarrow> type_analysis \<Rightarrow> type_analysis \<Rightarrow> bool" where
  "ta_post tcx F U s s' \<longleftrightarrow> seen s \<subseteq> seen s' \<and> seen s' \<subseteq> seen s \<union> U \<and>
     (\<forall>a \<in> seen s' - seen s. is_adt a \<and> (\<forall>p \<in> set (ta_parts tcx a). surface p \<subseteq> seen s')) \<and>
     set (ta_adt_recorder s') = set (ta_adt_recorder s) \<union> adt_dids (seen s' - seen s) \<and>
     ta_adt_owner s' = ta_adt_owner s \<and>
     set (ta_fn_set s) \<subseteq> set (ta_fn_set s') \<and> set (ta_fn_set s') \<subseteq> set (ta_fn_set s) \<union> F \<and>
     (\<forall>f \<in> set (ta_fn_set s') - set (ta_fn_set s). locals_seen tcx f s')"

lemma ta_post_refl [simp]: "ta_post tcx F U s s"
  by (simp add: ta_post_def adt_dids_def)

lemma ta_post_mono: "ta_post tcx F U s s' \<Longrightarrow> seen s \<subseteq> seen s'"
  by (simp add: ta_post_def)

lemma ta_post_new:
  "ta_post tcx F U s s' \<Longrightarrow> a \<in> seen s' \<Longrightarrow> a \<notin> seen s \<Longrightarrow>
     is_adt a \<and> (\<forall>p \<in> set (ta_parts tcx a). surface p \<subseteq> seen s')"
  unfolding ta_post_def by blast

lemma ta_post_entered:
  "ta_post tcx F U s s' \<Longrightarrow> f \<in> set (ta_fn_set s') \<Longrightarrow> f \<notin> set (ta_fn_set s) \<Longrightarrow> locals_seen tcx f s'"
  unfolding ta_post_def by blast

lemma ta_post_trans:
  assumes "ta_post tcx F U s s'" "ta_post tcx F U s' s''"
  shows "ta_post tcx F U s s''"
proof -
  have "is_adt a \<and> (\<forall>p \<in> set (ta_parts tcx a). surface p \<subseteq> seen s'')" if "a \<in> seen s'' - seen s" for a
  proof (cases "a \<in> seen s'")
    case True
    with that assms(1) have "is_adt a \<and> (\<forall>p \<in> set (ta_parts tcx a). surface p \<subseteq> seen s')" by (intro ta_post_new) auto
    with ta_post_mono [OF assms(2)] show ?thesis by blast
  next
    case False
    with that show ?thesis by (intro ta_post_new [OF assms(2)]) auto
  qed
  moreover have "adt_dids (seen s'' - seen s) = adt_dids (seen s' - seen s) \<union> adt_dids (seen s'' - seen s')"
    using assms by (auto simp: ta_post_def adt_dids_def)
  moreover have "locals_seen tcx f s''" if "f \<in> set (ta_fn_set s'') - set (ta_fn_set s)" for f
  proof (cases "f \<in> set (ta_fn_set s')")
    case True
    with that have "locals_seen tcx f s'" by (intro ta_post_entered [OF assms(1)]) auto
    with ta_post_mono [OF assms(2)] show ?thesis by (auto simp: locals_seen_def)
  next
    case False
    with that show ?thesis by (intro ta_post_entered [OF assms(2)]) auto
  qed
  ultimately show ?thesis using assms by (auto simp: ta_post_def)
qed

lemma ta_rfold_post:
  assumes "\<And>t s'. t \<in> set ts \<Longrightarrow> ta_post tcx F U s s' \<Longrightarrow>
      ok (\<lambda>s''. ta_post tcx F U s' s'' \<and> surface t \<subseteq> seen s'') (f t s')"
  shows "ok (\<lambda>s'. ta_post tcx F U s s' \<and> (\<forall>t \<in> set ts. surface t \<subseteq> seen s')) (rfold f ts s)"
proof (rule ok_rfold_prefix)
  fix ys t zs s' assume ts: "ts = ys @ t # zs" and s': "ta_post tcx F U s s' \<and> (\<forall>t \<in> set ys. surface t \<subseteq> seen s')"
  then have "ok (\<lambda>s''. ta_post tcx F U s' s'' \<and> surface t \<subseteq> seen s'') (f t s')" by (intro assms) auto
  then show "ok (\<lambda>s'. ta_post tcx F U s s' \<and> (\<forall>t \<in> set (ys @ [t]). surface t \<subseteq> seen s')) (f t s')"
  proof (rule ok_mono, elim conjE)
    fix s'' assume s'': "ta_post tcx F U s' s''" "surface t \<subseteq> seen s''"
    from s' s''(1) have "ta_post tcx F U s s''" by (blast intro: ta_post_trans)
    with s' s'' ta_post_mono [OF s''(1)] show "ta_post tcx F U s s'' \<and> (\<forall>t \<in> set (ys @ [t]). surface t \<subseteq> seen s'')"
      by auto
  qed
qed simp

definition ty_closed :: "tcx \<Rightarrow> ty set \<Rightarrow> bool" where
  "ty_closed tcx U \<longleftrightarrow> finite U \<and> (\<forall>t \<in> U. set (ta_parts tcx t) \<subseteq> U)"

lemma ta_post_record:
  assumes "t = Ty_Adt d args" "t \<notin> seen s" "t \<in> U" "ta_post tcx F U (ta_record_adt tcx t d s) s'"
    "\<forall>p \<in> set (ta_parts tcx t). surface p \<subseteq> seen s'"
  shows "ta_post tcx F U s s' \<and> surface t \<subseteq> seen s'"
proof -
  have "adt_dids (seen s' - seen s) = insert d (adt_dids (seen s' - insert t (seen s)))"
    using assms(1,2,4) by (auto simp: ta_post_def adt_dids_def)
  moreover have "ta_adt_recorder (ta_record_adt tcx t d s) = hs_insert d (ta_adt_recorder s)"
    "ta_fn_set (ta_record_adt tcx t d s) = ta_fn_set s" "ta_adt_owner (ta_record_adt tcx t d s) = ta_adt_owner s"
    by (simp_all add: ta_record_adt_def)
  moreover have "is_adt a \<and> (\<forall>p \<in> set (ta_parts tcx a). surface p \<subseteq> seen s')" if "a \<in> seen s' - seen s" for a
  proof (cases "a = t")
    case True
    with assms(1,5) show ?thesis by (auto simp: is_adt_def)
  next
    case False
    with that have "a \<in> seen s' - seen (ta_record_adt tcx t d s)" by simp
    with assms(4) show ?thesis unfolding ta_post_def by blast
  qed
  ultimately show ?thesis using assms by (auto simp: ta_post_def)
qed

lemma ta_visit_ty_ok:
  assumes U: "ty_closed tcx U" and M: "\<forall>t \<in> U. size t \<le> M"
  shows "t \<in> U \<Longrightarrow> card (U - seen s) * Suc M + size t < n \<Longrightarrow>
    ok (\<lambda>s'. ta_post tcx F U s s' \<and> surface t \<subseteq> seen s') (ta_visit_ty n tcx t s)"
proof (induction n arbitrary: t s)
  case (Suc n)
  have fin: "finite (U - seen s)" using U by (simp add: ty_closed_def)
  have part_in: "p \<in> U" if "p \<in> set (ta_parts tcx t)" for p using U Suc.prems(1) that by (auto simp: ty_closed_def)
  show ?case
  proof (cases "is_adt t")
    case False
    have "ok (\<lambda>s'. ta_post tcx F U s s' \<and> (\<forall>p \<in> set (ta_parts tcx t). surface p \<subseteq> seen s'))
        (rfold (ta_visit_ty n tcx) (ta_parts tcx t) s)"
    proof (rule ta_rfold_post)
      fix p s' assume p: "p \<in> set (ta_parts tcx t)" and s': "ta_post tcx F U s s'"
      have "card (U - seen s') \<le> card (U - seen s)" using ta_post_mono [OF s'] fin by (intro card_mono) auto
      then have "card (U - seen s') * Suc M + size p < n"
        using size_part [OF False p] Suc.prems(2) mult_le_mono1 [of "card (U - seen s')" "card (U - seen s)" "Suc M"] by linarith
      with part_in [OF p] show "ok (\<lambda>s''. ta_post tcx F U s' s'' \<and> surface p \<subseteq> seen s'') (ta_visit_ty n tcx p s')"
        by (rule Suc.IH)
    qed
    with False show ?thesis 
      by (simp add: ta_visit_ty_other surface_other [of t tcx] UN_subset_iff del: ta_visit_ty.simps)
  next
    case True
    then obtain d args where t: "t = Ty_Adt d args" by (auto simp: is_adt_def)
    show ?thesis
    proof (cases "t \<in> seen s")
      case new: False
      let ?s = "ta_record_adt tcx t d s"
      have "ok (\<lambda>s'. ta_post tcx F U ?s s' \<and> (\<forall>p \<in> set (ta_parts tcx t). surface p \<subseteq> seen s'))
          (rfold (ta_visit_ty n tcx) (ta_parts tcx t) ?s)"
      proof (rule ta_rfold_post)
        fix p s' assume p: "p \<in> set (ta_parts tcx t)" and s': "ta_post tcx F U ?s s'"
        have "card (U - seen s') < card (U - seen s)"
          using ta_post_mono [OF s'] fin new Suc.prems(1) by (intro psubset_card_mono) auto
        then have "card (U - seen s') * Suc M + Suc M \<le> card (U - seen s) * Suc M"
          using mult_le_mono1 [of "Suc (card (U - seen s'))" "card (U - seen s)" "Suc M"] by simp
        moreover have "size p \<le> M" using M part_in [OF p] by simp
        ultimately have "card (U - seen s') * Suc M + size p < n" using Suc.prems(2) by linarith
        with part_in [OF p] show "ok (\<lambda>s''. ta_post tcx F U s' s'' \<and> surface p \<subseteq> seen s'') (ta_visit_ty n tcx p s')"
          by (rule Suc.IH)
      qed
      with t new ta_post_record [OF t new Suc.prems(1)] show ?thesis
        unfolding t ta_visit_ty_adt by (auto elim!: ok_mono)
    qed (simp add: t ta_visit_ty_adt del: ta_visit_ty.simps)
  qed
qed simp

subsection \<open>Visiting the bodies of the crate\<close>

text \<open>The function a block calls, as far as \<open>visit_basic_block_data\<close> enters it.\<close>

definition block_callee :: "tcx \<Rightarrow> bb_data \<Rightarrow> def_id option" where
  "block_callee tcx data =
     (case bb_terminator data of
        Some term \<Rightarrow>
          (case t_kind term of
             Call (Constant c) _ _ _ _ \<Rightarrow>
               (case c_ty c of Ty_FnDef g _ \<Rightarrow> if mir_available tcx g then Some g else None | _ \<Rightarrow> None)
           | _ \<Rightarrow> None)
      | None \<Rightarrow> None)"

lemma ta_visit_block_eq:
  assumes "bb_terminator data \<noteq> None"
  shows "ta_visit_basic_block_data visit_body tcx data s =
     (case block_callee tcx data of
        Some g \<Rightarrow> if g \<notin> set (ta_fn_set s)
                   then visit_body (instance_mir tcx g) (s\<lparr>ta_fn_set := hs_insert g (ta_fn_set s)\<rparr>) else Inr s
      | None \<Rightarrow> Inr s)"
  using assms by (auto simp: ta_visit_basic_block_data_def block_callee_def
      split: term_kind.splits operand.splits ty.splits)

text \<open>A crate: functions \<open>F\<close> closed under calls, whose blocks have terminators and whose declared types lie in
  a finite set \<open>U\<close> of types closed under \<open>visit_ty\<close>.\<close>

definition crate_ok :: "tcx \<Rightarrow> def_id set \<Rightarrow> ty set \<Rightarrow> bool" where
  "crate_ok tcx F U \<longleftrightarrow> finite F \<and> set (mir_keys tcx) \<subseteq> F \<and> ty_closed tcx U \<and>
     (\<forall>f \<in> F. set (local_decls (instance_mir tcx f)) \<subseteq> U \<and>
        (\<forall>data \<in> set (basic_blocks (instance_mir tcx f)).
           bb_terminator data \<noteq> None \<and> set_option (block_callee tcx data) \<subseteq> F))"

lemma ta_post_enter:
  assumes "ta_post tcx F U (s\<lparr>ta_fn_set := hs_insert f (ta_fn_set s)\<rparr>) s'" "locals_seen tcx f s'" "f \<in> F"
  shows "ta_post tcx F U s s'"
proof -
  have "seen (s\<lparr>ta_fn_set := hs_insert f (ta_fn_set s)\<rparr>) = seen s" by (simp add: seen_def)
  moreover have "locals_seen tcx g s'" if "g \<in> set (ta_fn_set s') - set (ta_fn_set s)" for g
    using assms(1,2) that by (cases "g = f") (auto simp: ta_post_def)
  ultimately show ?thesis using assms by (auto simp: ta_post_def)
qed

lemma ta_visit_body_ok:
  assumes crate: "crate_ok tcx F U" and M: "\<forall>t \<in> U. size t \<le> M" and tn: "card U * Suc M + M < tn"
  shows "\<lbrakk>f \<in> F; card (F - set (ta_fn_set s)) < n\<rbrakk> \<Longrightarrow>
    ok (\<lambda>s'. ta_post tcx F U s s' \<and> locals_seen tcx f s') (ta_visit_body n tn tcx (instance_mir tcx f) s)"
proof (induction n arbitrary: f s)
  case (Suc n)
  let ?b = "instance_mir tcx f"
  have U: "ty_closed tcx U" "finite U" "finite F" using crate by (auto simp: crate_ok_def ty_closed_def)
  have "ok (\<lambda>s'. ta_post tcx F U s s' \<and> (\<forall>t \<in> set (local_decls ?b). surface t \<subseteq> seen s'))
      (rfold (ta_visit_local_decl tn tcx) (local_decls ?b) s)"
  proof (rule ta_rfold_post)
    fix t s' assume "t \<in> set (local_decls ?b)"
    then have t: "t \<in> U" using crate Suc.prems(1) by (auto simp: crate_ok_def)
    have "card (U - seen s') * Suc M \<le> card U * Suc M" using U(2) by (intro mult_le_mono1 card_mono) auto
    with t M tn have "card (U - seen s') * Suc M + size t < tn" by (meson add_mono le_less_trans)
    with t show "ok (\<lambda>s''. ta_post tcx F U s' s'' \<and> surface t \<subseteq> seen s'') (ta_visit_local_decl tn tcx t s')"
      unfolding ta_visit_local_decl_def by (rule ta_visit_ty_ok [OF U(1) M])
  qed
  then show ?case
  proof (simp, elim ok_rbindI)
    fix s1 assume s1: "ta_post tcx F U s s1 \<and> (\<forall>t \<in> set (local_decls ?b). surface t \<subseteq> seen s1)"
    have "ok (ta_post tcx F U s1) (rfold (ta_visit_basic_block_data (ta_visit_body n tn tcx) tcx) (basic_blocks ?b) s1)"
    proof (rule ok_rfold, rule ta_post_refl)
      fix data s' assume data: "data \<in> set (basic_blocks ?b)" and s': "ta_post tcx F U s1 s'"
      have bt: "bb_terminator data \<noteq> None" and callee: "set_option (block_callee tcx data) \<subseteq> F"
        using crate Suc.prems(1) data by (auto simp: crate_ok_def)
      have "ok (ta_post tcx F U s') (ta_visit_basic_block_data (ta_visit_body n tn tcx) tcx data s')"
      proof (cases "block_callee tcx data")
        case (Some g)
        show ?thesis
        proof (cases "g \<in> set (ta_fn_set s')")
          case False
          let ?s = "s'\<lparr>ta_fn_set := hs_insert g (ta_fn_set s')\<rparr>"
          have g: "g \<in> F" using callee Some by simp
          have "set (ta_fn_set s) \<subseteq> set (ta_fn_set s')" using s1 s' by (auto simp: ta_post_def)
          then have "card (F - set (ta_fn_set ?s)) < card (F - set (ta_fn_set s))"
            using g False U(3) by (intro psubset_card_mono) auto
          then have "ok (\<lambda>s''. ta_post tcx F U ?s s'' \<and> locals_seen tcx g s'') (ta_visit_body n tn tcx (instance_mir tcx g) ?s)"
            using Suc.prems(2) g by (intro Suc.IH) auto
          then have "ok (ta_post tcx F U s') (ta_visit_body n tn tcx (instance_mir tcx g) ?s)"
            by (rule ok_mono) (use ta_post_enter g in blast)
          with Some False show ?thesis by (simp add: ta_visit_block_eq [OF bt])
        qed (simp add: ta_visit_block_eq [OF bt] Some)
      qed (simp add: ta_visit_block_eq [OF bt])
      then show "ok (ta_post tcx F U s1) (ta_visit_basic_block_data (ta_visit_body n tn tcx) tcx data s')"
        by (rule ok_mono) (rule ta_post_trans [OF s'])
    qed
    then show "ok (\<lambda>s'. ta_post tcx F U s s' \<and> locals_seen tcx f s')
        (rfold (ta_visit_basic_block_data (ta_visit_body n tn tcx) tcx) (basic_blocks ?b) s1)"
    proof (rule ok_mono)
      fix s' assume s': "ta_post tcx F U s1 s'"
      from s1 this have "ta_post tcx F U s s'" by (blast intro: ta_post_trans)
      with s1 ta_post_mono [OF s'] show "ta_post tcx F U s s' \<and> locals_seen tcx f s'" by (fastforce simp: locals_seen_def)
    qed
  qed
qed simp

lemma ta_visit_keys_ok:
  assumes crate: "crate_ok tcx F U" and M: "\<forall>t \<in> U. size t \<le> M" and tn: "card U * Suc M + M < tn" and bn: "card F < bn"
    and ds: "set ds \<subseteq> F"
  shows "ok (\<lambda>s'. ta_post tcx F U s s' \<and> set ds \<subseteq> set (ta_fn_set s')) (rfold (ta_visit_key bn tn tcx) ds s)"
proof (rule ok_rfold_prefix)
  fix ys f zs s' assume f: "ds = ys @ f # zs" and s': "ta_post tcx F U s s' \<and> set ys \<subseteq> set (ta_fn_set s')"
  have "ok (\<lambda>s''. ta_post tcx F U s' s'' \<and> f \<in> set (ta_fn_set s'')) (ta_visit_key bn tn tcx f s')"
  proof (cases "f \<in> set (ta_fn_set s')")
    case False
    let ?s = "s'\<lparr>ta_fn_set := hs_insert f (ta_fn_set s')\<rparr>"
    have fF: "f \<in> F" using f ds by simp
    have "card (F - set (ta_fn_set ?s)) \<le> card F" using crate by (intro card_mono) (auto simp: crate_ok_def)
    then have "ok (\<lambda>s''. ta_post tcx F U ?s s'' \<and> locals_seen tcx f s'') (ta_visit_body bn tn tcx (instance_mir tcx f) ?s)"
      using fF bn by (intro ta_visit_body_ok [OF crate M tn]) auto
    then have "ok (\<lambda>s''. ta_post tcx F U s' s'' \<and> f \<in> set (ta_fn_set s'')) (ta_visit_body bn tn tcx (instance_mir tcx f) ?s)"
    proof (rule ok_mono, elim conjE)
      fix s'' assume s'': "ta_post tcx F U ?s s''" "locals_seen tcx f s''"
      from s''(1) have "f \<in> set (ta_fn_set s'')" by (simp add: ta_post_def)
      with ta_post_enter [OF s'' fF] show "ta_post tcx F U s' s'' \<and> f \<in> set (ta_fn_set s'')" by simp
    qed
    with False show ?thesis by (simp add: ta_visit_key_def)
  qed (simp add: ta_visit_key_def)
  then show "ok (\<lambda>s'. ta_post tcx F U s s' \<and> set (ys @ [f]) \<subseteq> set (ta_fn_set s')) (ta_visit_key bn tn tcx f s')"
  proof (rule ok_mono, elim conjE)
    fix s'' assume s'': "ta_post tcx F U s' s''" "f \<in> set (ta_fn_set s'')"
    from s' s''(1) have "ta_post tcx F U s s''" by (blast intro: ta_post_trans)
    moreover have "set (ta_fn_set s') \<subseteq> set (ta_fn_set s'')" using s''(1) by (simp add: ta_post_def)
    ultimately show "ta_post tcx F U s s'' \<and> set (ys @ [f]) \<subseteq> set (ta_fn_set s'')" using s' s'' by auto
  qed
qed simp

subsection \<open>The analysis of a crate\<close>

text \<open>If the ADT types of a set are explored within the set, every ADT mentioned at its surface or below is one of the set.\<close>

lemma heads_explored:
  assumes K: "\<And>a p. a \<in> K \<Longrightarrow> p \<in> set (ta_parts tcx a) \<Longrightarrow> surface p \<subseteq> K"
  shows "surface t \<subseteq> K \<Longrightarrow> heads t \<subseteq> adt_dids K"
proof (induction t rule: heads.induct)
  case (6 d args)
  have "heads u \<subseteq> adt_dids K" if "u \<in> set (arg_types args)" for u
    using K [of "Ty_Adt d args" u] 6 that by simp
  with 6 show ?case by (auto simp: adt_dids_def)
qed auto

lemma ta_new [simp]:
  "seen type_analysis_new = {}" "ta_adt_recorder type_analysis_new = []" "ta_fn_set type_analysis_new = []"
  "ta_adt_owner type_analysis_new = []"
  by (simp_all add: seen_def type_analysis_new_def)

lemma collected_closed:
  assumes laws: "ty_laws tcx" and s: "ta_post tcx F U type_analysis_new s"
  shows "set (ta_adt_recorder s) = adt_dids (seen s)" "adts_closed tcx (set (ta_adt_recorder s))"
proof -
  have "set (ta_adt_recorder s) = set (ta_adt_recorder type_analysis_new) \<union> adt_dids (seen s - seen type_analysis_new)"
    using s unfolding ta_post_def by blast
  then show rec: "set (ta_adt_recorder s) = adt_dids (seen s)" by simp
  have K: "surface p \<subseteq> seen s" if "a \<in> seen s" "p \<in> set (ta_parts tcx a)" for a p
    using ta_post_new [OF s that(1)] that(2) by simp
  have "decl_heads tcx d \<subseteq> adt_dids (seen s)" if d: "d \<in> adt_dids (seen s)" for d
  proof -
    from d obtain args where "Ty_Adt d args \<in> seen s" by (auto simp: adt_dids_def)
    then have "\<forall>t \<in> set (adt_all_fields tcx d args). heads t \<subseteq> adt_dids (seen s)"
      using K by (intro ballI heads_explored [of "seen s" tcx]) auto
    with ty_lawsD(6) [OF laws, of d args] show ?thesis by blast
  qed
  then show "adts_closed tcx (set (ta_adt_recorder s))" by (simp add: adts_closed_def rec)
qed

text \<open>The types reachable from the declarations of the functions of the crate.\<close>

definition declared_adts :: "tcx \<Rightarrow> def_id set" where
  "declared_adts tcx = (\<Union>f \<in> set (mir_keys tcx). \<Union>t \<in> set (local_decls (instance_mir tcx f)). heads t)"

lemma collected_declared:
  assumes laws: "ty_laws tcx" and s: "ta_post tcx F U type_analysis_new s" and keys: "set (mir_keys tcx) \<subseteq> set (ta_fn_set s)"
  shows "declared_adts tcx \<subseteq> set (ta_adt_recorder s)"
proof -
  have "heads t \<subseteq> adt_dids (seen s)" if t: "f \<in> set (mir_keys tcx)" "t \<in> set (local_decls (instance_mir tcx f))" for f t
  proof (rule heads_explored)
    show "surface p \<subseteq> seen s" if "a \<in> seen s" "p \<in> set (ta_parts tcx a)" for a p
      using ta_post_new [OF s that(1)] that(2) by simp
    show "surface t \<subseteq> seen s"
      using ta_post_entered [OF s, of f] keys t by (auto simp: locals_seen_def)
  qed
  then show ?thesis using collected_closed(1) [OF laws s] by (auto simp: declared_adts_def)
qed

lemma finite_adt_dids: "finite U \<Longrightarrow> finite (adt_dids U)"
  by (rule finite_subset [of _ "(\<lambda>t. case t of Ty_Adt d _ \<Rightarrow> d | _ \<Rightarrow> 0) ` U"]) (force simp: adt_dids_def)+

definition ta_result :: "tcx \<Rightarrow> type_analysis \<Rightarrow> bool" where
  "ta_result tcx s \<longleftrightarrow>
     declared_adts tcx \<subseteq> set (ta_adt_recorder s) \<and> adts_closed tcx (set (ta_adt_recorder s)) \<and>
     dom (map_of (ta_adt_owner s)) = set (ta_adt_recorder s) \<and>
     owner_ok tcx (set (ta_adt_recorder s)) (map_of (ta_adt_owner s))"

text \<open>C18: The type analysis of a crate with finitely many types comes back without a panic, whatever the enumeration
  order of its tables: with enough fuel \<open>start\<close> returns, every ADT that the local declarations of the crate mention
  is recorded, the recorded ADTs are closed under what their declarations mention, the ownership table
  has an entry for exactly the recorded ADTs, and the entry has one unit per variant, one flag per generic parameter
  and no uninitialised owner.\<close>

theorem type_analysis_total:
  assumes laws: "ty_laws tcx" and crate: "crate_ok tcx F U"
  shows "\<exists>N. \<forall>n \<ge> N. \<forall>bn \<ge> N. \<forall>tn \<ge> N.
    ok (ta_result tcx) (ta_start n bn tn tcx type_analysis_new)"
proof -
  have "finite (size ` U)" using crate by (simp add: crate_ok_def ty_closed_def)
  then obtain M where M: "\<forall>t \<in> U. size t \<le> M" using finite_nat_set_iff_bounded_le by auto
  define B where "B = Suc (max (card F) (card U * Suc M + M))"
  have keys: "ok (\<lambda>s. ta_post tcx F U type_analysis_new s \<and> set (mir_keys tcx) \<subseteq> set (ta_fn_set s))
      (rfold (ta_visit_key bn tn tcx) (mir_keys tcx) type_analysis_new)" if "bn \<ge> B" "tn \<ge> B" for bn tn
    using that crate by (intro ta_visit_keys_ok [OF crate M]) (auto simp: B_def crate_ok_def)
  have "finite (adt_dids U)" using crate by (intro finite_adt_dids) (simp add: crate_ok_def ty_closed_def)
  from fields_fuel_ex [OF this, of tcx] obtain N where N: "\<And>n R. N \<le> n \<Longrightarrow> set R \<subseteq> adt_dids U \<Longrightarrow> fields_fuel tcx R n"
    by blast
  have "ok (ta_result tcx) (ta_start n bn tn tcx type_analysis_new)" if fuel: "max N B \<le> n" "max N B \<le> bn" "max N B \<le> tn" for n bn tn
    unfolding ta_start_def ta_visitor_def
  proof (rule ok_rbindI [OF keys], goal_cases)
    case (3 s)
    let ?R = "set_order tcx (ta_adt_recorder s)"
    have R: "set ?R = set (ta_adt_recorder s)" by (rule enum_orderD [OF ty_lawsD(8) [OF laws]])
    have own: "ta_adt_owner s = []" and "adt_dids (seen s) \<subseteq> adt_dids U" using 3 by (auto simp: ta_post_def adt_dids_def)
    have decl: "declared_adts tcx \<subseteq> set (ta_adt_recorder s)" using collected_declared [OF laws] 3 by blast
    from \<open>adt_dids (seen s) \<subseteq> adt_dids U\<close> R collected_closed [OF laws] 3 N [of n ?R] fuel(1)
    have "adts_closed tcx (set ?R)" "fields_fuel tcx ?R n" by auto
    from ta_phases_ok [OF laws this, of s] show ?case
      by (rule ok_mono) (use R own decl in \<open>simp add: ta_result_def \<open>adts_closed tcx (set ?R)\<close> [unfolded R]\<close>)
  qed (use fuel in auto)
  then show ?thesis by blast
qed

text \<open>A crate with a container \<open>1\<close> of a raw pointer and a \<open>PhantomData\<close> (\<open>2\<close>) and an enum \<open>3\<close> one of whose variants
  holds such a container.\<close>

definition demo_heap_tcx :: tcx where
  "demo_heap_tcx = demo_tcx\<lparr>
     type_of := (\<lambda>d. Ty_Adt d (if d = 1 \<or> d = 2 then [Ga_Type (Ty_Param 0 ''T'')] else [])),
     is_phantom_data := (\<lambda>d. d = 2),
     adt_kind_of := (\<lambda>d. if d = 3 then Adt_Enum else Adt_Struct),
     adt_variants := (\<lambda>d args.
       if d = 1 then [map (\<lambda>t. Ty_RawPtr t Mut) (arg_types args) @ [Ty_Adt 2 args]]
       else if d = 3 then [[], [Ty_Adt 1 [Ga_Type Ty_Bool]]] else [[]]),
     instance_mir := (\<lambda>_. \<lparr>local_decls = [Ty_Adt 3 []], arg_count = 0, basic_blocks = [], body_span = 0\<rparr>)\<rparr>"

lemma demo_heap_laws: "ty_laws demo_heap_tcx"
proof -
  have ids: "adt_ids demo_heap_tcx d = (if d = 1 \<or> d = 2 then [Ga_Type (Ty_Param 0 ''T'')] else [])" for d
    by (simp add: adt_ids_def demo_heap_tcx_def)
  have fields: "adt_all_fields demo_heap_tcx d args =
      (if d = 1 then map (\<lambda>t. Ty_RawPtr t Mut) (arg_types args) @ [Ty_Adt 2 args]
       else if d = 3 then [Ty_Adt 1 [Ga_Type Ty_Bool]] else [])" for d args
    by (simp add: adt_all_fields_def demo_heap_tcx_def)
  have decl: "decl_heads demo_heap_tcx d = (if d = 1 then {2} else if d = 3 then {1} else {})" for d
    by (simp add: decl_heads_def fields ids)
  have "type_of_law demo_heap_tcx"
    unfolding type_of_law_def ids by (auto simp: demo_heap_tcx_def ty_positions_def)
  moreover have "field_ty_law demo_heap_tcx"
    unfolding field_ty_law_def decl fields by auto
  moreover have "variant_law demo_heap_tcx"
    by (auto simp: variant_law_def demo_heap_tcx_def)
  moreover have "enum_order (set_order demo_heap_tcx)" by (simp add: demo_heap_tcx_def)
  ultimately show ?thesis by (simp add: ty_laws_def)
qed

definition demo_types :: "ty set" where
  "demo_types = {Ty_Adt 3 [], Ty_Adt 1 [Ga_Type Ty_Bool], Ty_RawPtr Ty_Bool Mut, Ty_Bool, Ty_Adt 2 [Ga_Type Ty_Bool]}"

lemma demo_heap_crate: "crate_ok demo_heap_tcx {0} demo_types"
  by (auto simp: crate_ok_def ty_closed_def demo_types_def demo_heap_tcx_def demo_tcx_def adt_all_fields_def)

theorem type_analysis_total_witness:
  "ty_laws demo_heap_tcx \<and> crate_ok demo_heap_tcx {0} demo_types \<and>
   (\<exists>n bn tn s. ta_start n bn tn demo_heap_tcx type_analysis_new = Inr s \<and> ta_result demo_heap_tcx s)"
  using type_analysis_total [OF demo_heap_laws demo_heap_crate] demo_heap_laws demo_heap_crate
  by (auto simp: ok_def) blast

text \<open>The first phase finds exactly the generic parameters an ADT holds by value: after \<open>extract_raw_generic\<close> the entry of
  the ADT has one unit per variant, and the flag of a parameter is set in it if and only if some field of the variant is
  that parameter or contains it in nested arrays and tuples. Parameters behind pointers or inside other ADTs do not count.\<close>

theorem extract_raw_generic_exact:
  assumes laws: "ty_laws tcx"
  shows "\<exists>s' us. extract_raw_generic tcx d s = Inr s' \<and> map_of (ta_adt_owner s') d = Some us \<and>
    length us = length (adt_variants tcx d (adt_ids tcx d)) \<and>
    (\<forall>v < length us. fst (us ! v) = Unowned \<and> length (snd (us ! v)) = length (adt_ids tcx d) \<and>
       (\<forall>i < length (adt_ids tcx d).
          snd (us ! v) ! i \<longleftrightarrow> (\<exists>t \<in> set (adt_variants tcx d (adt_ids tcx d) ! v). i \<in> raw_params t)))"
  by (simp add: extract_raw_generic_eq [OF laws] update_conv' raw_flags_def)

theorem extract_raw_generic_exact_witness:
  "ty_laws demo_heap_tcx \<and> (\<exists>s' us. extract_raw_generic demo_heap_tcx 1 type_analysis_new = Inr s' \<and>
     map_of (ta_adt_owner s') 1 = Some us \<and> length us = 1 \<and> snd (us ! 0) = [False])"
proof -
  have v: "adt_variants demo_heap_tcx 1 (adt_ids demo_heap_tcx 1) = [[Ty_RawPtr (Ty_Param 0 ''T'') Mut, Ty_Adt 2 [Ga_Type (Ty_Param 0 ''T'')]]]"
    and ids: "length (adt_ids demo_heap_tcx 1) = 1"
    by (simp_all add: adt_ids_def demo_heap_tcx_def)
  from extract_raw_generic_exact [OF demo_heap_laws, of 1 type_analysis_new] obtain s' us where
    "extract_raw_generic demo_heap_tcx 1 type_analysis_new = Inr s'" "map_of (ta_adt_owner s') 1 = Some us" "length us = 1"
    "length (snd (us ! 0)) = 1" "\<not> snd (us ! 0) ! 0"
    unfolding v ids by (auto simp: less_Suc_eq)
  then show ?thesis using demo_heap_laws by (auto simp: length_Suc_conv)
qed

subsection \<open>Types that recur with larger arguments\<close>

text \<open>The collection of types records the types it has seen, not the ADTs, and so does not come back on an ADT that contains
  a pointer to itself at ever new arguments, as \<open>struct Nest<T> { next: *mut Nest<(T, T)> }\<close>: whatever the fuel, the
  visit of such a type does not return.\<close>

theorem ta_visit_ty_polymorphic_recursion_diverges:
  assumes field: "\<And>i. \<exists>fs. adt_all_fields tcx d (A i) = Ty_RawPtr (Ty_Adt d (A (Suc i))) m # fs"
    and new: "inj A" "\<forall>i. Ty_Adt d (A i) \<notin> seen s"
  shows "ta_visit_ty n tcx (Ty_Adt d (A 0)) s = Inl Diverges"
proof -
  have "\<forall>j \<ge> i. Ty_Adt d (A j) \<notin> seen s \<Longrightarrow> ta_visit_ty n tcx (Ty_Adt d (A i)) s = Inl Diverges" for i s
  proof (induction n arbitrary: i s rule: less_induct)
    case (less n)
    show ?case
    proof (cases n)
      case (Suc k)
      let ?s = "ta_record_adt tcx (Ty_Adt d (A i)) d s"
      obtain fs where fs: "adt_all_fields tcx d (A i) = Ty_RawPtr (Ty_Adt d (A (Suc i))) m # fs" using field by blast
      have "\<forall>j \<ge> Suc i. Ty_Adt d (A j) \<notin> seen ?s" using less.prems injD [OF new(1), of _ i] by fastforce
      then have "ta_visit_ty k tcx (Ty_RawPtr (Ty_Adt d (A (Suc i))) m) ?s = Inl Diverges"
        using less.IH [of "k - 1" "Suc i" ?s] Suc by (cases k) auto
      with less.prems fs show ?thesis unfolding Suc ta_visit_ty_adt by simp
    qed simp
  qed
  with new(2) show ?thesis by blast
qed

fun demo_nest :: "nat \<Rightarrow> ty" where
  "demo_nest 0 = Ty_Bool"
| "demo_nest (Suc i) = Ty_Tuple [demo_nest i, demo_nest i]"

lemma inj_demo_nest: "inj demo_nest"
proof -
  have "size (demo_nest i) < size (demo_nest (Suc i))" for i by simp
  then have "strict_mono (size \<circ> demo_nest)" unfolding strict_mono_Suc_iff by simp
  then have "inj (size \<circ> demo_nest)" by (rule strict_mono_imp_inj_on)
  then show ?thesis by (rule inj_on_imageI2)
qed

theorem ta_visit_ty_polymorphic_recursion_diverges_witness:
  "ta_visit_ty 1000 (demo_tcx\<lparr>adt_variants := (\<lambda>d args.
       [map (\<lambda>t. Ty_RawPtr (Ty_Adt d [Ga_Type (Ty_Tuple [t, t])]) Mut) (arg_types args)])\<rparr>)
     (Ty_Adt 1 [Ga_Type Ty_Bool]) type_analysis_new = Inl Diverges"
proof -
  have "inj (\<lambda>i. [Ga_Type (demo_nest i)])" using inj_demo_nest by (auto simp: inj_def)
  then show ?thesis
    using ta_visit_ty_polymorphic_recursion_diverges [of "demo_tcx\<lparr>adt_variants := (\<lambda>d args.
       [map (\<lambda>t. Ty_RawPtr (Ty_Adt d [Ga_Type (Ty_Tuple [t, t])]) Mut) (arg_types args)])\<rparr>" 1
       "\<lambda>i. [Ga_Type (demo_nest i)]" Mut type_analysis_new 1000]
    by (simp add: adt_all_fields_def)
qed

end
