(* ===== verification/Heap_Item_Props.thy ===== *)
theory Heap_Item_Props
  imports Type_Analysis_Props
begin

section \<open>Properties of layouts and queries\<close>

text \<open>
  What the clients of the type analysis get: with the table it leaves, the default ownership of a type and
  its layout are always defined, the layout has one entry per component, and the queries on enums agree with
  each other, up to the index one past the last variant, on which they panic.
\<close>

subsection \<open>The default ownership of a type\<close>

text \<open>A type whose argument lists have types where the declarations have type parameters.\<close>

fun ty_fits :: "tcx \<Rightarrow> ty \<Rightarrow> bool" where
  "ty_fits tcx (Ty_Array t) = ty_fits tcx t"
| "ty_fits tcx (Ty_Tuple ts) = list_all (ty_fits tcx) ts"
| "ty_fits tcx (Ty_Adt d args) =
     (ty_positions (adt_ids tcx d) \<subseteq> ty_positions args \<and> list_all (ty_fits tcx) (arg_types args))"
| "ty_fits tcx _ = True"

lemma ty_fits_super: "ty_fits tcx t \<Longrightarrow> u \<in> set (super_parts t) \<Longrightarrow> ty_fits tcx u"
  by (cases t) (auto simp: list_all_iff)

lemma default_own_visit_ok:
  assumes own: "owner_ok tcx R owner"
  shows "heads t \<subseteq> R \<Longrightarrow> ty_fits tcx t \<Longrightarrow> do_res s \<noteq> Uninit \<Longrightarrow>
    ok (\<lambda>(b, s'). do_res s' \<noteq> Uninit) (default_own_visit tcx owner t s)"
proof (induction t arbitrary: s rule: measure_induct_rule [of size])
  case (less t)
  have part: "ok (\<lambda>(b, s'). do_res s' \<noteq> Uninit) (default_own_visit tcx owner u s')"
    if "u \<in> set (super_parts t)" "do_res s' \<noteq> Uninit" for u s'
    using that less.prems size_super_parts [OF that(1)] heads_super [OF that(1)] ty_fits_super [OF _ that(1)]
    by (intro less.IH) auto
  show ?case
  proof (cases t)
    case (Ty_Adt d args)
    with less.prems own obtain us where us: "owner d = Some us" "units_ok tcx d us" by (auto simp: owner_ok_def)
    show ?thesis
    proof (cases "adt_kind_of tcx d = Adt_Enum \<or> d \<in> set (do_unique s) \<or> us = [] \<or> fst (us ! 0) = Owned")
      case True
      with us(1) Ty_Adt less.prems(3) show ?thesis by (auto simp: Let_def)
    next
      case False
      then have u0: "us ! 0 \<in> set us" by simp
      with us(2) have flags: "flags_ok (adt_ids tcx d) (snd (us ! 0))" and "fst (us ! 0) \<noteq> Uninit"
        by (auto simp: units_ok_def)
      with False have unowned: "fst (us ! 0) = Unowned" by (cases "fst (us ! 0)") auto
      have "ok (\<lambda>s'. do_res s' \<noteq> Uninit)
          (rfold (\<lambda>(index, each_generic) s.
              if \<not> each_generic then Inr s
              else rbind (at args index) (\<lambda>a. rbind (expect_ty a) (\<lambda>subset_ty.
                rbind (default_own_visit tcx owner subset_ty (s\<lparr>do_unique := hs_remove d (do_unique s)\<rparr>))
                  (\<lambda>(_, s). Inr s))))
            (enumerate 0 (snd (us ! 0))) (s\<lparr>do_unique := hs_insert d (do_unique s)\<rparr>))"
      proof (rule ok_rfold)
        fix x :: "nat \<times> bool" and s' :: default_ownership
        assume x: "x \<in> set (enumerate 0 (snd (us ! 0)))" and s': "do_res s' \<noteq> Uninit"
        obtain i b where xi: "x = (i, b)" by (cases x)
        have "i \<in> ty_positions args" if b
          using x xi that flags less.prems(2) Ty_Adt by (auto simp: in_set_enumerate_eq flags_ok_def)
        then have "b \<longrightarrow> (\<exists>u. i < length args \<and> args ! i = Ga_Type u)" by (auto simp: ty_positions_def)
        moreover have "u \<in> set (super_parts t)" if "i < length args" "args ! i = Ga_Type u" for u
          using that Ty_Adt nth_mem [of i args] by (simp add: arg_types_iff)
        ultimately show "ok (\<lambda>s'. do_res s' \<noteq> Uninit) ((\<lambda>(index, each_generic) s.
              if \<not> each_generic then Inr s
              else rbind (at args index) (\<lambda>a. rbind (expect_ty a) (\<lambda>subset_ty.
                rbind (default_own_visit tcx owner subset_ty (s\<lparr>do_unique := hs_remove d (do_unique s)\<rparr>))
                  (\<lambda>(_, s). Inr s)))) x s')"
          using s' xi part [of _ "s'\<lparr>do_unique := hs_remove d (do_unique s')\<rparr>"]
          by (auto simp: expect_ty_def intro!: ok_rbind_snd)
      qed (use less.prems(3) in simp)
      then show ?thesis using False us(1) Ty_Adt unowned by (auto simp: Let_def intro!: ok_rbindI)
    qed
  next
    case (Ty_Array u)
    have "ok (\<lambda>(b, s'). do_res s' \<noteq> Uninit) (rany (default_own_visit tcx owner) (super_parts t) s)"
      by (rule ok_rany) (use part less.prems in auto)
    with Ty_Array show ?thesis by simp
  next
    case (Ty_Tuple ts)
    have "ok (\<lambda>(b, s'). do_res s' \<noteq> Uninit) (rany (default_own_visit tcx owner) (super_parts t) s)"
      by (rule ok_rany) (use part less.prems in auto)
    with Ty_Tuple show ?thesis by simp
  qed (use less.prems in auto)
qed

subsection \<open>Layouts\<close>

text \<open>The components of a value the layout speaks of, and what the visitor finds for one of them.\<close>

definition layout_parts :: "tcx \<Rightarrow> ty \<Rightarrow> nat option \<Rightarrow> ty list" where
  "layout_parts tcx ty variant =
     (case ty of
        Ty_Tuple ts \<Rightarrow> ts
      | Ty_Adt d args \<Rightarrow>
          if adt_kind_of tcx d \<noteq> Adt_Enum then adt_all_fields tcx d args
          else (case variant of None \<Rightarrow> [] | Some i \<Rightarrow> adt_variants tcx d args ! i)
      | Ty_Array _ \<Rightarrow> [ty] | Ty_Param _ _ \<Rightarrow> [ty] | Ty_RawPtr _ _ \<Rightarrow> [ty] | Ty_Ref _ _ \<Rightarrow> [ty]
      | _ \<Rightarrow> [])"

definition variant_valid :: "tcx \<Rightarrow> ty \<Rightarrow> nat option \<Rightarrow> bool" where
  "variant_valid tcx ty variant \<longleftrightarrow>
     (\<forall>d args i. ty = Ty_Adt d args \<and> adt_kind_of tcx d = Adt_Enum \<and> variant = Some i \<longrightarrow> i < length (adt_variants tcx d args))"

definition part_own :: "tcx \<Rightarrow> adt_owner \<Rightarrow> ty \<Rightarrow> default_ownership" where
  "part_own tcx owner t =
     (case default_own_visit tcx owner t default_ownership_new of Inr (_, v) \<Rightarrow> v | Inl _ \<Rightarrow> default_ownership_new)"

text \<open>The special cases of \<open>encode\<close> for parameters and pointers are what the visitor computes for them.\<close>

lemma encode_eq_parts:
  assumes "variant_valid tcx ty variant"
  shows "encode tcx owner ty variant = rfold (encode_part tcx owner) (layout_parts tcx ty variant) layout_result_new"
proof (cases ty)
  case (Ty_Adt d args)
  with assms show ?thesis
    by (cases "adt_kind_of tcx d") (auto simp: encode_def layout_parts_def variant_valid_def split: option.splits)
qed (auto simp: encode_def layout_parts_def encode_part_def default_ownership_new_def layout_result_new_def
    update_from_default_ownership_visitor_def Let_def)

definition layout_of :: "default_ownership list \<Rightarrow> layout_result" where
  "layout_of vs =
     \<lparr>lay_layout = map do_res vs, lay_param = (vs \<noteq> [] \<and> do_param (last vs)),
      lay_requirement = (\<exists>v \<in> set vs. do_res v = Owned \<or> do_ptr v), lay_owned = (Owned \<in> set (map do_res vs))\<rparr>"

lemma update_layout_of: "update_from_default_ownership_visitor v (layout_of vs) = layout_of (vs @ [v])"
  by (auto simp: update_from_default_ownership_visitor_def layout_of_def Let_def)

lemma rfold_encode_part:
  assumes "\<forall>t \<in> set ts. \<exists>b v. default_own_visit tcx owner t default_ownership_new = Inr (b, v)"
  shows "rfold (encode_part tcx owner) ts (layout_of vs) = Inr (layout_of (vs @ map (part_own tcx owner) ts))"
  using assms
proof (induction ts arbitrary: vs)
  case (Cons t ts)
  then obtain b v where "default_own_visit tcx owner t default_ownership_new = Inr (b, v)" by auto
  with Cons show ?case by (simp add: encode_part_def part_own_def update_layout_of)
qed simp

text \<open>C19: On the table the type analysis leaves, the layout of every type built from recorded ADTs is defined. It has one
  entry per component, none of them uninitialised, the entry being the default ownership of that component; the type
  counts as owned if and only if some entry is owned; a solver is required if and only if some component is owned or holds a
  pointer. The parameter flag, however, is that of the last component alone, since every component overwrites it.\<close>

theorem encode_layout:
  assumes res: "ta_result tcx s" and variant: "variant_valid tcx ty variant"
    and parts: "\<forall>t \<in> set (layout_parts tcx ty variant). heads t \<subseteq> set (ta_adt_recorder s) \<and> ty_fits tcx t"
  shows "\<exists>r. encode tcx (map_of (ta_adt_owner s)) ty variant = Inr r \<and>
      lay_layout r = map (\<lambda>t. do_res (part_own tcx (map_of (ta_adt_owner s)) t)) (layout_parts tcx ty variant) \<and>
      Uninit \<notin> set (lay_layout r) \<and> (lay_owned r \<longleftrightarrow> Owned \<in> set (lay_layout r)) \<and>
      (lay_requirement r \<longleftrightarrow> (\<exists>t \<in> set (layout_parts tcx ty variant).
         do_res (part_own tcx (map_of (ta_adt_owner s)) t) = Owned \<or> do_ptr (part_own tcx (map_of (ta_adt_owner s)) t))) \<and>
      (lay_param r \<longleftrightarrow> layout_parts tcx ty variant \<noteq> [] \<and>
         do_param (part_own tcx (map_of (ta_adt_owner s)) (last (layout_parts tcx ty variant))))"
proof -
  let ?o = "map_of (ta_adt_owner s)" and ?ps = "layout_parts tcx ty variant"
  have own: "owner_ok tcx (set (ta_adt_recorder s)) ?o" using res by (simp add: ta_result_def)
  have visit: "ok (\<lambda>(b, v). do_res v \<noteq> Uninit) (default_own_visit tcx ?o t default_ownership_new)" if "t \<in> set ?ps" for t
    using that parts by (intro default_own_visit_ok [OF own]) (auto simp: default_ownership_new_def)
  then have "\<forall>t \<in> set ?ps. \<exists>b v. default_own_visit tcx ?o t default_ownership_new = Inr (b, v)"
    by (fastforce simp: ok_def)
  from rfold_encode_part [OF this, of "[]"]
  have "encode tcx ?o ty variant = Inr (layout_of (map (part_own tcx ?o) ?ps))"
    by (simp add: encode_eq_parts [OF variant] layout_of_def layout_result_new_def)
  moreover have "do_res (part_own tcx ?o t) \<noteq> Uninit" if "t \<in> set ?ps" for t
    using visit [OF that] by (auto simp: part_own_def ok_def)
  ultimately show ?thesis by (force simp: layout_of_def last_map)
qed

definition demo_heap_state :: type_analysis where
  "demo_heap_state =
     \<lparr>ta_fn_set = [0],
      ta_ty_map = [(Ty_Adt 3 [], ''ty''), (Ty_Adt 1 [Ga_Type Ty_Bool], ''ty''), (Ty_Adt 2 [Ga_Type Ty_Bool], ''ty'')],
      ta_adt_recorder = [3, 1, 2],
      ta_adt_owner = [(3, [(Unowned, []), (Owned, [])]), (1, [(Owned, [False])]), (2, [(Unowned, [False])])]\<rparr>"

lemma demo_heap_result: "ta_result demo_heap_tcx demo_heap_state"
  unfolding ta_result_def owner_ok_def units_ok_def flags_ok_def adts_closed_def decl_heads_def declared_adts_def
  by (auto simp: demo_heap_state_def demo_heap_tcx_def demo_tcx_def adt_all_fields_def adt_ids_def ty_positions_def)

theorem encode_layout_witness:
  "\<exists>r. encode demo_heap_tcx (map_of (ta_adt_owner demo_heap_state)) (Ty_Adt 3 []) (Some 1) = Inr r \<and>
     lay_layout r = [Owned] \<and> lay_owned r \<and> lay_requirement r \<and> \<not> lay_param r"
proof -
  have v: "variant_valid demo_heap_tcx (Ty_Adt 3 []) (Some 1)"
    by (simp add: variant_valid_def demo_heap_tcx_def)
  have p: "layout_parts demo_heap_tcx (Ty_Adt 3 []) (Some 1) = [Ty_Adt 1 [Ga_Type Ty_Bool]]"
    by (simp add: layout_parts_def demo_heap_tcx_def)
  have "ty_fits demo_heap_tcx (Ty_Adt 1 [Ga_Type Ty_Bool])"
    by (auto simp: adt_ids_def demo_heap_tcx_def ty_positions_def)
  then have "\<forall>t \<in> set (layout_parts demo_heap_tcx (Ty_Adt 3 []) (Some 1)).
      heads t \<subseteq> set (ta_adt_recorder demo_heap_state) \<and> ty_fits demo_heap_tcx t"
    unfolding p by (simp add: demo_heap_state_def)
  from encode_layout [OF demo_heap_result v this] show ?thesis
    unfolding p by (force simp: part_own_def demo_heap_tcx_def demo_heap_state_def default_ownership_new_def Let_def)
qed

text \<open>An enum in front hides what follows it in a nested tuple: the visitor breaks off at the enum, so the array of such
  tuples counts as unowned and needs no solver, whatever the other components of the tuple own. At the top level the
  components of a tuple are visited one by one and this does not happen.\<close>

theorem encode_enum_hides_rest:
  assumes "adt_kind_of tcx d = Adt_Enum"
  shows "encode tcx owner (Ty_Array (Ty_Tuple (Ty_Adt d args # ts))) variant =
    Inr \<lparr>lay_layout = [Unowned], lay_param = False, lay_requirement = False, lay_owned = False\<rparr>"
  using assms
  by (simp add: encode_def encode_part_def default_ownership_new_def layout_result_new_def
      update_from_default_ownership_visitor_def)

theorem encode_enum_hides_rest_witness:
  "encode demo_heap_tcx Map.empty (Ty_Array (Ty_Tuple [Ty_Adt 3 [], Ty_Param 0 ''T''])) None =
    Inr \<lparr>lay_layout = [Unowned], lay_param = False, lay_requirement = False, lay_owned = False\<rparr> \<and>
   encode demo_heap_tcx Map.empty (Ty_Array (Ty_Tuple [Ty_Param 0 ''T'', Ty_Adt 3 []])) None =
    Inr \<lparr>lay_layout = [Owned], lay_param = True, lay_requirement = True, lay_owned = True\<rparr>"
  using encode_enum_hides_rest [of demo_heap_tcx 3 Map.empty "[]" "[Ty_Param 0 ''T'']" None]
  by (simp add: demo_heap_tcx_def encode_def encode_part_def default_ownership_new_def layout_result_new_def
      update_from_default_ownership_visitor_def)

subsection \<open>Queries\<close>

lemma recorded_units:
  assumes "ta_result tcx s" "d \<in> set (ta_adt_recorder s)"
  obtains us where "map_of (ta_adt_owner s) d = Some us" "units_ok tcx d us"
  using assms by (auto simp: ta_result_def owner_ok_def)

text \<open>On a recorded enum the queries of both interfaces agree: the flattened query has one entry per variant, the query by
  index returns that entry, the query on the enum says whether some entry holds and is the same as the one on the ADT, and
  the struct query is refused. In the flattened parameter query every entry has one flag per generic parameter, and
  the other queries ask whether some flag is set.\<close>

theorem enum_queries_agree:
  assumes res: "ta_result tcx s" and d: "d \<in> set (ta_adt_recorder s)" and enum: "adt_kind_of tcx d = Adt_Enum"
  shows "\<exists>own flags. length own = length (adt_variants tcx d (adt_ids tcx d)) \<and> length flags = length own \<and>
      (\<forall>f \<in> set flags. length f = length (adt_ids tcx d)) \<and>
      heap_is_enum_flattened tcx (map_of (ta_adt_owner s)) (Ty_Adt d args) = Inr (Inr own) \<and>
      iso_is_enum_flattened tcx (map_of (ta_adt_owner s)) (Ty_Adt d args) = Inr (Inr flags) \<and>
      (\<forall>i < length own. heap_is_enum_vidx tcx (map_of (ta_adt_owner s)) (Ty_Adt d args) i = Inr (Inr (own ! i)) \<and>
         iso_is_enum_vidx tcx (map_of (ta_adt_owner s)) (Ty_Adt d args) i = Inr (Inr (True \<in> set (flags ! i)))) \<and>
      heap_is_enum tcx (map_of (ta_adt_owner s)) (Ty_Adt d args) = Inr (Inr (True \<in> set own)) \<and>
      heap_is_adt (map_of (ta_adt_owner s)) (Ty_Adt d args) = Inr (Inr (True \<in> set own)) \<and>
      iso_is_enum tcx (map_of (ta_adt_owner s)) (Ty_Adt d args) = Inr (Inr (\<exists>f \<in> set flags. True \<in> set f)) \<and>
      iso_is_adt (map_of (ta_adt_owner s)) (Ty_Adt d args) = Inr (Inr (\<exists>f \<in> set flags. True \<in> set f)) \<and>
      heap_is_struct tcx (map_of (ta_adt_owner s)) (Ty_Adt d args) = Inr (Inl ''The input is not a struct'') \<and>
      iso_is_struct tcx (map_of (ta_adt_owner s)) (Ty_Adt d args) = Inr (Inl ''The input is not a struct'')"
proof -
  from recorded_units [OF res d] obtain us where us: "map_of (ta_adt_owner s) d = Some us" "units_ok tcx d us" .
  have has: "unit_has_param u \<longleftrightarrow> True \<in> set (snd u)" for u :: owner_unit
    by (auto simp: unit_has_param_def list_ex_iff)
  show ?thesis
    using us enum
    by (intro exI [of _ "map unit_owned us"] exI [of _ "map snd us"])
      (auto simp: units_ok_def flags_ok_def heap_is_enum_flattened_def iso_is_enum_flattened_def heap_is_enum_vidx_def
        iso_is_enum_vidx_def heap_is_enum_def heap_is_adt_def iso_is_enum_def iso_is_adt_def heap_is_struct_def
        iso_is_struct_def has list_ex_iff)
qed

theorem enum_queries_agree_witness:
  "\<exists>own. length own = 2 \<and>
     heap_is_enum_flattened demo_heap_tcx (map_of (ta_adt_owner demo_heap_state)) (Ty_Adt 3 []) = Inr (Inr own) \<and>
     heap_is_enum_vidx demo_heap_tcx (map_of (ta_adt_owner demo_heap_state)) (Ty_Adt 3 []) 1 = Inr (Inr (own ! 1)) \<and> own ! 1"
proof -
  have e: "3 \<in> set (ta_adt_recorder demo_heap_state)" "adt_kind_of demo_heap_tcx 3 = Adt_Enum"
    "length (adt_variants demo_heap_tcx 3 (adt_ids demo_heap_tcx 3)) = 2"
    by (simp_all add: demo_heap_state_def demo_heap_tcx_def)
  have "heap_is_enum_flattened demo_heap_tcx (map_of (ta_adt_owner demo_heap_state)) (Ty_Adt 3 []) = Inr (Inr [False, True])"
    using e by (simp add: heap_is_enum_flattened_def demo_heap_state_def unit_owned_def)
  with enum_queries_agree [OF demo_heap_result e(1,2), of "[]"] e(3) show ?thesis by auto
qed

text \<open>The query by index is meant to answer an invalid index with an error. It does so for every index beyond the number of
  variants, but on that number itself, the first invalid index, it passes the check and panics, in both interfaces.\<close>

theorem enum_vidx_first_invalid_panics:
  assumes res: "ta_result tcx s" and d: "d \<in> set (ta_adt_recorder s)" and enum: "adt_kind_of tcx d = Adt_Enum"
    and i: "length (adt_variants tcx d (adt_ids tcx d)) \<le> i"
  shows "heap_is_enum_vidx tcx (map_of (ta_adt_owner s)) (Ty_Adt d args) i =
      (if i = length (adt_variants tcx d (adt_ids tcx d)) then Inl Out_of_bounds
       else Inr (Inl ''The index is not a valid variance'')) \<and>
    iso_is_enum_vidx tcx (map_of (ta_adt_owner s)) (Ty_Adt d args) i =
      (if i = length (adt_variants tcx d (adt_ids tcx d)) then Inl Out_of_bounds
       else Inr (Inl ''The index is not a valid variance''))"
proof -
  from recorded_units [OF res d] obtain us where us: "map_of (ta_adt_owner s) d = Some us" "units_ok tcx d us" .
  with i enum show ?thesis by (auto simp: units_ok_def heap_is_enum_vidx_def iso_is_enum_vidx_def)
qed

theorem enum_vidx_first_invalid_panics_witness:
  "heap_is_enum_vidx demo_heap_tcx (map_of (ta_adt_owner demo_heap_state)) (Ty_Adt 3 []) 2 = Inl Out_of_bounds"
proof -
  have "3 \<in> set (ta_adt_recorder demo_heap_state)" "adt_kind_of demo_heap_tcx 3 = Adt_Enum"
    "length (adt_variants demo_heap_tcx 3 (adt_ids demo_heap_tcx 3)) = 2"
    by (simp_all add: demo_heap_state_def demo_heap_tcx_def)
  with enum_vidx_first_invalid_panics [OF demo_heap_result, of 3 2 "[]"] show ?thesis by simp
qed

end
