(* ===== verification/Rc_Order.thy ===== *)
theory Rc_Order
  imports Mir
begin

section \<open>rCanary: the order of the blocks\<close>

text \<open>
  \<^verbatim>\<open>rcanary/ranalyzer/order.rs\<close> and the graph of \<^verbatim>\<open>rcanary/ranalyzer.rs\<close>. For every body the successors of each block
  are collected (without the unwind edges), and the blocks are ordered by removing edges: the counter \<open>lev\<close> of
  a block counts the edges into it that are left, and a block is queued when it drops to zero. The queue is
  Rust's \<open>BinaryHeap\<close>, a max-heap: \<open>pop\<close> returns the largest block number. Arithmetic on \<open>usize\<close> panics below zero.
\<close>

subsection \<open>The graph\<close>

record rc_graph =
  rc_e :: "nat list list"
  rc_pre :: "nat list list"
  rc_topo :: "nat list"

definition rc_graph_new :: "nat \<Rightarrow> rc_graph" where
  "rc_graph_new len = \<lparr>rc_e = replicate len [], rc_pre = replicate len [], rc_topo = []\<rparr>"

definition rc_successors :: "term_kind \<Rightarrow> nat list res" where
  "rc_successors k =
     (case k of
        Goto target \<Rightarrow> Inr [target]
      | SwitchInt _ targets \<Rightarrow> Inr (all_targets targets)
      | Drop _ target _ \<Rightarrow> Inr [target]
      | Assert target _ \<Rightarrow> Inr [target]
      | Call _ _ _ target _ \<Rightarrow> Inr (case target of Some t \<Rightarrow> [t] | None \<Rightarrow> [])
      | TailCall \<Rightarrow> Inl Todo
      | _ \<Rightarrow> Inr [])"

definition rc_count_edge :: "nat \<Rightarrow> nat \<Rightarrow> rc_graph \<times> nat list \<Rightarrow> (rc_graph \<times> nat list) res" where
  "rc_count_edge block index = (\<lambda>(g, lev).
     rbind (at lev index) (\<lambda>l. rbind (set_at lev index (l + 1)) (\<lambda>lev.
     rbind (at (rc_pre g) index) (\<lambda>ps. rbind (set_at (rc_pre g) index (ps @ [block])) (\<lambda>pre.
       Inr (g\<lparr>rc_pre := pre\<rparr>, lev))))))"

definition collect_edges :: "bb_data list \<Rightarrow> rc_graph \<Rightarrow> nat list \<Rightarrow> (rc_graph \<times> nat list) res" where
  "collect_edges bbs g lev =
     rfold (\<lambda>(block, data) (g, lev).
         rbind (unwrap (bb_terminator data)) (\<lambda>t.
         rbind (rc_successors (t_kind t)) (\<lambda>result.
         rbind (rfold (rc_count_edge block) result (g, lev)) (\<lambda>(g, lev).
         rbind (set_at (rc_e g) block result) (\<lambda>e.
           Inr (g\<lparr>rc_e := e\<rparr>, lev))))))
       (enumerate 0 bbs) (g, lev)"

subsection \<open>The order\<close>

definition heap_max :: "nat list \<Rightarrow> nat" where
  "heap_max q = fold max q 0"

definition rc_relax :: "nat \<Rightarrow> nat list \<times> nat list \<Rightarrow> (nat list \<times> nat list) res" where
  "rc_relax dest = (\<lambda>(lev, q).
     rbind (at lev dest) (\<lambda>l.
       if l = 0 then Inl Overflow
       else rbind (set_at lev dest (l - 1)) (\<lambda>lev. Inr (lev, if l - 1 = 0 then q @ [dest] else q))))"

fun topo_loop :: "nat \<Rightarrow> nat list \<Rightarrow> rc_graph \<Rightarrow> nat list \<Rightarrow> (rc_graph \<times> nat list) res" where
  "topo_loop 0 q g lev = Inl Diverges"
| "topo_loop (Suc n) q g lev =
     (if q = [] then Inr (g, lev)
      else
        let top = heap_max q; g = g\<lparr>rc_topo := rc_topo g @ [top]\<rparr> in
        rbind (at (rc_e g) top) (\<lambda>targets.
          rbind (rfold rc_relax targets (lev, remove1 top q)) (\<lambda>(lev, q). topo_loop n q g lev)))"

definition topo_order :: "nat \<Rightarrow> rc_graph \<Rightarrow> nat list \<Rightarrow> (rc_graph \<times> nat list) res" where
  "topo_order n g lev = topo_loop n [0] g lev"

definition rc_node_order :: "nat \<Rightarrow> body \<Rightarrow> rc_graph res" where
  "rc_node_order n b =
     rbind (collect_edges (basic_blocks b) (rc_graph_new (length (basic_blocks b))) (replicate (length (basic_blocks b)) 0))
       (\<lambda>(g, lev). rbind (topo_order n g lev) (\<lambda>(g, _). Inr g))"

text \<open>\<open>order\<close>: the graph of every function of the crate; the fuel of a body is one more than its blocks.\<close>

type_synonym mir_graph = "def_id \<rightharpoonup> rc_graph"

definition rc_order :: "tcx \<Rightarrow> mir_graph \<Rightarrow> mir_graph res" where
  "rc_order tcx mg =
     rfold (\<lambda>d mg.
         let b = instance_mir tcx d in
         rbind (rc_node_order (length (basic_blocks b) + 2) b) (\<lambda>g. Inr (mg(d \<mapsto> g))))
       (mir_keys tcx) mg"

subsection \<open>Collecting the edges\<close>

text \<open>A body whose blocks have terminators with targets in the body, and whose first block is not a target.\<close>

definition block_succs :: "bb_data list \<Rightarrow> nat \<Rightarrow> nat list" where
  "block_succs bbs i =
     (case bb_terminator (bbs ! i) of
        Some t \<Rightarrow> (case rc_successors (t_kind t) of Inr ts \<Rightarrow> ts | Inl _ \<Rightarrow> [])
      | None \<Rightarrow> [])"

definition rc_body_ok :: "bb_data list \<Rightarrow> bool" where
  "rc_body_ok bbs \<longleftrightarrow> bbs \<noteq> [] \<and>
     (\<forall>data \<in> set bbs. \<exists>t. bb_terminator data = Some t \<and> t_kind t \<noteq> TailCall) \<and>
     (\<forall>i < length bbs. \<forall>j \<in> set (block_succs bbs i). 0 < j \<and> j < length bbs)"

text \<open>The edges from the blocks \<open>is\<close> into \<open>j\<close>, with multiplicity.\<close>

definition in_edges :: "bb_data list \<Rightarrow> nat list \<Rightarrow> nat \<Rightarrow> nat" where
  "in_edges bbs is j = (\<Sum>i \<leftarrow> is. count_list (block_succs bbs i) j)"

lemma in_edges_simps [simp]:
  "in_edges bbs [] j = 0" "in_edges bbs (i # is) j = count_list (block_succs bbs i) j + in_edges bbs is j"
  "in_edges bbs (is @ js) j = in_edges bbs is j + in_edges bbs js j"
  by (simp_all add: in_edges_def)

lemma rc_successors_total: "k \<noteq> TailCall \<Longrightarrow> \<exists>ts. rc_successors k = Inr ts"
  by (cases k) (auto simp: rc_successors_def)

lemma rfold_count_edge:
  assumes "set ts \<subseteq> {..<length lev}" "length (rc_pre g) = length lev"
  shows "\<exists>pre. rfold (rc_count_edge b) ts (g, lev) =
      Inr (g\<lparr>rc_pre := pre\<rparr>, map (\<lambda>j. lev ! j + count_list ts j) [0..<length lev]) \<and>
    length pre = length (rc_pre g) \<and>
    (\<forall>j < length pre. pre ! j = rc_pre g ! j @ replicate (count_list ts j) b)"
  using assms
proof (induction ts arbitrary: g lev)
  case Nil
  have "map ((!) lev) [0..<length lev] = lev" by (rule map_nth)
  with Nil show ?case by (intro exI [of _ "rc_pre g"]) simp
next
  case (Cons t ts)
  let ?lev = "lev[t := Suc (lev ! t)]" and ?g = "g\<lparr>rc_pre := (rc_pre g)[t := rc_pre g ! t @ [b]]\<rparr>"
  from Cons.prems have t: "t < length lev" and step: "rc_count_edge b t (g, lev) = Inr (?g, ?lev)"
    by (auto simp: rc_count_edge_def)
  from Cons.IH [of ?lev ?g] Cons.prems obtain pre where pre:
    "rfold (rc_count_edge b) ts (?g, ?lev) =
       Inr (?g\<lparr>rc_pre := pre\<rparr>, map (\<lambda>j. ?lev ! j + count_list ts j) [0..<length ?lev])"
    "length pre = length (rc_pre g)"
    "\<forall>j < length pre. pre ! j = rc_pre ?g ! j @ replicate (count_list ts j) b" by auto
  have "map (\<lambda>j. ?lev ! j + count_list ts j) [0..<length ?lev] = map (\<lambda>j. lev ! j + count_list (t # ts) j) [0..<length lev]"
    by (auto simp: nth_list_update)
  moreover have "\<forall>j < length pre. pre ! j = rc_pre g ! j @ replicate (count_list (t # ts) j) b"
    using pre(2,3) Cons.prems(2) t by (auto simp: nth_list_update replicate_append_same [symmetric])
  ultimately show ?case using pre(1,2) step by (intro exI [of _ pre]) simp
qed

definition edges_collected :: "bb_data list \<Rightarrow> nat \<Rightarrow> rc_graph \<times> nat list \<Rightarrow> bool" where
  "edges_collected bbs k = (\<lambda>(g, lev).
     length (rc_e g) = length bbs \<and> length (rc_pre g) = length bbs \<and> length lev = length bbs \<and> rc_topo g = [] \<and>
     (\<forall>i < length bbs. rc_e g ! i = (if i < k then block_succs bbs i else [])) \<and>
     (\<forall>j < length bbs. lev ! j = in_edges bbs [0..<k] j) \<and>
     (\<forall>j < length bbs. rc_pre g ! j = concat (map (\<lambda>i. replicate (count_list (block_succs bbs i) j) i) [0..<k])))"

lemma enumerate_split:
  assumes "enumerate 0 xs = ys @ (i, x) # zs"
  shows "i = length ys" "i < length xs" "x = xs ! i"
proof -
  have "length (enumerate 0 xs) = length (ys @ (i, x) # zs)" using assms by simp
  then have len: "length ys < length xs" by simp
  then have "enumerate 0 xs ! length ys = (length ys, xs ! length ys)" by (simp add: nth_enumerate_eq)
  with assms len show "i = length ys" "i < length xs" "x = xs ! i" by simp_all
qed

lemma collect_edges_ok:
  assumes bbs: "rc_body_ok bbs"
  shows "ok (edges_collected bbs (length bbs))
    (collect_edges bbs (rc_graph_new (length bbs)) (replicate (length bbs) 0))"
proof -
  have "ok (\<lambda>s. edges_collected bbs (length (enumerate 0 bbs)) s)
    (collect_edges bbs (rc_graph_new (length bbs)) (replicate (length bbs) 0))"
    unfolding collect_edges_def
  proof (rule ok_rfold_prefix [where P = "\<lambda>ys s. edges_collected bbs (length ys) s"])
    show "edges_collected bbs (length []) (rc_graph_new (length bbs), replicate (length bbs) 0)"
      by (simp add: edges_collected_def rc_graph_new_def)
  next
    fix ys :: "(nat \<times> bb_data) list" and x zs s
    assume split: "enumerate 0 bbs = ys @ x # zs" and s: "edges_collected bbs (length ys) s"
    obtain b data where x: "x = (b, data)" by (cases x)
    obtain g lev where s': "s = (g, lev)" by (cases s)
    from enumerate_split [OF split [unfolded x]] have b: "b = length ys" "b < length bbs" "data = bbs ! b" .
    from bbs b obtain t where t: "bb_terminator data = Some t" "t_kind t \<noteq> TailCall"
      by (auto simp: rc_body_ok_def dest!: bspec [of _ _ data])
    from rc_successors_total [OF t(2)] obtain ts where ts: "rc_successors (t_kind t) = Inr ts" ..
    have succs: "block_succs bbs b = ts" using t ts b by (simp add: block_succs_def)
    with bbs b have "set ts \<subseteq> {..<length lev}" "length (rc_pre g) = length lev" "length lev = length bbs"
      using s s' by (auto simp: rc_body_ok_def edges_collected_def)
    with rfold_count_edge [of ts lev g b] obtain pre where pre:
      "rfold (rc_count_edge b) ts (g, lev) = Inr (g\<lparr>rc_pre := pre\<rparr>, map (\<lambda>j. lev ! j + count_list ts j) [0..<length bbs])"
      "length pre = length bbs" "\<forall>j < length bbs. pre ! j = rc_pre g ! j @ replicate (count_list ts j) b" by auto
    have "edges_collected bbs (Suc b)
        (g\<lparr>rc_pre := pre, rc_e := (rc_e g)[b := ts]\<rparr>, map (\<lambda>j. lev ! j + count_list ts j) [0..<length bbs])"
      using s b(1,2) pre(2,3) succs by (simp add: s' edges_collected_def nth_list_update less_Suc_eq)
    moreover have "length (rc_e g) = length bbs" using s by (simp add: s' edges_collected_def)
    ultimately show "ok (edges_collected bbs (length (ys @ [x])))
        ((\<lambda>(block, data) (g, lev). rbind (unwrap (bb_terminator data)) (\<lambda>t.
           rbind (rc_successors (t_kind t)) (\<lambda>result.
           rbind (rfold (rc_count_edge block) result (g, lev)) (\<lambda>(g, lev).
           rbind (set_at (rc_e g) block result) (\<lambda>e. Inr (g\<lparr>rc_e := e\<rparr>, lev)))))) x s)"
      using b(2) by (simp add: x s' t ts pre(1) b(1) [symmetric])
  qed
  then show ?thesis by simp
qed

subsection \<open>The order is topological\<close>

lemma fold_max_mem: "fold max q m \<in> insert m (set q)" for m :: nat
  by (induction q arbitrary: m) (auto simp: max_def)

lemma heap_max_mem: "q \<noteq> [] \<Longrightarrow> heap_max q \<in> set q"
  using fold_max_mem by (cases q) (auto simp: heap_max_def)

lemma rfold_relax:
  assumes "set ts \<subseteq> {..<length lev}" "\<forall>j < length lev. count_list ts j \<le> lev ! j"
  shows "\<exists>pushed. rfold rc_relax ts (lev, q) = Inr (map (\<lambda>j. lev ! j - count_list ts j) [0..<length lev], q @ pushed) \<and>
    distinct pushed \<and> set pushed = {j \<in> set ts. count_list ts j = lev ! j}"
  using assms
proof (induction ts arbitrary: lev q)
  case Nil
  have "map ((!) lev) [0..<length lev] = lev" by (rule map_nth)
  then show ?case by simp
next
  case (Cons t ts)
  let ?lev = "lev[t := lev ! t - 1]" and ?new = "if lev ! t = 1 then [t] else []"
  have t: "t < length lev" using Cons.prems(1) by simp
  with Cons.prems(2) have "count_list (t # ts) t \<le> lev ! t" by blast
  with t have t: "t < length lev" "Suc (count_list ts t) \<le> lev ! t" by simp_all
  then have step: "rc_relax t (lev, q) = Inr (?lev, q @ ?new)" by (auto simp: rc_relax_def)
  have le: "\<forall>j < length ?lev. count_list ts j \<le> ?lev ! j"
    using Cons.prems(2) t by (auto simp: nth_list_update split: if_splits)
  from Cons.IH [of ?lev "q @ ?new"] Cons.prems(1) le obtain pushed where pushed:
    "rfold rc_relax ts (?lev, q @ ?new) = Inr (map (\<lambda>j. ?lev ! j - count_list ts j) [0..<length ?lev], (q @ ?new) @ pushed)"
    "distinct pushed" "set pushed = {j \<in> set ts. count_list ts j = ?lev ! j}" by auto
  have eq: "map (\<lambda>j. ?lev ! j - count_list ts j) [0..<length ?lev] = map (\<lambda>j. lev ! j - count_list (t # ts) j) [0..<length lev]"
    by (auto simp: nth_list_update)
  have zero: "t \<notin> set ts" if "lev ! t = 1" using t(2) that by (simp add: count_list_0_iff)
  have "set (?new @ pushed) = {j \<in> set (t # ts). count_list (t # ts) j = lev ! j}"
  proof (rule set_eqI)
    fix j
    show "j \<in> set (?new @ pushed) \<longleftrightarrow> j \<in> {j \<in> set (t # ts). count_list (t # ts) j = lev ! j}"
    proof (cases "j = t")
      case True
      have "t \<in> set ts \<longleftrightarrow> count_list ts t \<noteq> 0" by (simp add: count_list_0_iff)
      with True pushed(3) t show ?thesis by (cases "count_list ts t") (simp_all, linarith+)
    next
      case False
      then have "j \<in> set pushed \<longleftrightarrow> j \<in> set ts \<and> count_list ts j = lev ! j" using pushed(3) by simp
      with False show ?thesis by simp
    qed
  qed
  moreover have "distinct (?new @ pushed)" using pushed(2,3) zero by auto
  ultimately show ?case using pushed(1) step eq by (intro exI [of _ "?new @ pushed"]) simp
qed

text \<open>The edges into \<open>j\<close> from a set of blocks.\<close>

definition pending :: "bb_data list \<Rightarrow> nat set \<Rightarrow> nat \<Rightarrow> nat" where
  "pending bbs A j = (\<Sum>i \<in> A. count_list (block_succs bbs i) j)"

lemma pending_0_iff: "finite A \<Longrightarrow> pending bbs A j = 0 \<longleftrightarrow> (\<forall>i \<in> A. j \<notin> set (block_succs bbs i))"
  by (simp add: pending_def count_list_0_iff)

lemma pending_remove:
  "finite A \<Longrightarrow> i \<in> A \<Longrightarrow> pending bbs A j = count_list (block_succs bbs i) j + pending bbs (A - {i}) j"
  by (simp add: pending_def sum.remove)

lemma in_edges_pending: "in_edges bbs [0..<n] j = pending bbs {..<n} j"
  by (simp add: in_edges_def pending_def interv_sum_list_conv_sum_set_nat lessThan_atLeast0)

definition preds_before :: "bb_data list \<Rightarrow> nat list \<Rightarrow> bool" where
  "preds_before bbs topo \<longleftrightarrow> (\<forall>ys j zs. topo = ys @ j # zs \<longrightarrow>
     (\<forall>i < length bbs. j \<in> set (block_succs bbs i) \<longrightarrow> i \<in> set ys))"

lemma preds_before_snoc:
  assumes "preds_before bbs topo" "\<forall>i < length bbs. t \<in> set (block_succs bbs i) \<longrightarrow> i \<in> set topo"
  shows "preds_before bbs (topo @ [t])"
  unfolding preds_before_def
proof (intro allI impI)
  fix ys j zs i assume eq: "topo @ [t] = ys @ j # zs" and i: "i < length bbs" "j \<in> set (block_succs bbs i)"
  show "i \<in> set ys"
  proof (cases zs rule: rev_exhaust)
    case Nil
    with eq i assms(2) show ?thesis by auto
  next
    case (snoc zs' z)
    with eq have "topo = ys @ j # zs'" by simp
    with assms(1) i show ?thesis by (auto simp: preds_before_def)
  qed
qed

text \<open>The queue holds the blocks all of whose edges are removed and that are not yet in the order.\<close>

definition topo_inv :: "bb_data list \<Rightarrow> nat list \<Rightarrow> rc_graph \<Rightarrow> nat list \<Rightarrow> bool" where
  "topo_inv bbs q g lev \<longleftrightarrow> rc_e g = map (block_succs bbs) [0..<length bbs] \<and> length lev = length bbs \<and>
     distinct (rc_topo g @ q) \<and> set (rc_topo g @ q) \<subseteq> {..<length bbs} \<and>
     (\<forall>j < length bbs. lev ! j = pending bbs ({..<length bbs} - set (rc_topo g)) j) \<and>
     (\<forall>j < length bbs. j \<in> set (rc_topo g @ q) \<longleftrightarrow>
        j = 0 \<or> pending bbs ({..<length bbs} - set (rc_topo g)) j = 0 \<and> pending bbs {..<length bbs} j \<noteq> 0) \<and>
     preds_before bbs (rc_topo g)"

lemma topo_inv_step:
  assumes ok: "rc_body_ok bbs" and inv: "topo_inv bbs q g lev" and t: "t \<in> set q"
  shows "\<exists>lev' q'. rfold rc_relax (block_succs bbs t) (lev, remove1 t q) = Inr (lev', q') \<and>
    topo_inv bbs q' (g\<lparr>rc_topo := rc_topo g @ [t]\<rparr>) lev'"
proof -
  let ?n = "length bbs" and ?A = "{..<length bbs} - set (rc_topo g)" and ?ts = "block_succs bbs t"
  have tn: "t < ?n" "t \<in> ?A" and len: "length lev = ?n" using inv t by (auto simp: topo_inv_def)
  have lev: "lev ! j = count_list ?ts j + pending bbs (?A - {t}) j" if "j < ?n" for j
    using inv that pending_remove [OF _ tn(2)] by (simp add: topo_inv_def)
  have ts: "set ?ts \<subseteq> {0<..<?n}" using ok tn(1) by (auto simp: rc_body_ok_def)
  then have "set ?ts \<subseteq> {..<length lev}" by (auto simp: len)
  with rfold_relax [of ?ts lev "remove1 t q"] lev len obtain pushed where pushed:
    "rfold rc_relax ?ts (lev, remove1 t q) = Inr (map (\<lambda>j. lev ! j - count_list ?ts j) [0..<?n], remove1 t q @ pushed)"
    "distinct pushed" "set pushed = {j \<in> set ?ts. count_list ?ts j = lev ! j}" by auto
  have A: "{..<?n} - insert t (set (rc_topo g)) = ?A - {t}" by auto
  have mem: "j \<in> set (rc_topo g @ q) \<longleftrightarrow> j = 0 \<or> pending bbs ?A j = 0 \<and> pending bbs {..<?n} j \<noteq> 0" if "j < ?n" for j
    using inv that by (simp add: topo_inv_def)
  have new: "j \<in> set pushed \<longleftrightarrow> j \<in> set ?ts \<and> pending bbs (?A - {t}) j = 0" if "j < ?n" for j
    using pushed(3) lev [OF that] by auto
  have pend: "pending bbs ?A j = 0 \<longleftrightarrow> j \<notin> set ?ts \<and> pending bbs (?A - {t}) j = 0" if "j < ?n" for j
    using pending_remove [OF _ tn(2), of bbs j] by (simp add: count_list_0_iff)
  have all: "pending bbs {..<?n} j \<noteq> 0" if "j \<in> set ?ts" for j
    using that tn(1) by (auto simp: pending_0_iff)
  have preds: "\<forall>i < ?n. t \<in> set (block_succs bbs i) \<longrightarrow> i \<in> set (rc_topo g)"
  proof (cases "t = 0")
    case True
    with ok show ?thesis by (auto simp: rc_body_ok_def)
  next
    case False
    with mem [OF tn(1)] t have "pending bbs ?A t = 0" by simp
    then show ?thesis by (auto simp: pending_0_iff)
  qed
  have disj: "j \<notin> set (rc_topo g @ q)" if "j \<in> set pushed" for j
    using that pushed(3) ts mem [of j] pend [of j] by fastforce
  have q: "distinct q" "distinct (rc_topo g)" "set (rc_topo g) \<inter> set q = {}" "set (rc_topo g @ q) \<subseteq> {..<?n}"
    using inv by (auto simp: topo_inv_def)
  have "topo_inv bbs (remove1 t q @ pushed) (g\<lparr>rc_topo := rc_topo g @ [t]\<rparr>) (map (\<lambda>j. lev ! j - count_list ?ts j) [0..<?n])"
    unfolding topo_inv_def
  proof (intro conjI allI impI)
    show "distinct (rc_topo (g\<lparr>rc_topo := rc_topo g @ [t]\<rparr>) @ remove1 t q @ pushed)"
      using q t disj pushed(2) by auto
    show "set (rc_topo (g\<lparr>rc_topo := rc_topo g @ [t]\<rparr>) @ remove1 t q @ pushed) \<subseteq> {..<?n}"
      using q tn(1) ts pushed(3) set_remove1_subset [of t q] by auto
    show "preds_before bbs (rc_topo (g\<lparr>rc_topo := rc_topo g @ [t]\<rparr>))"
      using inv preds by (simp add: topo_inv_def preds_before_snoc)
  next
    fix j assume j: "j < ?n"
    show "map (\<lambda>j. lev ! j - count_list ?ts j) [0..<?n] ! j
        = pending bbs ({..<?n} - set (rc_topo (g\<lparr>rc_topo := rc_topo g @ [t]\<rparr>))) j"
      using j lev [OF j] by (simp add: A)
    have "j \<in> set (rc_topo g @ [t] @ remove1 t q @ pushed) \<longleftrightarrow> j \<in> set (rc_topo g @ q) \<or> j \<in> set pushed"
      using t q(1) by auto
    also have "\<dots> \<longleftrightarrow> j = 0 \<or> pending bbs (?A - {t}) j = 0 \<and> pending bbs {..<?n} j \<noteq> 0"
      using mem [OF j] new [OF j] pend [OF j] all [of j] by blast
    finally show "j \<in> set (rc_topo (g\<lparr>rc_topo := rc_topo g @ [t]\<rparr>) @ remove1 t q @ pushed) \<longleftrightarrow>
        j = 0 \<or> pending bbs ({..<?n} - set (rc_topo (g\<lparr>rc_topo := rc_topo g @ [t]\<rparr>))) j = 0 \<and> pending bbs {..<?n} j \<noteq> 0"
      by (simp add: A)
  qed (use inv in \<open>simp_all add: topo_inv_def\<close>)
  with pushed(1) show ?thesis by blast
qed

lemma topo_loop_ok:
  assumes ok: "rc_body_ok bbs"
  shows "topo_inv bbs q g lev \<Longrightarrow> length bbs - length (rc_topo g) < n \<Longrightarrow>
    ok (\<lambda>(g', lev'). topo_inv bbs [] g' lev' \<and> rc_pre g' = rc_pre g) (topo_loop n q g lev)"
proof (induction n arbitrary: q g lev)
  case (Suc n)
  show ?case
  proof (cases "q = []")
    case False
    let ?t = "heap_max q" and ?g = "g\<lparr>rc_topo := rc_topo g @ [heap_max q]\<rparr>"
    have t: "?t \<in> set q" using False by (rule heap_max_mem)
    have e: "at (rc_e g) ?t = Inr (block_succs bbs ?t)" and dist: "distinct (rc_topo g @ q)" "set (rc_topo g @ q) \<subseteq> {..<length bbs}"
      using Suc.prems(1) t by (auto simp: topo_inv_def)
    from topo_inv_step [OF ok Suc.prems(1) t] obtain lev' q' where
      step: "rfold rc_relax (block_succs bbs ?t) (lev, remove1 ?t q) = Inr (lev', q')" and inv: "topo_inv bbs q' ?g lev'" by blast
    have "length (rc_topo g @ q) \<le> length bbs"
      using distinct_card [OF dist(1)] card_mono [OF _ dist(2)] by simp
    moreover have "1 \<le> length q" using False by (cases q) simp_all
    ultimately have "length bbs - length (rc_topo ?g) < n" using Suc.prems(2) unfolding length_append by simp
    from Suc.IH [OF inv this] show ?thesis using False e step by (simp add: Let_def)
  qed (use Suc.prems in simp)
qed simp

text \<open>The blocks that can be ordered: the first one, and every block that has predecessors, all of which can.\<close>

inductive_set rc_ordered :: "bb_data list \<Rightarrow> nat set" for bbs where
  start: "0 \<in> rc_ordered bbs"
| step: "\<lbrakk>j < length bbs; i < length bbs; j \<in> set (block_succs bbs i);
     \<forall>i. i < length bbs \<and> j \<in> set (block_succs bbs i) \<longrightarrow> i \<in> rc_ordered bbs\<rbrakk> \<Longrightarrow> j \<in> rc_ordered bbs"

lemma topo_inv_ordered:
  assumes ok: "rc_body_ok bbs" and inv: "topo_inv bbs [] g lev"
  shows "set (rc_topo g) = rc_ordered bbs"
proof
  have mem: "j \<in> set (rc_topo g) \<longleftrightarrow>
      j = 0 \<or> pending bbs ({..<length bbs} - set (rc_topo g)) j = 0 \<and> pending bbs {..<length bbs} j \<noteq> 0" if "j < length bbs" for j
    using inv that by (simp add: topo_inv_def)
  have "set ys \<subseteq> rc_ordered bbs" if "rc_topo g = ys @ zs" for ys zs
    using that
  proof (induction ys arbitrary: zs rule: rev_induct)
    case (snoc j ys)
    then have ys: "set ys \<subseteq> rc_ordered bbs" and topo: "rc_topo g = ys @ j # zs" by auto
    have preds: "i \<in> rc_ordered bbs" if "i < length bbs" "j \<in> set (block_succs bbs i)" for i
    proof -
      have "preds_before bbs (rc_topo g)" using inv by (simp add: topo_inv_def)
      with topo that have "i \<in> set ys" unfolding preds_before_def by blast
      with ys show ?thesis by blast
    qed
    have "set (rc_topo g) \<subseteq> {..<length bbs}" using inv unfolding topo_inv_def by force
    with topo have j: "j < length bbs" "j \<in> set (rc_topo g)" by simp_all
    have "j \<in> rc_ordered bbs"
    proof (cases "j = 0")
      case False
      with mem [OF j(1)] j(2) obtain i where "i < length bbs" "j \<in> set (block_succs bbs i)"
        by (auto simp: pending_0_iff)
      then show ?thesis using preds j(1) by (intro rc_ordered.step [of j bbs i]) auto
    qed (simp add: rc_ordered.start)
    with ys show ?case by simp
  qed simp
  from this [of "rc_topo g" "[]"] show "set (rc_topo g) \<subseteq> rc_ordered bbs" by simp
  have "j \<in> set (rc_topo g)" if "j \<in> rc_ordered bbs" for j
    using that
  proof induction
    case start
    with mem [of 0] ok show ?case by (simp add: rc_body_ok_def)
  next
    case (step j i)
    then show ?case using mem [of j] by (auto simp: pending_0_iff)
  qed
  then show "rc_ordered bbs \<subseteq> set (rc_topo g)" by blast
qed

lemma rc_node_order_ok:
  assumes ok: "rc_body_ok (basic_blocks b)" and n: "length (basic_blocks b) < n"
  shows "\<exists>g lev. rc_node_order n b = Inr g \<and> topo_inv (basic_blocks b) [] g lev \<and>
    (\<forall>j < length (basic_blocks b). rc_pre g ! j =
       concat (map (\<lambda>i. replicate (count_list (block_succs (basic_blocks b) i) j) i) [0..<length (basic_blocks b)]))"
proof -
  let ?bbs = "basic_blocks b"
  from collect_edges_ok [OF ok] obtain g lev where g:
    "collect_edges ?bbs (rc_graph_new (length ?bbs)) (replicate (length ?bbs) 0) = Inr (g, lev)"
    "edges_collected ?bbs (length ?bbs) (g, lev)" by (auto simp: ok_def)
  have "rc_e g = map (block_succs ?bbs) [0..<length ?bbs]"
    using g(2) by (intro nth_equalityI) (auto simp: edges_collected_def)
  moreover have "pending ?bbs {..<length ?bbs} 0 = 0" using ok by (auto simp: pending_0_iff rc_body_ok_def)
  moreover have "preds_before ?bbs []" by (simp add: preds_before_def)
  ultimately have "topo_inv ?bbs [0] g lev"
    using g(2) ok unfolding topo_inv_def
    by (auto simp: edges_collected_def in_edges_pending rc_body_ok_def)
  with topo_loop_ok [OF ok this, of n] n g(2) obtain g' lev' where
    "topo_loop n [0] g lev = Inr (g', lev')" "topo_inv ?bbs [] g' lev'" "rc_pre g' = rc_pre g"
    by (auto simp: ok_def edges_collected_def)
  then show ?thesis using g by (auto simp: rc_node_order_def topo_order_def edges_collected_def)
qed

text \<open>C21: On every body whose first block is not a jump target the ordering of blocks returns without underflow of its counters,
  with one iteration per block. The order lists no block twice, every block comes after all of its predecessors, and it
  consists of exactly the blocks that can be ordered at all: blocks on a cycle, and blocks reached only through one, are left
  out, so the leak analysis never visits them.\<close>

theorem rc_node_order_topological:
  assumes ok: "rc_body_ok (basic_blocks b)" and n: "length (basic_blocks b) < n"
  shows "\<exists>g. rc_node_order n b = Inr g \<and> distinct (rc_topo g) \<and> set (rc_topo g) = rc_ordered (basic_blocks b) \<and>
    rc_e g = map (block_succs (basic_blocks b)) [0..<length (basic_blocks b)] \<and>
    (\<forall>ys j zs i. rc_topo g = ys @ j # zs \<and> i < length (basic_blocks b) \<and> j \<in> set (block_succs (basic_blocks b) i) \<longrightarrow>
       i \<in> set ys)"
proof -
  from rc_node_order_ok [OF assms] obtain g lev where g: "rc_node_order n b = Inr g" "topo_inv (basic_blocks b) [] g lev" by blast
  with topo_inv_ordered [OF ok g(2)] show ?thesis by (auto simp: topo_inv_def preds_before_def)
qed

definition goto_body :: "nat list list \<Rightarrow> body" where
  "goto_body succs = \<lparr>local_decls = [], arg_count = 0, basic_blocks = map (\<lambda>ts. \<lparr>bb_statements = [],
     bb_terminator = Some \<lparr>t_kind = (case ts of [] \<Rightarrow> Return | [t] \<Rightarrow> Goto t | t # us \<Rightarrow>
       SwitchInt (Copy \<lparr>p_local = 1, p_projection = []\<rparr>) \<lparr>sw_values = map (Pair 0) (butlast ts), sw_otherwise = last ts\<rparr>),
       t_span = 0\<rparr>, bb_is_cleanup = False\<rparr>) succs, body_span = 0\<rparr>"

theorem rc_node_order_topological_witness:
  "\<exists>g. rc_node_order 6 (goto_body [[1, 2], [3], [3], [4], [4]]) = Inr g \<and> distinct (rc_topo g) \<and> 4 \<notin> set (rc_topo g)"
proof -
  have ok: "rc_body_ok (basic_blocks (goto_body [[1, 2], [3], [3], [4], [4]]))"
    by (simp add: rc_body_ok_def goto_body_def block_succs_def rc_successors_def all_targets_def All_less_Suc numeral_eq_Suc)
  have "rc_node_order 6 (goto_body [[1, 2], [3], [3], [4], [4]]) =
      Inr \<lparr>rc_e = [[1, 2], [3], [3], [4], [4]], rc_pre = [[], [0], [0], [1, 2], [3, 4]], rc_topo = [0, 2, 1, 3]\<rparr>"
    by code_simp
  moreover have "length (basic_blocks (goto_body [[1, 2], [3], [3], [4], [4]])) < 6" by (simp add: goto_body_def)
  with rc_node_order_topological [OF ok, of 6] obtain g where
    "rc_node_order 6 (goto_body [[1, 2], [3], [3], [4], [4]]) = Inr g" "distinct (rc_topo g)" by blast
  ultimately show ?thesis by force
qed

end
