(* ===== verification/Rc_Context.thy ===== *)
theory Rc_Context
  imports Heap_Item
begin

section \<open>rCanary: the state of the intra-procedural analysis\<close>

text \<open>
  \<^verbatim>\<open>rcanary/ranalyzer/ownership.rs\<close> and the flow context of \<^verbatim>\<open>rcanary/ranalyzer.rs\<close>: for every block an input and an
  output vector of taints, solver variables, lengths, types and layouts, one entry per local. The bit vectors of
  the solver are a type parameter. Indexing a block out of range panics.
\<close>

subsection \<open>Taints, variables, owners\<close>

type_synonym taint = "indexed_ty list"

definition is_untainted :: "taint \<Rightarrow> bool" where
  "is_untainted t \<longleftrightarrow> t = []"

definition is_tainted :: "taint \<Rightarrow> bool" where
  "is_tainted t \<longleftrightarrow> t \<noteq> []"

definition taint_contains :: "taint \<Rightarrow> indexed_ty \<Rightarrow> bool" where
  "taint_contains t k \<longleftrightarrow> k \<in> set t"

definition taint_insert :: "indexed_ty \<Rightarrow> taint \<Rightarrow> taint" where
  "taint_insert k t = hs_insert k t"

datatype 'bv intra_var = Var_Declared | Var_Init 'bv | Var_Unsupported

fun iv_is_declared :: "'bv intra_var \<Rightarrow> bool" where
  "iv_is_declared Var_Declared = True"
| "iv_is_declared _ = False"

fun iv_is_init :: "'bv intra_var \<Rightarrow> bool" where
  "iv_is_init (Var_Init _) = True"
| "iv_is_init _ = False"

fun iv_is_unsupported :: "'bv intra_var \<Rightarrow> bool" where
  "iv_is_unsupported Var_Unsupported = True"
| "iv_is_unsupported _ = False"

fun iv_extract :: "'bv intra_var \<Rightarrow> 'bv res" where
  "iv_extract (Var_Init ast) = Inr ast"
| "iv_extract _ = Inl Unreachable_code"

datatype owner_kind = Ok_Instance | Ok_Reference | Ok_Pointer

datatype context_type_owner = Cto_Owned owner_kind ty | Cto_Unowned

fun cto_is_owned :: "context_type_owner \<Rightarrow> bool" where
  "cto_is_owned (Cto_Owned _ _) = True"
| "cto_is_owned Cto_Unowned = False"

fun cto_get_ty :: "context_type_owner \<Rightarrow> ty option" where
  "cto_get_ty (Cto_Owned _ t) = Some t"
| "cto_get_ty Cto_Unowned = None"

subsection \<open>The flow context\<close>

record 'a in_out_pair =
  io_i :: "'a list"
  io_o :: "'a list"

definition in_out_pair_new :: "'a \<Rightarrow> nat \<Rightarrow> 'a in_out_pair" where
  "in_out_pair_new dflt len = \<lparr>io_i = replicate len dflt, io_o = replicate len dflt\<rparr>"

type_synonym 'a io_graph = "'a in_out_pair list"

definition io_graph_new :: "'a \<Rightarrow> nat \<Rightarrow> nat \<Rightarrow> 'a io_graph" where
  "io_graph_new dflt b_len v_len = replicate b_len (in_out_pair_new dflt v_len)"

record 'bv icx =
  icx_taint :: "taint io_graph"
  icx_var :: "'bv intra_var io_graph"
  icx_len :: "nat io_graph"
  icx_ty :: "indexed_ty io_graph"
  icx_layout :: "raw_type_owner list io_graph"

definition icx_new :: "nat \<Rightarrow> nat \<Rightarrow> 'bv icx" where
  "icx_new b_len v_len =
     \<lparr>icx_taint = io_graph_new [] b_len v_len, icx_var = io_graph_new Var_Declared b_len v_len,
      icx_len = io_graph_new 0 b_len v_len, icx_ty = io_graph_new None b_len v_len,
      icx_layout = io_graph_new [] b_len v_len\<rparr>"

text \<open>\<open>derive_from_pre_node\<close>: the input of one block is the output of another.\<close>

definition io_derive :: "nat \<Rightarrow> nat \<Rightarrow> 'a io_graph \<Rightarrow> 'a io_graph res" where
  "io_derive src dest g =
     rbind (at g src) (\<lambda>f. rbind (at g dest) (\<lambda>t. set_at g dest (t\<lparr>io_i := io_o f\<rparr>)))"

definition derive_from_pre_node :: "nat \<Rightarrow> nat \<Rightarrow> 'bv icx \<Rightarrow> 'bv icx res" where
  "derive_from_pre_node src dest c =
     rbind (io_derive src dest (icx_taint c)) (\<lambda>ta.
     rbind (io_derive src dest (icx_var c)) (\<lambda>va.
     rbind (io_derive src dest (icx_len c)) (\<lambda>le.
     rbind (io_derive src dest (icx_ty c)) (\<lambda>tys.
     rbind (io_derive src dest (icx_layout c)) (\<lambda>la.
       Inr \<lparr>icx_taint = ta, icx_var = va, icx_len = le, icx_ty = tys, icx_layout = la\<rparr>)))))"

record 'bv icx_slice =
  sl_taint :: "taint list"
  sl_var :: "'bv intra_var list"
  sl_len :: "nat list"
  sl_ty :: "indexed_ty list"
  sl_layout :: "raw_type_owner list list"

definition io_set_out :: "'a list \<Rightarrow> nat \<Rightarrow> 'a io_graph \<Rightarrow> 'a io_graph res" where
  "io_set_out v dest g = rbind (at g dest) (\<lambda>t. set_at g dest (t\<lparr>io_o := v\<rparr>))"

definition derive_from_icx_slice :: "'bv icx_slice \<Rightarrow> nat \<Rightarrow> 'bv icx \<Rightarrow> 'bv icx res" where
  "derive_from_icx_slice src dest c =
     rbind (io_set_out (sl_taint src) dest (icx_taint c)) (\<lambda>ta.
     rbind (io_set_out (sl_var src) dest (icx_var c)) (\<lambda>va.
     rbind (io_set_out (sl_len src) dest (icx_len c)) (\<lambda>le.
     rbind (io_set_out (sl_ty src) dest (icx_ty c)) (\<lambda>tys.
     rbind (io_set_out (sl_layout src) dest (icx_layout c)) (\<lambda>la.
       Inr \<lparr>icx_taint = ta, icx_var = va, icx_len = le, icx_ty = tys, icx_layout = la\<rparr>)))))"

definition icx_slice_new_in :: "'bv icx \<Rightarrow> nat \<Rightarrow> 'bv icx_slice res" where
  "icx_slice_new_in c idx =
     rbind (at (icx_taint c) idx) (\<lambda>ta. rbind (at (icx_var c) idx) (\<lambda>va. rbind (at (icx_len c) idx) (\<lambda>le.
     rbind (at (icx_ty c) idx) (\<lambda>tys. rbind (at (icx_layout c) idx) (\<lambda>la.
       Inr \<lparr>sl_taint = io_i ta, sl_var = io_i va, sl_len = io_i le, sl_ty = io_i tys, sl_layout = io_i la\<rparr>)))))"

definition icx_slice_new_out :: "'bv icx \<Rightarrow> nat \<Rightarrow> 'bv icx_slice res" where
  "icx_slice_new_out c idx =
     rbind (at (icx_taint c) idx) (\<lambda>ta. rbind (at (icx_var c) idx) (\<lambda>va. rbind (at (icx_len c) idx) (\<lambda>le.
     rbind (at (icx_ty c) idx) (\<lambda>tys. rbind (at (icx_layout c) idx) (\<lambda>la.
       Inr \<lparr>sl_taint = io_o ta, sl_var = io_o va, sl_len = io_o le, sl_ty = io_o tys, sl_layout = io_o la\<rparr>)))))"

definition icx_slice_new_for_block_0 :: "nat \<Rightarrow> 'bv icx_slice" where
  "icx_slice_new_for_block_0 len =
     \<lparr>sl_taint = replicate len [], sl_var = replicate len Var_Declared, sl_len = replicate len 0,
      sl_ty = replicate len None, sl_layout = replicate len []\<rparr>"

text \<open>\<open>taint_merge\<close>; \<open>order\<close> is the enumeration order of a set of taints.\<close>

definition taint_merge :: "(taint \<Rightarrow> taint) \<Rightarrow> 'bv icx_slice \<Rightarrow> nat \<Rightarrow> 'bv icx_slice \<Rightarrow> 'bv icx_slice res" where
  "taint_merge order another u s =
     rbind (at (sl_taint another) u) (\<lambda>other.
       if is_untainted other then Inr s
       else rbind (at (sl_taint s) u) (\<lambda>mine.
         rbind (set_at (sl_taint s) u (if is_untainted mine then other else fold taint_insert (order other) mine))
           (\<lambda>ts. Inr (s\<lparr>sl_taint := ts\<rparr>))))"

subsection \<open>Contexts and slices\<close>

definition icx_blocks :: "nat \<Rightarrow> 'bv icx \<Rightarrow> bool" where
  "icx_blocks n c \<longleftrightarrow> length (icx_taint c) = n \<and> length (icx_var c) = n \<and> length (icx_len c) = n \<and>
     length (icx_ty c) = n \<and> length (icx_layout c) = n"

lemma icx_blocks_new: "icx_blocks b (icx_new b v)"
  by (simp add: icx_blocks_def icx_new_def io_graph_new_def)

text \<open>The context hands the state of one block to the next unchanged: after a slice has been stored as the output of a block, the
  slice read from that block's output is the one that was stored, and the input a later block derives from it is the same
  slice again; no other block is affected by either step.\<close>

theorem icx_slice_roundtrip:
  assumes c: "icx_blocks n c" and src: "i < n" and dest: "j < n" and neq: "i \<noteq> j"
  shows "\<exists>c1 c2. derive_from_icx_slice s i c = Inr c1 \<and> icx_slice_new_out c1 i = Inr s \<and>
    derive_from_pre_node i j c1 = Inr c2 \<and> icx_slice_new_in c2 j = Inr s \<and> icx_blocks n c2 \<and>
    (\<forall>k < n. k \<noteq> i \<longrightarrow> icx_slice_new_out c2 k = icx_slice_new_out c k) \<and>
    (\<forall>k < n. k \<noteq> j \<longrightarrow> icx_slice_new_in c2 k = icx_slice_new_in c k)"
  using assms
  by (simp add: icx_blocks_def derive_from_icx_slice_def icx_slice_new_out_def derive_from_pre_node_def icx_slice_new_in_def
      io_set_out_def io_derive_def nth_list_update)

theorem icx_slice_roundtrip_witness:
  "\<exists>c1 c2. derive_from_icx_slice (icx_slice_new_for_block_0 2) 0 (icx_new 2 3 :: nat icx) = Inr c1 \<and>
     derive_from_pre_node 0 1 c1 = Inr c2 \<and> icx_slice_new_in c2 1 = Inr (icx_slice_new_for_block_0 2)"
  using icx_slice_roundtrip [OF icx_blocks_new [of 2 3], of 0 1 "icx_slice_new_for_block_0 2"] by auto

lemma set_fold_taint_insert: "set (fold taint_insert ks t) = set t \<union> set ks"
  by (induction ks arbitrary: t) (auto simp: taint_insert_def)

lemma taint_merge_union:
  assumes "enum_order order" "u < length (sl_taint s)" "u < length (sl_taint another)"
  shows "\<exists>s'. taint_merge order another u s = Inr s' \<and>
    set (sl_taint s' ! u) = set (sl_taint s ! u) \<union> set (sl_taint another ! u)"
  using assms by (auto simp: taint_merge_def is_untainted_def set_fold_taint_insert enum_orderD)

end
