(* ===== verification/Sx_Contract.thy ===== *)
theory Sx_Contract
  imports Mir
begin

section \<open>Senryx: abstract states and contracts\<close>

text \<open>
  \<^verbatim>\<open>senryx/contracts/\<close>: the abstract values and states senryx attaches to places, the lattices of states, the contracts of
  unsafe functions and how a contract is checked against a state. The \<open>panic!("Incompatible types")\<close> branches are
  \<open>Unreachable_code\<close>. A set of states is a list without duplicates, whose enumeration order is a parameter where it is
  visited.
\<close>

subsection \<open>Values\<close>

datatype sx_value = V_Usize nat | V_Isize int | V_U32 nat | V_Custom | V_None

text \<open>The derived \<open>PartialOrd\<close>: variants in the order of their declaration, payloads within a variant.\<close>

fun value_rank :: "sx_value \<Rightarrow> nat \<times> int" where
  "value_rank (V_Usize n) = (0, int n)"
| "value_rank (V_Isize i) = (1, i)"
| "value_rank (V_U32 n) = (2, int n)"
| "value_rank V_Custom = (3, 0)"
| "value_rank V_None = (4, 0)"

lemma value_rank_inj: "value_rank v = value_rank w \<Longrightarrow> v = w"
  by (cases v; cases w) auto

instantiation sx_value :: linorder
begin

definition less_eq_sx_value :: "sx_value \<Rightarrow> sx_value \<Rightarrow> bool" where
  "less_eq_sx_value v w \<longleftrightarrow>
     fst (value_rank v) < fst (value_rank w) \<or>
     fst (value_rank v) = fst (value_rank w) \<and> snd (value_rank v) \<le> snd (value_rank w)"

definition less_sx_value :: "sx_value \<Rightarrow> sx_value \<Rightarrow> bool" where
  "less_sx_value v w \<longleftrightarrow> v \<le> w \<and> \<not> w \<le> v"

instance
proof
  fix x y z :: sx_value
  show "x < y \<longleftrightarrow> x \<le> y \<and> \<not> y \<le> x" by (simp add: less_sx_value_def)
  show "x \<le> x" by (simp add: less_eq_sx_value_def)
  show "x \<le> y \<Longrightarrow> y \<le> z \<Longrightarrow> x \<le> z" by (auto simp: less_eq_sx_value_def)
  show "x \<le> y \<Longrightarrow> y \<le> x \<Longrightarrow> x = y"
    by (rule value_rank_inj) (auto simp: less_eq_sx_value_def prod_eq_iff)
  show "x \<le> y \<or> y \<le> x" by (auto simp: less_eq_sx_value_def)
qed

end

subsection \<open>Layouts of places\<close>

datatype place_layout =
    Pl_Ty nat nat                                   \<comment> \<open>alignment and size of one type\<close>
  | Pl_Generic string "ty set" "(nat \<times> nat) set"   \<comment> \<open>a parameter: the types it may stand for and their layouts\<close>

definition possible_aligns :: "place_layout \<Rightarrow> nat set" where
  "possible_aligns p = (case p of Pl_Ty align _ \<Rightarrow> {align} | Pl_Generic _ _ tys \<Rightarrow> fst ` tys)"

subsection \<open>States\<close>

datatype allocated_state = As_Top | As_Borrowed | As_Moved | As_Alloc | As_SpecificAlloc | As_Bottom

datatype align_state = Al_Aligned | Al_Cast place_layout place_layout | Al_Unaligned

datatype init_state = Is_FullyInitialized | Is_PartlyInitialized

datatype state_type = St_Allocated allocated_state | St_Align align_state

datatype vtype = Vt_Pointer place_layout

record abstract_item =
  it_value :: "sx_value \<times> sx_value"
  it_vtype :: vtype
  it_state :: "state_type list"

type_synonym abstract_state = "(nat \<times> abstract_item option) list"

subsection \<open>The lattices\<close>

fun as_join :: "allocated_state \<Rightarrow> allocated_state \<Rightarrow> allocated_state" where
  "as_join As_Bottom b = b"
| "as_join a As_Bottom = a"
| "as_join As_Top _ = As_Top"
| "as_join _ As_Top = As_Top"
| "as_join As_Borrowed As_Moved = As_Top"
| "as_join As_Moved As_Borrowed = As_Top"
| "as_join As_Alloc As_SpecificAlloc = As_SpecificAlloc"
| "as_join As_SpecificAlloc As_Alloc = As_SpecificAlloc"
| "as_join As_Borrowed As_Borrowed = As_Borrowed"
| "as_join As_Moved As_Moved = As_Moved"
| "as_join As_Alloc As_Alloc = As_Alloc"
| "as_join As_SpecificAlloc As_SpecificAlloc = As_SpecificAlloc"
| "as_join As_Alloc As_Borrowed = As_Borrowed"
| "as_join As_Borrowed As_Alloc = As_Borrowed"
| "as_join As_Alloc As_Moved = As_Moved"
| "as_join As_Moved As_Alloc = As_Moved"
| "as_join As_SpecificAlloc As_Borrowed = As_Borrowed"
| "as_join As_Borrowed As_SpecificAlloc = As_Borrowed"
| "as_join As_Moved As_SpecificAlloc = As_Moved"
| "as_join As_SpecificAlloc As_Moved = As_Moved"

definition as_meet :: "allocated_state \<Rightarrow> allocated_state \<Rightarrow> allocated_state" where
  "as_meet a b =
     (if a = As_Top then b
      else if b = As_Top then a
      else if a = As_Bottom \<or> b = As_Bottom then As_Bottom
      else if (a, b) \<in> {(As_Borrowed, As_Moved), (As_Moved, As_Borrowed)} then As_Bottom
      else if (a, b) \<in> {(As_Alloc, As_SpecificAlloc), (As_SpecificAlloc, As_Alloc)} then As_Alloc
      else if a = b then a
      else if (a, b) \<in> {(As_Alloc, As_Borrowed), (As_Borrowed, As_Alloc)} then As_Alloc
      else if (a, b) \<in> {(As_SpecificAlloc, As_Borrowed), (As_Borrowed, As_SpecificAlloc)} then As_SpecificAlloc
      else if (a, b) \<in> {(As_Moved, As_SpecificAlloc), (As_SpecificAlloc, As_Moved)} then As_SpecificAlloc
      else As_Bottom)"

definition as_less_than :: "allocated_state \<Rightarrow> allocated_state \<Rightarrow> bool" where
  "as_less_than a b \<longleftrightarrow> a = As_Bottom \<or> b = As_Top \<or>
     (a, b) \<in> {(As_Alloc, As_Borrowed), (As_Alloc, As_SpecificAlloc), (As_Alloc, As_Moved),
               (As_SpecificAlloc, As_Borrowed), (As_SpecificAlloc, As_Moved)}"

definition as_equal :: "allocated_state \<Rightarrow> allocated_state \<Rightarrow> bool" where
  "as_equal a b \<longleftrightarrow> a = b"

definition as_check :: "allocated_state \<Rightarrow> bool" where
  "as_check a = True"

fun al_join :: "align_state \<Rightarrow> align_state \<Rightarrow> align_state" where
  "al_join Al_Aligned _ = Al_Aligned"
| "al_join (Al_Cast _ _) (Al_Cast _ _) = Al_Unaligned"
| "al_join Al_Unaligned _ = Al_Unaligned"
| "al_join _ Al_Unaligned = Al_Unaligned"
| "al_join _ other = other"

definition al_meet :: "align_state \<Rightarrow> align_state \<Rightarrow> align_state" where
  "al_meet a b = b"

fun al_less_than :: "align_state \<Rightarrow> align_state \<Rightarrow> bool" where
  "al_less_than _ Al_Aligned = True"
| "al_less_than (Al_Cast _ _) (Al_Cast _ _) = True"
| "al_less_than _ _ = False"

definition al_equal :: "align_state \<Rightarrow> align_state \<Rightarrow> bool" where
  "al_equal a b \<longleftrightarrow> a = b"

fun al_check :: "align_state \<Rightarrow> bool" where
  "al_check Al_Aligned = True"
| "al_check Al_Unaligned = False"
| "al_check (Al_Cast src dest) =
     (let src_aligns = possible_aligns src; dest_aligns = possible_aligns dest in
      if dest_aligns = {} \<and> src \<noteq> dest then False
      else \<not> (\<exists>d_align \<in> dest_aligns. d_align \<noteq> 1 \<and> src_aligns = {} \<or> (\<exists>s_align \<in> src_aligns. s_align > d_align)))"

fun is_join :: "init_state \<Rightarrow> init_state \<Rightarrow> init_state" where
  "is_join Is_FullyInitialized _ = Is_FullyInitialized"
| "is_join _ Is_FullyInitialized = Is_FullyInitialized"
| "is_join _ _ = Is_PartlyInitialized"

fun is_meet :: "init_state \<Rightarrow> init_state \<Rightarrow> init_state" where
  "is_meet Is_FullyInitialized other = other"
| "is_meet a Is_FullyInitialized = a"
| "is_meet _ _ = Is_PartlyInitialized"

fun is_less_than :: "init_state \<Rightarrow> init_state \<Rightarrow> bool" where
  "is_less_than Is_FullyInitialized Is_FullyInitialized = True"
| "is_less_than Is_PartlyInitialized _ = True"
| "is_less_than _ _ = False"

definition is_equal :: "init_state \<Rightarrow> init_state \<Rightarrow> bool" where
  "is_equal a b \<longleftrightarrow> a = b"

definition is_check :: "init_state \<Rightarrow> bool" where
  "is_check a = True"

fun st_join :: "state_type \<Rightarrow> state_type \<Rightarrow> state_type res" where
  "st_join (St_Allocated a) (St_Allocated b) = Inr (St_Allocated (as_join a b))"
| "st_join (St_Align a) (St_Align b) = Inr (St_Align (al_join a b))"
| "st_join _ _ = Inl Unreachable_code"

fun st_meet :: "state_type \<Rightarrow> state_type \<Rightarrow> state_type res" where
  "st_meet (St_Allocated a) (St_Allocated b) = Inr (St_Allocated (as_meet a b))"
| "st_meet (St_Align a) (St_Align b) = Inr (St_Align (al_meet a b))"
| "st_meet _ _ = Inl Unreachable_code"

fun st_less_than :: "state_type \<Rightarrow> state_type \<Rightarrow> bool res" where
  "st_less_than (St_Allocated a) (St_Allocated b) = Inr (as_less_than a b)"
| "st_less_than (St_Align a) (St_Align b) = Inr (al_less_than a b)"
| "st_less_than _ _ = Inl Unreachable_code"

fun st_equal :: "state_type \<Rightarrow> state_type \<Rightarrow> bool res" where
  "st_equal (St_Allocated a) (St_Allocated b) = Inr (as_equal a b)"
| "st_equal (St_Align a) (St_Align b) = Inr (al_equal a b)"
| "st_equal _ _ = Inl Unreachable_code"

fun st_check :: "state_type \<Rightarrow> bool" where
  "st_check (St_Allocated a) = as_check a"
| "st_check (St_Align a) = al_check a"

subsection \<open>Merging abstract items\<close>

definition same_state_type :: "state_type \<Rightarrow> state_type \<Rightarrow> bool" where
  "same_state_type l r \<longleftrightarrow>
     (case (l, r) of
        (St_Allocated _, St_Allocated _) \<Rightarrow> True
      | (St_Align _, St_Align _) \<Rightarrow> True
      | _ \<Rightarrow> False)"

text \<open>\<open>meet_state_item\<close>; \<open>order\<close> enumerates a set of states.\<close>

definition meet_state_item ::
    "(state_type list \<Rightarrow> state_type list) \<Rightarrow> abstract_item \<Rightarrow> abstract_item \<Rightarrow> abstract_item" where
  "meet_state_item order self other =
     self\<lparr>it_state := fold (\<lambda>st new_state.
         case List.find (\<lambda>o'. same_state_type o' st) (order (it_state other)) of
           Some matching \<Rightarrow> (case st_meet st matching of Inr merged \<Rightarrow> hs_insert merged new_state | Inl _ \<Rightarrow> new_state)
         | None \<Rightarrow> hs_insert st new_state)
       (order (it_state self)) []\<rparr>"

subsection \<open>Contracts\<close>

datatype sx_op = Op_EQ | Op_NE | Op_LT | Op_GT | Op_LE | Op_GE

datatype contract = ValueCheck sx_op sx_value | StateCheck sx_op state_type

fun handle_value_op :: "sx_value \<times> sx_value \<Rightarrow> sx_op \<Rightarrow> sx_value \<Rightarrow> bool" where
  "handle_value_op (lo, hi) Op_EQ v = (lo = v)"
| "handle_value_op (lo, hi) Op_NE v = (lo \<noteq> v)"
| "handle_value_op (lo, hi) Op_LT v = (hi < v)"
| "handle_value_op (lo, hi) Op_GT v = (lo > v)"
| "handle_value_op (lo, hi) Op_LE v = (hi \<le> v)"
| "handle_value_op (lo, hi) Op_GE v = (lo \<ge> v)"

fun handle_state_op :: "state_type \<Rightarrow> sx_op \<Rightarrow> state_type \<Rightarrow> bool res" where
  "handle_state_op l Op_LT r = st_less_than l r"
| "handle_state_op l Op_LE r = rbind (st_less_than l r) (\<lambda>b. if b then Inr True else st_equal l r)"
| "handle_state_op l Op_GT r = st_less_than r l"
| "handle_state_op l Op_GE r = rbind (st_less_than r l) (\<lambda>b. if b then Inr True else st_equal r l)"
| "handle_state_op l Op_EQ r = st_equal l r"
| "handle_state_op l Op_NE r = rbind (st_equal l r) (\<lambda>b. Inr (\<not> b))"

definition check_contract :: "contract \<Rightarrow> abstract_item \<Rightarrow> bool" where
  "check_contract contract item =
     (case contract of
        ValueCheck op v \<Rightarrow> handle_value_op (it_value item) op v
      | StateCheck _ st \<Rightarrow> \<not> list_ex (\<lambda>ab. same_state_type ab st \<and> \<not> st_check ab) (it_state item))"

text \<open>\<open>SliceFromRawPartsChecker::new\<close>, for a type of \<open>sz\<close> bytes; division by zero panics.\<close>

definition isize_MAX :: nat where
  "isize_MAX = 2 ^ 63 - 1"

definition slice_from_raw_parts_contracts :: "nat \<Rightarrow> (nat \<times> contract list) list res" where
  "slice_from_raw_parts_contracts sz =
     (if sz = 0 then Inl Overflow
      else Inr [(0, [StateCheck Op_GT (St_Align Al_Unaligned)]), (1, [ValueCheck Op_LE (V_Usize (isize_MAX div sz))])])"

end
