(* ===== verification/Fn_Info.thy ===== *)
theory Fn_Info
  imports Mir
begin

section \<open>Facts about functions\<close>

text \<open>
  \<^verbatim>\<open>analysis/utils/fn_info.rs\<close>: what senryx and unsafety isolation ask about a function. The compiler queries behind it
  are the fields of the record \<open>fcx\<close>; so is the table of safety properties of the standard library, a data file the
  sources parse.
\<close>

subsection \<open>The queries\<close>

datatype def_kind = Dk_Fn | Dk_AssocFn | Dk_Other

record assoc_item =
  ai_has_self :: bool
  ai_impl :: "def_id option"

record fcx =
  fc_public :: "def_id \<Rightarrow> bool"
  fc_unsafe :: "def_id \<Rightarrow> bool"
  fc_assoc :: "def_id \<Rightarrow> assoc_item option"
  fc_output :: "def_id \<Rightarrow> ty"
  fc_inputs :: "def_id \<Rightarrow> ty list"
  fc_impl_ty :: "def_id \<Rightarrow> ty"
  fc_ty_str :: "ty \<Rightarrow> string"
  fc_def_str :: "def_id \<Rightarrow> string"
  fc_def_kind :: "def_id \<Rightarrow> def_kind"
  fc_inherent_impls :: "def_id \<Rightarrow> def_id list"
  fc_assoc_items :: "def_id \<Rightarrow> def_id list"
  fc_std_sps :: "string \<Rightarrow> string list option"
  fc_layout :: "def_id \<Rightarrow> ty \<Rightarrow> (nat \<times> nat) option"

subsection \<open>Names\<close>

text \<open>\<open>str::split\<close> on a non-empty separator; the part read so far is kept in reverse.\<close>

function split_go :: "string \<Rightarrow> string \<Rightarrow> string \<Rightarrow> string list" where
  "split_go sep acc [] = [rev acc]"
| "split_go sep acc (c # cs) =
     (if str_prefix sep (c # cs) then rev acc # split_go sep [] (drop (length sep - 1) cs)
      else split_go sep (c # acc) cs)"
  by pat_completeness auto
termination
  by (relation "measure (\<lambda>(_, _, s). length s)") auto

definition str_split :: "string \<Rightarrow> string \<Rightarrow> string list" where
  "str_split sep s = split_go sep [] s"

definition get_struct_name :: "fcx \<Rightarrow> def_id \<Rightarrow> string option" where
  "get_struct_name fcx d =
     (case fc_assoc fcx d of
        Some item \<Rightarrow> (case ai_impl item of
            Some impl_id \<Rightarrow> Some (last (str_split ''::'' (hd (str_split ''<'' (fc_ty_str fcx (fc_impl_ty fcx impl_id))))))
          | None \<Rightarrow> None)
      | None \<Rightarrow> None)"

definition clean_first :: "string \<Rightarrow> string option" where
  "clean_first part =
     (if str_contains part ''core'' then Some ''core''
      else if str_contains part ''std'' then Some ''std''
      else if str_contains part ''alloc'' then Some ''alloc''
      else None)"

definition trim_end :: "char \<Rightarrow> string \<Rightarrow> string" where
  "trim_end c s = rev (dropWhile (\<lambda>x. x = c) (rev s))"

definition get_cleaned_def_path_name :: "fcx \<Rightarrow> def_id \<Rightarrow> string" where
  "get_cleaned_def_path_name fcx d =
     (let parts = str_split ''::'' (fc_def_str fcx d);
          remove_first = (clean_first (hd parts) = None);
          parts = (case clean_first (hd parts) of Some name \<Rightarrow> name # tl parts | None \<Rightarrow> tl parts);
          new_parts = List.map_filter (\<lambda>s.
            if str_contains s ''{'' then if remove_first then get_struct_name fcx d else None
            else Some s) parts
      in trim_end (CHR '')'') (join_with ''::'' new_parts))"

definition get_sp :: "fcx \<Rightarrow> def_id \<Rightarrow> string list" where
  "get_sp fcx d =
     (case fc_std_sps fcx (get_cleaned_def_path_name fcx d) of
        Some sps \<Rightarrow> hs_extend [] sps
      | None \<Rightarrow> [])"

subsection \<open>Kinds of functions\<close>

type_synonym node_type = "def_id \<times> bool \<times> nat"

definition check_visibility :: "fcx \<Rightarrow> def_id \<Rightarrow> bool" where
  "check_visibility fcx d \<longleftrightarrow> fc_public fcx d"

definition check_safety :: "fcx \<Rightarrow> def_id \<Rightarrow> bool" where
  "check_safety fcx d \<longleftrightarrow> fc_unsafe fcx d"

definition is_param :: "nat \<Rightarrow> ty \<Rightarrow> bool" where
  "is_param i t \<longleftrightarrow> (case t of Ty_Param j _ \<Rightarrow> j = i | _ \<Rightarrow> False)"

text \<open>0 for constructors, 1 for methods, 2 for functions.\<close>

definition get_type :: "fcx \<Rightarrow> def_id \<Rightarrow> nat" where
  "get_type fcx d =
     (case fc_assoc fcx d of
        Some item \<Rightarrow>
          if ai_has_self item then 1
          else if is_param 0 (fc_output fcx d) then 0
          else (case ai_impl item of
              Some impl_id \<Rightarrow> if fc_output fcx d = fc_impl_ty fcx impl_id then 0 else 2
            | None \<Rightarrow> 2)
      | None \<Rightarrow> 2)"

definition generate_node_ty :: "fcx \<Rightarrow> def_id \<Rightarrow> node_type" where
  "generate_node_ty fcx d = (d, check_safety fcx d, get_type fcx d)"

definition get_cons :: "fcx \<Rightarrow> def_id \<Rightarrow> node_type list" where
  "get_cons fcx d =
     (if fc_def_kind fcx d = Dk_Fn \<or> get_type fcx d = 0 then []
      else case fc_assoc fcx d of
        Some item \<Rightarrow> (case ai_impl item of
            Some impl_id \<Rightarrow> (case fc_impl_ty fcx impl_id of
                Ty_Adt adt _ \<Rightarrow>
                  [generate_node_ty fcx i. impl_def \<leftarrow> fc_inherent_impls fcx adt, i \<leftarrow> fc_assoc_items fcx impl_def,
                     (fc_def_kind fcx i = Dk_Fn \<or> fc_def_kind fcx i = Dk_AssocFn) \<and> get_type fcx i = 0 \<and>
                       check_visibility fcx i]
              | _ \<Rightarrow> [])
          | None \<Rightarrow> [])
      | None \<Rightarrow> [])"

definition call_target :: "term_kind \<Rightarrow> def_id option" where
  "call_target k =
     (case k of
        Call (Constant c) _ _ _ _ \<Rightarrow> (case c_ty c of Ty_FnDef d _ \<Rightarrow> Some d | _ \<Rightarrow> None)
      | _ \<Rightarrow> None)"

definition get_callees :: "tcx \<Rightarrow> fcx \<Rightarrow> def_id \<Rightarrow> def_id list res" where
  "get_callees tcx fcx d =
     (if mir_available tcx d then
        rfold (\<lambda>bb callees. rbind (unwrap (bb_terminator bb)) (\<lambda>t.
            Inr (case call_target (t_kind t) of
                Some callee \<Rightarrow>
                  if check_safety fcx callee \<and> check_visibility fcx callee \<and> length (get_sp fcx callee) \<noteq> 0
                  then hs_insert callee callees else callees
              | None \<Rightarrow> callees)))
          (basic_blocks (optimized_mir tcx d)) []
      else Inr [])"

fun get_pointee :: "ty \<Rightarrow> ty" where
  "get_pointee (Ty_RawPtr t _) = get_pointee t"
| "get_pointee (Ty_Ref t _) = get_pointee t"
| "get_pointee t = t"

subsection \<open>Properties\<close>

text \<open>Splitting and joining: the parts joined by the separator are the string again.\<close>

lemma split_go_nonempty [simp]: "split_go sep acc s \<noteq> []"
  by (induction sep acc s rule: split_go.induct) auto

lemma join_with_Cons: "xs \<noteq> [] \<Longrightarrow> join_with sep (x # xs) = x @ sep @ join_with sep xs"
  by (cases xs) auto

lemma join_split_go: "sep \<noteq> [] \<Longrightarrow> join_with sep (split_go sep acc s) = rev acc @ s"
proof (induction sep acc s rule: split_go.induct)
  case (2 sep acc c cs)
  show ?case
  proof (cases "str_prefix sep (c # cs)")
    case True
    then obtain t where t: "c # cs = sep @ t" by (auto simp: str_prefix_iff)
    with 2(3) have d: "drop (length sep - 1) cs = t" by (cases sep) auto
    with True have "split_go sep acc (c # cs) = rev acc # split_go sep [] t" by simp
    moreover have "join_with sep (split_go sep [] t) = t" using 2(1) True 2(3) d by simp
    ultimately show ?thesis unfolding t by (simp add: join_with_Cons)
  qed (use 2 in simp)
qed simp

lemma join_str_split: "sep \<noteq> [] \<Longrightarrow> join_with sep (str_split sep s) = s"
  by (simp add: str_split_def join_split_go)


text \<open>The children of a module: whether public, and the definition they resolve to.\<close>

definition is_re_exported :: "(bool \<times> def_id option) list \<Rightarrow> def_id \<Rightarrow> bool" where
  "is_re_exported children target \<longleftrightarrow> list_ex (\<lambda>(public, d). public \<and> d = Some target) children"

text \<open>The items of the crate, with the type an implementation is for if it is a resolved path.\<close>

definition get_impls_for_struct :: "(def_id \<times> def_id option) list \<Rightarrow> def_id \<Rightarrow> def_id list" where
  "get_impls_for_struct items s = map fst (filter (\<lambda>(_, self_ty). self_ty = Some s) items)"

end
