(* ===== verification/Sx_Visitor.thy ===== *)
theory Sx_Visitor
  imports Sd_Check Sx_Contract Fn_Info
begin

section \<open>Senryx: checking the contracts of unsafe calls\<close>

text \<open>
  \<^verbatim>\<open>senryx/visitor.rs\<close>, \<^verbatim>\<open>matcher.rs\<close>, \<^verbatim>\<open>inter_record.rs\<close>, \<^verbatim>\<open>generic_check.rs\<close> and \<^verbatim>\<open>senryx.rs\<close>. A body visitor walks every path
  of the SafeDrop graph of a function, keeps an abstract state per path, and checks the contracts of the unsafe
  functions it knows at their calls. Calls are analysed by a visitor of their own; the fuel bounds that nesting.
\<close>

subsection \<open>The context\<close>

text \<open>The trait bounds in scope of a function, as \<open>GenericChecker::new\<close> reads them: the bounded type, the path of the trait, and for
  every local implementation whether it is a positive \<open>impl\<close> item and the type it is for.\<close>

record trait_bound =
  tb_generic :: string
  tb_trait :: string
  tb_impls :: "(bool \<times> ty option) list"

record sxcx =
  sx_bounds :: "def_id \<Rightarrow> trait_bound list"
  sx_state_order :: "state_type list \<Rightarrow> state_type list"

subsection \<open>The types a parameter may stand for\<close>

text \<open>Width 0 stands for \<open>isize\<close> and \<open>usize\<close>.\<close>

definition pod_types :: "ty list" where
  "pod_types = [Ty_Int 0, Ty_Int 8, Ty_Int 16, Ty_Int 32, Ty_Int 64, Ty_Int 128,
     Ty_Uint 0, Ty_Uint 8, Ty_Uint 16, Ty_Uint 32, Ty_Uint 64, Ty_Uint 128, Ty_Float 32, Ty_Float 64]"

definition impl_satisfied :: "tcx \<Rightarrow> bool \<times> ty option \<Rightarrow> ty list \<Rightarrow> ty list" where
  "impl_satisfied tcx impl tys =
     (case impl of
        (True, Some t) \<Rightarrow> (case t of
            Ty_Adt d _ \<Rightarrow> hs_insert (type_of tcx d) tys
          | Ty_Param _ _ \<Rightarrow> tys
          | _ \<Rightarrow> hs_insert t tys)
      | _ \<Rightarrow> tys)"

definition bound_satisfied :: "tcx \<Rightarrow> trait_bound \<Rightarrow> ty list \<Rightarrow> ty list" where
  "bound_satisfied tcx b tys =
     (let tys = fold (impl_satisfied tcx) (tb_impls b) tys in
      if tb_trait b = ''bytemuck::Pod'' \<or> tb_trait b = ''plain::Plain'' then hs_extend tys pod_types else tys)"

definition std_traits :: "string list" where
  "std_traits = [''std::marker::Copy'', ''std::clone::Clone'', ''std::marker::Sized'']"

definition get_satisfied_ty_map :: "tcx \<Rightarrow> trait_bound list \<Rightarrow> string \<rightharpoonup> ty list" where
  "get_satisfied_ty_map tcx bs name =
     (let mine = filter (\<lambda>b. tb_generic b = name) bs in
      if mine = [] then None
      else if set (map tb_trait mine) \<subseteq> set std_traits then Some []
      else Some (fold (bound_satisfied tcx) mine []))"

subsection \<open>The visitor\<close>

record check_result =
  cr_func_name :: string
  cr_span :: span
  cr_failed :: "(nat \<times> contract) list"
  cr_passed :: "(nat \<times> contract) list"

definition check_result_new :: "string \<Rightarrow> span \<Rightarrow> check_result" where
  "check_result_new name sp = \<lparr>cr_func_name = name, cr_span = sp, cr_failed = [], cr_passed = []\<rparr>"

record inter_record =
  ir_pre :: "abstract_item option list"
  ir_post :: "abstract_item option list"

record sx_visitor =
  bv_def_id :: def_id
  bv_graph :: sd_graph
  bv_states :: "(nat \<times> abstract_state) list"
  bv_report :: "(string \<times> nat) list"
  bv_local_ty :: "nat \<rightharpoonup> place_layout"
  bv_visit_time :: nat
  bv_results :: "check_result list"
  bv_generic :: "string \<rightharpoonup> ty list"
  bv_recorder :: "def_id \<rightharpoonup> inter_record"

definition sx_visitor_new ::
    "tcx \<Rightarrow> sxcx \<Rightarrow> def_id \<Rightarrow> (def_id \<rightharpoonup> inter_record) \<Rightarrow> nat \<Rightarrow> sx_visitor res" where
  "sx_visitor_new tcx sx d recorder visit_time =
     rbind (sd_new (optimized_mir tcx d) tcx d Map.empty) (\<lambda>g.
       Inr \<lparr>bv_def_id = d, bv_graph = g, bv_states = [], bv_report = [], bv_local_ty = Map.empty,
            bv_visit_time = visit_time, bv_results = [], bv_generic = get_satisfied_ty_map tcx (sx_bounds sx d),
            bv_recorder = recorder\<rparr>)"

definition item_same :: "abstract_item option \<Rightarrow> abstract_item option \<Rightarrow> bool" where
  "item_same a b =
     (case (a, b) of
        (Some x, Some y) \<Rightarrow> it_value x = it_value y \<and> it_vtype x = it_vtype y \<and> set (it_state x) = set (it_state y)
      | (None, None) \<Rightarrow> True
      | _ \<Rightarrow> False)"

definition is_pre_state_same :: "inter_record \<Rightarrow> abstract_item option list \<Rightarrow> bool" where
  "is_pre_state_same r other \<longleftrightarrow> list_all2 item_same (ir_pre r) other"

subsection \<open>Places and layouts\<close>

definition get_arg_place :: "operand \<Rightarrow> nat" where
  "get_arg_place op = (case op of Move p \<Rightarrow> p_local p | Copy p \<Rightarrow> p_local p | Constant _ \<Rightarrow> 0)"

definition insert_path_abstate :: "nat \<Rightarrow> nat \<Rightarrow> abstract_item option \<Rightarrow> sx_visitor \<Rightarrow> sx_visitor" where
  "insert_path_abstate path pl item v =
     v\<lparr>bv_states := AList.update path
         (AList.update pl item (case map_of (bv_states v) path of Some st \<Rightarrow> st | None \<Rightarrow> [])) (bv_states v)\<rparr>"

definition get_abstate_by_place_in_path :: "nat \<Rightarrow> nat \<Rightarrow> sx_visitor \<Rightarrow> abstract_item option" where
  "get_abstate_by_place_in_path pl path v =
     (case map_of (bv_states v) path of
        Some st \<Rightarrow> (case map_of st pl of Some item \<Rightarrow> item | None \<Rightarrow> None)
      | None \<Rightarrow> None)"

definition get_layout_by_place_usize :: "nat \<Rightarrow> sx_visitor \<Rightarrow> place_layout res" where
  "get_layout_by_place_usize pl v = unwrap (bv_local_ty v pl)"

definition layout_pair :: "place_layout \<Rightarrow> (nat \<times> nat) set" where
  "layout_pair p = (case p of Pl_Ty align sz \<Rightarrow> {(align, sz)} | _ \<Rightarrow> {})"

fun visit_ty_and_get_layout :: "nat \<Rightarrow> fcx \<Rightarrow> def_id \<Rightarrow> (string \<rightharpoonup> ty list) \<Rightarrow> ty \<Rightarrow> place_layout res" where
  "visit_ty_and_get_layout 0 fcx d gm ty = Inl Diverges"
| "visit_ty_and_get_layout (Suc n) fcx d gm ty =
     (case ty of
        Ty_RawPtr t _ \<Rightarrow> visit_ty_and_get_layout n fcx d gm t
      | Ty_Ref t _ \<Rightarrow> visit_ty_and_get_layout n fcx d gm t
      | Ty_Slice t \<Rightarrow> visit_ty_and_get_layout n fcx d gm t
      | Ty_Array t \<Rightarrow> visit_ty_and_get_layout n fcx d gm t
      | Ty_Param _ name \<Rightarrow>
          rbind (unwrap (gm name)) (\<lambda>ty_set.
            rbind (rfold (\<lambda>t layout_set. rbind (visit_ty_and_get_layout n fcx d gm t) (\<lambda>l. Inr (layout_set \<union> layout_pair l)))
                ty_set {})
              (\<lambda>layout_set. Inr (Pl_Generic name (set ty_set) layout_set)))
      | _ \<Rightarrow> Inr (case fc_layout fcx d ty of Some (align, sz) \<Rightarrow> Pl_Ty align sz | None \<Rightarrow> Pl_Ty 0 0))"

subsection \<open>Statements\<close>

definition sx_project :: "tcx \<Rightarrow> bool \<Rightarrow> place \<Rightarrow> sx_visitor \<Rightarrow> (nat \<times> sx_visitor) res" where
  "sx_project tcx is_right p v =
     rbind (sd_projection tcx is_right p (bv_graph v)) (\<lambda>(i, g). Inr (i, v\<lparr>bv_graph := g\<rparr>))"

definition sx_operand_place :: "operand \<Rightarrow> place option" where
  "sx_operand_place op = (case op of Move p \<Rightarrow> Some p | Copy p \<Rightarrow> Some p | Constant _ \<Rightarrow> None)"

definition cast_source :: "state_type list \<Rightarrow> place_layout \<Rightarrow> place_layout" where
  "cast_source = fold (\<lambda>st src. case st of St_Align (Al_Cast from _) \<Rightarrow> from | _ \<Rightarrow> src)"

definition handle_cast ::
    "nat \<Rightarrow> fcx \<Rightarrow> sxcx \<Rightarrow> nat \<Rightarrow> nat \<Rightarrow> ty \<Rightarrow> nat \<Rightarrow> cast_kind \<Rightarrow> sx_visitor \<Rightarrow> sx_visitor res" where
  "handle_cast ln fcx sx rpjc lpjc ty path kind v =
     rbind (get_layout_by_place_usize rpjc v) (\<lambda>src_ty.
       if kind = Ck_PtrToPtr \<or> kind = Ck_PointerCoercion then
         let src_ty = (case get_abstate_by_place_in_path rpjc path v of
               Some item \<Rightarrow> cast_source (sx_state_order sx (it_state item)) src_ty
             | None \<Rightarrow> src_ty) in
         rbind (visit_ty_and_get_layout ln fcx (bv_def_id v) (bv_generic v) ty) (\<lambda>dst_ty.
           Inr (insert_path_abstate path lpjc
             (Some \<lparr>it_value = (V_None, V_None), it_vtype = Vt_Pointer dst_ty, it_state = [St_Align (Al_Cast src_ty dst_ty)]\<rparr>) v))
       else Inr v)"

definition path_analyze_assign ::
    "nat \<Rightarrow> tcx \<Rightarrow> fcx \<Rightarrow> sxcx \<Rightarrow> place \<Rightarrow> rvalue \<Rightarrow> nat \<Rightarrow> sx_visitor \<Rightarrow> sx_visitor res" where
  "path_analyze_assign ln tcx fcx sx lplace rv path v =
     rbind (sx_project tcx False lplace v) (\<lambda>(lpjc, v).
       case rv of
         Use op \<Rightarrow> (case sx_operand_place op of
             Some rplace \<Rightarrow> rbind (sx_project tcx True rplace v) (\<lambda>(rpjc, v).
               Inr (case map_of (bv_states v) path of
                   Some st \<Rightarrow> (case map_of st rpjc of
                       Some item \<Rightarrow> insert_path_abstate path lpjc item v
                     | None \<Rightarrow> v)
                 | None \<Rightarrow> v))
           | None \<Rightarrow> Inr v)
       | Repeat op \<Rightarrow> (case sx_operand_place op of
             Some rplace \<Rightarrow> rbind (sx_project tcx True rplace v) (\<lambda>(_, v). Inr v)
           | None \<Rightarrow> Inr v)
       | Ref _ rplace \<Rightarrow>
           rbind (sx_project tcx True rplace v) (\<lambda>(rpjc, v).
           rbind (get_layout_by_place_usize rpjc v) (\<lambda>lay.
             Inr (insert_path_abstate path lpjc
               (Some \<lparr>it_value = (V_None, V_None), it_vtype = Vt_Pointer lay, it_state = [St_Align Al_Aligned]\<rparr>) v)))
       | Cast kind op ty \<Rightarrow> (case sx_operand_place op of
             Some rplace \<Rightarrow> rbind (sx_project tcx True rplace v) (\<lambda>(rpjc, v).
               handle_cast ln fcx sx rpjc lpjc ty path kind v)
           | None \<Rightarrow> Inr v)
       | ShallowInitBox op _ \<Rightarrow> (case sx_operand_place op of
             Some rplace \<Rightarrow> rbind (sx_project tcx True rplace v) (\<lambda>(_, v). Inr v)
           | None \<Rightarrow> Inr v)
       | _ \<Rightarrow> Inr v)"

definition path_analyze_statement ::
    "nat \<Rightarrow> tcx \<Rightarrow> fcx \<Rightarrow> sxcx \<Rightarrow> nat \<Rightarrow> statement \<Rightarrow> sx_visitor \<Rightarrow> sx_visitor res" where
  "path_analyze_statement ln tcx fcx sx path st v =
     (case s_kind st of
        Assign lplace rv \<Rightarrow> path_analyze_assign ln tcx fcx sx lplace rv path v
      | CopyNonOverlapping src dst \<Rightarrow> (case (sx_operand_place src, sx_operand_place dst) of
            (Some s, Some d) \<Rightarrow>
              rbind (sx_project tcx True s v) (\<lambda>(_, v). rbind (sx_project tcx True d v) (\<lambda>(_, v). Inr v))
          | _ \<Rightarrow> Inr v)
      | Other_stmt \<Rightarrow> Inr v)"

subsection \<open>Contracts at calls\<close>

text \<open>\<open>process_checker\<close>: the contracts of the argument positions, in the order \<open>order\<close> of the table.\<close>

definition check_argument ::
    "operand list \<Rightarrow> abstract_state \<Rightarrow> nat \<Rightarrow> contract \<Rightarrow> check_result \<Rightarrow> check_result res" where
  "check_argument args st idx c r =
     rbind (at args idx) (\<lambda>arg.
       let arg_place = get_arg_place arg in
       if arg_place = 0 then Inr r
       else case map_of st arg_place of
         Some item \<Rightarrow> rbind (unwrap item) (\<lambda>item.
           Inr (if check_contract c item then r\<lparr>cr_passed := cr_passed r @ [(idx, c)]\<rparr>
                else r\<lparr>cr_failed := cr_failed r @ [(idx, c)]\<rparr>))
       | None \<Rightarrow> Inr r)"

definition process_checker ::
    "tcx \<Rightarrow> (nat \<times> contract list) list \<Rightarrow> operand list \<Rightarrow> abstract_state \<Rightarrow> string \<Rightarrow> span \<Rightarrow> check_result res" where
  "process_checker tcx contracts args st name sp =
     rfold (\<lambda>(idx, cs) r. rfold (check_argument args st idx) cs r) (hm_iter tcx contracts) (check_result_new name sp)"

text \<open>The type parameter of the checker is the type of the compiler's type handle, a reference of eight bytes.\<close>

definition size_of_ty_handle :: nat where
  "size_of_ty_handle = 8"

definition match_unsafe_api_and_check_contracts ::
    "tcx \<Rightarrow> string \<Rightarrow> operand list \<Rightarrow> abstract_state \<Rightarrow> span \<Rightarrow> check_result option res" where
  "match_unsafe_api_and_check_contracts tcx name args st sp =
     (if name = ''core::slice::raw::from_raw_parts'' \<or> name = ''core::slice::raw::from_raw_parts_mut'' then
        rbind (slice_from_raw_parts_contracts size_of_ty_handle) (\<lambda>contracts.
          rbind (process_checker tcx contracts args st name sp) (\<lambda>r. Inr (Some r)))
      else Inr None)"

definition push_check_result :: "check_result \<Rightarrow> sx_visitor \<Rightarrow> sx_visitor" where
  "push_check_result r v =
     (if list_ex (\<lambda>r'. cr_func_name r' = cr_func_name r) (bv_results v) then v
      else v\<lparr>bv_results := bv_results v @ [r]\<rparr>)"

definition check_generic_arg ::
    "tcx \<Rightarrow> string \<Rightarrow> operand list \<Rightarrow> nat \<Rightarrow> span \<Rightarrow> generic_arg \<Rightarrow> sx_visitor \<Rightarrow> sx_visitor res" where
  "check_generic_arg tcx name args path sp a v =
     (case a of
        Ga_Type _ \<Rightarrow>
          rbind (unwrap (map_of (bv_states v) path)) (\<lambda>st.
          rbind (match_unsafe_api_and_check_contracts tcx name args st sp) (\<lambda>r.
            Inr (case r of Some r \<Rightarrow> push_check_result r v | None \<Rightarrow> v)))
      | _ \<Rightarrow> Inr v)"

subsection \<open>Calls\<close>

definition update_post_state ::
    "abstract_item option list \<Rightarrow> operand list \<Rightarrow> nat \<Rightarrow> sx_visitor \<Rightarrow> sx_visitor" where
  "update_post_state post args path v =
     fold (\<lambda>(idx, arg) v.
         if idx < length post then insert_path_abstate path (get_arg_place arg) (post ! idx) v else v)
       (enumerate 0 args) v"

text \<open>\<open>abstract_states_mop\<close>: the meet is computed on a clone of the existing item, which is dropped.\<close>

definition mop_item ::
    "sxcx \<Rightarrow> nat \<times> abstract_item option \<Rightarrow> abstract_state \<Rightarrow> abstract_state" where
  "mop_item sx = (\<lambda>(var_index, state_item) result.
     case map_of result var_index of
       Some existing \<Rightarrow>
         (case (existing, state_item) of
            (Some e, Some s) \<Rightarrow> let dropped = meet_state_item (sx_state_order sx) e s in result
          | _ \<Rightarrow> result)
     | None \<Rightarrow> AList.update var_index state_item result)"

definition abstract_states_mop :: "tcx \<Rightarrow> sxcx \<Rightarrow> sx_visitor \<Rightarrow> abstract_state" where
  "abstract_states_mop tcx sx v =
     fold (\<lambda>(_, st) result. fold (mop_item sx) (hm_iter tcx st) result) (hm_iter tcx (bv_states v)) []"

definition get_args_post_states :: "tcx \<Rightarrow> fcx \<Rightarrow> sxcx \<Rightarrow> sx_visitor \<Rightarrow> abstract_item option list" where
  "get_args_post_states tcx fcx sx v =
     (let final_states = abstract_states_mop tcx sx v in
      map (\<lambda>i. case map_of final_states (i + 1) of Some st \<Rightarrow> st | None \<Rightarrow> None) [0..<length (fc_inputs fcx (bv_def_id v))])"

text \<open>\<open>handle_call\<close>: \<open>analyse\<close> creates the visitor of the callee and runs it. The callee is analysed again even if the
  recorded state fits.\<close>

definition handle_call ::
    "(def_id \<Rightarrow> (def_id \<rightharpoonup> inter_record) \<Rightarrow> nat \<Rightarrow> sx_visitor res) \<Rightarrow> tcx \<Rightarrow> fcx \<Rightarrow> sxcx \<Rightarrow>
      def_id \<Rightarrow> operand list \<Rightarrow> nat \<Rightarrow> sx_visitor \<Rightarrow> sx_visitor res" where
  "handle_call analyse tcx fcx sx callee args path v =
     (if \<not> mir_available tcx callee then Inr v
      else
        let pre = map (\<lambda>arg. get_abstate_by_place_in_path (get_arg_place arg) path v) args;
            v = (case bv_recorder v callee of
                Some record \<Rightarrow> if is_pre_state_same record pre then update_post_state (ir_post record) args path v else v
              | None \<Rightarrow> v)
        in rbind (analyse callee (bv_recorder v) (bv_visit_time v + 1)) (\<lambda>w.
             Inr (v\<lparr>bv_recorder := (bv_recorder v)(callee \<mapsto>
               \<lparr>ir_pre = pre, ir_post = get_args_post_states tcx fcx sx w\<rparr>)\<rparr>)))"

definition path_analyze_terminator ::
    "(def_id \<Rightarrow> (def_id \<rightharpoonup> inter_record) \<Rightarrow> nat \<Rightarrow> sx_visitor res) \<Rightarrow> tcx \<Rightarrow> fcx \<Rightarrow> sxcx \<Rightarrow>
      terminator \<Rightarrow> nat \<Rightarrow> sx_visitor \<Rightarrow> sx_visitor res" where
  "path_analyze_terminator analyse tcx fcx sx t path v =
     (case t_kind t of
        Call func args _ _ _ \<Rightarrow> (case func of
            Constant c \<Rightarrow> (case c_ty c of
                Ty_FnDef callee raw_list \<Rightarrow>
                  rbind (if bv_visit_time v = 0
                         then rfold (check_generic_arg tcx (get_cleaned_def_path_name fcx callee) args path (t_span t)) raw_list v
                         else Inr v)
                    (handle_call analyse tcx fcx sx callee args path)
              | _ \<Rightarrow> Inr v)
          | _ \<Rightarrow> Inr v)
      | _ \<Rightarrow> Inr v)"

subsection \<open>Paths\<close>

definition path_analyze_block ::
    "(def_id \<Rightarrow> (def_id \<rightharpoonup> inter_record) \<Rightarrow> nat \<Rightarrow> sx_visitor res) \<Rightarrow> nat \<Rightarrow> tcx \<Rightarrow> fcx \<Rightarrow> sxcx \<Rightarrow>
      bb_data \<Rightarrow> nat \<Rightarrow> sx_visitor \<Rightarrow> sx_visitor res" where
  "path_analyze_block analyse ln tcx fcx sx block path v =
     rbind (rfold (path_analyze_statement ln tcx fcx sx path) (bb_statements block) v) (\<lambda>v.
     rbind (unwrap (bb_terminator block)) (\<lambda>t. path_analyze_terminator analyse tcx fcx sx t path v))"

definition path_step ::
    "(def_id \<Rightarrow> (def_id \<rightharpoonup> inter_record) \<Rightarrow> nat \<Rightarrow> sx_visitor res) \<Rightarrow> nat \<Rightarrow> tcx \<Rightarrow> fcx \<Rightarrow> sxcx \<Rightarrow>
      bb_data list \<Rightarrow> nat \<Rightarrow> nat \<Rightarrow> sx_visitor \<Rightarrow> sx_visitor res" where
  "path_step analyse ln tcx fcx sx bbs path b v =
     (if b \<ge> length bbs then Inr v
      else
        rbind (path_analyze_block analyse ln tcx fcx sx (bbs ! b) path v) (\<lambda>v.
        rbind (at (g_blocks (bv_graph v)) b) (\<lambda>node.
          rfold (\<lambda>sub v. rbind (at bbs sub) (\<lambda>data. path_analyze_block analyse ln tcx fcx sx data path v))
            (b_scc_sub_blocks node) v)))"

definition get_all_paths :: "tcx \<Rightarrow> sx_visitor \<Rightarrow> (nat list list \<times> sx_visitor) res" where
  "get_all_paths tcx v =
     rbind (sd_solve_scc tcx (bv_graph v)) (\<lambda>g.
     rbind (sd_get_paths (set_order tcx) g) (\<lambda>paths. Inr (paths, v\<lparr>bv_graph := g\<rparr>)))"

definition path_forward_check ::
    "(def_id \<Rightarrow> (def_id \<rightharpoonup> inter_record) \<Rightarrow> nat \<Rightarrow> sx_visitor res) \<Rightarrow> nat \<Rightarrow> tcx \<Rightarrow> fcx \<Rightarrow> sxcx \<Rightarrow>
      sx_visitor \<Rightarrow> sx_visitor res" where
  "path_forward_check analyse ln tcx fcx sx v =
     (let b = optimized_mir tcx (bv_def_id v) in
      rbind (get_all_paths tcx v) (\<lambda>(paths, v).
      rbind (rfold (\<lambda>(idx, t) v.
            rbind (visit_ty_and_get_layout ln fcx (bv_def_id v) (bv_generic v) t) (\<lambda>lay.
              Inr (v\<lparr>bv_local_ty := (bv_local_ty v)(idx \<mapsto> lay)\<rparr>)))
          (enumerate 0 (local_decls b)) v)
        (rfold (\<lambda>(index, path) v.
            rfold (path_step analyse ln tcx fcx sx (basic_blocks b) index) path
              (v\<lparr>bv_states := AList.update index [] (bv_states v)\<rparr>))
          (enumerate 0 paths))))"

text \<open>A visitor of its own for a function, run to the end; the fuel bounds the nesting of calls.\<close>

fun sx_analyse ::
    "nat \<Rightarrow> nat \<Rightarrow> tcx \<Rightarrow> fcx \<Rightarrow> sxcx \<Rightarrow> def_id \<Rightarrow> (def_id \<rightharpoonup> inter_record) \<Rightarrow> nat \<Rightarrow> sx_visitor res" where
  "sx_analyse 0 ln tcx fcx sx d recorder visit_time = Inl Diverges"
| "sx_analyse (Suc n) ln tcx fcx sx d recorder visit_time =
     rbind (sx_visitor_new tcx sx d recorder visit_time)
       (path_forward_check (sx_analyse n ln tcx fcx sx) ln tcx fcx sx)"

subsection \<open>The check of a crate\<close>

datatype check_level = Cl_High | Cl_Medium | Cl_Low

definition filter_by_check_level :: "fcx \<Rightarrow> check_level \<Rightarrow> def_id \<Rightarrow> bool" where
  "filter_by_check_level fcx level d = (case level of Cl_High \<Rightarrow> check_visibility fcx d | _ \<Rightarrow> True)"

text \<open>A method is analysed once after each constructor of its type.\<close>

definition body_visit_and_check ::
    "nat \<Rightarrow> nat \<Rightarrow> tcx \<Rightarrow> fcx \<Rightarrow> sxcx \<Rightarrow> (def_id \<rightharpoonup> inter_record) \<Rightarrow> def_id \<Rightarrow> check_result list res" where
  "body_visit_and_check n ln tcx fcx sx recorder d =
     rbind (sx_visitor_new tcx sx d recorder 0) (\<lambda>v.
     rbind (if get_type fcx d = 1
            then rfold (\<lambda>con v.
                rbind (sx_analyse n ln tcx fcx sx (fst con) recorder 0) (\<lambda>_.
                  path_forward_check (sx_analyse n ln tcx fcx sx) ln tcx fcx sx v))
              (get_cons fcx d) v
            else path_forward_check (sx_analyse n ln tcx fcx sx) ln tcx fcx sx v)
       (\<lambda>v. Inr (bv_results v)))"

text \<open>\<open>start\<close>: \<open>items\<close> are the functions of the crate with the answers of \<open>ContainsUnsafe\<close> about their bodies; the results are
  those it shows.\<close>

definition sx_start ::
    "nat \<Rightarrow> nat \<Rightarrow> tcx \<Rightarrow> fcx \<Rightarrow> sxcx \<Rightarrow> check_level \<Rightarrow> (def_id \<times> bool \<times> bool) list \<Rightarrow> (def_id \<times> check_result list) list res" where
  "sx_start n ln tcx fcx sx level items =
     rfold (\<lambda>(d, function_unsafe, block_unsafe) shown.
         if \<not> filter_by_check_level fcx level d then Inr shown
         else if block_unsafe then
           rbind (body_visit_and_check n ln tcx fcx sx Map.empty d) (\<lambda>rs.
             Inr (if length rs > 0 then shown @ [(d, rs)] else shown))
         else Inr shown)
       items []"

fun get_annotation :: "nat \<Rightarrow> tcx \<Rightarrow> fcx \<Rightarrow> def_id \<Rightarrow> string list res" where
  "get_annotation 0 tcx fcx d = Inl Diverges"
| "get_annotation (Suc n) tcx fcx d =
     (if \<not> mir_available tcx d then Inr []
      else rfold (\<lambda>bb results. rbind (unwrap (bb_terminator bb)) (\<lambda>t.
          case call_target (t_kind t) of
            Some i \<Rightarrow>
              if length (get_sp fcx i) > 0 then Inr (hs_extend results (get_sp fcx i))
              else rbind (get_annotation n tcx fcx i) (\<lambda>r. Inr (hs_extend results r))
          | None \<Rightarrow> Inr results))
        (basic_blocks (optimized_mir tcx d)) [])"

definition update_callee_report_level :: "string \<Rightarrow> nat \<Rightarrow> sx_visitor \<Rightarrow> sx_visitor" where
  "update_callee_report_level callee level v =
     v\<lparr>bv_report := (case map_of (bv_report v) callee of
         Some e \<Rightarrow> if level < e then AList.update callee level (bv_report v) else bv_report v
       | None \<Rightarrow> AList.update callee level (bv_report v))\<rparr>"


text \<open>What \<open>output_results\<close> prints: whether a callee is reported as a bug or as unsound.\<close>

definition output_results :: "nat \<Rightarrow> sx_visitor \<Rightarrow> (string \<times> bool) list" where
  "output_results threshold v =
     List.map_filter (\<lambda>(callee, level).
         if level = 0 then Some (callee, True)
         else if level \<le> threshold then Some (callee, False) else None)
       (bv_report v)"

text \<open>\<open>show_op\<close> is the debug format of an operand.\<close>

definition get_terminator_callee :: "(operand \<Rightarrow> string) \<Rightarrow> terminator \<Rightarrow> string list" where
  "get_terminator_callee show_op t = (case t_kind t of Call func _ _ _ _ \<Rightarrow> [show_op func] | _ \<Rightarrow> [])"

definition get_all_callees :: "(operand \<Rightarrow> string) \<Rightarrow> tcx \<Rightarrow> def_id \<Rightarrow> string list res" where
  "get_all_callees show_op tcx d =
     rfold (\<lambda>bb results. rbind (unwrap (bb_terminator bb)) (\<lambda>t. Inr (results @ get_terminator_callee show_op t)))
       (basic_blocks (optimized_mir tcx d)) []"

end
