(* ===== verification/Sx_Props.thy ===== *)
theory Sx_Props
  imports Sx_Visitor Sd_Merge
begin

section \<open>Properties of senryx\<close>

text \<open>
  The lattices of states, what the alignment contract accepts, which state a call leaves, and where the analysis of a
  function panics or does not come back.
\<close>

subsection \<open>Lattices\<close>

text \<open>The contract of the trait \<open>Lattice\<close> for \<open>join\<close>: least upper bounds of an order.\<close>

locale join_lattice =
  fixes join :: "'a \<Rightarrow> 'a \<Rightarrow> 'a" and le :: "'a \<Rightarrow> 'a \<Rightarrow> bool"
  assumes le_refl: "le a a"
    and le_trans: "le a b \<Longrightarrow> le b c \<Longrightarrow> le a c"
    and le_antisym: "le a b \<Longrightarrow> le b a \<Longrightarrow> a = b"
    and join_le_iff: "le (join a b) c \<longleftrightarrow> le a c \<and> le b c"
begin

lemma join_upper: "le a (join a b)" "le b (join a b)"
  using join_le_iff [of a b "join a b"] le_refl by auto

lemma join_commute: "join a b = join b a"
  by (rule le_antisym) (simp_all add: join_le_iff join_upper)

lemma join_assoc: "join (join a b) c = join a (join b c)"
  by (rule le_antisym) (meson join_le_iff join_upper le_trans)+

lemma join_idem: "join a a = a"
  by (rule le_antisym) (simp_all add: join_le_iff le_refl join_upper)

lemma le_iff_join: "le a b \<longleftrightarrow> join a b = b"
  by (metis join_le_iff join_upper(1) le_antisym le_refl join_upper(2))

end

definition as_le :: "allocated_state \<Rightarrow> allocated_state \<Rightarrow> bool" where
  "as_le a b \<longleftrightarrow> as_less_than a b \<or> as_equal a b"

definition is_le :: "init_state \<Rightarrow> init_state \<Rightarrow> bool" where
  "is_le a b \<longleftrightarrow> is_less_than a b \<or> is_equal a b"

interpretation asl: join_lattice as_join as_le
proof
  fix a b c :: allocated_state
  show "as_le a a" by (simp add: as_le_def as_equal_def)
  show "as_le a b \<Longrightarrow> as_le b c \<Longrightarrow> as_le a c"
    by (cases a; cases b; cases c) (simp_all add: as_le_def as_less_than_def as_equal_def)
  show "as_le a b \<Longrightarrow> as_le b a \<Longrightarrow> a = b"
    by (cases a; cases b) (simp_all add: as_le_def as_less_than_def as_equal_def)
  show "as_le (as_join a b) c \<longleftrightarrow> as_le a c \<and> as_le b c"
    by (cases a; cases b; cases c) (simp_all add: as_le_def as_less_than_def as_equal_def)
qed

interpretation isl: join_lattice is_join is_le
proof
  fix a b c :: init_state
  show "is_le a a" by (simp add: is_le_def is_equal_def)
  show "is_le a b \<Longrightarrow> is_le b c \<Longrightarrow> is_le a c" by (cases a; cases b; cases c) (simp_all add: is_le_def is_equal_def)
  show "is_le a b \<Longrightarrow> is_le b a \<Longrightarrow> a = b" by (cases a; cases b) (simp_all add: is_le_def is_equal_def)
  show "is_le (is_join a b) c \<longleftrightarrow> is_le a c \<and> is_le b c" by (cases a; cases b; cases c) (simp_all add: is_le_def is_equal_def)
qed

interpretation ism: join_lattice is_meet "\<lambda>a b. is_le b a"
proof
  fix a b c :: init_state
  show "is_le a a" by (simp add: is_le_def is_equal_def)
  show "is_le b a \<Longrightarrow> is_le c b \<Longrightarrow> is_le c a" by (cases a; cases b; cases c) (simp_all add: is_le_def is_equal_def)
  show "is_le b a \<Longrightarrow> is_le a b \<Longrightarrow> a = b" by (cases a; cases b) (simp_all add: is_le_def is_equal_def)
  show "is_le c (is_meet a b) \<longleftrightarrow> is_le c a \<and> is_le c b" by (cases a; cases b; cases c) (simp_all add: is_le_def is_equal_def)
qed

text \<open>C23: The operations on allocation states refine a lattice: for the order "less than or equal" of the states, \<open>join\<close> is the least
  upper bound, hence associative, commutative and idempotent. \<open>meet\<close> is the greatest lower bound on every pair of states but
  two: of a moved state with an allocated or with a borrowed one it gives the bottom, although plain allocation is below both
  states of either pair.\<close>

theorem allocated_state_lattice:
  "as_le (as_join a b) c = (as_le a c \<and> as_le b c) \<and> as_join a b = as_join b a \<and>
   as_join (as_join a b) c = as_join a (as_join b c) \<and> as_join a a = a \<and>
   (\<forall>x y. (\<forall>z. as_le z (as_meet x y) \<longleftrightarrow> as_le z x \<and> as_le z y) \<longleftrightarrow>
      {x, y} \<notin> {{As_Alloc, As_Moved}, {As_Borrowed, As_Moved}})"
proof -
  have "(\<forall>z. as_le z (as_meet x y) \<longleftrightarrow> as_le z x \<and> as_le z y) \<longleftrightarrow>
      {x, y} \<notin> {{As_Alloc, As_Moved}, {As_Borrowed, As_Moved}}" for x y
  proof (cases "x = As_Moved \<and> y \<in> {As_Alloc, As_Borrowed} \<or> x \<in> {As_Alloc, As_Borrowed} \<and> y = As_Moved")
    case True
    then have pair: "(x, y) \<in> {(As_Moved, As_Alloc), (As_Moved, As_Borrowed), (As_Alloc, As_Moved), (As_Borrowed, As_Moved)}" by blast
    then have "\<not> as_le As_Alloc (as_meet x y)" "as_le As_Alloc x \<and> as_le As_Alloc y"
      by (elim insertE emptyE; simp add: as_le_def as_less_than_def as_equal_def as_meet_def)+
    moreover have "{x, y} \<in> {{As_Alloc, As_Moved}, {As_Borrowed, As_Moved}}"
      using pair by (elim insertE emptyE) (simp_all add: insert_commute)
    ultimately show ?thesis by blast
  next
    case False
    have "as_le z (as_meet x y) \<longleftrightarrow> as_le z x \<and> as_le z y" for z
      using False by (cases x; cases y; cases z) (simp_all add: as_le_def as_less_than_def as_equal_def as_meet_def)
    moreover have "{x, y} \<notin> {{As_Alloc, As_Moved}, {As_Borrowed, As_Moved}}" using False by (auto simp: doubleton_eq_iff)
    ultimately show ?thesis by blast
  qed
  then show ?thesis by (intro conjI allI asl.join_le_iff asl.join_commute asl.join_assoc asl.join_idem)
qed

subsection \<open>The alignment contract\<close>

text \<open>The alignment contract of \<open>slice::from_raw_parts\<close>, checked on a pointer that was cast from a type of one alignment to a
  type of another, passes if and only if the alignment of the source is at most that of the destination. So the casts that can
  produce a misaligned pointer, to a stricter alignment, are the ones that pass, and harmless ones are reported.\<close>

theorem align_contract_reversed:
  assumes "it_state item = [St_Align (Al_Cast (Pl_Ty a s) (Pl_Ty b t))]"
  shows "check_contract (StateCheck Op_GT (St_Align Al_Unaligned)) item \<longleftrightarrow> a \<le> b"
  using assms by (auto simp: check_contract_def same_state_type_def possible_aligns_def)

theorem align_contract_reversed_witness:
  "check_contract (StateCheck Op_GT (St_Align Al_Unaligned))
     \<lparr>it_value = (V_None, V_None), it_vtype = Vt_Pointer (Pl_Ty 8 8), it_state = [St_Align (Al_Cast (Pl_Ty 1 1) (Pl_Ty 8 8))]\<rparr> \<and>
   \<not> check_contract (StateCheck Op_GT (St_Align Al_Unaligned))
     \<lparr>it_value = (V_None, V_None), it_vtype = Vt_Pointer (Pl_Ty 1 1), it_state = [St_Align (Al_Cast (Pl_Ty 8 8) (Pl_Ty 1 1))]\<rparr>"
  using align_contract_reversed [of
      "\<lparr>it_value = (V_None, V_None), it_vtype = Vt_Pointer (Pl_Ty 8 8), it_state = [St_Align (Al_Cast (Pl_Ty 1 1) (Pl_Ty 8 8))]\<rparr>" 1 1 8 8]
    align_contract_reversed [of
      "\<lparr>it_value = (V_None, V_None), it_vtype = Vt_Pointer (Pl_Ty 1 1), it_state = [St_Align (Al_Cast (Pl_Ty 8 8) (Pl_Ty 1 1))]\<rparr>" 8 8 1 1]
  by simp

subsection \<open>The state a call leaves\<close>

lemma map_of_hm_iter: "enum_order (set_order tcx) \<Longrightarrow> map_of (hm_iter tcx m) = map_of m"
proof
  fix k assume ord: "enum_order (set_order tcx)"
  have "map_of (map (\<lambda>k. (k, the (map_of m k))) ks) k = (if k \<in> set ks then Some (the (map_of m k)) else None)" for ks
    by (induction ks) auto
  from this [of "set_order tcx (map fst m)"] show "map_of (hm_iter tcx m) k = map_of m k"
  proof (cases "map_of m k")
    case None
    then have "k \<notin> set (set_order tcx (map fst m))" by (simp add: enum_orderD [OF ord] map_of_eq_None_iff)
    with \<open>map_of (map (\<lambda>k. (k, the (map_of m k))) (set_order tcx (map fst m))) k = _\<close> None
    show ?thesis by (simp add: hm_iter_def)
  next
    case (Some y)
    then have "k \<in> set (set_order tcx (map fst m))"
      using map_of_eq_None_iff [of m k] by (simp add: enum_orderD [OF ord])
    with \<open>map_of (map (\<lambda>k. (k, the (map_of m k))) (set_order tcx (map fst m))) k = _\<close> Some
    show ?thesis by (simp add: hm_iter_def)
  qed
qed

lemma mop_item_eq: "map_of (mop_item sx x r) = (if map_of r (fst x) = None then (map_of r)(fst x \<mapsto> snd x) else map_of r)"
  by (cases x) (auto simp: mop_item_def update_conv' split: option.splits)

lemma fold_mop_item: "map_of (fold (mop_item sx) xs r) = map_of xs ++ map_of r"
proof (induction xs arbitrary: r)
  case (Cons x xs)
  show ?case
    by (cases x) (auto simp: Cons.IH mop_item_eq map_add_def fun_eq_iff split: option.splits)
qed simp

lemma abstract_states_mop_eq:
  assumes "enum_order (set_order tcx)"
  shows "map_of (abstract_states_mop tcx sx v) = fold (\<lambda>(_, st) m. map_of st ++ m) (hm_iter tcx (bv_states v)) Map.empty"
proof -
  have "map_of (fold (\<lambda>(_, st) result. fold (mop_item sx) (hm_iter tcx st) result) xs r) =
      fold (\<lambda>(_, st) m. map_of st ++ m) xs (map_of r)" for xs :: "(nat \<times> abstract_state) list" and r
    by (induction xs arbitrary: r) (auto simp: fold_mop_item map_of_hm_iter [OF assms])
  from this [of _ "[]"] show ?thesis by (simp add: abstract_states_mop_def)
qed

lemma fold_map_add: "fold (\<lambda>(_, st) m. map_of st ++ m) xs m k = (case m k of Some y \<Rightarrow> Some y | None \<Rightarrow>
    fold (\<lambda>(_, st) m. map_of st ++ m) xs Map.empty k)"
proof (induction xs arbitrary: m)
  case (Cons x xs)
  obtain p st where x: "x = (p, st)" by (cases x)
  have "fold (\<lambda>(_, st) m. map_of st ++ m) xs (map_of st ++ m) k =
      (case (map_of st ++ m) k of Some y \<Rightarrow> Some y | None \<Rightarrow> fold (\<lambda>(_, st) m. map_of st ++ m) xs Map.empty k)"
    by (rule Cons.IH)
  moreover have "fold (\<lambda>(_, st) m. map_of st ++ m) xs (map_of st) k =
      (case map_of st k of Some y \<Rightarrow> Some y | None \<Rightarrow> fold (\<lambda>(_, st) m. map_of st ++ m) xs Map.empty k)"
    by (rule Cons.IH)
  moreover have "(map_of st ++ m) k = (case m k of None \<Rightarrow> map_of st k | Some y \<Rightarrow> Some y)" by (simp add: map_add_def)
  ultimately show ?case by (cases "m k"; cases "map_of st k") (simp_all add: x)
qed (auto split: option.splits)

text \<open>The states of the paths of a function are meant to be met. They are not: the result for a variable is the item of
  the first path, in the order of the table, that has one, whatever the other paths say.\<close>

theorem abstract_states_mop_first_path:
  assumes ord: "enum_order (set_order tcx)" and split: "hm_iter tcx (bv_states v) = xs @ (p, st) # ys"
    and first: "\<forall>(q, s) \<in> set xs. map_of s k = None" and item: "map_of st k = Some item"
  shows "map_of (abstract_states_mop tcx sx v) k = Some item"
proof -
  have "fold (\<lambda>(_, st) m. map_of st ++ m) xs Map.empty k = None"
    using first
  proof (induction xs rule: rev_induct)
    case (snoc x xs)
    then show ?case by (cases x) (simp add: map_add_def)
  qed simp
  then have "(map_of st ++ fold (\<lambda>(_, st) m. map_of st ++ m) xs Map.empty) k = Some item" using item by (simp add: map_add_def)
  then show ?thesis unfolding abstract_states_mop_eq [OF ord] split
    by (simp add: fold_map_add [of ys "map_of st ++ fold (\<lambda>(_, st) m. map_of st ++ m) xs Map.empty"])
qed


definition demo_sx :: sxcx where
  "demo_sx = \<lparr>sx_bounds = (\<lambda>_. []), sx_state_order = (\<lambda>xs. xs)\<rparr>"

definition demo_fcx :: fcx where
  "demo_fcx = \<lparr>fc_public = (\<lambda>_. True), fc_unsafe = (\<lambda>_. False), fc_assoc = Map.empty, fc_output = (\<lambda>_. Ty_Bool),
     fc_inputs = (\<lambda>_. []), fc_impl_ty = (\<lambda>_. Ty_Bool), fc_ty_str = (\<lambda>_. ''ty''), fc_def_str = (\<lambda>_. ''def''),
     fc_def_kind = (\<lambda>_. Dk_Other), fc_inherent_impls = (\<lambda>_. []), fc_assoc_items = (\<lambda>_. []), fc_std_sps = Map.empty,
     fc_layout = (\<lambda>_ _. Some (1, 1))\<rparr>"

definition demo_item :: "align_state \<Rightarrow> abstract_item" where
  "demo_item al = \<lparr>it_value = (V_None, V_None), it_vtype = Vt_Pointer (Pl_Ty 8 8), it_state = [St_Align al]\<rparr>"

definition demo_visitor :: "(nat \<times> abstract_state) list \<Rightarrow> sx_visitor" where
  "demo_visitor sts = \<lparr>bv_def_id = 0, bv_graph = demo_graph [[], []], bv_states = sts, bv_report = [], bv_local_ty = Map.empty,
     bv_visit_time = 0, bv_results = [], bv_generic = Map.empty, bv_recorder = Map.empty\<rparr>"

theorem abstract_states_mop_first_path_witness:
  "map_of (abstract_states_mop demo_tcx demo_sx
     (demo_visitor [(0, []), (1, [(1, Some (demo_item Al_Aligned))]), (2, [(1, Some (demo_item Al_Unaligned))])])) 1 =
   Some (Some (demo_item Al_Aligned))"
  by (rule abstract_states_mop_first_path [where xs = "[(0, [])]" and p = 1 and st = "[(1, Some (demo_item Al_Aligned))]"
      and ys = "[(2, [(1, Some (demo_item Al_Unaligned))])]"])
    (simp_all add: hm_iter_def demo_tcx_def demo_visitor_def)

subsection \<open>Recursive functions\<close>

text \<open>The functions called in the blocks of the paths of a function.\<close>

definition sx_paths :: "tcx \<Rightarrow> def_id \<Rightarrow> nat list list res" where
  "sx_paths tcx d =
     rbind (sd_new (optimized_mir tcx d) tcx d Map.empty) (\<lambda>g.
     rbind (sd_solve_scc tcx g) (sd_get_paths (set_order tcx)))"

definition sx_block_callee :: "tcx \<Rightarrow> def_id \<Rightarrow> nat \<Rightarrow> def_id option" where
  "sx_block_callee tcx d b =
     (let bbs = basic_blocks (optimized_mir tcx d) in
      if b < length bbs then Option.bind (bb_terminator (bbs ! b)) (\<lambda>t. call_target (t_kind t)) else None)"

definition sx_calls :: "tcx \<Rightarrow> def_id \<Rightarrow> def_id list" where
  "sx_calls tcx d =
     (case sx_paths tcx d of Inr paths \<Rightarrow> List.map_filter (sx_block_callee tcx d) (concat paths) | Inl _ \<Rightarrow> [])"

lemma handle_call_analyses:
  "handle_call analyse tcx fcx sx c args path v = Inr w \<Longrightarrow> mir_available tcx c \<Longrightarrow> \<exists>r t u. analyse c r t = Inr u"
  by (auto simp: handle_call_def rbind_Inr_iff Let_def)

lemma terminator_analyses:
  assumes "path_analyze_terminator analyse tcx fcx sx t path v = Inr w" "call_target (t_kind t) = Some c" "mir_available tcx c"
  shows "\<exists>r t u. analyse c r t = Inr u"
proof -
  from assms(2) obtain k args dst tgt uw gs where t: "t_kind t = Call (Constant k) args dst tgt uw" "c_ty k = Ty_FnDef c gs"
    by (auto simp: call_target_def split: term_kind.splits operand.splits ty.splits)
  with assms(1) obtain v' where "handle_call analyse tcx fcx sx c args path v' = Inr w"
    by (auto simp: path_analyze_terminator_def rbind_Inr_iff)
  from handle_call_analyses [OF this assms(3)] show ?thesis .
qed

lemma path_step_analyses:
  assumes "path_step analyse ln tcx fcx sx (basic_blocks (optimized_mir tcx d)) path b v = Inr w"
    and "sx_block_callee tcx d b = Some c" "mir_available tcx c"
  shows "\<exists>r t u. analyse c r t = Inr u"
proof -
  from assms(2) obtain t where b: "b < length (basic_blocks (optimized_mir tcx d))"
      and t: "bb_terminator (basic_blocks (optimized_mir tcx d) ! b) = Some t" "call_target (t_kind t) = Some c"
    by (auto simp: sx_block_callee_def Let_def bind_eq_Some_conv split: if_splits)
  with assms(1) obtain v' w' where "path_analyze_terminator analyse tcx fcx sx t path v' = Inr w'"
    by (auto simp: path_step_def path_analyze_block_def rbind_Inr_iff unwrap_def)
  from terminator_analyses [OF this t(2) assms(3)] show ?thesis .
qed

lemma forward_check_analyses:
  assumes v: "sx_visitor_new tcx sx d r t = Inr v" and run: "path_forward_check analyse ln tcx fcx sx v = Inr w"
    and c: "c \<in> set (sx_calls tcx d)" "mir_available tcx c"
  shows "\<exists>r t u. analyse c r t = Inr u"
proof -
  from c obtain paths path b where p: "sx_paths tcx d = Inr paths" "path \<in> set paths" "b \<in> set path" "sx_block_callee tcx d b = Some c"
    by (cases "sx_paths tcx d") (auto simp: sx_calls_def map_filter_def)
  from v p(1) have "bv_def_id v = d" "\<exists>v'. get_all_paths tcx v = Inr (paths, v')"
    by (auto simp: sx_visitor_new_def sx_paths_def get_all_paths_def rbind_Inr_iff)
  with run obtain v1 v2 where
    "rfold (\<lambda>(index, path) v. rfold (path_step analyse ln tcx fcx sx (basic_blocks (optimized_mir tcx d)) index) path
        (v\<lparr>bv_states := AList.update index [] (bv_states v)\<rparr>)) (enumerate 0 paths) v1 = Inr v2"
    by (auto simp: path_forward_check_def rbind_Inr_iff Let_def)
  moreover obtain i where "i < length paths" "paths ! i = path" using p(2) by (auto simp: in_set_conv_nth)
  then have "(i, path) \<in> set (enumerate 0 paths)" by (auto simp: in_set_enumerate_eq)
  ultimately obtain v3 v4 where
    "rfold (path_step analyse ln tcx fcx sx (basic_blocks (optimized_mir tcx d)) i) path
        (v3\<lparr>bv_states := AList.update i [] (bv_states v3)\<rparr>) = Inr v4"
    by (drule_tac rfold_reaches) auto
  from rfold_reaches [OF this p(3)] path_step_analyses [OF _ p(4) c(2)] show ?thesis by blast
qed

text \<open>C22: A recursive function is never analysed to the end. Let every function of a set \<open>D\<close> have a body and call, in a block
  on one of its paths, a function of \<open>D\<close>. Then for no amount of nesting does the visitor of such a function return, and
  neither does the check of a free function or constructor of \<open>D\<close>: the record of an earlier analysis of the callee is
  used to update the states of the arguments, but the callee is analysed again all the same.\<close>

theorem sx_recursion_never_returns:
  assumes rec: "\<forall>d\<in>D. mir_available tcx d \<and> (\<exists>c\<in>D. c \<in> set (sx_calls tcx d))" and d: "d \<in> D"
  shows "(\<nexists>w. sx_analyse n ln tcx fcx sx d recorder visit_time = Inr w) \<and>
    (get_type fcx d \<noteq> 1 \<longrightarrow> (\<nexists>rs. body_visit_and_check n ln tcx fcx sx recorder d = Inr rs))"
proof -
  have no: "sx_analyse n ln tcx fcx sx d r t \<noteq> Inr w" if "d \<in> D" for n d r t w
    using that
  proof (induction n arbitrary: d r t w)
    case (Suc n)
    from rec Suc.prems obtain c where c: "c \<in> D" "c \<in> set (sx_calls tcx d)" "mir_available tcx c" by blast
    show ?case
    proof
      assume "sx_analyse (Suc n) ln tcx fcx sx d r t = Inr w"
      then obtain v where "sx_visitor_new tcx sx d r t = Inr v"
          "path_forward_check (sx_analyse n ln tcx fcx sx) ln tcx fcx sx v = Inr w" by (auto simp: rbind_Inr_iff)
      from forward_check_analyses [OF this c(2,3)] Suc.IH [OF c(1)] show False by blast
    qed
  qed simp
  from rec d obtain c where c: "c \<in> D" "c \<in> set (sx_calls tcx d)" "mir_available tcx c" by blast
  have "body_visit_and_check n ln tcx fcx sx recorder d \<noteq> Inr rs" if "get_type fcx d \<noteq> 1" for rs
  proof
    assume "body_visit_and_check n ln tcx fcx sx recorder d = Inr rs"
    with that obtain v w where "sx_visitor_new tcx sx d recorder 0 = Inr v"
        "path_forward_check (sx_analyse n ln tcx fcx sx) ln tcx fcx sx v = Inr w"
      by (auto simp: body_visit_and_check_def rbind_Inr_iff)
    from forward_check_analyses [OF this c(2,3)] no [OF c(1)] show False by blast
  qed
  with no d show ?thesis by blast
qed

text \<open>Two functions without a return that call each other.\<close>

definition demo_recursive_tcx :: tcx where
  "demo_recursive_tcx = demo_tcx\<lparr>mir_available := (\<lambda>_. True), optimized_mir := (\<lambda>d.
     \<lparr>local_decls = [Ty_Bool], arg_count = 0, basic_blocks =
        [\<lparr>bb_statements = [], bb_terminator = Some \<lparr>t_kind = Call (Constant \<lparr>c_const = Const_Unevaluated,
             c_ty = Ty_FnDef (1 - d) [], c_target_usize = None, c_text = []\<rparr>) [] \<lparr>p_local = 0, p_projection = []\<rparr> None Uw_Continue,
             t_span = 0\<rparr>, bb_is_cleanup = False\<rparr>], body_span = 0\<rparr>)\<rparr>"


lemma demo_recursive_graph: "\<exists>g. sd_new (optimized_mir demo_recursive_tcx d) demo_recursive_tcx d Map.empty = Inr g \<and> length (g_blocks g) = 1 \<and>
  b_next (g_blocks g ! 0) = [] \<and> g_scc_indices g = [0]" 
  by (simp add: sd_new_def sd_new_block_def demo_recursive_tcx_def demo_tcx_def is_not_drop_def unwrap_def sd_terminator_def ty_drop_flags_def
   add_cleanup_def is_drop_call_def sd_block_new_def numeral_eq_Suc)
lemma single_block_paths:
  assumes g: "length (g_blocks g) = 1"  "b_next (g_blocks g ! 0) = []" "g_scc_indices g = [0]" and o: "set_order tcx [] = []"
  shows "rbind (sd_solve_scc tcx g) (sd_get_paths (set_order tcx)) = Inr [[0]]"
proof -
  obtain b where b: "g_blocks g = [b]" using g(1) by (auto simp: length_Suc_conv)
  with g have n: "b_next b = []" by simp
  show ?thesis
  by (simp add: sd_solve_scc_def solve_scc_def b n g o set_at_def at_def tarjan_scc_def sc_upd_block_def sd_get_paths_def)
qed

theorem sx_recursion_never_returns_witness:
  "\<nexists>w. sx_analyse 1000 5 demo_recursive_tcx demo_fcx demo_sx 0 Map.empty 0 = Inr w"
proof -
  have "sx_calls demo_recursive_tcx d = [1 - d]" for d
  proof -
    obtain g where "sd_new (optimized_mir demo_recursive_tcx d) demo_recursive_tcx d Map.empty = Inr g" "length (g_blocks g) = 1"
      "b_next (g_blocks g ! 0) = []" "g_scc_indices g = [0]" using demo_recursive_graph by blast
    moreover have "set_order demo_recursive_tcx [] = []" by (simp add: demo_recursive_tcx_def demo_tcx_def)
    ultimately have "sx_paths demo_recursive_tcx d = Inr [[0]]" by (simp add: sx_paths_def single_block_paths)
    then show ?thesis
      by (simp add: sx_calls_def sx_block_callee_def map_filter_def demo_recursive_tcx_def call_target_def)
  qed
  then have "\<forall>d\<in>{0, 1}. mir_available demo_recursive_tcx d \<and> (\<exists>c\<in>{0, 1}. c \<in> set (sx_calls demo_recursive_tcx d))"
    by (simp add: demo_recursive_tcx_def)
  from sx_recursion_never_returns [OF this, of 0 1000 5 demo_fcx demo_sx Map.empty 0] show ?thesis by blast
qed


subsection \<open>References to fields\<close>

text \<open>The values made for fields are numbered after the locals.\<close>

definition fields_after :: "nat \<Rightarrow> sd_graph \<Rightarrow> bool" where
  "fields_after n g \<longleftrightarrow> n \<le> length (g_values g) \<and>
     (\<forall>i<length (g_values g). \<forall>k f. field_get k (g_values g ! i) = Some f \<longrightarrow> n \<le> f)"

lemma project_field_after:
  assumes wf: "sd_wf g" and after: "fields_after n g" and y: "y < length (g_values g)"
    and r: "sd_projection tcx True \<lparr>p_local = y, p_projection = [Field k t]\<rparr> g = Inr (i, h)"
  shows "n \<le> i"
proof -
  from r obtain p v h' where p: "p < length (g_values g)" "v = g_values g ! p" "h' = h"
    and h: "(if field_get k v = None then \<exists>need may l. sd_push_field p k ((sd_node_new (length (g_values g)) l need may)
          \<lparr>v_kind := sd_kind tcx t, v_birth := v_birth v, v_field_id := k\<rparr>) (length (g_alias_set g)) g = Inr h'
        else h' = g)" "p < length (g_values h')" "field_get k (g_values h' ! p) = Some i"
    by (fastforce simp: sd_projection_def sd_proj_elem_def Let_def res_iffs split: if_splits)
  show ?thesis
  proof (cases "field_get k v = None")
    case True
    with h p y have "i = length (g_values g)"
      by (auto simp: sd_push_field_def sd_upd_node_def res_iffs nth_append sd_node_new_def)
    with after show ?thesis by (simp add: fields_after_def)
  next
    case False
    with h p after show ?thesis by (auto simp: fields_after_def)
  qed
qed

text \<open>A reference to a field of a local panics the analysis. The table of layouts has the locals of the body only, the
  index of a projected field is that of a value made for it, after the locals, and the lookup is unwrapped. So if the field
  can be projected at all, the assignment \<open>x = &y.k\<close> ends in that panic.\<close>

theorem field_reference_panics:
  assumes wf: "sd_wf (bv_graph v)" and after: "fields_after n (bv_graph v)" and locals: "dom (bv_local_ty v) \<subseteq> {..<n}"
    and y: "y < length (g_values (bv_graph v))" and t: "ok (\<lambda>_. True) (is_not_drop tcx t)"
  shows "path_analyze_assign ln tcx fcx sx \<lparr>p_local = x, p_projection = []\<rparr> (Ref bk \<lparr>p_local = y, p_projection = [Field k t]\<rparr>) path v =
    Inl Unwrap_none"
proof -
  obtain i h where r: "sd_projection tcx True \<lparr>p_local = y, p_projection = [Field k t]\<rparr> (bv_graph v) = Inr (i, h)"
    using sd_projection_ok [OF wf, of "\<lparr>p_local = y, p_projection = [Field k t]\<rparr>" tcx True] y t
    by (auto simp: place_tys_ok_def ok_def)
  from project_field_after [OF wf after y r] locals have "bv_local_ty v i = None" by (meson domIff lessThan_iff linorder_not_le subsetD)
  moreover have "sx_project tcx False \<lparr>p_local = x, p_projection = []\<rparr> v = Inr (x, v)" by (simp add: sx_project_def sd_projection_def)
  moreover have "sx_project tcx True \<lparr>p_local = y, p_projection = [Field k t]\<rparr> v = Inr (i, v\<lparr>bv_graph := h\<rparr>)" by (simp add: sx_project_def r)
  ultimately show ?thesis by (simp add: path_analyze_assign_def get_layout_by_place_usize_def unwrap_def)
qed


theorem field_reference_panics_witness:
  "path_analyze_assign 5 demo_tcx demo_fcx demo_sx \<lparr>p_local = 0, p_projection = []\<rparr>
     (Ref Bk_Shared \<lparr>p_local = 1, p_projection = [Field 0 Ty_Bool]\<rparr>) 0
     ((demo_visitor [])\<lparr>bv_local_ty := [0 \<mapsto> Pl_Ty 8 8, 1 \<mapsto> Pl_Ty 4 4]\<rparr>) = Inl Unwrap_none"
  by (rule field_reference_panics [where n = 2])
    (auto simp: demo_visitor_def demo_graph_wf demo_graph_values fields_after_def field_get_def less_Suc_eq)

end
