(* ===== verification/Rc_Solver.thy ===== *)
theory Rc_Solver
  imports Rc_Context
begin

section \<open>rCanary: the terms handed to the solver\<close>

text \<open>
  The leak analysis builds bit-vector terms with the Z3 bindings and asserts equations between them. A term is
  represented by the calls that build it (\<open>BV::new_const\<close>, \<open>BV::from_u64\<close>, \<open>bvand\<close>, \<open>extract\<close>, \<open>concat\<close>, \<open>sign_ext\<close>, \<open>bvredor\<close>), a formula
  likewise. Of the library the sources rely on two documented facts: \<open>_safe_eq\<close> is an error, which the callers unwrap, if the
  widths of the two sides differ, and the operations mean what SMT-LIB defines, which \<open>bv_eval\<close> states. The answer of
  \<open>Solver::check\<close> is a parameter of the analysis.
\<close>

subsection \<open>Terms and formulas\<close>

datatype bv =
    Bv_Const string nat
  | Bv_Num nat nat
  | Bv_And bv bv
  | Bv_Extract nat nat bv
  | Bv_Concat bv bv
  | Bv_Sign_Ext nat bv
  | Bv_Redor bv

datatype formula =
    F_Eq bv bv
  | F_And "formula list"
  | F_Or "formula list"
  | F_Name string

datatype sat_result = Sat | Unsat | Unknown

fun bv_width :: "bv \<Rightarrow> nat" where
  "bv_width (Bv_Const _ w) = w"
| "bv_width (Bv_Num _ w) = w"
| "bv_width (Bv_And a _) = bv_width a"
| "bv_width (Bv_Extract hi lo _) = hi + 1 - lo"
| "bv_width (Bv_Concat a b) = bv_width a + bv_width b"
| "bv_width (Bv_Sign_Ext n a) = bv_width a + n"
| "bv_width (Bv_Redor _) = 1"

text \<open>\<open>a._safe_eq(b).unwrap()\<close>, and \<open>a._eq(b)\<close>, which is the same.\<close>

definition safe_eq :: "bv \<Rightarrow> bv \<Rightarrow> formula res" where
  "safe_eq a b = (if bv_width a = bv_width b then Inr (F_Eq a b) else Inl Unwrap_none)"

subsection \<open>Their meaning\<close>

text \<open>A value is the list of its bits, the lowest first. An assignment gives the bits of the constants, which Z3 identifies by
  name and width.\<close>

type_synonym assignment_bits = "string \<Rightarrow> nat \<Rightarrow> nat \<Rightarrow> bool"

fun bv_eval :: "assignment_bits \<Rightarrow> bv \<Rightarrow> bool list" where
  "bv_eval e (Bv_Const name w) = map (e name w) [0..<w]"
| "bv_eval e (Bv_Num v w) = map (\<lambda>i. odd (v div 2 ^ i)) [0..<w]"
| "bv_eval e (Bv_And a b) = map2 (\<and>) (bv_eval e a) (bv_eval e b)"
| "bv_eval e (Bv_Extract hi lo a) = take (hi + 1 - lo) (drop lo (bv_eval e a))"
| "bv_eval e (Bv_Concat a b) = bv_eval e b @ bv_eval e a"
| "bv_eval e (Bv_Sign_Ext n a) = bv_eval e a @ replicate n (last (bv_eval e a))"
| "bv_eval e (Bv_Redor a) = [list_ex id (bv_eval e a)]"

fun holds :: "assignment_bits \<Rightarrow> (string \<Rightarrow> bool) \<Rightarrow> formula \<Rightarrow> bool" where
  "holds e p (F_Eq a b) \<longleftrightarrow> bv_eval e a = bv_eval e b"
| "holds e p (F_And fs) \<longleftrightarrow> (\<forall>f \<in> set fs. holds e p f)"
| "holds e p (F_Or fs) \<longleftrightarrow> (\<exists>f \<in> set fs. holds e p f)"
| "holds e p (F_Name name) \<longleftrightarrow> p name"

text \<open>Terms whose operands have the widths the operations ask for; on them the value has the width of the term.\<close>

fun bv_ok :: "bv \<Rightarrow> bool" where
  "bv_ok (Bv_Const _ _) = True"
| "bv_ok (Bv_Num _ _) = True"
| "bv_ok (Bv_And a b) \<longleftrightarrow> bv_ok a \<and> bv_ok b \<and> bv_width a = bv_width b"
| "bv_ok (Bv_Extract hi lo a) \<longleftrightarrow> bv_ok a \<and> lo \<le> hi \<and> hi < bv_width a"
| "bv_ok (Bv_Concat a b) \<longleftrightarrow> bv_ok a \<and> bv_ok b"
| "bv_ok (Bv_Sign_Ext _ a) \<longleftrightarrow> bv_ok a"
| "bv_ok (Bv_Redor a) \<longleftrightarrow> bv_ok a"

lemma length_bv_eval: "bv_ok t \<Longrightarrow> length (bv_eval e t) = bv_width t"
  by (induction t) auto

lemma bv_eval_zero: "bv_eval e (Bv_Num 0 w) = replicate w False"
  by (simp add: map_replicate_const)

lemma safe_eq_Inr: "safe_eq a b = Inr f \<longleftrightarrow> bv_width a = bv_width b \<and> f = F_Eq a b"
  by (auto simp: safe_eq_def)

subsection \<open>Bit vectors of the analysis itself\<close>

type_synonym rust_bv = "bool list"

fun ownership_layout_to_rustbv :: "raw_type_owner list \<Rightarrow> rust_bv" where
  "ownership_layout_to_rustbv [] = []"
| "ownership_layout_to_rustbv (Uninit # r) = ownership_layout_to_rustbv r"
| "ownership_layout_to_rustbv (Unowned # r) = False # ownership_layout_to_rustbv r"
| "ownership_layout_to_rustbv (Owned # r) = True # ownership_layout_to_rustbv r"

fun reverse_ownership_layout_to_rustbv :: "raw_type_owner list \<Rightarrow> rust_bv" where
  "reverse_ownership_layout_to_rustbv [] = []"
| "reverse_ownership_layout_to_rustbv (Uninit # r) = reverse_ownership_layout_to_rustbv r"
| "reverse_ownership_layout_to_rustbv (Unowned # r) = True # reverse_ownership_layout_to_rustbv r"
| "reverse_ownership_layout_to_rustbv (Owned # r) = False # reverse_ownership_layout_to_rustbv r"

text \<open>\<open>rustbv_merge\<close>; the assertion on the lengths is a panic.\<close>

definition rustbv_merge :: "rust_bv \<Rightarrow> rust_bv \<Rightarrow> rust_bv res" where
  "rustbv_merge a b = (if length a \<noteq> length b then Inl Unreachable_code else Inr (map2 (\<or>) a b))"

text \<open>\<open>rustbv_to_int\<close> on \<open>u64\<close>, with checked arithmetic.\<close>

definition u64_checked :: "nat \<Rightarrow> nat res" where
  "u64_checked n = (if n < 2 ^ 64 then Inr n else Inl Overflow)"

definition rustbv_to_int :: "rust_bv \<Rightarrow> nat res" where
  "rustbv_to_int bv =
     rbind (rfold (\<lambda>tf (ans, base).
         rbind (u64_checked (base * (if tf then 1 else 0))) (\<lambda>x.
         rbind (u64_checked (ans + x)) (\<lambda>ans.
         rbind (u64_checked (base * 2)) (\<lambda>base. Inr (ans, base)))))
       bv (0, 1))
     (\<lambda>(ans, _). Inr ans)"

end
