(* ===== verification/Rc_Intra.thy ===== *)
theory Rc_Intra
  imports Rc_Solver Rc_Order
begin

section \<open>rCanary: constraints of a function\<close>

text \<open>
  \<^verbatim>\<open>rcanary/ranalyzer/intra_visitor.rs\<close>: every local that can own heap memory has a bit vector with one bit per component, set if
  that component is owned. Each statement makes new vectors for the locals it touches, named after the block, the statement
  and the local, and asserts how they follow from the old ones; at a return all locals have to be freed. If no assignment
  satisfies that, and ownership went into a raw pointer somewhere, a leak is reported.
\<close>

subsection \<open>State\<close>

text \<open>What does not change during the analysis of a function: the ownership table, the function, its body and graph, whether a
  type is a function pointer, the solver, and the order in which sets of taints are listed.\<close>

record rc_env =
  re_owner :: adt_owner
  re_did :: def_id
  re_body :: body
  re_graph :: rc_graph
  re_fn_ptr :: "ty \<Rightarrow> bool"
  re_check :: "formula list \<Rightarrow> sat_result"
  re_order :: "taint \<Rightarrow> taint"

record rc_state =
  rs_icx :: "bv icx"
  rs_slice :: "bv icx_slice"
  rs_goal :: "formula list"
  rs_solver :: "formula list"
  rs_taint_flag :: bool
  rs_taint_source :: "terminator list"
  rs_reports :: "terminator list list"

definition rc_intra_new :: "body \<Rightarrow> rc_state" where
  "rc_intra_new b =
     \<lparr>rs_icx = icx_new (length (basic_blocks b)) (length (local_decls b)),
      rs_slice = icx_slice_new_for_block_0 (length (local_decls b)), rs_goal = [], rs_solver = [],
      rs_taint_flag = False, rs_taint_source = [], rs_reports = []\<rparr>"

definition rc_assert :: "formula \<Rightarrow> rc_state \<Rightarrow> rc_state" where
  "rc_assert f s = s\<lparr>rs_goal := rs_goal s @ [f], rs_solver := rs_solver s @ [f]\<rparr>"

definition var_at :: "nat \<Rightarrow> rc_state \<Rightarrow> bv intra_var res" where
  "var_at u s = at (sl_var (rs_slice s)) u"

definition len_at :: "nat \<Rightarrow> rc_state \<Rightarrow> nat res" where
  "len_at u s = at (sl_len (rs_slice s)) u"

definition bv_at :: "nat \<Rightarrow> rc_state \<Rightarrow> bv res" where
  "bv_at u s = rbind (var_at u s) iv_extract"

definition set_var :: "nat \<Rightarrow> bv intra_var \<Rightarrow> rc_state \<Rightarrow> rc_state res" where
  "set_var u v s = rbind (set_at (sl_var (rs_slice s)) u v) (\<lambda>xs. Inr (s\<lparr>rs_slice := (rs_slice s)\<lparr>sl_var := xs\<rparr>\<rparr>))"

definition set_len :: "nat \<Rightarrow> nat \<Rightarrow> rc_state \<Rightarrow> rc_state res" where
  "set_len u n s = rbind (set_at (sl_len (rs_slice s)) u n) (\<lambda>xs. Inr (s\<lparr>rs_slice := (rs_slice s)\<lparr>sl_len := xs\<rparr>\<rparr>))"

definition set_ty :: "nat \<Rightarrow> indexed_ty \<Rightarrow> rc_state \<Rightarrow> rc_state res" where
  "set_ty u t s = rbind (set_at (sl_ty (rs_slice s)) u t) (\<lambda>xs. Inr (s\<lparr>rs_slice := (rs_slice s)\<lparr>sl_ty := xs\<rparr>\<rparr>))"

definition set_layout :: "nat \<Rightarrow> raw_type_owner list \<Rightarrow> rc_state \<Rightarrow> rc_state res" where
  "set_layout u l s = rbind (set_at (sl_layout (rs_slice s)) u l) (\<lambda>xs. Inr (s\<lparr>rs_slice := (rs_slice s)\<lparr>sl_layout := xs\<rparr>\<rparr>))"

definition set_taint :: "nat \<Rightarrow> taint \<Rightarrow> rc_state \<Rightarrow> rc_state res" where
  "set_taint u t s = rbind (set_at (sl_taint (rs_slice s)) u t) (\<lambda>xs. Inr (s\<lparr>rs_slice := (rs_slice s)\<lparr>sl_taint := xs\<rparr>\<rparr>))"

definition handle_intra_var_unsupported :: "nat \<Rightarrow> rc_state \<Rightarrow> rc_state res" where
  "handle_intra_var_unsupported idx s =
     rbind (var_at idx s) (\<lambda>v. case v of
         Var_Unsupported \<Rightarrow> Inr s
       | _ \<Rightarrow> rbind (set_var idx Var_Unsupported s) (set_len idx 0))"

definition handle_taint :: "rc_env \<Rightarrow> nat \<Rightarrow> nat \<Rightarrow> rc_state \<Rightarrow> rc_state res" where
  "handle_taint env l r s =
     rbind (at (sl_taint (rs_slice s)) r) (\<lambda>tr.
       if is_untainted tr then Inr s
       else rbind (at (sl_taint (rs_slice s)) l) (\<lambda>tl.
         set_taint l (if is_untainted tl then tr else fold taint_insert (re_order env tr) tl) s))"

subsection \<open>Types and projections\<close>

definition rc_place_ty :: "tcx \<Rightarrow> rc_env \<Rightarrow> place \<Rightarrow> ty \<times> nat option" where
  "rc_place_ty tcx env p = place_ty tcx (re_did env) p"

definition is_any_ptr :: "rc_env \<Rightarrow> ty \<Rightarrow> bool" where
  "is_any_ptr env t = (case t of Ty_RawPtr _ _ \<Rightarrow> True | Ty_Ref _ _ \<Rightarrow> True | _ \<Rightarrow> re_fn_ptr env t)"

definition is_place_containing_ptr :: "rc_env \<Rightarrow> ty \<Rightarrow> bool" where
  "is_place_containing_ptr env t =
     (case t of
        Ty_Tuple ts \<Rightarrow> list_ex (is_any_ptr env) ts
      | Ty_RawPtr _ _ \<Rightarrow> True
      | Ty_Ref _ _ \<Rightarrow> True
      | _ \<Rightarrow> False)"

text \<open>\<open>extract_default_ty_layout\<close> has the text of \<open>Encoder::encode\<close>.\<close>

definition extract_default_ty_layout :: "tcx \<Rightarrow> rc_env \<Rightarrow> ty \<times> nat option \<Rightarrow> layout_result res" where
  "extract_default_ty_layout tcx env t = encode tcx (re_owner env) (fst t) (snd t)"

definition no_layout :: "layout_result \<Rightarrow> bool" where
  "no_layout l \<longleftrightarrow> \<not> lay_requirement l \<or> lay_layout l = []"

definition generate_ptr_layout :: "tcx \<Rightarrow> rc_env \<Rightarrow> ty \<times> nat option \<Rightarrow> rust_bv res" where
  "generate_ptr_layout tcx env t =
     (case fst t of
        Ty_Array _ \<Rightarrow> Inr [False]
      | Ty_Tuple ts \<Rightarrow> Inr (map (is_any_ptr env) ts)
      | Ty_Adt d substs \<Rightarrow>
          if adt_kind_of tcx d = Adt_Enum \<and> snd t = None then Inr []
          else if adt_kind_of tcx d = Adt_Struct \<or> adt_kind_of tcx d = Adt_Union
          then Inr (map (\<lambda>_. False) (adt_all_fields tcx d substs))
          else rbind (unwrap (snd t)) (\<lambda>vidx. rbind (at (adt_variants tcx d substs) vidx)
            (\<lambda>vfields. Inr (map (\<lambda>_. False) vfields)))
      | Ty_Param _ _ \<Rightarrow> Inr [False]
      | Ty_RawPtr _ _ \<Rightarrow> Inr [True]
      | Ty_Ref _ _ \<Rightarrow> Inr [True]
      | _ \<Rightarrow> Inr [])"

record projection_support =
  ps_fields :: "(nat \<times> ty) list"
  ps_deref :: bool
  ps_downcast :: "nat option"
  ps_unsupport :: bool

definition projection_support_default :: projection_support where
  "projection_support_default = \<lparr>ps_fields = [], ps_deref = False, ps_downcast = None, ps_unsupport = False\<rparr>"

definition has_field :: "projection_support \<Rightarrow> bool" where
  "has_field p \<longleftrightarrow> ps_fields p \<noteq> []"

definition has_downcast :: "projection_support \<Rightarrow> bool" where
  "has_downcast p \<longleftrightarrow> ps_downcast p \<noteq> None"

definition index_needed :: "projection_support \<Rightarrow> nat res" where
  "index_needed p = rbind (at (ps_fields p) 0) (\<lambda>f. Inr (fst f))"

fun extract_projection_loop :: "nat \<Rightarrow> proj_elem list \<Rightarrow> projection_support \<Rightarrow> projection_support" where
  "extract_projection_loop idx [] prj = prj"
| "extract_projection_loop idx (e # es) prj =
     (case e of
        Field field t \<Rightarrow>
          let prj = prj\<lparr>ps_fields := ps_fields prj @ [(field, t)]\<rparr> in
          if length (ps_fields prj) > 1 \<or> ps_deref prj then prj\<lparr>ps_unsupport := True\<rparr>
          else extract_projection_loop (idx + 1) es prj
      | Deref \<Rightarrow>
          let prj = prj\<lparr>ps_deref := True\<rparr> in
          if idx > 0 then prj\<lparr>ps_unsupport := True\<rparr> else extract_projection_loop (idx + 1) es prj
      | Downcast _ vidx \<Rightarrow>
          let prj = prj\<lparr>ps_downcast := Some vidx\<rparr> in
          if idx > 0 then prj\<lparr>ps_unsupport := True\<rparr> else extract_projection_loop (idx + 1) es prj
      | _ \<Rightarrow> prj\<lparr>ps_unsupport := True\<rparr>)"

definition extract_projection :: "tcx \<Rightarrow> rc_env \<Rightarrow> place \<Rightarrow> nat option \<Rightarrow> projection_support" where
  "extract_projection tcx env p aggre =
     (case aggre of
        Some fidx \<Rightarrow> projection_support_default\<lparr>ps_fields := [(fidx, fst (rc_place_ty tcx env p))]\<rparr>
      | None \<Rightarrow> extract_projection_loop 0 (p_projection p) projection_support_default)"

definition has_projection :: "place \<Rightarrow> bool" where
  "has_projection p \<longleftrightarrow> length (p_projection p) > 0"

definition new_local_name :: "nat \<Rightarrow> nat \<Rightarrow> nat \<Rightarrow> string" where
  "new_local_name local bidx sidx = nat_to_string bidx @ ''_'' @ nat_to_string sidx @ ''_'' @ nat_to_string local"


subsection \<open>Parts the assignments have in common\<close>

definition both_unsupported :: "nat \<Rightarrow> nat \<Rightarrow> rc_state \<Rightarrow> rc_state res" where
  "both_unsupported lu ru s = rbind (handle_intra_var_unsupported lu s) (handle_intra_var_unsupported ru)"

text \<open>The first lines of every handler: an unsupported side makes both unsupported, an uninitialised right side ends it.\<close>

definition rc_guarded :: "nat \<Rightarrow> nat \<Rightarrow> rc_state \<Rightarrow> (rc_state \<Rightarrow> rc_state res) \<Rightarrow> rc_state res" where
  "rc_guarded lu ru s k =
     rbind (var_at lu s) (\<lambda>lv. rbind (var_at ru s) (\<lambda>rv.
       if iv_is_unsupported lv \<or> iv_is_unsupported rv then both_unsupported lu ru s
       else if \<not> iv_is_init rv then Inr s
       else k s))"

text \<open>The old value of the left side is required to own nothing.\<close>

definition assert_zero :: "bv \<Rightarrow> nat \<Rightarrow> rc_state \<Rightarrow> rc_state res" where
  "assert_zero b len s = rbind (safe_eq b (Bv_Num 0 len)) (\<lambda>f. Inr (rc_assert f s))"

text \<open>The left side of an assignment to a whole local: either its old value is cleared, or this is its constructor and
  \<open>init\<close> records its type and layout; \<open>k\<close> is told which.\<close>

definition dest_local ::
    "tcx \<Rightarrow> rc_env \<Rightarrow> nat \<Rightarrow> nat \<Rightarrow> place \<Rightarrow> (rc_state \<Rightarrow> bool res) \<Rightarrow> (indexed_ty \<Rightarrow> rc_state \<Rightarrow> rc_state res) \<Rightarrow>
      rc_state \<Rightarrow> (bool \<Rightarrow> rc_state \<Rightarrow> rc_state res) \<Rightarrow> rc_state res" where
  "dest_local tcx env lu ru rplace same init s k =
     rbind (var_at lu s) (\<lambda>lv.
       if iv_is_init lv then
         rbind (same s) (\<lambda>eq.
           if \<not> eq then both_unsupported lu ru s
           else rbind (iv_extract lv) (\<lambda>l_ori. rbind (len_at lu s) (\<lambda>llen.
                  rbind (assert_zero l_ori llen s) (k False))))
       else
         rbind (indexed_ty_new tcx (fst (rc_place_ty tcx env rplace)) (snd (rc_place_ty tcx env rplace))) (\<lambda>t.
           if get_priority t = 0 then both_unsupported lu ru s
           else if get_priority t = 1 then Inr s
           else rbind (init t s) (k True)))"

definition asgn_name :: "bool \<Rightarrow> nat \<Rightarrow> nat \<Rightarrow> nat \<Rightarrow> string" where
  "asgn_name is_ctor lu bidx sidx =
     (if is_ctor then new_local_name lu bidx sidx @ ''_ctor_asgn'' else new_local_name lu bidx sidx)"

definition asgn_done :: "rc_env \<Rightarrow> nat \<Rightarrow> nat \<Rightarrow> bv \<Rightarrow> bv \<Rightarrow> rc_state \<Rightarrow> rc_state res" where
  "asgn_done env lu ru l_new r_new s =
     rbind (set_var lu (Var_Init l_new) s) (\<lambda>s. rbind (set_var ru (Var_Init r_new) s) (handle_taint env lu ru))"

text \<open>All bits but that of one field.\<close>

definition field_mask :: "nat \<Rightarrow> nat \<Rightarrow> bv res" where
  "field_mask len idx =
     rbind (set_at (replicate len True) idx False) (\<lambda>m. rbind (rustbv_to_int m) (\<lambda>i. Inr (Bv_Num i len)))"

text \<open>A vector with the bit of one field replaced: \<open>llen - 1\<close> is checked.\<close>

definition bv_splice :: "bv \<Rightarrow> nat \<Rightarrow> nat \<Rightarrow> bv \<Rightarrow> bv res" where
  "bv_splice l_ori llen idx mid =
     (if llen = 0 then Inl Overflow
      else
        let fin = (if idx < llen - 1 then Bv_Concat (Bv_Extract (llen - 1) (idx + 1) l_ori) mid else mid) in
        Inr (if idx > 0 then Bv_Concat fin (Bv_Extract (idx - 1) 0 l_ori) else fin))"

text \<open>The bit of a field, repeated and restricted to what the type of the field can own.\<close>

definition extend_field ::
    "tcx \<Rightarrow> rc_env \<Rightarrow> nat \<Rightarrow> ty \<times> nat option \<Rightarrow> layout_result \<Rightarrow> bv \<Rightarrow> nat \<Rightarrow> nat \<Rightarrow> rc_state \<Rightarrow> bv res" where
  "extend_field tcx env ru rpj_ty lay r_ori idx llen s =
     rbind (at (sl_taint (rs_slice s)) ru) (\<lambda>tr.
     rbind (if is_tainted tr
            then rbind (generate_ptr_layout tcx env rpj_ty) (rustbv_merge (ownership_layout_to_rustbv (lay_layout lay)))
            else Inr (ownership_layout_to_rustbv (lay_layout lay))) (\<lambda>m.
     rbind (rustbv_to_int m) (\<lambda>i.
       let field = Bv_Extract idx idx r_ori;
           rep = (if llen > 1 then Bv_Sign_Ext (llen - 1) field else field)
       in Inr (Bv_And (Bv_Num i llen) rep))))"

text \<open>The left side of an assignment to a field: the bit of the field is cleared before, unless the local is an argument, or
  this constructs the local, which owns nothing then; \<open>k\<close> is given the old vector.\<close>

definition dest_field ::
    "tcx \<Rightarrow> rc_env \<Rightarrow> nat \<Rightarrow> nat \<Rightarrow> nat \<Rightarrow> ty \<Rightarrow> nat option \<Rightarrow> layout_result \<Rightarrow> nat \<Rightarrow> nat \<Rightarrow>
      rc_state \<Rightarrow> (bv \<Rightarrow> rc_state \<Rightarrow> rc_state res) \<Rightarrow> rc_state res" where
  "dest_field tcx env lu idx llen l_local_ty disc lay bidx sidx s k =
     rbind (var_at lu s) (\<lambda>lv.
       if iv_is_init lv then
         rbind (iv_extract lv) (\<lambda>l_ori.
           if lu > arg_count (re_body env)
           then rbind (assert_zero (Bv_Extract idx idx l_ori) 1 s) (k l_ori)
           else k l_ori s)
       else
         rbind (assert_zero (Bv_Const (new_local_name lu bidx sidx @ ''_ctor_asgn'') llen) llen s) (\<lambda>s.
         rbind (indexed_ty_new tcx l_local_ty disc) (\<lambda>t.
         rbind (set_ty lu t s) (\<lambda>s.
         rbind (set_layout lu (lay_layout lay) s) (k (Bv_Num 0 llen))))))"

subsection \<open>Assignments between locals\<close>

definition same_ty :: "nat \<Rightarrow> nat \<Rightarrow> rc_state \<Rightarrow> bool res" where
  "same_ty lu ru s = rbind (at (sl_ty (rs_slice s)) lu) (\<lambda>l. rbind (at (sl_ty (rs_slice s)) ru) (\<lambda>r. Inr (l = r)))"

definition like_right :: "nat \<Rightarrow> nat \<Rightarrow> indexed_ty \<Rightarrow> rc_state \<Rightarrow> rc_state res" where
  "like_right lu ru _ s =
     rbind (at (sl_ty (rs_slice s)) ru) (\<lambda>t. rbind (set_ty lu t s) (\<lambda>s.
     rbind (at (sl_layout (rs_slice s)) ru) (\<lambda>l. set_layout lu l s)))"

definition rc_handle_copy :: "tcx \<Rightarrow> rc_env \<Rightarrow> place \<Rightarrow> place \<Rightarrow> nat \<Rightarrow> nat \<Rightarrow> rc_state \<Rightarrow> rc_state res" where
  "rc_handle_copy tcx env lplace rplace bidx sidx s =
     (let lu = p_local lplace; ru = p_local rplace in
      rc_guarded lu ru s (\<lambda>s.
      rbind (len_at ru s) (\<lambda>rlen. if rlen = 0 then Inr s else
      rbind (bv_at ru s) (\<lambda>r_ori.
      dest_local tcx env lu ru rplace (same_ty lu ru) (like_right lu ru) s (\<lambda>is_ctor s.
      rbind (set_len lu rlen s) (\<lambda>s.
      let l_new = Bv_Const (asgn_name is_ctor lu bidx sidx) rlen; r_new = Bv_Const (new_local_name ru bidx sidx) rlen in
      rbind (safe_eq r_new r_ori) (\<lambda>r_owning.
      rbind (safe_eq l_new (Bv_Num 0 rlen)) (\<lambda>l_non_owning.
      rbind (safe_eq l_new r_ori) (\<lambda>l_owning.
      rbind (safe_eq r_new (Bv_Num 0 rlen)) (\<lambda>r_non_owning.
        asgn_done env lu ru l_new r_new
          (rc_assert (F_Or [F_And [r_owning, l_non_owning], F_And [l_owning, r_non_owning]]) s)))))))))))"

definition rc_handle_move :: "tcx \<Rightarrow> rc_env \<Rightarrow> place \<Rightarrow> place \<Rightarrow> nat \<Rightarrow> nat \<Rightarrow> rc_state \<Rightarrow> rc_state res" where
  "rc_handle_move tcx env lplace rplace bidx sidx s =
     (let lu = p_local lplace; ru = p_local rplace in
      rc_guarded lu ru s (\<lambda>s.
      rbind (len_at ru s) (\<lambda>rlen. if rlen = 0 then Inr s else
      rbind (bv_at ru s) (\<lambda>r_ori.
      dest_local tcx env lu ru rplace (same_ty lu ru) (like_right lu ru) s (\<lambda>is_ctor s.
      rbind (set_len lu rlen s) (\<lambda>s.
      let l_new = Bv_Const (asgn_name is_ctor lu bidx sidx) rlen; r_new = Bv_Const (new_local_name ru bidx sidx) rlen in
      rbind (safe_eq r_new (Bv_Num 0 rlen)) (\<lambda>r_non_owning.
      rbind (safe_eq l_new r_ori) (\<lambda>l_owning.
        asgn_done env lu ru l_new r_new (rc_assert l_owning (rc_assert r_non_owning s))))))))))"


subsection \<open>Assignments from a field\<close>

text \<open>What copying and moving from a field share: the left side, its new length and the vectors; \<open>k\<close> asserts.\<close>

definition from_field ::
    "tcx \<Rightarrow> rc_env \<Rightarrow> place \<Rightarrow> place \<Rightarrow> layout_result \<Rightarrow> nat \<Rightarrow> nat \<Rightarrow> rc_state \<Rightarrow>
      (bv \<Rightarrow> bv \<Rightarrow> bv \<Rightarrow> rc_state \<Rightarrow> rc_state res) \<Rightarrow> rc_state res" where
  "from_field tcx env lplace rplace lay bidx sidx s k =
     (let lu = p_local lplace; ru = p_local rplace; llen = length (lay_layout lay) in
      rbind (len_at ru s) (\<lambda>rlen.
      rbind (bv_at ru s) (\<lambda>r_ori.
      dest_local tcx env lu ru rplace (\<lambda>_. Inr True)
        (\<lambda>t s. rbind (set_ty lu t s) (set_layout lu (lay_layout lay))) s (\<lambda>is_ctor s.
      rbind (set_len lu llen s)
        (k (Bv_Const (asgn_name is_ctor lu bidx sidx) llen) (Bv_Const (new_local_name ru bidx sidx) rlen) r_ori)))))"

definition rc_handle_copy_from_field ::
    "tcx \<Rightarrow> rc_env \<Rightarrow> place \<Rightarrow> place \<Rightarrow> nat \<Rightarrow> nat \<Rightarrow> rc_state \<Rightarrow> rc_state res" where
  "rc_handle_copy_from_field tcx env lplace rplace bidx sidx s =
     (let lu = p_local lplace; ru = p_local rplace in
      rc_guarded lu ru s (\<lambda>s.
      rbind (len_at ru s) (\<lambda>rlen. if rlen = 0 then Inr s else
      let rpj_ty = rc_place_ty tcx env rplace; rpj = extract_projection tcx env rplace None in
      if ps_unsupport rpj then both_unsupported lu ru s
      else if \<not> has_field rpj then rc_handle_copy tcx env lplace rplace bidx sidx s
      else
        rbind (index_needed rpj) (\<lambda>idx.
        rbind (extract_default_ty_layout tcx env rpj_ty) (\<lambda>lay. if no_layout lay then Inr s else
        from_field tcx env lplace rplace lay bidx sidx s (\<lambda>l_new r_new r_ori s.
        let llen = length (lay_layout lay) in
        rbind (safe_eq r_new r_ori) (\<lambda>r_f_owning.
        rbind (safe_eq l_new (Bv_Num 0 llen)) (\<lambda>l_non_owning.
        rbind (extend_field tcx env ru rpj_ty lay r_ori idx llen s) (\<lambda>ext.
        rbind (safe_eq l_new ext) (\<lambda>l_extend_owning.
        rbind (field_mask rlen idx) (\<lambda>m.
        rbind (safe_eq r_new (Bv_And r_ori m)) (\<lambda>rpj_non_owning.
          asgn_done env lu ru l_new r_new
            (rc_assert (F_Or [F_And [r_f_owning, l_non_owning], F_And [l_extend_owning, rpj_non_owning]]) s)))))))))))))"

definition rc_handle_move_from_field ::
    "tcx \<Rightarrow> rc_env \<Rightarrow> place \<Rightarrow> place \<Rightarrow> nat \<Rightarrow> nat \<Rightarrow> rc_state \<Rightarrow> rc_state res" where
  "rc_handle_move_from_field tcx env lplace rplace bidx sidx s =
     (let lu = p_local lplace; ru = p_local rplace in
      rc_guarded lu ru s (\<lambda>s.
      let rpj_ty = rc_place_ty tcx env rplace; rpj = extract_projection tcx env rplace None in
      if ps_unsupport rpj then both_unsupported lu ru s
      else if \<not> has_field rpj then rc_handle_move tcx env lplace rplace bidx sidx s
      else
        rbind (index_needed rpj) (\<lambda>idx.
        rbind (extract_default_ty_layout tcx env rpj_ty) (\<lambda>lay. if no_layout lay then Inr s else
        rbind (len_at ru s) (\<lambda>rlen. if rlen = 0 then Inr s else
        from_field tcx env lplace rplace lay bidx sidx s (\<lambda>l_new r_new r_ori s.
        let llen = length (lay_layout lay) in
        rbind (extend_field tcx env ru rpj_ty lay r_ori idx llen s) (\<lambda>ext.
        rbind (safe_eq l_new ext) (\<lambda>l_extend_owning.
        rbind (field_mask rlen idx) (\<lambda>m.
        rbind (safe_eq r_new (Bv_And r_ori m)) (\<lambda>rpj_non_owning.
          asgn_done env lu ru l_new r_new (rc_assert rpj_non_owning (rc_assert l_extend_owning s))))))))))))"

subsection \<open>Assignments to a field\<close>

text \<open>The left side of an aggregate owns nothing before its fields are assigned; its layout is not recorded.\<close>

definition handle_aggregate_init :: "tcx \<Rightarrow> rc_env \<Rightarrow> place \<Rightarrow> nat \<Rightarrow> nat option \<Rightarrow> nat \<Rightarrow> nat \<Rightarrow> rc_state \<Rightarrow> rc_state res" where
  "handle_aggregate_init tcx env lplace vidx disc bidx sidx s =
     (let lu = p_local lplace in
      rbind (var_at lu s) (\<lambda>lv. if iv_is_unsupported lv then Inr s else
      rbind (at (local_decls (re_body env)) lu) (\<lambda>l_local_ty.
      rbind (extract_default_ty_layout tcx env (l_local_ty, Some vidx)) (\<lambda>lay. if no_layout lay then Inr s else
      let llen = length (lay_layout lay) in
      rbind (set_len lu llen s) (\<lambda>s.
        if iv_is_init lv then Inr s
        else
          let ctor = Bv_Const (new_local_name lu bidx sidx @ ''_ctor_asgn'') llen in
          rbind (assert_zero ctor llen s) (\<lambda>s.
          rbind (indexed_ty_new tcx l_local_ty disc) (\<lambda>t.
          rbind (set_ty lu t s) (set_var lu (Var_Init ctor)))))))))"

text \<open>The frame of the assignments to a field: which field, and whether the whole local is meant (\<open>whole\<close>).\<close>

definition to_field ::
    "tcx \<Rightarrow> rc_env \<Rightarrow> place \<Rightarrow> place \<Rightarrow> nat option \<Rightarrow> nat option \<Rightarrow> nat \<Rightarrow> nat \<Rightarrow> rc_state \<Rightarrow>
      (rc_state \<Rightarrow> rc_state res) \<Rightarrow> (nat \<Rightarrow> nat \<Rightarrow> nat \<Rightarrow> bv \<Rightarrow> bv \<Rightarrow> rc_state \<Rightarrow> rc_state res) \<Rightarrow> rc_state res" where
  "to_field tcx env lplace rplace disc aggre bidx sidx s whole k =
     (let lu = p_local lplace; ru = p_local rplace in
      rc_guarded lu ru s (\<lambda>s.
      rbind (at (local_decls (re_body env)) lu) (\<lambda>l_local_ty.
      let lpj = extract_projection tcx env lplace aggre;
          field = (\<lambda>disc.
            rbind (index_needed lpj) (\<lambda>idx.
            rbind (extract_default_ty_layout tcx env (l_local_ty, disc)) (\<lambda>lay. if no_layout lay then Inr s else
            let llen = length (lay_layout lay) in
            rbind (set_len lu llen s) (\<lambda>s.
            rbind (len_at ru s) (\<lambda>rlen. if rlen = 0 then Inr s else
            rbind (bv_at ru s) (\<lambda>r_ori.
            dest_field tcx env lu idx llen l_local_ty disc lay bidx sidx s (k idx llen rlen r_ori)))))))
      in
      if ps_unsupport lpj then both_unsupported lu ru s
      else if has_field lpj \<and> has_downcast lpj then
        rbind (indexed_ty_new tcx l_local_ty (ps_downcast lpj)) (\<lambda>t. case t of
            None \<Rightarrow> Inr s
          | Some (n, _) \<Rightarrow> rbind (index_needed lpj) (\<lambda>idx.
              if idx = 0 \<and> n = 1 then whole s else field (ps_downcast lpj)))
      else if has_field lpj then field disc
      else if has_downcast lpj then Inr s
      else whole s)))"

definition rc_handle_copy_to_field ::
    "tcx \<Rightarrow> rc_env \<Rightarrow> place \<Rightarrow> place \<Rightarrow> nat option \<Rightarrow> nat option \<Rightarrow> nat \<Rightarrow> nat \<Rightarrow> rc_state \<Rightarrow> rc_state res" where
  "rc_handle_copy_to_field tcx env lplace rplace disc aggre bidx sidx s =
     (let lu = p_local lplace; ru = p_local rplace in
      to_field tcx env lplace rplace disc aggre bidx sidx s (rc_handle_copy tcx env lplace rplace bidx sidx)
        (\<lambda>idx llen rlen r_ori l_ori s.
        let l_new = Bv_Const (new_local_name lu bidx sidx) llen; r_new = Bv_Const (new_local_name ru bidx sidx) rlen in
        rbind (safe_eq r_new r_ori) (\<lambda>r_owning.
        rbind (field_mask llen idx) (\<lambda>m.
        rbind (safe_eq l_new (Bv_And l_ori m)) (\<lambda>lpj_non_owning.
        rbind (safe_eq r_new (Bv_Num 0 rlen)) (\<lambda>r_non_owning.
        rbind (bv_splice l_ori llen idx (Bv_Redor r_ori)) (\<lambda>fin.
        rbind (safe_eq l_new fin) (\<lambda>lpj_shrink_owning.
          asgn_done env lu ru l_new r_new
            (rc_assert (F_Or [F_And [r_owning, lpj_non_owning], F_And [r_non_owning, lpj_shrink_owning]]) s)))))))))"

definition rc_handle_move_to_field ::
    "tcx \<Rightarrow> rc_env \<Rightarrow> place \<Rightarrow> place \<Rightarrow> nat option \<Rightarrow> nat option \<Rightarrow> nat \<Rightarrow> nat \<Rightarrow> rc_state \<Rightarrow> rc_state res" where
  "rc_handle_move_to_field tcx env lplace rplace disc aggre bidx sidx s =
     (let lu = p_local lplace; ru = p_local rplace in
      to_field tcx env lplace rplace disc aggre bidx sidx s (rc_handle_move tcx env lplace rplace bidx sidx)
        (\<lambda>idx llen rlen r_ori l_ori s.
        let l_new = Bv_Const (new_local_name lu bidx sidx) llen; r_new = Bv_Const (new_local_name ru bidx sidx) rlen in
        rbind (safe_eq r_new (Bv_Num 0 rlen)) (\<lambda>r_non_owning.
        rbind (bv_splice l_ori llen idx (Bv_Redor r_ori)) (\<lambda>fin.
        rbind (safe_eq l_new fin) (\<lambda>lpj_shrink_owning.
          asgn_done env lu ru l_new r_new (rc_assert lpj_shrink_owning (rc_assert r_non_owning s)))))))"


subsection \<open>Assignments from a field to a field\<close>

text \<open>What follows once both sides have a field.\<close>

definition field_to_field ::
    "tcx \<Rightarrow> rc_env \<Rightarrow> nat \<Rightarrow> nat \<Rightarrow> ty \<Rightarrow> nat option \<Rightarrow> projection_support \<Rightarrow> projection_support \<Rightarrow> nat \<Rightarrow> nat \<Rightarrow> rc_state \<Rightarrow>
      (nat \<Rightarrow> nat \<Rightarrow> nat \<Rightarrow> nat \<Rightarrow> bv \<Rightarrow> bv \<Rightarrow> rc_state \<Rightarrow> rc_state res) \<Rightarrow> rc_state res" where
  "field_to_field tcx env lu ru l_local_ty disc rpj lpj bidx sidx s k =
     rbind (index_needed rpj) (\<lambda>r_idx.
     rbind (index_needed lpj) (\<lambda>l_idx.
     rbind (extract_default_ty_layout tcx env (l_local_ty, disc)) (\<lambda>lay. if no_layout lay then Inr s else
     let llen = length (lay_layout lay) in
     rbind (len_at ru s) (\<lambda>rlen.
     rbind (set_len lu llen s) (\<lambda>s.
     rbind (len_at ru s) (\<lambda>cur. if cur = 0 then Inr s else
     rbind (bv_at ru s) (\<lambda>r_ori.
     dest_field tcx env lu l_idx llen l_local_ty disc lay bidx sidx s (k r_idx l_idx llen rlen r_ori))))))))"

definition rc_handle_copy_field_to_field ::
    "tcx \<Rightarrow> rc_env \<Rightarrow> place \<Rightarrow> place \<Rightarrow> nat option \<Rightarrow> nat option \<Rightarrow> nat \<Rightarrow> nat \<Rightarrow> rc_state \<Rightarrow> rc_state res" where
  "rc_handle_copy_field_to_field tcx env lplace rplace disc aggre bidx sidx s =
     (let lu = p_local lplace; ru = p_local rplace in
      rc_guarded lu ru s (\<lambda>s.
      rbind (at (local_decls (re_body env)) lu) (\<lambda>l_local_ty.
      let rpj = extract_projection tcx env rplace None; lpj = extract_projection tcx env lplace aggre in
      if ps_unsupport rpj then both_unsupported lu ru s
      else if ps_unsupport lpj then both_unsupported lu ru s
      else if has_field rpj \<and> \<not> has_field lpj then rc_handle_copy_from_field tcx env lplace rplace bidx sidx s
      else if \<not> has_field rpj \<and> has_field lpj then rc_handle_copy_to_field tcx env lplace rplace disc aggre bidx sidx s
      else if \<not> has_field rpj then rc_handle_copy tcx env lplace rplace bidx sidx s
      else field_to_field tcx env lu ru l_local_ty disc rpj lpj bidx sidx s (\<lambda>r_idx l_idx llen rlen r_ori l_ori s.
        let l_new = Bv_Const (new_local_name lu bidx sidx) llen; r_new = Bv_Const (new_local_name ru bidx sidx) rlen in
        rbind (field_mask rlen r_idx) (\<lambda>rm.
        rbind (safe_eq r_new (Bv_And r_ori rm)) (\<lambda>rpj_non_owning.
        rbind (bv_splice l_ori llen l_idx (Bv_Extract r_idx r_idx r_ori)) (\<lambda>fin.
        rbind (safe_eq l_new fin) (\<lambda>lpj_owning.
        rbind (field_mask llen l_idx) (\<lambda>lm.
        rbind (safe_eq l_new (Bv_And l_ori lm)) (\<lambda>lpj_non_owning.
        rbind (safe_eq r_new r_ori) (\<lambda>rpj_owning.
          asgn_done env lu ru l_new r_new
            (rc_assert (F_Or [F_And [rpj_non_owning, lpj_owning], F_And [lpj_non_owning, rpj_owning]]) s))))))))))))"

text \<open>The case of a left field only does not end the handler.\<close>

definition rc_handle_move_field_to_field ::
    "tcx \<Rightarrow> rc_env \<Rightarrow> place \<Rightarrow> place \<Rightarrow> nat option \<Rightarrow> nat option \<Rightarrow> nat \<Rightarrow> nat \<Rightarrow> rc_state \<Rightarrow> rc_state res" where
  "rc_handle_move_field_to_field tcx env lplace rplace disc aggre bidx sidx s =
     (let lu = p_local lplace; ru = p_local rplace in
      rc_guarded lu ru s (\<lambda>s.
      rbind (at (local_decls (re_body env)) lu) (\<lambda>l_local_ty.
      let rpj = extract_projection tcx env rplace None; lpj = extract_projection tcx env lplace aggre in
      if ps_unsupport rpj then both_unsupported lu ru s
      else if ps_unsupport lpj then both_unsupported lu ru s
      else if has_field rpj \<and> \<not> has_field lpj then rc_handle_move_from_field tcx env lplace rplace bidx sidx s
      else if \<not> has_field rpj \<and> \<not> has_field lpj then rc_handle_move tcx env lplace rplace bidx sidx s
      else
      rbind (if \<not> has_field rpj then rc_handle_move_to_field tcx env lplace rplace disc aggre bidx sidx s else Inr s) (\<lambda>s.
      field_to_field tcx env lu ru l_local_ty disc rpj lpj bidx sidx s (\<lambda>r_idx l_idx llen rlen r_ori l_ori s.
        let l_new = Bv_Const (new_local_name lu bidx sidx) llen; r_new = Bv_Const (new_local_name ru bidx sidx) rlen in
        rbind (field_mask rlen r_idx) (\<lambda>rm.
        rbind (safe_eq r_new (Bv_And r_ori rm)) (\<lambda>rpj_non_owning.
        rbind (bv_splice l_ori llen l_idx (Bv_Extract r_idx r_idx r_ori)) (\<lambda>fin.
        rbind (safe_eq l_new fin) (\<lambda>lpj_owning.
          asgn_done env lu ru l_new r_new (rc_assert lpj_owning (rc_assert rpj_non_owning s)))))))))))"

subsection \<open>Drops\<close>

definition update_var :: "nat \<Rightarrow> bv \<Rightarrow> bv \<Rightarrow> rc_state \<Rightarrow> rc_state res" where
  "update_var u new_bv val s =
     rbind (safe_eq new_bv val) (\<lambda>f. set_var u (Var_Init new_bv) (rc_assert f s))"

definition rc_handle_drop :: "tcx \<Rightarrow> rc_env \<Rightarrow> place \<Rightarrow> nat \<Rightarrow> bool \<Rightarrow> rc_state \<Rightarrow> rc_state res" where
  "rc_handle_drop tcx env dest bidx recovery s =
     (let u = p_local dest in
      rbind (len_at u s) (\<lambda>len. if len = 0 then Inr s else
      rbind (var_at u s) (\<lambda>v. if iv_is_declared v \<or> iv_is_unsupported v then Inr s else
      rbind (at (sl_layout (rs_slice s)) u) (\<lambda>layout.
      let rust_bv = reverse_ownership_layout_to_rustbv layout in
      rbind (iv_extract v) (\<lambda>ori.
      let f = extract_projection tcx env dest None in
      if ps_unsupport f then handle_intra_var_unsupported u s
      else if \<not> has_field f then
        if recovery then
          update_var u (Bv_Const (new_local_name u bidx 0 @ ''_drop_recovery'') len) (Bv_And ori (Bv_Num 0 len)) s
        else
          rbind (rustbv_to_int rust_bv) (\<lambda>i.
          update_var u (Bv_Const (new_local_name u bidx 0 @ ''_drop_all'') len) (Bv_And ori (Bv_Num i len)) s)
      else
        rbind (index_needed f) (\<lambda>idx.
        if idx \<ge> length rust_bv then Inr s
        else
          let new_bv = Bv_Const (new_local_name u bidx 0 @ (if recovery then ''_drop_f_recovery'' else ''_drop_f'')) len in
          if (rust_bv ! idx \<and> \<not> recovery) \<or> (\<not> rust_bv ! idx \<and> recovery)
          then update_var u new_bv ori s
          else rbind (bv_splice ori len idx (Bv_Num 0 1)) (\<lambda>fin. update_var u new_bv fin s)))))))"

subsection \<open>Calls\<close>

text \<open>A call of the form \<open>fn(self) -> */&\<close>, which hands ownership to a pointer.\<close>

definition check_fn_source :: "tcx \<Rightarrow> rc_env \<Rightarrow> operand list \<Rightarrow> place \<Rightarrow> rc_state \<Rightarrow> (bool \<times> rc_state) res" where
  "check_fn_source tcx env args dest s =
     (if length args \<noteq> 1 then Inr (False, s)
      else if \<not> is_place_containing_ptr env (fst (rc_place_ty tcx env dest)) then Inr (False, s)
      else rbind (at args 0) (\<lambda>arg. case arg of
          Move aplace \<Rightarrow>
            rbind (extract_default_ty_layout tcx env (rc_place_ty tcx env aplace)) (\<lambda>lay.
              Inr (if lay_owned lay then (True, s\<lparr>rs_taint_flag := True\<rparr>) else (False, s)))
        | _ \<Rightarrow> Inr (False, s)))"

text \<open>A call of the form \<open>fn(*) -> Self\<close>: the arguments tainted by the type of the result.\<close>

definition check_fn_recovery :: "tcx \<Rightarrow> rc_env \<Rightarrow> operand list \<Rightarrow> place \<Rightarrow> rc_state \<Rightarrow> nat list res" where
  "check_fn_recovery tcx env args dest s =
     (if length args = 0 then Inr []
      else
        rbind (extract_default_ty_layout tcx env (rc_place_ty tcx env dest)) (\<lambda>lay. if no_layout lay then Inr [] else
        rbind (indexed_ty_new tcx (fst (rc_place_ty tcx env dest)) (snd (rc_place_ty tcx env dest))) (\<lambda>t.
          rfold (\<lambda>arg ans. case arg of
              Constant _ \<Rightarrow> Inr ans
            | Move aplace \<Rightarrow> rbind (at (sl_taint (rs_slice s)) (p_local aplace)) (\<lambda>ta.
                Inr (if is_tainted ta \<and> taint_contains ta t then ans @ [p_local aplace] else ans))
            | Copy aplace \<Rightarrow> rbind (at (sl_taint (rs_slice s)) (p_local aplace)) (\<lambda>ta.
                Inr (if is_tainted ta \<and> taint_contains ta t then ans @ [p_local aplace] else ans)))
          args [])))"

text \<open>A pointer without projection that is passed owns nothing, and keeps its vector under a new name.\<close>

definition pass_pointer :: "nat \<Rightarrow> bv \<Rightarrow> nat \<Rightarrow> nat \<Rightarrow> rc_state \<Rightarrow> rc_state res" where
  "pass_pointer au a_ori alen bidx s =
     (let a_new = Bv_Const (new_local_name au bidx 0 @ ''_param_pass'') alen in
      rbind (safe_eq a_ori (Bv_Num 0 alen)) (\<lambda>a_ori_non_owing.
      rbind (safe_eq a_new a_ori) (\<lambda>update_a.
        set_var au (Var_Init a_new) (rc_assert update_a (rc_assert a_ori_non_owing s)))))"

text \<open>In the other cases the equation is asserted, but the new name is not recorded.\<close>

definition pass_unrecorded :: "nat \<Rightarrow> bv \<Rightarrow> nat \<Rightarrow> nat \<Rightarrow> rc_state \<Rightarrow> rc_state res" where
  "pass_unrecorded au a_ori alen bidx s =
     rbind (safe_eq (Bv_Const (new_local_name au bidx 0 @ ''_param_pass'') alen) a_ori) (\<lambda>update_a. Inr (rc_assert update_a s))"

definition call_arg ::
    "tcx \<Rightarrow> rc_env \<Rightarrow> nat \<Rightarrow> nat \<Rightarrow> bool \<Rightarrow> nat list \<Rightarrow> operand \<Rightarrow> rc_state \<Rightarrow> rc_state res" where
  "call_arg tcx env lu bidx source_flag recovery arg s =
     (let prepare = (\<lambda>aplace k. let au = p_local aplace in
            rbind (len_at au s) (\<lambda>alen. if alen = 0 then Inr s else
            rbind (var_at au s) (\<lambda>v. if \<not> iv_is_init v then Inr s else
            rbind (iv_extract v) (\<lambda>a_ori. k au alen a_ori (is_any_ptr env (fst (rc_place_ty tcx env aplace)))))))
      in case arg of
        Constant _ \<Rightarrow> Inr s
      | Move aplace \<Rightarrow> prepare aplace (\<lambda>au alen a_ori is_ptr.
          rbind (if source_flag
                 then rbind (indexed_ty_new tcx (fst (rc_place_ty tcx env aplace)) (snd (rc_place_ty tcx env aplace))) (\<lambda>t.
                      rbind (at (sl_taint (rs_slice s)) lu) (\<lambda>tl. set_taint lu (taint_insert t tl) s))
                 else Inr s) (\<lambda>s.
          if length (p_projection aplace) = 0 then
            if is_ptr then
              if au \<in> set recovery then rc_handle_drop tcx env aplace bidx True s
              else pass_pointer au a_ori alen bidx s
            else rc_handle_drop tcx env aplace bidx False s
          else if length (p_projection aplace) = 1 then
            if is_ptr then
              if au \<in> set recovery then rc_handle_drop tcx env aplace bidx True s
              else pass_unrecorded au a_ori alen bidx s
            else rc_handle_drop tcx env aplace bidx False s
          else handle_intra_var_unsupported au s))
      | Copy aplace \<Rightarrow> prepare aplace (\<lambda>au alen a_ori is_ptr.
          if length (p_projection aplace) = 0 then
            if is_ptr then
              if au \<in> set recovery then rc_handle_drop tcx env aplace bidx True s
              else pass_pointer au a_ori alen bidx s
            else pass_unrecorded au a_ori alen bidx s
          else if length (p_projection aplace) = 1 then pass_unrecorded au a_ori alen bidx s
          else handle_intra_var_unsupported au s))"


text \<open>The return value, stored in a whole local.\<close>

definition call_dest_local :: "tcx \<Rightarrow> rc_env \<Rightarrow> place \<Rightarrow> nat \<Rightarrow> bool \<Rightarrow> rc_state \<Rightarrow> rc_state res" where
  "call_dest_local tcx env dest bidx source_flag s =
     (let lu = p_local dest; l_place_ty = rc_place_ty tcx env dest in
      rbind (extract_default_ty_layout tcx env l_place_ty) (\<lambda>lay. if no_layout lay then Inr s else
      rbind (if source_flag
             then rbind (generate_ptr_layout tcx env l_place_ty) (rustbv_merge (ownership_layout_to_rustbv (lay_layout lay)))
             else Inr (ownership_layout_to_rustbv (lay_layout lay))) (\<lambda>m.
      rbind (rustbv_to_int m) (\<lambda>int_for_gen.
      rbind (len_at lu s) (\<lambda>old_len.
      rbind (var_at lu s) (\<lambda>lv.
      let llen = length (lay_layout lay);
          define = (\<lambda>suffix s.
            let l_new = Bv_Const (new_local_name lu bidx 0 @ suffix) llen in
            rbind (safe_eq l_new (Bv_Num int_for_gen llen)) (\<lambda>f.
            rbind (set_len lu llen (rc_assert f s)) (set_var lu (Var_Init l_new))))
      in
      if iv_is_init lv then
        rbind (iv_extract lv) (\<lambda>l_ori. rbind (assert_zero l_ori old_len s) (define ''_cover_fn''))
      else
        rbind (indexed_ty_new tcx (fst l_place_ty) (snd l_place_ty)) (\<lambda>t.
          if get_priority t = 0 then handle_intra_var_unsupported lu s
          else if get_priority t = 1 then Inr s
          else rbind (set_ty lu t s) (\<lambda>s. rbind (set_layout lu (lay_layout lay) s) (define ''_ctor_fn'')))))))))"

text \<open>The return value, stored in a field.\<close>

definition call_dest_field :: "tcx \<Rightarrow> rc_env \<Rightarrow> place \<Rightarrow> nat \<Rightarrow> bool \<Rightarrow> rc_state \<Rightarrow> rc_state res" where
  "call_dest_field tcx env dest bidx source_flag s =
     (let lu = p_local dest in
      rbind (at (local_decls (re_body env)) lu) (\<lambda>l_local_ty.
      rbind (extract_default_ty_layout tcx env (l_local_ty, None)) (\<lambda>lay. if no_layout lay then Inr s else
      rbind (len_at lu s) (\<lambda>llen.
      rbind (index_needed (extract_projection tcx env dest None)) (\<lambda>idx.
      rbind (var_at lu s) (\<lambda>lv.
      rbind (if iv_is_init lv then
               rbind (iv_extract lv) (\<lambda>l_ori.
               rbind (assert_zero (Bv_Extract idx idx l_ori) 1 s) (\<lambda>s. Inr (l_ori, s)))
             else
               rbind (assert_zero (Bv_Const (new_local_name lu bidx 0 @ ''_ctor_fn'') llen) llen s) (\<lambda>s.
               rbind (indexed_ty_new tcx l_local_ty None) (\<lambda>t.
               rbind (set_ty lu t s) (\<lambda>s.
               rbind (set_layout lu (lay_layout lay) s) (\<lambda>s. Inr (Bv_Num 0 llen, s)))))) (\<lambda>(l_ori, s).
      let l_new = Bv_Const (new_local_name lu bidx 0) llen in
      rbind (if source_flag then Inr (Bv_Num 1 1)
             else rbind (at (lay_layout lay) idx) (\<lambda>ow. Inr (if ow = Owned then Bv_Num 1 1 else Bv_Num 0 1))) (\<lambda>update_field.
      rbind (bv_splice l_ori llen idx update_field) (\<lambda>fin.
      rbind (safe_eq l_new fin) (\<lambda>f.
      rbind (set_len lu (length (lay_layout lay)) (rc_assert f s)) (set_var lu (Var_Init l_new))))))))))))"

text \<open>The function with index 2171 is \<open>std::mem::drop\<close>; the type looked at is that of the result.\<close>

definition MEM_DROP :: nat where "MEM_DROP = 2171"

definition rc_handle_call ::
    "tcx \<Rightarrow> rc_env \<Rightarrow> terminator \<Rightarrow> operand \<Rightarrow> operand list \<Rightarrow> place \<Rightarrow> nat \<Rightarrow> rc_state \<Rightarrow> rc_state res" where
  "rc_handle_call tcx env t func args dest bidx s =
     (let is_mem_drop = (case func of
            Constant c \<Rightarrow> (case c_ty c of Ty_FnDef d _ \<Rightarrow> def_index tcx d = MEM_DROP | _ \<Rightarrow> False)
          | _ \<Rightarrow> False);
          lu = p_local dest
      in
      rbind (if is_mem_drop
             then rbind (at args 0) (\<lambda>a. Inr (case a of
                 Move aplace \<Rightarrow> (case fst (rc_place_ty tcx env dest) of Ty_Adt _ _ \<Rightarrow> Some aplace | _ \<Rightarrow> None)
               | _ \<Rightarrow> None))
             else Inr None) (\<lambda>dropped.
      case dropped of
        Some aplace \<Rightarrow> rc_handle_drop tcx env aplace bidx False s
      | None \<Rightarrow>
      rbind (check_fn_source tcx env args dest s) (\<lambda>(source_flag, s).
      rbind (check_fn_recovery tcx env args dest s) (\<lambda>recovery.
      let s = (if source_flag then s\<lparr>rs_taint_source := rs_taint_source s @ [t]\<rparr> else s) in
      rbind (rfold (call_arg tcx env lu bidx source_flag recovery) args s) (\<lambda>s.
      rbind (var_at lu s) (\<lambda>lv.
      if iv_is_unsupported lv then handle_intra_var_unsupported lu s
      else if length (p_projection dest) = 0 then call_dest_local tcx env dest bidx source_flag s
      else if length (p_projection dest) = 1 then call_dest_field tcx env dest bidx source_flag s
      else handle_intra_var_unsupported lu s))))))"

subsection \<open>Returns\<close>

definition return_var :: "nat \<Rightarrow> nat \<Rightarrow> nat \<Rightarrow> bv \<Rightarrow> rc_state \<Rightarrow> rc_state res" where
  "return_var bidx iidx len var_ori s =
     (let var_return = Bv_Const (new_local_name iidx bidx 0 @ ''_return'') len in
      rbind (safe_eq var_return var_ori) (\<lambda>var_update.
      rbind (safe_eq var_return (Bv_Num 0 len)) (\<lambda>var_freed.
        Inr (rc_assert (F_And [var_update, var_freed]) s))))"

definition rc_handle_return :: "tcx \<Rightarrow> rc_env \<Rightarrow> nat \<Rightarrow> rc_state \<Rightarrow> rc_state res" where
  "rc_handle_return tcx env bidx s =
     rbind (rc_handle_drop tcx env \<lparr>p_local = 0, p_projection = []\<rparr> bidx False s) (\<lambda>s.
     rbind (rfold (\<lambda>(iidx, var) s.
         rbind (len_at iidx s) (\<lambda>len.
           if len = 0 \<or> iidx \<le> arg_count (re_body env) then Inr s
           else (case var of Var_Init var_ori \<Rightarrow> return_var bidx iidx len var_ori s | _ \<Rightarrow> Inr s)))
       (enumerate 0 (sl_var (rs_slice s))) s) (\<lambda>s.
     Inr (if re_check env (rs_solver s) = Unsat \<and> rs_taint_flag s
          then s\<lparr>rs_reports := rs_reports s @ [rs_taint_source s]\<rparr> else s)))"

subsection \<open>Statements and terminators\<close>

definition asgn_copy ::
    "tcx \<Rightarrow> rc_env \<Rightarrow> place \<Rightarrow> place \<Rightarrow> nat option \<Rightarrow> nat \<Rightarrow> nat \<Rightarrow> rc_state \<Rightarrow> rc_state res" where
  "asgn_copy tcx env lplace rplace disc bidx sidx s =
     (case (has_projection lplace, has_projection rplace) of
        (True, True) \<Rightarrow> rc_handle_copy_field_to_field tcx env lplace rplace disc None bidx sidx s
      | (True, False) \<Rightarrow> rc_handle_copy_to_field tcx env lplace rplace disc None bidx sidx s
      | (False, True) \<Rightarrow> rc_handle_copy_from_field tcx env lplace rplace bidx sidx s
      | (False, False) \<Rightarrow> rc_handle_copy tcx env lplace rplace bidx sidx s)"

definition asgn_move ::
    "tcx \<Rightarrow> rc_env \<Rightarrow> place \<Rightarrow> place \<Rightarrow> nat option \<Rightarrow> nat \<Rightarrow> nat \<Rightarrow> rc_state \<Rightarrow> rc_state res" where
  "asgn_move tcx env lplace rplace disc bidx sidx s =
     (case (has_projection lplace, has_projection rplace) of
        (True, True) \<Rightarrow> rc_handle_move_field_to_field tcx env lplace rplace disc None bidx sidx s
      | (True, False) \<Rightarrow> rc_handle_move_to_field tcx env lplace rplace disc None bidx sidx s
      | (False, True) \<Rightarrow> rc_handle_move_from_field tcx env lplace rplace bidx sidx s
      | (False, False) \<Rightarrow> rc_handle_move tcx env lplace rplace bidx sidx s)"

definition asgn_operand ::
    "tcx \<Rightarrow> rc_env \<Rightarrow> place \<Rightarrow> operand \<Rightarrow> nat option \<Rightarrow> nat \<Rightarrow> nat \<Rightarrow> rc_state \<Rightarrow> rc_state res" where
  "asgn_operand tcx env lplace op disc bidx sidx s =
     (case op of
        Copy rplace \<Rightarrow> asgn_copy tcx env lplace rplace disc bidx sidx s
      | Move rplace \<Rightarrow> asgn_move tcx env lplace rplace disc bidx sidx s
      | Constant _ \<Rightarrow> Inr s)"

definition aggregate_field ::
    "tcx \<Rightarrow> rc_env \<Rightarrow> place \<Rightarrow> nat option \<Rightarrow> nat \<Rightarrow> nat \<Rightarrow> nat \<times> operand \<Rightarrow> rc_state \<Rightarrow> rc_state res" where
  "aggregate_field tcx env lplace disc bidx sidx = (\<lambda>(fidx, op) s.
     case op of
       Copy rplace \<Rightarrow>
         if has_projection rplace then rc_handle_copy_field_to_field tcx env lplace rplace disc (Some fidx) bidx sidx s
         else rc_handle_copy_to_field tcx env lplace rplace disc (Some fidx) bidx sidx s
     | Move rplace \<Rightarrow>
         if has_projection rplace then rc_handle_move_field_to_field tcx env lplace rplace disc (Some fidx) bidx sidx s
         else rc_handle_move_to_field tcx env lplace rplace disc (Some fidx) bidx sidx s
     | Constant _ \<Rightarrow> Inr s)"

definition visit_assign ::
    "tcx \<Rightarrow> rc_env \<Rightarrow> place \<Rightarrow> rvalue \<Rightarrow> nat option \<Rightarrow> nat \<Rightarrow> nat \<Rightarrow> rc_state \<Rightarrow> rc_state res" where
  "visit_assign tcx env lplace rvalue disc bidx sidx s =
     (case rvalue of
        Use op \<Rightarrow> asgn_operand tcx env lplace op disc bidx sidx s
      | Ref _ rplace \<Rightarrow> asgn_copy tcx env lplace rplace disc bidx sidx s
      | RawPtr _ rplace \<Rightarrow> asgn_copy tcx env lplace rplace disc bidx sidx s
      | Cast _ op _ \<Rightarrow> asgn_operand tcx env lplace op disc bidx sidx s
      | Aggregate akind operands \<Rightarrow>
          if has_projection lplace then Inr s
          else (case akind of
              Agg_Adt _ vidx \<Rightarrow>
                rbind (handle_aggregate_init tcx env lplace vidx disc bidx sidx s)
                  (rfold (aggregate_field tcx env lplace disc bidx sidx) (enumerate 0 operands))
            | _ \<Rightarrow> Inr s)
      | _ \<Rightarrow> Inr s)"

definition visit_statement :: "tcx \<Rightarrow> rc_env \<Rightarrow> nat \<Rightarrow> nat \<times> statement \<Rightarrow> rc_state \<Rightarrow> rc_state res" where
  "visit_statement tcx env bidx = (\<lambda>(sidx, st) s.
     case s_kind st of
       Assign pl rvalue \<Rightarrow>
         visit_assign tcx env pl rvalue None bidx sidx
           (s\<lparr>rs_goal := rs_goal s @ [F_Name (''CONSTRAINTS: S '' @ nat_to_string bidx @ '' '' @ nat_to_string sidx)]\<rparr>)
     | _ \<Rightarrow> Inr s)"

definition visit_terminator :: "tcx \<Rightarrow> rc_env \<Rightarrow> terminator \<Rightarrow> nat \<Rightarrow> rc_state \<Rightarrow> rc_state res" where
  "visit_terminator tcx env t bidx s =
     (let s = s\<lparr>rs_goal := rs_goal s @ [F_Name (''CONSTRAINTS: T '' @ nat_to_string bidx)]\<rparr> in
      case t_kind t of
        Drop pl _ _ \<Rightarrow> rc_handle_drop tcx env pl bidx False s
      | Call func args dest _ _ \<Rightarrow> rc_handle_call tcx env t func args dest bidx s
      | Return \<Rightarrow> rc_handle_return tcx env bidx s
      | _ \<Rightarrow> Inr s)"


subsection \<open>Blocks\<close>

text \<open>The arguments own what their types can own. An argument of a type the analysis does not handle is marked in the slice of
  the analysis, which is replaced at the end.\<close>

definition init_argument :: "tcx \<Rightarrow> rc_env \<Rightarrow> nat \<Rightarrow> rc_state \<times> bv icx_slice \<Rightarrow> (rc_state \<times> bv icx_slice) res" where
  "init_argument tcx env arg_idx = (\<lambda>(s, sl).
     let idx = arg_idx + 1 in
     rbind (at (local_decls (re_body env)) idx) (\<lambda>ty.
     rbind (indexed_ty_new tcx ty None) (\<lambda>t.
       if t = None then rbind (handle_intra_var_unsupported idx s) (\<lambda>s. Inr (s, sl))
       else
         rbind (extract_default_ty_layout tcx env (ty, None)) (\<lambda>lay.
           if \<not> lay_owned lay then
             rbind (set_at (sl_len sl) idx 0) (\<lambda>ls. rbind (set_at (sl_var sl) idx Var_Unsupported) (\<lambda>vs.
             rbind (set_at (sl_ty sl) idx None) (\<lambda>ts. Inr (s, sl\<lparr>sl_len := ls, sl_var := vs, sl_ty := ts\<rparr>))))
           else
             rbind (rustbv_to_int (ownership_layout_to_rustbv (lay_layout lay))) (\<lambda>i.
             let len = length (lay_layout lay); new_bv = Bv_Const (new_local_name idx 0 0 @ ''_arg_init'') len in
             rbind (safe_eq new_bv (Bv_Num i len)) (\<lambda>f.
             rbind (set_at (sl_len sl) idx len) (\<lambda>ls. rbind (set_at (sl_var sl) idx (Var_Init new_bv)) (\<lambda>vs.
             rbind (set_at (sl_ty sl) idx t) (\<lambda>ts. Inr (rc_assert f s, sl\<lparr>sl_len := ls, sl_var := vs, sl_ty := ts\<rparr>)))))))))) "

text \<open>One variable in all predecessors of a block. The state of the loop is the conjunction so far, the type and the length of
  the first predecessor that has one, and the resulting slice; \<open>None\<close> if the variable cannot be supported.\<close>

definition merge_unsupported :: "nat \<Rightarrow> bv icx_slice \<Rightarrow> bv icx_slice res" where
  "merge_unsupported u ans =
     rbind (set_at (sl_len ans) u 0) (\<lambda>ls. rbind (set_at (sl_var ans) u Var_Unsupported) (\<lambda>vs.
       Inr (ans\<lparr>sl_len := ls, sl_var := vs\<rparr>)))"

fun merge_var ::
    "rc_env \<Rightarrow> nat \<Rightarrow> bv icx_slice list \<Rightarrow> bv option \<times> indexed_ty \<times> nat \<Rightarrow> bv icx_slice \<Rightarrow>
      ((bv option \<times> nat) option \<times> bv icx_slice) res" where
  "merge_var env u [] (acc, ty, len) ans = Inr (Some (acc, len), ans)"
| "merge_var env u (sl # sls) (acc, ty, len) ans =
     rbind (at (sl_var sl) u) (\<lambda>var.
       if iv_is_declared var then merge_var env u sls (acc, ty, len) ans
       else if iv_is_unsupported var then rbind (merge_unsupported u ans) (\<lambda>ans. Inr (None, ans))
       else
         rbind (iv_extract var) (\<lambda>var_bv.
         rbind (at (sl_ty sl) u) (\<lambda>t.
         rbind (if ty = None then
                  rbind (at (sl_len sl) u) (\<lambda>l. rbind (set_at (sl_ty ans) u t) (\<lambda>ts. rbind (set_at (sl_len ans) u l) (\<lambda>ls.
                    Inr (Some var_bv, t, l, ans\<lparr>sl_ty := ts, sl_len := ls\<rparr>))))
                else Inr (acc, ty, len, ans)) (\<lambda>(acc, ty, len, ans).
         if ty \<noteq> t then rbind (merge_unsupported u ans) (\<lambda>ans. Inr (None, ans))
         else
           rbind (unwrap acc) (\<lambda>a.
           rbind (taint_merge (re_order env) sl u ans) (\<lambda>ans.
             merge_var env u sls (Some (Bv_And a var_bv), ty, len) ans))))))"

definition merge_phi :: "rc_env \<Rightarrow> nat \<Rightarrow> bv icx_slice list \<Rightarrow> nat \<Rightarrow> rc_state \<times> bv icx_slice \<Rightarrow> (rc_state \<times> bv icx_slice) res" where
  "merge_phi env bidx pres u = (\<lambda>(s, ans).
     rbind (merge_var env u pres (None, None, 0) ans) (\<lambda>(r, ans). case r of
         Some (Some acc, len) \<Rightarrow>
           let phi = Bv_Const (new_local_name u bidx 0 @ ''_phi'') len in
           rbind (safe_eq phi acc) (\<lambda>f.
           rbind (set_at (sl_var ans) u (Var_Init phi)) (\<lambda>vs.
           let ans = ans\<lparr>sl_var := vs\<rparr> in Inr ((rc_assert f s)\<lparr>rs_slice := ans\<rparr>, ans)))
       | _ \<Rightarrow> Inr (s\<lparr>rs_slice := ans\<rparr>, ans)))"

definition preprocess_for_basic_block :: "tcx \<Rightarrow> rc_env \<Rightarrow> nat \<Rightarrow> rc_state \<Rightarrow> rc_state res" where
  "preprocess_for_basic_block tcx env bidx s =
     (if bidx = 0 then
        rbind (rfold (init_argument tcx env) [0..<arg_count (re_body env)]
            (s, icx_slice_new_for_block_0 (length (local_decls (re_body env)))))
          (\<lambda>(s, sl). Inr (s\<lparr>rs_slice := sl\<rparr>))
      else
        rbind (at (rc_pre (re_graph env)) bidx) (\<lambda>pre.
          if length pre > 1 then
            rbind (rfold (\<lambda>idx sls. rbind (icx_slice_new_out (rs_icx s) idx) (\<lambda>sl. Inr (sls @ [sl]))) pre []) (\<lambda>sls.
            rbind (at sls 0) (\<lambda>sl0.
            rbind (rfold (merge_phi env bidx sls) [0..<length (sl_len sl0)] (s, sl0)) (\<lambda>(s, _). Inr s)))
          else
            rbind (at pre 0) (\<lambda>p.
            rbind (derive_from_pre_node p bidx (rs_icx s)) (\<lambda>c.
            rbind (icx_slice_new_in c bidx) (\<lambda>sl. Inr (s\<lparr>rs_icx := c, rs_slice := sl\<rparr>))))))"

definition icx_slice_default :: "bv icx_slice" where
  "icx_slice_default = \<lparr>sl_taint = [], sl_var = [], sl_len = [], sl_ty = [], sl_layout = []\<rparr>"

definition reprocess_for_basic_block :: "nat \<Rightarrow> rc_state \<Rightarrow> rc_state res" where
  "reprocess_for_basic_block bidx s =
     rbind (derive_from_icx_slice (rs_slice s) bidx (rs_icx s)) (\<lambda>c. Inr (s\<lparr>rs_slice := icx_slice_default, rs_icx := c\<rparr>))"

definition visit_block_data :: "tcx \<Rightarrow> rc_env \<Rightarrow> bb_data \<Rightarrow> nat \<Rightarrow> rc_state \<Rightarrow> rc_state res" where
  "visit_block_data tcx env data bidx s =
     rbind (preprocess_for_basic_block tcx env bidx s) (\<lambda>s.
     rbind (rfold (visit_statement tcx env bidx) (enumerate 0 (bb_statements data)) s) (\<lambda>s.
     rbind (unwrap (bb_terminator data)) (\<lambda>t.
     rbind (visit_terminator tcx env t bidx s) (reprocess_for_basic_block bidx))))"

definition rc_visit_body :: "tcx \<Rightarrow> rc_env \<Rightarrow> rc_state \<Rightarrow> rc_state res" where
  "rc_visit_body tcx env s =
     rfold (\<lambda>bidx s. rbind (at (basic_blocks (re_body env)) bidx) (\<lambda>data. visit_block_data tcx env data bidx s))
       (rc_topo (re_graph env)) s"

subsection \<open>The analysis of a crate\<close>

text \<open>\<open>cyclic\<close> is the compiler's \<open>is_cfg_cyclic\<close>, \<open>check\<close> the solver. The result lists the functions with the calls that may leak.\<close>

definition intra_run ::
    "(body \<Rightarrow> bool) \<Rightarrow> (ty \<Rightarrow> bool) \<Rightarrow> (formula list \<Rightarrow> sat_result) \<Rightarrow> (taint \<Rightarrow> taint) \<Rightarrow> tcx \<Rightarrow> adt_owner \<Rightarrow> mir_graph \<Rightarrow>
      (def_id \<times> terminator list) list res" where
  "intra_run cyclic fn_ptr check order tcx owner mg =
     rfold (\<lambda>d reports.
         let b = instance_mir tcx d in
         if cyclic b then Inr reports
         else rbind (unwrap (mg d)) (\<lambda>g.
           rbind (rc_visit_body tcx \<lparr>re_owner = owner, re_did = d, re_body = b, re_graph = g, re_fn_ptr = fn_ptr,
               re_check = check, re_order = order\<rparr> (rc_intra_new b)) (\<lambda>s.
             Inr (reports @ map (Pair d) (rs_reports s)))))
       (mir_keys tcx) []"

text \<open>\<open>rCanary::start\<close>: the type analysis, the order of the blocks, the constraints.\<close>

definition rc_start ::
    "nat \<Rightarrow> nat \<Rightarrow> nat \<Rightarrow> (body \<Rightarrow> bool) \<Rightarrow> (ty \<Rightarrow> bool) \<Rightarrow> (formula list \<Rightarrow> sat_result) \<Rightarrow> (taint \<Rightarrow> taint) \<Rightarrow> tcx \<Rightarrow>
      (def_id \<times> terminator list) list res" where
  "rc_start n bn tn cyclic fn_ptr check order tcx =
     rbind (ta_start n bn tn tcx type_analysis_new) (\<lambda>ta.
     rbind (rc_order tcx Map.empty) (intra_run cyclic fn_ptr check order tcx (map_of (ta_adt_owner ta))))"

end
