(* ===== verification/Rc_Intra_Props.thy ===== *)
theory Rc_Intra_Props
  imports Rc_Intra
begin

section \<open>Properties of the leak analysis\<close>

text \<open>
  What the constraints of an assignment say about ownership, when they contradict themselves, when a leak is
  reported, how wide a type may be, and where the analysis panics.
\<close>

subsection \<open>Bits and integers\<close>

fun bits_value :: "bool list \<Rightarrow> nat" where
  "bits_value [] = 0"
| "bits_value (b # bs) = (if b then 1 else 0) + 2 * bits_value bs"

lemma bits_value_less: "bits_value bs < 2 ^ length bs"
  by (induction bs) auto

lemma bit_bits_value: "i < length bs \<Longrightarrow> odd (bits_value bs div 2 ^ i) = bs ! i"
proof (induction bs arbitrary: i)
  case (Cons b bs)
  show ?case
  proof (cases i)
    case (Suc j)
    have "bits_value (b # bs) div 2 ^ i = bits_value bs div 2 ^ j"
      by (simp add: Suc div_mult2_eq)
    with Cons Suc show ?thesis by simp
  qed simp
qed simp

lemma rustbv_loop:
  assumes "ans < 2 ^ k" "k + length bs \<le> 63"
  shows "rfold (\<lambda>tf (ans, base).
         rbind (u64_checked (base * (if tf then 1 else 0))) (\<lambda>x.
         rbind (u64_checked (ans + x)) (\<lambda>ans.
         rbind (u64_checked (base * 2)) (\<lambda>base. Inr (ans, base))))) bs (ans, 2 ^ k) =
    Inr (ans + 2 ^ k * bits_value bs, 2 ^ (k + length bs))"
  using assms
proof (induction bs arbitrary: ans k)
  case (Cons b bs)
  let ?ans = "ans + 2 ^ k * (if b then 1 else 0)"
  have k: "(2::nat) ^ Suc k \<le> 2 ^ 63" using Cons.prems by (intro power_increasing) auto
  with Cons.prems(1) have ans: "?ans < 2 ^ Suc k" by auto
  then have "?ans < 2 ^ 64" "(2::nat) ^ k < 2 ^ 64" "(2::nat) ^ k * 2 < 2 ^ 64" using k by auto
  with Cons.IH [of ?ans "Suc k"] ans Cons.prems(2) show ?case
    by (auto simp: u64_checked_def algebra_simps)
qed simp

lemma rustbv_loop_overflow:
  assumes "ans < 2 ^ k" "k \<le> 63" "k + length bs > 63"
  shows "rfold (\<lambda>tf (ans, base).
         rbind (u64_checked (base * (if tf then 1 else 0))) (\<lambda>x.
         rbind (u64_checked (ans + x)) (\<lambda>ans.
         rbind (u64_checked (base * 2)) (\<lambda>base. Inr (ans, base))))) bs (ans, 2 ^ k) = Inl Overflow"
  using assms
proof (induction bs arbitrary: ans k)
  case (Cons b bs)
  let ?ans = "ans + 2 ^ k * (if b then 1 else 0)"
  have k: "(2::nat) ^ k \<le> 2 ^ 63" using Cons.prems by (intro power_increasing) auto
  from Cons.prems(1) have ans: "?ans < 2 ^ Suc k" by auto
  then have small: "?ans < 2 ^ 64" "(2::nat) ^ k < 2 ^ 64" using k by auto
  show ?case
  proof (cases "k = 63")
    case True
    with small show ?thesis by (auto simp: u64_checked_def)
  next
    case False
    with Cons.prems have "Suc k \<le> 63" by simp
    then have "(2::nat) ^ Suc k \<le> 2 ^ 63" by (intro power_increasing) auto
    with small ans Cons.IH [of ?ans "Suc k"] Cons.prems \<open>Suc k \<le> 63\<close> show ?thesis
      by (auto simp: u64_checked_def algebra_simps)
  qed
qed simp

lemma rustbv_to_int_eq: "rustbv_to_int bv = (if length bv < 64 then Inr (bits_value bv) else Inl Overflow)"
  using rustbv_loop [of 0 0 bv] rustbv_loop_overflow [of 0 0 bv] by (auto simp: rustbv_to_int_def)

lemma bv_eval_bits_value: "bv_eval e (Bv_Num (bits_value v) (length v)) = v"
  by (auto simp: bit_bits_value intro!: nth_equalityI)

text \<open>The conversion of an ownership layout into a number is exact up to 63 components and overflows from 64 on: for a shorter
  vector it returns the number below \<open>2 ^ n\<close> whose bits, read back by the solver at the width of the vector, are the vector; a
  type with 64 fields or more panics the leak analysis.\<close>

theorem rustbv_to_int_exact:
  "rustbv_to_int v = (if length v < 64 then Inr (bits_value v) else Inl Overflow) \<and> bits_value v < 2 ^ length v \<and>
   bv_eval e (Bv_Num (bits_value v) (length v)) = v"
  by (intro conjI rustbv_to_int_eq bits_value_less bv_eval_bits_value)

subsection \<open>Well-formed slices\<close>

text \<open>The vectors of a slice have one entry per local, and the vector of a local is a well-formed term of the recorded length.\<close>

definition rc_wf :: "nat \<Rightarrow> rc_state \<Rightarrow> bool" where
  "rc_wf n s \<longleftrightarrow> length (sl_var (rs_slice s)) = n \<and> length (sl_len (rs_slice s)) = n \<and> length (sl_ty (rs_slice s)) = n \<and>
     length (sl_layout (rs_slice s)) = n \<and> length (sl_taint (rs_slice s)) = n \<and>
     (\<forall>u < n. \<forall>b. sl_var (rs_slice s) ! u = Var_Init b \<longrightarrow> bv_ok b \<and> bv_width b = sl_len (rs_slice s) ! u)"

text \<open>The vector of a local, and the assignments that satisfy all constraints so far.\<close>

definition vec :: "rc_state \<Rightarrow> nat \<Rightarrow> bv intra_var" where
  "vec s u = sl_var (rs_slice s) ! u"

definition models :: "assignment_bits \<Rightarrow> rc_state \<Rightarrow> bool" where
  "models e s \<longleftrightarrow> (\<forall>f \<in> set (rs_solver s). holds e (\<lambda>_. True) f)"

lemma rc_wfD:
  assumes "rc_wf n s" "u < n"
  shows "u < length (sl_var (rs_slice s))" "u < length (sl_len (rs_slice s))" "u < length (sl_ty (rs_slice s))"
    "u < length (sl_layout (rs_slice s))" "u < length (sl_taint (rs_slice s))"
    "vec s u = Var_Init b \<Longrightarrow> bv_ok b \<and> bv_width b = sl_len (rs_slice s) ! u"
  using assms by (auto simp: rc_wf_def vec_def)

lemmas rc_access = var_at_def len_at_def bv_at_def set_var_def set_len_def set_ty_def set_layout_def set_taint_def
  at_def set_at_def

lemma rc_assert_simps [simp]:
  "rs_slice (rc_assert f s) = rs_slice s" "models e (rc_assert f s) \<longleftrightarrow> models e s \<and> holds e (\<lambda>_. True) f"
  "rs_taint_flag (rc_assert f s) = rs_taint_flag s" "rs_reports (rc_assert f s) = rs_reports s" "rs_icx (rc_assert f s) = rs_icx s"
  "rs_solver (rc_assert f s) = rs_solver s @ [f]"
  by (auto simp: rc_assert_def models_def)


subsection \<open>Assignments between locals\<close>

definition owns_nothing :: "assignment_bits \<Rightarrow> bv \<Rightarrow> bool" where
  "owns_nothing e b \<longleftrightarrow> bv_eval e b = replicate (bv_width b) False"

text \<open>An assignment the analysis tracks: the right side has a vector, and the left side has one of the same type or is constructed
  by the assignment.\<close>

definition tracked :: "tcx \<Rightarrow> rc_env \<Rightarrow> nat \<Rightarrow> place \<Rightarrow> rc_state \<Rightarrow> bool" where
  "tracked tcx env lu rplace s \<longleftrightarrow> (\<exists>r. vec s (p_local rplace) = Var_Init r \<and> 0 < bv_width r) \<and>
     (case vec s lu of
        Var_Init _ \<Rightarrow> sl_ty (rs_slice s) ! lu = sl_ty (rs_slice s) ! p_local rplace
      | Var_Declared \<Rightarrow> \<exists>t. indexed_ty_new tcx (fst (rc_place_ty tcx env rplace)) (snd (rc_place_ty tcx env rplace)) = Inr t \<and>
          get_priority t = 2
      | Var_Unsupported \<Rightarrow> False)"

text \<open>What \<open>dest_local\<close> passes on: the same vectors, and the constraint that a left side with a vector owned nothing.\<close>

definition left_freed :: "nat \<Rightarrow> rc_state \<Rightarrow> rc_state \<Rightarrow> bool" where
  "left_freed lu s s1 \<longleftrightarrow> sl_var (rs_slice s1) = sl_var (rs_slice s) \<and> sl_len (rs_slice s1) = sl_len (rs_slice s) \<and>
     sl_taint (rs_slice s1) = sl_taint (rs_slice s) \<and> length (sl_ty (rs_slice s1)) = length (sl_ty (rs_slice s)) \<and>
     length (sl_layout (rs_slice s1)) = length (sl_layout (rs_slice s)) \<and>
     rs_solver s1 = rs_solver s @ (case vec s lu of Var_Init l \<Rightarrow> [F_Eq l (Bv_Num 0 (bv_width l))] | _ \<Rightarrow> [])"

lemma dest_local_tracked:
  assumes wf: "rc_wf n s" and lu: "lu < n" and ru: "p_local rplace < n" and tr: "tracked tcx env lu rplace s"
  shows "\<exists>s1. left_freed lu s s1 \<and> (\<forall>k. dest_local tcx env lu (p_local rplace) rplace (same_ty lu (p_local rplace))
    (like_right lu (p_local rplace)) s k = k (vec s lu = Var_Declared) s1)"
proof (cases "vec s lu")
  case Var_Declared
  with tr obtain t where "indexed_ty_new tcx (fst (rc_place_ty tcx env rplace)) (snd (rc_place_ty tcx env rplace)) = Inr t"
    "get_priority t = 2" by (auto simp: tracked_def)
  with Var_Declared rc_wfD(1-5) [OF wf lu] rc_wfD(1-5) [OF wf ru] show ?thesis
    by (intro exI [of _ "s\<lparr>rs_slice := (rs_slice s)\<lparr>sl_ty := (sl_ty (rs_slice s))[lu := sl_ty (rs_slice s) ! p_local rplace],
        sl_layout := (sl_layout (rs_slice s))[lu := sl_layout (rs_slice s) ! p_local rplace]\<rparr>\<rparr>"])
      (simp add: dest_local_def like_right_def rc_access vec_def left_freed_def)
next
  case (Var_Init l)
  with tr have "sl_ty (rs_slice s) ! lu = sl_ty (rs_slice s) ! p_local rplace" by (simp add: tracked_def)
  with Var_Init rc_wfD [OF wf lu] rc_wfD(1-5) [OF wf ru] show ?thesis
    by (intro exI [of _ "rc_assert (F_Eq l (Bv_Num 0 (bv_width l))) s"])
      (simp add: dest_local_def same_ty_def rc_access vec_def left_freed_def assert_zero_def safe_eq_def)
next
  case Var_Unsupported
  with tr show ?thesis by (simp add: tracked_def)
qed

lemma asgn_done_eq:
  assumes "lu < length (sl_var (rs_slice s))" "ru < length (sl_var (rs_slice s))" "lu < length (sl_taint (rs_slice s))"
    "ru < length (sl_taint (rs_slice s))"
  shows "\<exists>ts. length ts = length (sl_taint (rs_slice s)) \<and> asgn_done env lu ru l r s =
    Inr (s\<lparr>rs_slice := (rs_slice s)\<lparr>sl_var := (sl_var (rs_slice s))[lu := Var_Init l, ru := Var_Init r], sl_taint := ts\<rparr>\<rparr>)"
proof (cases "is_untainted (sl_taint (rs_slice s) ! ru)")
  case True
  with assms show ?thesis by (intro exI [of _ "sl_taint (rs_slice s)"]) (simp add: asgn_done_def handle_taint_def rc_access)
next
  case False
  with assms show ?thesis
    by (intro exI [of _ "(sl_taint (rs_slice s))[lu := (if is_untainted (sl_taint (rs_slice s) ! lu) then sl_taint (rs_slice s) ! ru
        else fold taint_insert (re_order env (sl_taint (rs_slice s) ! ru)) (sl_taint (rs_slice s) ! lu))]"])
      (simp add: asgn_done_def handle_taint_def rc_access)
qed

text \<open>The state after an assignment that asserts \<open>f\<close> and gives both sides new vectors.\<close>

definition asgn_result :: "nat \<Rightarrow> nat \<Rightarrow> bv \<Rightarrow> bv \<Rightarrow> nat \<Rightarrow> formula list \<Rightarrow> rc_state \<Rightarrow> rc_state \<Rightarrow> bool" where
  "asgn_result lu ru l r len fs s s' \<longleftrightarrow>
     sl_var (rs_slice s') = (sl_var (rs_slice s))[lu := Var_Init l, ru := Var_Init r] \<and>
     sl_len (rs_slice s') = (sl_len (rs_slice s))[lu := len] \<and>
     length (sl_taint (rs_slice s')) = length (sl_taint (rs_slice s)) \<and>
     length (sl_ty (rs_slice s')) = length (sl_ty (rs_slice s)) \<and>
     length (sl_layout (rs_slice s')) = length (sl_layout (rs_slice s)) \<and>
     rs_solver s' = rs_solver s @ (case vec s lu of Var_Init l \<Rightarrow> [F_Eq l (Bv_Num 0 (bv_width l))] | _ \<Rightarrow> []) @ fs"

lemma rc_wf_asgn_result:
  assumes "asgn_result lu ru l r len fs s s'" "rc_wf n s" "lu < n" "ru < n" "lu \<noteq> ru"
    "bv_ok l" "bv_ok r" "bv_width l = len" "bv_width r = sl_len (rs_slice s) ! ru"
  shows "rc_wf n s'"
  using assms by (auto simp: rc_wf_def asgn_result_def nth_list_update)

lemma rc_handle_result:
  fixes bidx sidx
  assumes wf: "rc_wf n s" and lu: "p_local lplace < n" and ru: "p_local rplace < n" and tr: "tracked tcx env (p_local lplace) rplace s"
    and r: "vec s (p_local rplace) = Var_Init r"
  defines "l' \<equiv> Bv_Const (asgn_name (vec s (p_local lplace) = Var_Declared) (p_local lplace) bidx sidx) (bv_width r)"
    and "r' \<equiv> Bv_Const (new_local_name (p_local rplace) bidx sidx) (bv_width r)" and "z \<equiv> Bv_Num 0 (bv_width r)"
  shows "\<exists>s'. rc_handle_copy tcx env lplace rplace bidx sidx s = Inr s' \<and>
      asgn_result (p_local lplace) (p_local rplace) l' r' (bv_width r) [F_Or [F_And [F_Eq r' r, F_Eq l' z], F_And [F_Eq l' r, F_Eq r' z]]] s s'"
      (is ?copy)
    and "\<exists>s'. rc_handle_move tcx env lplace rplace bidx sidx s = Inr s' \<and>
      asgn_result (p_local lplace) (p_local rplace) l' r' (bv_width r) [F_Eq r' z, F_Eq l' r] s s'" (is ?move)
proof -
  let ?lu = "p_local lplace" and ?ru = "p_local rplace"
  have r2: "sl_var (rs_slice s) ! ?ru = Var_Init r" "sl_len (rs_slice s) ! ?ru = bv_width r" "0 < bv_width r"
    using rc_wfD(6) [OF wf ru r] r tr by (auto simp: vec_def tracked_def)
  have sup: "\<not> iv_is_unsupported (sl_var (rs_slice s) ! ?lu)"
    using tr by (auto simp: tracked_def vec_def split: intra_var.splits)
  note len = rc_wfD(1-5) [OF wf lu] rc_wfD(1-5) [OF wf ru]
  have start: "rc_guarded ?lu ?ru s f = f s" "len_at ?ru s = Inr (bv_width r)" "bv_at ?ru s = Inr r" for f
    using len sup r2 by (simp_all add: rc_guarded_def rc_access)
  obtain s1 where s1: "left_freed ?lu s s1" and d: "\<And>k. dest_local tcx env ?lu ?ru rplace (same_ty ?lu ?ru) (like_right ?lu ?ru) s k =
      k (vec s ?lu = Var_Declared) s1" using dest_local_tracked [OF wf lu ru tr] by blast
  let ?s2 = "s1\<lparr>rs_slice := (rs_slice s1)\<lparr>sl_len := (sl_len (rs_slice s1))[?lu := bv_width r]\<rparr>\<rparr>"
  have s2: "set_len ?lu (bv_width r) s1 = Inr ?s2" using s1 len by (simp add: rc_access left_freed_def)
  have eqs: "safe_eq r' r = Inr (F_Eq r' r)" "safe_eq l' z = Inr (F_Eq l' z)" "safe_eq l' r = Inr (F_Eq l' r)" "safe_eq r' z = Inr (F_Eq r' z)"
    by (simp_all add: safe_eq_def l'_def r'_def z_def)
  note fin = asgn_done_eq [of ?lu _ ?ru env l' r']
  show ?copy
    using fin [of "rc_assert (F_Or [F_And [F_Eq r' r, F_Eq l' z], F_And [F_Eq l' r, F_Eq r' z]]) ?s2"] len s1 r2(3) eqs
    by (auto simp: rc_handle_copy_def Let_def start d s2 left_freed_def asgn_result_def rc_assert_def simp flip: l'_def r'_def z_def)
  show ?move
    using fin [of "rc_assert (F_Eq l' r) (rc_assert (F_Eq r' z) ?s2)"] len s1 r2(3) eqs
    by (auto simp: rc_handle_move_def Let_def start d s2 left_freed_def asgn_result_def rc_assert_def simp flip: l'_def r'_def z_def)
qed


subsubsection \<open>Names\<close>

fun bv_names :: "bv \<Rightarrow> string set" where
  "bv_names (Bv_Const x _) = {x}"
| "bv_names (Bv_Num _ _) = {}"
| "bv_names (Bv_And a b) = bv_names a \<union> bv_names b"
| "bv_names (Bv_Extract _ _ a) = bv_names a"
| "bv_names (Bv_Concat a b) = bv_names a \<union> bv_names b"
| "bv_names (Bv_Sign_Ext _ a) = bv_names a"
| "bv_names (Bv_Redor a) = bv_names a"

fun f_names :: "formula \<Rightarrow> string set" where
  "f_names (F_Eq a b) = bv_names a \<union> bv_names b"
| "f_names (F_And fs) = (\<Union>f \<in> set fs. f_names f)"
| "f_names (F_Or fs) = (\<Union>f \<in> set fs. f_names f)"
| "f_names (F_Name _) = {}"

text \<open>The names in the constraints and in the vectors of a state.\<close>

definition used_names :: "rc_state \<Rightarrow> string set" where
  "used_names s = (\<Union>f \<in> set (rs_solver s). f_names f) \<union>
     (\<Union>v \<in> set (sl_var (rs_slice s)). case v of Var_Init b \<Rightarrow> bv_names b | _ \<Rightarrow> {})"

lemma bv_eval_cong: "(\<And>x. x \<in> bv_names t \<Longrightarrow> e x = e' x) \<Longrightarrow> bv_eval e t = bv_eval e' t"
proof (induction t)
  case (Bv_And a b)
  then have "bv_eval e a = bv_eval e' a" "bv_eval e b = bv_eval e' b" by (simp_all add: Bv_And.prems)
  then show ?case by simp
next
  case (Bv_Concat a b)
  then have "bv_eval e a = bv_eval e' a" "bv_eval e b = bv_eval e' b" by (simp_all add: Bv_Concat.prems)
  then show ?case by simp
qed simp_all

lemma holds_cong: "(\<And>x. x \<in> f_names f \<Longrightarrow> e x = e' x) \<Longrightarrow> holds e p f = holds e' p f"
proof (induction f)
  case (F_Eq a b)
  then have "bv_eval e a = bv_eval e' a" "bv_eval e b = bv_eval e' b" by (auto intro!: bv_eval_cong)
  then show ?case by simp
next
  case (F_And fs)
  then have "holds e p f = holds e' p f" if "f \<in> set fs" for f using that by fastforce
  then show ?case by auto
next
  case (F_Or fs)
  then have "holds e p f = holds e' p f" if "f \<in> set fs" for f using that by fastforce
  then show ?case by auto
qed simp

lemma models_cong: "(\<And>x. x \<in> used_names s \<Longrightarrow> e x = e' x) \<Longrightarrow> models e s = models e' s"
  unfolding models_def by (intro ball_cong holds_cong) (auto simp: used_names_def)

lemma vec_eval_cong:
  assumes "\<And>x. x \<in> used_names s \<Longrightarrow> e x = e' x" "vec s u = Var_Init b" "u < length (sl_var (rs_slice s))"
  shows "bv_eval e b = bv_eval e' b"
  using assms by (intro bv_eval_cong) (force simp: used_names_def vec_def in_set_conv_nth)

lemma no_underscore: "CHR ''_'' \<notin> set (nat_to_string n)"
  using nat_to_string_digits [of "CHR ''_''" n] by (auto simp: is_digit_def)

lemma nat_to_string_inj: "nat_to_string m = nat_to_string n \<longleftrightarrow> m = n"
  by (metis read_nat_to_string)

lemma asgn_name_neq: "lu \<noteq> ru \<Longrightarrow> asgn_name c lu bidx sidx \<noteq> new_local_name ru bidx sidx"
proof -
  have "nat_to_string lu @ ''_ctor_asgn'' \<noteq> nat_to_string ru"
  proof
    assume "nat_to_string lu @ ''_ctor_asgn'' = nat_to_string ru"
    then have "CHR ''_'' \<in> set (nat_to_string ru)" by (metis in_set_conv_decomp)
    with no_underscore show False by blast
  qed
  then show "asgn_name c lu bidx sidx \<noteq> new_local_name ru bidx sidx" if "lu \<noteq> ru"
    using that by (simp add: asgn_name_def new_local_name_def nat_to_string_inj)
qed

subsubsection \<open>Transfer of ownership\<close>

text \<open>The values of two vectors under an assignment: the first owns what \<open>r\<close> owned, the second nothing.\<close>

definition given_to :: "assignment_bits \<Rightarrow> bv \<Rightarrow> bv \<Rightarrow> bv \<Rightarrow> bool" where
  "given_to e r a b \<longleftrightarrow> bv_eval e a = bv_eval e r \<and> owns_nothing e b"

definition left_empty :: "assignment_bits \<Rightarrow> rc_state \<Rightarrow> nat \<Rightarrow> bool" where
  "left_empty e s u \<longleftrightarrow> (\<forall>l. vec s u = Var_Init l \<longrightarrow> owns_nothing e l)"

lemma models_asgn_result:
  assumes "asgn_result lu ru l r len fs s s'"
  shows "models e s' \<longleftrightarrow> models e s \<and> left_empty e s lu \<and> (\<forall>f \<in> set fs. holds e (\<lambda>_. True) f)"
  using assms
  by (cases "vec s lu") (auto simp: asgn_result_def models_def left_empty_def owns_nothing_def map_replicate_const)

text \<open>Two new names can be given any values.\<close>

lemma extend_two:
  assumes "x \<noteq> y" "length a = w" "length b = w"
  shows "\<exists>e'. bv_eval e' (Bv_Const x w) = a \<and> bv_eval e' (Bv_Const y w) = b \<and> (\<forall>z. z \<noteq> x \<and> z \<noteq> y \<longrightarrow> e' z = e z)"
  using assms
  by (intro exI [of _ "e(x := \<lambda>_. nth a, y := \<lambda>_. nth b)"]) (auto intro: nth_equalityI)


lemma satisfiable_asgn_result:
  assumes res: "asgn_result lu ru (Bv_Const x w) (Bv_Const y w) w fs s s'" and neq: "x \<noteq> y"
    and wf: "rc_wf n s" and lu: "lu < n" and ru: "ru < n" and r: "vec s ru = Var_Init r" "w = bv_width r"
    and fresh: "x \<notin> used_names s" "y \<notin> used_names s"
    and fs: "\<And>e. given_to e r (Bv_Const x w) (Bv_Const y w) \<Longrightarrow> \<forall>f \<in> set fs. holds e (\<lambda>_. True) f"
    and e: "models e s" "left_empty e s lu"
  shows "\<exists>e'. models e' s' \<and> given_to e' r (Bv_Const x w) (Bv_Const y w) \<and> (\<forall>z \<in> used_names s. e' z = e z)"
proof -
  have "length (bv_eval e r) = w" using rc_wfD(6) [OF wf ru r(1)] r(2) by (simp add: length_bv_eval)
  with extend_two [OF neq, of "bv_eval e r" w "replicate w False" e] obtain e' where
    e': "bv_eval e' (Bv_Const x w) = bv_eval e r" "bv_eval e' (Bv_Const y w) = replicate w False" "\<forall>z. z \<noteq> x \<and> z \<noteq> y \<longrightarrow> e' z = e z"
    by auto
  then have same: "e' z = e z" if "z \<in> used_names s" for z using fresh that by metis
  have "models e' s" using e(1) models_cong [of s e' e] same by blast
  moreover have "left_empty e' s lu"
    using e(2) vec_eval_cong [of s e' e, OF same] rc_wfD(1) [OF wf lu] by (auto simp: left_empty_def owns_nothing_def)
  moreover have "given_to e' r (Bv_Const x w) (Bv_Const y w)"
    using e' vec_eval_cong [of s e' e, OF same r(1) rc_wfD(1) [OF wf ru]] by (simp add: given_to_def owns_nothing_def)
  ultimately show ?thesis using fs same models_asgn_result [OF res] by blast
qed

text \<open>C6: An assignment between locals passes ownership on without duplicating or losing it. For a tracked assignment \<open>l = r\<close> the
  handlers return without a panic and keep the slice well formed, and in every model of the constraints the old value of
  the left side owned nothing, and the new vectors divide what \<open>r\<close> owned: a move gives all of it to \<open>l\<close>, a copy gives all
  of it either to \<open>l\<close> or to \<open>r\<close>. The constraints are no stronger than that: if the names of the program point are new, every
  model of the constraints before, in which the left side owns nothing, extends to a model in which \<open>l\<close> owns what \<open>r\<close> did.\<close>

theorem assignment_transfers_ownership:
  assumes wf: "rc_wf n s" and l: "p_local lplace < n" and r: "p_local rplace < n" "p_local lplace \<noteq> p_local rplace"
    and tr: "tracked tcx env (p_local lplace) rplace s" and rv: "vec s (p_local rplace) = Var_Init rb"
    and fresh: "{asgn_name (vec s (p_local lplace) = Var_Declared) (p_local lplace) bidx sidx, new_local_name (p_local rplace) bidx sidx} \<inter>
      used_names s = {}"
  shows "\<exists>s' s'' lb' rb'. rc_handle_move tcx env lplace rplace bidx sidx s = Inr s' \<and> rc_handle_copy tcx env lplace rplace bidx sidx s = Inr s'' \<and>
    (\<forall>t \<in> {s', s''}. rc_wf n t \<and> vec t (p_local lplace) = Var_Init lb' \<and> vec t (p_local rplace) = Var_Init rb' \<and>
      (\<forall>e. models e s \<and> left_empty e s (p_local lplace) \<longrightarrow> (\<exists>e'. models e' t \<and> given_to e' rb lb' rb' \<and> (\<forall>z \<in> used_names s. e' z = e z)))) \<and>
    (\<forall>e. models e s' \<longrightarrow> left_empty e s (p_local lplace) \<and> given_to e rb lb' rb') \<and>
    (\<forall>e. models e s'' \<longrightarrow> left_empty e s (p_local lplace) \<and> (given_to e rb lb' rb' \<or> given_to e rb rb' lb'))"
proof -
  let ?lu = "p_local lplace" and ?ru = "p_local rplace" and ?w = "bv_width rb"
  let ?x = "asgn_name (vec s ?lu = Var_Declared) ?lu bidx sidx" and ?y = "new_local_name ?ru bidx sidx"
  let ?l = "Bv_Const ?x ?w" and ?r = "Bv_Const ?y ?w"
  have vecs: "rc_wf n t \<and> vec t ?lu = Var_Init ?l \<and> vec t ?ru = Var_Init ?r" if "asgn_result ?lu ?ru ?l ?r ?w fs s t" for fs t
    using rc_wf_asgn_result [OF that wf l r] rc_wfD(6) [OF wf r(1) rv] that rc_wfD(1) [OF wf l] rc_wfD(1) [OF wf r(1)] r(2)
    by (simp add: vec_def asgn_result_def)
  have sat: "\<exists>e'. models e' t \<and> given_to e' rb ?l ?r \<and> (\<forall>z \<in> used_names s. e' z = e z)"
    if "asgn_result ?lu ?ru ?l ?r ?w fs s t" "\<And>e. given_to e rb ?l ?r \<Longrightarrow> \<forall>f \<in> set fs. holds e (\<lambda>_. True) f"
      "models e s \<and> left_empty e s ?lu" for fs t e
    using satisfiable_asgn_result [OF that(1) asgn_name_neq [OF r(2)] wf l r(1) rv refl] that fresh by blast
  obtain s' where s': "rc_handle_move tcx env lplace rplace bidx sidx s = Inr s'"
      "asgn_result ?lu ?ru ?l ?r ?w [F_Eq ?r (Bv_Num 0 ?w), F_Eq ?l rb] s s'"
    using rc_handle_result(2) [OF wf l r(1) tr rv] by blast
  obtain s'' where s'': "rc_handle_copy tcx env lplace rplace bidx sidx s = Inr s''"
      "asgn_result ?lu ?ru ?l ?r ?w [F_Or [F_And [F_Eq ?r rb, F_Eq ?l (Bv_Num 0 ?w)], F_And [F_Eq ?l rb, F_Eq ?r (Bv_Num 0 ?w)]]] s s''"
    using rc_handle_result(1) [OF wf l r(1) tr rv] by blast
  have gives: "given_to e rb a b \<longleftrightarrow> bv_eval e a = bv_eval e rb \<and> bv_eval e b = bv_eval e (Bv_Num 0 ?w)" if "bv_width b = ?w" for e a b
    using that by (simp add: given_to_def owns_nothing_def map_replicate_const)
  have t1: "\<forall>e. models e s' \<longrightarrow> left_empty e s ?lu \<and> given_to e rb ?l ?r"
    unfolding models_asgn_result [OF s'(2)] by (simp add: gives)
  have t2: "\<forall>e. models e s'' \<longrightarrow> left_empty e s ?lu \<and> (given_to e rb ?l ?r \<or> given_to e rb ?r ?l)"
    unfolding models_asgn_result [OF s''(2)] by (auto simp: gives)
  have t3: "\<exists>e'. models e' t \<and> given_to e' rb ?l ?r \<and> (\<forall>z \<in> used_names s. e' z = e z)"
    if "t = s' \<or> t = s''" "models e s \<and> left_empty e s ?lu" for t e
    using that sat [OF s'(2) _ that(2)] sat [OF s''(2) _ that(2)] by (auto simp: gives)
  have t4: "rc_wf n t \<and> vec t ?lu = Var_Init ?l \<and> vec t ?ru = Var_Init ?r" if "t = s' \<or> t = s''" for t
    using that vecs [OF s'(2)] vecs [OF s''(2)] by blast
  have t5: "\<forall>t \<in> {s', s''}. rc_wf n t \<and> vec t ?lu = Var_Init ?l \<and> vec t ?ru = Var_Init ?r \<and>
      (\<forall>e. models e s \<and> left_empty e s ?lu \<longrightarrow> (\<exists>e'. models e' t \<and> given_to e' rb ?l ?r \<and> (\<forall>z \<in> used_names s. e' z = e z)))"
  proof (intro ballI conjI allI impI)
    fix t e assume "t \<in> {s', s''}"
    then have t: "t = s' \<or> t = s''" by blast
    show "rc_wf n t" "vec t ?lu = Var_Init ?l" "vec t ?ru = Var_Init ?r" using t4 [OF t] by blast+
    show "\<exists>e'. models e' t \<and> given_to e' rb ?l ?r \<and> (\<forall>z \<in> used_names s. e' z = e z)" if "models e s \<and> left_empty e s ?lu"
      using t3 [OF t that] .
  qed
  show ?thesis by (intro exI conjI, fact s'(1), fact s''(1), fact t5, fact t1, fact t2)
qed


text \<open>Three locals; the last has a vector of one bit, the solver is one that never answers.\<close>

definition demo_rc_tcx :: tcx where
  "demo_rc_tcx = demo_tcx\<lparr>place_ty := (\<lambda>_ _. (Ty_RawPtr Ty_Bool Mut, None)),
     adt_variants := (\<lambda>_ _. [[Ty_RawPtr Ty_Bool Mut, Ty_RawPtr Ty_Bool Mut]])\<rparr>"

definition demo_rc_env :: rc_env where
  "demo_rc_env = \<lparr>re_owner = Map.empty, re_did = 0,
     re_body = \<lparr>local_decls = [Ty_Bool, Ty_Adt 0 [], Ty_RawPtr Ty_Bool Mut, Ty_RawPtr Ty_Bool Mut], arg_count = 0, basic_blocks = [], body_span = 0\<rparr>,
     re_graph = rc_graph_new 0, re_fn_ptr = (\<lambda>_. False), re_check = (\<lambda>_. Unknown), re_order = (\<lambda>ts. ts)\<rparr>"

definition demo_rc_state :: "bv intra_var list \<Rightarrow> rc_state" where
  "demo_rc_state vs = (rc_intra_new (re_body demo_rc_env))\<lparr>rs_slice :=
     \<lparr>sl_taint = replicate (length vs) [], sl_var = vs, sl_len = map (\<lambda>v. case v of Var_Init b \<Rightarrow> bv_width b | _ \<Rightarrow> 0) vs,
      sl_ty = replicate (length vs) None, sl_layout = replicate (length vs) []\<rparr>\<rparr>"

lemma demo_rc_wf: "(\<And>b. Var_Init b \<in> set vs \<Longrightarrow> bv_ok b) \<Longrightarrow> length vs = n \<Longrightarrow> rc_wf n (demo_rc_state vs)"
  by (auto simp: rc_wf_def demo_rc_state_def) (metis nth_mem)

lemma demo_rc_state_simps [simp]:
  "vec (demo_rc_state vs) u = vs ! u" "rs_solver (demo_rc_state vs) = []"
  "used_names (demo_rc_state vs) = (\<Union>v \<in> set vs. case v of Var_Init b \<Rightarrow> bv_names b | _ \<Rightarrow> {})"
  by (simp_all add: demo_rc_state_def vec_def used_names_def rc_intra_new_def)

lemma name_neq_a: "new_local_name u b i \<noteq> ''a''" "asgn_name c u b i \<noteq> ''a''"
  by (auto simp: new_local_name_def asgn_name_def dest: arg_cong [where f = length])

theorem assignment_transfers_ownership_witness:
  "\<exists>s' lb' rb'. rc_handle_move demo_rc_tcx demo_rc_env \<lparr>p_local = 1, p_projection = []\<rparr> \<lparr>p_local = 2, p_projection = []\<rparr> 0 0
      (demo_rc_state [Var_Declared, Var_Declared, Var_Init (Bv_Const ''a'' 1)]) = Inr s' \<and> rc_wf 3 s' \<and>
    vec s' 1 = Var_Init lb' \<and> vec s' 2 = Var_Init rb' \<and> (\<forall>e. models e s' \<longrightarrow> given_to e (Bv_Const ''a'' 1) lb' rb')"
proof -
  let ?s = "demo_rc_state [Var_Declared, Var_Declared, Var_Init (Bv_Const ''a'' 1)]"
  have "rc_wf 3 ?s" by (rule demo_rc_wf) auto
  moreover have "tracked demo_rc_tcx demo_rc_env 1 \<lparr>p_local = 2, p_projection = []\<rparr> ?s"
    by (simp add: tracked_def rc_place_ty_def demo_rc_tcx_def indexed_ty_new_def get_priority_def)
  ultimately show ?thesis
    using assignment_transfers_ownership [of 3 ?s "\<lparr>p_local = 1, p_projection = []\<rparr>" "\<lparr>p_local = 2, p_projection = []\<rparr>"
        demo_rc_tcx demo_rc_env "Bv_Const ''a'' 1" 0 0] name_neq_a
    by (auto 0 3)
qed


subsection \<open>Aggregates\<close>

lemma bv_splice_total:
  assumes "idx < w" "bv_width m = 1"
  shows "\<exists>fin. bv_splice lb w idx m = Inr fin \<and> bv_width fin = w"
  using assms by (cases "idx < w - 1"; cases "idx > 0") (auto simp: bv_splice_def Let_def)

lemma rc_move_to_field_step:
  fixes bidx sidx
  assumes wf: "rc_wf n s" and l: "l < n" and r: "r < n" "l \<noteq> r" and lv: "vec s l = Var_Init lb" and rv: "vec s r = Var_Init rb" "0 < bv_width rb"
    and ty: "l < length (local_decls (re_body env))" "arg_count (re_body env) < l"
    and lay: "extract_default_ty_layout tcx env (local_decls (re_body env) ! l, None) = Inr lay" "\<not> no_layout lay"
    and idx: "idx < bv_width lb" "length (lay_layout lay) = bv_width lb"
  defines "L \<equiv> Bv_Const (new_local_name l bidx sidx) (bv_width lb)" and "R \<equiv> Bv_Const (new_local_name r bidx sidx) (bv_width rb)"
  shows "\<exists>s' fin. rc_handle_move_to_field tcx env \<lparr>p_local = l, p_projection = []\<rparr> \<lparr>p_local = r, p_projection = []\<rparr> None (Some idx) bidx sidx s = Inr s' \<and>
    bv_splice lb (bv_width lb) idx (Bv_Redor rb) = Inr fin \<and> rc_wf n s' \<and>
    sl_var (rs_slice s') = (sl_var (rs_slice s))[l := Var_Init L, r := Var_Init R] \<and>
    rs_solver s' = rs_solver s @ [F_Eq (Bv_Extract idx idx lb) (Bv_Num 0 1), F_Eq R (Bv_Num 0 (bv_width rb)), F_Eq L fin]"
proof -
  let ?lp = "\<lparr>p_local = l, p_projection = []\<rparr> :: place" and ?rp = "\<lparr>p_local = r, p_projection = []\<rparr> :: place"
  note lens = rc_wfD(1-5) [OF wf l] rc_wfD(1-5) [OF wf r(1)]
  note lb = rc_wfD(6) [OF wf l lv] and rb = rc_wfD(6) [OF wf r(1) rv(1)]
  obtain fin where fin: "bv_splice lb (bv_width lb) idx (Bv_Redor rb) = Inr fin" "bv_width fin = bv_width lb"
    using bv_splice_total [OF idx(1), of "Bv_Redor rb" lb] by auto
  let ?s1 = "s\<lparr>rs_slice := (rs_slice s)\<lparr>sl_len := (sl_len (rs_slice s))[l := bv_width lb]\<rparr>\<rparr>"
  let ?s2 = "rc_assert (F_Eq L fin) (rc_assert (F_Eq R (Bv_Num 0 (bv_width rb))) (rc_assert (F_Eq (Bv_Extract idx idx lb) (Bv_Num 0 1)) ?s1))"
  have "rc_handle_move_to_field tcx env ?lp ?rp None (Some idx) bidx sidx s = asgn_done env l r L R ?s2"
    using lens lb rb lv rv ty lay idx r fin
    by (simp add: rc_handle_move_to_field_def to_field_def rc_guarded_def rc_access vec_def extract_projection_def projection_support_default_def
        has_field_def has_downcast_def index_needed_def dest_field_def assert_zero_def safe_eq_def L_def R_def Let_def)
  moreover obtain ts where "length ts = length (sl_taint (rs_slice ?s2))" "asgn_done env l r L R ?s2 =
      Inr (?s2\<lparr>rs_slice := (rs_slice ?s2)\<lparr>sl_var := (sl_var (rs_slice ?s2))[l := Var_Init L, r := Var_Init R], sl_taint := ts\<rparr>\<rparr>)"
    using asgn_done_eq [of l ?s2 r env L R] lens by auto
  moreover from this(1) have "rc_wf n (?s2\<lparr>rs_slice := (rs_slice ?s2)\<lparr>sl_var := (sl_var (rs_slice ?s2))[l := Var_Init L, r := Var_Init R], sl_taint := ts\<rparr>\<rparr>)"
    using wf l r rb by (auto simp: rc_wf_def nth_list_update L_def R_def)
  ultimately show ?thesis using fin by (auto simp: rc_assert_def)
qed

lemma splice_two:
  assumes "bv_ok lb" "bv_width lb = 2" "bv_splice lb 2 1 m = Inr fin" "length (bv_eval e m) = 1"
  shows "bv_eval e fin = [bv_eval e lb ! 0, bv_eval e m ! 0]"
proof -
  obtain x y where "bv_eval e lb = [x, y]" using assms(1,2) length_bv_eval [of lb e] by (auto simp: length_Suc_conv numeral_2_eq_2)
  with assms(3,4) show ?thesis by (auto simp: bv_splice_def length_Suc_conv)
qed

text \<open>A vector of two that is spliced with the second owner but has an empty second component.\<close>

lemma second_field_empty:
  assumes "bv_splice (Bv_Const x 2) 2 1 (Bv_Redor b) = Inr fin" and "bv_eval e (Bv_Extract 1 1 (Bv_Const x 2)) = [False]"
    "bv_eval e (Bv_Const x 2) = bv_eval e fin" "length (bv_eval e b) = bv_width b"
  shows "owns_nothing e b"
proof -
  have "bv_eval e fin = [bv_eval e (Bv_Const x 2) ! 0, list_ex id (bv_eval e b)]" using splice_two [OF _ _ assms(1), of e] by simp
  with assms(2,3) have "\<not> list_ex id (bv_eval e b)" by (simp add: numeral_2_eq_2)
  then show ?thesis using assms(4) unfolding owns_nothing_def by (auto simp: list_ex_length intro: nth_equalityI)
qed

text \<open>C24: Building a struct from two moved operands contradicts the constraints if the second one owns memory. The handler of the
  second field requires that its bit was clear and names the new vector of the struct after the statement, as the handler
  of the first field did: the constraints then equate the old vector with the new one, so that the analysis returns, but in
  every model the second operand owns nothing. For a second operand that does own memory there is no model, and a leak is
  reported wherever ownership once went into a pointer.\<close>

theorem aggregate_of_two_owners_contradicts:
  assumes wf: "rc_wf n s" and l: "l < n" "vec s l = Var_Declared" and arg: "arg_count (re_body env) < l"
    and r1: "r1 < n" "vec s r1 = Var_Init b1" "0 < bv_width b1" and r2: "r2 < n" "vec s r2 = Var_Init b2" "0 < bv_width b2" and neq: "r1 \<noteq> r2"
    and ty: "l < length (local_decls (re_body env))" "local_decls (re_body env) ! l = Ty_Adt d substs" "adt_kind_of tcx d = Adt_Struct"
      "adt_variants tcx d substs \<noteq> []"
    and lay: "extract_default_ty_layout tcx env (Ty_Adt d substs, None) = Inr lay" "\<not> no_layout lay" "length (lay_layout lay) = 2"
  shows "\<exists>s'. visit_assign tcx env \<lparr>p_local = l, p_projection = []\<rparr>
      (Aggregate (Agg_Adt d 0) [Move \<lparr>p_local = r1, p_projection = []\<rparr>, Move \<lparr>p_local = r2, p_projection = []\<rparr>]) None bidx sidx s = Inr s' \<and>
    (\<forall>e. models e s' \<longrightarrow> models e s \<and> owns_nothing e b2)"
proof -
  let ?lp = "\<lparr>p_local = l, p_projection = []\<rparr> :: place"
  let ?p = "\<lambda>r. \<lparr>p_local = r, p_projection = []\<rparr> :: place"
  let ?ctor = "Bv_Const (new_local_name l bidx sidx @ ''_ctor_asgn'') 2" and ?L = "Bv_Const (new_local_name l bidx sidx) 2"
  have lr: "l \<noteq> r1" "l \<noteq> r2" using l r1 r2 by auto
  note lens = rc_wfD(1-5) [OF wf l(1)]
  have lay': "extract_default_ty_layout tcx env (Ty_Adt d substs, Some 0) = Inr lay"
    using lay(1) ty(3) by (simp add: extract_default_ty_layout_def encode_def)
  obtain t where t: "indexed_ty_new tcx (Ty_Adt d substs) None = Inr t" using ty(3,4) by (simp add: indexed_ty_new_def at_def)
  define s0 where "s0 = (rc_assert (F_Eq ?ctor (Bv_Num 0 2)) s)\<lparr>rs_slice := (rs_slice s)\<lparr>sl_len := (sl_len (rs_slice s))[l := 2],
    sl_ty := (sl_ty (rs_slice s))[l := t], sl_var := (sl_var (rs_slice s))[l := Var_Init ?ctor]\<rparr>\<rparr>"
  have init: "handle_aggregate_init tcx env ?lp 0 None bidx sidx s = Inr s0"
    using lens l ty lay lay' t
    by (simp add: handle_aggregate_init_def rc_access vec_def assert_zero_def safe_eq_def s0_def rc_assert_def Let_def)
  have s0: "rc_wf n s0" "vec s0 l = Var_Init ?ctor" "vec s0 r1 = Var_Init b1" "vec s0 r2 = Var_Init b2" "\<And>e. models e s0 \<Longrightarrow> models e s"
    using wf l r1 r2 lr by (auto simp: s0_def rc_wf_def vec_def nth_list_update models_def rc_assert_def)
  from rc_move_to_field_step [OF s0(1) l(1) r1(1) lr(1) s0(2,3) r1(3) ty(1) arg, of tcx lay 0 bidx sidx] ty lay
  have "\<exists>s1. rc_handle_move_to_field tcx env ?lp (?p r1) None (Some 0) bidx sidx s0 = Inr s1 \<and> rc_wf n s1 \<and>
      sl_var (rs_slice s1) = (sl_var (rs_slice s0))[l := Var_Init ?L, r1 := Var_Init (Bv_Const (new_local_name r1 bidx sidx) (bv_width b1))] \<and>
      set (rs_solver s0) \<subseteq> set (rs_solver s1)" by force
  then obtain s1 where s1: "rc_handle_move_to_field tcx env ?lp (?p r1) None (Some 0) bidx sidx s0 = Inr s1" "rc_wf n s1"
      "sl_var (rs_slice s1) = (sl_var (rs_slice s0))[l := Var_Init ?L, r1 := Var_Init (Bv_Const (new_local_name r1 bidx sidx) (bv_width b1))]"
      "set (rs_solver s0) \<subseteq> set (rs_solver s1)" by blast
  have v1: "vec s1 l = Var_Init ?L" "vec s1 r2 = Var_Init b2"
    using s1(3) s0(4) lr neq rc_wfD(1) [OF s0(1) l(1)] by (auto simp: vec_def nth_list_update)
  from rc_move_to_field_step [OF s1(2) l(1) r2(1) lr(2) v1 r2(3) ty(1) arg, of tcx lay 1 bidx sidx] ty lay
  have "\<exists>s2 fin2. rc_handle_move_to_field tcx env ?lp (?p r2) None (Some 1) bidx sidx s1 = Inr s2 \<and>
      bv_splice ?L 2 1 (Bv_Redor b2) = Inr fin2 \<and> set (rs_solver s1) \<subseteq> set (rs_solver s2) \<and>
      F_Eq (Bv_Extract 1 1 ?L) (Bv_Num 0 1) \<in> set (rs_solver s2) \<and> F_Eq ?L fin2 \<in> set (rs_solver s2)" by force
  then obtain s2 fin2 where s2: "rc_handle_move_to_field tcx env ?lp (?p r2) None (Some 1) bidx sidx s1 = Inr s2"
      "bv_splice ?L 2 1 (Bv_Redor b2) = Inr fin2" "set (rs_solver s1) \<subseteq> set (rs_solver s2)"
      "F_Eq (Bv_Extract 1 1 ?L) (Bv_Num 0 1) \<in> set (rs_solver s2)" "F_Eq ?L fin2 \<in> set (rs_solver s2)" by blast
  have run: "visit_assign tcx env ?lp (Aggregate (Agg_Adt d 0) [Move (?p r1), Move (?p r2)]) None bidx sidx s = Inr s2"
    using init s1(1) s2(1) by (simp add: visit_assign_def has_projection_def aggregate_field_def)
  have "owns_nothing e b2" if "models e s2" for e
    using rc_wfD(6) [OF wf r2(1,2)] that s2(4,5) by (intro second_field_empty [OF s2(2)]) (auto simp: models_def length_bv_eval)
  moreover have "models e s" if "models e s2" for e
    using that by (intro s0(5)) (meson models_def s1(4) s2(3) subsetD)
  ultimately show ?thesis using run by blast
qed


theorem aggregate_of_two_owners_contradicts_witness:
  "\<exists>s'. visit_assign demo_rc_tcx demo_rc_env \<lparr>p_local = 1, p_projection = []\<rparr>
      (Aggregate (Agg_Adt 0 0) [Move \<lparr>p_local = 2, p_projection = []\<rparr>, Move \<lparr>p_local = 3, p_projection = []\<rparr>]) None 0 0
      (demo_rc_state [Var_Declared, Var_Declared, Var_Init (Bv_Const ''a'' 1), Var_Init (Bv_Const ''b'' 1)]) = Inr s' \<and>
    (\<forall>e. models e s' \<longrightarrow> owns_nothing e (Bv_Const ''b'' 1))"
proof -
  let ?s = "demo_rc_state [Var_Declared, Var_Declared, Var_Init (Bv_Const ''a'' 1), Var_Init (Bv_Const ''b'' 1)]"
  have wf: "rc_wf 4 ?s" by (rule demo_rc_wf) auto
  define lay where "lay = \<lparr>lay_layout = [Unowned, Unowned], lay_param = False, lay_requirement = True, lay_owned = False\<rparr>"
  have "extract_default_ty_layout demo_rc_tcx demo_rc_env (Ty_Adt 0 [], None) = Inr lay"
    by (simp add: extract_default_ty_layout_def encode_def demo_rc_tcx_def demo_tcx_def demo_rc_env_def adt_all_fields_def encode_part_def
        default_ownership_new_def update_from_default_ownership_visitor_def layout_result_new_def Let_def lay_def)
  with wf show ?thesis
    using aggregate_of_two_owners_contradicts [of 4 ?s 1 demo_rc_env 2 "Bv_Const ''a'' 1" 3 "Bv_Const ''b'' 1" 0 "[]" demo_rc_tcx lay 0 0]
    by (auto simp: demo_rc_env_def demo_rc_tcx_def demo_tcx_def lay_def no_layout_def)
qed

subsection \<open>A missing return\<close>

text \<open>C25: Moving through a dereference into a field panics. When the right side of a move has a projection but no field, and the left
  side has a field, the handler delegates to the move into a field but does not return afterwards; it goes on to read the
  field of the right side, which does not exist. So if the delegated move succeeds, the handler ends in an index panic.\<close>

theorem move_deref_to_field_panics:
  assumes s: "vec s l = Var_Init lb \<or> vec s l = Var_Declared" "vec s r = Var_Init rb" "l < length (sl_var (rs_slice s))" "r < length (sl_var (rs_slice s))"
    and decl: "l < length (local_decls (re_body env))"
    and moved: "rc_handle_move_to_field tcx env \<lparr>p_local = l, p_projection = lproj\<rparr> \<lparr>p_local = r, p_projection = [Deref]\<rparr> disc aggre bidx sidx s = Inr t"
    and fld: "aggre = Some idx \<or> aggre = None \<and> lproj = [Field k ty]"
  shows "rc_handle_move_field_to_field tcx env \<lparr>p_local = l, p_projection = lproj\<rparr> \<lparr>p_local = r, p_projection = [Deref]\<rparr> disc aggre bidx sidx s =
    Inl Out_of_bounds"
proof -
  have l: "has_field (extract_projection tcx env \<lparr>p_local = l, p_projection = lproj\<rparr> aggre)"
      "\<not> ps_unsupport (extract_projection tcx env \<lparr>p_local = l, p_projection = lproj\<rparr> aggre)"
    using fld by (auto simp: extract_projection_def projection_support_default_def has_field_def)
  have r: "\<not> has_field (extract_projection tcx env \<lparr>p_local = r, p_projection = [Deref]\<rparr> None)"
      "\<not> ps_unsupport (extract_projection tcx env \<lparr>p_local = r, p_projection = [Deref]\<rparr> None)"
      "index_needed (extract_projection tcx env \<lparr>p_local = r, p_projection = [Deref]\<rparr> None) = Inl Out_of_bounds"
    by (auto simp: extract_projection_def projection_support_default_def has_field_def index_needed_def at_def)
  have "\<not> iv_is_unsupported (sl_var (rs_slice s) ! l)" using s(1) by (auto simp: vec_def)
  with s decl have "rc_guarded l r s f = f s" for f by (simp add: rc_guarded_def rc_access vec_def)
  with decl l r moved show ?thesis by (simp add: rc_handle_move_field_to_field_def field_to_field_def at_def)
qed

theorem move_deref_to_field_panics_witness:
  "rc_handle_move_field_to_field demo_rc_tcx demo_rc_env \<lparr>p_local = 1, p_projection = []\<rparr> \<lparr>p_local = 2, p_projection = [Deref]\<rparr> None (Some 0) 0 0
     (demo_rc_state [Var_Declared, Var_Declared, Var_Init (Bv_Const ''a'' 1)]) = Inl Out_of_bounds"
proof -
  have "\<exists>t. rc_handle_move_to_field demo_rc_tcx demo_rc_env \<lparr>p_local = 1, p_projection = []\<rparr> \<lparr>p_local = 2, p_projection = [Deref]\<rparr> None (Some 0) 0 0
     (demo_rc_state [Var_Declared, Var_Declared, Var_Init (Bv_Const ''a'' 1)]) = Inr t"
    by (simp add: rc_handle_move_to_field_def to_field_def rc_guarded_def rc_access demo_rc_state_def rc_intra_new_def demo_rc_env_def
        extract_projection_def projection_support_default_def has_field_def has_downcast_def index_needed_def extract_default_ty_layout_def encode_def
        demo_rc_tcx_def demo_tcx_def adt_all_fields_def encode_part_def default_ownership_new_def update_from_default_ownership_visitor_def
        layout_result_new_def no_layout_def dest_field_def assert_zero_def safe_eq_def indexed_ty_new_def bv_splice_def asgn_done_def handle_taint_def
        is_untainted_def Let_def)
  then show ?thesis
    using move_deref_to_field_panics [of "demo_rc_state [Var_Declared, Var_Declared, Var_Init (Bv_Const ''a'' 1)]" 1 "Bv_Num 0 0" 2 "Bv_Const ''a'' 1"
        demo_rc_env demo_rc_tcx "[]" None "Some 0" 0 0 _ 0 0 Ty_Bool]
    by (auto simp: demo_rc_state_def demo_rc_env_def vec_def)
qed


subsection \<open>Reports\<close>

definition drop_name :: "nat \<Rightarrow> string" where
  "drop_name bidx = new_local_name 0 bidx 0 @ ''_drop_all''"

definition return_name :: "nat \<Rightarrow> nat \<Rightarrow> string" where
  "return_name bidx u = new_local_name u bidx 0 @ ''_return''"

lemma drop_return_names: "drop_name bidx \<noteq> return_name bidx u"
  by (auto simp: drop_name_def return_name_def dest: arg_cong [where f = last])

lemma drop_return_local:
  assumes "rc_wf n s" "rc_handle_drop tcx env \<lparr>p_local = 0, p_projection = []\<rparr> bidx False s = Inr s1"
  shows "rs_reports s1 = rs_reports s \<and> rs_taint_flag s1 = rs_taint_flag s \<and> sl_len (rs_slice s1) = sl_len (rs_slice s) \<and>
    length (sl_var (rs_slice s1)) = length (sl_var (rs_slice s)) \<and> (\<forall>u > 0. vec s1 u = vec s u) \<and>
    (rs_solver s1 = rs_solver s \<or> (\<exists>ori i. vec s 0 = Var_Init ori \<and> 0 < n \<and>
       rs_solver s1 = rs_solver s @ [F_Eq (Bv_Const (drop_name bidx) (bv_width ori)) (Bv_And ori (Bv_Num i (bv_width ori)))]))"
proof -
  have proj: "extract_projection tcx env \<lparr>p_local = 0, p_projection = []\<rparr> None = projection_support_default" by (simp add: extract_projection_def)
  have n: "0 < n" using assms by (cases n) (auto simp: rc_handle_drop_def rc_access rc_wf_def)
  show ?thesis
  proof (cases "vec s 0")
    case (Var_Init ori)
    have "bv_width ori = sl_len (rs_slice s) ! 0" using rc_wfD(6) [OF assms(1) n Var_Init] by simp
    with assms(2) Var_Init n rc_wfD(1-5) [OF assms(1) n] show ?thesis
      by (auto simp: rc_handle_drop_def proj projection_support_default_def has_field_def rc_access vec_def update_var_def safe_eq_def
          drop_name_def rc_assert_def rbind_Inr_iff split: if_splits)
  qed (use assms(2) n rc_wfD(1-5) [OF assms(1) n] in \<open>auto simp: rc_handle_drop_def rc_access vec_def split: if_splits\<close>)
qed

definition freed_at_return :: "nat \<Rightarrow> nat \<Rightarrow> bv \<Rightarrow> nat \<Rightarrow> formula" where
  "freed_at_return bidx u b len =
     F_And [F_Eq (Bv_Const (return_name bidx u) len) b, F_Eq (Bv_Const (return_name bidx u) len) (Bv_Num 0 len)]"

lemma return_loop:
  assumes run: "rfold (\<lambda>(iidx, var) s.
         rbind (len_at iidx s) (\<lambda>len.
           if len = 0 \<or> iidx \<le> a then Inr s
           else (case var of Var_Init var_ori \<Rightarrow> return_var bidx iidx len var_ori s | _ \<Rightarrow> Inr s))) xs s1 = Inr s2"
  shows "rs_slice s2 = rs_slice s1 \<and> rs_reports s2 = rs_reports s1 \<and> rs_taint_flag s2 = rs_taint_flag s1 \<and>
    (\<forall>f \<in> set (rs_solver s2). f \<in> set (rs_solver s1) \<or>
       (\<exists>u b. (u, Var_Init b) \<in> set xs \<and> a < u \<and> f = freed_at_return bidx u b (bv_width b)))"
  using run
proof (induction xs arbitrary: s1)
  case (Cons x xs)
  obtain u var where x: "x = (u, var)" by (cases x)
  from Cons.prems obtain len where len: "len_at u s1 = Inr len" by (auto simp: x rbind_Inr_iff)
  show ?case
  proof (cases "len = 0 \<or> u \<le> a \<or> \<not> iv_is_init var")
    case True
    with Cons.prems len have "rfold (\<lambda>(iidx, var) s. rbind (len_at iidx s) (\<lambda>len. if len = 0 \<or> iidx \<le> a then Inr s
        else (case var of Var_Init var_ori \<Rightarrow> return_var bidx iidx len var_ori s | _ \<Rightarrow> Inr s))) xs s1 = Inr s2"
      by (cases var) (auto simp: x split: if_splits)
    from Cons.IH [OF this] show ?thesis by auto
  next
    case False
    then obtain b where b: "var = Var_Init b" by (cases var) auto
    with Cons.prems len False have "bv_width b = len" "rfold (\<lambda>(iidx, var) s. rbind (len_at iidx s) (\<lambda>len. if len = 0 \<or> iidx \<le> a then Inr s
        else (case var of Var_Init var_ori \<Rightarrow> return_var bidx iidx len var_ori s | _ \<Rightarrow> Inr s))) xs
        (rc_assert (freed_at_return bidx u b len) s1) = Inr s2"
      by (auto simp: x return_var_def Let_def safe_eq_def freed_at_return_def return_name_def split: if_splits)
    from Cons.IH [OF this(2)] have ih: "rs_slice s2 = rs_slice s1" "rs_reports s2 = rs_reports s1" "rs_taint_flag s2 = rs_taint_flag s1"
      "\<forall>f \<in> set (rs_solver s2). f = freed_at_return bidx u b len \<or> f \<in> set (rs_solver s1) \<or>
         (\<exists>u b. (u, Var_Init b) \<in> set xs \<and> a < u \<and> f = freed_at_return bidx u b (bv_width b))"
      by auto
    have "(u, Var_Init b) \<in> set (x # xs)" "a < u" "\<And>p. p \<in> set xs \<Longrightarrow> p \<in> set (x # xs)" using False by (auto simp: x b)
    with ih \<open>bv_width b = len\<close> show ?thesis by metis
  qed
qed simp

text \<open>An assignment in which the locals own nothing satisfies what the loop at a return asserts.\<close>

lemma return_loop_models:
  assumes wf: "rc_wf n s" and len: "length (sl_var (rs_slice s1)) = length (sl_var (rs_slice s))" "\<forall>u > 0. vec s1 u = vec s u"
    and loop: "\<forall>f \<in> set (rs_solver s2). f \<in> set (rs_solver s1) \<or>
       (\<exists>u b. (u, Var_Init b) \<in> set (enumerate 0 (sl_var (rs_slice s1))) \<and> a < u \<and> f = freed_at_return bidx u b (bv_width b))"
    and free: "\<forall>u b. a < u \<and> u < n \<and> vec s u = Var_Init b \<longrightarrow> owns_nothing e b"
    and same: "\<And>x. x \<in> used_names s \<Longrightarrow> e' x = e x" and zero: "\<And>u w. e' (return_name bidx u) w = (\<lambda>_. False)" and new: "models e' s1"
  shows "models e' s2"
proof -
  have "holds e' (\<lambda>_. True) (freed_at_return bidx u b (bv_width b))"
    if "(u, Var_Init b) \<in> set (enumerate 0 (sl_var (rs_slice s1)))" "a < u" for u b
  proof -
    have u: "u < length (sl_var (rs_slice s1))" "vec s1 u = Var_Init b" using that(1) by (auto simp: in_set_enumerate_eq vec_def)
    with len(2) that(2) have vec: "vec s u = Var_Init b" by auto
    have un: "u < n" using u(1) len(1) wf by (simp add: rc_wf_def)
    with vec have "bv_eval e b = replicate (bv_width b) False" using free that(2) by (simp add: owns_nothing_def)
    moreover have "bv_eval e' b = bv_eval e b" using vec_eval_cong [of s e' e, OF same vec] un wf by (simp add: rc_wf_def)
    ultimately show ?thesis by (simp add: freed_at_return_def zero map_replicate_const)
  qed
  with new loop show ?thesis by (fastforce simp: models_def)
qed

text \<open>An assignment extends to the state after the drop of the return value: to a fresh name, and by nothing elsewhere.\<close>

lemma drop_models:
  assumes wf: "rc_wf n s" and e: "models e s" and fresh: "drop_name bidx \<notin> used_names s" "\<And>u. return_name bidx u \<notin> used_names s"
    and drop: "rs_solver s1 = rs_solver s \<or> (\<exists>ori i. vec s 0 = Var_Init ori \<and> 0 < n \<and>
       rs_solver s1 = rs_solver s @ [F_Eq (Bv_Const (drop_name bidx) (bv_width ori)) (Bv_And ori (Bv_Num i (bv_width ori)))])"
  obtains e' where "models e' s1" "\<And>x. x \<in> used_names s \<Longrightarrow> e' x = e x" "\<And>u w. e' (return_name bidx u) w = (\<lambda>_. False)"
proof -
  let ?e0 = "\<lambda>x. if x \<in> used_names s then e x else (\<lambda>_ _. False)"
  show thesis
  proof (cases "rs_solver s1 = rs_solver s")
    case True
    have "models ?e0 s1" using e models_cong [of s ?e0 e] by (simp add: models_def True)
    then show thesis by (rule that) (use fresh(2) in auto)
  next
    case False
    with drop obtain ori i where ori: "vec s 0 = Var_Init ori" "0 < n"
      "rs_solver s1 = rs_solver s @ [F_Eq (Bv_Const (drop_name bidx) (bv_width ori)) (Bv_And ori (Bv_Num i (bv_width ori)))]" by blast
    have inr: "0 < length (sl_var (rs_slice s))" using ori(2) wf by (simp add: rc_wf_def)
    let ?v = "bv_eval e (Bv_And ori (Bv_Num i (bv_width ori)))"
    let ?e1 = "?e0(drop_name bidx := \<lambda>_. nth ?v)"
    have same: "?e1 x = e x" if "x \<in> used_names s" for x using that fresh(1) by auto
    have len: "length ?v = bv_width ori" using rc_wfD(6) [OF wf ori(2,1)] by (simp add: length_bv_eval)
    have "bv_eval ?e1 (Bv_Const (drop_name bidx) (bv_width ori)) = ?v" using map_nth [of ?v] len by simp
    moreover have "bv_eval ?e1 ori = bv_eval e ori" using vec_eval_cong [of s ?e1 e, OF same ori(1) inr] .
    moreover have "models ?e1 s" using e models_cong [of s ?e1 e, OF same] by simp
    ultimately have "models ?e1 s1" by (simp add: models_def ori(3) ball_Un)
    then show thesis using same by (rule that) (use fresh(2) drop_return_names [of bidx, symmetric] in auto)
  qed
qed

text \<open>C7: A report of a leak is justified by the constraints. Let the solver answer \<open>Unsat\<close> only if no assignment satisfies the
  constraints, and let the names used at the return be new. If the analysis reports a leak at a return, then ownership went into
  a pointer before, and no assignment of owners satisfies the constraints so far and leaves every local but the arguments and the
  return value without ownership.\<close>

theorem leak_report_sound:
  assumes sound: "\<And>fs e. re_check env fs = Unsat \<Longrightarrow> \<exists>f \<in> set fs. \<not> holds e (\<lambda>_. True) f"
    and wf: "rc_wf n s" and run: "rc_handle_return tcx env bidx s = Inr s'" and rep: "rs_reports s' \<noteq> rs_reports s"
    and fresh: "drop_name bidx \<notin> used_names s" "\<And>u. return_name bidx u \<notin> used_names s"
  shows "rs_taint_flag s \<and> \<not> (\<exists>e. models e s \<and>
    (\<forall>u b. arg_count (re_body env) < u \<and> u < n \<and> vec s u = Var_Init b \<longrightarrow> owns_nothing e b))"
proof -
  let ?a = "arg_count (re_body env)"
  from run obtain s1 s2 where s1: "rc_handle_drop tcx env \<lparr>p_local = 0, p_projection = []\<rparr> bidx False s = Inr s1"
    and s2: "rfold (\<lambda>(iidx, var) s.
         rbind (len_at iidx s) (\<lambda>len.
           if len = 0 \<or> iidx \<le> ?a then Inr s
           else (case var of Var_Init var_ori \<Rightarrow> return_var bidx iidx len var_ori s | _ \<Rightarrow> Inr s)))
       (enumerate 0 (sl_var (rs_slice s1))) s1 = Inr s2"
    and s': "s' = (if re_check env (rs_solver s2) = Unsat \<and> rs_taint_flag s2 then s2\<lparr>rs_reports := rs_reports s2 @ [rs_taint_source s2]\<rparr> else s2)"
    by (auto simp: rc_handle_return_def rbind_Inr_iff)
  note d = drop_return_local [OF wf s1] and lp = return_loop [OF s2]
  from rep s' d lp have unsat: "re_check env (rs_solver s2) = Unsat" and flag: "rs_taint_flag s" by (auto split: if_splits)
  have False if e: "models e s" "\<forall>u b. ?a < u \<and> u < n \<and> vec s u = Var_Init b \<longrightarrow> owns_nothing e b" for e
  proof -
    from d have drop: "length (sl_var (rs_slice s1)) = length (sl_var (rs_slice s))" "\<forall>u > 0. vec s1 u = vec s u"
      "rs_solver s1 = rs_solver s \<or> (\<exists>ori i. vec s 0 = Var_Init ori \<and> 0 < n \<and>
         rs_solver s1 = rs_solver s @ [F_Eq (Bv_Const (drop_name bidx) (bv_width ori)) (Bv_And ori (Bv_Num i (bv_width ori)))])" by blast+
    from lp have loop: "\<forall>f \<in> set (rs_solver s2). f \<in> set (rs_solver s1) \<or>
       (\<exists>u b. (u, Var_Init b) \<in> set (enumerate 0 (sl_var (rs_slice s1))) \<and> ?a < u \<and> f = freed_at_return bidx u b (bv_width b))" by blast
    obtain e' where "models e' s1" "\<And>x. x \<in> used_names s \<Longrightarrow> e' x = e x" "\<And>u w. e' (return_name bidx u) w = (\<lambda>_. False)"
      using drop_models [OF wf e(1) fresh drop(3)] by blast
    then have "models e' s2" using return_loop_models [OF wf drop(1,2) loop e(2)] by blast
    with sound [OF unsat, of e'] show False by (auto simp: models_def)
  qed
  with flag show ?thesis by blast
qed

definition demo_leak_state :: rc_state where
  "demo_leak_state = (demo_rc_state [Var_Declared, Var_Init (Bv_Const ''a'' 1)])
     \<lparr>rs_solver := [F_Eq (Bv_Const ''a'' 1) (Bv_Num 1 1)], rs_taint_flag := True\<rparr>"

definition demo_leak_env :: rc_env where
  "demo_leak_env = demo_rc_env\<lparr>re_check := (\<lambda>fs.
     if fs = [F_Eq (Bv_Const ''a'' 1) (Bv_Num 1 1), freed_at_return 0 1 (Bv_Const ''a'' 1) 1] then Unsat else Unknown)\<rparr>"

theorem leak_report_sound_witness:
  "\<exists>s'. rc_handle_return demo_rc_tcx demo_leak_env 0 demo_leak_state = Inr s' \<and> rs_reports s' \<noteq> rs_reports demo_leak_state \<and>
    \<not> (\<exists>e. models e demo_leak_state \<and> owns_nothing e (Bv_Const ''a'' 1))"
proof -
  have run: "\<exists>s'. rc_handle_return demo_rc_tcx demo_leak_env 0 demo_leak_state = Inr s' \<and> rs_reports s' \<noteq> rs_reports demo_leak_state"
    by (simp add: rc_handle_return_def rc_handle_drop_def rc_access demo_leak_state_def demo_leak_env_def demo_rc_state_def demo_rc_env_def
        rc_intra_new_def return_var_def safe_eq_def rc_assert_def freed_at_return_def return_name_def Let_def extract_projection_def
        projection_support_default_def)
  then obtain s' where s': "rc_handle_return demo_rc_tcx demo_leak_env 0 demo_leak_state = Inr s'" "rs_reports s' \<noteq> rs_reports demo_leak_state"
    by blast
  have "rc_wf 2 demo_leak_state" using demo_rc_wf [of "[Var_Declared, Var_Init (Bv_Const ''a'' 1)]" 2]
    by (simp add: demo_leak_state_def rc_wf_def vec_def)
  moreover have "used_names demo_leak_state = {''a''}" by (auto simp: used_names_def demo_leak_state_def demo_rc_state_def)
  moreover have "drop_name 0 \<noteq> ''a''" "return_name 0 u \<noteq> ''a''" for u by (auto simp: drop_name_def return_name_def)
  moreover have "\<exists>f \<in> set fs. \<not> holds e (\<lambda>_. True) f" if "re_check demo_leak_env fs = Unsat" for fs e
    using that by (auto simp: demo_leak_env_def freed_at_return_def split: if_splits)
  ultimately have "\<not> (\<exists>e. models e demo_leak_state \<and> (\<forall>u b. arg_count (re_body demo_leak_env) < u \<and> u < 2 \<and>
      vec demo_leak_state u = Var_Init b \<longrightarrow> owns_nothing e b))"
    using leak_report_sound [of demo_leak_env 2 demo_leak_state demo_rc_tcx 0 s', OF _ _ s'] by simp
  moreover have "u = 1 \<and> b = Bv_Const ''a'' 1" if "0 < u" "u < 2" "vec demo_leak_state u = Var_Init b" for u b
    using that by (cases u) (auto simp: demo_leak_state_def demo_rc_state_def vec_def)
  ultimately show ?thesis using s' by (auto simp: demo_leak_env_def demo_rc_env_def)
qed

end
