(* ===== verification/Call_Graph.thy ===== *)
theory Call_Graph
  imports Mir
begin

section \<open>The call graph of a crate\<close>

text \<open>
  \<^verbatim>\<open>core/call_graph.rs\<close> with \<^verbatim>\<open>call_graph_helper.rs\<close> and \<^verbatim>\<open>call_graph_visitor.rs\<close>: functions are numbered in the order in which
  their paths are met, and every call terminator adds an edge from the function at hand to the function the compiler resolves the
  call to. The tables are association lists. The locale \<open>call_store\<close> states what adding a name and a call promise; the tables
  are shown to keep that promise, and the graph of a crate is read off from it. Messages are left out.
\<close>

subsection \<open>Tables\<close>

record cg_node =
  cn_def_id :: def_id
  cn_def_path :: string

record cg_info =
  cg_functions :: "(nat \<times> cg_node) list"
  cg_function_calls :: "(nat \<times> nat list) list"
  cg_node_registry :: "(string \<times> nat) list"

definition cg_info_new :: cg_info where
  "cg_info_new = \<lparr>cg_functions = [], cg_function_calls = [], cg_node_registry = []\<rparr>"

definition get_node_num :: "cg_info \<Rightarrow> nat" where
  "get_node_num g = length (cg_functions g)"

definition get_noed_by_path :: "cg_info \<Rightarrow> string \<Rightarrow> nat option" where
  "get_noed_by_path g def_path = map_of (cg_node_registry g) def_path"

definition get_callees_path :: "cg_info \<Rightarrow> string \<Rightarrow> string list option" where
  "get_callees_path g caller_def_path =
     (case map_of (cg_node_registry g) caller_def_path of
        Some caller_id \<Rightarrow>
          Some (case map_of (cg_function_calls g) caller_id of
              Some callee_ids \<Rightarrow>
                fold (\<lambda>i callees_path. case map_of (cg_functions g) i of
                    Some callee_node \<Rightarrow> hs_insert (cn_def_path callee_node) callees_path
                  | None \<Rightarrow> callees_path) callee_ids []
            | None \<Rightarrow> [])
      | None \<Rightarrow> None)"

definition cg_add_node :: "def_id \<Rightarrow> string \<Rightarrow> cg_info \<Rightarrow> cg_info" where
  "cg_add_node d def_path g =
     (case get_noed_by_path g def_path of
        None \<Rightarrow>
          let i = length (cg_node_registry g); node = \<lparr>cn_def_id = d, cn_def_path = def_path\<rparr> in
          g\<lparr>cg_node_registry := AList.update def_path i (cg_node_registry g),
            cg_functions := AList.update i node (cg_functions g)\<rparr>
      | Some _ \<Rightarrow> g)"

definition add_funciton_call_edge :: "nat \<Rightarrow> nat \<Rightarrow> cg_info \<Rightarrow> cg_info" where
  "add_funciton_call_edge caller_id callee_id g =
     (let calls = (if map_of (cg_function_calls g) caller_id = None
                   then AList.update caller_id [] (cg_function_calls g) else cg_function_calls g)
      in g\<lparr>cg_function_calls := (case map_of calls caller_id of
             Some callees \<Rightarrow> AList.update caller_id (hs_insert callee_id callees) calls
           | None \<Rightarrow> calls)\<rparr>)"

text \<open>The lines of \<open>print_call_graph\<close>: numbers and paths of caller and callee.\<close>

definition print_call_graph :: "tcx \<Rightarrow> cg_info \<Rightarrow> (nat \<times> string \<times> nat \<times> string) list" where
  "print_call_graph tcx g =
     concat (map (\<lambda>(caller_id, callees). case map_of (cg_functions g) caller_id of
         Some caller_node \<Rightarrow>
           concat (map (\<lambda>callee_id. case map_of (cg_functions g) callee_id of
               Some callee_node \<Rightarrow> [(caller_id, cn_def_path caller_node, callee_id, cn_def_path callee_node)]
             | None \<Rightarrow> []) (set_order tcx callees))
       | None \<Rightarrow> []) (hm_iter tcx (cg_function_calls g)))"

subsection \<open>Calls\<close>

datatype instance_kind =
    Inst_Item def_id | Inst_Intrinsic def_id | Inst_VTableShim def_id | Inst_ReifyShim def_id | Inst_FnPtrShim def_id
  | Inst_Virtual def_id | Inst_ClosureOnceShim def_id | Inst_ConstructCoroutineInClosureShim def_id
  | Inst_ThreadLocalShim def_id | Inst_DropGlue def_id | Inst_FnPtrAddrShim def_id | Inst_AsyncDropGlueCtorShim def_id
  | Inst_CloneShim def_id

text \<open>What the compiler answers: the local definitions, which of them own a body, constants and statics with the body evaluated at
  compile time, the instance a call of a function with arguments resolves to in a caller, and closures.\<close>

record ccx =
  cc_local_ids :: "def_id list"
  cc_body_owner :: "def_id \<Rightarrow> bool"
  cc_const_or_static :: "def_id \<Rightarrow> bool"
  cc_mir_for_ctfe :: "def_id \<Rightarrow> body"
  cc_resolve :: "def_id \<Rightarrow> def_id \<Rightarrow> generic_arg list \<Rightarrow> instance_kind option"
  cc_closure_like :: "def_id \<Rightarrow> bool"

definition is_word :: "char \<Rightarrow> bool" where
  "is_word c \<longleftrightarrow> (let n = of_char c :: nat in
     (48 \<le> n \<and> n \<le> 57) \<or> (65 \<le> n \<and> n \<le> 90) \<or> n = 95 \<or> (97 \<le> n \<and> n \<le> 122))"

text \<open>The pattern \<open>(\w+)::(\w+)\<close> at the start of a string, and at the leftmost place where it matches: a run of word characters
  can only be followed by the colons if it is taken whole. Word characters are those of ASCII paths.\<close>

definition match_here :: "string \<Rightarrow> (string \<times> string) option" where
  "match_here s =
     (let a = takeWhile is_word s; r = dropWhile is_word s; b = takeWhile is_word (drop 2 r) in
      if a \<noteq> [] \<and> take 2 r = ''::'' \<and> b \<noteq> [] then Some (a, b) else None)"

fun re_captures :: "string \<Rightarrow> (string \<times> string) option" where
  "re_captures [] = None"
| "re_captures (c # cs) = (case match_here (c # cs) of Some m \<Rightarrow> Some m | None \<Rightarrow> re_captures cs)"

definition add_in_call_graph :: "string \<Rightarrow> def_id \<Rightarrow> string \<Rightarrow> cg_info \<Rightarrow> cg_info" where
  "add_in_call_graph caller_def_path callee_def_id callee_def_path g =
     (case get_noed_by_path g caller_def_path of
        Some caller_id \<Rightarrow>
          (case get_noed_by_path g callee_def_path of
             Some callee_id \<Rightarrow> add_funciton_call_edge caller_id callee_id g
           | None \<Rightarrow>
               let g = cg_add_node callee_def_id callee_def_path g in
               (case get_noed_by_path g callee_def_path of
                  Some callee_id \<Rightarrow> add_funciton_call_edge caller_id callee_id g
                | None \<Rightarrow> g))
      | None \<Rightarrow> g)"

definition add_to_call_graph :: "tcx \<Rightarrow> def_id \<Rightarrow> def_id \<Rightarrow> bool option \<Rightarrow> cg_info \<Rightarrow> cg_info" where
  "add_to_call_graph tcx d callee_def_id is_virtual g =
     (let caller_def_path = def_path_str tcx d; callee_def_path = def_path_str tcx callee_def_id in
      if is_virtual = Some True then
        (case re_captures callee_def_path of
           None \<Rightarrow> g
         | Some (dyn, func) \<Rightarrow>
             add_in_call_graph caller_def_path callee_def_id (''(dyn trait) <* as '' @ dyn @ ''>::'' @ func) g)
      else add_in_call_graph caller_def_path callee_def_id callee_def_path g)"

definition instance_target :: "ccx \<Rightarrow> instance_kind \<Rightarrow> def_id option \<times> bool" where
  "instance_target ccx inst =
     (case inst of
        Inst_Item d \<Rightarrow> (Some d, False)
      | Inst_Intrinsic d \<Rightarrow> (Some d, False)
      | Inst_VTableShim d \<Rightarrow> (Some d, False)
      | Inst_ReifyShim d \<Rightarrow> (Some d, False)
      | Inst_FnPtrShim d \<Rightarrow> (Some d, False)
      | Inst_Virtual d \<Rightarrow> (Some d, True)
      | Inst_ClosureOnceShim d \<Rightarrow> (Some d, False)
      | Inst_ConstructCoroutineInClosureShim d \<Rightarrow> (Some d, False)
      | Inst_ThreadLocalShim d \<Rightarrow> (Some d, False)
      | Inst_DropGlue d \<Rightarrow> (Some d, False)
      | Inst_FnPtrAddrShim d \<Rightarrow> (Some d, False)
      | Inst_AsyncDropGlueCtorShim d \<Rightarrow> (Some d, False)
      | Inst_CloneShim d \<Rightarrow> (if \<not> cc_closure_like ccx d then Some d else None, False))"

definition cg_visit_terminator :: "tcx \<Rightarrow> ccx \<Rightarrow> def_id \<Rightarrow> terminator \<Rightarrow> cg_info \<Rightarrow> cg_info" where
  "cg_visit_terminator tcx ccx d t g =
     (case t_kind t of
        Call (Constant constant) _ _ _ _ \<Rightarrow>
          (case c_ty constant of
             Ty_FnDef callee_def_id callee_substs \<Rightarrow>
               (case cc_resolve ccx d callee_def_id callee_substs of
                  Some inst \<Rightarrow>
                    (case instance_target ccx inst of
                       (Some instance_def_id, is_virtual) \<Rightarrow> add_to_call_graph tcx d instance_def_id (Some is_virtual) g
                     | (None, _) \<Rightarrow> g)
                | None \<Rightarrow> add_to_call_graph tcx d callee_def_id None g)
           | _ \<Rightarrow> g)
      | _ \<Rightarrow> g)"

definition cg_visit :: "tcx \<Rightarrow> ccx \<Rightarrow> def_id \<Rightarrow> body \<Rightarrow> cg_info \<Rightarrow> cg_info res" where
  "cg_visit tcx ccx d b g =
     rfold (\<lambda>data g. rbind (unwrap (bb_terminator data)) (\<lambda>t. Inr (cg_visit_terminator tcx ccx d t g)))
       (basic_blocks b) (cg_add_node d (def_path_str tcx d) g)"

definition cg_body :: "tcx \<Rightarrow> ccx \<Rightarrow> def_id \<Rightarrow> body" where
  "cg_body tcx ccx d = (if cc_const_or_static ccx d then cc_mir_for_ctfe ccx d else optimized_mir tcx d)"

definition cg_start :: "tcx \<Rightarrow> ccx \<Rightarrow> cg_info res" where
  "cg_start tcx ccx =
     rfold (\<lambda>d g. if cc_body_owner ccx d \<and> mir_available tcx d then cg_visit tcx ccx d (cg_body tcx ccx d) g else Inr g)
       (cc_local_ids ccx) cg_info_new"

subsection \<open>The contract of the tables\<close>

text \<open>A store of names and calls between them.\<close>

locale call_store =
  fixes inv :: "'g \<Rightarrow> bool"
    and names :: "'g \<Rightarrow> string set"
    and calls :: "'g \<Rightarrow> (string \<times> string) set"
    and add_name :: "def_id \<Rightarrow> string \<Rightarrow> 'g \<Rightarrow> 'g"
    and add_call :: "string \<Rightarrow> def_id \<Rightarrow> string \<Rightarrow> 'g \<Rightarrow> 'g"
  assumes add_name: "inv g \<Longrightarrow> inv (add_name d p g) \<and> names (add_name d p g) = insert p (names g) \<and> calls (add_name d p g) = calls g"
    and add_call: "inv g \<Longrightarrow> p \<in> names g \<Longrightarrow>
      inv (add_call p d q g) \<and> names (add_call p d q g) = insert q (names g) \<and> calls (add_call p d q g) = insert (p, q) (calls g)"
begin

lemma add_calls:
  assumes "inv g" "p \<in> names g"
  shows "inv (fold (\<lambda>(d, q). add_call p d q) cs g) \<and>
    names (fold (\<lambda>(d, q). add_call p d q) cs g) = names g \<union> snd ` set cs \<and>
    calls (fold (\<lambda>(d, q). add_call p d q) cs g) = calls g \<union> {p} \<times> snd ` set cs"
  using assms
proof (induction cs arbitrary: g)
  case (Cons c cs)
  obtain d q where c: "c = (d, q)" by (cases c)
  with Cons.prems add_call [of g p d q] Cons.IH [of "add_call p d q g"] show ?case by auto
qed simp

lemma add_functions:
  assumes "inv g"
  shows "inv (fold (\<lambda>(d, p, cs) g. fold (\<lambda>(d, q). add_call p d q) cs (add_name d p g)) fs g) \<and>
    names (fold (\<lambda>(d, p, cs) g. fold (\<lambda>(d, q). add_call p d q) cs (add_name d p g)) fs g) =
      names g \<union> (\<Union>(d, p, cs) \<in> set fs. insert p (snd ` set cs)) \<and>
    calls (fold (\<lambda>(d, p, cs) g. fold (\<lambda>(d, q). add_call p d q) cs (add_name d p g)) fs g) =
      calls g \<union> (\<Union>(d, p, cs) \<in> set fs. {p} \<times> snd ` set cs)"
  using assms
proof (induction fs arbitrary: g)
  case (Cons f fs)
  obtain d p cs where f: "f = (d, p, cs)" by (cases f)
  have n: "inv (add_name d p g)" "names (add_name d p g) = insert p (names g)" "calls (add_name d p g) = calls g"
    using add_name [OF Cons.prems] by auto
  with add_calls [OF n(1), of p cs] Cons.IH [of "fold (\<lambda>(d, q). add_call p d q) cs (add_name d p g)"] show ?case
    by (auto simp: f)
qed simp

end

subsection \<open>The tables keep it\<close>

text \<open>Numbers and paths determine each other, and calls are between numbers given out.\<close>

definition cg_wf :: "cg_info \<Rightarrow> bool" where
  "cg_wf g \<longleftrightarrow> distinct (map fst (cg_node_registry g)) \<and> map snd (cg_node_registry g) = [0..<length (cg_node_registry g)] \<and>
     map (\<lambda>(i, nd). (cn_def_path nd, i)) (cg_functions g) = cg_node_registry g \<and>
     distinct (map fst (cg_function_calls g)) \<and>
     (\<forall>i cs. map_of (cg_function_calls g) i = Some cs \<longrightarrow>
        distinct cs \<and> i < length (cg_node_registry g) \<and> (\<forall>j \<in> set cs. j < length (cg_node_registry g)))"

definition cg_names :: "cg_info \<Rightarrow> string set" where
  "cg_names g = dom (map_of (cg_node_registry g))"

definition cg_calls :: "cg_info \<Rightarrow> (string \<times> string) set" where
  "cg_calls g = {(p, q). \<exists>i j cs. map_of (cg_node_registry g) p = Some i \<and> map_of (cg_node_registry g) q = Some j \<and>
     map_of (cg_function_calls g) i = Some cs \<and> j \<in> set cs}"

lemma update_fresh: "map_of al k = None \<Longrightarrow> AList.update k v al = al @ [(k, v)]"
  by (induction al) (auto split: if_splits)

lemma cg_wf_inj:
  assumes "cg_wf g" "map_of (cg_node_registry g) p = Some i" "map_of (cg_node_registry g) q = Some i"
  shows "p = q"
proof -
  have "distinct (map snd (cg_node_registry g))" using assms(1) unfolding cg_wf_def by (metis distinct_upt)
  then have inj: "inj_on snd (set (cg_node_registry g))" by (simp add: distinct_map)
  have "(p, i) \<in> set (cg_node_registry g)" "(q, i) \<in> set (cg_node_registry g)" using assms(2,3) by (auto dest: map_of_SomeD)
  from inj_onD [OF inj _ this] show ?thesis by simp
qed

lemma cg_wf_bound:
  assumes "cg_wf g" "map_of (cg_node_registry g) p = Some i"
  shows "i < length (cg_node_registry g)"
proof -
  from map_of_SomeD [OF assms(2)] have "i \<in> set (map snd (cg_node_registry g))" by force
  also have "set (map snd (cg_node_registry g)) = {0..<length (cg_node_registry g)}" using assms(1) unfolding cg_wf_def by (metis set_upt)
  finally show ?thesis by simp
qed

lemma cg_wf_name:
  assumes "cg_wf g" "i < length (cg_node_registry g)"
  shows "\<exists>nd. map_of (cg_functions g) i = Some nd \<and> map_of (cg_node_registry g) (cn_def_path nd) = Some i"
proof -
  let ?r = "cg_node_registry g" and ?f = "cg_functions g"
  have eq: "map (\<lambda>(i, nd). (cn_def_path nd, i)) ?f = ?r" and snd_r: "map snd ?r = [0..<length ?r]" and dist: "distinct (map fst ?r)"
    using assms(1) unfolding cg_wf_def by blast+
  have "map fst ?f = map snd ?r" unfolding eq [symmetric] by (simp add: case_prod_unfold o_def)
  with snd_r have ids: "map fst ?f = [0..<length ?r]" by simp
  with assms(2) have "i \<in> set (map fst ?f)" by simp
  then obtain nd where nd: "(i, nd) \<in> set ?f" by auto
  then have "(cn_def_path nd, i) \<in> set ?r" by (subst eq [symmetric]) force
  moreover have "distinct (map fst ?f)" by (simp only: ids distinct_upt)
  ultimately show ?thesis using nd dist by (auto simp: map_of_eq_Some_iff)
qed

lemma cg_add_node_store:
  assumes wf: "cg_wf g"
  shows "cg_wf (cg_add_node d p g) \<and> cg_names (cg_add_node d p g) = insert p (cg_names g) \<and> cg_calls (cg_add_node d p g) = cg_calls g"
proof (cases "map_of (cg_node_registry g) p")
  case None
  let ?n = "length (cg_node_registry g)"
  have len: "length (cg_functions g) = ?n" using wf unfolding cg_wf_def by (metis length_map)
  have "map_of (cg_functions g) ?n = None"
  proof -
    have "map (\<lambda>(i, nd). (cn_def_path nd, i)) (cg_functions g) = cg_node_registry g" using wf unfolding cg_wf_def by blast
    then have "fst ` set (cg_functions g) = snd ` set (cg_node_registry g)"
      by (metis (no_types, lifting) image_cong image_image list.set_map snd_conv case_prod_unfold)
    also have "\<dots> = {0..<?n}" using wf unfolding cg_wf_def by (metis set_map set_upt)
    finally show ?thesis by (simp add: map_of_eq_None_iff)
  qed
  then have g': "cg_add_node d p g = g\<lparr>cg_node_registry := cg_node_registry g @ [(p, ?n)],
      cg_functions := cg_functions g @ [(?n, \<lparr>cn_def_id = d, cn_def_path = p\<rparr>)]\<rparr>"
    using None by (simp add: cg_add_node_def get_noed_by_path_def update_fresh Let_def)
  have fresh: "p \<notin> fst ` set (cg_node_registry g)" using None by (simp add: map_of_eq_None_iff)
  have calls: "\<And>i cs j. map_of (cg_function_calls g) i = Some cs \<Longrightarrow> i < ?n \<and> (j \<in> set cs \<longrightarrow> j < ?n)"
    using wf unfolding cg_wf_def by blast
  have "cg_wf (cg_add_node d p g)" using wf fresh calls unfolding g' cg_wf_def by (auto simp: less_Suc_eq)
  moreover have "cg_names (cg_add_node d p g) = insert p (cg_names g)" using None by (auto simp: g' cg_names_def)
  moreover have "cg_calls (cg_add_node d p g) = cg_calls g"
    using None calls by (fastforce simp: g' cg_calls_def map_add_Some_iff split: if_splits)
  ultimately show ?thesis by blast
qed (use wf in \<open>auto simp: cg_add_node_def get_noed_by_path_def cg_names_def\<close>)

lemma add_edge_store:
  assumes wf: "cg_wf g" and ids: "map_of (cg_node_registry g) p = Some i" "map_of (cg_node_registry g) q = Some j"
  shows "cg_wf (add_funciton_call_edge i j g) \<and> cg_names (add_funciton_call_edge i j g) = cg_names g \<and>
    cg_calls (add_funciton_call_edge i j g) = insert (p, q) (cg_calls g)"
proof -
  let ?cs = "case map_of (cg_function_calls g) i of Some cs \<Rightarrow> cs | None \<Rightarrow> []"
  have g': "cg_node_registry (add_funciton_call_edge i j g) = cg_node_registry g" "cg_functions (add_funciton_call_edge i j g) = cg_functions g"
    by (simp_all add: add_funciton_call_edge_def Let_def)
  have mp: "map_of (cg_function_calls (add_funciton_call_edge i j g)) = (map_of (cg_function_calls g))(i \<mapsto> hs_insert j ?cs)"
    by (auto simp: add_funciton_call_edge_def Let_def update_conv fun_eq_iff split: option.splits)
  have keys: "distinct (map fst (cg_function_calls (add_funciton_call_edge i j g)))" if "distinct (map fst (cg_function_calls g))"
    using that by (auto simp: add_funciton_call_edge_def Let_def distinct_update split: option.splits)
  have old: "distinct xs \<and> k < length (cg_node_registry g) \<and> (\<forall>l \<in> set xs. l < length (cg_node_registry g))"
    if "map_of (cg_function_calls g) k = Some xs" for k xs using wf that unfolding cg_wf_def by blast
  have cs: "distinct ?cs \<and> (\<forall>k \<in> set ?cs. k < length (cg_node_registry g))"
  proof (cases "map_of (cg_function_calls g) i")
    case (Some xs)
    from old [OF this] Some show ?thesis by simp
  qed simp
  have new: "distinct xs \<and> k < length (cg_node_registry g) \<and> (\<forall>l \<in> set xs. l < length (cg_node_registry g))"
    if "((map_of (cg_function_calls g))(i \<mapsto> hs_insert j ?cs)) k = Some xs" for k xs
  proof (cases "k = i")
    case True
    with that have "xs = hs_insert j ?cs" by simp
    with True cs cg_wf_bound [OF wf ids(1)] cg_wf_bound [OF wf ids(2)] show ?thesis by simp
  next
    case False
    with that have "map_of (cg_function_calls g) k = Some xs" by simp
    from old [OF this] show ?thesis .
  qed
  have "cg_wf (add_funciton_call_edge i j g)" using wf keys new unfolding cg_wf_def g' mp by blast
  moreover have "cg_calls (add_funciton_call_edge i j g) = insert (p, q) (cg_calls g)"
  proof -
    have "(a, b) \<in> cg_calls (add_funciton_call_edge i j g) \<longleftrightarrow> (a, b) = (p, q) \<or> (a, b) \<in> cg_calls g" for a b
      using ids cg_wf_inj [OF wf, of a i p] cg_wf_inj [OF wf, of b j q]
      by (auto simp: cg_calls_def g' mp split: option.splits if_splits)
    then show ?thesis by auto
  qed
  ultimately show ?thesis by (simp add: cg_names_def g')
qed

lemma add_in_call_graph_store:
  assumes wf: "cg_wf g" and p: "p \<in> cg_names g"
  shows "cg_wf (add_in_call_graph p d q g) \<and> cg_names (add_in_call_graph p d q g) = insert q (cg_names g) \<and>
    cg_calls (add_in_call_graph p d q g) = insert (p, q) (cg_calls g)"
proof -
  from p obtain i where i: "map_of (cg_node_registry g) p = Some i" by (auto simp: cg_names_def)
  let ?h = "cg_add_node d q g"
  have h: "cg_wf ?h" "cg_names ?h = insert q (cg_names g)" "cg_calls ?h = cg_calls g" using cg_add_node_store [OF wf] by auto
  have i': "map_of (cg_node_registry ?h) p = Some i"
    using i by (auto simp: cg_add_node_def get_noed_by_path_def Let_def update_conv' split: option.splits)
  from h(2) obtain j where j: "map_of (cg_node_registry ?h) q = Some j" by (auto simp: cg_names_def)
  have "add_in_call_graph p d q g = add_funciton_call_edge i j ?h"
    using i j by (auto simp: add_in_call_graph_def get_noed_by_path_def cg_add_node_def split: option.splits)
  with add_edge_store [OF h(1) i' j] h(2,3) show ?thesis by simp
qed

interpretation cgs: call_store cg_wf cg_names cg_calls cg_add_node add_in_call_graph
  by unfold_locales (use cg_add_node_store add_in_call_graph_store in blast)+

subsection \<open>The graph of a crate\<close>

text \<open>The function a terminator calls, with the name it gets; the calls of a body in the order of its blocks.\<close>

definition called :: "tcx \<Rightarrow> ccx \<Rightarrow> def_id \<Rightarrow> terminator \<Rightarrow> (def_id \<times> string) option" where
  "called tcx ccx d t =
     (case t_kind t of
        Call (Constant c) _ _ _ _ \<Rightarrow>
          (case c_ty c of
             Ty_FnDef callee substs \<Rightarrow>
               (case cc_resolve ccx d callee substs of
                  None \<Rightarrow> Some (callee, def_path_str tcx callee)
                | Some inst \<Rightarrow>
                    (case instance_target ccx inst of
                       (Some i, False) \<Rightarrow> Some (i, def_path_str tcx i)
                     | (Some i, True) \<Rightarrow> map_option (\<lambda>(tr, f). (i, ''(dyn trait) <* as '' @ tr @ ''>::'' @ f)) (re_captures (def_path_str tcx i))
                     | (None, _) \<Rightarrow> None))
           | _ \<Rightarrow> None)
      | _ \<Rightarrow> None)"

definition body_calls :: "tcx \<Rightarrow> ccx \<Rightarrow> def_id \<Rightarrow> (def_id \<times> string) list" where
  "body_calls tcx ccx d = List.map_filter (\<lambda>data. called tcx ccx d (the (bb_terminator data))) (basic_blocks (cg_body tcx ccx d))"

definition analysed :: "tcx \<Rightarrow> ccx \<Rightarrow> def_id list" where
  "analysed tcx ccx = filter (\<lambda>d. cc_body_owner ccx d \<and> mir_available tcx d) (cc_local_ids ccx)"

lemma visit_terminator_called:
  "cg_visit_terminator tcx ccx d t g =
     (case called tcx ccx d t of Some (i, q) \<Rightarrow> add_in_call_graph (def_path_str tcx d) i q g | None \<Rightarrow> g)"
  by (auto simp: cg_visit_terminator_def called_def add_to_call_graph_def Let_def split: term_kind.splits operand.splits ty.splits
      option.splits prod.splits bool.splits)

lemma cg_visit_calls:
  assumes "\<forall>data \<in> set (basic_blocks (cg_body tcx ccx d)). bb_terminator data \<noteq> None"
  shows "cg_visit tcx ccx d (cg_body tcx ccx d) g =
    Inr (fold (\<lambda>(i, q). add_in_call_graph (def_path_str tcx d) i q) (body_calls tcx ccx d) (cg_add_node d (def_path_str tcx d) g))"
proof -
  have "rfold (\<lambda>data g. rbind (unwrap (bb_terminator data)) (\<lambda>t. Inr (cg_visit_terminator tcx ccx d t g))) bs h =
    Inr (fold (\<lambda>(i, q). add_in_call_graph (def_path_str tcx d) i q)
      (List.map_filter (\<lambda>data. called tcx ccx d (the (bb_terminator data))) bs) h)"
    if "\<forall>data \<in> set bs. bb_terminator data \<noteq> None" for bs h
    using that by (induction bs arbitrary: h) (auto simp: visit_terminator_called map_filter_simps split: option.splits)
  from this [OF assms] show ?thesis by (simp add: cg_visit_def body_calls_def)
qed

lemma cg_start_calls:
  assumes "\<forall>d \<in> set (analysed tcx ccx). \<forall>data \<in> set (basic_blocks (cg_body tcx ccx d)). bb_terminator data \<noteq> None"
  shows "cg_start tcx ccx = Inr (fold (\<lambda>(d, p, cs) g. fold (\<lambda>(d, q). add_in_call_graph p d q) cs (cg_add_node d p g))
    (map (\<lambda>d. (d, def_path_str tcx d, body_calls tcx ccx d)) (analysed tcx ccx)) cg_info_new)"
proof -
  have "rfold (\<lambda>d g. if cc_body_owner ccx d \<and> mir_available tcx d then cg_visit tcx ccx d (cg_body tcx ccx d) g else Inr g) ds g =
    Inr (fold (\<lambda>(d, p, cs) g. fold (\<lambda>(d, q). add_in_call_graph p d q) cs (cg_add_node d p g))
      (map (\<lambda>d. (d, def_path_str tcx d, body_calls tcx ccx d)) (filter (\<lambda>d. cc_body_owner ccx d \<and> mir_available tcx d) ds)) g)"
    if "\<forall>d \<in> set ds. cc_body_owner ccx d \<and> mir_available tcx d \<longrightarrow>
      (\<forall>data \<in> set (basic_blocks (cg_body tcx ccx d)). bb_terminator data \<noteq> None)" for ds g
    using that by (induction ds arbitrary: g) (auto simp: cg_visit_calls)
  from this [of "cc_local_ids ccx"] assms show ?thesis by (simp add: cg_start_def analysed_def)
qed

lemma get_callees_path_calls:
  assumes wf: "cg_wf g"
  shows "map_option set (get_callees_path g p) = (if p \<in> cg_names g then Some {q. (p, q) \<in> cg_calls g} else None)"
proof (cases "map_of (cg_node_registry g) p")
  case (Some i)
  have step: "set (fold (\<lambda>i acc. case map_of (cg_functions g) i of Some nd \<Rightarrow> hs_insert (cn_def_path nd) acc | None \<Rightarrow> acc) js acc) =
      set acc \<union> {q. \<exists>j \<in> set js. map_of (cg_node_registry g) q = Some j}"
    if "\<forall>j \<in> set js. j < length (cg_node_registry g)" for js acc
    using that
  proof (induction js arbitrary: acc)
    case (Cons j js)
    then obtain nd where nd: "map_of (cg_functions g) j = Some nd" "map_of (cg_node_registry g) (cn_def_path nd) = Some j"
      using cg_wf_name [OF wf, of j] by auto
    then have "{q. map_of (cg_node_registry g) q = Some j} = {cn_def_path nd}" using cg_wf_inj [OF wf] by blast
    with Cons nd show ?case by auto
  qed simp
  show ?thesis
  proof (cases "map_of (cg_function_calls g) i")
    case None
    with Some show ?thesis by (auto simp: get_callees_path_def cg_names_def cg_calls_def)
  next
    case (Some cs)
    moreover have "\<forall>j \<in> set cs. j < length (cg_node_registry g)" using wf Some unfolding cg_wf_def by blast
    ultimately show ?thesis using step [of cs "[]"] \<open>map_of (cg_node_registry g) p = Some i\<close>
      by (auto simp: get_callees_path_def cg_names_def cg_calls_def)
  qed
qed (simp add: get_callees_path_def cg_names_def domIff)

lemma cg_info_new_store: "cg_wf cg_info_new" "cg_names cg_info_new = {}" "cg_calls cg_info_new = {}"
  by (simp_all add: cg_info_new_def cg_wf_def cg_names_def cg_calls_def)

text \<open>C27: The call graph of a crate is exact. If every block of the analysed bodies has a terminator, building the graph returns.
  Asked for the callees of a path, the graph then knows the paths of the analysed functions and of the functions they call, and
  answers for each of them with exactly the names called in the bodies of the functions of that path.\<close>

theorem call_graph_exact:
  assumes "\<forall>d \<in> set (analysed tcx ccx). \<forall>data \<in> set (basic_blocks (cg_body tcx ccx d)). bb_terminator data \<noteq> None"
  shows "\<exists>g. cg_start tcx ccx = Inr g \<and> (\<forall>p. map_option set (get_callees_path g p) =
    (if \<exists>d \<in> set (analysed tcx ccx). p = def_path_str tcx d \<or> p \<in> snd ` set (body_calls tcx ccx d)
     then Some (\<Union>d \<in> {d \<in> set (analysed tcx ccx). def_path_str tcx d = p}. snd ` set (body_calls tcx ccx d)) else None))"
proof -
  let ?fs = "map (\<lambda>d. (d, def_path_str tcx d, body_calls tcx ccx d)) (analysed tcx ccx)"
  let ?g = "fold (\<lambda>(d, p, cs) g. fold (\<lambda>(d, q). add_in_call_graph p d q) cs (cg_add_node d p g)) ?fs cg_info_new"
  have g: "cg_wf ?g" "cg_names ?g = (\<Union>d \<in> set (analysed tcx ccx). insert (def_path_str tcx d) (snd ` set (body_calls tcx ccx d)))"
    "cg_calls ?g = (\<Union>d \<in> set (analysed tcx ccx). {def_path_str tcx d} \<times> snd ` set (body_calls tcx ccx d))"
    using cgs.add_functions [OF cg_info_new_store(1), of ?fs] by (auto simp: cg_info_new_store)
  have "{q. (p, q) \<in> cg_calls ?g} = (\<Union>d \<in> {d \<in> set (analysed tcx ccx). def_path_str tcx d = p}. snd ` set (body_calls tcx ccx d))" for p
    by (auto simp: g(3))
  moreover have "p \<in> cg_names ?g \<longleftrightarrow> (\<exists>d \<in> set (analysed tcx ccx). p = def_path_str tcx d \<or> p \<in> snd ` set (body_calls tcx ccx d))" for p
    by (auto simp: g(2))
  ultimately show ?thesis using cg_start_calls [OF assms] get_callees_path_calls [OF g(1)] by auto
qed

definition demo_call :: "def_id \<Rightarrow> terminator" where
  "demo_call d = \<lparr>t_kind = Call (Constant \<lparr>c_const = Const_Unevaluated, c_ty = Ty_FnDef d [], c_target_usize = None, c_text = ''''\<rparr>) []
     \<lparr>p_local = 0, p_projection = []\<rparr> None Uw_Continue, t_span = 0\<rparr>"

definition demo_cg_tcx :: tcx where
  "demo_cg_tcx = demo_tcx\<lparr>mir_available := (\<lambda>_. True), def_path_str := (\<lambda>d. [''main'', ''m::T::f'', ''m::T::g''] ! d),
     optimized_mir := (\<lambda>_. \<lparr>local_decls = [], arg_count = 0, basic_blocks =
       [\<lparr>bb_statements = [], bb_terminator = Some (demo_call 1), bb_is_cleanup = False\<rparr>,
        \<lparr>bb_statements = [], bb_terminator = Some (demo_call 2), bb_is_cleanup = False\<rparr>], body_span = 0\<rparr>)\<rparr>"

definition demo_ccx :: "(def_id \<Rightarrow> instance_kind option) \<Rightarrow> ccx" where
  "demo_ccx r = \<lparr>cc_local_ids = [0], cc_body_owner = (\<lambda>_. True), cc_const_or_static = (\<lambda>_. False),
     cc_mir_for_ctfe = (\<lambda>_. \<lparr>local_decls = [], arg_count = 0, basic_blocks = [], body_span = 0\<rparr>),
     cc_resolve = (\<lambda>_ d _. r d), cc_closure_like = (\<lambda>_. False)\<rparr>"

lemmas demo_cg_simps = demo_cg_tcx_def demo_ccx_def demo_call_def analysed_def cg_body_def body_calls_def called_def map_filter_simps

theorem call_graph_exact_witness:
  "\<exists>g. cg_start demo_cg_tcx (demo_ccx (\<lambda>_. None)) = Inr g \<and>
    map_option set (get_callees_path g ''main'') = Some {''m::T::f'', ''m::T::g''} \<and> get_callees_path g ''f'' = None"
proof -
  have "\<forall>d \<in> set (analysed demo_cg_tcx (demo_ccx (\<lambda>_. None))).
      \<forall>data \<in> set (basic_blocks (cg_body demo_cg_tcx (demo_ccx (\<lambda>_. None)) d)). bb_terminator data \<noteq> None"
    by (simp add: demo_cg_simps)
  from call_graph_exact [OF this] obtain g where g: "cg_start demo_cg_tcx (demo_ccx (\<lambda>_. None)) = Inr g"
    "\<And>p. map_option set (get_callees_path g p) =
      (if \<exists>d \<in> set (analysed demo_cg_tcx (demo_ccx (\<lambda>_. None))). p = def_path_str demo_cg_tcx d \<or>
         p \<in> snd ` set (body_calls demo_cg_tcx (demo_ccx (\<lambda>_. None)) d)
       then Some (\<Union>d \<in> {d \<in> set (analysed demo_cg_tcx (demo_ccx (\<lambda>_. None))). def_path_str demo_cg_tcx d = p}.
         snd ` set (body_calls demo_cg_tcx (demo_ccx (\<lambda>_. None)) d)) else None)" by blast
  have "analysed demo_cg_tcx (demo_ccx (\<lambda>_. None)) = [0]" "def_path_str demo_cg_tcx 0 = ''main''"
    "snd ` set (body_calls demo_cg_tcx (demo_ccx (\<lambda>_. None)) 0) = {''m::T::f'', ''m::T::g''}"
    by (auto simp: demo_cg_simps)
  with g(2) [of "''main''"] g(2) [of "''f''"] have "map_option set (get_callees_path g ''main'') = Some {''m::T::f'', ''m::T::g''}"
    "map_option set (get_callees_path g ''f'') = None" by (auto simp: conj_disj_distribL Collect_conv_if)
  with g(1) show ?thesis by blast
qed

subsection \<open>Calls of trait objects\<close>

definition is_ident :: "string \<Rightarrow> bool" where
  "is_ident a \<longleftrightarrow> a \<noteq> [] \<and> list_all is_word a"

lemma colon_no_word: "\<not> is_word CHR '':''"
  by (simp add: is_word_def)

lemma re_captures_path:
  assumes "is_ident a" "is_ident b" "m = [] \<or> \<not> is_word (hd m)"
  shows "re_captures (a @ ''::'' @ b @ m) = Some (a, b)"
proof -
  have a: "takeWhile is_word (a @ ''::'' @ b @ m) = a" "dropWhile is_word (a @ ''::'' @ b @ m) = ''::'' @ b @ m"
    using assms(1) colon_no_word by (simp_all add: is_ident_def list_all_iff takeWhile_append2 dropWhile_append2)
  have "takeWhile is_word (b @ m) = b"
    using assms(2,3) by (cases m) (simp_all add: is_ident_def list_all_iff takeWhile_append2)
  with a assms(1,2) have "match_here (a @ ''::'' @ b @ m) = Some (a, b)" by (simp add: match_here_def is_ident_def)
  with assms(1) show ?thesis by (cases "a @ ''::'' @ b @ m") auto
qed

text \<open>The name of a call through a trait object does not depend on the method if the trait is in a module. The pattern for
  trait and method matches the first two segments of the path; for a method of the trait \<open>b\<close> in the module \<open>a\<close> these are the
  module and the trait, so the calls of all methods of all such traits \<open>b\<close> get the name of one node.\<close>

theorem dyn_call_names_trait_as_method:
  assumes "t_kind t = Call (Constant c) args dest target uw" "c_ty c = Ty_FnDef callee substs"
    and "cc_resolve ccx d callee substs = Some (Inst_Virtual i)"
    and "def_path_str tcx i = a @ ''::'' @ b @ ''::'' @ meth" and "is_ident a" "is_ident b"
  shows "cg_visit_terminator tcx ccx d t g =
    add_in_call_graph (def_path_str tcx d) i (''(dyn trait) <* as '' @ a @ ''>::'' @ b) g"
  using assms re_captures_path [of a b "''::'' @ meth"] colon_no_word
  by (simp add: cg_visit_terminator_def instance_target_def add_to_call_graph_def)

theorem dyn_call_names_trait_as_method_witness:
  "get_callees_path (cg_visit_terminator demo_cg_tcx (demo_ccx (\<lambda>d. Some (Inst_Virtual d))) 0 (demo_call 2)
     (cg_visit_terminator demo_cg_tcx (demo_ccx (\<lambda>d. Some (Inst_Virtual d))) 0 (demo_call 1) (cg_add_node 0 ''main'' cg_info_new))) ''main'' =
   Some [''(dyn trait) <* as m>::T'']"
proof -
  have "is_ident ''m''" "is_ident ''T''" by (simp_all add: is_ident_def is_word_def)
  with dyn_call_names_trait_as_method [of "demo_call 1" _ _ _ _ _ 1 "[]" "demo_ccx (\<lambda>d. Some (Inst_Virtual d))" 0 1 demo_cg_tcx "''m''" "''T''" "''f''"]
    dyn_call_names_trait_as_method [of "demo_call 2" _ _ _ _ _ 2 "[]" "demo_ccx (\<lambda>d. Some (Inst_Virtual d))" 0 2 demo_cg_tcx "''m''" "''T''" "''g''"]
  have "cg_visit_terminator demo_cg_tcx (demo_ccx (\<lambda>d. Some (Inst_Virtual d))) 0 (demo_call k) g =
      add_in_call_graph ''main'' k ''(dyn trait) <* as m>::T'' g" if "k = 1 \<or> k = 2" for k g
    using that by (auto simp: demo_cg_simps)
  then show ?thesis
    by (simp add: add_in_call_graph_def get_noed_by_path_def cg_add_node_def cg_info_new_def add_funciton_call_edge_def get_callees_path_def
        hs_insert_def)
qed

end
