(* ===== verification/Def_Path.thy ===== *)
theory Def_Path
  imports Fn_Info
begin

section \<open>Resolving paths of definitions\<close>

text \<open>
  \<^verbatim>\<open>utils/def_path.rs\<close>: a path like \<open>std::vec::Vec::len\<close> is resolved segment by segment, through the children of modules, enums,
  traits and impl blocks of every definition found so far. What the compiler knows about definitions is the record \<open>dcx\<close>.
\<close>

datatype path_res = Res_Def def_id | Res_PrimTy string | Res_Err | Res_Other

definition opt_def_id :: "path_res \<Rightarrow> def_id option" where
  "opt_def_id r = (case r of Res_Def d \<Rightarrow> Some d | _ \<Rightarrow> None)"

datatype dp_kind = Pk_Mod | Pk_Enum | Pk_Trait | Pk_Impl | Pk_Other

text \<open>The node of a local definition in the HIR: the items of a module (or of the crate), of an impl block or of a trait.\<close>

datatype hir_item =
    Hi_Mod "(string \<times> def_id) list" | Hi_Impl "(string \<times> def_id) list" | Hi_Trait "(string \<times> def_id) list" | Hi_Other_Item | Hi_No_Item

record dcx =
  dc_local_crate :: def_id
  dc_crate_name :: "def_id \<Rightarrow> string"
  dc_crates :: "def_id list"
  dc_prim_ty :: "string \<Rightarrow> bool"
  dc_incoherent_impls :: "string \<Rightarrow> def_id list"
  dc_inherent_impls :: "def_id \<Rightarrow> def_id list"
  dc_is_local :: "def_id \<Rightarrow> bool"
  dc_kind :: "def_id \<Rightarrow> dp_kind"
  dc_module_children :: "def_id \<Rightarrow> (string \<times> path_res) list"
  dc_assoc_items :: "def_id \<Rightarrow> def_id list"
  dc_item_name :: "def_id \<Rightarrow> string"
  dc_hir :: "def_id \<Rightarrow> hir_item"

definition find_crates :: "dcx \<Rightarrow> string \<Rightarrow> path_res list" where
  "find_crates dcx name = map Res_Def (filter (\<lambda>num. dc_crate_name dcx num = name) (dc_crates dcx))"

definition primitive_names :: "string list" where
  "primitive_names = [''bool'', ''char'', ''str'', ''array'', ''slice'', ''const_ptr'', ''mut_ptr'', ''isize'', ''i8'', ''i16'', ''i32'',
     ''i64'', ''i128'', ''usize'', ''u8'', ''u16'', ''u32'', ''u64'', ''u128'', ''f32'', ''f64'']"

definition find_primitive_impls :: "dcx \<Rightarrow> string \<Rightarrow> def_id list" where
  "find_primitive_impls dcx name = (if name \<in> set primitive_names then dc_incoherent_impls dcx name else [])"

definition non_local_item_children_by_name :: "dcx \<Rightarrow> def_id \<Rightarrow> string \<Rightarrow> path_res list" where
  "non_local_item_children_by_name dcx d name =
     (case dc_kind dcx d of
        Pk_Mod \<Rightarrow> map snd (filter (\<lambda>item. fst item = name) (dc_module_children dcx d))
      | Pk_Enum \<Rightarrow> map snd (filter (\<lambda>item. fst item = name) (dc_module_children dcx d))
      | Pk_Trait \<Rightarrow> map snd (filter (\<lambda>item. fst item = name) (dc_module_children dcx d))
      | Pk_Impl \<Rightarrow> map Res_Def (filter (\<lambda>a. dc_item_name dcx a = name) (dc_assoc_items dcx d))
      | Pk_Other \<Rightarrow> [])"

definition local_item_children_by_name :: "dcx \<Rightarrow> def_id \<Rightarrow> string \<Rightarrow> path_res list" where
  "local_item_children_by_name dcx d name =
     (let named = (\<lambda>items. map (\<lambda>(_, i). Res_Def i) (filter (\<lambda>(ident, _). ident = name) items)) in
      case dc_hir dcx d of
        Hi_Mod items \<Rightarrow> named items
      | Hi_Impl items \<Rightarrow> named items
      | Hi_Trait items \<Rightarrow> named items
      | Hi_Other_Item \<Rightarrow> []
      | Hi_No_Item \<Rightarrow> [])"

definition item_children_by_name :: "dcx \<Rightarrow> def_id \<Rightarrow> string \<Rightarrow> path_res list" where
  "item_children_by_name dcx d name =
     (if dc_is_local dcx d then local_item_children_by_name dcx d name else non_local_item_children_by_name dcx d name)"

fun def_path_res_with_base :: "dcx \<Rightarrow> path_res list \<Rightarrow> string list \<Rightarrow> path_res list" where
  "def_path_res_with_base dcx base [] = base"
| "def_path_res_with_base dcx base (segment # rest) =
     def_path_res_with_base dcx
       (concat (map (\<lambda>d. concat (map (\<lambda>i. item_children_by_name dcx i segment) (dc_inherent_impls dcx d)) @
            item_children_by_name dcx d segment)
          (List.map_filter opt_def_id base))) rest"

definition def_path_res :: "dcx \<Rightarrow> string list \<Rightarrow> path_res list" where
  "def_path_res dcx path =
     (case path of
        [] \<Rightarrow> []
      | [primitive] \<Rightarrow> [if dc_prim_ty dcx primitive then Res_PrimTy primitive else Res_Err]
      | base # path \<Rightarrow>
          let local_crate = (if dc_crate_name dcx (dc_local_crate dcx) = base then [dc_local_crate dcx] else []) in
          def_path_res_with_base dcx (map Res_Def (find_primitive_impls dcx base @ local_crate) @ find_crates dcx base) path)"

definition def_path_def_ids :: "dcx \<Rightarrow> string list \<Rightarrow> def_id list" where
  "def_path_def_ids dcx path = List.map_filter opt_def_id (def_path_res dcx path)"

definition def_path_last_def_id :: "dcx \<Rightarrow> string list \<Rightarrow> def_id res" where
  "def_path_last_def_id dcx path =
     (let ids = def_path_def_ids dcx path in unwrap (if ids = [] then None else Some (last ids)))"

text \<open>\<open>DefPath::new\<close>, whose panic is the error \<open>Unreachable_code\<close>, and \<open>last_def_id\<close>.\<close>

definition def_path_new :: "string \<Rightarrow> dcx \<Rightarrow> def_id list res" where
  "def_path_new raw dcx =
     (let def_ids = def_path_def_ids dcx (str_split ''::'' raw) in
      if length def_ids = 0 then Inl Unreachable_code else Inr def_ids)"

definition last_def_id :: "def_id list \<Rightarrow> def_id res" where
  "last_def_id def_ids = unwrap (if def_ids = [] then None else Some (last def_ids))"

subsection \<open>What a path names\<close>

text \<open>Resolution as a relation: a definition is named by a path if it is a child, by the last segment, of a definition named by the
  rest, or of an inherent impl block of it.\<close>

inductive resolves :: "dcx \<Rightarrow> path_res set \<Rightarrow> string list \<Rightarrow> path_res \<Rightarrow> bool" for dcx base where
  resolves_base: "r \<in> base \<Longrightarrow> resolves dcx base [] r"
| resolves_child: "\<lbrakk>resolves dcx base path r; opt_def_id r = Some d; i \<in> insert d (set (dc_inherent_impls dcx d));
    r' \<in> set (item_children_by_name dcx i segment)\<rbrakk> \<Longrightarrow> resolves dcx base (path @ [segment]) r'"

inductive_simps resolves_Nil: "resolves dcx base [] r"
inductive_cases resolves_snocE: "resolves dcx base (path @ [segment]) r"

definition children_of :: "dcx \<Rightarrow> path_res set \<Rightarrow> string \<Rightarrow> path_res set" where
  "children_of dcx base segment = {r'. \<exists>r \<in> base. \<exists>d. opt_def_id r = Some d \<and>
     (\<exists>i \<in> insert d (set (dc_inherent_impls dcx d)). r' \<in> set (item_children_by_name dcx i segment))}"

lemma resolves_snoc: "resolves dcx base (path @ [segment]) r' \<longleftrightarrow> r' \<in> children_of dcx {r. resolves dcx base path r} segment"
  unfolding children_of_def by (blast elim: resolves_snocE intro: resolves_child)

lemma opt_def_id_Some: "opt_def_id r = Some d \<longleftrightarrow> r = Res_Def d"
  by (cases r) (auto simp: opt_def_id_def)

lemma set_map_filter: "set (List.map_filter f xs) = {y. \<exists>x \<in> set xs. f x = Some y}"
  by (force simp: List.map_filter_def)

lemma resolves_Cons: "resolves dcx base (segment # path) r \<longleftrightarrow> resolves dcx (children_of dcx base segment) path r"
proof (induction path arbitrary: r rule: rev_induct)
  case Nil
  show ?case using resolves_snoc [of dcx base "[]" segment r] by (simp add: resolves_Nil)
next
  case (snoc s path)
  show ?case using resolves_snoc [of dcx base "segment # path" s r] by (simp add: resolves_snoc snoc.IH)
qed

lemma def_path_res_with_base_resolves: "set (def_path_res_with_base dcx base path) = {r. resolves dcx (set base) path r}"
proof (induction path arbitrary: base)
  case (Cons segment path)
  have "set (concat (map (\<lambda>d. concat (map (\<lambda>i. item_children_by_name dcx i segment) (dc_inherent_impls dcx d)) @
      item_children_by_name dcx d segment) (List.map_filter opt_def_id base))) = children_of dcx (set base) segment"
    by (fastforce simp: children_of_def set_map_filter)
  then show ?case by (simp only: def_path_res_with_base.simps Cons.IH resolves_Cons)
qed (auto simp: resolves_Nil)

text \<open>Where a path starts: the impl blocks of a primitive type, the crate at hand, and the crates of that name.\<close>

definition path_roots :: "dcx \<Rightarrow> string \<Rightarrow> path_res set" where
  "path_roots dcx base = Res_Def ` (set (find_primitive_impls dcx base) \<union>
     {c. c = dc_local_crate dcx \<and> dc_crate_name dcx c = base} \<union> {c \<in> set (dc_crates dcx). dc_crate_name dcx c = base})"

definition named_defs :: "dcx \<Rightarrow> string list \<Rightarrow> def_id set" where
  "named_defs dcx path = (case path of base # s # rest \<Rightarrow> {d. resolves dcx (path_roots dcx base) (s # rest) (Res_Def d)} | _ \<Rightarrow> {})"

lemma set_def_path_def_ids: "set (def_path_def_ids dcx path) = named_defs dcx path"
proof (cases "\<exists>base s rest. path = base # s # rest")
  case True
  then obtain base s rest where path: "path = base # s # rest" by blast
  have "set (map Res_Def (find_primitive_impls dcx base @ (if dc_crate_name dcx (dc_local_crate dcx) = base then [dc_local_crate dcx] else [])) @
      find_crates dcx base) = path_roots dcx base"
    by (auto simp: path_roots_def find_crates_def)
  then have "set (def_path_res dcx path) = {r. resolves dcx (path_roots dcx base) (s # rest) r}"
    using def_path_res_with_base_resolves [of dcx _ "s # rest"] by (simp add: path def_path_res_def Let_def)
  then show ?thesis by (auto simp: path named_defs_def def_path_def_ids_def set_map_filter opt_def_id_Some)
next
  case False
  then show ?thesis
    by (auto simp: def_path_def_ids_def def_path_res_def opt_def_id_def map_filter_simps named_defs_def split: list.splits)
qed

text \<open>C28: Resolving a path finds exactly the definitions it names; a path of one segment names a primitive type at most, which is no
  definition. \<open>DefPath::new\<close> panics exactly if the path names nothing, so the last definition of its result always exists.\<close>

theorem def_path_new_exact:
  "case def_path_new raw dcx of
     Inl e \<Rightarrow> e = Unreachable_code \<and> named_defs dcx (str_split ''::'' raw) = {}
   | Inr ids \<Rightarrow> set ids = named_defs dcx (str_split ''::'' raw) \<and> ids \<noteq> [] \<and> last_def_id ids = Inr (last ids)"
  using set_def_path_def_ids [of dcx "str_split ''::'' raw"] by (auto simp: def_path_new_def last_def_id_def Let_def)

end
