(* ===== verification/Opt_Lints.thy ===== *)
theory Opt_Lints
  imports Def_Path Dataflow_Equiv
begin

section \<open>Performance lints\<close>

text \<open>
  \<^verbatim>\<open>analysis/opt\<close>: lints on the dataflow graph of a function (bounds checks of indices below the length of a vector, clones that
  are only passed on) and on the expressions of its source (pushes in a loop, searches in a slice, iterators that are chained and
  advanced by hand), and the driver that runs all of them and reports what they recorded. The rendering of a report is left out: a
  report is the graph and the record it is made from.
\<close>

subsection \<open>Expressions\<close>

text \<open>An expression of the HIR as the visitors of the lints see it: its number, whether it is a method call (with the number of the
  receiver and the span of the call) or a loop, its span, and the expressions inside in the order in which \<open>intravisit\<close> walks them.\<close>

datatype hir_kind = Hk_MethodCall nat span | Hk_Loop | Hk_Other

datatype hir_expr = Hir nat hir_kind span "hir_expr list"

record hcx =
  hc_local :: "def_id \<Rightarrow> bool"
  hc_body :: "def_id \<Rightarrow> hir_expr list"
  hc_method :: "def_id \<Rightarrow> nat \<Rightarrow> def_id option"
  hc_node_ty :: "def_id \<Rightarrow> nat \<Rightarrow> ty"
  hc_fn_inputs :: "def_id \<Rightarrow> ty list"

text \<open>A visitor that acts on an expression and then walks into it.\<close>

fun hir_visit :: "(hir_expr \<Rightarrow> 's \<Rightarrow> 's res) \<Rightarrow> hir_expr \<Rightarrow> 's \<Rightarrow> 's res" where
  "hir_visit act (Hir i k sp es) s = rbind (act (Hir i k sp es) s) (rfold (hir_visit act) es)"

text \<open>\<open>walk_body\<close> on the body of a definition, which has to be local.\<close>

definition walk_body :: "hcx \<Rightarrow> def_id \<Rightarrow> (hir_expr \<Rightarrow> 's \<Rightarrow> 's res) \<Rightarrow> 's \<Rightarrow> 's res" where
  "walk_body hcx d act s = (if hc_local hcx d then rfold (hir_visit act) (hc_body hcx d) s else Inl Unwrap_none)"

definition resolve_path :: "dcx \<Rightarrow> string \<Rightarrow> def_id res" where
  "resolve_path dcx raw = rbind (def_path_new raw dcx) last_def_id"

subsection \<open>Indices below a length\<close>

record bounds_len_paths =
  bp_ops_range :: def_id
  bp_vec_len :: def_id
  bp_ops_index :: def_id
  bp_ops_index_mut :: def_id

definition bounds_len_paths_new :: "dcx \<Rightarrow> bounds_len_paths res" where
  "bounds_len_paths_new dcx =
     rbind (resolve_path dcx ''std::ops::Range'') (\<lambda>r.
     rbind (resolve_path dcx ''std::vec::Vec::len'') (\<lambda>l.
     rbind (resolve_path dcx ''std::ops::Index::index'') (\<lambda>i.
     rbind (resolve_path dcx ''std::ops::IndexMut::index_mut'') (\<lambda>m.
       Inr \<lparr>bp_ops_range = r, bp_vec_len = l, bp_ops_index = i, bp_ops_index_mut = m\<rparr>))))"

definition extract_upperbound_node_if_ops_range :: "bounds_len_paths \<Rightarrow> df_graph \<Rightarrow> graph_node \<Rightarrow> nat option res" where
  "extract_upperbound_node_if_ops_range ps g node =
     (if No_Aggregate (Ak_Adt (bp_ops_range ps)) \<in> set (gn_ops node)
      then rbind (at (gn_in_edges node) 1) (\<lambda>e. rbind (at (df_edges g) e) (\<lambda>ed. Inr (Some (ge_src ed))))
      else Inr None)"

text \<open>The closure that stops at a call of a given function and records the node.\<close>

definition call_operator :: "df_graph \<Rightarrow> def_id \<Rightarrow> nat \<Rightarrow> nat option \<Rightarrow> (dfs_status \<times> nat option) res" where
  "call_operator g target idx found =
     rbind (at (df_nodes g) idx) (\<lambda>node.
       Inr (if No_Call target \<in> set (gn_ops node) then (Stop, Some idx) else (Continue, found)))"

definition find_upside_vec_len_node :: "bounds_len_paths \<Rightarrow> df_graph \<Rightarrow> nat \<Rightarrow> nat option res" where
  "find_upside_vec_len_node ps g node_idx =
     rbind (df_dfs_top g Upside (call_operator g (bp_vec_len ps)) (pure_validator equivalent_edge_validator g) False node_idx None)
       (\<lambda>(_, found). Inr found)"

definition index_operator :: "bounds_len_paths \<Rightarrow> df_graph \<Rightarrow> nat \<Rightarrow> nat list \<Rightarrow> (dfs_status \<times> nat list) res" where
  "index_operator ps g idx found =
     rbind (at (df_nodes g) idx) (\<lambda>node.
       Inr (Continue, if No_Call (bp_ops_index ps) \<in> set (gn_ops node) \<or> No_Call (bp_ops_index_mut ps) \<in> set (gn_ops node)
                      then found @ [idx] else found))"

definition find_downside_index_node :: "bounds_len_paths \<Rightarrow> df_graph \<Rightarrow> nat \<Rightarrow> nat list res" where
  "find_downside_index_node ps g node_idx =
     rbind (df_dfs_top g Downside (index_operator ps g) (pure_validator always_true_edge_validator g) True node_idx [])
       (\<lambda>(_, found). Inr found)"

type_synonym bounds_len_record = "(nat \<times> nat list) list"

definition bounds_len_node :: "bounds_len_paths \<Rightarrow> df_graph \<Rightarrow> nat \<times> graph_node \<Rightarrow> bounds_len_record \<Rightarrow> bounds_len_record res" where
  "bounds_len_node ps g = (\<lambda>(node_idx, node) record.
     rbind (extract_upperbound_node_if_ops_range ps g node) (\<lambda>ub. case ub of
         None \<Rightarrow> Inr record
       | Some upperbound_node_idx \<Rightarrow>
           rbind (find_upside_vec_len_node ps g upperbound_node_idx) (\<lambda>vl. case vl of
               None \<Rightarrow> Inr record
             | Some vec_len_node_idx \<Rightarrow>
                 rbind (rbind (get_upside_idx g vec_len_node_idx 0) unwrap) (\<lambda>maybe_vec_node_idx.
                 rbind (collect_equivalent_locals g maybe_vec_node_idx True) (\<lambda>maybe_vec_node_idxs.
                 rbind (find_downside_index_node ps g node_idx) (\<lambda>index_nodes.
                 rbind (rfold (\<lambda>index_node_idx index_record.
                     rbind (rbind (get_upside_idx g index_node_idx 0) unwrap) (\<lambda>v.
                       Inr (if v \<in> set maybe_vec_node_idxs then index_record @ [index_node_idx] else index_record)))
                   index_nodes []) (\<lambda>index_record.
                   Inr (if index_record \<noteq> [] then record @ [(upperbound_node_idx, index_record)] else record))))))))"

definition bounds_len_check :: "dcx \<Rightarrow> df_graph \<Rightarrow> bounds_len_record res" where
  "bounds_len_check dcx g =
     rbind (bounds_len_paths_new dcx) (\<lambda>ps. rfold (bounds_len_node ps g) (enumerate 0 (df_nodes g)) [])"

subsection \<open>Pushes in a loop\<close>

text \<open>The visitors \<open>PushFinder\<close>, \<open>NextFinder\<close> and \<open>ContainsFinder\<close> record the spans of the calls of a method.\<close>

definition method_finder :: "hcx \<Rightarrow> def_id \<Rightarrow> def_id \<Rightarrow> hir_expr \<Rightarrow> span list \<Rightarrow> span list res" where
  "method_finder hcx d target ex record =
     (case ex of
        Hir i (Hk_MethodCall _ sp) _ _ \<Rightarrow>
          rbind (unwrap (hc_method hcx d i)) (\<lambda>m. Inr (if m = target then record @ [sp] else record))
      | _ \<Rightarrow> Inr record)"

type_synonym loop_push_record = "(span \<times> span list) list"

definition loop_finder :: "hcx \<Rightarrow> def_id \<Rightarrow> def_id \<Rightarrow> hir_expr \<Rightarrow> loop_push_record \<Rightarrow> loop_push_record res" where
  "loop_finder hcx d vec_push ex record =
     (case ex of
        Hir _ Hk_Loop sp block \<Rightarrow>
          rbind (rfold (hir_visit (method_finder hcx d vec_push)) block []) (\<lambda>pushes.
            Inr (if length pushes = 1 then record @ [(sp, pushes)] else record))
      | _ \<Rightarrow> Inr record)"

definition bounds_loop_push_check :: "dcx \<Rightarrow> hcx \<Rightarrow> df_graph \<Rightarrow> loop_push_record res" where
  "bounds_loop_push_check dcx hcx g =
     rbind (resolve_path dcx ''std::vec::Vec::push'') (\<lambda>vec_push.
       walk_body hcx (df_def_id g) (loop_finder hcx (df_def_id g) vec_push) [])"

record bounds_check =
  bc_bounds_len :: bounds_len_record
  bc_bounds_loop_push :: loop_push_record

definition bounds_check_run :: "dcx \<Rightarrow> hcx \<Rightarrow> df_graph \<Rightarrow> bounds_check res" where
  "bounds_check_run dcx hcx g =
     rbind (bounds_len_check dcx g) (\<lambda>l. rbind (bounds_loop_push_check dcx hcx g) (\<lambda>p.
       Inr \<lparr>bc_bounds_len = l, bc_bounds_loop_push = p\<rparr>))"

subsection \<open>Clones that are passed on\<close>

text \<open>The state of the search: the record and the cell with the edge looked at last.\<close>

definition param_operator :: "df_graph \<Rightarrow> nat \<Rightarrow> nat \<Rightarrow> (nat \<times> nat) option \<times> nat \<Rightarrow> (dfs_status \<times> (nat \<times> nat) option \<times> nat) res" where
  "param_operator g clone_node_idx idx = (\<lambda>(record, edge_idx).
     if idx = clone_node_idx then Inr (Continue, record, edge_idx)
     else rbind (at (df_nodes g) idx) (\<lambda>node.
       if list_ex (\<lambda>op. case op of No_Call _ \<Rightarrow> True | _ \<Rightarrow> False) (gn_ops node) then Inr (Stop, Some (idx, edge_idx), edge_idx)
       else Inr (Continue, record, edge_idx)))"

definition edge_operator :: "df_graph \<Rightarrow> nat \<Rightarrow> (nat \<times> nat) option \<times> nat \<Rightarrow> (dfs_status \<times> (nat \<times> nat) option \<times> nat) res" where
  "edge_operator g e = (\<lambda>(record, _). rbind (equivalent_edge_validator g e) (\<lambda>st. Inr (st, record, e)))"

definition find_downside_use_as_param :: "df_graph \<Rightarrow> nat \<Rightarrow> (nat \<times> nat) option res" where
  "find_downside_use_as_param g clone_node_idx =
     rbind (df_dfs_top g Downside (param_operator g clone_node_idx) (edge_operator g) True clone_node_idx (None, 0))
       (\<lambda>(_, record, _). Inr record)"

text \<open>\<open>slice::binary_search\<close>: \<open>None\<close> is \<open>Err\<close>.\<close>

function binary_search_from :: "nat list \<Rightarrow> nat \<Rightarrow> nat \<Rightarrow> nat \<Rightarrow> nat option" where
  "binary_search_from xs x left right =
     (if left < right then
        let mid = left + (right - left) div 2 in
        if xs ! mid = x then Some mid
        else if xs ! mid < x then binary_search_from xs x (mid + 1) right
        else binary_search_from xs x left mid
      else None)"
  by pat_completeness auto
termination
  by (relation "measure (\<lambda>(_, _, l, r). r - l)") auto

declare binary_search_from.simps [simp del]

definition binary_search :: "nat list \<Rightarrow> nat \<Rightarrow> nat option" where
  "binary_search xs x = binary_search_from xs x 0 (length xs)"

definition is_ref_ty :: "ty \<Rightarrow> bool" where
  "is_ref_ty t = (case t of Ty_Ref _ _ \<Rightarrow> True | _ \<Rightarrow> False)"

definition clone_use :: "hcx \<Rightarrow> df_graph \<Rightarrow> nat \<times> graph_node \<Rightarrow> (span \<times> span) list \<Rightarrow> (span \<times> span) list res" where
  "clone_use hcx g = (\<lambda>(idx, node) record.
     rbind (find_downside_use_as_param g idx) (\<lambda>found. case found of
         None \<Rightarrow> Inr record
       | Some (node_idx, edge_idx) \<Rightarrow>
           rbind (at (df_nodes g) node_idx) (\<lambda>use_node.
           rbind (at (df_edges g) edge_idx) (\<lambda>ed.
           let seq = ge_seq ed in
           rbind (rfold (\<lambda>e es. rbind (at (df_edges g) e) (\<lambda>ed. Inr (if ge_seq ed = seq then es @ [e] else es)))
               (gn_in_edges use_node) []) (\<lambda>filtered_in_edges.
           rbind (unwrap (binary_search filtered_in_edges edge_idx)) (\<lambda>index.
           rbind (at (gn_ops use_node) seq) (\<lambda>op. case op of
               No_Call callee_def_id \<Rightarrow>
                 let inputs = hc_fn_inputs hcx callee_def_id in
                 rbind (unwrap (if index < length inputs then Some (inputs ! index) else None)) (\<lambda>ty.
                   Inr (if \<not> is_ref_ty ty then record @ [(gn_span node, gn_span use_node)] else record))
             | _ \<Rightarrow> Inr record)))))))"

definition used_as_immutable_check :: "dcx \<Rightarrow> hcx \<Rightarrow> df_graph \<Rightarrow> (span \<times> span) list res" where
  "used_as_immutable_check dcx hcx g =
     rbind (resolve_path dcx ''std::clone::Clone::clone'') (\<lambda>target.
       rfold (\<lambda>(idx, node) record.
           rfold (\<lambda>op record. if op = No_Call target then clone_use hcx g (idx, node) record else Inr record) (gn_ops node) record)
         (enumerate 0 (df_nodes g)) [])"

subsection \<open>Keys that are cloned\<close>

definition hashset_finder :: "hcx \<Rightarrow> def_id \<Rightarrow> def_id \<Rightarrow> hir_expr \<Rightarrow> span list \<Rightarrow> span list res" where
  "hashset_finder hcx d hashset_insert ex record =
     (case ex of
        Hir i (Hk_MethodCall receiver _) sp _ \<Rightarrow>
          rbind (unwrap (hc_method hcx d i)) (\<lambda>m.
            if m = hashset_insert then
              (case hc_node_ty hcx d receiver of
                 Ty_Adt _ (Ga_Type t # _) \<Rightarrow> Inr (if \<not> is_ref_ty t then hs_insert sp record else record)
               | Ty_Adt _ [] \<Rightarrow> Inl Unwrap_none
               | Ty_Adt _ _ \<Rightarrow> Inl Unreachable_code
               | _ \<Rightarrow> Inr record)
            else Inr record)
      | _ \<Rightarrow> Inr record)"

text \<open>The call of \<open>target\<close> found upwards from the argument with number \<open>k\<close> of a call.\<close>

definition find_param_call :: "df_graph \<Rightarrow> nat \<Rightarrow> def_id \<Rightarrow> graph_node \<Rightarrow> nat option res" where
  "find_param_call g k target node =
     rbind (at (gn_in_edges node) k) (\<lambda>e. rbind (at (df_edges g) e) (\<lambda>ed.
     rbind (df_dfs_top g Upside (call_operator g target) (pure_validator equivalent_edge_validator g) False (ge_src ed) None)
       (\<lambda>(_, found). Inr found)))"

definition hash_key_cloning_check :: "dcx \<Rightarrow> hcx \<Rightarrow> df_graph \<Rightarrow> (span \<times> span) list res" where
  "hash_key_cloning_check dcx hcx g =
     rbind (resolve_path dcx ''std::collections::HashSet::insert'') (\<lambda>hashset_insert.
     rbind (resolve_path dcx ''std::collections::HashSet::new'') (\<lambda>hashset_new.
     rbind (resolve_path dcx ''std::clone::Clone::clone'') (\<lambda>clone.
     rbind (walk_body hcx (df_def_id g) (hashset_finder hcx (df_def_id g) hashset_insert) []) (\<lambda>inserts.
       rfold (\<lambda>node reports.
           if gn_span node \<in> set inserts then
             rbind (find_param_call g 1 clone node) (\<lambda>c. case c of
                 None \<Rightarrow> Inr reports
               | Some clone_node_idx \<Rightarrow>
                   rbind (find_param_call g 0 hashset_new node) (\<lambda>n. case n of
                       None \<Rightarrow> Inr reports
                     | Some new_node_idx \<Rightarrow>
                         rbind (is_connected g new_node_idx 0) (\<lambda>connected.
                           if \<not> connected
                           then rbind (at (df_nodes g) clone_node_idx) (\<lambda>cn. Inr (reports @ [(gn_span cn, gn_span node)]))
                           else Inr reports)))
           else Inr reports)
         (df_nodes g) []))))"

subsection \<open>Slices and iterators\<close>

definition slice_contains_check :: "dcx \<Rightarrow> hcx \<Rightarrow> df_graph \<Rightarrow> span list res" where
  "slice_contains_check dcx hcx g =
     rbind (resolve_path dcx ''slice::contains'') (\<lambda>target.
       walk_body hcx (df_def_id g) (method_finder hcx (df_def_id g) target) [])"

record next_iterator_check =
  ni_next_record :: "span list"
  ni_chain_record :: "span list"
  ni_valid :: bool

definition next_finder :: "hcx \<Rightarrow> def_id \<Rightarrow> def_id \<Rightarrow> def_id \<Rightarrow> hir_expr \<Rightarrow> span list \<times> span list \<Rightarrow> (span list \<times> span list) res" where
  "next_finder hcx d next_def_id chain_def_id ex = (\<lambda>(next_record, chain_record).
     rbind (method_finder hcx d next_def_id ex next_record) (\<lambda>n.
     rbind (method_finder hcx d chain_def_id ex chain_record) (\<lambda>c. Inr (n, c))))"

definition next_iterator_run :: "dcx \<Rightarrow> hcx \<Rightarrow> df_graph \<Rightarrow> next_iterator_check res" where
  "next_iterator_run dcx hcx g =
     rbind (resolve_path dcx ''std::iter::Iterator::next'') (\<lambda>next_def_id.
     rbind (resolve_path dcx ''std::iter::Iterator::chain'') (\<lambda>chain_def_id.
     rbind (walk_body hcx (df_def_id g) (next_finder hcx (df_def_id g) next_def_id chain_def_id) ([], [])) (\<lambda>(n, c).
       Inr (if c = [] \<or> n = [] then \<lparr>ni_next_record = [], ni_chain_record = [], ni_valid = False\<rparr>
            else \<lparr>ni_next_record = n, ni_chain_record = c, ni_valid = True\<rparr>))))"

subsection \<open>The driver\<close>

text \<open>What \<open>Opt::start\<close> reports: whether it warns, and for every lint the graphs and the records it reports on them.\<close>

record opt_output =
  oo_warned :: bool
  oo_bounds :: "(df_graph \<times> bounds_check) list"
  oo_immutable :: "(df_graph \<times> (span \<times> span) list) list"
  oo_slice :: "(df_graph \<times> span list) list"
  oo_next :: "(df_graph \<times> next_iterator_check) list"

definition rmap :: "('a \<Rightarrow> 'b res) \<Rightarrow> 'a list \<Rightarrow> 'b list res" where
  "rmap f xs = rfold (\<lambda>x ys. rbind (f x) (\<lambda>y. Inr (ys @ [y]))) xs []"

definition opt_report :: "dcx \<Rightarrow> hcx \<Rightarrow> df_graph list \<Rightarrow> opt_output res" where
  "opt_report dcx hcx graphs =
     rbind (rmap (bounds_check_run dcx hcx) graphs) (\<lambda>bounds_checks.
     rbind (rmap (used_as_immutable_check dcx hcx) graphs) (\<lambda>used_as_immutable_checks.
     rbind (rmap (slice_contains_check dcx hcx) graphs) (\<lambda>slice_contains_checks.
     rbind (rmap (next_iterator_run dcx hcx) graphs) (\<lambda>all_next.
     let next_iterator_checks = filter ni_valid all_next in
     Inr (if \<not> (bounds_checks = [] \<and> used_as_immutable_checks = [] \<and> slice_contains_checks = [] \<and> next_iterator_checks = [])
          then \<lparr>oo_warned = True, oo_bounds = zip graphs bounds_checks, oo_immutable = zip graphs used_as_immutable_checks,
                oo_slice = zip graphs slice_contains_checks, oo_next = zip graphs next_iterator_checks\<rparr>
          else \<lparr>oo_warned = False, oo_bounds = [], oo_immutable = [], oo_slice = [], oo_next = []\<rparr>)))))"

definition opt_start :: "tcx \<Rightarrow> dcx \<Rightarrow> hcx \<Rightarrow> (def_id \<Rightarrow> bool) \<Rightarrow> def_id list \<Rightarrow> opt_output res" where
  "opt_start tcx dcx hcx is_fn defs =
     rbind (build_graphs tcx is_fn defs) (\<lambda>gs.
       opt_report dcx hcx (map (\<lambda>d. the (gs d)) (set_order tcx (filter (\<lambda>d. gs d \<noteq> None) (remdups defs)))))"

end
