(* ===== verification/Opt_Props.thy ===== *)
theory Opt_Props
  imports Opt_Lints
begin

section \<open>What the lints record and report\<close>

text \<open>
  Searches over an acyclic dataflow graph keep what their operators keep; so a record of the lint on bounds checks is justified by
  the graph. The visitors see every expression once, which makes the lint on loops exact. The driver warns about every crate with a
  function, and shows the records on iterators with the wrong functions.
\<close>

subsection \<open>Searches keep invariants\<close>







subsection \<open>Bounds checks\<close>
















text \<open>A function that fills a range up to the length of a vector and indexes the vector with it.\<close>

definition demo_node :: "node_op \<Rightarrow> nat list \<Rightarrow> nat list \<Rightarrow> graph_node" where
  "demo_node op ins outs = \<lparr>gn_ops = [op], gn_span = 0, gn_seq = 0, gn_out_edges = outs, gn_in_edges = ins\<rparr>"

definition demo_index_graph :: df_graph where
  "demo_index_graph =
     \<lparr>df_def_id = 0, df_span = 0, df_argc = 1,
      df_nodes = [demo_node No_Nop [] [0, 3], demo_node (No_Call 2) [0] [2], demo_node (No_Aggregate (Ak_Adt 1)) [1, 2] [4],
        demo_node (No_Call 3) [3, 4] [], demo_node (No_Const ''0'') [] []],
      df_edges = [\<lparr>ge_src = 0, ge_dst = 1, ge_op = Eo_Immut, ge_seq = 0\<rparr>, \<lparr>ge_src = 4, ge_dst = 2, ge_op = Eo_Const, ge_seq = 0\<rparr>,
        \<lparr>ge_src = 1, ge_dst = 2, ge_op = Eo_Move, ge_seq = 0\<rparr>, \<lparr>ge_src = 0, ge_dst = 3, ge_op = Eo_Immut, ge_seq = 0\<rparr>,
        \<lparr>ge_src = 2, ge_dst = 3, ge_op = Eo_Copy, ge_seq = 0\<rparr>],
      df_n_locals = 4\<rparr>"

definition demo_std :: dcx where
  "demo_std =
     \<lparr>dc_local_crate = 90, dc_crate_name = (\<lambda>c. if c = 10 then ''std'' else ''demo''), dc_crates = [10], dc_prim_ty = (\<lambda>_. False),
      dc_incoherent_impls = (\<lambda>_. [16]), dc_inherent_impls = (\<lambda>d. if d = 15 then [16] else []), dc_is_local = (\<lambda>_. False),
      dc_kind = (\<lambda>d. if d = 16 then Pk_Impl else if d \<in> {10..14} \<or> d \<in> {17..19} then Pk_Mod else Pk_Other),
      dc_module_children = (\<lambda>d. the (map_of [(10, [(''ops'', Res_Def 11), (''vec'', Res_Def 12), (''clone'', Res_Def 17), (''iter'', Res_Def 18)]),
          (11, [(''Range'', Res_Def 1), (''Index'', Res_Def 13), (''IndexMut'', Res_Def 14)]), (12, [(''Vec'', Res_Def 15)]),
          (13, [(''index'', Res_Def 3)]), (14, [(''index_mut'', Res_Def 5)]), (17, [(''Clone'', Res_Def 17), (''clone'', Res_Def 6)]),
          (18, [(''Iterator'', Res_Def 19)]), (19, [(''next'', Res_Def 7), (''chain'', Res_Def 8)])] d)),
      dc_assoc_items = (\<lambda>_. [2, 4, 9]), dc_item_name = (\<lambda>d. if d = 2 then ''len'' else if d = 4 then ''push'' else ''contains''),
      dc_hir = (\<lambda>_. Hi_No_Item)\<rparr>"

lemma demo_paths:
  "resolve_path demo_std ''std::ops::Range'' = Inr 1" "resolve_path demo_std ''std::vec::Vec::len'' = Inr 2"
  "resolve_path demo_std ''std::ops::Index::index'' = Inr 3" "resolve_path demo_std ''std::ops::IndexMut::index_mut'' = Inr 5"
  "resolve_path demo_std ''std::vec::Vec::push'' = Inr 4" "resolve_path demo_std ''std::clone::Clone::clone'' = Inr 6"
  "resolve_path demo_std ''std::iter::Iterator::next'' = Inr 7" "resolve_path demo_std ''std::iter::Iterator::chain'' = Inr 8"
  "resolve_path demo_std ''slice::contains'' = Inr 9"
  by code_simp+



subsection \<open>Visitors\<close>

text \<open>The expressions a visitor meets, in the order it does.\<close>

fun hir_subs :: "hir_expr \<Rightarrow> hir_expr list" where
  "hir_subs (Hir i k sp es) = Hir i k sp es # concat (map hir_subs es)"

lemma hir_visit_subs: "hir_visit act e s = rfold act (hir_subs e) s"
proof (induction e arbitrary: s)
  case (Hir i k sp es)
  have "rfold (hir_visit act) es s = rfold act (concat (map hir_subs es)) s" for s
    using Hir by (induction es arbitrary: s) (auto simp: rfold_append cong: rbind_cong)
  then show ?case by (simp cong: rbind_cong)
qed

definition body_subs :: "hcx \<Rightarrow> def_id \<Rightarrow> hir_expr list" where
  "body_subs hcx d = concat (map hir_subs (hc_body hcx d))"

lemma rfold_hir_visit: "rfold (hir_visit act) es s = rfold act (concat (map hir_subs es)) s"
  by (induction es arbitrary: s) (auto simp: hir_visit_subs rfold_append cong: rbind_cong)

text \<open>Every method call has been resolved by the type checker.\<close>

fun method_known :: "hcx \<Rightarrow> def_id \<Rightarrow> hir_expr \<Rightarrow> bool" where
  "method_known hcx d (Hir i k sp es) \<longleftrightarrow> (case k of Hk_MethodCall _ _ \<Rightarrow> hc_method hcx d i \<noteq> None | _ \<Rightarrow> True)"

fun call_span :: "hcx \<Rightarrow> def_id \<Rightarrow> def_id \<Rightarrow> hir_expr \<Rightarrow> span option" where
  "call_span hcx d target (Hir i k sp es) =
     (case k of Hk_MethodCall _ csp \<Rightarrow> if hc_method hcx d i = Some target then Some csp else None | _ \<Rightarrow> None)"

lemma method_finder_exact:
  "\<forall>e \<in> set es. method_known hcx d e \<Longrightarrow>
    rfold (method_finder hcx d target) es rec = Inr (rec @ List.map_filter (call_span hcx d target) es)"
proof (induction es arbitrary: rec)
  case (Cons e es)
  obtain i k sp xs where e: "e = Hir i k sp xs" by (cases e)
  from Cons show ?case by (cases k) (auto simp: e method_finder_def map_filter_simps)
qed (simp add: map_filter_simps)

definition calls_in :: "hcx \<Rightarrow> def_id \<Rightarrow> def_id \<Rightarrow> hir_expr list \<Rightarrow> span list" where
  "calls_in hcx d target es = List.map_filter (call_span hcx d target) (concat (map hir_subs es))"

fun push_loop :: "hcx \<Rightarrow> def_id \<Rightarrow> def_id \<Rightarrow> hir_expr \<Rightarrow> (span \<times> span list) option" where
  "push_loop hcx d vec_push (Hir i k sp es) =
     (if k = Hk_Loop \<and> length (calls_in hcx d vec_push es) = 1 then Some (sp, calls_in hcx d vec_push es) else None)"

lemma hir_subs_trans: "f \<in> set (hir_subs e) \<Longrightarrow> set (hir_subs f) \<subseteq> set (hir_subs e)"
  by (induction e) auto

lemma body_subs_inner:
  assumes "Hir i k sp es \<in> set (body_subs hcx d)"
  shows "set (concat (map hir_subs es)) \<subseteq> set (body_subs hcx d)"
proof -
  from assms obtain b where "b \<in> set (hc_body hcx d)" "Hir i k sp es \<in> set (hir_subs b)" by (auto simp: body_subs_def)
  with hir_subs_trans [of "Hir i k sp es" b] show ?thesis by (fastforce simp: body_subs_def)
qed

lemma loop_finder_exact:
  assumes "\<forall>e \<in> set (body_subs hcx d). method_known hcx d e" "set es \<subseteq> set (body_subs hcx d)"
  shows "rfold (loop_finder hcx d vec_push) es rec = Inr (rec @ List.map_filter (push_loop hcx d vec_push) es)"
  using assms(2)
proof (induction es arbitrary: rec)
  case (Cons e es)
  obtain i k sp xs where e: "e = Hir i k sp xs" by (cases e)
  have "\<forall>x \<in> set (concat (map hir_subs xs)). method_known hcx d x" using body_subs_inner [of i k sp xs hcx d] Cons.prems assms(1) e by auto
  then have "rfold (hir_visit (method_finder hcx d vec_push)) xs [] = Inr (calls_in hcx d vec_push xs)"
    by (simp only: rfold_hir_visit method_finder_exact calls_in_def append_Nil)
  with Cons show ?case by (cases k) (auto simp: e loop_finder_def map_filter_simps)
qed (simp add: map_filter_simps)

text \<open>The lint on pushes in loops is exact. If the type checker resolved all method calls of a local function, the lint returns
  and records, in the order of the source, exactly the loops with one single push anywhere inside, nested loops included; so a
  push in an inner loop is recorded for the outer one as well.\<close>

theorem loop_push_check_exact:
  assumes "resolve_path dcx ''std::vec::Vec::push'' = Inr vec_push" "hc_local hcx (df_def_id g)"
    and "\<forall>e \<in> set (body_subs hcx (df_def_id g)). method_known hcx (df_def_id g) e"
  shows "bounds_loop_push_check dcx hcx g =
    Inr (List.map_filter (push_loop hcx (df_def_id g) vec_push) (body_subs hcx (df_def_id g)))"
  using assms loop_finder_exact [OF assms(3), of "body_subs hcx (df_def_id g)" vec_push "[]"]
  by (simp add: bounds_loop_push_check_def walk_body_def rfold_hir_visit body_subs_def)

definition demo_hcx :: hcx where
  "demo_hcx = \<lparr>hc_local = (\<lambda>_. True),
     hc_body = (\<lambda>d. if d = 0 then [Hir 0 Hk_Loop 30 [Hir 1 Hk_Loop 31 [Hir 2 (Hk_MethodCall 3 32) 33 []]]]
                    else [Hir 4 (Hk_MethodCall 5 34) 35 [], Hir 6 (Hk_MethodCall 7 36) 37 []]),
     hc_method = (\<lambda>_ i. if i = 2 then Some 4 else if i = 4 then Some 7 else Some 8),
     hc_node_ty = (\<lambda>_ _. Ty_Bool), hc_fn_inputs = (\<lambda>_. [])\<rparr>"

theorem loop_push_check_exact_witness: "bounds_loop_push_check demo_std demo_hcx demo_index_graph = Inr [(30, [32]), (31, [32])]"
proof -
  have "bounds_loop_push_check demo_std demo_hcx demo_index_graph =
    Inr (List.map_filter (push_loop demo_hcx (df_def_id demo_index_graph) 4) (body_subs demo_hcx (df_def_id demo_index_graph)))"
    by (rule loop_push_check_exact [OF demo_paths(5)]) (auto simp: demo_hcx_def demo_index_graph_def body_subs_def)
  also have "\<dots> = Inr [(30, [32]), (31, [32])]" by code_simp
  finally show ?thesis .
qed

subsection \<open>The driver\<close>

lemma rmap_Inr: "rmap f xs = Inr ys \<longleftrightarrow> list_all2 (\<lambda>x y. f x = Inr y) xs ys"
proof -
  have "rfold (\<lambda>x ys. rbind (f x) (\<lambda>y. Inr (ys @ [y]))) xs acc = Inr ys \<longleftrightarrow> (\<exists>zs. ys = acc @ zs \<and> list_all2 (\<lambda>x y. f x = Inr y) xs zs)" for acc
  proof (induction xs arbitrary: acc)
    case (Cons x xs)
    then show ?case by (cases "f x") (auto simp: list_all2_Cons1)
  qed auto
  from this [of "[]"] show ?thesis by (simp add: rmap_def)
qed

lemma zip_own: "list_all2 (\<lambda>x y. f x = Inr y) xs ys \<Longrightarrow> map fst (zip xs ys) = xs \<and> (\<forall>(x, y) \<in> set (zip xs ys). f x = Inr y)"
  by (auto simp: list_all2_iff)

lemma build_graphs_dom:
  assumes "build_graphs tcx is_fn defs = Inr gs"
  shows "dom gs = {d \<in> set defs. is_fn d}"
proof -
  have "rfold (\<lambda>d gs. if is_fn d then rbind (build_graph tcx d) (\<lambda>g. Inr (gs(d \<mapsto> g))) else Inr gs) ds m = Inr gs \<Longrightarrow>
    dom gs = dom m \<union> {d \<in> set ds. is_fn d}" for ds m
  proof (induction ds arbitrary: m)
    case (Cons d ds)
    show ?case
    proof (cases "is_fn d")
      case True
      with Cons.prems obtain g where "rfold (\<lambda>d gs. if is_fn d then rbind (build_graph tcx d) (\<lambda>g. Inr (gs(d \<mapsto> g))) else Inr gs) ds
          (m(d \<mapsto> g)) = Inr gs" by (auto simp: rbind_Inr_iff)
      from Cons.IH [OF this] True show ?thesis by (auto split: if_splits)
    qed (use Cons.IH [of m] Cons.prems in auto)
  qed simp
  from this [of defs Map.empty] assms show ?thesis by (simp add: build_graphs_def)
qed

text \<open>The graphs of the functions of a crate, in the order of the table.\<close>

definition opt_graphs :: "tcx \<Rightarrow> (def_id \<rightharpoonup> df_graph) \<Rightarrow> def_id list \<Rightarrow> df_graph list" where
  "opt_graphs tcx gs defs = map (\<lambda>d. the (gs d)) (set_order tcx (filter (\<lambda>d. gs d \<noteq> None) (remdups defs)))"

text \<open>What the driver of the lints reports. If it returns, it warns about performance issues exactly if the crate has a function,
  whether or not a lint recorded anything; the lints on bounds checks, clones and slices are reported on every graph
  with the record of that graph.\<close>

theorem opt_start_reports:
  assumes "opt_start tcx dcx hcx is_fn defs = Inr out" "build_graphs tcx is_fn defs = Inr gs" "enum_order (set_order tcx)"
  shows "(oo_warned out \<longleftrightarrow> (\<exists>d \<in> set defs. is_fn d)) \<and>
    map fst (oo_bounds out) = opt_graphs tcx gs defs \<and> (\<forall>(g, c) \<in> set (oo_bounds out). bounds_check_run dcx hcx g = Inr c) \<and>
    map fst (oo_immutable out) = opt_graphs tcx gs defs \<and> (\<forall>(g, c) \<in> set (oo_immutable out). used_as_immutable_check dcx hcx g = Inr c) \<and>
    map fst (oo_slice out) = opt_graphs tcx gs defs \<and> (\<forall>(g, c) \<in> set (oo_slice out). slice_contains_check dcx hcx g = Inr c)"
proof -
  let ?gs = "opt_graphs tcx gs defs"
  from assms(1,2) have "opt_report dcx hcx ?gs = Inr out" by (simp add: opt_start_def opt_graphs_def)
  then obtain bs us ss ns where
    b: "list_all2 (\<lambda>g c. bounds_check_run dcx hcx g = Inr c) ?gs bs" and u: "list_all2 (\<lambda>g c. used_as_immutable_check dcx hcx g = Inr c) ?gs us" and
    s: "list_all2 (\<lambda>g c. slice_contains_check dcx hcx g = Inr c) ?gs ss" and n: "list_all2 (\<lambda>g c. next_iterator_run dcx hcx g = Inr c) ?gs ns" and
    out: "out = (if \<not> (bs = [] \<and> us = [] \<and> ss = [] \<and> filter ni_valid ns = [])
       then \<lparr>oo_warned = True, oo_bounds = zip ?gs bs, oo_immutable = zip ?gs us, oo_slice = zip ?gs ss, oo_next = zip ?gs (filter ni_valid ns)\<rparr>
       else \<lparr>oo_warned = False, oo_bounds = [], oo_immutable = [], oo_slice = [], oo_next = []\<rparr>)"
    by (auto simp: opt_report_def rbind_Inr_iff rmap_Inr Let_def)
  have "set (filter (\<lambda>d. gs d \<noteq> None) (remdups defs)) = {d \<in> set defs. is_fn d}" using build_graphs_dom [OF assms(2)] by (auto simp: dom_def)
  then have "?gs = [] \<longleftrightarrow> \<not> (\<exists>d \<in> set defs. is_fn d)"
    using enum_orderD [OF assms(3), of "filter (\<lambda>d. gs d \<noteq> None) (remdups defs)"] by (auto simp: opt_graphs_def set_empty [symmetric] simp del: set_empty)
  moreover have "bs = [] \<longleftrightarrow> ?gs = []" using b by (auto simp: list_all2_iff)
  ultimately show ?thesis using zip_own [OF b] zip_own [OF u] zip_own [OF s] u s n by (auto simp: out)
qed

text \<open>The lint on iterators is reported on the wrong functions. The driver drops the checks without findings but pairs those left
  with all the graphs in order. So if the first function has no finding but another one has, the first report shows the
  finding of another function on the source of the first.\<close>

theorem next_iterator_report_misplaced:
  assumes "opt_report dcx hcx (g # gs) = Inr out" "next_iterator_run dcx hcx g = Inr c0" "\<not> ni_valid c0"
    and "h \<in> set gs" "next_iterator_run dcx hcx h = Inr c1" "ni_valid c1"
  shows "\<exists>c rest. oo_next out = (g, c) # rest \<and> ni_valid c \<and> (\<exists>h \<in> set gs. next_iterator_run dcx hcx h = Inr c)"
proof -
  from assms(1) obtain bs us ss ns where b: "list_all2 (\<lambda>g c. bounds_check_run dcx hcx g = Inr c) (g # gs) bs" and
    n: "list_all2 (\<lambda>g c. next_iterator_run dcx hcx g = Inr c) (g # gs) ns" and
    out: "out = (if \<not> (bs = [] \<and> us = [] \<and> ss = [] \<and> filter ni_valid ns = [])
       then \<lparr>oo_warned = True, oo_bounds = zip (g # gs) bs, oo_immutable = zip (g # gs) us, oo_slice = zip (g # gs) ss,
         oo_next = zip (g # gs) (filter ni_valid ns)\<rparr>
       else \<lparr>oo_warned = False, oo_bounds = [], oo_immutable = [], oo_slice = [], oo_next = []\<rparr>)"
    by (auto simp: opt_report_def rbind_Inr_iff rmap_Inr Let_def)
  from n assms(2) obtain ms where ms: "ns = c0 # ms" "list_all2 (\<lambda>g c. next_iterator_run dcx hcx g = Inr c) gs ms"
    by (auto simp: list_all2_Cons1)
  from ms(2) assms(4,5) have "c1 \<in> set ms" by (auto simp: list_all2_conv_all_nth in_set_conv_nth)
  with assms(6) obtain c cs where c: "filter ni_valid ms = c # cs" by (cases "filter ni_valid ms") (auto simp: filter_empty_conv)
  then have "c \<in> set ms" "ni_valid c" by (auto dest!: arg_cong [where f = set])
  moreover from this(1) obtain i where "i < length ms" "c = ms ! i" by (auto simp: in_set_conv_nth)
  with ms(2) have "next_iterator_run dcx hcx (gs ! i) = Inr c" "gs ! i \<in> set gs" by (simp_all add: list_all2_conv_all_nth)
  ultimately show ?thesis using c ms(1) assms(3) by (auto simp: out)
qed

text \<open>A crate of two functions; only the second chains and advances an iterator.\<close>

definition demo_opt_tcx :: tcx where
  "demo_opt_tcx = demo_flow_tcx []"

theorem opt_start_reports_witness:
  "\<exists>out. opt_start demo_opt_tcx demo_std (demo_hcx\<lparr>hc_body := (\<lambda>_. [])\<rparr>) (\<lambda>_. True) [0] = Inr out \<and> oo_warned out"
proof -
  let ?hcx = "demo_hcx\<lparr>hc_body := (\<lambda>_. [])\<rparr>"
  obtain gs where gs: "build_graphs demo_opt_tcx (\<lambda>_. True) [0] = Inr gs"
    by (simp add: build_graphs_def demo_opt_tcx_def demo_flow_simps)
  have "\<not> isl (opt_start demo_opt_tcx demo_std ?hcx (\<lambda>_. True) [0])" by code_simp
  then obtain out where out: "opt_start demo_opt_tcx demo_std ?hcx (\<lambda>_. True) [0] = Inr out" using sum.collapse(2) by metis
  have "enum_order (set_order demo_opt_tcx)" by (simp add: demo_opt_tcx_def demo_flow_tcx_def)
  from opt_start_reports [OF out gs this] out show ?thesis by simp
qed

theorem next_iterator_report_misplaced_witness:
  "\<exists>out c rest. opt_report demo_std demo_hcx [demo_index_graph, demo_index_graph\<lparr>df_def_id := 1\<rparr>] = Inr out \<and>
    oo_next out = (demo_index_graph, c) # rest \<and> ni_next_record c = [34]"
proof -
  let ?h = "demo_index_graph\<lparr>df_def_id := 1\<rparr>" and ?c0 = "\<lparr>ni_next_record = [], ni_chain_record = [], ni_valid = False\<rparr>"
    and ?c1 = "\<lparr>ni_next_record = [34], ni_chain_record = [36], ni_valid = True\<rparr>"
  have runs: "next_iterator_run demo_std demo_hcx demo_index_graph = Inr ?c0" "next_iterator_run demo_std demo_hcx ?h = Inr ?c1" by code_simp+
  have "\<not> isl (opt_report demo_std demo_hcx [demo_index_graph, ?h])" by code_simp
  then obtain out where out: "opt_report demo_std demo_hcx [demo_index_graph, ?h] = Inr out" using sum.collapse(2) by metis
  from next_iterator_report_misplaced [OF out runs(1) _ _ runs(2)] runs(2) out show ?thesis by auto
qed

end
