(* ===== verification/Uig.thy ===== *)
theory Uig
  imports Fn_Info
begin

section \<open>Isolation of unsafe code\<close>

text \<open>
  \<^verbatim>\<open>analysis/unsafety_isolation\<close>: which functions of a crate are unsafe or contain unsafe blocks, the graph of their unsafe callees,
  constructors and methods, and the units of a caller with its unsafe callees that are counted and drawn. The HIR the collectors
  walk and the compiler's answers are the record \<open>ucx\<close>; the files written for Graphviz are left out, the graphs they show are not.
\<close>

subsection \<open>Functions of the crate\<close>

text \<open>An item with associated items: whether it is a function, its body if it has one, and its span.\<close>

type_synonym assoc_ref = "bool \<times> nat option \<times> span"

datatype top_item = It_Impl nat "assoc_ref list" | It_Trait "assoc_ref list" | It_Fn nat nat span | It_Other

datatype hir_block = Hir_Block bool "hir_block list"

record ucx =
  uc_items :: "top_item list"
  uc_body_owner :: "nat \<Rightarrow> def_id"
  uc_blocks :: "nat \<Rightarrow> hir_block list"
  uc_impl_items :: "(def_id \<times> def_id option) list"
  uc_assoc_items :: "def_id \<Rightarrow> (def_id \<times> bool) list"
  uc_path_verbose :: "def_id \<Rightarrow> string"
  uc_local :: "def_id \<Rightarrow> bool"
  uc_doc_comment :: "def_id \<Rightarrow> bool"
  uc_related_order :: "nat option list \<Rightarrow> nat option list"

type_synonym related_items = "(nat option \<times> (nat \<times> span) list) list"

definition entry_extend :: "nat option \<Rightarrow> (nat \<times> span) list \<Rightarrow> related_items \<Rightarrow> related_items" where
  "entry_extend key xs m = AList.update key ((case map_of m key of Some ys \<Rightarrow> ys | None \<Rightarrow> []) @ xs) m"

definition assoc_bodies :: "assoc_ref list \<Rightarrow> (nat \<times> span) list" where
  "assoc_bodies = List.map_filter (\<lambda>(is_fn, body, sp). if is_fn then map_option (\<lambda>b. (b, sp)) body else None)"

definition rf_visit_item :: "top_item \<Rightarrow> related_items \<Rightarrow> related_items" where
  "rf_visit_item item m =
     (case item of
        It_Impl self_ty items \<Rightarrow> entry_extend (Some self_ty) (assoc_bodies items) m
      | It_Trait items \<Rightarrow> entry_extend None (assoc_bodies items) m
      | It_Fn hir_id body sp \<Rightarrow> entry_extend (Some hir_id) [(body, sp)] m
      | It_Other \<Rightarrow> m)"

definition rf_collect :: "ucx \<Rightarrow> related_items" where
  "rf_collect ucx = fold rf_visit_item (uc_items ucx) []"

text \<open>The loop over the values of the map.\<close>

definition related_bodies :: "ucx \<Rightarrow> (nat \<times> span) list" where
  "related_bodies ucx = concat (map (\<lambda>k. the (map_of (rf_collect ucx) k)) (uc_related_order ucx (map fst (rf_collect ucx))))"

fun block_unsafe :: "hir_block \<Rightarrow> bool" where
  "block_unsafe (Hir_Block is_unsafe blocks) \<longleftrightarrow> is_unsafe \<or> list_ex block_unsafe blocks"

definition contains_unsafe :: "fcx \<Rightarrow> ucx \<Rightarrow> nat \<Rightarrow> bool \<times> bool" where
  "contains_unsafe fcx ucx body = (fc_unsafe fcx (uc_body_owner ucx body), list_ex block_unsafe (uc_blocks ucx body))"

subsection \<open>The graph\<close>

record iso_node =
  in_node_id :: def_id
  in_node_type :: nat
  in_node_name :: string
  in_node_unsafety :: bool
  in_constructors :: "def_id list"
  in_callees :: "def_id list"
  in_methods :: "def_id list"
  in_callers :: "def_id list"
  in_visited_tag :: bool
  in_is_crate_api :: bool

definition iso_node_new :: "def_id \<Rightarrow> nat \<Rightarrow> string \<Rightarrow> bool \<Rightarrow> bool \<Rightarrow> iso_node" where
  "iso_node_new d ty name is_unsafe api =
     \<lparr>in_node_id = d, in_node_type = ty, in_node_name = name, in_node_unsafety = is_unsafe, in_constructors = [], in_callees = [],
      in_methods = [], in_callers = [], in_visited_tag = False, in_is_crate_api = api\<rparr>"

record uig_unit =
  uu_caller :: node_type
  uu_caller_cons :: "node_type list"
  uu_callee_cons_pair :: "(node_type \<times> node_type list) list"

record uig_check =
  ug_nodes :: "iso_node list"
  ug_related_func_def_id :: "def_id list"
  ug_uigs :: "uig_unit list"
  ug_single :: "uig_unit list"

definition uig_check_new :: uig_check where
  "uig_check_new = \<lparr>ug_nodes = [], ug_related_func_def_id = [], ug_uigs = [], ug_single = []\<rparr>"

definition find_node :: "def_id \<Rightarrow> uig_check \<Rightarrow> iso_node option" where
  "find_node d s = find (\<lambda>n. in_node_id n = d) (ug_nodes s)"

text \<open>\<open>iter_mut().find\<close>: the first node of that number is updated.\<close>

fun upd_first :: "('a \<Rightarrow> bool) \<Rightarrow> ('a \<Rightarrow> 'a) \<Rightarrow> 'a list \<Rightarrow> 'a list" where
  "upd_first P f [] = []"
| "upd_first P f (x # xs) = (if P x then f x # xs else x # upd_first P f xs)"

definition upd_node :: "def_id \<Rightarrow> (iso_node \<Rightarrow> iso_node) \<Rightarrow> uig_check \<Rightarrow> uig_check" where
  "upd_node d f s = s\<lparr>ug_nodes := upd_first (\<lambda>n. in_node_id n = d) f (ug_nodes s)\<rparr>"

definition push_node :: "iso_node \<Rightarrow> uig_check \<Rightarrow> uig_check" where
  "push_node n s = s\<lparr>ug_nodes := ug_nodes s @ [n]\<rparr>"

definition check_if_node_exists :: "def_id \<Rightarrow> uig_check \<Rightarrow> bool" where
  "check_if_node_exists d s \<longleftrightarrow> find_node d s \<noteq> None"

definition is_crate_api_node :: "def_id \<Rightarrow> uig_check \<Rightarrow> bool" where
  "is_crate_api_node d s \<longleftrightarrow> d \<in> set (ug_related_func_def_id s)"

definition set_method_for_constructor :: "def_id \<Rightarrow> def_id \<Rightarrow> uig_check \<Rightarrow> uig_check" where
  "set_method_for_constructor cons meth =
     upd_node cons (\<lambda>n. if meth \<in> set (in_methods n) then n else n\<lparr>in_methods := in_methods n @ [meth]\<rparr>)"

definition set_caller_for_callee :: "def_id \<Rightarrow> def_id \<Rightarrow> uig_check \<Rightarrow> uig_check" where
  "set_caller_for_callee caller callee =
     upd_node callee (\<lambda>n. if caller \<in> set (in_callers n) then n else n\<lparr>in_callers := in_callers n @ [caller]\<rparr>)"

text \<open>\<open>trim\<close> takes white space from both ends of a name.\<close>

definition white_chars :: "char list" where
  "white_chars = [CHR 0x20, CHR 0x09, CHR 0x0A, CHR 0x0B, CHR 0x0C, CHR 0x0D]"

definition trim_blanks :: "string \<Rightarrow> string" where
  "trim_blanks s = rev (dropWhile (\<lambda>c. c \<in> set white_chars) (rev (dropWhile (\<lambda>c. c \<in> set white_chars) s)))"

definition uig_get_name :: "fcx \<Rightarrow> ucx \<Rightarrow> def_id \<Rightarrow> string" where
  "uig_get_name fcx ucx d =
     (let verbose = last (str_split ''::'' (uc_path_verbose ucx d)) in
      case fc_assoc fcx d of
        Some item \<Rightarrow> (case ai_impl item of
            Some impl_id \<Rightarrow> trim_blanks (hd (str_split ''<'' (fc_ty_str fcx (fc_impl_ty fcx impl_id)))) @ ''.'' @ verbose
          | None \<Rightarrow> '''')
      | None \<Rightarrow> verbose)"

text \<open>The functions in the implementations of the type a method belongs to.\<close>

definition struct_fns :: "fcx \<Rightarrow> ucx \<Rightarrow> def_id \<Rightarrow> def_id list" where
  "struct_fns fcx ucx d =
     (case fc_assoc fcx d of
        Some item \<Rightarrow> (case ai_impl item of
            Some impl_id \<Rightarrow> (case fc_impl_ty fcx impl_id of
                Ty_Adt adt _ \<Rightarrow>
                  concat (map (\<lambda>i. map fst (filter snd (uc_assoc_items ucx i))) (get_impls_for_struct (uc_impl_items ucx) adt))
              | _ \<Rightarrow> [])
          | None \<Rightarrow> [])
      | None \<Rightarrow> [])"

text \<open>\<open>search_constructor\<close>, with the insertion of a node as argument.\<close>

definition search_constructor_with ::
    "fcx \<Rightarrow> ucx \<Rightarrow> (def_id \<Rightarrow> uig_check \<Rightarrow> uig_check res) \<Rightarrow> def_id \<Rightarrow> uig_check \<Rightarrow> (def_id list \<times> uig_check) res" where
  "search_constructor_with fcx ucx insert_node d s =
     rfold (\<lambda>item (constructors, s).
         if get_type fcx item = 0 then
           rbind (insert_node item s) (\<lambda>s. Inr (constructors @ [item], set_method_for_constructor item d s))
         else Inr (constructors, s))
       (struct_fns fcx ucx d) ([], s)"

fun check_and_insert_node :: "nat \<Rightarrow> fcx \<Rightarrow> ucx \<Rightarrow> def_id \<Rightarrow> uig_check \<Rightarrow> uig_check res" where
  "check_and_insert_node 0 fcx ucx d s = Inl Diverges"
| "check_and_insert_node (Suc n) fcx ucx d s =
     (if check_if_node_exists d s then Inr s
      else
        let node = iso_node_new d (get_type fcx d) (uig_get_name fcx ucx d) (check_safety fcx d) (is_crate_api_node d s) in
        if get_type fcx d = 1 then
          rbind (search_constructor_with fcx ucx (check_and_insert_node n fcx ucx) d s) (\<lambda>(cs, s).
            Inr (push_node (node\<lparr>in_constructors := cs\<rparr>) s))
        else Inr (push_node node s))"

text \<open>Two nested calls: a constructor has no constructors.\<close>

definition insert_node_top :: "fcx \<Rightarrow> ucx \<Rightarrow> def_id \<Rightarrow> uig_check \<Rightarrow> uig_check res" where
  "insert_node_top = check_and_insert_node 2"

definition search_constructor :: "fcx \<Rightarrow> ucx \<Rightarrow> def_id \<Rightarrow> uig_check \<Rightarrow> (def_id list \<times> uig_check) res" where
  "search_constructor fcx ucx = search_constructor_with fcx ucx (insert_node_top fcx ucx)"

text \<open>\<open>get_cons_counts\<close>: the constructors, and the number of methods that is printed.\<close>

definition get_cons_counts :: "fcx \<Rightarrow> ucx \<Rightarrow> def_id \<Rightarrow> def_id list \<times> nat" where
  "get_cons_counts fcx ucx d =
     (filter (\<lambda>i. get_type fcx i = 0) (struct_fns fcx ucx d), length (filter (\<lambda>i. get_type fcx i = 1) (struct_fns fcx ucx d)))"

definition visit_node_callees :: "tcx \<Rightarrow> fcx \<Rightarrow> ucx \<Rightarrow> def_id \<Rightarrow> uig_check \<Rightarrow> (def_id list \<times> uig_check) res" where
  "visit_node_callees tcx fcx ucx d s =
     rbind (if mir_available tcx d then
         rfold (\<lambda>bb (callees, s). rbind (unwrap (bb_terminator bb)) (\<lambda>t. case call_target (t_kind t) of
               Some callee \<Rightarrow>
                 if check_safety fcx callee \<and> callee \<notin> set callees then
                   if \<not> check_if_node_exists callee s
                   then rbind (insert_node_top fcx ucx callee s) (\<lambda>s. Inr (callees @ [callee], set_caller_for_callee d callee s))
                   else Inr (callees @ [callee], s)
                 else Inr (callees, s)
             | None \<Rightarrow> Inr (callees, s)))
           (basic_blocks (optimized_mir tcx d)) ([], s)
       else Inr ([], s)) (\<lambda>(callees, s).
     Inr (callees, upd_node d (\<lambda>n. n\<lparr>in_callees := callees, in_visited_tag := True\<rparr>) s))"

text \<open>The first loop of \<open>filter_and_extend_unsafe\<close>, with the set and the queue.\<close>

definition add_related :: "fcx \<Rightarrow> ucx \<Rightarrow> nat \<times> span \<Rightarrow> uig_check \<times> def_id list \<times> def_id list \<Rightarrow> (uig_check \<times> def_id list \<times> def_id list) res" where
  "add_related fcx ucx = (\<lambda>(body, _) (s, visited, queue).
     let (function_unsafe, has_block) = contains_unsafe fcx ucx body; d = uc_body_owner ucx body in
     if function_unsafe \<or> has_block then
       let node = iso_node_new d (get_type fcx d) (uig_get_name fcx ucx d) function_unsafe True in
       rbind (if get_type fcx d = 1
              then rbind (search_constructor fcx ucx d s) (\<lambda>(cs, s). Inr (node\<lparr>in_constructors := cs\<rparr>, s))
              else Inr (node, s)) (\<lambda>(node, s).
       let s = (push_node node s)\<lparr>ug_related_func_def_id := ug_related_func_def_id s @ [d]\<rparr> in
       Inr (if d \<in> set visited then (s, visited, queue) else (s, hs_insert d visited, queue @ [d])))
     else Inr (s, visited, queue))"

text \<open>The second loop.\<close>

definition enqueue :: "def_id \<Rightarrow> def_id list \<times> def_id list \<Rightarrow> def_id list \<times> def_id list" where
  "enqueue c = (\<lambda>(visited, queue). if c \<in> set visited then (visited, queue) else (hs_insert c visited, queue @ [c]))"

fun uig_bfs :: "nat \<Rightarrow> tcx \<Rightarrow> fcx \<Rightarrow> ucx \<Rightarrow> def_id list \<Rightarrow> def_id list \<Rightarrow> uig_check \<Rightarrow> uig_check res" where
  "uig_bfs n tcx fcx ucx visited [] s = Inr s"
| "uig_bfs 0 tcx fcx ucx visited (d # queue) s = Inl Diverges"
| "uig_bfs (Suc n) tcx fcx ucx visited (d # queue) s =
     (if \<not> is_crate_api_node d s then uig_bfs n tcx fcx ucx visited queue s
      else rbind (visit_node_callees tcx fcx ucx d s) (\<lambda>(callees, s).
        let (visited, queue) = fold enqueue callees (visited, queue) in uig_bfs n tcx fcx ucx visited queue s))"

definition filter_and_extend_unsafe :: "nat \<Rightarrow> tcx \<Rightarrow> fcx \<Rightarrow> ucx \<Rightarrow> uig_check \<Rightarrow> uig_check res" where
  "filter_and_extend_unsafe n tcx fcx ucx s =
     rbind (rfold (add_related fcx ucx) (related_bodies ucx) (s, [], [])) (\<lambda>(s, visited, queue).
       uig_bfs n tcx fcx ucx visited queue s)"

subsection \<open>Queries\<close>

definition get_node_name_by_def_id :: "uig_check \<Rightarrow> def_id \<Rightarrow> string" where
  "get_node_name_by_def_id s d = (case find_node d s of Some n \<Rightarrow> in_node_name n | None \<Rightarrow> '''')"

definition get_node_type_by_def_id :: "uig_check \<Rightarrow> def_id \<Rightarrow> nat" where
  "get_node_type_by_def_id s d = (case find_node d s of Some n \<Rightarrow> in_node_type n | None \<Rightarrow> 2)"

definition get_node_unsafety_by_def_id :: "uig_check \<Rightarrow> def_id \<Rightarrow> bool" where
  "get_node_unsafety_by_def_id s d = (case find_node d s of Some n \<Rightarrow> in_node_unsafety n | None \<Rightarrow> False)"

definition get_adjacent_nodes_by_def_id :: "uig_check \<Rightarrow> def_id \<Rightarrow> def_id list" where
  "get_adjacent_nodes_by_def_id s d =
     (case find_node d s of Some n \<Rightarrow> in_callees n @ in_methods n @ in_callers n @ in_constructors n | None \<Rightarrow> [])"

definition get_constructor_nodes_by_def_id :: "uig_check \<Rightarrow> def_id \<Rightarrow> def_id list" where
  "get_constructor_nodes_by_def_id s d = (case find_node d s of Some n \<Rightarrow> in_constructors n | None \<Rightarrow> [])"

end
