(* ===== verification/Uig_Units.thy ===== *)
theory Uig_Units
  imports Uig
begin

section \<open>Units of unsafe code\<close>

text \<open>
  \<^verbatim>\<open>unsafety_isolation/generate_dot.rs\<close> and \<^verbatim>\<open>std_unsafety_isolation.rs\<close>: a unit is a caller with its constructors and its unsafe callees
  with theirs. Units are made for the visible functions of a crate that are unsafe or call unsafe functions, counted by the kinds of
  caller and callee, and drawn; for each type its constructors and methods are listed.
\<close>

subsection \<open>Counting\<close>

text \<open>The counters are of type \<open>u32\<close>, and their sum is checked.\<close>

definition u32_add :: "nat \<Rightarrow> nat \<Rightarrow> nat list \<Rightarrow> nat list res" where
  "u32_add i k data =
     rbind (at data i) (\<lambda>x. if x + k < 2 ^ 32 then set_at data i (x + k) else Inl Overflow)"

definition count_pairs :: "uig_unit \<Rightarrow> nat \<Rightarrow> nat \<Rightarrow> nat list \<Rightarrow> nat list res" where
  "count_pairs u meth other =
     rfold (\<lambda>(callee, _). u32_add (if snd (snd callee) = 1 then meth else other) 1) (uu_callee_cons_pair u)"

definition cons_counts :: "uig_unit \<Rightarrow> nat \<times> nat" where
  "cons_counts u =
     (let unsafe_cons = length (filter (\<lambda>c. fst (snd c)) (uu_caller_cons u));
          safe_cons = length (filter (\<lambda>c. \<not> fst (snd c)) (uu_caller_cons u))
      in (if unsafe_cons = 0 \<and> safe_cons = 0 then 1 else safe_cons, unsafe_cons))"

definition count_method_pairs :: "uig_unit \<Rightarrow> nat \<Rightarrow> nat list \<Rightarrow> nat list res" where
  "count_method_pairs u base =
     (let (safe_cons, unsafe_cons) = cons_counts u in
      rfold (\<lambda>(callee, _) data.
          let k = (if snd (snd callee) = 1 then base + 2 else base) in
          rbind (u32_add k safe_cons data) (u32_add (k + 1) unsafe_cons))
        (uu_callee_cons_pair u))"

definition count_basic_units :: "uig_unit \<Rightarrow> nat list \<Rightarrow> nat list res" where
  "count_basic_units u data =
     (let is_unsafe = fst (snd (uu_caller u)); is_method = (snd (snd (uu_caller u)) = 1) in
      rbind (if is_unsafe \<and> uu_callee_cons_pair u = [] then u32_add 0 1 data else Inr data) (\<lambda>data.
      rbind (if \<not> is_unsafe \<and> \<not> is_method then count_pairs u 2 1 data else Inr data) (\<lambda>data.
      rbind (if is_unsafe \<and> \<not> is_method then count_pairs u 4 3 data else Inr data) (\<lambda>data.
      rbind (if is_unsafe \<and> is_method then count_method_pairs u 5 data else Inr data) (\<lambda>data.
      if \<not> is_unsafe \<and> is_method then count_method_pairs u 9 data else Inr data)))))"

subsection \<open>Drawing\<close>

datatype uig_node = Safe_Node def_id string | Unsafe_Node def_id string

datatype uig_edge = Caller_To_Callee | Cons_To_Method

definition get_node_ty :: "node_type \<Rightarrow> uig_node" where
  "get_node_ty n =
     (let (d, is_unsafe, k) = n;
          shape = (if k = 0 then ''doublecircle'' else if k = 2 then ''box'' else ''ellipse'')
      in if is_unsafe \<and> k \<le> 2 then Unsafe_Node d shape else Safe_Node d shape)"

text \<open>The graph of \<open>generate_dot_str\<close>: its nodes in the order of their indices, and its edges.\<close>

type_synonym dot_graph = "uig_node list \<times> (nat \<times> nat \<times> uig_edge) list"

definition dot_node :: "node_type \<Rightarrow> dot_graph \<Rightarrow> nat \<times> dot_graph" where
  "dot_node n = (\<lambda>(ns, es). (length ns, ns @ [get_node_ty n], es))"

definition dot_cons :: "nat \<Rightarrow> node_type \<Rightarrow> dot_graph \<Rightarrow> dot_graph" where
  "dot_cons target c g = (let (i, ns, es) = dot_node c g in (ns, es @ [(i, target, Cons_To_Method)]))"

definition dot_pair :: "nat \<Rightarrow> node_type \<times> node_type list \<Rightarrow> dot_graph \<Rightarrow> dot_graph" where
  "dot_pair caller = (\<lambda>(callee, cons) g.
     let (j, g) = dot_node callee g; (ns, es) = fold (dot_cons j) cons g in (ns, es @ [(caller, j, Caller_To_Callee)]))"

definition generate_dot_graph :: "uig_unit \<Rightarrow> dot_graph" where
  "generate_dot_graph u =
     (let (i, g) = dot_node (uu_caller u) ([], []) in
      fold (dot_pair i) (uu_callee_cons_pair u) (fold (dot_cons i) (uu_caller_cons u) g))"

definition node_attr :: "(def_id \<Rightarrow> string) \<Rightarrow> uig_node \<Rightarrow> string" where
  "node_attr show n =
     (case n of
        Safe_Node d shape \<Rightarrow> ''label='' @ [CHR 34] @ show d @ [CHR 34] @ '', color=black, shape='' @ [CHR 34] @ shape @ [CHR 34]
      | Unsafe_Node d shape \<Rightarrow>
          ''label='' @ [CHR 34] @ show d @ [CHR 92] @ ''n '' @ [CHR 34] @ '', shape='' @ [CHR 34] @ shape @ [CHR 34] @ '', color=red'')"

definition edge_attr :: "uig_edge \<Rightarrow> string" where
  "edge_attr e = (case e of Caller_To_Callee \<Rightarrow> ''color=black, style=solid'' | Cons_To_Method \<Rightarrow> ''color=black, style=dotted'')"

text \<open>\<open>compare_labels\<close>: whether the labels of caller and callees differ, in which case they are printed.\<close>

definition callee_labels :: "fcx \<Rightarrow> uig_unit \<Rightarrow> string list" where
  "callee_labels fcx u = fold (\<lambda>(callee, _) acc. hs_extend acc (get_sp fcx (fst callee))) (uu_callee_cons_pair u) []"

text \<open>The names and labels of caller and callees that are printed, with the constructors given.\<close>

definition label_report :: "fcx \<Rightarrow> uig_unit \<Rightarrow> node_type list \<Rightarrow> string \<times> string list \<times> string list \<times> string list \<times> string list" where
  "label_report fcx u cons =
     (get_cleaned_def_path_name fcx (fst (uu_caller u)), map (\<lambda>c. get_cleaned_def_path_name fcx (fst c)) cons,
      get_sp fcx (fst (uu_caller u)), map (\<lambda>(callee, _). get_cleaned_def_path_name fcx (fst callee)) (uu_callee_cons_pair u),
      callee_labels fcx u)"

definition compare_labels :: "fcx \<Rightarrow> uig_unit \<Rightarrow> (string \<times> string list \<times> string list \<times> string list \<times> string list) option" where
  "compare_labels fcx u =
     (if set (get_sp fcx (fst (uu_caller u))) = set (callee_labels fcx u) then None
      else Some (label_report fcx u (uu_caller_cons u)))"

definition print_self :: "fcx \<Rightarrow> uig_unit \<Rightarrow> string \<times> string list \<times> string list \<times> string list \<times> string list" where
  "print_self fcx u = label_report fcx u (filter (\<lambda>c. fst (snd c)) (uu_caller_cons u))"

subsection \<open>Collecting\<close>

text \<open>\<open>HashSet\<close> of callees: \<open>set_order\<close> is the order in which it is visited.\<close>

definition insert_uig :: "tcx \<Rightarrow> fcx \<Rightarrow> def_id \<Rightarrow> def_id list \<Rightarrow> node_type list \<Rightarrow> uig_check \<Rightarrow> uig_check" where
  "insert_uig tcx fcx caller callee_set caller_cons s =
     (let pairs = fold (\<lambda>callee. hs_insert (generate_node_ty fcx callee, get_cons fcx callee)) (set_order tcx callee_set) [] in
      if \<not> check_safety fcx caller \<and> length callee_set = 0 then s
      else
        let u = \<lparr>uu_caller = generate_node_ty fcx caller, uu_caller_cons = caller_cons, uu_callee_cons_pair = pairs\<rparr> in
        if length callee_set > 0 then s\<lparr>ug_uigs := ug_uigs s @ [u]\<rparr> else s\<lparr>ug_single := ug_single s @ [u]\<rparr>)"

definition filter_names :: "string list" where
  "filter_names = [''core_arch'', ''::__'', ''backtrace_rs'', ''stack_overflow'', ''thread_local'', ''raw_vec'', ''sys_common'', ''adapters'',
     ''sys::sync'', ''personality'', ''collections::btree::borrow'', ''num::int_sqrt'', ''collections::btree::node'',
     ''collections::btree::navigate'', ''core_simd'', ''unique'']"

definition filter_mir :: "fcx \<Rightarrow> def_id \<Rightarrow> bool" where
  "filter_mir fcx d \<longleftrightarrow> list_ex (str_contains (fc_def_str fcx d)) filter_names"

definition is_fn_kind :: "fcx \<Rightarrow> def_id \<Rightarrow> bool" where
  "is_fn_kind fcx d \<longleftrightarrow> fc_def_kind fcx d = Dk_Fn \<or> fc_def_kind fcx d = Dk_AssocFn"

text \<open>One key of the MIR: the unsafe functions with labels, the counts of the labels, and the units.\<close>

definition std_key ::
    "tcx \<Rightarrow> fcx \<Rightarrow> def_id \<Rightarrow> def_id list \<times> (string \<times> nat) list \<times> uig_check \<Rightarrow> (def_id list \<times> (string \<times> nat) list \<times> uig_check) res" where
  "std_key tcx fcx d = (\<lambda>(unsafe_fn, counts, s).
     if \<not> filter_mir fcx d \<and> is_fn_kind fcx d \<and> check_visibility fcx d then
       let sp_set = get_sp fcx d;
           unsafe_fn = (if check_safety fcx d \<and> length sp_set \<noteq> 0 then hs_insert d unsafe_fn else unsafe_fn);
           counts = (if check_safety fcx d
                     then fold (\<lambda>sp m. AList.update sp (Suc (case map_of m sp of Some k \<Rightarrow> k | None \<Rightarrow> 0)) m) sp_set counts else counts)
       in rbind (get_callees tcx fcx d) (\<lambda>callees. Inr (unsafe_fn, counts, insert_uig tcx fcx d callees (get_cons fcx d) s))
     else Inr (unsafe_fn, counts, s))"

text \<open>\<open>get_struct\<close>: the type with its constructors and methods if it is printed, and the cache.\<close>

record struct_info =
  si_name :: string
  si_safe_cons :: "def_id list"
  si_unsafe_cons :: "def_id list"
  si_unsafe_methods :: "def_id list"
  si_safe_methods :: "def_id list"

definition struct_adt :: "fcx \<Rightarrow> def_id \<Rightarrow> def_id option" where
  "struct_adt fcx d =
     (case fc_assoc fcx d of
        Some item \<Rightarrow> (case ai_impl item of
            Some impl_id \<Rightarrow> (case fc_impl_ty fcx impl_id of Ty_Adt adt _ \<Rightarrow> Some adt | _ \<Rightarrow> None)
          | None \<Rightarrow> None)
      | None \<Rightarrow> None)"

definition get_struct ::
    "tcx \<Rightarrow> fcx \<Rightarrow> ucx \<Rightarrow> def_id \<Rightarrow> def_id list \<times> struct_info list \<Rightarrow> (def_id list \<times> struct_info list) res" where
  "get_struct tcx fcx ucx d = (\<lambda>(cache, out).
     case struct_adt fcx d of
       None \<Rightarrow> Inr (cache, out)
     | Some adt \<Rightarrow>
         if adt \<in> set cache then Inr (cache, out)
         else
           let fns = struct_fns fcx ucx d;
               kind = (\<lambda>k safety. filter (\<lambda>i. get_type fcx i = k \<and> check_safety fcx i = safety) fns) in
           rbind (rfold (\<lambda>i ms. rbind (get_callees tcx fcx i) (\<lambda>cs. Inr (if length cs \<noteq> 0 then ms @ [i] else ms))) (kind 1 False) []) (\<lambda>safe_methods.
           let info = \<lparr>si_name = get_cleaned_def_path_name fcx adt, si_safe_cons = kind 0 False, si_unsafe_cons = kind 0 True,
                       si_unsafe_methods = kind 1 True, si_safe_methods = safe_methods\<rparr> in
           Inr (hs_insert adt cache,
                if si_name info = '''' \<or> (kind 0 True = [] \<and> kind 1 True = [] \<and> safe_methods = []) then out else out @ [info])))"

definition analyze_struct :: "tcx \<Rightarrow> fcx \<Rightarrow> ucx \<Rightarrow> uig_check \<Rightarrow> struct_info list res" where
  "analyze_struct tcx fcx ucx s =
     rbind (rfold (\<lambda>u. get_struct tcx fcx ucx (fst (uu_caller u))) (ug_uigs s @ ug_single s) ([], [])) (\<lambda>(_, out). Inr out)"

definition get_all_std_unsafe_def_id_by_treat_std_as_local_crate ::
    "tcx \<Rightarrow> fcx \<Rightarrow> ucx \<Rightarrow> uig_check \<Rightarrow> (def_id list \<times> (string \<times> nat) list \<times> struct_info list \<times> uig_check) res" where
  "get_all_std_unsafe_def_id_by_treat_std_as_local_crate tcx fcx ucx s =
     rbind (rfold (std_key tcx fcx) (mir_keys tcx) ([], [], s)) (\<lambda>(unsafe_fn, counts, s).
     rbind (analyze_struct tcx fcx ucx s) (\<lambda>out. Inr (unsafe_fn, counts, out, s)))"

text \<open>\<open>analyze_uig\<close>: the unsafe functions without an unsafe constructor.\<close>

definition analyze_uig :: "uig_check \<Rightarrow> uig_unit list" where
  "analyze_uig s =
     filter (\<lambda>u. \<not> list_ex (\<lambda>c. fst (snd c)) (uu_caller_cons u))
       (filter (\<lambda>u. fst (snd (uu_caller u)) \<and> snd (snd (uu_caller u)) = 2) (ug_uigs s))"

definition handle_std_unsafe :: "tcx \<Rightarrow> fcx \<Rightarrow> ucx \<Rightarrow> uig_check \<Rightarrow> (struct_info list \<times> dot_graph list \<times> uig_check) res" where
  "handle_std_unsafe tcx fcx ucx s =
     rbind (get_all_std_unsafe_def_id_by_treat_std_as_local_crate tcx fcx ucx s) (\<lambda>(_, _, out, s).
     Inr (out, map generate_dot_graph (ug_uigs s @ ug_single s), s))"

definition get_units_data :: "tcx \<Rightarrow> fcx \<Rightarrow> uig_check \<Rightarrow> (nat list \<times> uig_check) res" where
  "get_units_data tcx fcx s =
     rbind (rfold (\<lambda>d s.
         if \<not> filter_mir fcx d \<and> is_fn_kind fcx d \<and> check_visibility fcx d
         then rbind (get_callees tcx fcx d) (\<lambda>callees. Inr (insert_uig tcx fcx d callees (get_cons fcx d) s)) else Inr s)
       (mir_keys tcx) s) (\<lambda>s.
     rbind (rfold count_basic_units (ug_uigs s @ ug_single s) (replicate 13 0)) (\<lambda>data. Inr (data, s)))"

text \<open>
  \<open>process_def_id\<close>: the walk over the definitions of another crate. A definition that is not a function is a module with
  its children, some of which resolve to no definition, an implementation with its items, a structure with its inherent
  implementations, a constructor, or something else.
\<close>

datatype def_shape = Ds_Mod "def_id option list" | Ds_Impl "def_id list" | Ds_Struct "def_id list" | Ds_Ctor | Ds_Other

fun process_def_id ::
    "nat \<Rightarrow> tcx \<Rightarrow> fcx \<Rightarrow> (def_id \<Rightarrow> def_shape) \<Rightarrow> def_id \<Rightarrow> def_id list \<times> def_id list \<times> uig_check \<Rightarrow>
      (def_id list \<times> def_id list \<times> uig_check) res" where
  "process_def_id 0 tcx fcx shape d st = Inl Diverges"
| "process_def_id (Suc n) tcx fcx shape d (visited, unsafe_fn, s) =
     (if d \<in> set visited \<or> filter_mir fcx d then Inr (hs_insert d visited, unsafe_fn, s)
      else
        let visited = hs_insert d visited in
        if is_fn_kind fcx d then
          if check_safety fcx d \<and> fc_public fcx d
          then rbind (get_callees tcx fcx d) (\<lambda>callees. Inr (visited, hs_insert d unsafe_fn, insert_uig tcx fcx d callees (get_cons fcx d) s))
          else Inr (visited, unsafe_fn, s)
        else case shape d of
            Ds_Mod children \<Rightarrow>
              rfold (\<lambda>child st. case child of Some c \<Rightarrow> process_def_id n tcx fcx shape c st | None \<Rightarrow> Inr st) children (visited, unsafe_fn, s)
          | Ds_Impl items \<Rightarrow> rfold (process_def_id n tcx fcx shape) items (visited, unsafe_fn, s)
          | Ds_Struct impls \<Rightarrow> rfold (process_def_id n tcx fcx shape) impls (visited, unsafe_fn, s)
          | _ \<Rightarrow> Inr (visited, unsafe_fn, s))"

text \<open>The crates in scope, with their names and root definitions.\<close>

definition get_all_std_unsafe_def_id_by_rustc_extern_crates ::
    "nat \<Rightarrow> tcx \<Rightarrow> fcx \<Rightarrow> (def_id \<Rightarrow> def_shape) \<Rightarrow> (string \<times> def_id) list \<Rightarrow> uig_check \<Rightarrow> (def_id list \<times> uig_check) res" where
  "get_all_std_unsafe_def_id_by_rustc_extern_crates n tcx fcx shape crates s =
     rbind (rfold (\<lambda>(name, root) st. if name = ''core'' then process_def_id n tcx fcx shape root st else Inr st) crates ([], [], s))
       (\<lambda>(_, unsafe_fn, s). Inr (unsafe_fn, s))"

subsection \<open>Entry\<close>

datatype uig_instruction = Ui_Doc | Ui_Upg | Ui_Ucons | Ui_StdSp

datatype uig_report = Lack_Of_Doc def_id | Unsafe_Constructor def_id span

definition check_if_unsafety_doc_exists :: "ucx \<Rightarrow> def_id \<Rightarrow> bool" where
  "check_if_unsafety_doc_exists ucx d \<longleftrightarrow> uc_local ucx d \<and> uc_doc_comment ucx d"

definition check_doc :: "ucx \<Rightarrow> def_id \<Rightarrow> uig_report list" where
  "check_doc ucx d = (if \<not> check_if_unsafety_doc_exists ucx d then [Lack_Of_Doc d] else [])"

definition uig_start :: "tcx \<Rightarrow> fcx \<Rightarrow> ucx \<Rightarrow> uig_instruction \<Rightarrow> uig_check \<Rightarrow> (uig_report list \<times> uig_check) res" where
  "uig_start tcx fcx ucx ins s =
     (if ins = Ui_StdSp then rbind (handle_std_unsafe tcx fcx ucx s) (\<lambda>(_, _, s). Inr ([], s))
      else if ins = Ui_Upg then Inr ([], s)
      else Inr (concat (map (\<lambda>(body, sp).
          let d = uc_body_owner ucx body in
          if fst (contains_unsafe fcx ucx body) then
            (if ins = Ui_Doc then check_doc ucx d else []) @
            (if ins = Ui_Ucons \<and> get_type fcx d = 0 then [Unsafe_Constructor d sp] else [])
          else []) (related_bodies ucx)), s))"

end
