(* ===== verification/Uig_Props.thy ===== *)
theory Uig_Props
  imports Uig_Units
begin

section \<open>Correctness of the isolation of unsafe code\<close>

text \<open>
  What the search from the functions of the crate finds, what the units hold, and what their counters count.
\<close>

subsection \<open>Nodes\<close>

lemma find_node_push:
  "find_node d (push_node n s) = (case find_node d s of Some m \<Rightarrow> Some m | None \<Rightarrow> if in_node_id n = d then Some n else None)"
proof -
  have "find P (xs @ [n]) = (case find P xs of Some m \<Rightarrow> Some m | None \<Rightarrow> if P n then Some n else None)" for P xs
    by (induction xs) auto
  then show ?thesis by (simp add: find_node_def push_node_def)
qed

lemma find_node_upd:
  assumes "\<And>n. in_node_id (f n) = in_node_id n"
  shows "find_node d (upd_node e f s) = (if d = e then map_option f (find_node d s) else find_node d s)"
proof -
  have "find (\<lambda>n. in_node_id n = d) (upd_first (\<lambda>n. in_node_id n = e) f ns) =
      (if d = e then map_option f (find (\<lambda>n. in_node_id n = d) ns) else find (\<lambda>n. in_node_id n = d) ns)" for ns
    by (induction ns) (auto simp: assms)
  then show ?thesis by (simp add: find_node_def upd_node_def)
qed

lemma related_simps [simp]:
  "ug_related_func_def_id (push_node n s) = ug_related_func_def_id s"
  "ug_related_func_def_id (upd_node d f s) = ug_related_func_def_id s"
  by (simp_all add: push_node_def upd_node_def)

text \<open>A later state: the same functions of the crate, and every node with the callees it had.\<close>

definition extends :: "uig_check \<Rightarrow> uig_check \<Rightarrow> bool" where
  "extends s s' \<longleftrightarrow> ug_related_func_def_id s' = ug_related_func_def_id s \<and>
     (\<forall>d n. find_node d s = Some n \<longrightarrow>
        (\<exists>n'. find_node d s' = Some n' \<and> in_callees n' = in_callees n \<and> in_visited_tag n' = in_visited_tag n))"

lemma extends_refl [simp]: "extends s s"
  by (simp add: extends_def)

lemma extends_trans: "extends s t \<Longrightarrow> extends t u \<Longrightarrow> extends s u"
  unfolding extends_def by metis

lemma extends_push: "extends s (push_node n s)"
  by (simp add: extends_def find_node_push)

lemma extends_set_method: "extends s (set_method_for_constructor c m s)"
  by (auto simp: extends_def set_method_for_constructor_def find_node_upd)

lemma extends_set_caller: "extends s (set_caller_for_callee c m s)"
  by (auto simp: extends_def set_caller_for_callee_def find_node_upd)

lemma extends_node: "extends s s' \<Longrightarrow> find_node d s \<noteq> None \<Longrightarrow> find_node d s' \<noteq> None"
  by (fastforce simp: extends_def)

definition inserts :: "uig_check \<Rightarrow> def_id \<Rightarrow> uig_check \<Rightarrow> bool" where
  "inserts s d s' \<longleftrightarrow> extends s s' \<and> find_node d s' \<noteq> None"

lemma inserts_push: "extends s t \<Longrightarrow> inserts s (in_node_id n) (push_node n t)"
  using extends_trans [OF _ extends_push] by (auto simp: inserts_def find_node_push split: option.splits)

lemma search_constructor_ok:
  assumes "\<And>item s. get_type fcx item = 0 \<Longrightarrow> ok (inserts s item) (ins item s)"
  shows "ok (\<lambda>(_, s'). extends s s') (search_constructor_with fcx ucx ins d s)"
  unfolding search_constructor_with_def
proof (rule ok_rfold)
  fix item and st :: "def_id list \<times> uig_check" assume st: "case st of (_, s') \<Rightarrow> extends s s'"
  obtain cs t where [simp]: "st = (cs, t)" by (cases st)
  have ext: "extends s t" using st by simp
  have "ok (inserts t item) (ins item t)" if "get_type fcx item = 0" using assms that .
  then show "ok (\<lambda>(_, s'). extends s s')
      ((\<lambda>(cs, t). if get_type fcx item = 0
        then rbind (ins item t) (\<lambda>t. Inr (cs @ [item], set_method_for_constructor item d t)) else Inr (cs, t)) st)"
    using ext extends_trans [OF extends_trans [OF ext] extends_set_method]
    by (auto simp: inserts_def elim!: ok_rbindI)
qed simp

text \<open>A constructor is inserted without looking for further constructors, so two nested calls are enough.\<close>

lemma insert_node_ok: "ok (inserts s d) (insert_node_top fcx ucx d s)"
proof -
  have one: "ok (inserts s item) (check_and_insert_node 1 fcx ucx item s)" if "get_type fcx item = 0" for item s
    using inserts_push [OF extends_refl, where n = "iso_node_new item 0 (uig_get_name fcx ucx item) (check_safety fcx item) (is_crate_api_node item s)" and s = s] that
    by (auto simp: Let_def check_if_node_exists_def inserts_def iso_node_new_def)
  have two: "ok (\<lambda>(_, s'). extends s s') (search_constructor_with fcx ucx (check_and_insert_node 1 fcx ucx) d s)"
    using one by (rule search_constructor_ok)
  show ?thesis
  proof (cases "check_if_node_exists d s")
    case True
    then show ?thesis by (simp add: insert_node_top_def numeral_2_eq_2 inserts_def check_if_node_exists_def)
  next
    case False
    have "inserts s d (push_node (iso_node_new d k nm u a) s)" for k nm u a
      using inserts_push [OF extends_refl, where n = "iso_node_new d k nm u a" and s = s] by (simp add: iso_node_new_def)
    moreover have "inserts s d (push_node (iso_node_new d k nm u a\<lparr>in_constructors := cs\<rparr>) t)" if "extends s t" for k nm u a cs t
      using inserts_push [OF that, where n = "iso_node_new d k nm u a\<lparr>in_constructors := cs\<rparr>"] by (simp add: iso_node_new_def)
    ultimately show ?thesis using False two
      by (auto simp: insert_node_top_def numeral_2_eq_2 Let_def elim!: ok_rbindI)
  qed
qed

lemma search_constructor_extends: "ok (\<lambda>(_, s'). extends s s') (search_constructor fcx ucx d s)"
  unfolding search_constructor_def by (rule search_constructor_ok) (rule insert_node_ok)

subsection \<open>Callees of a function\<close>

text \<open>The functions a body calls, in the order of its blocks.\<close>

definition calls_of :: "bb_data list \<Rightarrow> def_id list" where
  "calls_of = List.map_filter (\<lambda>bb. Option.bind (bb_terminator bb) (\<lambda>t. call_target (t_kind t)))"

definition called :: "tcx \<Rightarrow> def_id \<Rightarrow> def_id list" where
  "called tcx d = (if mir_available tcx d then calls_of (basic_blocks (optimized_mir tcx d)) else [])"

definition unsafe_callees :: "tcx \<Rightarrow> fcx \<Rightarrow> def_id \<Rightarrow> def_id list" where
  "unsafe_callees tcx fcx d = hs_extend [] (filter (check_safety fcx) (called tcx d))"

definition terminated :: "tcx \<Rightarrow> def_id \<Rightarrow> bool" where
  "terminated tcx d \<longleftrightarrow> (\<forall>bb\<in>set (basic_blocks (optimized_mir tcx d)). bb_terminator bb \<noteq> None)"

lemma set_unsafe_callees [simp]: "set (unsafe_callees tcx fcx d) = {c \<in> set (called tcx d). check_safety fcx c}"
  by (auto simp: unsafe_callees_def)

lemma distinct_unsafe_callees [simp]: "distinct (unsafe_callees tcx fcx d)"
  by (simp add: unsafe_callees_def)

lemma calls_of_Nil [simp]: "calls_of [] = []"
  by (simp add: calls_of_def map_filter_simps)

lemma calls_of_snoc [simp]:
  "calls_of (bbs @ [bb]) = calls_of bbs @ (case Option.bind (bb_terminator bb) (\<lambda>t. call_target (t_kind t)) of Some c \<Rightarrow> [c] | None \<Rightarrow> [])"
  by (auto simp: calls_of_def map_filter_def split: option.splits)

lemma hs_extend_snoc: "hs_extend acc (xs @ [x]) = hs_insert x (hs_extend acc xs)"
  by (simp add: hs_extend_def)

text \<open>After a visit the callees of the function are recorded at its node, and all of them have nodes.\<close>

definition visited_node :: "tcx \<Rightarrow> fcx \<Rightarrow> uig_check \<Rightarrow> def_id \<Rightarrow> bool" where
  "visited_node tcx fcx s d \<longleftrightarrow>
     (\<exists>nd. find_node d s = Some nd \<and> in_visited_tag nd \<and> in_callees nd = unsafe_callees tcx fcx d) \<and>
     (\<forall>c\<in>set (unsafe_callees tcx fcx d). find_node c s \<noteq> None)"

lemma visited_node_extends: "visited_node tcx fcx s d \<Longrightarrow> extends s s' \<Longrightarrow> visited_node tcx fcx s' d"
  unfolding visited_node_def using extends_node [of s s'] unfolding extends_def by metis

definition collects :: "fcx \<Rightarrow> uig_check \<Rightarrow> bb_data list \<Rightarrow> def_id list \<times> uig_check \<Rightarrow> bool" where
  "collects fcx s bbs = (\<lambda>(callees, s'). callees = hs_extend [] (filter (check_safety fcx) (calls_of bbs)) \<and> extends s s' \<and>
     (\<forall>c\<in>set callees. find_node c s' \<noteq> None))"

lemma visit_blocks_ok:
  assumes "\<And>bb. bb \<in> set bbs \<Longrightarrow> bb_terminator bb \<noteq> None"
  shows "ok (collects fcx s bbs)
     (rfold (\<lambda>bb (callees, s). rbind (unwrap (bb_terminator bb)) (\<lambda>t. case call_target (t_kind t) of
               Some callee \<Rightarrow>
                 if check_safety fcx callee \<and> callee \<notin> set callees then
                   if \<not> check_if_node_exists callee s
                   then rbind (insert_node_top fcx ucx callee s) (\<lambda>s. Inr (callees @ [callee], set_caller_for_callee d callee s))
                   else Inr (callees @ [callee], s)
                 else Inr (callees, s)
             | None \<Rightarrow> Inr (callees, s))) bbs ([], s))"
proof (rule ok_rfold_prefix)
  show "collects fcx s [] ([], s)" by (simp add: collects_def hs_extend_def)
  fix ys bb zs and st :: "def_id list \<times> uig_check"
  assume eq: "bbs = ys @ bb # zs" and P: "collects fcx s ys st"
  obtain cs t where [simp]: "st = (cs, t)" by (cases st)
  have "bb \<in> set bbs" using eq by simp
  with assms obtain tm where tm: "bb_terminator bb = Some tm" by auto
  have cs: "cs = hs_extend [] (filter (check_safety fcx) (calls_of ys))" and ext: "extends s t"
    and nodes: "\<forall>c\<in>set cs. find_node c t \<noteq> None" using P by (simp_all add: collects_def)
  have step: "collects fcx s (ys @ [bb]) (cs @ [c], t')"
    if "call_target (t_kind tm) = Some c" "check_safety fcx c" "c \<notin> set cs" "extends t t'" "find_node c t' \<noteq> None" for c t'
    using that nodes extends_trans [OF ext] extends_node [of t t'] unfolding cs
    by (auto simp: collects_def tm hs_extend_snoc hs_insert_def)
  have ins: "ok (collects fcx s (ys @ [bb])) (rbind (insert_node_top fcx ucx c t) (\<lambda>t. Inr (cs @ [c], set_caller_for_callee d c t)))"
    if "call_target (t_kind tm) = Some c" "check_safety fcx c" "c \<notin> set cs" for c
  proof (rule ok_rbindI [OF insert_node_ok])
    fix t' assume "inserts t c t'"
    then have "extends t (set_caller_for_callee d c t')" "find_node c (set_caller_for_callee d c t') \<noteq> None"
      using extends_trans [OF _ extends_set_caller] extends_node [OF extends_set_caller] by (simp_all add: inserts_def)
    then show "ok (collects fcx s (ys @ [bb])) (Inr (cs @ [c], set_caller_for_callee d c t'))" using step that by simp
  qed
  have old: "collects fcx s (ys @ [bb]) (cs, t)"
    if "call_target (t_kind tm) = None \<or> (\<exists>c. call_target (t_kind tm) = Some c \<and> \<not> (check_safety fcx c \<and> c \<notin> set cs))"
    using that P by (auto simp: collects_def tm hs_extend_snoc hs_insert_def)
  show "ok (collects fcx s (ys @ [bb]))
     ((\<lambda>(callees, s). rbind (unwrap (bb_terminator bb)) (\<lambda>t. case call_target (t_kind t) of
               Some callee \<Rightarrow>
                 if check_safety fcx callee \<and> callee \<notin> set callees then
                   if \<not> check_if_node_exists callee s
                   then rbind (insert_node_top fcx ucx callee s) (\<lambda>s. Inr (callees @ [callee], set_caller_for_callee d callee s))
                   else Inr (callees @ [callee], s)
                 else Inr (callees, s)
             | None \<Rightarrow> Inr (callees, s))) st)"
    using old ins step [OF _ _ _ extends_refl] by (auto simp: tm check_if_node_exists_def split: option.split)
qed

definition visits :: "tcx \<Rightarrow> fcx \<Rightarrow> uig_check \<Rightarrow> def_id \<Rightarrow> def_id list \<times> uig_check \<Rightarrow> bool" where
  "visits tcx fcx s d = (\<lambda>(callees, s'). callees = unsafe_callees tcx fcx d \<and> visited_node tcx fcx s' d \<and>
     ug_related_func_def_id s' = ug_related_func_def_id s \<and>
     (\<forall>e. find_node e s \<noteq> None \<longrightarrow> find_node e s' \<noteq> None) \<and>
     (\<forall>e. visited_node tcx fcx s e \<longrightarrow> visited_node tcx fcx s' e))"

lemma visit_node_callees_ok:
  assumes "terminated tcx d" and node: "find_node d s \<noteq> None"
  shows "ok (visits tcx fcx s d) (visit_node_callees tcx fcx ucx d s)"
  unfolding visit_node_callees_def
proof (rule ok_rbindI)
  let ?bbs = "if mir_available tcx d then basic_blocks (optimized_mir tcx d) else []"
  show "ok (collects fcx s ?bbs)
    (if mir_available tcx d then
       rfold (\<lambda>bb (callees, s). rbind (unwrap (bb_terminator bb)) (\<lambda>t. case call_target (t_kind t) of
               Some callee \<Rightarrow>
                 if check_safety fcx callee \<and> callee \<notin> set callees then
                   if \<not> check_if_node_exists callee s
                   then rbind (insert_node_top fcx ucx callee s) (\<lambda>s. Inr (callees @ [callee], set_caller_for_callee d callee s))
                   else Inr (callees @ [callee], s)
                 else Inr (callees, s)
             | None \<Rightarrow> Inr (callees, s)))
           (basic_blocks (optimized_mir tcx d)) ([], s)
     else Inr ([], s))"
  proof (cases "mir_available tcx d")
    case True
    then show ?thesis using visit_blocks_ok [of "basic_blocks (optimized_mir tcx d)"] assms(1) by (simp add: terminated_def)
  qed (simp add: collects_def hs_extend_def)
  fix r assume r: "collects fcx s ?bbs r"
  obtain cs t where [simp]: "r = (cs, t)" by (cases r)
  let ?f = "\<lambda>n. n\<lparr>in_callees := cs, in_visited_tag := True\<rparr>"
  have cs: "cs = unsafe_callees tcx fcx d" and ext: "extends s t" and nodes: "\<forall>c\<in>set cs. find_node c t \<noteq> None"
    using r by (auto simp: collects_def unsafe_callees_def called_def hs_extend_def split: if_splits)
  have upd: "find_node e (upd_node d ?f t) = (if e = d then map_option ?f (find_node e t) else find_node e t)" for e
    by (rule find_node_upd) simp
  obtain n where n: "find_node d t = Some n" using extends_node [OF ext node] by auto
  have vis: "visited_node tcx fcx (upd_node d ?f t) d"
    unfolding visited_node_def cs [symmetric] using nodes by (auto simp: upd n)
  have keep: "find_node e (upd_node d ?f t) \<noteq> None" if "find_node e s \<noteq> None" for e
    using extends_node [OF ext that] by (auto simp: upd)
  have old: "visited_node tcx fcx (upd_node d ?f t) e" if "visited_node tcx fcx s e" for e
  proof (cases "e = d")
    case False
    then show ?thesis using visited_node_extends [OF that ext] by (auto simp: visited_node_def upd)
  qed (use vis in simp)
  show "ok (visits tcx fcx s d) (case r of (callees, s) \<Rightarrow> Inr (callees, upd_node d (\<lambda>n. n\<lparr>in_callees := callees, in_visited_tag := True\<rparr>) s))"
    using vis keep old cs ext by (simp add: visits_def extends_def)
qed

subsection \<open>The search\<close>

text \<open>The callees that are put into the queue.\<close>

lemma enqueue_all:
  "\<exists>new. fold enqueue cs (visited, queue) = (visited @ new, queue @ new) \<and> distinct new \<and> set new = set cs - set visited"
proof (induction cs arbitrary: visited queue)
  case (Cons c cs)
  show ?case
  proof (cases "c \<in> set visited")
    case True
    then show ?thesis using Cons.IH [of visited queue] by (simp add: enqueue_def insert_Diff_if)
  next
    case False
    from Cons.IH [of "visited @ [c]" "queue @ [c]"] obtain new where
      new: "fold enqueue cs (visited @ [c], queue @ [c]) = ((visited @ [c]) @ new, (queue @ [c]) @ new)" "distinct new"
      "set new = set cs - set (visited @ [c])" by blast
    have "set (c # new) = set (c # cs) - set visited" using new(3) False by auto
    moreover have "distinct (c # new)" using new(2,3) by simp
    moreover have "fold enqueue (c # cs) (visited, queue) = (visited @ c # new, queue @ c # new)"
      using new(1) False by (simp add: enqueue_def hs_insert_def)
    ultimately show ?thesis by blast
  qed
qed simp

definition bfs_inv :: "tcx \<Rightarrow> fcx \<Rightarrow> def_id set \<Rightarrow> def_id list \<Rightarrow> def_id list \<Rightarrow> uig_check \<Rightarrow> bool" where
  "bfs_inv tcx fcx U visited queue s \<longleftrightarrow> set queue \<subseteq> set visited \<and>
     (\<forall>d\<in>set (ug_related_func_def_id s). find_node d s \<noteq> None \<and> terminated tcx d \<and> set (unsafe_callees tcx fcx d) \<subseteq> U \<and>
        (d \<in> set queue \<or> visited_node tcx fcx s d))"

lemma bfs_inv_skip: "bfs_inv tcx fcx U visited (d # queue) s \<Longrightarrow> \<not> is_crate_api_node d s \<Longrightarrow> bfs_inv tcx fcx U visited queue s"
  by (auto simp: bfs_inv_def is_crate_api_node_def)

lemma bfs_inv_step:
  assumes "bfs_inv tcx fcx U visited (d # queue) s" "visits tcx fcx s d (cs, s')" "set new = set cs - set visited"
  shows "bfs_inv tcx fcx U (visited @ new) (queue @ new) s'"
  using assms unfolding bfs_inv_def visits_def by auto

lemma uig_bfs_ok:
  assumes "finite U" "bfs_inv tcx fcx U visited queue s" "length queue + card (U - set visited) \<le> n"
  shows "ok (\<lambda>s'. ug_related_func_def_id s' = ug_related_func_def_id s \<and>
      (\<forall>d\<in>set (ug_related_func_def_id s). visited_node tcx fcx s' d)) (uig_bfs n tcx fcx ucx visited queue s)"
  using assms(2,3)
proof (induction n arbitrary: visited queue s)
  case 0
  then show ?case by (auto simp: bfs_inv_def)
next
  case (Suc n)
  show ?case
  proof (cases queue)
    case Nil
    then show ?thesis using Suc.prems by (auto simp: bfs_inv_def)
  next
    case (Cons d queue')
    show ?thesis
    proof (cases "is_crate_api_node d s")
      case False
      then show ?thesis using Suc.IH [OF bfs_inv_skip, of visited d queue' s] Suc.prems by (simp add: Cons)
    next
      case True
      then have d: "terminated tcx d" "find_node d s \<noteq> None" "set (unsafe_callees tcx fcx d) \<subseteq> U"
        using Suc.prems(1) by (auto simp: bfs_inv_def is_crate_api_node_def)
      have "ok (\<lambda>s'. ug_related_func_def_id s' = ug_related_func_def_id s \<and>
          (\<forall>d\<in>set (ug_related_func_def_id s). visited_node tcx fcx s' d))
        (let (visited, queue) = fold enqueue cs (visited, queue') in uig_bfs n tcx fcx ucx visited queue s')"
        if v: "visits tcx fcx s d (cs, s')" for cs s'
      proof -
        obtain new where new: "fold enqueue cs (visited, queue') = (visited @ new, queue' @ new)" "distinct new"
          "set new = set cs - set visited" using enqueue_all by blast
        have "set new \<subseteq> U - set visited" using d(3) v new(3) by (auto simp: visits_def)
        then have "card (U - set visited - set new) + length new = card (U - set visited)"
          using assms(1) new(2) card_Diff_subset [of "set new" "U - set visited"] card_mono [of "U - set visited" "set new"]
          by (simp add: distinct_card)
        moreover have "U - set (visited @ new) = U - set visited - set new" by auto
        ultimately have "card (U - set (visited @ new)) + length new = card (U - set visited)" by simp
        then have "length (queue' @ new) + card (U - set (visited @ new)) \<le> n" using Suc.prems(2) by (simp add: Cons)
        from Suc.IH [OF bfs_inv_step [OF Suc.prems(1) [unfolded Cons] v new(3)] this]
        show ?thesis unfolding new(1) using v by (simp add: visits_def)
      qed
      then show ?thesis using True visit_node_callees_ok [OF d(1,2), of fcx ucx]
        by (auto simp: Cons elim!: ok_rbindI)
    qed
  qed
qed

subsection \<open>The functions the search starts from\<close>

definition unsafe_body :: "fcx \<Rightarrow> ucx \<Rightarrow> nat \<times> span \<Rightarrow> bool" where
  "unsafe_body fcx ucx b \<longleftrightarrow> fst (contains_unsafe fcx ucx (fst b)) \<or> snd (contains_unsafe fcx ucx (fst b))"

definition unsafe_owners :: "fcx \<Rightarrow> ucx \<Rightarrow> (nat \<times> span) list \<Rightarrow> def_id list" where
  "unsafe_owners fcx ucx bs = map (\<lambda>b. uc_body_owner ucx (fst b)) (filter (unsafe_body fcx ucx) bs)"

definition start_inv :: "fcx \<Rightarrow> ucx \<Rightarrow> (nat \<times> span) list \<Rightarrow> uig_check \<times> def_id list \<times> def_id list \<Rightarrow> bool" where
  "start_inv fcx ucx bs = (\<lambda>(s, visited, queue). ug_related_func_def_id s = unsafe_owners fcx ucx bs \<and>
     queue = visited \<and> distinct visited \<and> set visited = set (unsafe_owners fcx ucx bs) \<and>
     (\<forall>d\<in>set (unsafe_owners fcx ucx bs). find_node d s \<noteq> None))"

lemma find_node_related [simp]: "find_node d (s\<lparr>ug_related_func_def_id := r\<rparr>) = find_node d s"
  by (simp add: find_node_def)

text \<open>The state after a function was pushed.\<close>

definition push_related :: "iso_node \<Rightarrow> uig_check \<times> def_id list \<times> def_id list \<Rightarrow> uig_check \<times> def_id list \<times> def_id list" where
  "push_related node = (\<lambda>(s, visited, queue).
     let s = (push_node node s)\<lparr>ug_related_func_def_id := ug_related_func_def_id s @ [in_node_id node]\<rparr> in
     if in_node_id node \<in> set visited then (s, visited, queue) else (s, hs_insert (in_node_id node) visited, queue @ [in_node_id node]))"

lemma start_inv_push:
  assumes "start_inv fcx ucx bs (s, visited, queue)" "extends s t" "unsafe_body fcx ucx b"
    "in_node_id node = uc_body_owner ucx (fst b)"
  shows "start_inv fcx ucx (bs @ [b]) (push_related node (t, visited, queue))"
proof -
  have owners: "unsafe_owners fcx ucx (bs @ [b]) = unsafe_owners fcx ucx bs @ [in_node_id node]"
    using assms(3,4) by (simp add: unsafe_owners_def)
  have "find_node d (push_node node t) \<noteq> None" if d: "d \<in> set (unsafe_owners fcx ucx (bs @ [b]))" for d
  proof (cases "d = in_node_id node")
    case True
    then show ?thesis by (simp add: find_node_push split: option.split)
  next
    case False
    then have "find_node d s \<noteq> None" using d assms(1) by (auto simp: owners start_inv_def)
    then show ?thesis using extends_node [OF extends_trans [OF assms(2) extends_push]] by blast
  qed
  moreover have "ug_related_func_def_id t = ug_related_func_def_id s" using assms(2) by (simp add: extends_def)
  ultimately show ?thesis using assms(1)
    by (auto simp: start_inv_def push_related_def owners hs_insert_def Let_def)
qed

lemma add_related_ok:
  assumes "start_inv fcx ucx bs st"
  shows "ok (start_inv fcx ucx (bs @ [b])) (add_related fcx ucx b st)"
proof -
  obtain body sp where b [simp]: "b = (body, sp)" by (cases b)
  obtain s visited queue where st [simp]: "st = (s, visited, queue)" by (cases st)
  obtain fu bu where cu: "contains_unsafe fcx ucx body = (fu, bu)" by (cases "contains_unsafe fcx ucx body")
  let ?d = "uc_body_owner ucx body"
  let ?node = "iso_node_new ?d (get_type fcx ?d) (uig_get_name fcx ucx ?d) fu True"
  show ?thesis
  proof (cases "fu \<or> bu")
    case False
    then show ?thesis using assms cu by (simp add: add_related_def start_inv_def unsafe_owners_def unsafe_body_def)
  next
    case True
    then have ub: "unsafe_body fcx ucx b" using cu by (simp add: unsafe_body_def)
    have "add_related fcx ucx b st = rbind (if get_type fcx ?d = 1
        then rbind (search_constructor fcx ucx ?d s) (\<lambda>(cs, s). Inr (?node\<lparr>in_constructors := cs\<rparr>, s)) else Inr (?node, s))
        (\<lambda>(node, s). Inr (push_related (node\<lparr>in_node_id := ?d\<rparr>) (s, visited, queue)))"
      using True by (auto simp: add_related_def cu push_related_def Let_def iso_node_new_def rbind_assoc intro!: rbind_cong)
    moreover have "ok (\<lambda>(node, t). in_node_id node = ?d \<and> extends s t) (if get_type fcx ?d = 1
        then rbind (search_constructor fcx ucx ?d s) (\<lambda>(cs, s). Inr (?node\<lparr>in_constructors := cs\<rparr>, s)) else Inr (?node, s))"
      using search_constructor_extends [of s fcx ucx ?d] by (auto simp: iso_node_new_def elim!: ok_rbindI)
    ultimately show ?thesis using start_inv_push [OF assms [unfolded st] _ ub]
      by (auto elim!: ok_rbindI)
  qed
qed

lemma add_all_related_ok:
  "ok (start_inv fcx ucx bs) (rfold (add_related fcx ucx) bs (uig_check_new, [], []))"
proof (rule ok_rfold_prefix)
  show "start_inv fcx ucx [] (uig_check_new, [], [])"
    by (simp add: start_inv_def unsafe_owners_def uig_check_new_def)
qed (rule add_related_ok)

text \<open>Rounds that are enough: one for each function and one for each call in it.\<close>

definition uig_fuel :: "tcx \<Rightarrow> ucx \<Rightarrow> nat" where
  "uig_fuel tcx ucx = sum_list (map (\<lambda>b. Suc (length (called tcx (uc_body_owner ucx (fst b))))) (related_bodies ucx))"

definition uig_universe :: "tcx \<Rightarrow> ucx \<Rightarrow> def_id list" where
  "uig_universe tcx ucx = concat (map (\<lambda>b. uc_body_owner ucx (fst b) # called tcx (uc_body_owner ucx (fst b))) (related_bodies ucx))"

lemma uig_universe_bound: "card (set (uig_universe tcx ucx)) \<le> uig_fuel tcx ucx"
proof -
  have "length (uig_universe tcx ucx) = uig_fuel tcx ucx"
    by (simp add: uig_universe_def uig_fuel_def length_concat comp_def)
  then show ?thesis using card_length [of "uig_universe tcx ucx"] by simp
qed

text \<open>C29: If every block of the functions of the crate has a terminator, the search for unsafe callees
  ends: as many rounds as there are functions and calls in them are enough. Its functions are those that are unsafe or contain
  unsafe blocks, in the order in which they are collected; each of them has a node that is marked as visited and lists exactly
  the unsafe functions its body calls, each once and in the order of the calls, and each of these has a node too.\<close>

theorem filter_and_extend_complete:
  assumes "\<And>b. b \<in> set (related_bodies ucx) \<Longrightarrow> terminated tcx (uc_body_owner ucx (fst b))"
    and "uig_fuel tcx ucx \<le> n"
  shows "\<exists>s. filter_and_extend_unsafe n tcx fcx ucx uig_check_new = Inr s \<and>
     ug_related_func_def_id s = unsafe_owners fcx ucx (related_bodies ucx) \<and>
     (\<forall>d\<in>set (ug_related_func_def_id s).
        (\<exists>nd. find_node d s = Some nd \<and> in_visited_tag nd \<and> in_callees nd = unsafe_callees tcx fcx d) \<and>
        (\<forall>c\<in>set (unsafe_callees tcx fcx d). find_node c s \<noteq> None))"
proof -
  let ?R = "unsafe_owners fcx ucx (related_bodies ucx)" and ?U = "set (uig_universe tcx ucx)"
  have "ok (\<lambda>s. ug_related_func_def_id s = ?R \<and> (\<forall>d\<in>set ?R. visited_node tcx fcx s d))
      (filter_and_extend_unsafe n tcx fcx ucx uig_check_new)"
    unfolding filter_and_extend_unsafe_def
  proof (rule ok_rbindI [OF add_all_related_ok])
    fix st assume st: "start_inv fcx ucx (related_bodies ucx) st"
    obtain s visited queue where [simp]: "st = (s, visited, queue)" by (cases st)
    from st have s: "ug_related_func_def_id s = ?R" "queue = visited" "distinct visited" "set visited = set ?R"
      "\<And>d. d \<in> set ?R \<Longrightarrow> find_node d s \<noteq> None" by (auto simp: start_inv_def)
    have R: "terminated tcx d \<and> set (unsafe_callees tcx fcx d) \<subseteq> ?U \<and> d \<in> ?U" if "d \<in> set ?R" for d
      using that assms(1) by (fastforce simp: unsafe_owners_def uig_universe_def)
    then have "bfs_inv tcx fcx ?U visited queue s" using s by (simp add: bfs_inv_def)
    moreover have "set visited \<subseteq> ?U" using R s(4) by blast
    then have "length queue + card (?U - set visited) = card ?U"
      using s(2,3) card_mono [of ?U "set visited"] by (simp add: card_Diff_subset distinct_card)
    then have "length queue + card (?U - set visited) \<le> n" using uig_universe_bound [of tcx ucx] assms(2) by simp
    ultimately show "ok (\<lambda>s. ug_related_func_def_id s = ?R \<and> (\<forall>d\<in>set ?R. visited_node tcx fcx s d))
        (case st of (s, visited, queue) \<Rightarrow> uig_bfs n tcx fcx ucx visited queue s)"
      using uig_bfs_ok [of ?U tcx fcx visited queue s n ucx] s(1) by simp
  qed
  then show ?thesis by (auto simp: ok_def visited_node_def)
qed

definition demo_uig_fcx :: fcx where
  "demo_uig_fcx = \<lparr>fc_public = (\<lambda>_. True), fc_unsafe = (\<lambda>d. d = 1), fc_assoc = Map.empty, fc_output = (\<lambda>_. Ty_Bool),
     fc_inputs = (\<lambda>_. []), fc_impl_ty = (\<lambda>_. Ty_Bool), fc_ty_str = (\<lambda>_. ''bool''), fc_def_str = (\<lambda>_. ''core::f''),
     fc_def_kind = (\<lambda>_. Dk_Fn), fc_inherent_impls = (\<lambda>_. []), fc_assoc_items = (\<lambda>_. []), fc_std_sps = (\<lambda>_. Some [''Valid'']),
     fc_layout = (\<lambda>_ _. None)\<rparr>"

definition demo_uig_tcx :: tcx where
  "demo_uig_tcx = demo_tcx\<lparr>mir_keys := [0], mir_available := (\<lambda>d. d = 0), optimized_mir := (\<lambda>d.
     \<lparr>local_decls = [], arg_count = 0, basic_blocks =
        [\<lparr>bb_statements = [], bb_terminator = Some \<lparr>t_kind = Call (Constant \<lparr>c_const = Const_Unevaluated, c_ty = Ty_FnDef 1 [], c_target_usize = None, c_text = []\<rparr>) []
            \<lparr>p_local = 0, p_projection = []\<rparr> None Uw_Continue, t_span = 0\<rparr>, bb_is_cleanup = False\<rparr>], body_span = 0\<rparr>)\<rparr>"

definition demo_ucx :: ucx where
  "demo_ucx = \<lparr>uc_items = [It_Fn 7 3 0], uc_body_owner = (\<lambda>_. 0), uc_blocks = (\<lambda>_. [Hir_Block False [Hir_Block True []]]),
     uc_impl_items = [], uc_assoc_items = (\<lambda>_. []), uc_path_verbose = (\<lambda>_. ''f''), uc_local = (\<lambda>_. True),
     uc_doc_comment = (\<lambda>_. False), uc_related_order = (\<lambda>xs. xs)\<rparr>"

theorem filter_and_extend_complete_witness:
  "\<exists>s. filter_and_extend_unsafe 2 demo_uig_tcx demo_uig_fcx demo_ucx uig_check_new = Inr s \<and>
     ug_related_func_def_id s = [0] \<and>
     (\<exists>nd. find_node 0 s = Some nd \<and> in_visited_tag nd \<and> in_callees nd = [1]) \<and> find_node 1 s \<noteq> None"
proof -
  have rb: "related_bodies demo_ucx = [(3, 0)]"
    by (simp add: related_bodies_def rf_collect_def rf_visit_item_def entry_extend_def demo_ucx_def)
  have uo: "unsafe_owners demo_uig_fcx demo_ucx [(3, 0)] = [0]"
    by (simp add: unsafe_owners_def unsafe_body_def contains_unsafe_def demo_ucx_def)
  have cl: "called demo_uig_tcx 0 = [1]"
    by (simp add: called_def calls_of_def demo_uig_tcx_def map_filter_simps call_target_def)
  have uc: "unsafe_callees demo_uig_tcx demo_uig_fcx 0 = [1]"
    by (simp add: unsafe_callees_def cl check_safety_def demo_uig_fcx_def hs_extend_def hs_insert_def)
  have own: "uc_body_owner demo_ucx b = 0" for b by (simp add: demo_ucx_def)
  have "terminated demo_uig_tcx 0" by (simp add: terminated_def demo_uig_tcx_def)
  moreover have "uig_fuel demo_uig_tcx demo_ucx \<le> 2" by (simp add: uig_fuel_def rb own cl)
  ultimately obtain s where s: "filter_and_extend_unsafe 2 demo_uig_tcx demo_uig_fcx demo_ucx uig_check_new = Inr s"
    "ug_related_func_def_id s = [0]"
    "\<forall>d\<in>set (ug_related_func_def_id s).
        (\<exists>nd. find_node d s = Some nd \<and> in_visited_tag nd \<and> in_callees nd = unsafe_callees demo_uig_tcx demo_uig_fcx d) \<and>
        (\<forall>c\<in>set (unsafe_callees demo_uig_tcx demo_uig_fcx d). find_node c s \<noteq> None)"
    using filter_and_extend_complete [of demo_ucx demo_uig_tcx 2 demo_uig_fcx] unfolding own rb uo by blast
  from s(3) have "(\<exists>nd. find_node 0 s = Some nd \<and> in_visited_tag nd \<and> in_callees nd = [1]) \<and> (\<forall>c\<in>set [1]. find_node c s \<noteq> None)"
    unfolding s(2) uc [symmetric] by simp
  with s(1,2) show ?thesis by auto
qed

subsection \<open>Counters\<close>

text \<open>A list of additions: which counter and how much.\<close>

definition added :: "(nat \<times> nat) list \<Rightarrow> nat \<Rightarrow> nat" where
  "added ops i = sum_list (map (\<lambda>(j, k). if j = i then k else 0) ops)"

lemma added_simps [simp]: "added [] i = 0" "added ((j, k) # ops) i = (if j = i then k else 0) + added ops i"
  "added (ops @ ops') i = added ops i + added ops' i"
  by (simp_all add: added_def)



















subsection \<open>The units of a crate\<close>

text \<open>Callees that are unsafe, visible and have labels.\<close>

definition labelled_callees :: "tcx \<Rightarrow> fcx \<Rightarrow> def_id \<Rightarrow> def_id list" where
  "labelled_callees tcx fcx d =
     hs_extend [] (filter (\<lambda>c. check_safety fcx c \<and> check_visibility fcx c \<and> get_sp fcx c \<noteq> []) (called tcx d))"

definition std_selected :: "fcx \<Rightarrow> def_id \<Rightarrow> bool" where
  "std_selected fcx d \<longleftrightarrow> \<not> filter_mir fcx d \<and> is_fn_kind fcx d \<and> check_visibility fcx d"

lemma get_callees_labelled:
  assumes "terminated tcx d"
  shows "get_callees tcx fcx d = Inr (labelled_callees tcx fcx d)"
proof -
  let ?P = "\<lambda>c. check_safety fcx c \<and> check_visibility fcx c \<and> get_sp fcx c \<noteq> []"
  have "ok (\<lambda>cs. cs = hs_extend [] (filter ?P (calls_of bbs)))
      (rfold (\<lambda>bb callees. rbind (unwrap (bb_terminator bb)) (\<lambda>t.
            Inr (case call_target (t_kind t) of
                Some callee \<Rightarrow>
                  if check_safety fcx callee \<and> check_visibility fcx callee \<and> length (get_sp fcx callee) \<noteq> 0
                  then hs_insert callee callees else callees
              | None \<Rightarrow> callees))) bbs [])"
    if "\<forall>bb\<in>set bbs. bb_terminator bb \<noteq> None" for bbs
    by (rule ok_rfold_prefix) (use that in \<open>auto simp: hs_extend_snoc hs_extend_def split: option.split\<close>)
  from this [of "basic_blocks (optimized_mir tcx d)"] assms show ?thesis
    by (auto simp: get_callees_def ok_def terminated_def labelled_callees_def called_def hs_extend_def)
qed

text \<open>The unit of a function.\<close>

definition unit_of :: "tcx \<Rightarrow> fcx \<Rightarrow> def_id \<Rightarrow> uig_unit \<Rightarrow> bool" where
  "unit_of tcx fcx d u \<longleftrightarrow> uu_caller u = generate_node_ty fcx d \<and> uu_caller_cons u = get_cons fcx d \<and>
     set (uu_callee_cons_pair u) = (\<lambda>c. (generate_node_ty fcx c, get_cons fcx c)) ` set (labelled_callees tcx fcx d)"

definition has_unit :: "tcx \<Rightarrow> fcx \<Rightarrow> def_id \<Rightarrow> bool" where
  "has_unit tcx fcx d \<longleftrightarrow> std_selected fcx d \<and> labelled_callees tcx fcx d \<noteq> []"

definition has_single :: "tcx \<Rightarrow> fcx \<Rightarrow> def_id \<Rightarrow> bool" where
  "has_single tcx fcx d \<longleftrightarrow> std_selected fcx d \<and> labelled_callees tcx fcx d = [] \<and> check_safety fcx d"

lemma set_pairs: "set (fold (\<lambda>c. hs_insert (f c)) cs acc) = set acc \<union> f ` set cs"
  by (induction cs arbitrary: acc) auto

lemma insert_uig_units:
  assumes "enum_order (set_order tcx)"
  obtains u where "unit_of tcx fcx d u" and
    "insert_uig tcx fcx d (labelled_callees tcx fcx d) (get_cons fcx d) s =
       (if labelled_callees tcx fcx d \<noteq> [] then s\<lparr>ug_uigs := ug_uigs s @ [u]\<rparr>
        else if check_safety fcx d then s\<lparr>ug_single := ug_single s @ [u]\<rparr> else s)"
proof
  let ?u = "\<lparr>uu_caller = generate_node_ty fcx d, uu_caller_cons = get_cons fcx d, uu_callee_cons_pair =
     fold (\<lambda>c. hs_insert (generate_node_ty fcx c, get_cons fcx c)) (set_order tcx (labelled_callees tcx fcx d)) []\<rparr>"
  show "unit_of tcx fcx d ?u" using enum_orderD [OF assms] by (simp add: unit_of_def set_pairs)
  show "insert_uig tcx fcx d (labelled_callees tcx fcx d) (get_cons fcx d) s =
       (if labelled_callees tcx fcx d \<noteq> [] then s\<lparr>ug_uigs := ug_uigs s @ [?u]\<rparr>
        else if check_safety fcx d then s\<lparr>ug_single := ug_single s @ [?u]\<rparr> else s)"
    by (auto simp: insert_uig_def Let_def)
qed

definition std_inv :: "tcx \<Rightarrow> fcx \<Rightarrow> def_id list \<Rightarrow> def_id list \<times> (string \<times> nat) list \<times> uig_check \<Rightarrow> bool" where
  "std_inv tcx fcx keys = (\<lambda>(unsafe_fn, _, s).
     set unsafe_fn = {d \<in> set keys. std_selected fcx d \<and> check_safety fcx d \<and> get_sp fcx d \<noteq> []} \<and>
     list_all2 (unit_of tcx fcx) (filter (has_unit tcx fcx) keys) (ug_uigs s) \<and>
     list_all2 (unit_of tcx fcx) (filter (has_single tcx fcx) keys) (ug_single s))"

lemma std_key_ok:
  assumes "enum_order (set_order tcx)" "terminated tcx d" "std_inv tcx fcx keys st"
  shows "ok (std_inv tcx fcx (keys @ [d])) (std_key tcx fcx d st)"
proof -
  obtain unsafe_fn counts s where [simp]: "st = (unsafe_fn, counts, s)" by (cases st)
  note inv = assms(3) [unfolded std_inv_def, simplified]
  show ?thesis
  proof (cases "std_selected fcx d")
    case False
    then show ?thesis using inv by (auto simp: std_key_def std_inv_def std_selected_def has_unit_def has_single_def)
  next
    case True
    obtain u where u: "unit_of tcx fcx d u" "insert_uig tcx fcx d (labelled_callees tcx fcx d) (get_cons fcx d) s =
       (if labelled_callees tcx fcx d \<noteq> [] then s\<lparr>ug_uigs := ug_uigs s @ [u]\<rparr>
        else if check_safety fcx d then s\<lparr>ug_single := ug_single s @ [u]\<rparr> else s)"
      using insert_uig_units [OF assms(1)] by blast
    have sel: "\<not> filter_mir fcx d" "is_fn_kind fcx d" "check_visibility fcx d" using True by (auto simp: std_selected_def)
    show ?thesis using inv u(1) True
      by (auto simp: std_key_def std_inv_def sel get_callees_labelled [OF assms(2)] u(2) has_unit_def has_single_def Let_def
          intro!: list_all2_appendI)
  qed
qed

lemma analyze_struct_total:
  assumes "\<And>d. terminated tcx d"
  shows "ok (\<lambda>_. True) (analyze_struct tcx fcx ucx s)"
proof -
  have cs: "get_callees tcx fcx d = Inr (labelled_callees tcx fcx d)" for d using assms by (rule get_callees_labelled)
  have bind: "ok (\<lambda>_. True) m \<Longrightarrow> (\<And>x. ok (\<lambda>_. True) (f x)) \<Longrightarrow> ok (\<lambda>_. True) (rbind m f)" for m and f :: "'x \<Rightarrow> 'y res"
    by (auto simp: ok_def)
  have ms: "ok (\<lambda>_. True) (rfold (\<lambda>i ms. rbind (get_callees tcx fcx i) (\<lambda>cs. Inr (if length cs \<noteq> 0 then ms @ [i] else ms))) xs ms)" for xs ms
    by (rule ok_rfold) (simp_all add: cs)
  have gs: "ok (\<lambda>_. True) (get_struct tcx fcx ucx d st)" for d st
    unfolding get_struct_def Let_def using ms
    by (simp add: cs bind split: prod.split option.split)
  have "ok (\<lambda>_. True) (rfold (\<lambda>u. get_struct tcx fcx ucx (fst (uu_caller u))) us st)" for us st
    by (rule ok_rfold) (simp_all add: gs)
  then show ?thesis unfolding analyze_struct_def by (auto intro!: ok_rbindI)
qed

text \<open>C30: If every block has a terminator, collecting the units of a crate returns; it yields, in the order
  of the bodies, one unit for each visible function not filtered by name that calls an unsafe, visible and labelled function,
  one single unit for each other such function that is itself unsafe, and no further ones; each unit has the constructors of its
  caller and exactly those callees with their constructors. The unsafe functions returned are those with labels.\<close>

theorem std_units_exact:
  assumes "\<And>d. terminated tcx d" and order: "enum_order (set_order tcx)"
  shows "\<exists>unsafe_fn counts out s.
     get_all_std_unsafe_def_id_by_treat_std_as_local_crate tcx fcx ucx uig_check_new = Inr (unsafe_fn, counts, out, s) \<and>
     set unsafe_fn = {d \<in> set (mir_keys tcx). std_selected fcx d \<and> check_safety fcx d \<and> get_sp fcx d \<noteq> []} \<and>
     list_all2 (unit_of tcx fcx)
       (filter (\<lambda>d. std_selected fcx d \<and> labelled_callees tcx fcx d \<noteq> []) (mir_keys tcx)) (ug_uigs s) \<and>
     list_all2 (unit_of tcx fcx)
       (filter (\<lambda>d. std_selected fcx d \<and> labelled_callees tcx fcx d = [] \<and> check_safety fcx d) (mir_keys tcx)) (ug_single s)"
proof -
  have "ok (std_inv tcx fcx (mir_keys tcx)) (rfold (std_key tcx fcx) (mir_keys tcx) ([], [], uig_check_new))"
  proof (rule ok_rfold_prefix)
    show "std_inv tcx fcx [] ([], [], uig_check_new)" by (simp add: std_inv_def uig_check_new_def)
  qed (rule std_key_ok [OF order assms(1)])
  then obtain unsafe_fn counts s where "rfold (std_key tcx fcx) (mir_keys tcx) ([], [], uig_check_new) = Inr (unsafe_fn, counts, s)"
    and inv: "std_inv tcx fcx (mir_keys tcx) (unsafe_fn, counts, s)" by (auto simp: ok_def)
  moreover obtain out where "analyze_struct tcx fcx ucx s = Inr out" using analyze_struct_total [OF assms(1), of fcx ucx s] by (auto simp: ok_def)
  ultimately show ?thesis
    using inv by (auto simp: get_all_std_unsafe_def_id_by_treat_std_as_local_crate_def std_inv_def
        has_unit_def [abs_def] has_single_def [abs_def])
qed

theorem std_units_exact_witness:
  "\<exists>unsafe_fn counts out s.
     get_all_std_unsafe_def_id_by_treat_std_as_local_crate demo_uig_tcx demo_uig_fcx demo_ucx uig_check_new = Inr (unsafe_fn, counts, out, s) \<and>
     set unsafe_fn = {} \<and> length (ug_uigs s) = 1 \<and> ug_single s = []"
proof -
  have t: "terminated demo_uig_tcx d" for d by (simp add: terminated_def demo_uig_tcx_def)
  have o1: "enum_order (set_order demo_uig_tcx)" by (simp add: demo_uig_tcx_def demo_tcx_def)
  have keys: "mir_keys demo_uig_tcx = [0]" by (simp add: demo_uig_tcx_def)
  have safe: "\<not> check_safety demo_uig_fcx 0" by (simp add: check_safety_def demo_uig_fcx_def)
  have sel: "std_selected demo_uig_fcx 0" by code_simp
  have lab: "labelled_callees demo_uig_tcx demo_uig_fcx 0 = [1]" by code_simp
  obtain unsafe_fn counts out s where
    r: "get_all_std_unsafe_def_id_by_treat_std_as_local_crate demo_uig_tcx demo_uig_fcx demo_ucx uig_check_new = Inr (unsafe_fn, counts, out, s)"
    and fns: "set unsafe_fn = {d \<in> set [0]. std_selected demo_uig_fcx d \<and> check_safety demo_uig_fcx d \<and> get_sp demo_uig_fcx d \<noteq> []}"
    and us: "list_all2 (unit_of demo_uig_tcx demo_uig_fcx)
       (filter (\<lambda>d. std_selected demo_uig_fcx d \<and> labelled_callees demo_uig_tcx demo_uig_fcx d \<noteq> []) [0]) (ug_uigs s)"
    and ss: "list_all2 (unit_of demo_uig_tcx demo_uig_fcx)
       (filter (\<lambda>d. std_selected demo_uig_fcx d \<and> labelled_callees demo_uig_tcx demo_uig_fcx d = [] \<and> check_safety demo_uig_fcx d) [0]) (ug_single s)"
    using std_units_exact [OF t o1, of demo_uig_fcx demo_ucx] unfolding keys by blast
  have "set unsafe_fn = {}" unfolding fns set_simps using safe by blast
  moreover have "length (ug_uigs s) = 1" using list_all2_lengthD [OF us] sel lab by simp
  moreover have "ug_single s = []" using ss lab by simp
  ultimately show ?thesis using r by blast
qed

end
