(* ===== verification/Api_Type.thy ===== *)
theory Api_Type
  imports Mir
begin

section \<open>Types as nodes of the API graph\<close>

text \<open>
  \<^verbatim>\<open>analysis/core/api_dep/graph/ty_wrapper.rs\<close>: types that are compared and hashed up to lifetimes, and their description. The type keeps what
  the sources match on, with the regions of references and the lengths of arrays; a kind they do not match on is a number, since
  the compiler interns types.
\<close>

datatype aty =
    At_Adt def_id "aarg list" | At_RawPtr aty mutability | At_Ref nat aty mutability | At_Array aty nat | At_Pat aty nat
  | At_Slice aty | At_Tuple "aty list" | At_Other nat
and aarg = Aa_Lifetime nat | Aa_Type aty | Aa_Const nat

record ty_wrapper =
  tw_ty :: aty
  tw_lifetime_map :: "nat list"

definition ty_wrapper_from :: "aty \<Rightarrow> ty_wrapper" where
  "ty_wrapper_from t = \<lparr>tw_ty = t, tw_lifetime_map = []\<rparr>"

subsection \<open>Equality\<close>

text \<open>\<open>zip\<close> ends with the shorter list of arguments; tuples are compared in length first.\<close>

fun eq_ty :: "aty \<Rightarrow> aty \<Rightarrow> bool" and eq_args :: "aarg list \<Rightarrow> aarg list \<Rightarrow> bool" and eq_tys :: "aty list \<Rightarrow> aty list \<Rightarrow> bool" where
  "eq_ty (At_Adt d1 as1) (At_Adt d2 as2) \<longleftrightarrow> d1 = d2 \<and> eq_args as1 as2"
| "eq_ty (At_RawPtr t1 m1) (At_RawPtr t2 m2) \<longleftrightarrow> m1 = m2 \<and> eq_ty t1 t2"
| "eq_ty (At_Ref _ t1 m1) (At_Ref _ t2 m2) \<longleftrightarrow> m1 = m2 \<and> eq_ty t1 t2"
| "eq_ty (At_Array t1 _) (At_Array t2 _) \<longleftrightarrow> eq_ty t1 t2"
| "eq_ty (At_Pat t1 _) (At_Pat t2 _) \<longleftrightarrow> eq_ty t1 t2"
| "eq_ty (At_Slice t1) (At_Slice t2) \<longleftrightarrow> eq_ty t1 t2"
| "eq_ty (At_Tuple ts1) (At_Tuple ts2) \<longleftrightarrow> length ts1 = length ts2 \<and> eq_tys ts1 ts2"
| "eq_ty t1 t2 \<longleftrightarrow> t1 = t2"
| "eq_args (a1 # as1) (a2 # as2) \<longleftrightarrow>
     (case (a1, a2) of
        (Aa_Lifetime _, Aa_Lifetime _) \<Rightarrow> True
      | (Aa_Type t1, Aa_Type t2) \<Rightarrow> eq_ty t1 t2
      | (Aa_Const c1, Aa_Const c2) \<Rightarrow> c1 = c2
      | _ \<Rightarrow> False) \<and> eq_args as1 as2"
| "eq_args _ _ \<longleftrightarrow> True"
| "eq_tys (t1 # ts1) (t2 # ts2) \<longleftrightarrow> eq_ty t1 t2 \<and> eq_tys ts1 ts2"
| "eq_tys _ _ \<longleftrightarrow> True"

definition tw_eq :: "ty_wrapper \<Rightarrow> ty_wrapper \<Rightarrow> bool" where
  "tw_eq a b \<longleftrightarrow> eq_ty (tw_ty a) (tw_ty b)"

subsection \<open>Hashing\<close>

text \<open>What is written to the hasher, and the running number of the lifetimes.\<close>

datatype hash_event =
    He_Discr nat | He_Did def_id | He_Num nat | He_Const nat | He_Mut mutability | He_Ty aty | He_Str string | He_Bool bool

fun hash_ty :: "aty \<Rightarrow> nat \<Rightarrow> hash_event list \<times> nat" and hash_args :: "aarg list \<Rightarrow> nat \<Rightarrow> hash_event list \<times> nat"
  and hash_tys :: "aty list \<Rightarrow> nat \<Rightarrow> hash_event list \<times> nat" where
  "hash_ty (At_Adt d as) no = (let (es, no) = hash_args as no in (He_Discr 0 # He_Did d # es, no))"
| "hash_ty (At_RawPtr t m) no = (let (es, no) = hash_ty t no in (He_Discr 1 # He_Mut m # es, no))"
| "hash_ty (At_Ref _ t m) no = (let (es, no') = hash_ty t (no + 1) in (He_Discr 2 # He_Mut m # He_Num (no + 1) # es, no'))"
| "hash_ty (At_Array t _) no = (let (es, no) = hash_ty t no in (He_Discr 3 # es, no))"
| "hash_ty (At_Pat t _) no = (let (es, no) = hash_ty t no in (He_Discr 4 # es, no))"
| "hash_ty (At_Slice t) no = (let (es, no) = hash_ty t no in (He_Discr 5 # es, no))"
| "hash_ty (At_Tuple ts) no = (let (es, no) = hash_tys ts no in (He_Discr 6 # es, no))"
| "hash_ty (At_Other k) no = ([He_Ty (At_Other k)], no)"
| "hash_args [] no = ([], no)"
| "hash_args (a # as) no =
     (let (es, no) = (case a of
            Aa_Lifetime _ \<Rightarrow> ([He_Num (no + 1)], no + 1)
          | Aa_Type t \<Rightarrow> hash_ty t no
          | Aa_Const c \<Rightarrow> ([He_Const c], no));
          (es', no) = hash_args as no
      in (es @ es', no))"
| "hash_tys [] no = ([], no)"
| "hash_tys (t # ts) no = (let (es, no) = hash_ty t no; (es', no) = hash_tys ts no in (es @ es', no))"

definition tw_hash :: "ty_wrapper \<Rightarrow> hash_event list" where
  "tw_hash w = fst (hash_ty (tw_ty w) 0)"

subsection \<open>The lifetimes of a type\<close>

text \<open>The calls of the callback; a type of a kind that is not listed is declared unreachable.\<close>

fun traverse_ty_with_lifetime :: "aty \<Rightarrow> (nat \<times> nat) list \<times> nat \<Rightarrow> ((nat \<times> nat) list \<times> nat) res"
  and traverse_args :: "aarg list \<Rightarrow> (nat \<times> nat) list \<times> nat \<Rightarrow> ((nat \<times> nat) list \<times> nat) res"
  and traverse_tys :: "aty list \<Rightarrow> (nat \<times> nat) list \<times> nat \<Rightarrow> ((nat \<times> nat) list \<times> nat) res" where
  "traverse_ty_with_lifetime (At_Adt _ as) st = traverse_args as st"
| "traverse_ty_with_lifetime (At_RawPtr t _) st = traverse_ty_with_lifetime t st"
| "traverse_ty_with_lifetime (At_Ref r t _) (calls, no) = traverse_ty_with_lifetime t (calls @ [(r, no + 1)], no + 1)"
| "traverse_ty_with_lifetime (At_Array t _) st = traverse_ty_with_lifetime t st"
| "traverse_ty_with_lifetime (At_Pat t _) st = traverse_ty_with_lifetime t st"
| "traverse_ty_with_lifetime (At_Slice t) st = traverse_ty_with_lifetime t st"
| "traverse_ty_with_lifetime (At_Tuple ts) st = traverse_tys ts st"
| "traverse_ty_with_lifetime (At_Other _) st = Inl Unreachable_code"
| "traverse_args [] st = Inr st"
| "traverse_args (a # as) st =
     rbind (case a of
         Aa_Lifetime r \<Rightarrow> (case st of (calls, no) \<Rightarrow> Inr (calls @ [(r, no + 1)], no + 1))
       | Aa_Type t \<Rightarrow> traverse_ty_with_lifetime t st
       | Aa_Const _ \<Rightarrow> Inr st) (traverse_args as)"
| "traverse_tys [] st = Inr st"
| "traverse_tys (t # ts) st = rbind (traverse_ty_with_lifetime t st) (traverse_tys ts)"

subsection \<open>Description\<close>

text \<open>The texts of constants and of the kinds that are not matched on come from the compiler.\<close>

record dcx_text =
  dt_const :: "nat \<Rightarrow> string"
  dt_other :: "nat \<Rightarrow> string"

fun desc_ty_str :: "tcx \<Rightarrow> dcx_text \<Rightarrow> aty \<Rightarrow> nat \<Rightarrow> string \<times> nat"
  and desc_args :: "tcx \<Rightarrow> dcx_text \<Rightarrow> aarg list \<Rightarrow> nat \<Rightarrow> string list \<times> nat"
  and desc_tys :: "tcx \<Rightarrow> dcx_text \<Rightarrow> aty list \<Rightarrow> nat \<Rightarrow> string list \<times> nat" where
  "desc_ty_str tcx dt (At_Adt d as) no =
     (let (strs, no) = desc_args tcx dt as no in
      (def_path_str tcx d @ (if as = [] then '''' else ''<'' @ join_with '', '' strs @ ''>''), no))"
| "desc_ty_str tcx dt (At_RawPtr t m) no =
     (let (s, no) = desc_ty_str tcx dt t no in (''*'' @ (case m of Mut \<Rightarrow> ''mut'' | Not_mut \<Rightarrow> ''const'') @ '' '' @ s, no))"
| "desc_ty_str tcx dt (At_Ref _ t m) no =
     (let (s, no') = desc_ty_str tcx dt t (no + 1) in
      (''&'' @ [CHR 39] @ ''#'' @ nat_to_string no @ (case m of Mut \<Rightarrow> ''mut'' | Not_mut \<Rightarrow> '''') @ '' '' @ s, no'))"
| "desc_ty_str tcx dt (At_Array t _) no = desc_ty_str tcx dt t no"
| "desc_ty_str tcx dt (At_Pat t _) no = desc_ty_str tcx dt t no"
| "desc_ty_str tcx dt (At_Slice t) no = desc_ty_str tcx dt t no"
| "desc_ty_str tcx dt (At_Tuple ts) no = (let (strs, no) = desc_tys tcx dt ts no in (''('' @ join_with '', '' strs @ '')'', no))"
| "desc_ty_str tcx dt (At_Other k) no = (dt_other dt k, no)"
| "desc_args tcx dt [] no = ([], no)"
| "desc_args tcx dt (a # as) no =
     (let (s, no) = (case a of
            Aa_Lifetime _ \<Rightarrow> ([CHR 39] @ ''#'' @ nat_to_string no, no + 1)
          | Aa_Type t \<Rightarrow> desc_ty_str tcx dt t no
          | Aa_Const c \<Rightarrow> (dt_const dt c, no));
          (strs, no) = desc_args tcx dt as no
      in (s # strs, no))"
| "desc_tys tcx dt [] no = ([], no)"
| "desc_tys tcx dt (t # ts) no = (let (s, no) = desc_ty_str tcx dt t no; (strs, no) = desc_tys tcx dt ts no in (s # strs, no))"

definition tw_desc_str :: "tcx \<Rightarrow> dcx_text \<Rightarrow> ty_wrapper \<Rightarrow> string" where
  "tw_desc_str tcx dt w = fst (desc_ty_str tcx dt (tw_ty w) 0)"

subsection \<open>Equality up to erasure\<close>

text \<open>Types without regions and lengths, and types in which every ADT has as many arguments as it declares.\<close>

fun erase_ty :: "aty \<Rightarrow> aty" and erase_arg :: "aarg \<Rightarrow> aarg" where
  "erase_ty (At_Adt d as) = At_Adt d (map erase_arg as)"
| "erase_ty (At_RawPtr t m) = At_RawPtr (erase_ty t) m"
| "erase_ty (At_Ref _ t m) = At_Ref 0 (erase_ty t) m"
| "erase_ty (At_Array t _) = At_Array (erase_ty t) 0"
| "erase_ty (At_Pat t _) = At_Pat (erase_ty t) 0"
| "erase_ty (At_Slice t) = At_Slice (erase_ty t)"
| "erase_ty (At_Tuple ts) = At_Tuple (map erase_ty ts)"
| "erase_ty (At_Other k) = At_Other k"
| "erase_arg (Aa_Lifetime _) = Aa_Lifetime 0"
| "erase_arg (Aa_Type t) = Aa_Type (erase_ty t)"
| "erase_arg (Aa_Const c) = Aa_Const c"

fun wf_aty :: "(def_id \<Rightarrow> nat) \<Rightarrow> aty \<Rightarrow> bool" and wf_aarg :: "(def_id \<Rightarrow> nat) \<Rightarrow> aarg \<Rightarrow> bool" where
  "wf_aty ar (At_Adt d as) \<longleftrightarrow> length as = ar d \<and> list_all (wf_aarg ar) as"
| "wf_aty ar (At_RawPtr t _) \<longleftrightarrow> wf_aty ar t"
| "wf_aty ar (At_Ref _ t _) \<longleftrightarrow> wf_aty ar t"
| "wf_aty ar (At_Array t _) \<longleftrightarrow> wf_aty ar t"
| "wf_aty ar (At_Pat t _) \<longleftrightarrow> wf_aty ar t"
| "wf_aty ar (At_Slice t) \<longleftrightarrow> wf_aty ar t"
| "wf_aty ar (At_Tuple ts) \<longleftrightarrow> list_all (wf_aty ar) ts"
| "wf_aty ar (At_Other _) \<longleftrightarrow> True"
| "wf_aarg ar (Aa_Type t) \<longleftrightarrow> wf_aty ar t"
| "wf_aarg ar _ \<longleftrightarrow> True"

lemma erase_ty_Other [simp]: "erase_ty t = At_Other k \<longleftrightarrow> t = At_Other k" "At_Other k = erase_ty t \<longleftrightarrow> t = At_Other k"
  by (cases t; auto)+

lemma eq_ty_erase:
  "wf_aty ar t1 \<Longrightarrow> wf_aty ar t2 \<Longrightarrow> eq_ty t1 t2 \<longleftrightarrow> erase_ty t1 = erase_ty t2"
  "length as1 = length as2 \<Longrightarrow> list_all (wf_aarg ar) as1 \<Longrightarrow> list_all (wf_aarg ar) as2 \<Longrightarrow>
     eq_args as1 as2 \<longleftrightarrow> map erase_arg as1 = map erase_arg as2"
  "length ts1 = length ts2 \<Longrightarrow> list_all (wf_aty ar) ts1 \<Longrightarrow> list_all (wf_aty ar) ts2 \<Longrightarrow>
     eq_tys ts1 ts2 \<longleftrightarrow> map erase_ty ts1 = map erase_ty ts2"
  by (induction t1 t2 and as1 as2 and ts1 ts2 rule: eq_ty_eq_args_eq_tys.induct)
    (auto split: aarg.splits dest: map_eq_imp_length_eq)

text \<open>The hash sees nothing of a type but its erasure.\<close>

lemma hash_ty_erase:
  "hash_ty (erase_ty t) no = hash_ty t no"
  "hash_args (map erase_arg as) no = hash_args as no"
  "hash_tys (map erase_ty ts) no = hash_tys ts no"
  by (induction t no and as no and ts no rule: hash_ty_hash_args_hash_tys.induct) (auto split: aarg.splits prod.splits)

text \<open>C34: On types in which every ADT has its number of arguments, the equality of type nodes is an equivalence:
  two types are equal exactly if they are after the regions of references and lifetime arguments, the lengths of arrays and
  the patterns of pattern types are erased.\<close>

theorem eq_ty_iff_erasure:
  assumes "wf_aty ar t1" "wf_aty ar t2"
  shows "tw_eq (ty_wrapper_from t1) (ty_wrapper_from t2) \<longleftrightarrow> erase_ty t1 = erase_ty t2"
  using eq_ty_erase(1) [OF assms] by (simp add: tw_eq_def ty_wrapper_from_def)

theorem eq_ty_iff_erasure_witness:
  "tw_eq (ty_wrapper_from (At_Array (At_Ref 1 (At_Adt 7 [Aa_Lifetime 3]) Mut) 4)) (ty_wrapper_from (At_Array (At_Ref 2 (At_Adt 7 [Aa_Lifetime 5]) Mut) 16))
     \<longleftrightarrow> erase_ty (At_Array (At_Ref 1 (At_Adt 7 [Aa_Lifetime 3]) Mut) 4) = erase_ty (At_Array (At_Ref 2 (At_Adt 7 [Aa_Lifetime 5]) Mut) 16)"
  by (rule eq_ty_iff_erasure [where ar = "\<lambda>_. 1"]) simp_all

text \<open>C35: Types that are equal as nodes write the same to the hasher, as a hash table requires of its keys.\<close>

theorem tw_hash_respects_eq:
  assumes "wf_aty ar (tw_ty v)" "wf_aty ar (tw_ty w)" "tw_eq v w"
  shows "tw_hash v = tw_hash w"
proof -
  have "erase_ty (tw_ty v) = erase_ty (tw_ty w)" using eq_ty_erase(1) [OF assms(1,2)] assms(3) by (simp add: tw_eq_def)
  then show ?thesis unfolding tw_hash_def by (metis hash_ty_erase(1))
qed

theorem tw_hash_respects_eq_witness:
  "tw_hash (ty_wrapper_from (At_Tuple [At_Ref 1 (At_Slice (At_Other 0)) Mut, At_Other 2])) =
     tw_hash (ty_wrapper_from (At_Tuple [At_Ref 9 (At_Slice (At_Other 0)) Mut, At_Other 2]))"
  by (rule tw_hash_respects_eq [where ar = "\<lambda>_. 0"]) (simp_all add: ty_wrapper_from_def tw_eq_def)

text \<open>Without the condition on the number of arguments the two disagree: comparing stops with the shorter list, hashing does not.\<close>

lemma tw_hash_needs_arity:
  "tw_eq (ty_wrapper_from (At_Adt 7 [])) (ty_wrapper_from (At_Adt 7 [Aa_Const 1])) \<and>
   tw_hash (ty_wrapper_from (At_Adt 7 [])) \<noteq> tw_hash (ty_wrapper_from (At_Adt 7 [Aa_Const 1]))"
  by (simp add: tw_eq_def tw_hash_def ty_wrapper_from_def)

text \<open>The traversal ends in the panic on every type with a leaf, so on every type but empty tuples and ADTs made of such.\<close>

fun has_leaf :: "aty \<Rightarrow> bool" where
  "has_leaf (At_Adt _ as) = list_ex (\<lambda>a. case a of Aa_Type t \<Rightarrow> has_leaf t | _ \<Rightarrow> False) as"
| "has_leaf (At_RawPtr t _) = has_leaf t"
| "has_leaf (At_Ref _ t _) = has_leaf t"
| "has_leaf (At_Array t _) = has_leaf t"
| "has_leaf (At_Pat t _) = has_leaf t"
| "has_leaf (At_Slice t) = has_leaf t"
| "has_leaf (At_Tuple ts) = list_ex has_leaf ts"
| "has_leaf (At_Other _) = True"

lemma traverse_panics:
  "isl (traverse_ty_with_lifetime t st) = has_leaf t"
  "isl (traverse_args as st) = list_ex (\<lambda>a. case a of Aa_Type t \<Rightarrow> has_leaf t | _ \<Rightarrow> False) as"
  "isl (traverse_tys ts st) = list_ex has_leaf ts"
proof (induction t st and as st and ts st rule: traverse_ty_with_lifetime_traverse_args_traverse_tys.induct)
  case (10 a as st)
  then show ?case by (cases a; cases st; cases "traverse_ty_with_lifetime (case a of Aa_Type t \<Rightarrow> t | _ \<Rightarrow> At_Other 0) st") auto
next
  case (12 t ts st)
  then show ?case by (cases "traverse_ty_with_lifetime t st") auto
qed auto

end
