(* ===== verification/Api_Graph.thy ===== *)
theory Api_Graph
  imports Api_Type
begin

section \<open>The API dependency graph\<close>

text \<open>
  \<^verbatim>\<open>analysis/core/api_dep\<close>: the functions of a crate, their generic parameters and the types of their arguments and results as nodes,
  joined by edges. The graph itself is a value of the package petgraph, which is the parameter \<open>pg\<close>; what its documentation promises is
  \<open>petgraph_ok\<close>. The hash table of nodes hashes with the parameter \<open>H\<close>, a function of what is written to the hasher.
\<close>

subsection \<open>Nodes and edges\<close>

datatype dep_node = Dn_Api def_id | Dn_Ty ty_wrapper | Dn_Generic def_id nat string bool

datatype dep_edge = De_Arg nat | De_Ret | De_Fn2Generic

definition dep_edge_display :: "dep_edge \<Rightarrow> string" where
  "dep_edge_display e = (case e of De_Arg no \<Rightarrow> nat_to_string no | De_Ret \<Rightarrow> ''r'' | De_Fn2Generic \<Rightarrow> '''')"

definition dn_desc_str :: "tcx \<Rightarrow> dcx_text \<Rightarrow> dep_node \<Rightarrow> string" where
  "dn_desc_str tcx dt n =
     (case n of
        Dn_Api d \<Rightarrow> def_path_str tcx d
      | Dn_Ty w \<Rightarrow> tw_desc_str tcx dt w
      | Dn_Generic _ index name _ \<Rightarrow> name @ ''/#'' @ nat_to_string index)"

text \<open>The derived equality and hash.\<close>

fun dn_eq :: "dep_node \<Rightarrow> dep_node \<Rightarrow> bool" where
  "dn_eq (Dn_Api d1) (Dn_Api d2) \<longleftrightarrow> d1 = d2"
| "dn_eq (Dn_Ty w1) (Dn_Ty w2) \<longleftrightarrow> tw_eq w1 w2"
| "dn_eq (Dn_Generic d1 i1 s1 l1) (Dn_Generic d2 i2 s2 l2) \<longleftrightarrow> d1 = d2 \<and> i1 = i2 \<and> s1 = s2 \<and> l1 = l2"
| "dn_eq _ _ \<longleftrightarrow> False"

definition dn_hash :: "dep_node \<Rightarrow> hash_event list" where
  "dn_hash n =
     (case n of
        Dn_Api d \<Rightarrow> [He_Discr 0, He_Did d]
      | Dn_Ty w \<Rightarrow> He_Discr 1 # tw_hash w
      | Dn_Generic d i s l \<Rightarrow> [He_Discr 2, He_Did d, He_Num i, He_Str s, He_Bool l])"

subsection \<open>The graph\<close>

record 'g petgraph =
  pg_new :: 'g
  pg_add_node :: "'g \<Rightarrow> dep_node \<Rightarrow> nat \<times> 'g"
  pg_add_edge :: "'g \<Rightarrow> nat \<Rightarrow> nat \<Rightarrow> dep_edge \<Rightarrow> 'g res"
  pg_contains_edge :: "'g \<Rightarrow> nat \<Rightarrow> nat \<Rightarrow> bool"
  pg_nodes :: "'g \<Rightarrow> dep_node list"
  pg_edges :: "'g \<Rightarrow> (nat \<times> nat \<times> dep_edge) list"

record 'g api_graph =
  ag_graph :: 'g
  ag_indices :: "(dep_node \<times> nat) list"

definition api_graph_new :: "'g petgraph \<Rightarrow> 'g api_graph" where
  "api_graph_new pg = \<lparr>ag_graph = pg_new pg, ag_indices = []\<rparr>"

text \<open>Lookup in the hash table: an entry with the same hash and an equal key.\<close>

definition hm_lookup :: "(hash_event list \<Rightarrow> nat) \<Rightarrow> (dep_node \<times> nat) list \<Rightarrow> dep_node \<Rightarrow> nat option" where
  "hm_lookup H m n = map_option snd (find (\<lambda>(k, _). H (dn_hash k) = H (dn_hash n) \<and> dn_eq k n) m)"

definition get_node :: "'g petgraph \<Rightarrow> (hash_event list \<Rightarrow> nat) \<Rightarrow> dep_node \<Rightarrow> 'g api_graph \<Rightarrow> nat \<times> 'g api_graph" where
  "get_node pg H n g =
     (case hm_lookup H (ag_indices g) n of
        Some i \<Rightarrow> (i, g)
      | None \<Rightarrow> (let (i, gr) = pg_add_node pg (ag_graph g) n in (i, \<lparr>ag_graph = gr, ag_indices = ag_indices g @ [(n, i)]\<rparr>)))"

definition add_edge :: "'g petgraph \<Rightarrow> nat \<Rightarrow> nat \<Rightarrow> dep_edge \<Rightarrow> 'g api_graph \<Rightarrow> 'g api_graph res" where
  "add_edge pg src dst e g = rbind (pg_add_edge pg (ag_graph g) src dst e) (\<lambda>gr. Inr (g\<lparr>ag_graph := gr\<rparr>))"

definition add_edge_once :: "'g petgraph \<Rightarrow> nat \<Rightarrow> nat \<Rightarrow> dep_edge \<Rightarrow> 'g api_graph \<Rightarrow> 'g api_graph res" where
  "add_edge_once pg src dst e g = (if pg_contains_edge pg (ag_graph g) src dst then Inr g else add_edge pg src dst e g)"

record api_statistics =
  st_api_count :: nat
  st_type_count :: nat
  st_generic_param_count :: nat
  st_edge_cnt :: nat

definition statistics :: "'g petgraph \<Rightarrow> 'g api_graph \<Rightarrow> api_statistics" where
  "statistics pg g =
     (let ns = pg_nodes pg (ag_graph g) in
      \<lparr>st_api_count = length (filter (\<lambda>n. case n of Dn_Api _ \<Rightarrow> True | _ \<Rightarrow> False) ns),
       st_type_count = length (filter (\<lambda>n. case n of Dn_Ty _ \<Rightarrow> True | _ \<Rightarrow> False) ns),
       st_generic_param_count = length (filter (\<lambda>n. case n of Dn_Generic _ _ _ _ \<Rightarrow> True | _ \<Rightarrow> False) ns),
       st_edge_cnt = length (pg_edges pg (ag_graph g))\<rparr>)"

text \<open>The attributes of edges and nodes in the dot file.\<close>

definition ag_edge_attr :: "dep_edge \<Rightarrow> string" where
  "ag_edge_attr e = ''label='' @ [CHR 34] @ dep_edge_display e @ [CHR 34] @ '', color = '' @
     (case e of De_Fn2Generic \<Rightarrow> ''grey'' | _ \<Rightarrow> ''black'')"

definition ag_node_attr :: "tcx \<Rightarrow> dcx_text \<Rightarrow> (string \<Rightarrow> string) \<Rightarrow> dep_node \<Rightarrow> string" where
  "ag_node_attr tcx dt quote n = ''label='' @ quote (dn_desc_str tcx dt n) @ '', '' @
     (case n of Dn_Api _ \<Rightarrow> ''color = blue'' | Dn_Ty _ \<Rightarrow> ''color = red'' | Dn_Generic _ _ _ _ \<Rightarrow> ''color = green'') @ '', shape=box''"

subsection \<open>Functions\<close>

text \<open>Late-bound variables, with the name if they have one.\<close>

datatype bound_var = Bv_Ty "string option" | Bv_Region "string option" | Bv_Const

definition get_bound_var_attr :: "bound_var \<Rightarrow> string \<times> bool" where
  "get_bound_var_attr v =
     (case v of
        Bv_Ty (Some name) \<Rightarrow> (name, False) | Bv_Ty None \<Rightarrow> (''anon'', False)
      | Bv_Region (Some name) \<Rightarrow> (name, True) | Bv_Region None \<Rightarrow> (''anon'', True)
      | Bv_Const \<Rightarrow> (''anon const'', False))"

datatype region_constraint =
  Var_Sub_Var nat nat | Reg_Sub_Var string nat | Var_Sub_Reg nat string | Reg_Sub_Reg string string

definition region_vid_str :: "nat \<Rightarrow> string" where
  "region_vid_str vid = [CHR 39] @ ''?'' @ nat_to_string vid"

definition constraint_str :: "region_constraint \<Rightarrow> string" where
  "constraint_str c =
     (let (a, b) = (case c of
            Var_Sub_Var a b \<Rightarrow> (region_vid_str a, region_vid_str b)
          | Reg_Sub_Var a b \<Rightarrow> (a, region_vid_str b)
          | Var_Sub_Reg a b \<Rightarrow> (region_vid_str a, b)
          | Reg_Sub_Reg a b \<Rightarrow> (a, b))
      in a @ '' <= '' @ b)"

text \<open>
  A function: its early-bound generics, each with whether it is a type or constant, its late-bound variables, and its
  arguments and result. \<open>ac_sub\<close> are the constraints of the subtyping of the signature with its copy, if it succeeds.
\<close>

record api_fn =
  af_def_id :: def_id
  af_early :: "(string \<times> bool) list"
  af_bound_vars :: "bound_var list"
  af_inputs :: "aty list"
  af_output :: aty

record acx =
  ac_fns :: "api_fn list"
  ac_sub :: "def_id \<Rightarrow> region_constraint list option"

definition extract_constraints :: "acx \<Rightarrow> def_id \<Rightarrow> string list res" where
  "extract_constraints cx d = rbind (unwrap (ac_sub cx d)) (\<lambda>cs. Inr (map constraint_str cs))"

record 'g fn_visitor =
  fv_cnt :: nat
  fv_funcs :: "def_id list"
  fv_graph :: "'g api_graph"

definition fn_visitor_new :: "'g api_graph \<Rightarrow> 'g fn_visitor" where
  "fn_visitor_new g = \<lparr>fv_cnt = 0, fv_funcs = [], fv_graph = g\<rparr>"

definition write_funcs :: "tcx \<Rightarrow> 'g fn_visitor \<Rightarrow> string" where
  "write_funcs tcx v = concat (map (\<lambda>d. def_path_str tcx d @ [CHR 10]) (fv_funcs v))"

text \<open>The two loops over generics join the function with a node per parameter.\<close>

definition add_generic :: "'g petgraph \<Rightarrow> (hash_event list \<Rightarrow> nat) \<Rightarrow> nat \<Rightarrow> def_id \<Rightarrow> nat \<times> string \<times> bool \<Rightarrow> 'g api_graph \<Rightarrow> 'g api_graph res" where
  "add_generic pg H api_node d = (\<lambda>(i, name, is_lifetime) g.
     let (node_index, g) = get_node pg H (Dn_Generic d i name is_lifetime) g in add_edge_once pg api_node node_index De_Fn2Generic g)"

definition early_generics :: "api_fn \<Rightarrow> (nat \<times> string \<times> bool) list" where
  "early_generics f = map (\<lambda>(i, name, is_ty_or_const). (i, name, \<not> is_ty_or_const)) (enumerate 0 (af_early f))"

definition late_generics :: "api_fn \<Rightarrow> (nat \<times> string \<times> bool) list" where
  "late_generics f = map (\<lambda>(i, var). (length (af_early f) + i, get_bound_var_attr var)) (enumerate 0 (af_bound_vars f))"

definition add_input :: "'g petgraph \<Rightarrow> (hash_event list \<Rightarrow> nat) \<Rightarrow> nat \<Rightarrow> nat \<times> aty \<Rightarrow> 'g api_graph \<Rightarrow> 'g api_graph res" where
  "add_input pg H api_node = (\<lambda>(no, t) g.
     let (input_node, g) = get_node pg H (Dn_Ty (ty_wrapper_from t)) g in add_edge pg input_node api_node (De_Arg no) g)"

definition visit_fn :: "'g petgraph \<Rightarrow> (hash_event list \<Rightarrow> nat) \<Rightarrow> acx \<Rightarrow> api_fn \<Rightarrow> 'g fn_visitor \<Rightarrow> 'g fn_visitor res" where
  "visit_fn pg H cx f v =
     (let d = af_def_id f; (api_node, g) = get_node pg H (Dn_Api d) (fv_graph v) in
      rbind (rfold (add_generic pg H api_node d) (early_generics f) g) (\<lambda>g.
      rbind (rfold (add_generic pg H api_node d) (late_generics f) g) (\<lambda>g.
      rbind (extract_constraints cx d) (\<lambda>_.
      rbind (rfold (add_input pg H api_node) (enumerate 0 (af_inputs f)) g) (\<lambda>g.
      let (output_node, g) = get_node pg H (Dn_Ty (ty_wrapper_from (af_output f))) g in
      rbind (add_edge pg api_node output_node De_Ret g) (\<lambda>g.
      Inr \<lparr>fv_cnt = fv_cnt v + 1, fv_funcs = fv_funcs v @ [d], fv_graph = g\<rparr>))))))"

definition api_dep_start :: "'g petgraph \<Rightarrow> (hash_event list \<Rightarrow> nat) \<Rightarrow> acx \<Rightarrow> ('g api_graph \<times> api_statistics) res" where
  "api_dep_start pg H cx =
     rbind (rfold (visit_fn pg H cx) (ac_fns cx) (fn_visitor_new (api_graph_new pg))) (\<lambda>v.
     Inr (fv_graph v, statistics pg (fv_graph v)))"

end
