(* ===== verification/Api_Props.thy ===== *)
theory Api_Props
  imports Api_Graph
begin

section \<open>Correctness of the API dependency graph\<close>

text \<open>
  The table of nodes interns: equal nodes get one index. The nodes and edges of the graph of a crate are those of its signatures.
\<close>

subsection \<open>Interning\<close>

text \<open>A table of nodes up to a key: what \<open>get\<close> promises, and that the index of a node never changes.\<close>

locale interner =
  fixes key :: "'n \<Rightarrow> 'k" and valid :: "'n \<Rightarrow> bool" and get :: "'n \<Rightarrow> 's \<Rightarrow> nat \<times> 's" and nodes :: "'s \<Rightarrow> 'n list" and inv :: "'s \<Rightarrow> bool"
  assumes get_inv: "inv s \<Longrightarrow> valid n \<Longrightarrow> get n s = (i, s') \<Longrightarrow> inv s'"
    and get_nodes: "inv s \<Longrightarrow> valid n \<Longrightarrow> get n s = (i, s') \<Longrightarrow> nodes s' = nodes s \<or> nodes s' = nodes s @ [n]"
    and get_index: "inv s \<Longrightarrow> valid n \<Longrightarrow> get n s = (i, s') \<Longrightarrow> i < length (nodes s') \<and> key (nodes s' ! i) = key n"
    and keys_distinct: "inv s \<Longrightarrow> distinct (map key (nodes s))"
begin

lemma get_keys:
  assumes "inv s" "valid n" "get n s = (i, s')"
  shows "key ` set (nodes s') = insert (key n) (key ` set (nodes s))"
proof -
  have "key n \<in> key ` set (nodes s')" using get_index [OF assms] by (metis image_eqI nth_mem)
  then show ?thesis using get_nodes [OF assms] by auto
qed

lemma get_again:
  assumes "inv s" "valid n" "get n s = (i, s')" "valid m" "key m = key n" "get m s' = (j, s'')"
  shows "j = i \<and> nodes s'' = nodes s'"
proof -
  have s': "inv s'" using assms(1-3) by (rule get_inv)
  have i: "i < length (nodes s')" "key (nodes s' ! i) = key n" using get_index [OF assms(1-3)] by auto
  have s'': "inv s''" using s' assms(4,6) by (rule get_inv)
  have "nodes s'' \<noteq> nodes s' @ [m]"
    using keys_distinct [OF s''] i assms(5) by (auto simp: image_iff) (metis nth_mem)
  then have eq: "nodes s'' = nodes s'" using get_nodes [OF s' assms(4,6)] by blast
  have "j < length (nodes s')" "key (nodes s' ! j) = key n" using get_index [OF s' assms(4,6)] assms(5) eq by auto
  then have "j = i" using i keys_distinct [OF s'] by (metis length_map nth_eq_iff_index_eq nth_map)
  with eq show ?thesis by simp
qed

end

subsection \<open>The package petgraph\<close>

text \<open>Nodes and edges are numbered from zero in the order of their addition; an edge between existing nodes can be added.\<close>

definition petgraph_ok :: "'g petgraph \<Rightarrow> bool" where
  "petgraph_ok pg \<longleftrightarrow> pg_nodes pg (pg_new pg) = [] \<and> pg_edges pg (pg_new pg) = [] \<and>
     (\<forall>g n. fst (pg_add_node pg g n) = length (pg_nodes pg g) \<and> pg_nodes pg (snd (pg_add_node pg g n)) = pg_nodes pg g @ [n] \<and>
        pg_edges pg (snd (pg_add_node pg g n)) = pg_edges pg g) \<and>
     (\<forall>g a b e. a < length (pg_nodes pg g) \<and> b < length (pg_nodes pg g) \<longrightarrow>
        (\<exists>g'. pg_add_edge pg g a b e = Inr g' \<and> pg_nodes pg g' = pg_nodes pg g \<and> pg_edges pg g' = pg_edges pg g @ [(a, b, e)])) \<and>
     (\<forall>g a b. pg_contains_edge pg g a b \<longleftrightarrow> (\<exists>e. (a, b, e) \<in> set (pg_edges pg g)))"

lemma petgraph_new: "petgraph_ok pg \<Longrightarrow> pg_nodes pg (pg_new pg) = [] \<and> pg_edges pg (pg_new pg) = []"
  by (simp add: petgraph_ok_def)

lemma petgraph_node:
  "petgraph_ok pg \<Longrightarrow> pg_add_node pg g n = (i, g') \<Longrightarrow>
     i = length (pg_nodes pg g) \<and> pg_nodes pg g' = pg_nodes pg g @ [n] \<and> pg_edges pg g' = pg_edges pg g"
  unfolding petgraph_ok_def by (metis fst_conv snd_conv)

lemma petgraph_edge:
  assumes "petgraph_ok pg" "a < length (pg_nodes pg g)" "b < length (pg_nodes pg g)"
  obtains g' where "pg_add_edge pg g a b e = Inr g'" "pg_nodes pg g' = pg_nodes pg g" "pg_edges pg g' = pg_edges pg g @ [(a, b, e)]"
  using assms unfolding petgraph_ok_def by blast

lemma petgraph_contains: "petgraph_ok pg \<Longrightarrow> pg_contains_edge pg g a b \<longleftrightarrow> (\<exists>e. (a, b, e) \<in> set (pg_edges pg g))"
  by (simp add: petgraph_ok_def)

subsection \<open>The table of nodes\<close>

text \<open>The key of a node is the node with its type erased.\<close>

definition dep_key :: "dep_node \<Rightarrow> dep_node" where
  "dep_key n = (case n of Dn_Ty w \<Rightarrow> Dn_Ty (ty_wrapper_from (erase_ty (tw_ty w))) | _ \<Rightarrow> n)"

definition dn_valid :: "(def_id \<Rightarrow> nat) \<Rightarrow> dep_node \<Rightarrow> bool" where
  "dn_valid ar n \<longleftrightarrow> (case n of Dn_Ty w \<Rightarrow> wf_aty ar (tw_ty w) | _ \<Rightarrow> True)"

lemma dn_eq_key: "dn_valid ar m \<Longrightarrow> dn_valid ar n \<Longrightarrow> dn_eq m n \<longleftrightarrow> dep_key m = dep_key n"
  by (cases m; cases n) (auto simp: dn_valid_def dep_key_def tw_eq_def ty_wrapper_from_def eq_ty_erase(1))

lemma dn_hash_key: "dep_key m = dep_key n \<Longrightarrow> dn_hash m = dn_hash n"
  by (cases m; cases n) (auto simp: dep_key_def dn_hash_def tw_hash_def ty_wrapper_from_def, metis hash_ty_erase(1))

definition ag_inv :: "'g petgraph \<Rightarrow> (def_id \<Rightarrow> nat) \<Rightarrow> 'g api_graph \<Rightarrow> bool" where
  "ag_inv pg ar g \<longleftrightarrow> petgraph_ok pg \<and> (\<forall>n\<in>set (pg_nodes pg (ag_graph g)). dn_valid ar n) \<and>
     ag_indices g = zip (pg_nodes pg (ag_graph g)) [0..<length (pg_nodes pg (ag_graph g))] \<and>
     distinct (map dep_key (pg_nodes pg (ag_graph g)))"

text \<open>Since equal nodes have equal hashes, the table finds a node exactly if one with its key was added.\<close>

lemma hm_lookup_key:
  assumes "\<forall>k\<in>set ns. dn_valid ar k" "dn_valid ar n"
  shows "hm_lookup H (zip ns js) n = map_option snd (find (\<lambda>(k, _). dep_key k = dep_key n) (zip ns js))"
proof -
  have "find (\<lambda>(k, _). H (dn_hash k) = H (dn_hash n) \<and> dn_eq k n) m = find (\<lambda>(k, _). dep_key k = dep_key n) m"
    if "\<forall>(k, i)\<in>set m. dn_valid ar k" for m :: "(dep_node \<times> nat) list"
    using that
  proof (induction m)
    case (Cons p m)
    obtain k i where [simp]: "p = (k, i)" by (cases p)
    have "dn_valid ar k" using Cons.prems by simp
    then have "dn_eq k n \<longleftrightarrow> dep_key k = dep_key n" using assms(2) by (rule dn_eq_key)
    then show ?case using Cons dn_hash_key [of k n] by auto
  qed simp
  moreover have "\<forall>(k, i)\<in>set (zip ns js). dn_valid ar k" using assms(1) by (auto dest: set_zip_leftD)
  ultimately show ?thesis by (simp add: hm_lookup_def)
qed

lemma find_zip_None: "length js = length ns \<Longrightarrow> find (\<lambda>(k, _). P k) (zip ns js) = None \<longleftrightarrow> (\<forall>k\<in>set ns. \<not> P k)"
  by (induction js ns rule: list_induct2) auto

lemma find_zip_Some:
  "find (\<lambda>(k, _). P k) (zip ns [0..<length ns]) = Some (k, i) \<Longrightarrow> i < length ns \<and> ns ! i = k \<and> P k"
  by (auto simp: find_Some_iff)

text \<open>The two outcomes of \<open>get_node\<close>.\<close>

lemma get_node_cases:
  assumes "ag_inv pg ar g" "dn_valid ar n" "get_node pg H n g = (i, g')"
  shows "(g' = g \<and> i < length (pg_nodes pg (ag_graph g)) \<and> dep_key (pg_nodes pg (ag_graph g) ! i) = dep_key n) \<or>
    (pg_nodes pg (ag_graph g') = pg_nodes pg (ag_graph g) @ [n] \<and> pg_edges pg (ag_graph g') = pg_edges pg (ag_graph g) \<and>
     i = length (pg_nodes pg (ag_graph g)) \<and> ag_indices g' = ag_indices g @ [(n, i)] \<and>
     dep_key n \<notin> dep_key ` set (pg_nodes pg (ag_graph g)))"
proof -
  let ?ns = "pg_nodes pg (ag_graph g)"
  have look: "hm_lookup H (ag_indices g) n = map_option snd (find (\<lambda>(k, _). dep_key k = dep_key n) (zip ?ns [0..<length ?ns]))"
    using assms(1,2) hm_lookup_key [of ?ns ar n] by (simp add: ag_inv_def)
  show ?thesis
  proof (cases "find (\<lambda>(k, _). dep_key k = dep_key n) (zip ?ns [0..<length ?ns])")
    case None
    then have "dep_key n \<notin> dep_key ` set ?ns" using find_zip_None [of "[0..<length ?ns]" ?ns] by (auto simp: image_iff)
    moreover obtain j gr where a: "pg_add_node pg (ag_graph g) n = (j, gr)" by fastforce
    ultimately show ?thesis using assms None look petgraph_node [OF _ a] by (auto simp: get_node_def ag_inv_def)
  next
    case (Some p)
    obtain k j where [simp]: "p = (k, j)" by (cases p)
    show ?thesis using Some look find_zip_Some [of "\<lambda>k. dep_key k = dep_key n" ?ns k j] assms(3) by (auto simp: get_node_def)
  qed
qed

interpretation ag: interner dep_key "dn_valid ar" "get_node pg H" "\<lambda>g. pg_nodes pg (ag_graph g)" "ag_inv pg ar" for pg H ar
proof
  fix s n i s' assume a: "ag_inv pg ar s" "dn_valid ar n" "get_node pg H n s = (i, s')"
  note c = get_node_cases [OF a]
  show "ag_inv pg ar s'" using c a(1,2) by (auto simp: ag_inv_def)
  show "pg_nodes pg (ag_graph s') = pg_nodes pg (ag_graph s) \<or> pg_nodes pg (ag_graph s') = pg_nodes pg (ag_graph s) @ [n]" using c by blast
  show "i < length (pg_nodes pg (ag_graph s')) \<and> dep_key (pg_nodes pg (ag_graph s') ! i) = dep_key n" using c by auto
qed (simp add: ag_inv_def)

lemma get_node_edges:
  "ag_inv pg ar g \<Longrightarrow> dn_valid ar n \<Longrightarrow> get_node pg H n g = (i, g') \<Longrightarrow> pg_edges pg (ag_graph g') = pg_edges pg (ag_graph g)"
  using get_node_cases by blast

subsection \<open>Nodes and edges of the graph\<close>

text \<open>The kinds of nodes an edge joins.\<close>

definition edge_typed :: "dep_node \<times> dep_node \<times> dep_edge \<Rightarrow> bool" where
  "edge_typed = (\<lambda>(x, y, e). case e of
       De_Arg _ \<Rightarrow> (\<exists>w d. x = Dn_Ty w \<and> y = Dn_Api d)
     | De_Ret \<Rightarrow> (\<exists>w d. x = Dn_Api d \<and> y = Dn_Ty w)
     | De_Fn2Generic \<Rightarrow> (\<exists>d i s l. x = Dn_Api d \<and> y = Dn_Generic d i s l))"

text \<open>Nodes and edges up to the keys of the nodes, and the invariant of the graph.\<close>

definition dep_keys :: "'g petgraph \<Rightarrow> 'g api_graph \<Rightarrow> dep_node set" where
  "dep_keys pg g = dep_key ` set (pg_nodes pg (ag_graph g))"

definition dep_edges :: "'g petgraph \<Rightarrow> 'g api_graph \<Rightarrow> (dep_node \<times> dep_node \<times> dep_edge) set" where
  "dep_edges pg g = (\<lambda>(a, b, e). (dep_key (pg_nodes pg (ag_graph g) ! a), dep_key (pg_nodes pg (ag_graph g) ! b), e)) ` set (pg_edges pg (ag_graph g))"

definition graph_inv :: "'g petgraph \<Rightarrow> (def_id \<Rightarrow> nat) \<Rightarrow> 'g api_graph \<Rightarrow> bool" where
  "graph_inv pg ar g \<longleftrightarrow> ag_inv pg ar g \<and>
     (\<forall>(a, b, e)\<in>set (pg_edges pg (ag_graph g)). a < length (pg_nodes pg (ag_graph g)) \<and> b < length (pg_nodes pg (ag_graph g))) \<and>
     (\<forall>x\<in>dep_edges pg g. edge_typed x)"

text \<open>A later graph, with the nodes and edges that were added.\<close>

definition grows :: "'g petgraph \<Rightarrow> (def_id \<Rightarrow> nat) \<Rightarrow> dep_node set \<Rightarrow> (dep_node \<times> dep_node \<times> dep_edge) set \<Rightarrow> 'g api_graph \<Rightarrow> 'g api_graph \<Rightarrow> bool" where
  "grows pg ar N E g g' \<longleftrightarrow> graph_inv pg ar g' \<and> (\<exists>ext. pg_nodes pg (ag_graph g') = pg_nodes pg (ag_graph g) @ ext) \<and>
     dep_keys pg g' = dep_keys pg g \<union> N \<and> dep_edges pg g' = dep_edges pg g \<union> E"

lemma grows_refl: "graph_inv pg ar g \<Longrightarrow> grows pg ar {} {} g g"
  by (simp add: grows_def)

lemma grows_trans: "grows pg ar N E g g' \<Longrightarrow> grows pg ar N' E' g' g'' \<Longrightarrow> grows pg ar (N \<union> N') (E \<union> E') g g''"
  by (auto simp: grows_def)

lemma dep_edges_ext:
  assumes "graph_inv pg ar g" "pg_nodes pg (ag_graph g') = pg_nodes pg (ag_graph g) @ ext" "pg_edges pg (ag_graph g') = pg_edges pg (ag_graph g)"
  shows "dep_edges pg g' = dep_edges pg g"
  using assms by (force simp: graph_inv_def dep_edges_def nth_append intro!: image_cong)

lemma get_node_grows:
  assumes "graph_inv pg ar g" "dn_valid ar n" "get_node pg H n g = (i, g')"
  shows "grows pg ar {dep_key n} {} g g'" "i < length (pg_nodes pg (ag_graph g'))" "dep_key (pg_nodes pg (ag_graph g') ! i) = dep_key n"
proof -
  have inv: "ag_inv pg ar g" using assms(1) by (simp add: graph_inv_def)
  note a = inv assms(2,3)
  show "i < length (pg_nodes pg (ag_graph g'))" "dep_key (pg_nodes pg (ag_graph g') ! i) = dep_key n" using ag.get_index [OF a] by auto
  obtain ext where ext: "pg_nodes pg (ag_graph g') = pg_nodes pg (ag_graph g) @ ext" using ag.get_nodes [OF a] by (metis append_Nil2)
  have e: "dep_edges pg g' = dep_edges pg g" using dep_edges_ext [OF assms(1) ext get_node_edges [OF a]] .
  then have "graph_inv pg ar g'" using assms(1) ag.get_inv [OF a] get_node_edges [OF a] ext by (fastforce simp: graph_inv_def)
  then show "grows pg ar {dep_key n} {} g g'" using ext e ag.get_keys [OF a] by (auto simp: grows_def dep_keys_def)
qed

lemma add_edge_grows:
  assumes "graph_inv pg ar g" "a < length (pg_nodes pg (ag_graph g))" "b < length (pg_nodes pg (ag_graph g))"
    and "edge_typed (dep_key (pg_nodes pg (ag_graph g) ! a), dep_key (pg_nodes pg (ag_graph g) ! b), e)"
  shows "ok (grows pg ar {} {(dep_key (pg_nodes pg (ag_graph g) ! a), dep_key (pg_nodes pg (ag_graph g) ! b), e)} g) (add_edge pg a b e g)"
proof -
  have pg: "petgraph_ok pg" using assms(1) by (simp add: graph_inv_def ag_inv_def)
  obtain gr where gr: "pg_add_edge pg (ag_graph g) a b e = Inr gr" "pg_nodes pg gr = pg_nodes pg (ag_graph g)"
    "pg_edges pg gr = pg_edges pg (ag_graph g) @ [(a, b, e)]" using petgraph_edge [OF pg assms(2,3)] by metis
  let ?g = "g\<lparr>ag_graph := gr\<rparr>"
  have e: "dep_edges pg ?g = dep_edges pg g \<union> {(dep_key (pg_nodes pg (ag_graph g) ! a), dep_key (pg_nodes pg (ag_graph g) ! b), e)}"
    by (auto simp: dep_edges_def gr(2,3))
  then have "graph_inv pg ar ?g" using assms by (auto simp: graph_inv_def ag_inv_def gr(2,3))
  then show ?thesis using e by (simp add: add_edge_def gr grows_def dep_keys_def)
qed

lemma add_edge_once_grows:
  assumes "graph_inv pg ar g" "a < length (pg_nodes pg (ag_graph g))" "b < length (pg_nodes pg (ag_graph g))"
    and "dep_key (pg_nodes pg (ag_graph g) ! a) = Dn_Api d" "dep_key (pg_nodes pg (ag_graph g) ! b) = Dn_Generic d i s l"
  shows "ok (grows pg ar {} {(Dn_Api d, Dn_Generic d i s l, De_Fn2Generic)} g) (add_edge_once pg a b De_Fn2Generic g)"
proof (cases "pg_contains_edge pg (ag_graph g) a b")
  case True
  then obtain e where "(a, b, e) \<in> set (pg_edges pg (ag_graph g))"
    using petgraph_contains assms(1) by (metis ag_inv_def graph_inv_def)
  then have "(Dn_Api d, Dn_Generic d i s l, e) \<in> dep_edges pg g" using assms(4,5) by (force simp: dep_edges_def)
  moreover from this have "edge_typed (Dn_Api d, Dn_Generic d i s l, e)" using assms(1) unfolding graph_inv_def by blast
  then have "e = De_Fn2Generic" by (auto simp: edge_typed_def split: dep_edge.splits)
  ultimately show ?thesis using True assms(1) by (auto simp: add_edge_once_def grows_def)
next
  case False
  then show ?thesis using add_edge_grows [OF assms(1-3)] assms(4,5) by (simp add: add_edge_once_def edge_typed_def)
qed

subsection \<open>The signature of a function in the graph\<close>

definition fn_generics :: "api_fn \<Rightarrow> dep_node set" where
  "fn_generics f = (\<lambda>(i, s, l). Dn_Generic (af_def_id f) i s l) ` set (early_generics f @ late_generics f)"

definition fn_keys :: "api_fn \<Rightarrow> dep_node set" where
  "fn_keys f = {Dn_Api (af_def_id f)} \<union> fn_generics f \<union>
     (\<lambda>t. Dn_Ty (ty_wrapper_from (erase_ty t))) ` set (af_inputs f @ [af_output f])"

definition fn_edges :: "api_fn \<Rightarrow> (dep_node \<times> dep_node \<times> dep_edge) set" where
  "fn_edges f = (\<lambda>n. (Dn_Api (af_def_id f), n, De_Fn2Generic)) ` fn_generics f \<union>
     (\<lambda>(no, t). (Dn_Ty (ty_wrapper_from (erase_ty t)), Dn_Api (af_def_id f), De_Arg no)) ` set (enumerate 0 (af_inputs f)) \<union>
     {(Dn_Api (af_def_id f), Dn_Ty (ty_wrapper_from (erase_ty (af_output f))), De_Ret)}"

definition fn_wf :: "(def_id \<Rightarrow> nat) \<Rightarrow> api_fn \<Rightarrow> bool" where
  "fn_wf ar f \<longleftrightarrow> (\<forall>t\<in>set (af_inputs f @ [af_output f]). wf_aty ar t)"

text \<open>The node of the function keeps its index while the rest is added.\<close>

definition at_api :: "'g petgraph \<Rightarrow> nat \<Rightarrow> def_id \<Rightarrow> 'g api_graph \<Rightarrow> bool" where
  "at_api pg a d g \<longleftrightarrow> a < length (pg_nodes pg (ag_graph g)) \<and> dep_key (pg_nodes pg (ag_graph g) ! a) = Dn_Api d"

lemma at_api_grows: "at_api pg a d g \<Longrightarrow> grows pg ar N E g g' \<Longrightarrow> at_api pg a d g'"
  by (auto simp: at_api_def grows_def nth_append)

lemma dep_key_simps [simp]:
  "dep_key (Dn_Api d) = Dn_Api d" "dep_key (Dn_Generic d i s l) = Dn_Generic d i s l"
  "dep_key (Dn_Ty (ty_wrapper_from t)) = Dn_Ty (ty_wrapper_from (erase_ty t))"
  by (simp_all add: dep_key_def ty_wrapper_from_def)

lemma dn_valid_simps [simp]:
  "dn_valid ar (Dn_Api d)" "dn_valid ar (Dn_Generic d i s l)" "dn_valid ar (Dn_Ty (ty_wrapper_from t)) \<longleftrightarrow> wf_aty ar t"
  by (simp_all add: dn_valid_def ty_wrapper_from_def)

lemma ok_grows_trans:
  assumes "grows pg ar N E g g'" "ok (grows pg ar N' E' g') r" "N \<union> N' = M" "E \<union> E' = F"
  shows "ok (grows pg ar M F g) r"
  using assms(2) by (rule ok_mono) (use assms grows_trans in blast)

lemma add_generic_ok:
  assumes "graph_inv pg ar g" "at_api pg a d g"
  shows "ok (grows pg ar {Dn_Generic d i s l} {(Dn_Api d, Dn_Generic d i s l, De_Fn2Generic)} g) (add_generic pg H a d (i, s, l) g)"
proof -
  obtain j g' where j: "get_node pg H (Dn_Generic d i s l) g = (j, g')" by fastforce
  note g' = get_node_grows [OF assms(1) dn_valid_simps(2) j, simplified]
  have "at_api pg a d g'" using at_api_grows [OF assms(2) g'(1)] .
  then have "ok (grows pg ar {} {(Dn_Api d, Dn_Generic d i s l, De_Fn2Generic)} g') (add_edge_once pg a j De_Fn2Generic g')"
    using g' by (intro add_edge_once_grows) (auto simp: grows_def at_api_def)
  then show ?thesis using ok_grows_trans [OF g'(1)] by (simp add: add_generic_def j)
qed

lemma add_input_ok:
  assumes "graph_inv pg ar g" "at_api pg a d g" "wf_aty ar t"
  shows "ok (grows pg ar {Dn_Ty (ty_wrapper_from (erase_ty t))} {(Dn_Ty (ty_wrapper_from (erase_ty t)), Dn_Api d, De_Arg no)} g)
     (add_input pg H a (no, t) g)"
proof -
  obtain j g' where j: "get_node pg H (Dn_Ty (ty_wrapper_from t)) g = (j, g')" by fastforce
  have v: "dn_valid ar (Dn_Ty (ty_wrapper_from t))" using assms(3) by simp
  note g' = get_node_grows [OF assms(1) v j, simplified]
  have a: "at_api pg a d g'" using at_api_grows [OF assms(2) g'(1)] .
  have "graph_inv pg ar g'" using g'(1) by (simp add: grows_def)
  from add_edge_grows [OF this g'(2), of a "De_Arg no"]
  have "ok (grows pg ar {} {(Dn_Ty (ty_wrapper_from (erase_ty t)), Dn_Api d, De_Arg no)} g') (add_edge pg j a (De_Arg no) g')"
    using a g'(3) by (simp add: at_api_def edge_typed_def)
  then show ?thesis using ok_grows_trans [OF g'(1)] by (simp add: add_input_def j)
qed

lemma add_all_ok:
  assumes "graph_inv pg ar g" "at_api pg a d g"
    and "\<And>x g. x \<in> set xs \<Longrightarrow> graph_inv pg ar g \<Longrightarrow> at_api pg a d g \<Longrightarrow> ok (grows pg ar {N x} {E x} g) (f x g)"
  shows "ok (grows pg ar (N ` set xs) (E ` set xs) g) (rfold f xs g)"
  using assms
proof (induction xs arbitrary: g)
  case Nil
  then show ?case by (simp add: grows_refl)
next
  case (Cons x xs)
  show ?case unfolding rfold.simps
  proof (rule ok_rbindI)
    show "ok (grows pg ar {N x} {E x} g) (f x g)" using Cons.prems by simp
    fix g' assume g': "grows pg ar {N x} {E x} g g'"
    have "ok (grows pg ar (N ` set xs) (E ` set xs) g') (rfold f xs g')"
      using g' Cons.prems at_api_grows [OF Cons.prems(2) g'] by (intro Cons.IH) (auto simp: grows_def)
    then show "ok (grows pg ar (N ` set (x # xs)) (E ` set (x # xs)) g) (rfold f xs g')"
      using ok_grows_trans [OF g'] by simp
  qed
qed

lemma add_generics_ok:
  assumes "graph_inv pg ar g" "at_api pg a d g"
  shows "ok (grows pg ar ((\<lambda>(i, s, l). Dn_Generic d i s l) ` set xs)
     ((\<lambda>n. (Dn_Api d, n, De_Fn2Generic)) ` (\<lambda>(i, s, l). Dn_Generic d i s l) ` set xs) g) (rfold (add_generic pg H a d) xs g)"
  unfolding image_image using assms add_generic_ok by (intro add_all_ok) (auto split: prod.split)

lemma add_inputs_ok:
  assumes "graph_inv pg ar g" "at_api pg a d g" "\<And>t. t \<in> set ts \<Longrightarrow> wf_aty ar t"
  shows "ok (grows pg ar ((\<lambda>t. Dn_Ty (ty_wrapper_from (erase_ty t))) ` set ts)
     ((\<lambda>(no, t). (Dn_Ty (ty_wrapper_from (erase_ty t)), Dn_Api d, De_Arg no)) ` set (enumerate 0 ts)) g)
     (rfold (add_input pg H a) (enumerate 0 ts) g)"
proof -
  have "snd ` set (enumerate 0 ts) = set ts" by (metis list.set_map map_snd_enumerate)
  then have keys: "(\<lambda>t. Dn_Ty (ty_wrapper_from (erase_ty t))) ` set ts = (\<lambda>x. Dn_Ty (ty_wrapper_from (erase_ty (snd x)))) ` set (enumerate 0 ts)"
    by (metis image_image)
  have wf: "wf_aty ar t" if "(no, t) \<in> set (enumerate 0 ts)" for no t
    using that assms(3) by (auto simp: enumerate_eq_zip dest: set_zip_rightD)
  show ?thesis unfolding keys
  proof (rule add_all_ok [OF assms(1,2)])
    fix x g assume x: "x \<in> set (enumerate 0 ts)" and g: "graph_inv pg ar g" "at_api pg a d g"
    obtain no t where xt: "x = (no, t)" by (cases x)
    have "wf_aty ar t" using wf [of no t] x xt by simp
    then show "ok (grows pg ar {Dn_Ty (ty_wrapper_from (erase_ty (snd x)))}
        {case x of (no, t) \<Rightarrow> (Dn_Ty (ty_wrapper_from (erase_ty t)), Dn_Api d, De_Arg no)} g) (add_input pg H a x g)"
      using add_input_ok [OF g] xt by simp
  qed
qed

lemma add_output_ok:
  assumes "graph_inv pg ar g" "at_api pg a d g" "wf_aty ar t" "get_node pg H (Dn_Ty (ty_wrapper_from t)) g = (b, g')"
  shows "ok (grows pg ar {Dn_Ty (ty_wrapper_from (erase_ty t))} {(Dn_Api d, Dn_Ty (ty_wrapper_from (erase_ty t)), De_Ret)} g) (add_edge pg a b De_Ret g')"
proof -
  have v: "dn_valid ar (Dn_Ty (ty_wrapper_from t))" using assms(3) by simp
  note g' = get_node_grows [OF assms(1) v assms(4), simplified]
  have a: "at_api pg a d g'" using at_api_grows [OF assms(2) g'(1)] .
  have "graph_inv pg ar g'" using g'(1) by (simp add: grows_def)
  from add_edge_grows [OF this _ g'(2), of a De_Ret]
  have "ok (grows pg ar {} {(Dn_Api d, Dn_Ty (ty_wrapper_from (erase_ty t)), De_Ret)} g') (add_edge pg a b De_Ret g')"
    using a g'(3) by (simp add: at_api_def edge_typed_def)
  then show ?thesis using ok_grows_trans [OF g'(1)] by simp
qed

lemma okE: "ok P r \<Longrightarrow> (\<And>x. r = Inr x \<Longrightarrow> P x \<Longrightarrow> thesis) \<Longrightarrow> thesis"
  by (auto simp: ok_def)

lemma visit_fn_ok:
  assumes "graph_inv pg ar (fv_graph v)" "fn_wf ar f" "ac_sub cx (af_def_id f) \<noteq> None"
  shows "ok (\<lambda>v'. grows pg ar (fn_keys f) (fn_edges f) (fv_graph v) (fv_graph v')) (visit_fn pg H cx f v)"
proof -
  let ?d = "af_def_id f" and ?T = "\<lambda>t. Dn_Ty (ty_wrapper_from (erase_ty t))"
  let ?G = "\<lambda>xs. (\<lambda>(i, s, l). Dn_Generic ?d i s l) ` set xs"
  let ?gen = "\<lambda>xs. grows pg ar (?G xs) ((\<lambda>n. (Dn_Api ?d, n, De_Fn2Generic)) ` ?G xs)"
  have inv: "graph_inv pg ar g'" if "grows pg ar N E g g'" for N E and g g' :: "'a api_graph" using that by (simp add: grows_def)
  obtain a g0 where a: "get_node pg H (Dn_Api ?d) (fv_graph v) = (a, g0)" by fastforce
  note g0 = get_node_grows [OF assms(1) dn_valid_simps(1) a, simplified]
  have at0: "at_api pg a ?d g0" using g0 by (simp add: at_api_def)
  obtain g1 where g1: "rfold (add_generic pg H a ?d) (early_generics f) g0 = Inr g1" and e1: "?gen (early_generics f) g0 g1"
    by (rule okE [OF add_generics_ok [OF inv [OF g0(1)] at0]])
  have at1: "at_api pg a ?d g1" using at_api_grows [OF at0 e1] .
  obtain g2 where g2: "rfold (add_generic pg H a ?d) (late_generics f) g1 = Inr g2" and e2: "?gen (late_generics f) g1 g2"
    by (rule okE [OF add_generics_ok [OF inv [OF e1] at1]])
  have at2: "at_api pg a ?d g2" using at_api_grows [OF at1 e2] .
  have wf: "wf_aty ar t" if "t \<in> set (af_inputs f)" for t using that assms(2) by (simp add: fn_wf_def)
  obtain g3 where g3: "rfold (add_input pg H a) (enumerate 0 (af_inputs f)) g2 = Inr g3" 
    and e3: "grows pg ar (?T ` set (af_inputs f)) ((\<lambda>(no, t). (?T t, Dn_Api ?d, De_Arg no)) ` set (enumerate 0 (af_inputs f))) g2 g3"
    by (rule okE [OF add_inputs_ok [OF inv [OF e2] at2 wf]])
  have at3: "at_api pg a ?d g3" using at_api_grows [OF at2 e3] .
  obtain b g4 where b: "get_node pg H (Dn_Ty (ty_wrapper_from (af_output f))) g3 = (b, g4)" by fastforce
  have wo: "wf_aty ar (af_output f)" using assms(2) by (simp add: fn_wf_def)
  obtain g5 where g5: "add_edge pg a b De_Ret g4 = Inr g5" 
    and e5: "grows pg ar {?T (af_output f)} {(Dn_Api ?d, ?T (af_output f), De_Ret)} g3 g5"
    by (rule okE [OF add_output_ok [OF inv [OF e3] at3 wo b]])
  obtain cs where cs: "extract_constraints cx ?d = Inr cs" using assms(3) by (auto simp: extract_constraints_def)
  have "grows pg ar (fn_keys f) (fn_edges f) (fv_graph v) g5"
    using grows_trans [OF grows_trans [OF grows_trans [OF grows_trans [OF g0(1) e1] e2] e3] e5]
    unfolding fn_keys_def fn_edges_def fn_generics_def by (simp add: image_Un Un_ac insert_commute)
  then show ?thesis by (simp add: visit_fn_def a g1 g2 cs g3 b g5 Let_def)
qed

lemma visit_all_ok:
  assumes "graph_inv pg ar (fv_graph v)" "\<And>f. f \<in> set fs \<Longrightarrow> fn_wf ar f \<and> ac_sub cx (af_def_id f) \<noteq> None"
  shows "ok (\<lambda>v'. grows pg ar (\<Union>f\<in>set fs. fn_keys f) (\<Union>f\<in>set fs. fn_edges f) (fv_graph v) (fv_graph v')) (rfold (visit_fn pg H cx) fs v)"
  using assms
proof (induction fs arbitrary: v)
  case Nil
  then show ?case by (simp add: grows_refl)
next
  case (Cons f fs)
  show ?case unfolding rfold.simps
  proof (rule ok_rbindI)
    show "ok (\<lambda>v'. grows pg ar (fn_keys f) (fn_edges f) (fv_graph v) (fv_graph v')) (visit_fn pg H cx f v)"
      using Cons.prems by (intro visit_fn_ok) auto
    fix v' :: "'a fn_visitor" assume v': "grows pg ar (fn_keys f) (fn_edges f) (fv_graph v) (fv_graph v')"
    then have "graph_inv pg ar (fv_graph v')" by (simp add: grows_def)
    then have "ok (\<lambda>u. grows pg ar (\<Union>f\<in>set fs. fn_keys f) (\<Union>f\<in>set fs. fn_edges f) (fv_graph v') (fv_graph u)) (rfold (visit_fn pg H cx) fs v')"
      using Cons by auto
    then show "ok (\<lambda>u. grows pg ar (\<Union>f\<in>set (f # fs). fn_keys f) (\<Union>f\<in>set (f # fs). fn_edges f) (fv_graph v) (fv_graph u)) (rfold (visit_fn pg H cx) fs v')"
      by (rule ok_mono) (use grows_trans [OF v'] in auto)
  qed
qed

lemma graph_inv_new: "petgraph_ok pg \<Longrightarrow> graph_inv pg ar (api_graph_new pg) \<and> dep_keys pg (api_graph_new pg) = {} \<and> dep_edges pg (api_graph_new pg) = {}"
  by (auto simp: graph_inv_def ag_inv_def api_graph_new_def dep_keys_def dep_edges_def dest: petgraph_new)

lemma api_dep_start_ok:
  assumes "petgraph_ok pg" "\<And>f. f \<in> set (ac_fns cx) \<Longrightarrow> fn_wf ar f \<and> ac_sub cx (af_def_id f) \<noteq> None"
  shows "ok (\<lambda>(g, st). graph_inv pg ar g \<and> st = statistics pg g \<and>
     dep_keys pg g = (\<Union>f\<in>set (ac_fns cx). fn_keys f) \<and> dep_edges pg g = (\<Union>f\<in>set (ac_fns cx). fn_edges f)) (api_dep_start pg H cx)"
  unfolding api_dep_start_def
proof (rule ok_rbindI)
  let ?v = "fn_visitor_new (api_graph_new pg)"
  have "graph_inv pg ar (fv_graph ?v)" using graph_inv_new [OF assms(1)] by (simp add: fn_visitor_new_def)
  then show "ok (\<lambda>v'. grows pg ar (\<Union>f\<in>set (ac_fns cx). fn_keys f) (\<Union>f\<in>set (ac_fns cx). fn_edges f) (fv_graph ?v) (fv_graph v'))
      (rfold (visit_fn pg H cx) (ac_fns cx) ?v)" using assms(2) by (rule visit_all_ok)
qed (use graph_inv_new [OF assms(1), of ar] in \<open>auto simp: grows_def fn_visitor_new_def\<close>)

text \<open>C32: Whatever the hash function, if petgraph behaves as documented, every ADT in a signature has its number of
  arguments and the signatures are subtypes of their copies, building the API graph returns. No two of its nodes are equal up to
  lifetimes; its nodes are, up to lifetimes, exactly the functions, their early and late bound generic parameters and the types of
  their arguments and results; and its edges exactly those from functions to their parameters, from the types of arguments with their
  positions to functions, and from functions to the types of results.\<close>

theorem api_graph_exact:
  assumes "petgraph_ok pg" and "\<And>f. f \<in> set (ac_fns cx) \<Longrightarrow> fn_wf ar f \<and> ac_sub cx (af_def_id f) \<noteq> None"
  shows "\<exists>g. api_dep_start pg H cx = Inr (g, statistics pg g) \<and> distinct (map dep_key (pg_nodes pg (ag_graph g))) \<and>
     dep_keys pg g = (\<Union>f\<in>set (ac_fns cx). fn_keys f) \<and> dep_edges pg g = (\<Union>f\<in>set (ac_fns cx). fn_edges f)"
  using api_dep_start_ok [OF assms, where H = H] by (auto simp: ok_def graph_inv_def ag_inv_def)

text \<open>C33: In the graph that is built every edge joins existing nodes of the kinds its label says: an
  argument edge leads from a type to a function, a result edge from a function to a type, and a parameter edge from a function
  to one of its own generic parameters.\<close>

theorem api_graph_typed:
  assumes "petgraph_ok pg" and "\<And>f. f \<in> set (ac_fns cx) \<Longrightarrow> fn_wf ar f \<and> ac_sub cx (af_def_id f) \<noteq> None"
    and "api_dep_start pg H cx = Inr (g, st)" "(a, b, e) \<in> set (pg_edges pg (ag_graph g))"
  shows "a < length (pg_nodes pg (ag_graph g)) \<and> b < length (pg_nodes pg (ag_graph g)) \<and>
     (case e of
        De_Arg _ \<Rightarrow> (\<exists>w d. pg_nodes pg (ag_graph g) ! a = Dn_Ty w \<and> pg_nodes pg (ag_graph g) ! b = Dn_Api d)
      | De_Ret \<Rightarrow> (\<exists>d w. pg_nodes pg (ag_graph g) ! a = Dn_Api d \<and> pg_nodes pg (ag_graph g) ! b = Dn_Ty w)
      | De_Fn2Generic \<Rightarrow> (\<exists>d i s l. pg_nodes pg (ag_graph g) ! a = Dn_Api d \<and> pg_nodes pg (ag_graph g) ! b = Dn_Generic d i s l))"
proof -
  have inv: "graph_inv pg ar g" using api_dep_start_ok [OF assms(1,2), where H = H] assms(3) by simp
  then have bounds: "a < length (pg_nodes pg (ag_graph g))" "b < length (pg_nodes pg (ag_graph g))" using assms(4) by (auto simp: graph_inv_def)
  let ?x = "pg_nodes pg (ag_graph g) ! a" and ?y = "pg_nodes pg (ag_graph g) ! b"
  have "(dep_key ?x, dep_key ?y, e) \<in> dep_edges pg g" using assms(4) by (force simp: dep_edges_def)
  then have "edge_typed (dep_key ?x, dep_key ?y, e)" using inv unfolding graph_inv_def by blast
  then show ?thesis using bounds
    by (cases ?x; cases ?y) (auto simp: edge_typed_def dep_key_def split: dep_edge.splits)
qed

subsection \<open>A concrete graph\<close>

text \<open>Lists of nodes and edges behave as the package promises.\<close>

definition list_petgraph :: "(dep_node list \<times> (nat \<times> nat \<times> dep_edge) list) petgraph" where
  "list_petgraph =
     \<lparr>pg_new = ([], []), pg_add_node = (\<lambda>(ns, es) n. (length ns, ns @ [n], es)),
      pg_add_edge = (\<lambda>(ns, es) a b e. if a < length ns \<and> b < length ns then Inr (ns, es @ [(a, b, e)]) else Inl Out_of_bounds),
      pg_contains_edge = (\<lambda>(ns, es) a b. list_ex (\<lambda>(a', b', _). a' = a \<and> b' = b) es), pg_nodes = fst, pg_edges = snd\<rparr>"

lemma list_petgraph_ok: "petgraph_ok list_petgraph"
  by (auto simp: petgraph_ok_def list_petgraph_def list_ex_iff)

text \<open>A function with a lifetime parameter, two arguments that differ in a region only, and a result.\<close>

definition demo_acx :: acx where
  "demo_acx = \<lparr>ac_fns = [\<lparr>af_def_id = 5, af_early = [(''T'', True)], af_bound_vars = [Bv_Region (Some ''a'')],
       af_inputs = [At_Ref 1 (At_Other 0) Mut, At_Ref 2 (At_Other 0) Mut], af_output = At_Adt 9 [Aa_Type (At_Other 3)]\<rparr>],
     ac_sub = (\<lambda>_. Some [Var_Sub_Var 0 1])\<rparr>"

lemma demo_acx_wf: "f \<in> set (ac_fns demo_acx) \<Longrightarrow> fn_wf (\<lambda>_. 1) f \<and> ac_sub demo_acx (af_def_id f) \<noteq> None"
  by (auto simp: demo_acx_def fn_wf_def)

theorem api_graph_exact_witness:
  "\<exists>g. api_dep_start list_petgraph length demo_acx = Inr (g, statistics list_petgraph g) \<and>
     distinct (map dep_key (pg_nodes list_petgraph (ag_graph g))) \<and>
     dep_keys list_petgraph g = (\<Union>f\<in>set (ac_fns demo_acx). fn_keys f) \<and>
     dep_edges list_petgraph g = (\<Union>f\<in>set (ac_fns demo_acx). fn_edges f)"
  by (rule api_graph_exact [OF list_petgraph_ok demo_acx_wf])

lemma demo_acx_graph:
  "\<exists>g st. api_dep_start list_petgraph length demo_acx = Inr (g, st) \<and> length (pg_nodes list_petgraph (ag_graph g)) = 5 \<and>
     (3, 0, De_Arg 1) \<in> set (pg_edges list_petgraph (ag_graph g))"
proof -
  have "\<not> isl (api_dep_start list_petgraph length demo_acx)" by code_simp
  moreover have "length (pg_nodes list_petgraph (ag_graph (fst (projr (api_dep_start list_petgraph length demo_acx))))) = 5" by code_simp
  moreover have "(3, 0, De_Arg 1) \<in> set (pg_edges list_petgraph (ag_graph (fst (projr (api_dep_start list_petgraph length demo_acx)))))" by code_simp
  ultimately show ?thesis by (cases "api_dep_start list_petgraph length demo_acx") auto
qed

theorem api_graph_typed_witness:
  "\<exists>g st. api_dep_start list_petgraph length demo_acx = Inr (g, st) \<and>
     (\<exists>w d. pg_nodes list_petgraph (ag_graph g) ! 3 = Dn_Ty w \<and> pg_nodes list_petgraph (ag_graph g) ! 0 = Dn_Api d)"
proof -
  obtain g st where g: "api_dep_start list_petgraph length demo_acx = Inr (g, st)" "(3, 0, De_Arg 1) \<in> set (pg_edges list_petgraph (ag_graph g))"
    using demo_acx_graph by blast
  from api_graph_typed [OF list_petgraph_ok demo_acx_wf g] g(1) show ?thesis by auto
qed

end
