(* ===== verification/Driver.thy ===== *)
theory Driver
  imports Uig_Units
begin

section \<open>The compiler driver\<close>

text \<open>
  \<^verbatim>\<open>lib.rs\<close> and \<^verbatim>\<open>bin/rapx.rs\<close>: the options select the analyses that run after the compiler has analysed the crate; all other arguments go to
  the compiler. Running an analysis is the parameter \<open>run\<close>, running the compiler the parameter \<open>compile\<close>.
\<close>

subsection \<open>Options\<close>

record rap_callback =
  rb_rcanary :: bool
  rb_safedrop :: bool
  rb_annotation :: bool
  rb_unsafety_isolation :: nat
  rb_mop :: bool
  rb_callgraph :: bool
  rb_api_dep :: bool
  rb_show_mir :: bool
  rb_dataflow :: nat
  rb_opt :: bool
  rb_heap_item :: bool

definition rap_callback_default :: rap_callback where
  "rap_callback_default =
     \<lparr>rb_rcanary = False, rb_safedrop = False, rb_annotation = False, rb_unsafety_isolation = 0, rb_mop = False, rb_callgraph = False,
      rb_api_dep = False, rb_show_mir = False, rb_dataflow = 0, rb_opt = False, rb_heap_item = False\<rparr>"

definition enable_rcanary :: "rap_callback \<Rightarrow> rap_callback" where "enable_rcanary cb = cb\<lparr>rb_rcanary := True\<rparr>"

definition enable_mop :: "rap_callback \<Rightarrow> rap_callback" where "enable_mop cb = cb\<lparr>rb_mop := True\<rparr>"

definition enable_safedrop :: "rap_callback \<Rightarrow> rap_callback" where "enable_safedrop cb = cb\<lparr>rb_safedrop := True\<rparr>"

definition enable_unsafety_isolation :: "nat \<Rightarrow> rap_callback \<Rightarrow> rap_callback" where
  "enable_unsafety_isolation x cb = cb\<lparr>rb_unsafety_isolation := x\<rparr>"

definition enable_api_dep :: "rap_callback \<Rightarrow> rap_callback" where "enable_api_dep cb = cb\<lparr>rb_api_dep := True\<rparr>"

definition enable_annotation :: "rap_callback \<Rightarrow> rap_callback" where "enable_annotation cb = cb\<lparr>rb_annotation := True\<rparr>"

definition enable_callgraph :: "rap_callback \<Rightarrow> rap_callback" where "enable_callgraph cb = cb\<lparr>rb_callgraph := True\<rparr>"

definition enable_show_mir :: "rap_callback \<Rightarrow> rap_callback" where "enable_show_mir cb = cb\<lparr>rb_show_mir := True\<rparr>"

definition enable_dataflow :: "nat \<Rightarrow> rap_callback \<Rightarrow> rap_callback" where "enable_dataflow x cb = cb\<lparr>rb_dataflow := x\<rparr>"

definition enable_opt :: "rap_callback \<Rightarrow> rap_callback" where "enable_opt cb = cb\<lparr>rb_opt := True\<rparr>"

definition enable_heap_item :: "rap_callback \<Rightarrow> rap_callback" where "enable_heap_item cb = cb\<lparr>rb_heap_item := True\<rparr>"

lemmas enable_defs = enable_rcanary_def enable_mop_def enable_safedrop_def enable_unsafety_isolation_def enable_api_dep_def
  enable_annotation_def enable_callgraph_def enable_show_mir_def enable_dataflow_def enable_opt_def enable_heap_item_def

text \<open>One argument: the change of the options, if it is one of them.\<close>

definition rapx_option :: "string \<Rightarrow> (rap_callback \<Rightarrow> rap_callback) option" where
  "rapx_option arg =
     (if arg \<in> {''-F'', ''-uaf''} then Some enable_safedrop
      else if arg \<in> {''-M'', ''-mleak''} then Some enable_rcanary
      else if arg \<in> {''-I'', ''-infer''} then Some enable_annotation
      else if arg \<in> {''-V'', ''-verify''} then Some enable_annotation
      else if arg \<in> {''-O'', ''-opt''} then Some enable_opt
      else if arg = ''-alias'' then Some enable_mop
      else if arg = ''-heap'' then Some enable_heap_item
      else if arg = ''-adg'' then Some enable_api_dep
      else if arg = ''-callgraph'' then Some enable_callgraph
      else if arg = ''-dataflow'' then Some (enable_dataflow 1)
      else if arg = ''-dataflow=debug'' then Some (enable_dataflow 2)
      else if arg = ''-stdsp'' then Some (enable_unsafety_isolation 1)
      else if arg = ''-doc'' then Some (enable_unsafety_isolation 2)
      else if arg = ''-upg'' then Some (enable_unsafety_isolation 3)
      else if arg = ''-ucons'' then Some (enable_unsafety_isolation 4)
      else if arg = ''-mir'' then Some enable_show_mir
      else None)"

definition parse_args :: "string list \<Rightarrow> string list \<times> rap_callback" where
  "parse_args args = fold (\<lambda>arg (rest, cb). case rapx_option arg of Some f \<Rightarrow> (rest, f cb) | None \<Rightarrow> (rest @ [arg], cb)) args
     ([], rap_callback_default)"

definition RAP_DEFAULT_ARGS :: "string list" where
  "RAP_DEFAULT_ARGS = [''-Zalways-encode-mir'', ''-Zmir-opt-level=0'']"

text \<open>\<open>splice(1..1, ..)\<close> panics on an empty list.\<close>

definition run_complier :: "(string list \<Rightarrow> rap_callback \<Rightarrow> 'r) \<Rightarrow> string list \<Rightarrow> rap_callback \<Rightarrow> 'r res" where
  "run_complier compile args cb =
     (if args = [] then Inl Out_of_bounds else Inr (compile (take 1 args @ RAP_DEFAULT_ARGS @ drop 1 args) cb))"

definition rapx_main :: "(string list \<Rightarrow> rap_callback \<Rightarrow> 'r) \<Rightarrow> string list \<Rightarrow> 'r res" where
  "rapx_main compile args = (let (rest, cb) = parse_args args in run_complier compile rest cb)"

subsection \<open>Analyses\<close>

datatype rap_task =
    Tk_Rcanary | Tk_Mop | Tk_Safedrop | Tk_Heap_Item | Tk_Uig uig_instruction | Tk_Senryx | Tk_Show_Mir | Tk_Api_Dep | Tk_Dataflow bool
  | Tk_Callgraph | Tk_Opt

definition uig_task :: "nat \<Rightarrow> rap_task list" where
  "uig_task x =
     (if x = 1 then [Tk_Uig Ui_StdSp] else if x = 2 then [Tk_Uig Ui_Doc] else if x = 3 then [Tk_Uig Ui_Upg]
      else if x = 4 then [Tk_Uig Ui_Ucons] else [])"

definition dataflow_task :: "nat \<Rightarrow> rap_task list" where
  "dataflow_task x = (if x = 1 then [Tk_Dataflow False] else if x = 2 then [Tk_Dataflow True] else [])"

definition rap_tasks :: "rap_callback \<Rightarrow> rap_task list" where
  "rap_tasks cb =
     (if rb_rcanary cb then [Tk_Rcanary] else []) @ (if rb_mop cb then [Tk_Mop] else []) @
     (if rb_safedrop cb then [Tk_Safedrop] else []) @ (if rb_heap_item cb then [Tk_Heap_Item] else []) @
     uig_task (rb_unsafety_isolation cb) @ (if rb_annotation cb then [Tk_Senryx] else []) @
     (if rb_show_mir cb then [Tk_Show_Mir] else []) @ (if rb_api_dep cb then [Tk_Api_Dep] else []) @
     dataflow_task (rb_dataflow cb) @ (if rb_callgraph cb then [Tk_Callgraph] else []) @ (if rb_opt cb then [Tk_Opt] else [])"

definition start_analyzer :: "(rap_task \<Rightarrow> 's \<Rightarrow> 's res) \<Rightarrow> rap_callback \<Rightarrow> 's \<Rightarrow> 's res" where
  "start_analyzer run cb = rfold run (rap_tasks cb)"

subsection \<open>Properties\<close>

lemma parse_args_fold:
  "fold (\<lambda>arg (rest, cb). case rapx_option arg of Some f \<Rightarrow> (rest, f cb) | None \<Rightarrow> (rest @ [arg], cb)) args (rest, cb) =
     (rest @ filter (\<lambda>a. rapx_option a = None) args, fold (\<lambda>f. f) (List.map_filter rapx_option args) cb)"
  by (induction args arbitrary: rest cb) (auto simp: map_filter_simps split: option.split)

lemma parse_args_eq:
  "parse_args args = (filter (\<lambda>a. rapx_option a = None) args, fold (\<lambda>f. f) (List.map_filter rapx_option args) rap_callback_default)"
  by (simp add: parse_args_def parse_args_fold)

text \<open>The options that ask for an analysis. Of those of unsafety isolation and of the dataflow graph the last one counts.\<close>

definition last_among :: "string list \<Rightarrow> string list \<Rightarrow> string option" where
  "last_among opts args = find (\<lambda>a. a \<in> set opts) (rev args)"

definition uig_options :: "(string \<times> nat) list" where
  "uig_options = [(''-stdsp'', 1), (''-doc'', 2), (''-upg'', 3), (''-ucons'', 4)]"

definition dataflow_options :: "(string \<times> nat) list" where
  "dataflow_options = [(''-dataflow'', 1), (''-dataflow=debug'', 2)]"

definition uig_option_of :: "uig_instruction \<Rightarrow> string" where
  "uig_option_of i = (case i of Ui_StdSp \<Rightarrow> ''-stdsp'' | Ui_Doc \<Rightarrow> ''-doc'' | Ui_Upg \<Rightarrow> ''-upg'' | Ui_Ucons \<Rightarrow> ''-ucons'')"

definition requested :: "string list \<Rightarrow> rap_task \<Rightarrow> bool" where
  "requested args t =
     (case t of
        Tk_Rcanary \<Rightarrow> ''-M'' \<in> set args \<or> ''-mleak'' \<in> set args
      | Tk_Mop \<Rightarrow> ''-alias'' \<in> set args
      | Tk_Safedrop \<Rightarrow> ''-F'' \<in> set args \<or> ''-uaf'' \<in> set args
      | Tk_Heap_Item \<Rightarrow> ''-heap'' \<in> set args
      | Tk_Uig i \<Rightarrow> last_among (map fst uig_options) args = Some (uig_option_of i)
      | Tk_Senryx \<Rightarrow> ''-I'' \<in> set args \<or> ''-infer'' \<in> set args \<or> ''-V'' \<in> set args \<or> ''-verify'' \<in> set args
      | Tk_Show_Mir \<Rightarrow> ''-mir'' \<in> set args
      | Tk_Api_Dep \<Rightarrow> ''-adg'' \<in> set args
      | Tk_Dataflow b \<Rightarrow> last_among (map fst dataflow_options) args = Some (if b then ''-dataflow=debug'' else ''-dataflow'')
      | Tk_Callgraph \<Rightarrow> ''-callgraph'' \<in> set args
      | Tk_Opt \<Rightarrow> ''-O'' \<in> set args \<or> ''-opt'' \<in> set args)"

definition all_tasks :: "rap_task list" where
  "all_tasks = [Tk_Rcanary, Tk_Mop, Tk_Safedrop, Tk_Heap_Item, Tk_Uig Ui_StdSp, Tk_Uig Ui_Doc, Tk_Uig Ui_Upg, Tk_Uig Ui_Ucons, Tk_Senryx,
     Tk_Show_Mir, Tk_Api_Dep, Tk_Dataflow False, Tk_Dataflow True, Tk_Callgraph, Tk_Opt]"

definition options_of :: "string list \<Rightarrow> rap_callback" where
  "options_of args = snd (parse_args args)"

lemma options_of_Nil [simp]: "options_of [] = rap_callback_default"
  by (simp add: options_of_def parse_args_def)

lemma options_of_snoc [simp]: "options_of (args @ [a]) = (case rapx_option a of Some f \<Rightarrow> f (options_of args) | None \<Rightarrow> options_of args)"
  by (simp add: options_of_def parse_args_def case_prod_beta split: option.split)

lemma last_among_snoc [simp]: "last_among opts (args @ [a]) = (if a \<in> set opts then Some a else last_among opts args)"
  by (simp add: last_among_def)

lemma options_of_flags:
  "rb_rcanary (options_of args) \<longleftrightarrow> requested args Tk_Rcanary"
  "rb_mop (options_of args) \<longleftrightarrow> requested args Tk_Mop"
  "rb_safedrop (options_of args) \<longleftrightarrow> requested args Tk_Safedrop"
  "rb_heap_item (options_of args) \<longleftrightarrow> requested args Tk_Heap_Item"
  "rb_annotation (options_of args) \<longleftrightarrow> requested args Tk_Senryx"
  "rb_show_mir (options_of args) \<longleftrightarrow> requested args Tk_Show_Mir"
  "rb_api_dep (options_of args) \<longleftrightarrow> requested args Tk_Api_Dep"
  "rb_callgraph (options_of args) \<longleftrightarrow> requested args Tk_Callgraph"
  "rb_opt (options_of args) \<longleftrightarrow> requested args Tk_Opt"
  by (induction args rule: rev_induct; auto simp: requested_def rapx_option_def enable_defs rap_callback_default_def)+

lemma options_of_numbers:
  "rb_unsafety_isolation (options_of args) = (case last_among (map fst uig_options) args of Some a \<Rightarrow> the (map_of uig_options a) | None \<Rightarrow> 0)"
  "rb_dataflow (options_of args) = (case last_among (map fst dataflow_options) args of Some a \<Rightarrow> the (map_of dataflow_options a) | None \<Rightarrow> 0)"
  by (induction args rule: rev_induct;
      auto simp: uig_options_def dataflow_options_def rapx_option_def enable_defs rap_callback_default_def last_among_def)+

lemma last_among_in: "last_among opts args = Some a \<Longrightarrow> a \<in> set opts"
  by (auto simp: last_among_def find_Some_iff)

lemma number_tasks:
  "uig_task (rb_unsafety_isolation (options_of args)) = filter (requested args) [Tk_Uig Ui_StdSp, Tk_Uig Ui_Doc, Tk_Uig Ui_Upg, Tk_Uig Ui_Ucons]"
  "dataflow_task (rb_dataflow (options_of args)) = filter (requested args) [Tk_Dataflow False, Tk_Dataflow True]"
proof -
  show "uig_task (rb_unsafety_isolation (options_of args)) = filter (requested args) [Tk_Uig Ui_StdSp, Tk_Uig Ui_Doc, Tk_Uig Ui_Upg, Tk_Uig Ui_Ucons]"
  proof (cases "last_among (map fst uig_options) args")
    case (Some a)
    then have "a \<in> set (map fst uig_options)" by (rule last_among_in)
    then consider "a = ''-stdsp''" | "a = ''-doc''" | "a = ''-upg''" | "a = ''-ucons''" by (auto simp: uig_options_def)
    then show ?thesis using Some
      by cases (simp_all add: options_of_numbers requested_def uig_option_of_def, simp_all add: uig_options_def uig_task_def)
  qed (simp add: options_of_numbers requested_def uig_task_def)
  show "dataflow_task (rb_dataflow (options_of args)) = filter (requested args) [Tk_Dataflow False, Tk_Dataflow True]"
  proof (cases "last_among (map fst dataflow_options) args")
    case (Some a)
    then have "a \<in> set (map fst dataflow_options)" by (rule last_among_in)
    then consider "a = ''-dataflow''" | "a = ''-dataflow=debug''" by (auto simp: dataflow_options_def)
    then show ?thesis using Some
      by cases (simp_all add: options_of_numbers requested_def, simp_all add: dataflow_options_def dataflow_task_def)
  qed (simp add: options_of_numbers requested_def dataflow_task_def)
qed

lemma rap_tasks_requested: "rap_tasks (options_of args) = filter (requested args) all_tasks"
  unfolding rap_tasks_def number_tasks options_of_flags by (simp add: all_tasks_def)

lemma parse_args_split: "parse_args args = (filter (\<lambda>a. rapx_option a = None) args, options_of args)"
  unfolding options_of_def parse_args_eq by simp

text \<open>The compiler gets the arguments that are not options of RAPx, in their order and with the default flags
  after the name of the program, and after it has run the analyses that are started are exactly those that were asked for, each
  once and in a fixed order whatever the order of the options.\<close>

theorem options_select_analyses:
  "rapx_main (\<lambda>args cb. (args, rap_tasks cb)) (exe # args) =
     (if rapx_option exe = None
      then Inr (exe # RAP_DEFAULT_ARGS @ filter (\<lambda>a. rapx_option a = None) args, filter (requested (exe # args)) all_tasks)
      else case filter (\<lambda>a. rapx_option a = None) args of
          [] \<Rightarrow> Inl Out_of_bounds
        | a # rest \<Rightarrow> Inr (a # RAP_DEFAULT_ARGS @ rest, filter (requested (exe # args)) all_tasks))"
  by (auto simp: rapx_main_def run_complier_def parse_args_split rap_tasks_requested split: list.split)

end
