(* ===== verification/Cargo_Rapx.thy ===== *)
theory Cargo_Rapx
  imports Driver
begin

section \<open>The cargo command\<close>

text \<open>
  \<^verbatim>\<open>bin/cargo-rapx\<close>: the command that runs \<^verbatim>\<open>cargo check\<close> with itself as the wrapper of the compiler, and in that role runs RAPx on the
  crates of the workspace and the compiler on all others. The environment of the process, the outcome of the commands it runs,
  what cargo knows of a workspace and the two directions of JSON are the fields of the record \<open>pcx\<close>.
\<close>

subsection \<open>Processes\<close>

record command =
  cm_prog :: string
  cm_args :: "string list"
  cm_dir :: "string option"
  cm_env :: "(string \<times> string) list"

text \<open>How a command ends: with success, with another code, by a signal, or it could not be started.\<close>

datatype status = St_Success | St_Code nat | St_Signal | St_Error

record metadata =
  md_workspace_root :: string
  md_member_folders :: "string list"

record pcx =
  px_args :: "string list"
  px_exe :: string
  px_var :: "string \<Rightarrow> string option"
  px_exec :: "command \<Rightarrow> status"
  px_wait :: "command \<Rightarrow> status option"
  px_exists :: "string \<Rightarrow> bool"
  px_metadata :: "string \<Rightarrow> metadata option"
  px_tomls :: "string list"
  px_path_order :: "string list \<Rightarrow> string list"
  px_to_json :: "string list \<Rightarrow> string"
  px_from_json :: "string \<Rightarrow> string list option"

text \<open>A process runs commands and may exit or panic.\<close>

datatype halt = Halt_Exit nat | Halt_Panic

type_synonym 'a proc = "command list \<Rightarrow> (halt + 'a) \<times> command list"

definition pret :: "'a \<Rightarrow> 'a proc" where
  "pret x tr = (Inr x, tr)"

definition phalt :: "halt \<Rightarrow> 'a proc" where
  "phalt h tr = (Inl h, tr)"

definition pbind :: "'a proc \<Rightarrow> ('a \<Rightarrow> 'b proc) \<Rightarrow> 'b proc" where
  "pbind p f tr = (case p tr of (Inl h, tr) \<Rightarrow> (Inl h, tr) | (Inr x, tr) \<Rightarrow> f x tr)"

definition pexec :: "(command \<Rightarrow> 'a) \<Rightarrow> command \<Rightarrow> 'a proc" where
  "pexec outcome cmd tr = (Inr (outcome cmd), tr @ [cmd])"

fun pfor :: "('a \<Rightarrow> unit proc) \<Rightarrow> 'a list \<Rightarrow> unit proc" where
  "pfor f [] = pret ()"
| "pfor f (x # xs) = pbind (f x) (\<lambda>_. pfor f xs)"

definition rap_error_and_exit :: "'a proc" where
  "rap_error_and_exit = phalt (Halt_Exit 1)"

subsection \<open>Arguments\<close>

definition to_ascii_lowercase :: "string \<Rightarrow> string" where
  "to_ascii_lowercase = map (\<lambda>c. let k = (of_char c :: nat) in if 65 \<le> k \<and> k \<le> 90 then char_of (k + 32) else c)"

definition env_word :: "pcx \<Rightarrow> string \<Rightarrow> string option" where
  "env_word px name = map_option (\<lambda>s. to_ascii_lowercase (trim_blanks s)) (px_var px name)"

record arguments =
  ar_args :: "string list"
  ar_args_group1 :: "string list"
  ar_args_group2 :: "string list"
  ar_current_exe_path :: string
  ar_rap_clean :: bool

definition split_args_by_double_dash :: "string list \<Rightarrow> string list \<times> string list" where
  "split_args_by_double_dash args =
     (takeWhile (\<lambda>a. a \<noteq> ''--'') (drop 2 args), drop 1 (dropWhile (\<lambda>a. a \<noteq> ''--'') (drop 2 args)))"

definition rap_clean :: "pcx \<Rightarrow> bool" where
  "rap_clean px \<longleftrightarrow> env_word px ''RAP_CLEAN'' \<noteq> Some ''false''"

definition arguments_new :: "pcx \<Rightarrow> arguments" where
  "arguments_new px =
     (let (g1, g2) = split_args_by_double_dash (px_args px) in
      \<lparr>ar_args = px_args px, ar_args_group1 = g1, ar_args_group2 = g2, ar_current_exe_path = px_exe px, ar_rap_clean = rap_clean px\<rparr>)"

fun flag_value :: "string \<Rightarrow> string list \<Rightarrow> string option" where
  "flag_value name [] = None"
| "flag_value name (arg # rest) =
     (if \<not> str_prefix name arg then flag_value name rest
      else case drop (length name) arg of
          [] \<Rightarrow> (case rest of [] \<Rightarrow> None | x # _ \<Rightarrow> Some x)
        | c # cs \<Rightarrow> if c = CHR ''='' then Some cs else flag_value name rest)"

definition get_arg_flag_value :: "arguments \<Rightarrow> string \<Rightarrow> string option" where
  "get_arg_flag_value ar name = flag_value name (ar_args_group1 ar)"

definition str_suffix :: "string \<Rightarrow> string \<Rightarrow> bool" where
  "str_suffix suffix s \<longleftrightarrow> str_prefix (rev suffix) (rev s)"

text \<open>\<open>Path::ends_with\<close> compares whole components.\<close>

definition path_components :: "string \<Rightarrow> string list" where
  "path_components s = (if str_prefix ''/'' s then [''/''] else []) @ filter (\<lambda>c. c \<noteq> '''' \<and> c \<noteq> ''.'') (str_split ''/'' s)"

definition path_ends_with :: "string \<Rightarrow> string \<Rightarrow> bool" where
  "path_ends_with path child \<longleftrightarrow> 
     (let p = path_components path; c = path_components child in length c \<le> length p \<and> drop (length p - length c) p = c)"

definition is_current_compile_crate :: "arguments \<Rightarrow> bool" where
  "is_current_compile_crate ar \<longleftrightarrow>
     (case find (str_suffix ''.rs'') (ar_args_group1 ar) of
        None \<Rightarrow> False
      | Some path \<Rightarrow> \<not> str_prefix ''/'' path \<or>
          path_ends_with path ''lib/rustlib/src/rust/library/std/src/lib.rs'' \<or>
          path_ends_with path ''lib/rustlib/src/rust/library/core/src/lib.rs'' \<or>
          path_ends_with path ''lib/rustlib/src/rust/library/alloc/src/lib.rs'')"

definition filter_crate_type :: "arguments \<Rightarrow> bool" where
  "filter_crate_type ar =
     (case get_arg_flag_value ar ''--crate-type'' of
        Some s \<Rightarrow>
          if s = ''proc-macro'' then False
          else if s = ''bin'' \<and> get_arg_flag_value ar ''--crate-name'' = Some ''build_script_build'' then False
          else True
      | None \<Rightarrow> True)"

definition get_arg :: "arguments \<Rightarrow> nat \<Rightarrow> string option" where
  "get_arg ar pos = (if pos < length (ar_args ar) then Some (ar_args ar ! pos) else None)"

definition skip2 :: "arguments \<Rightarrow> string list" where
  "skip2 ar = drop 2 (ar_args ar)"

subsection \<open>Commands\<close>

definition cargo_clean :: "pcx \<Rightarrow> string \<Rightarrow> bool \<Rightarrow> unit proc" where
  "cargo_clean px dir really =
     (if really then
        pbind (pexec (px_exec px) \<lparr>cm_prog = ''cargo'', cm_args = [''clean''], cm_dir = Some dir, cm_env = []\<rparr>) (\<lambda>st.
          if st = St_Error then rap_error_and_exit else pret ())
      else pret ())"

definition check_command :: "pcx \<Rightarrow> arguments \<Rightarrow> string \<Rightarrow> command" where
  "check_command px ar dir =
     \<lparr>cm_prog = ''cargo'', cm_args = ''check'' # ar_args_group2 ar, cm_dir = Some dir,
      cm_env = [(''RAP_ARGS'', px_to_json px (ar_args_group1 ar)), (''RUSTC_WRAPPER'', ar_current_exe_path ar)]\<rparr>"

definition cargo_check :: "pcx \<Rightarrow> arguments \<Rightarrow> string \<Rightarrow> unit proc" where
  "cargo_check px ar dir =
     pbind (cargo_clean px dir (ar_rap_clean ar)) (\<lambda>_.
     pbind (pexec (px_wait px) (check_command px ar dir)) (\<lambda>w. case w of
         Some St_Success \<Rightarrow> pret ()
       | Some St_Error \<Rightarrow> phalt Halt_Panic
       | Some _ \<Rightarrow> rap_error_and_exit
       | None \<Rightarrow> rap_error_and_exit))"

definition default_run :: "pcx \<Rightarrow> arguments \<Rightarrow> unit proc" where
  "default_run px ar = cargo_check px ar ''.''"

definition workspace :: "pcx \<Rightarrow> string \<Rightarrow> metadata proc" where
  "workspace px cargo_toml = (case px_metadata px cargo_toml of Some m \<Rightarrow> pret m | None \<Rightarrow> rap_error_and_exit)"

definition check_members :: "pcx \<Rightarrow> arguments \<Rightarrow> metadata \<Rightarrow> unit proc" where
  "check_members px ar m = pbind (cargo_clean px (md_workspace_root m) True) (\<lambda>_. pfor (cargo_check px ar) (md_member_folders m))"

definition shallow_run :: "pcx \<Rightarrow> arguments \<Rightarrow> unit proc" where
  "shallow_run px ar =
     (if \<not> px_exists px ''Cargo.toml'' then rap_error_and_exit
      else pbind (workspace px ''Cargo.toml'') (check_members px ar))"

text \<open>A map from the roots of the workspaces; the first manifest that names a root counts.\<close>

fun workspaces :: "pcx \<Rightarrow> string list \<Rightarrow> (string \<times> metadata) list \<Rightarrow> (string \<times> metadata) list proc" where
  "workspaces px [] m = pret m"
| "workspaces px (t # ts) m = pbind (workspace px t) (\<lambda>md.
     workspaces px ts (if map_of m (md_workspace_root md) = None then m @ [(md_workspace_root md, md)] else m))"

definition deep_run :: "pcx \<Rightarrow> arguments \<Rightarrow> unit proc" where
  "deep_run px ar =
     pbind (workspaces px (px_tomls px) []) (\<lambda>m. pfor (\<lambda>root. check_members px ar (the (map_of m root))) (px_path_order px (map fst m)))"

definition cargo_check_run :: "pcx \<Rightarrow> arguments \<Rightarrow> unit proc" where
  "cargo_check_run px ar =
     (case env_word px ''RAP_RECURSIVE'' of
        None \<Rightarrow> default_run px ar
      | Some s \<Rightarrow>
          if s = ''none'' then default_run px ar
          else if s = ''deep'' then deep_run px ar
          else if s = ''shallow'' then shallow_run px ar
          else rap_error_and_exit)"

definition run_cmd :: "pcx \<Rightarrow> command \<Rightarrow> unit proc" where
  "run_cmd px cmd = pbind (pexec (px_exec px) cmd) (\<lambda>st. case st of
       St_Success \<Rightarrow> pret () | St_Code c \<Rightarrow> phalt (Halt_Exit c) | St_Signal \<Rightarrow> phalt Halt_Panic | St_Error \<Rightarrow> phalt Halt_Panic)"

text \<open>\<open>set_file_name\<close> replaces what follows the last slash.\<close>

definition find_rap :: "arguments \<Rightarrow> string" where
  "find_rap ar = rev (dropWhile (\<lambda>c. c \<noteq> CHR ''/'') (rev (ar_current_exe_path ar))) @ ''rapx''"

definition run_rustc :: "pcx \<Rightarrow> arguments \<Rightarrow> unit proc" where
  "run_rustc px ar = run_cmd px \<lparr>cm_prog = ''rustc'', cm_args = skip2 ar, cm_dir = None, cm_env = []\<rparr>"

definition run_rap :: "pcx \<Rightarrow> arguments \<Rightarrow> unit proc" where
  "run_rap px ar =
     (case Option.bind (px_var px ''RAP_ARGS'') (px_from_json px) of
        None \<Rightarrow> phalt Halt_Panic
      | Some rap_args \<Rightarrow> run_cmd px \<lparr>cm_prog = find_rap ar, cm_args = skip2 ar @ rap_args, cm_dir = None, cm_env = []\<rparr>)"

subsection \<open>The two phases\<close>

definition phase_cargo_rap :: "pcx \<Rightarrow> arguments \<Rightarrow> unit proc" where
  "phase_cargo_rap px ar =
     (case get_arg ar 2 of
        None \<Rightarrow> pret ()
      | Some arg \<Rightarrow>
          if arg \<in> {''-V'', ''-version''} then pret ()
          else if arg \<in> {''-H'', ''-help'', ''--help''} then pret ()
          else cargo_check_run px ar)"

definition phase_rustc_wrapper :: "pcx \<Rightarrow> arguments \<Rightarrow> unit proc" where
  "phase_rustc_wrapper px ar =
     (if is_current_compile_crate ar \<and> filter_crate_type ar then run_rap px ar else run_rustc px ar)"

definition cargo_rapx_main :: "pcx \<Rightarrow> unit proc" where
  "cargo_rapx_main px =
     (let ar = arguments_new px in
      case get_arg ar 1 of
        None \<Rightarrow> phalt Halt_Panic
      | Some s \<Rightarrow>
          if str_suffix ''rapx'' s then phase_cargo_rap px ar
          else if str_suffix ''rustc'' s then phase_rustc_wrapper px ar
          else rap_error_and_exit)"

subsection \<open>From the command line to the analyses\<close>

lemma pbind_simps [simp]:
  "p tr = (Inr x, tr') \<Longrightarrow> pbind p f tr = f x tr'"
  "p tr = (Inl h, tr') \<Longrightarrow> pbind p f tr = (Inl h, tr')"
  by (simp_all add: pbind_def)

lemmas proc_defs = pret_def phalt_def pexec_def rap_error_and_exit_def

lemma pbind_pret [simp]: "pbind (pret x) f = f x"
  by (rule ext) (simp add: pret_def)

lemma pbind_pexec [simp]: "pbind (pexec oc cmd) f tr = f (oc cmd) (tr @ [cmd])"
  by (simp add: pexec_def)

lemma takeWhile_dash [simp]:
  "''--'' \<notin> set xs \<Longrightarrow> takeWhile (\<lambda>a. a \<noteq> ''--'') (xs @ ''--'' # ys) = xs"
  "''--'' \<notin> set xs \<Longrightarrow> dropWhile (\<lambda>a. a \<noteq> ''--'') (xs @ ''--'' # ys) = ''--'' # ys"
  by (induction xs) auto

lemma arguments_new_simps:
  assumes "px_args px = exe # sub # ropts @ ''--'' # cargs" "''--'' \<notin> set ropts"
  shows "ar_args_group1 (arguments_new px) = ropts" "ar_args_group2 (arguments_new px) = cargs"
  using assms by (simp_all add: arguments_new_def split_args_by_double_dash_def)

lemma arguments_new_args [simp]: "ar_args (arguments_new px) = px_args px" "ar_current_exe_path (arguments_new px) = px_exe px"
  "ar_rap_clean (arguments_new px) = rap_clean px"
  by (simp_all add: arguments_new_def case_prod_beta Let_def)

lemma suffix_rustc_not_rapx: "str_suffix ''rustc'' s \<Longrightarrow> \<not> str_suffix ''rapx'' s"
  by (auto simp: str_suffix_def str_prefix_iff)

text \<open>The commands of one check.\<close>

definition clean_command :: "string \<Rightarrow> command" where
  "clean_command dir = \<lparr>cm_prog = ''cargo'', cm_args = [''clean''], cm_dir = Some dir, cm_env = []\<rparr>"

definition check_commands :: "pcx \<Rightarrow> arguments \<Rightarrow> string \<Rightarrow> command list" where
  "check_commands px ar dir = (if ar_rap_clean ar then [clean_command dir] else []) @ [check_command px ar dir]"

lemma cargo_clean_runs:
  "px_exec px (clean_command dir) \<noteq> St_Error \<Longrightarrow> cargo_clean px dir really tr = (Inr (), tr @ (if really then [clean_command dir] else []))"
  by (simp add: cargo_clean_def clean_command_def proc_defs)

lemma cargo_check_runs:
  assumes "px_exec px (clean_command dir) \<noteq> St_Error" "px_wait px (check_command px ar dir) = Some St_Success"
  shows "cargo_check px ar dir tr = (Inr (), tr @ check_commands px ar dir)"
  using assms(2) cargo_clean_runs [OF assms(1), of "ar_rap_clean ar" tr]
  by (simp add: cargo_check_def check_commands_def proc_defs)

text \<open>Arguments that are not options do not ask for an analysis.\<close>

lemma requested_append:
  assumes "\<forall>a\<in>set pre. rapx_option a = None"
  shows "requested (pre @ args) = requested args"
proof -
  have not: "a \<notin> set pre" if "rapx_option a \<noteq> None" for a using that assms by auto
  have none: "find (\<lambda>a. a \<in> set opts) (rev pre) = None" if "\<forall>a\<in>set opts. rapx_option a \<noteq> None" for opts
    using that not by (auto simp: find_None_iff)
  have app: "find P (xs @ ys) = (case find P xs of Some x \<Rightarrow> Some x | None \<Rightarrow> find P ys)" for P and xs ys :: "string list"
    by (induction xs) auto
  have last: "last_among opts (pre @ args) = last_among opts args" if "\<forall>a\<in>set opts. rapx_option a \<noteq> None" for opts
    using none [OF that] by (simp add: last_among_def app split: option.split)
  have u: "last_among (map fst uig_options) (pre @ args) = last_among (map fst uig_options) args"
    by (rule last) (simp add: uig_options_def rapx_option_def)
  have d: "last_among (map fst dataflow_options) (pre @ args) = last_among (map fst dataflow_options) args"
    by (rule last) (simp add: dataflow_options_def rapx_option_def)
  show ?thesis unfolding requested_def u d
    by (rule ext) (use not in \<open>simp add: rapx_option_def split: rap_task.split\<close>)
qed

text \<open>C36: Options on the way from the cargo command to the analyses. Let \<open>cargo rapx ropts -- cargs\<close> be
  called in a directory whose check succeeds. Then cargo is run with \<open>check\<close> and \<open>cargs\<close>. If it calls the wrapper for a crate of the
  workspace with arguments \<open>rargs\<close> that hold no options of RAPx, in the environment it was given and with JSON that is read as it
  was written, then RAPx is run with \<open>rargs\<close> and \<open>ropts\<close>; the compiler gets \<open>rargs\<close> and what is no option in \<open>ropts\<close>, and the analyses
  are those asked for by \<open>ropts\<close>.\<close>

theorem options_reach_analyses:
  assumes call: "px_args px = exe # sub # ropts @ ''--'' # cargs" "''--'' \<notin> set ropts" "str_suffix ''rapx'' sub"
    and first: "ropts = opt # opts" "opt \<notin> {''-V'', ''-version'', ''-H'', ''-help'', ''--help''}"
    and env: "env_word px ''RAP_RECURSIVE'' = None"
    and runs: "px_exec px (clean_command ''.'') \<noteq> St_Error" "px_wait px (check_command px (arguments_new px) ''.'') = Some St_Success"
    and wrapper: "px_args qx = wexe # rustc # rargs" "str_suffix ''rustc'' rustc"
      "px_var qx ''RAP_ARGS'' = map_of (cm_env (check_command px (arguments_new px) ''.'')) ''RAP_ARGS''"
    and json: "\<And>xs. px_from_json qx (px_to_json px xs) = Some xs"
    and local_crate: "is_current_compile_crate (arguments_new qx)" "filter_crate_type (arguments_new qx)"
    and rustc_args: "\<forall>a\<in>set (rexe # rargs). rapx_option a = None"
  shows "cargo_rapx_main px [] = (Inr (), check_commands px (arguments_new px) ''.'') \<and>
     cm_args (check_command px (arguments_new px) ''.'') = ''check'' # cargs \<and>
     snd (cargo_rapx_main qx []) = [\<lparr>cm_prog = find_rap (arguments_new qx), cm_args = rargs @ ropts, cm_dir = None, cm_env = []\<rparr>] \<and>
     rapx_main (\<lambda>args cb. (args, rap_tasks cb)) (rexe # rargs @ ropts) =
       Inr (rexe # RAP_DEFAULT_ARGS @ rargs @ filter (\<lambda>a. rapx_option a = None) ropts, filter (requested ropts) all_tasks)"
proof (intro conjI)
  note ar = arguments_new_simps [OF call(1,2)]
  have "get_arg (arguments_new px) 1 = Some sub" "get_arg (arguments_new px) 2 = Some opt" using call(1) first(1) by (simp_all add: get_arg_def)
  then show "cargo_rapx_main px [] = (Inr (), check_commands px (arguments_new px) ''.'')"
    using call(3) first(2) env cargo_check_runs [OF runs, of "[]"]
    by (simp add: cargo_rapx_main_def Let_def phase_cargo_rap_def cargo_check_run_def default_run_def)
  show "cm_args (check_command px (arguments_new px) ''.'') = ''check'' # cargs" by (simp add: check_command_def ar)
  have "get_arg (arguments_new qx) 1 = Some rustc" "skip2 (arguments_new qx) = rargs" using wrapper(1) by (simp_all add: get_arg_def skip2_def)
  moreover have "Option.bind (px_var qx ''RAP_ARGS'') (px_from_json qx) = Some ropts"
    using wrapper(3) json by (simp add: check_command_def ar)
  ultimately show "snd (cargo_rapx_main qx []) = [\<lparr>cm_prog = find_rap (arguments_new qx), cm_args = rargs @ ropts, cm_dir = None, cm_env = []\<rparr>]"
    using wrapper(2) suffix_rustc_not_rapx [OF wrapper(2)] local_crate
    by (simp add: cargo_rapx_main_def Let_def phase_rustc_wrapper_def run_rap_def run_cmd_def proc_defs split: status.split)
  have "filter (\<lambda>a. rapx_option a = None) rargs = rargs" using rustc_args by (simp add: filter_id_conv)
  moreover have "requested ((rexe # rargs) @ ropts) = requested ropts" using rustc_args by (rule requested_append)
  ultimately show "rapx_main (\<lambda>args cb. (args, rap_tasks cb)) (rexe # rargs @ ropts) =
       Inr (rexe # RAP_DEFAULT_ARGS @ rargs @ filter (\<lambda>a. rapx_option a = None) ropts, filter (requested ropts) all_tasks)"
    using rustc_args by (simp add: rapx_main_def run_complier_def parse_args_split rap_tasks_requested)
qed

text \<open>A run: an encoding of lists of strings that can be read back, the call of the command and that of the wrapper.\<close>

definition demo_to_json :: "string list \<Rightarrow> string" where
  "demo_to_json xs = concat (map (\<lambda>s. concat (map (\<lambda>c. [CHR ''c'', c]) s) @ [CHR '','']) xs)"

fun demo_read :: "string \<Rightarrow> string \<Rightarrow> string list option" where
  "demo_read acc [] = Some []"
| "demo_read acc [c] = (if c = CHR '','' then Some [acc] else None)"
| "demo_read acc (c # d # cs) =
     (if c = CHR '','' then map_option (\<lambda>xs. acc # xs) (demo_read [] (d # cs)) else demo_read (acc @ [d]) cs)"

lemma demo_read_word: "demo_read acc (concat (map (\<lambda>c. [CHR ''c'', c]) s) @ CHR '','' # cs) = map_option (\<lambda>xs. (acc @ s) # xs) (demo_read [] cs)"
proof (induction s arbitrary: acc)
  case Nil
  then show ?case by (cases cs) auto
qed simp

lemma demo_json: "demo_read [] (demo_to_json xs) = Some xs"
  by (induction xs) (auto simp: demo_to_json_def demo_read_word)

definition demo_pcx :: "string list \<Rightarrow> (string \<Rightarrow> string option) \<Rightarrow> pcx" where
  "demo_pcx args var =
     \<lparr>px_args = args, px_exe = ''/bin/cargo-rapx'', px_var = var, px_exec = (\<lambda>_. St_Success), px_wait = (\<lambda>_. Some St_Success),
      px_exists = (\<lambda>_. True), px_metadata = (\<lambda>_. Some \<lparr>md_workspace_root = ''/w'', md_member_folders = [''/w/a'', ''/w/b'']\<rparr>),
      px_tomls = [''/w/a/Cargo.toml'', ''/w/b/Cargo.toml''], px_path_order = (\<lambda>xs. xs), px_to_json = demo_to_json, px_from_json = demo_read []\<rparr>"

theorem options_reach_analyses_witness:
  "snd (cargo_rapx_main (demo_pcx [''cargo-rapx'', ''rustc'', ''--crate-name'', ''f'', ''src/lib.rs'']
       (\<lambda>v. if v = ''RAP_ARGS'' then Some (demo_to_json [''-F'', ''-audit'']) else None)) []) =
     [\<lparr>cm_prog = ''/bin/rapx'', cm_args = [''--crate-name'', ''f'', ''src/lib.rs'', ''-F'', ''-audit''], cm_dir = None, cm_env = []\<rparr>] \<and>
   rapx_main (\<lambda>args cb. (args, rap_tasks cb)) [''/bin/rapx'', ''--crate-name'', ''f'', ''src/lib.rs'', ''-F'', ''-audit''] =
     Inr (''/bin/rapx'' # RAP_DEFAULT_ARGS @ [''--crate-name'', ''f'', ''src/lib.rs'', ''-audit''], filter (requested [''-F'', ''-audit'']) all_tasks)"
proof -
  let ?px = "demo_pcx [''cargo-rapx'', ''rapx'', ''-F'', ''-audit'', ''--'', ''--tests''] (\<lambda>_. None)"
  let ?rargs = "[''--crate-name'', ''f'', ''src/lib.rs'']"
  let ?qx = "demo_pcx [''cargo-rapx'', ''rustc'', ''--crate-name'', ''f'', ''src/lib.rs'']
     (\<lambda>v. if v = ''RAP_ARGS'' then Some (demo_to_json [''-F'', ''-audit'']) else None)"
  have opt: "rapx_option ''-audit'' = None" "rapx_option ''-F'' \<noteq> None" "\<forall>a\<in>set (''/bin/rapx'' # ?rargs). rapx_option a = None"
    by (simp_all add: rapx_option_def)
  have cur: "is_current_compile_crate (arguments_new ?qx)" "filter_crate_type (arguments_new ?qx)" "find_rap (arguments_new ?qx) = ''/bin/rapx''"
    by code_simp+
  have g1: "ar_args_group1 (arguments_new ?px) = [''-F'', ''-audit'']" by code_simp
  have "snd (cargo_rapx_main ?qx []) = [\<lparr>cm_prog = find_rap (arguments_new ?qx), cm_args = ?rargs @ [''-F'', ''-audit''], cm_dir = None, cm_env = []\<rparr>] \<and>
     rapx_main (\<lambda>args cb. (args, rap_tasks cb)) (''/bin/rapx'' # ?rargs @ [''-F'', ''-audit'']) =
       Inr (''/bin/rapx'' # RAP_DEFAULT_ARGS @ ?rargs @ filter (\<lambda>a. rapx_option a = None) [''-F'', ''-audit''], filter (requested [''-F'', ''-audit'']) all_tasks)"
    using options_reach_analyses [where px = ?px and exe = "''cargo-rapx''" and sub = "''rapx''" and ropts = "[''-F'', ''-audit'']" and
        cargs = "[''--tests'']" and opt = "''-F''" and opts = "[''-audit'']" and qx = ?qx and wexe = "''cargo-rapx''" and rustc = "''rustc''" and
        rargs = ?rargs and rexe = "''/bin/rapx''"] cur(1,2) opt(3)
    by (simp add: demo_pcx_def str_suffix_def env_word_def check_command_def g1 [unfolded demo_pcx_def] demo_json)
  then show ?thesis using opt(1,2) by (simp add: cur(3))
qed

subsection \<open>Checking all workspaces\<close>

lemma pfor_runs:
  assumes "\<And>x tr. x \<in> set xs \<Longrightarrow> f x tr = (Inr (), tr @ cmds x)"
  shows "pfor f xs tr = (Inr (), tr @ concat (map cmds xs))"
  using assms
proof (induction xs arbitrary: tr)
  case Nil
  then show ?case by (simp add: pret_def)
next
  case (Cons x xs)
  have "f x tr = (Inr (), tr @ cmds x)" using Cons.prems by simp
  then show ?case using Cons.IH [of "tr @ cmds x"] Cons.prems by simp
qed

definition member_commands :: "pcx \<Rightarrow> arguments \<Rightarrow> metadata \<Rightarrow> command list" where
  "member_commands px ar m = clean_command (md_workspace_root m) # concat (map (check_commands px ar) (md_member_folders m))"

definition no_failure :: "pcx \<Rightarrow> bool" where
  "no_failure px \<longleftrightarrow> (\<forall>c. px_exec px c \<noteq> St_Error \<and> px_wait px c = Some St_Success)"

lemma check_members_runs:
  assumes "no_failure px"
  shows "check_members px ar m tr = (Inr (), tr @ member_commands px ar m)"
proof -
  have "cargo_clean px (md_workspace_root m) True tr = (Inr (), tr @ [clean_command (md_workspace_root m)])"
    using assms cargo_clean_runs [of px "md_workspace_root m" True tr] by (simp add: no_failure_def)
  moreover have "pfor (cargo_check px ar) ds tr = (Inr (), tr @ concat (map (check_commands px ar) ds))" for ds tr
    using assms by (intro pfor_runs cargo_check_runs) (simp_all add: no_failure_def)
  ultimately show ?thesis by (simp add: check_members_def member_commands_def)
qed

text \<open>The map from roots to workspaces, for descriptions that depend on the root only.\<close>

definition keyed :: "metadata \<Rightarrow> string \<times> metadata" where
  "keyed w = (md_workspace_root w, w)"

lemma workspaces_runs:
  assumes "\<And>t. t \<in> set ts \<Longrightarrow> px_metadata px t = Some (md t)" "inj_on md_workspace_root W" "md ` set ts \<subseteq> W"
    and "distinct (map fst m)" "set m \<subseteq> keyed ` W"
  shows "\<exists>m'. workspaces px ts m tr = (Inr m', tr) \<and> distinct (map fst m') \<and> set m' = set m \<union> keyed ` md ` set ts"
  using assms(1,3-5)
proof (induction ts arbitrary: m)
  case Nil
  then show ?case by (simp add: pret_def)
next
  case (Cons t ts)
  let ?r = "md_workspace_root (md t)"
  let ?m = "if map_of m ?r = None then m @ [(?r, md t)] else m"
  have m: "distinct (map fst ?m) \<and> set ?m = insert (keyed (md t)) (set m)"
  proof (cases "map_of m ?r")
    case None
    then show ?thesis using Cons.prems(3) by (simp add: map_of_eq_None_iff keyed_def)
  next
    case (Some w)
    then have "(?r, w) \<in> keyed ` W" using Cons.prems(4) by (auto dest: map_of_SomeD)
    then have "w = md t" using Cons.prems(2) assms(2) by (auto simp: keyed_def dest: inj_onD)
    then show ?thesis using Some Cons.prems(3) by (auto simp: keyed_def dest: map_of_SomeD)
  qed
  then have "set ?m \<subseteq> keyed ` W" using Cons.prems(2,4) by auto
  then obtain m' where m': "workspaces px ts ?m tr = (Inr m', tr)" "distinct (map fst m')" "set m' = set ?m \<union> keyed ` md ` set ts"
    using Cons.IH [of ?m] Cons.prems(1,2) m by auto
  have "workspaces px (t # ts) m tr = (Inr m', tr)" using m'(1) Cons.prems(1) [of t] by (simp add: workspace_def)
  then show ?case using m'(2,3) m by auto
qed

text \<open>C37: If cargo knows the workspace of every manifest found below the directory, manifests of one workspace
  give the same description of it, and no command fails, then the deep run returns; it cleans every workspace once, in the order of
  the map, and then checks its members, and the folders that are checked are the members of all the workspaces.\<close>

theorem deep_run_covers:
  assumes "\<And>t. t \<in> set (px_tomls px) \<Longrightarrow> px_metadata px t = Some (md t)"
    and "\<And>t u. t \<in> set (px_tomls px) \<Longrightarrow> u \<in> set (px_tomls px) \<Longrightarrow> md_workspace_root (md t) = md_workspace_root (md u) \<Longrightarrow> md t = md u"
    and "enum_order (px_path_order px)" and "no_failure px"
  shows "\<exists>ws. deep_run px ar [] = (Inr (), concat (map (member_commands px ar) ws)) \<and> distinct (map md_workspace_root ws) \<and>
     set ws = md ` set (px_tomls px) \<and>
     {d. check_command px ar d \<in> set (concat (map (member_commands px ar) ws))} = (\<Union>t\<in>set (px_tomls px). set (md_member_folders (md t)))"
proof -
  let ?W = "md ` set (px_tomls px)"
  have inj: "inj_on md_workspace_root ?W" using assms(2) by (auto intro!: inj_onI)
  obtain m where m: "workspaces px (px_tomls px) [] [] = (Inr m, [])" "distinct (map fst m)" "set m = keyed ` ?W"
    using workspaces_runs [OF assms(1) inj, of "px_tomls px" "[]" "[]"] by auto
  let ?rs = "px_path_order px (map fst m)"
  define ws where "ws = map (\<lambda>r. the (map_of m r)) ?rs"
  have rs: "set ?rs = md_workspace_root ` ?W" "distinct ?rs"
    using assms(3) m(2,3) by (auto simp: enum_order_def keyed_def image_image)
  have find: "map_of m (md_workspace_root w) = Some w" if "w \<in> ?W" for w
    using that m(2,3) by (intro map_of_is_SomeI) (auto simp: keyed_def)
  have "map md_workspace_root ws = ?rs" unfolding ws_def map_map using rs(1) find by (intro map_idI) auto
  then have d: "distinct (map md_workspace_root ws)" using rs(2) by simp
  have set: "set ws = ?W" unfolding ws_def set_map rs(1) image_image using find by force
  have "pfor (\<lambda>root. check_members px ar (the (map_of m root))) ?rs [] = (Inr (), concat (map (member_commands px ar) ws))"
    using pfor_runs [of ?rs "\<lambda>root. check_members px ar (the (map_of m root))" "\<lambda>r. member_commands px ar (the (map_of m r))" "[]"]
      check_members_runs [OF assms(4)] by (simp add: ws_def comp_def)
  then have run: "deep_run px ar [] = (Inr (), concat (map (member_commands px ar) ws))" using m(1) by (simp add: deep_run_def)
  have "check_command px ar d = check_command px ar e \<longleftrightarrow> d = e" "check_command px ar d \<noteq> clean_command e" for d e
    by (auto simp: check_command_def clean_command_def)
  then have "{d. check_command px ar d \<in> set (concat (map (member_commands px ar) ws))} = (\<Union>w\<in>set ws. set (md_member_folders w))"
    by (auto simp: member_commands_def check_commands_def)
  then have "{d. check_command px ar d \<in> set (concat (map (member_commands px ar) ws))} = (\<Union>t\<in>set (px_tomls px). set (md_member_folders (md t)))"
    unfolding set by simp
  then show ?thesis using run d set by blast
qed

theorem deep_run_covers_witness:
  "\<exists>ws. deep_run (demo_pcx [] (\<lambda>_. None)) (arguments_new (demo_pcx [] (\<lambda>_. None))) [] =
     (Inr (), concat (map (member_commands (demo_pcx [] (\<lambda>_. None)) (arguments_new (demo_pcx [] (\<lambda>_. None)))) ws)) \<and>
     set ws = {\<lparr>md_workspace_root = ''/w'', md_member_folders = [''/w/a'', ''/w/b'']\<rparr>}"
  using deep_run_covers [of "demo_pcx [] (\<lambda>_. None)" "\<lambda>_. \<lparr>md_workspace_root = ''/w'', md_member_folders = [''/w/a'', ''/w/b'']\<rparr>"
      "arguments_new (demo_pcx [] (\<lambda>_. None))"]
  by (auto simp: demo_pcx_def no_failure_def)

text \<open>The option of verification that the help lists is taken for the one of the version if it comes first: nothing is run.\<close>

lemma version_option_shadows_verify:
  "px_args px = exe # sub # ''-V'' # rest \<Longrightarrow> str_suffix ''rapx'' sub \<Longrightarrow> cargo_rapx_main px [] = (Inr (), [])"
  by (simp add: cargo_rapx_main_def Let_def get_arg_def phase_cargo_rap_def pret_def)

end
