(* ===== verification/Dataflow_Dot.thy ===== *)
theory Dataflow_Dot
  imports Dataflow_Props
begin

section \<open>Dataflow graphs as text\<close>

text \<open>
  \<^verbatim>\<open>core/dataflow/debug.rs\<close>: the graph of a function in the language of Graphviz, which the option for debugging draws. The derived debug
  texts of operations are the fields of the record \<open>dbg\<close>. An assertion that fails and the panic on a wrong operation are both
  \<open>Unreachable_code\<close>.
\<close>

record dbg =
  db_edge_op :: "edge_op \<Rightarrow> string"
  db_node_op :: "node_op \<Rightarrow> string"
  db_agg_kind :: "df_agg_kind \<Rightarrow> string"

definition replace_char :: "char \<Rightarrow> string \<Rightarrow> string \<Rightarrow> string" where
  "replace_char c r s = concat (map (\<lambda>x. if x = c then r else [x]) s)"

definition escaped_string :: "string \<Rightarrow> string" where
  "escaped_string s =
     replace_char (CHR 34) [CHR 92, CHR 34] (replace_char (CHR ''>'') [CHR 92, CHR ''>''] (replace_char (CHR ''<'') [CHR 92, CHR ''<'']
       (replace_char (CHR ''}'') [CHR 92, CHR ''}''] (replace_char (CHR ''{'') [CHR 92, CHR ''{''] s))))"

definition edge_to_dot :: "tcx \<Rightarrow> dbg \<Rightarrow> graph_edge \<Rightarrow> string" where
  "edge_to_dot tcx db e =
     local_debug_str tcx (ge_src e) @ '' -> '' @ local_debug_str tcx (ge_dst e) @ '' [label='' @ [CHR 34] @
     escaped_string (nat_to_string (ge_seq e) @ ''_'' @ db_edge_op db (ge_op e)) @ [CHR 34] @ '' ]''"

definition op_label :: "tcx \<Rightarrow> dbg \<Rightarrow> nat \<times> node_op \<Rightarrow> string" where
  "op_label tcx db = (\<lambda>(k, op).
     let slot = (\<lambda>s. ''| <f'' @ nat_to_string (k + 1) @ ''> ('' @ nat_to_string k @ '')'' @ s @ '' '') in
     case op of
       No_Nop \<Rightarrow> ''''
     | No_Const _ \<Rightarrow> ''''
     | No_Call d \<Rightarrow> slot (''fn '' @ escaped_string (def_path_str tcx d))
     | No_Aggregate kind \<Rightarrow> (case kind of
           Ak_Adt d \<Rightarrow> slot (''Agg '' @ escaped_string (def_path_str tcx d @ ''::{..}''))
         | Ak_Closure d \<Rightarrow> slot (''Clos '' @ escaped_string (def_path_str tcx d))
         | _ \<Rightarrow> slot (db_agg_kind db kind))
     | _ \<Rightarrow> slot (db_node_op db op))"

definition node_to_dot :: "tcx \<Rightarrow> dbg \<Rightarrow> nat \<Rightarrow> string option \<Rightarrow> bool \<Rightarrow> graph_node \<Rightarrow> string res" where
  "node_to_dot tcx db i color is_marker n =
     rbind (if is_marker then
         (if length (gn_ops n) \<noteq> 1 then Inl Unreachable_code
          else case hd (gn_ops n) of
              No_Nop \<Rightarrow> Inr (''label='' @ [CHR 34, CHR 34] @ '' style=dashed '')
            | No_Const name \<Rightarrow> Inr (''label='' @ [CHR 34] @ ''<f0> '' @ escaped_string name @ [CHR 34] @ '' style=dashed '')
            | _ \<Rightarrow> Inl Unreachable_code)
       else Inr '''') (\<lambda>attr.
     Inr (local_debug_str tcx i @ '' ['' @ attr @ ''label='' @ [CHR 34] @ ''<f0> '' @ local_debug_str tcx i @ '' '' @
       concat (map (op_label tcx db) (enumerate 0 (gn_ops n))) @ [CHR 34] @
       (case color of None \<Rightarrow> '''' | Some c \<Rightarrow> ''color='' @ c @ '' '') @ '']''))"

definition graph_to_dot :: "tcx \<Rightarrow> dbg \<Rightarrow> df_graph \<Rightarrow> string res" where
  "graph_to_dot tcx db g =
     rbind (rfold (\<lambda>(i, n) dot.
         rbind (if i \<le> df_argc g then node_to_dot tcx db i (Some ''red'') False n
                else if i < df_n_locals g then node_to_dot tcx db i None False n
                else node_to_dot tcx db i None True n) (\<lambda>s. Inr (dot @ ''    '' @ s @ [CHR 10])))
       (enumerate 0 (df_nodes g))
       (''digraph '' @ [CHR 34] @ def_path_str tcx (df_def_id g) @ [CHR 34] @ '' {'' @ [CHR 10] @ ''    node [shape=record];'' @ [CHR 10])) (\<lambda>dot.
     Inr (dot @ concat (map (\<lambda>e. ''    '' @ edge_to_dot tcx db e @ [CHR 10]) (df_edges g)) @ ''}'' @ [CHR 10]))"

text \<open>\<open>DataFlow::start\<close>: the texts of the graphs when debugging; the files and Graphviz are left out. \<open>order\<close> enumerates the table.\<close>

definition df_start :: "tcx \<Rightarrow> dbg \<Rightarrow> bool \<Rightarrow> (def_id \<Rightarrow> bool) \<Rightarrow> def_id list \<Rightarrow> ((def_id \<rightharpoonup> df_graph) \<Rightarrow> def_id list) \<Rightarrow> (string \<times> string) list res" where
  "df_start tcx db debug is_fn defs order =
     rbind (build_graphs tcx is_fn defs) (\<lambda>gs.
     if debug then rfold (\<lambda>d out. rbind (graph_to_dot tcx db (the (gs d))) (\<lambda>s. Inr (out @ [(def_path_str tcx d, s)]))) (order gs) []
     else Inr [])"

subsection \<open>Escaping\<close>

definition is_special :: "char \<Rightarrow> bool" where
  "is_special c \<longleftrightarrow> c \<in> {CHR ''{'', CHR ''}'', CHR ''<'', CHR ''>'', CHR 34}"

fun unescape :: "string \<Rightarrow> string" where
  "unescape [] = []"
| "unescape [c] = [c]"
| "unescape (c # d # cs) = (if c = CHR 92 \<and> is_special d then d # unescape cs else c # unescape (d # cs))"

lemma replace_char_simps [simp]:
  "replace_char c r [] = []" "replace_char c r (x # s) = (if x = c then r @ replace_char c r s else x # replace_char c r s)"
  by (simp_all add: replace_char_def)

lemma escaped_string_simps [simp]:
  "escaped_string [] = []" "escaped_string (x # s) = (if is_special x then [CHR 92, x] else [x]) @ escaped_string s"
  by (auto simp: escaped_string_def is_special_def)

lemma escaped_string_hd: "escaped_string s = c # cs \<Longrightarrow> \<not> is_special c"
  by (cases s) (auto simp: is_special_def split: if_splits)

text \<open>The text in a label determines the name it was made from: taking away the backslash before each
  brace, angle bracket and quote restores it.\<close>

theorem escaped_string_roundtrip:
  "unescape (escaped_string s) = s"
proof (induction s)
  case (Cons x s)
  show ?case
  proof (cases "is_special x")
    case True
    then show ?thesis using Cons by simp
  next
    case False
    show ?thesis
    proof (cases "escaped_string s")
      case Nil
      then show ?thesis using False Cons by (cases s) (auto split: if_splits)
    next
      case (Cons c cs)
      then have "\<not> is_special c" by (rule escaped_string_hd)
      then show ?thesis using False Cons \<open>unescape (escaped_string s) = s\<close> by simp
    qed
  qed
qed simp

subsection \<open>Steps of the construction\<close>

text \<open>
  The construction of a graph changes it in few ways: it adds markers and edges, updates nodes without touching their operations, and
  stores an operation at the destination of an assignment. A relation that these changes keep to is kept to by every
  step of the construction; \<open>D\<close> says at which destinations operations may be stored.
\<close>

definition real_op :: "node_op \<Rightarrow> bool" where
  "real_op op \<longleftrightarrow> op \<noteq> No_Nop \<and> (\<forall>s. op \<noteq> No_Const s)"

locale graph_steps =
  fixes R :: "df_graph \<Rightarrow> df_graph \<Rightarrow> bool" and D :: "nat \<Rightarrow> df_graph \<Rightarrow> bool"
  assumes step_refl: "R g g"
    and step_trans: "R g h \<Longrightarrow> R h k \<Longrightarrow> R g k"
    and step_dest: "R g h \<Longrightarrow> D dst g \<Longrightarrow> D dst h"
    and step_node: "(\<And>n. gn_ops (f n) = gn_ops n) \<Longrightarrow> safe (R g) (df_upd_node i f g)"
    and step_edges: "R g (g\<lparr>df_edges := es\<rparr>)"
    and step_marker: "\<not> real_op op \<Longrightarrow> R g (g\<lparr>df_nodes := df_nodes g @ [graph_node_new\<lparr>gn_ops := [op]\<rparr>]\<rparr>)"
    and step_slot: "D dst g \<Longrightarrow> safe (\<lambda>r. R g (snd r)) (df_open_slot dst g)"
    and step_op: "D dst g \<Longrightarrow> real_op op \<Longrightarrow> safe (R g) (df_set_op dst seq op g)"
begin

lemma step_bind: "safe (R g) m \<Longrightarrow> (\<And>h. R g h \<Longrightarrow> safe (R h) (f h)) \<Longrightarrow> safe (R g) (rbind m f)"
  by (cases m) (auto simp: safe_def intro: step_trans)

lemma step_after: "R g h \<Longrightarrow> safe (R h) m \<Longrightarrow> safe (R g) m"
  by (auto simp: safe_def intro: step_trans)

lemma node_edge_step: "safe (R g) (add_node_edge src dst op g)"
proof -
  have edge: "safe (R g') (rbind (df_upd_node dst (\<lambda>n. n\<lparr>gn_in_edges := gn_in_edges n @ [i]\<rparr>) g') (df_upd_node src (\<lambda>n. n\<lparr>gn_out_edges := gn_out_edges n @ [i]\<rparr>)))" for g' i
    by (intro step_bind step_node) simp_all
  show ?thesis unfolding add_node_edge_def Let_def by (rule safe_bind_any, rule step_after [OF step_edges edge])
qed

lemma const_edge_step: "safe (R g) (add_const_edge s dst op g)"
proof -
  have "R g ((g\<lparr>df_nodes := df_nodes g @ [graph_node_new\<lparr>gn_ops := [No_Const s]\<rparr>]\<rparr>)\<lparr>df_edges := es\<rparr>)" for es
    by (rule step_trans [OF step_marker step_edges]) (simp add: real_op_def)
  then have new: "R g (g\<lparr>df_nodes := df_nodes g @ [graph_node_new\<lparr>gn_ops := [No_Const s]\<rparr>], df_edges := es\<rparr>)" for es by simp
  show ?thesis unfolding add_const_edge_def Let_def by (rule safe_bind_any, rule step_after [OF new step_node]) simp
qed

lemma elem_edge_step: "safe (R g) (add_elem_edge tcx elem src dst g)"
proof (cases elem)
  case (Index k)
  then show ?thesis by (simp add: add_elem_edge_def) (intro step_bind node_edge_step)
qed (auto simp: add_elem_edge_def intro!: node_edge_step safe_bind_any)

lemma one_step: "R g g0 \<Longrightarrow> safe (\<lambda>r. R g (snd r)) (parse_one_step tcx elem (src, g0))"
proof -
  assume "R g g0"
  then have "R g (g0\<lparr>df_nodes := df_nodes g0 @ [graph_node_new]\<rparr>)"
    using step_trans [OF _ step_marker [of No_Nop]] by (simp add: real_op_def graph_node_new_def)
  then show ?thesis unfolding parse_one_step_def by (auto simp: Let_def intro!: safe_rbindI [OF elem_edge_step] intro: step_trans)
qed

lemma place_step: "safe (\<lambda>r. R g (snd r)) (parse_place tcx p g)"
  unfolding parse_place_def by (rule safe_rfold) (auto simp: step_refl intro: one_step)

lemma place_edge_step: "safe (R g) (add_place tcx p dst op g)"
  unfolding add_place_def by (rule safe_rbindI [OF place_step]) (auto intro: step_after node_edge_step)

lemma operand_step: "safe (R g) (add_operand tcx opnd dst g)"
proof (cases opnd)
  case (Constant c)
  then show ?thesis by (simp add: add_operand_def const_edge_step)
qed (use place_edge_step [of g tcx _ dst] in \<open>simp_all add: add_operand_def add_place_def\<close>)

lemma operands_step: "safe (R g) (add_operands tcx ops dst g)"
  unfolding add_operands_def by (rule safe_rfold) (auto simp: step_refl intro: step_after operand_step)

lemma then_op: "D dst g \<Longrightarrow> real_op op \<Longrightarrow> safe (R g) m \<Longrightarrow> safe (R g) (rbind m (df_set_op dst seq op))"
  by (rule step_bind, assumption, rule step_op) (rule step_dest)

lemma agg_op_real: "safe real_op (agg_op k)"
  by (cases k) (auto simp: agg_op_def real_op_def)

lemma rvalue_step:
  assumes "D dst g"
  shows "safe (R g) (add_rvalue tcx rv dst seq g)"
proof (cases rv)
  case (Aggregate k ops)
  have "safe (R h) (rbind (agg_op k) (\<lambda>op. df_set_op dst seq op h))" if "R g h" for h
    by (rule safe_rbindI [OF agg_op_real], rule step_op) (use that assms in \<open>auto intro: step_dest\<close>)
  then show ?thesis unfolding Aggregate add_rvalue_def by (simp add: step_bind [OF operands_step])
qed (auto simp: add_rvalue_def real_op_def intro!: then_op assms operand_step operands_step place_edge_step const_edge_step)

lemma statm_step:
  assumes "\<And>p rv. s_kind s = Assign p rv \<Longrightarrow> safe (\<lambda>(dst, h). D dst h) (parse_place tcx p g)"
  shows "safe (R g) (add_statm_to_graph tcx s g)"
proof (cases "s_kind s")
  case (Assign p rv)
  have tail: "safe (R h) (rbind (add_rvalue tcx rv dst seq h) (df_upd_node dst (\<lambda>n. n\<lparr>gn_seq := k\<rparr>)))" if "D dst h" for dst seq h k
    by (intro step_bind rvalue_step step_node that) simp
  have mid: "safe (R h) (rbind (df_open_slot dst h) (\<lambda>(seq, g). rbind (add_rvalue tcx rv dst seq g) (df_upd_node dst (\<lambda>n. n\<lparr>gn_seq := seq + 1\<rparr>))))"
    if "D dst h" for dst h
  proof (rule safe_rbindI [OF step_slot [OF that]], unfold case_prod_beta)
    fix r :: "nat \<times> df_graph" assume r: "R h (snd r)"
    show "safe (R h) (rbind (add_rvalue tcx rv dst (fst r) (snd r)) (df_upd_node dst (\<lambda>n. n\<lparr>gn_seq := fst r + 1\<rparr>)))"
      by (rule step_after [OF r tail [OF step_dest [OF r that]]])
  qed
  have body: "safe (R h) (rbind (df_upd_node dst (\<lambda>n. n\<lparr>gn_span := s_span s\<rparr>) h) (\<lambda>g. rbind (df_open_slot dst g) (\<lambda>(seq, g).
      rbind (add_rvalue tcx rv dst seq g) (df_upd_node dst (\<lambda>n. n\<lparr>gn_seq := seq + 1\<rparr>)))))" if "D dst h" for dst h
    by (rule step_bind [OF step_node]) (use mid step_dest that in auto)
  have "safe (\<lambda>r. R g (snd r) \<and> D (fst r) (snd r)) (parse_place tcx p g)"
    using place_step [of g tcx p] assms [OF Assign] by (auto simp: safe_def case_prod_beta)
  then show ?thesis unfolding add_statm_to_graph_def Assign stmt_kind.case
    by (rule safe_rbindI) (clarsimp, rule step_after, assumption, rule body [simplified])
qed (simp_all add: add_statm_to_graph_def step_refl)

lemma call_step: "D dst g \<Longrightarrow> safe (R g) (add_call tcx func args dst seq g)"
proof -
  assume D: "D dst g"
  have "safe (R g) (rbind (add_operands tcx args dst g) (df_set_op dst seq (No_Call d)))" for d
    by (rule then_op [OF D _ operands_step]) (simp add: real_op_def)
  moreover have "safe (R g) (rbind (add_operand tcx func dst g) (\<lambda>g. rbind (add_operands tcx args dst g) (df_set_op dst seq No_CallOperand)))"
    by (rule step_bind [OF operand_step], rule then_op [OF step_dest _ operands_step]) (auto simp: D real_op_def)
  ultimately show ?thesis by (auto simp: add_call_def step_refl split: operand.split const_kind.split ty.split)
qed

lemma terminator_step:
  assumes "\<And>f as p t u. t_kind tm = Call f as p t u \<Longrightarrow> D (p_local p) g"
  shows "safe (R g) (add_terminator_to_graph tcx tm g)"
proof (cases "t_kind tm")
  case (Call func args dest a b)
  note D = assms [OF Call]
  have "safe (R g) (case r of (seq, g) \<Rightarrow> rbind (add_call tcx func args (p_local dest) seq g)
      (df_upd_node (p_local dest) (\<lambda>n. n\<lparr>gn_span := t_span tm, gn_seq := seq + 1\<rparr>)))" if r: "R g (snd r)" for r
    unfolding case_prod_beta by (rule step_after [OF r], rule step_bind [OF call_step step_node]) (simp_all add: step_dest [OF r D])
  then show ?thesis unfolding add_terminator_to_graph_def Call term_kind.case Let_def by (rule safe_rbindI [OF step_slot [OF D]])
qed (simp_all add: add_terminator_to_graph_def step_refl)

end

subsection \<open>Markers with operations\<close>

text \<open>
  A marker is expected to have one operation, none or a constant. An assignment to a place with projections stores its operation at a
  marker, and no later step takes it away.
\<close>

definition has_work :: "graph_node \<Rightarrow> bool" where
  "has_work n \<longleftrightarrow> list_ex real_op (gn_ops n)"

definition worked :: "df_graph \<Rightarrow> bool" where
  "worked g \<longleftrightarrow> (\<exists>i<length (df_nodes g). df_n_locals g \<le> i \<and> has_work (df_nodes g ! i))"

definition keeps :: "df_graph \<Rightarrow> df_graph \<Rightarrow> bool" where
  "keeps g g' \<longleftrightarrow> df_n_locals g' = df_n_locals g \<and> df_argc g' = df_argc g \<and> length (df_nodes g) \<le> length (df_nodes g') \<and>
     (\<forall>i<length (df_nodes g). has_work (df_nodes g ! i) \<longrightarrow> has_work (df_nodes g' ! i))"

lemma keeps_trans: "keeps g h \<Longrightarrow> keeps h k \<Longrightarrow> keeps g k"
  unfolding keeps_def by (metis order.strict_trans2 order.trans)

lemma keeps_worked: "worked g \<Longrightarrow> keeps g g' \<Longrightarrow> worked g'"
  unfolding worked_def keeps_def by (metis order.strict_trans2)

lemma keeps_upd:
  assumes "\<And>n. has_work n \<Longrightarrow> has_work (f n)"
  shows "safe (keeps g) (df_upd_node i f g)"
  using assms by (auto simp: df_upd_node_def safe_def res_iffs keeps_def nth_list_update)

definition works_at :: "nat \<Rightarrow> df_graph \<Rightarrow> df_graph \<Rightarrow> bool" where
  "works_at dst g g' \<longleftrightarrow> keeps g g' \<and> dst < length (df_nodes g') \<and> has_work (df_nodes g' ! dst)"

lemma set_op_works:
  assumes "real_op op"
  shows "safe (works_at dst g) (df_set_op dst seq op g)"
proof -
  have w: "has_work (n\<lparr>gn_ops := ops[seq := op]\<rparr>)" if "seq < length ops" for n ops
    using assms that set_update_memI [of seq ops op] by (auto simp: has_work_def list_ex_iff)
  show ?thesis unfolding df_set_op_def df_upd_node_def
    by (auto simp: safe_def res_iffs works_at_def keeps_def nth_list_update w)
qed

lemma open_slot_eq: "safe (\<lambda>r. snd r = g \<or> dst < length (df_nodes g) \<and>
    snd r = g\<lparr>df_nodes := (df_nodes g)[dst := (df_nodes g ! dst)\<lparr>gn_ops := gn_ops (df_nodes g ! dst) @ [No_Nop]\<rparr>]\<rparr>) (df_open_slot dst g)"
  by (auto simp: df_open_slot_def df_upd_node_def safe_def res_iffs split: if_splits)

lemma open_slot_keeps: "safe (\<lambda>r. keeps g (snd r)) (df_open_slot dst g)"
  by (rule safe_mono [OF open_slot_eq]) (auto simp: keeps_def has_work_def nth_list_update)

interpretation mk: graph_steps keeps "\<lambda>_ _. True"
proof unfold_locales
  show "keeps g k" if "keeps g h" "keeps h k" for g h k using that by (rule keeps_trans)
  show "safe (keeps g) (df_upd_node i f g)" if "\<And>n. gn_ops (f n) = gn_ops n" for f g i by (rule keeps_upd) (simp add: has_work_def that)
  show "safe (\<lambda>r. keeps g (snd r)) (df_open_slot dst g)" for dst g by (rule open_slot_keeps)
  show "safe (keeps g) (df_set_op dst seq op g)" if "real_op op" for dst g seq op
    by (rule safe_mono [OF set_op_works [OF that]]) (simp add: works_at_def)
qed (auto simp: keeps_def nth_append)

text \<open>An assignment stores an operation at the node of its place; the node of a place with projections is a marker.\<close>

lemma keeps_works_at: "keeps g h \<Longrightarrow> works_at dst h k \<Longrightarrow> works_at dst g k"
  unfolding works_at_def by (metis keeps_trans)

lemma works_at_keeps: "works_at dst g h \<Longrightarrow> keeps h k \<Longrightarrow> works_at dst g k"
  unfolding works_at_def by (metis keeps_def keeps_trans order.strict_trans2)

lemma then_set_op: "safe (keeps g) m \<Longrightarrow> real_op op \<Longrightarrow> safe (works_at dst g) (rbind m (df_set_op dst seq op))"
  by (rule safe_rbindI, assumption, rule safe_mono [OF set_op_works]) (auto intro: keeps_works_at)

lemma add_rvalue_works: "safe (works_at dst g) (add_rvalue tcx rv dst seq g)"
proof (cases rv)
  case (Aggregate k ops)
  have "safe (works_at dst g) (rbind (agg_op k) (\<lambda>op. df_set_op dst seq op g'))" if "keeps g g'" for g'
    by (rule safe_rbindI [OF mk.agg_op_real], rule safe_mono [OF set_op_works]) (use that in \<open>auto intro: keeps_works_at\<close>)
  then show ?thesis unfolding Aggregate add_rvalue_def by (simp add: safe_rbindI [OF mk.operands_step])
qed (auto simp: add_rvalue_def real_op_def intro!: then_set_op mk.operand_step mk.operands_step mk.place_edge_step mk.const_edge_step)

lemma marker_dest: "p_projection p \<noteq> [] \<Longrightarrow> safe (\<lambda>r. keeps g (snd r) \<and> length (df_nodes g) \<le> fst r) (parse_place tcx p g)"
proof -
  have step: "safe (\<lambda>r. keeps g (snd r) \<and> length (df_nodes g) \<le> fst r) (parse_one_step tcx elem (src, g0))" if "keeps g g0" for elem src g0
    using mk.one_step [OF that, of tcx elem src] that by (auto simp: parse_one_step_def Let_def keeps_def safe_def res_iffs)
  have all: "safe (\<lambda>r. keeps g (snd r) \<and> length (df_nodes g) \<le> fst r) (rfold (parse_one_step tcx) es r0)"
    if "keeps g (snd r0) \<and> length (df_nodes g) \<le> fst r0" for es r0
    by (rule safe_rfold) (use that step in \<open>auto\<close>)
  assume "p_projection p \<noteq> []"
  then obtain e es where "p_projection p = e # es" by (cases "p_projection p") auto
  then show ?thesis unfolding parse_place_def by (simp add: safe_rbindI [OF step [OF mk.step_refl] all])
qed

definition projected_assignment :: "statement \<Rightarrow> bool" where
  "projected_assignment s \<longleftrightarrow> (case s_kind s of Assign p _ \<Rightarrow> p_projection p \<noteq> [] | _ \<Rightarrow> False)"

lemma statm_works:
  assumes "projected_assignment s"
  shows "safe (\<lambda>g'. \<exists>dst\<ge>length (df_nodes g). works_at dst g g') (add_statm_to_graph tcx s g)"
proof -
  from assms obtain p rv where s: "s_kind s = Assign p rv" and p: "p_projection p \<noteq> []"
    by (auto simp: projected_assignment_def split: stmt_kind.splits)
  have tail: "safe (works_at dst h) (rbind (add_rvalue tcx rv dst seq h) (df_upd_node dst (\<lambda>n. n\<lparr>gn_seq := k\<rparr>)))" for dst seq h k
    by (rule safe_rbindI [OF add_rvalue_works], rule safe_mono [OF keeps_upd]) (auto simp: has_work_def intro: works_at_keeps)
  have body: "safe (works_at dst h) (rbind (df_upd_node dst (\<lambda>n. n\<lparr>gn_span := s_span s\<rparr>) h) (\<lambda>g. rbind (df_open_slot dst g) (\<lambda>(seq, g).
      rbind (add_rvalue tcx rv dst seq g) (df_upd_node dst (\<lambda>n. n\<lparr>gn_seq := seq + 1\<rparr>)))))" for dst h
  proof (rule safe_rbindI [OF keeps_upd], simp add: has_work_def, rule safe_rbindI [OF open_slot_keeps], unfold case_prod_beta)
    fix h1 and r :: "nat \<times> df_graph" assume "keeps h h1" "keeps h1 (snd r)"
    then have "keeps h (snd r)" by (rule keeps_trans)
    with tail show "safe (works_at dst h) (rbind (add_rvalue tcx rv dst (fst r) (snd r)) (df_upd_node dst (\<lambda>n. n\<lparr>gn_seq := fst r + 1\<rparr>)))"
      by (metis safe_mono keeps_works_at)
  qed
  show ?thesis unfolding add_statm_to_graph_def s stmt_kind.case
    by (rule safe_rbindI [OF marker_dest [OF p]], unfold case_prod_beta, rule safe_mono [OF body [unfolded case_prod_beta]]) (auto intro: keeps_works_at)
qed

lemma rfold_keeps:
  assumes step: "\<And>x g. df_n_locals g \<le> length (df_nodes g) \<Longrightarrow> safe (\<lambda>g'. keeps g g' \<and> (Q x \<longrightarrow> worked g')) (f x g)"
    and "df_n_locals g \<le> length (df_nodes g)"
  shows "safe (\<lambda>g'. keeps g g' \<and> (list_ex Q xs \<longrightarrow> worked g')) (rfold f xs g)"
  using assms(2)
proof (induction xs arbitrary: g)
  case (Cons x xs)
  have "safe (\<lambda>g'. keeps g g' \<and> (list_ex Q (x # xs) \<longrightarrow> worked g')) (rfold f xs h)" if h: "keeps g h \<and> (Q x \<longrightarrow> worked h)" for h
  proof -
    have "df_n_locals h \<le> length (df_nodes h)" using h Cons.prems by (auto simp: keeps_def)
    from Cons.IH [OF this] show ?thesis by (rule safe_mono) (use h in \<open>auto intro: keeps_trans keeps_worked\<close>)
  qed
  then show ?case unfolding rfold.simps by (rule safe_rbindI [OF step [OF Cons.prems]])
qed (simp add: mk.step_refl)

lemma block_works:
  assumes "df_n_locals g \<le> length (df_nodes g)"
  shows "safe (\<lambda>g'. keeps g g' \<and> (list_ex projected_assignment (bb_statements bb) \<longrightarrow> worked g')) (df_add_block tcx bb g)"
proof -
  have "safe (\<lambda>g'. keeps g g' \<and> (projected_assignment s \<longrightarrow> worked g')) (add_statm_to_graph tcx s g)"
    if g: "df_n_locals g \<le> length (df_nodes g)" for s g
    using mk.statm_step [of s tcx g] statm_works [of s g tcx] g
    by (fastforce simp: safe_def works_at_def worked_def keeps_def)
  then have stms: "safe (\<lambda>g'. keeps g g' \<and> (list_ex projected_assignment (bb_statements bb) \<longrightarrow> worked g'))
      (rfold (add_statm_to_graph tcx) (bb_statements bb) g)" using assms by (rule rfold_keeps)
  have "safe (\<lambda>g'. keeps g g' \<and> (list_ex projected_assignment (bb_statements bb) \<longrightarrow> worked g'))
      (case bb_terminator bb of Some t \<Rightarrow> add_terminator_to_graph tcx t h | None \<Rightarrow> Inr h)"
    if h: "keeps g h \<and> (list_ex projected_assignment (bb_statements bb) \<longrightarrow> worked h)" for h
  proof (cases "bb_terminator bb")
    case (Some t)
    show ?thesis unfolding Some option.case
      by (rule safe_mono [OF mk.terminator_step]) (use h in \<open>auto intro: keeps_trans keeps_worked\<close>)
  qed (use h in simp)
  then show ?thesis unfolding df_add_block_def by (rule safe_rbindI [OF stms])
qed

lemma build_graph_works:
  assumes "build_graph tcx d = Inr g"
  shows "df_n_locals g = length (local_decls (optimized_mir tcx d)) \<and> df_argc g = arg_count (optimized_mir tcx d)"
    and "list_ex (\<lambda>bb. list_ex projected_assignment (bb_statements bb)) (basic_blocks (optimized_mir tcx d)) \<Longrightarrow> worked g"
proof -
  let ?b = "optimized_mir tcx d"
  let ?g0 = "df_new d (body_span ?b) (arg_count ?b) (length (local_decls ?b))"
  have "safe (\<lambda>g'. keeps ?g0 g' \<and> (list_ex (\<lambda>bb. list_ex projected_assignment (bb_statements bb)) (basic_blocks ?b) \<longrightarrow> worked g')) (build_graph tcx d)"
    unfolding build_graph_def Let_def by (rule rfold_keeps [OF block_works]) (simp_all add: df_new_def)
  with assms have "keeps ?g0 g" "list_ex (\<lambda>bb. list_ex projected_assignment (bb_statements bb)) (basic_blocks ?b) \<longrightarrow> worked g" by simp_all
  then show "df_n_locals g = length (local_decls ?b) \<and> df_argc g = arg_count ?b"
    "list_ex (\<lambda>bb. list_ex projected_assignment (bb_statements bb)) (basic_blocks ?b) \<Longrightarrow> worked g" by (simp_all add: keeps_def df_new_def)
qed

subsection \<open>Markers without operations\<close>

text \<open>If all destinations are locals, the markers stay as they were made.\<close>

definition plain :: "df_graph \<Rightarrow> bool" where
  "plain g \<longleftrightarrow> (\<forall>i<length (df_nodes g). df_n_locals g \<le> i \<longrightarrow> (\<exists>op. gn_ops (df_nodes g ! i) = [op] \<and> \<not> real_op op))"

definition tidy :: "df_graph \<Rightarrow> df_graph \<Rightarrow> bool" where
  "tidy g g' \<longleftrightarrow> df_n_locals g' = df_n_locals g \<and> (plain g \<longrightarrow> plain g')"

lemma tidy_upd: "(\<And>n. dst < df_n_locals g \<or> gn_ops (f n) = gn_ops n) \<Longrightarrow> safe (tidy g) (df_upd_node dst f g)"
  by (auto simp: df_upd_node_def safe_def res_iffs tidy_def plain_def nth_list_update)

interpretation td: graph_steps tidy "\<lambda>dst g. dst < df_n_locals g"
proof unfold_locales
  show "safe (tidy g) (df_upd_node i f g)" if "\<And>n. gn_ops (f n) = gn_ops n" for f g i by (rule tidy_upd) (simp add: that)
  show "safe (\<lambda>r. tidy g (snd r)) (df_open_slot dst g)" if "dst < df_n_locals g" for dst g
    by (rule safe_mono [OF open_slot_eq]) (use that in \<open>auto simp: tidy_def plain_def nth_list_update\<close>)
  show "safe (tidy g) (df_set_op dst seq op g)" if "dst < df_n_locals g" for dst g seq op
    unfolding df_set_op_def by (intro safe_bind_any tidy_upd) (simp add: that)
qed (auto simp: tidy_def plain_def nth_append)

lemma block_tidy:
  assumes "list_all (stmt_ok (df_n_locals g)) (bb_statements bb)" "pred_option (term_ok (df_n_locals g)) (bb_terminator bb)"
    and "\<not> list_ex projected_assignment (bb_statements bb)"
  shows "safe (tidy g) (df_add_block tcx bb g)"
proof -
  have "safe (tidy g) (rfold (add_statm_to_graph tcx) (bb_statements bb) g)"
  proof (rule safe_rfold, rule td.step_refl)
    fix s h assume s: "s \<in> set (bb_statements bb)" and h: "tidy g h"
    show "safe (tidy g) (add_statm_to_graph tcx s h)"
    proof (rule td.step_after [OF h td.statm_step])
      fix p rv assume "s_kind s = Assign p rv"
      with s assms(1,3) have "p_projection p = []" "p_local p < df_n_locals g"
        by (auto simp: list_all_iff list_ex_iff projected_assignment_def stmt_ok_def place_ok_def)
      then show "safe (\<lambda>(dst, h). dst < df_n_locals h) (parse_place tcx p h)" using h by (simp add: parse_place_def tidy_def)
    qed
  qed
  moreover have "safe (tidy g) (case bb_terminator bb of Some t \<Rightarrow> add_terminator_to_graph tcx t h | None \<Rightarrow> Inr h)" if h: "tidy g h" for h
    using assms(2) h by (auto split: option.split simp: term_ok_def tidy_def intro!: td.step_after [OF h td.terminator_step])
  ultimately show ?thesis unfolding df_add_block_def by (rule safe_rbindI)
qed

lemma build_graph_plain:
  assumes "body_ok (optimized_mir tcx d)" "build_graph tcx d = Inr g"
    and "\<not> list_ex (\<lambda>bb. list_ex projected_assignment (bb_statements bb)) (basic_blocks (optimized_mir tcx d))"
  shows "plain g"
proof -
  let ?n = "length (local_decls (optimized_mir tcx d))"
  have "safe (\<lambda>g. df_n_locals g = ?n \<and> plain g) (build_graph tcx d)" unfolding build_graph_def Let_def
  proof (rule safe_rfold)
    fix bb h assume "bb \<in> set (basic_blocks (optimized_mir tcx d))" and h: "df_n_locals h = ?n \<and> plain h"
    then have "safe (tidy h) (df_add_block tcx bb h)"
      using assms(1,3) by (intro block_tidy) (auto simp: body_ok_def list_all_iff list_ex_iff)
    then show "safe (\<lambda>g. df_n_locals g = ?n \<and> plain g) (df_add_block tcx bb h)" by (rule safe_mono) (use h in \<open>auto simp: tidy_def\<close>)
  qed (simp add: df_new_def plain_def)
  then show ?thesis using assms(2) by simp
qed

text \<open>Drawing such a graph stops at the marker.\<close>

lemma rfold_stops:
  assumes "x \<in> set xs" "\<And>s. f x s = Inl e" "\<And>x s. f x s = Inl e \<or> (\<exists>s'. f x s = Inr s')"
  shows "rfold f xs s = Inl e"
  using assms(1)
proof (induction xs arbitrary: s)
  case (Cons y ys)
  then show ?case using assms(2) assms(3) [of y s] by (cases "f y s") auto
qed simp

lemma node_to_dot_fails: "node_to_dot tcx db i c m n = Inl Unreachable_code \<or> (\<exists>t. node_to_dot tcx db i c m n = Inr t)"
  by (auto simp: node_to_dot_def split: node_op.split)

lemma node_to_dot_marker: "has_work n \<Longrightarrow> node_to_dot tcx db i c True n = Inl Unreachable_code"
  by (cases "gn_ops n") (auto simp: node_to_dot_def has_work_def real_op_def split: node_op.split)

lemma worked_graph_to_dot:
  assumes "worked g" "df_argc g < df_n_locals g"
  shows "graph_to_dot tcx db g = Inl Unreachable_code"
proof -
  from assms obtain i where i: "i < length (df_nodes g)" "df_n_locals g \<le> i" "has_work (df_nodes g ! i)" unfolding worked_def by auto
  let ?f = "\<lambda>(i, n) dot. rbind (if i \<le> df_argc g then node_to_dot tcx db i (Some ''red'') False n
                else if i < df_n_locals g then node_to_dot tcx db i None False n
                else node_to_dot tcx db i None True n) (\<lambda>s. Inr (dot @ ''    '' @ s @ [CHR 10]))"
  have "(i, df_nodes g ! i) \<in> set (enumerate 0 (df_nodes g))" using i(1) by (auto simp: in_set_enumerate_eq)
  moreover have "?f (i, df_nodes g ! i) s = Inl Unreachable_code" for s using i assms(2) by (simp add: node_to_dot_marker)
  moreover have "?f x s = Inl Unreachable_code \<or> (\<exists>s'. ?f x s = Inr s')" for x s
    using node_to_dot_fails [of tcx db "fst x" "Some ''red''" False "snd x"] node_to_dot_fails [of tcx db "fst x" None "\<not> fst x < df_n_locals g" "snd x"]
    by (auto simp: case_prod_beta)
  ultimately have "rfold ?f (enumerate 0 (df_nodes g)) s = Inl Unreachable_code" for s by (rule rfold_stops)
  then show ?thesis by (simp add: graph_to_dot_def)
qed

lemma node_to_dot_plain: "m \<longrightarrow> (\<exists>op. gn_ops n = [op] \<and> \<not> real_op op) \<Longrightarrow> \<exists>t. node_to_dot tcx db i c m n = Inr t"
  by (cases m) (auto simp: node_to_dot_def real_op_def)

lemma plain_graph_to_dot:
  assumes "plain g"
  shows "\<exists>text. graph_to_dot tcx db g = Inr text"
proof -
  let ?f = "\<lambda>(i, n) dot. rbind (if i \<le> df_argc g then node_to_dot tcx db i (Some ''red'') False n
                else if i < df_n_locals g then node_to_dot tcx db i None False n
                else node_to_dot tcx db i None True n) (\<lambda>s. Inr (dot @ ''    '' @ s @ [CHR 10]))"
  have "ok (\<lambda>_. True) (?f x s)" if "x \<in> set (enumerate 0 (df_nodes g))" for x s
  proof -
    obtain i n where x: "x = (i, n)" by (cases x)
    with that have "i < length (df_nodes g)" "n = df_nodes g ! i" by (auto simp: in_set_enumerate_eq)
    then have "\<not> i < df_n_locals g \<longrightarrow> (\<exists>op. gn_ops n = [op] \<and> \<not> real_op op)" using assms by (auto simp: plain_def)
    with node_to_dot_plain [of False n tcx db i "Some ''red''"] node_to_dot_plain [of "\<not> i < df_n_locals g" n tcx db i None]
    show ?thesis by (auto simp: x ok_def)
  qed
  then have "ok (\<lambda>_. True) (rfold ?f (enumerate 0 (df_nodes g)) s)" for s by (intro ok_rfold) auto
  from this [of "''digraph '' @ [CHR 34] @ def_path_str tcx (df_def_id g) @ [CHR 34] @ '' {'' @ [CHR 10] @ ''    node [shape=record];'' @ [CHR 10]"]
  show ?thesis by (auto simp: graph_to_dot_def ok_def)
qed

text \<open>C38: Drawing panics exactly for the functions that assign to a field or through a pointer. If the graph of a function with
  valid locals is built and a statement of it assigns to a place with projections, the operation of that statement is found at a marker and
  drawing panics; otherwise the text of the graph is returned.\<close>

theorem dot_panics_iff_projected_assignment:
  assumes "body_ok (optimized_mir tcx d)" "build_graph tcx d = Inr g"
    and "arg_count (optimized_mir tcx d) < length (local_decls (optimized_mir tcx d))"
  shows "if list_ex (\<lambda>bb. list_ex projected_assignment (bb_statements bb)) (basic_blocks (optimized_mir tcx d))
    then graph_to_dot tcx db g = Inl Unreachable_code else (\<exists>text. graph_to_dot tcx db g = Inr text)"
  using worked_graph_to_dot [OF build_graph_works(2) [OF assms(2)]] build_graph_works(1) [OF assms(2)] assms(3)
    plain_graph_to_dot [OF build_graph_plain [OF assms(1,2)]] by simp

definition demo_store :: tcx where
  "demo_store = demo_tcx\<lparr>optimized_mir := (\<lambda>_. \<lparr>local_decls = [Ty_Bool, Ty_Bool], arg_count = 1,
     basic_blocks = [\<lparr>bb_statements = [\<lparr>s_kind = Assign \<lparr>p_local = 1, p_projection = [Deref]\<rparr> (Use (Copy \<lparr>p_local = 0, p_projection = []\<rparr>)), s_span = 0\<rparr>],
       bb_terminator = None, bb_is_cleanup = False\<rparr>], body_span = 0\<rparr>)\<rparr>"

definition demo_dbg :: dbg where
  "demo_dbg = \<lparr>db_edge_op = (\<lambda>_. ''op''), db_node_op = (\<lambda>_. ''op''), db_agg_kind = (\<lambda>_. ''agg'')\<rparr>"

lemma demo_store_built: "build_graph demo_store 0 = Inr (projr (build_graph demo_store 0))"
  by (simp add: demo_store_def build_graph_def df_add_block_def add_statm_to_graph_def parse_place_def parse_one_step_def add_elem_edge_def
    df_upd_node_def df_open_slot_def add_rvalue_def add_operand_def add_node_edge_def df_set_op_def df_new_def graph_node_new_def at_def set_at_def
    eval_nat_numeral)

theorem dot_panics_iff_projected_assignment_witness:
  "graph_to_dot demo_store demo_dbg (projr (build_graph demo_store 0)) = Inl Unreachable_code"
  using dot_panics_iff_projected_assignment [OF _ demo_store_built, of demo_dbg]
  by (simp add: demo_store_def projected_assignment_def body_ok_def stmt_ok_def place_ok_def)

end
