(* ===== verification/Report.thy ===== *)
theory Report
  imports Mir
begin

section \<open>Positions in the source and annotated reports\<close>

text \<open>
  \<^verbatim>\<open>utils/log.rs\<close> and \<^verbatim>\<open>utils/source.rs\<close>: the questions that reports ask about spans. What the compiler's source map answers is the record
  \<open>smap\<close>; a missing source map is not considered. A report is what is handed to the library that renders it: the text of a span, its
  file and line, and annotations that are ranges of the text. Lengths and positions count bytes.
\<close>

subsection \<open>Spans\<close>

record smap =
  sm_lo :: "span \<Rightarrow> nat"
  sm_hi :: "span \<Rightarrow> nat"
  sm_snippet :: "span \<Rightarrow> string option"
  sm_source_file :: "nat \<Rightarrow> string"
  sm_filename :: "span \<Rightarrow> string"
  sm_line :: "nat \<Rightarrow> nat"
  sm_extend_to_line :: "span \<Rightarrow> span"
  sm_shrink_to_lo :: "span \<Rightarrow> span"
  sm_take_blank :: "span \<Rightarrow> span"
  sm_trim_start :: "span \<Rightarrow> span \<Rightarrow> span option"
  sm_debug_str :: "string \<Rightarrow> string"

text \<open>The compiler keeps all files in one space of positions: spans end after they start, and the text of a span, if it is known, is the part
  between its positions.\<close>

definition smap_ok :: "smap \<Rightarrow> bool" where
  "smap_ok sm \<longleftrightarrow> (\<forall>sp. sm_lo sm sp \<le> sm_hi sm sp) \<and>
     (\<exists>space. \<forall>sp src. sm_snippet sm sp = Some src \<longrightarrow>
        sm_hi sm sp \<le> length space \<and> src = take (sm_hi sm sp - sm_lo sm sp) (drop (sm_lo sm sp) space))"

definition span_to_source_code :: "smap \<Rightarrow> span \<Rightarrow> string res" where
  "span_to_source_code sm sp = unwrap (sm_snippet sm sp)"

definition span_to_first_line :: "smap \<Rightarrow> span \<Rightarrow> span" where
  "span_to_first_line sm sp = sm_extend_to_line sm (sm_shrink_to_lo sm sp)"

definition span_to_trimmed_span :: "smap \<Rightarrow> span \<Rightarrow> span res" where
  "span_to_trimmed_span sm sp = unwrap (sm_trim_start sm sp (sm_take_blank sm sp))"

definition span_to_line_number :: "smap \<Rightarrow> span \<Rightarrow> nat" where
  "span_to_line_number sm sp = sm_line sm (sm_lo sm sp)"

text \<open>The difference of two positions, which are unsigned.\<close>

definition pos_sub :: "nat \<Rightarrow> nat \<Rightarrow> nat res" where
  "pos_sub a b = (if b \<le> a then Inr (a - b) else Inl Overflow)"

definition relative_pos_range :: "smap \<Rightarrow> span \<Rightarrow> span \<Rightarrow> (nat \<times> nat) res" where
  "relative_pos_range sm sp sub_sp =
     (if sm_lo sm sub_sp < sm_lo sm sp \<or> sm_hi sm sp < sm_hi sm sub_sp then Inr (0, 0)
      else let offset = sm_lo sm sp in
        rbind (pos_sub (sm_lo sm sub_sp) offset) (\<lambda>lo. rbind (pos_sub (sm_hi sm sub_sp) offset) (\<lambda>hi. Inr (lo, hi))))"

definition are_spans_in_same_file :: "smap \<Rightarrow> span \<Rightarrow> span \<Rightarrow> bool" where
  "are_spans_in_same_file sm sp1 sp2 \<longleftrightarrow> sm_source_file sm (sm_lo sm sp1) = sm_source_file sm (sm_lo sm sp2)"

subsection \<open>Names of definitions\<close>

text \<open>The node of the HIR with the name of its identifier, and names of files as the compiler has them.\<close>

datatype hir_node = Hn_Item string | Hn_ImplItem string | Hn_ForeignItem string | Hn_TraitItem string | Hn_Other

datatype file_name = Fn_Real string | Fn_Virtual

record ncx =
  nc_is_local :: "def_id \<Rightarrow> bool"
  nc_node :: "def_id \<Rightarrow> hir_node option"
  nc_file :: "def_id \<Rightarrow> file_name"
  nc_def_path :: "def_id \<Rightarrow> string"

definition get_fn_name :: "ncx \<Rightarrow> def_id \<Rightarrow> string option" where
  "get_fn_name cx d = Some (nc_def_path cx d)"

definition get_name :: "ncx \<Rightarrow> def_id \<Rightarrow> string option" where
  "get_name cx d =
     (if nc_is_local cx d then
        (case nc_node cx d of
           Some (Hn_Item s) \<Rightarrow> Some s
         | Some (Hn_ImplItem s) \<Rightarrow> Some s
         | Some (Hn_ForeignItem s) \<Rightarrow> Some s
         | Some (Hn_TraitItem s) \<Rightarrow> Some s
         | Some Hn_Other \<Rightarrow> None
         | None \<Rightarrow> None)
      else None)"

definition convert_filename :: "file_name \<Rightarrow> string" where
  "convert_filename f = (case f of Fn_Real path \<Rightarrow> path | Fn_Virtual \<Rightarrow> ''<unknown>'')"

definition get_filename :: "ncx \<Rightarrow> def_id \<Rightarrow> string option" where
  "get_filename cx d = (if nc_is_local cx d then Some (convert_filename (nc_file cx d)) else None)"

subsection \<open>Reports\<close>

datatype report_level = Lv_Error | Lv_Warning | Lv_Info

record annotation =
  an_level :: report_level
  an_range :: "nat \<times> nat"
  an_label :: "string option"

record report =
  rp_title :: string
  rp_source :: string
  rp_line_start :: nat
  rp_origin :: string
  rp_annotations :: "annotation list"
  rp_footer :: "string option"

definition annotate :: "smap \<Rightarrow> span \<Rightarrow> report_level \<Rightarrow> string option \<Rightarrow> span \<Rightarrow> annotation res" where
  "annotate sm sp level label sub_sp =
     rbind (relative_pos_range sm sp sub_sp) (\<lambda>r. Inr \<lparr>an_level = level, an_range = r, an_label = label\<rparr>)"

subsection \<open>Ranges\<close>

definition rel_range :: "smap \<Rightarrow> span \<Rightarrow> span \<Rightarrow> nat \<times> nat" where
  "rel_range sm sp sub_sp =
     (if sm_lo sm sub_sp < sm_lo sm sp \<or> sm_hi sm sp < sm_hi sm sub_sp then (0, 0)
      else (sm_lo sm sub_sp - sm_lo sm sp, sm_hi sm sub_sp - sm_lo sm sp))"

lemma relative_pos_range_eq [simp]:
  assumes "smap_ok sm"
  shows "relative_pos_range sm sp sub_sp = Inr (rel_range sm sp sub_sp)"
proof -
  have "sm_lo sm sub_sp \<le> sm_hi sm sub_sp" using assms by (simp add: smap_ok_def)
  then show ?thesis by (auto simp: relative_pos_range_def rel_range_def pos_sub_def Let_def)
qed

lemma annotate_eq [simp]: "smap_ok sm \<Longrightarrow> annotate sm sp lv l s = Inr \<lparr>an_level = lv, an_range = rel_range sm sp s, an_label = l\<rparr>"
  by (simp add: annotate_def)

text \<open>A range that lies in a text.\<close>

definition in_text :: "string \<Rightarrow> nat \<times> nat \<Rightarrow> bool" where
  "in_text src r \<longleftrightarrow> fst r \<le> snd r \<and> snd r \<le> length src"

definition report_fits :: "report \<Rightarrow> bool" where
  "report_fits r \<longleftrightarrow> list_all (\<lambda>a. in_text (rp_source r) (an_range a)) (rp_annotations r)"

lemma smap_length: "smap_ok sm \<Longrightarrow> sm_snippet sm sp = Some src \<Longrightarrow> length src = sm_hi sm sp - sm_lo sm sp"
  unfolding smap_ok_def by fastforce

lemma rel_range_in_text:
  assumes "smap_ok sm" "sm_snippet sm sp = Some src"
  shows "in_text src (rel_range sm sp s)"
proof -
  have "sm_lo sm s \<le> sm_hi sm s" using assms by (auto simp: smap_ok_def)
  then show ?thesis using smap_length [OF assms] by (auto simp: in_text_def rel_range_def)
qed

text \<open>The marked text is the text of the annotated span if that lies inside the reported one.\<close>

definition marked :: "string \<Rightarrow> nat \<times> nat \<Rightarrow> string" where
  "marked src r = take (snd r - fst r) (drop (fst r) src)"

definition span_inside :: "smap \<Rightarrow> span \<Rightarrow> span \<Rightarrow> bool" where
  "span_inside sm s sp \<longleftrightarrow> sm_lo sm sp \<le> sm_lo sm s \<and> sm_hi sm s \<le> sm_hi sm sp"

lemma marked_text:
  assumes "smap_ok sm" "sm_snippet sm sp = Some src" "sm_snippet sm s = Some t" "span_inside sm s sp"
  shows "marked src (rel_range sm sp s) = t"
proof -
  obtain space where sp: "sm_snippet sm sp = Some src \<Longrightarrow> src = take (sm_hi sm sp - sm_lo sm sp) (drop (sm_lo sm sp) space)"
    and s: "sm_snippet sm s = Some t \<Longrightarrow> t = take (sm_hi sm s - sm_lo sm s) (drop (sm_lo sm s) space)"
    using assms(1) unfolding smap_ok_def by blast
  have "sm_lo sm s \<le> sm_hi sm s" using assms(1) by (simp add: smap_ok_def)
  then show ?thesis unfolding sp [OF assms(2)] s [OF assms(3)] using assms(4)
    by (auto simp: marked_def rel_range_def span_inside_def drop_take min_def)
qed

end
