(* ===== verification/Sd_Report.thy ===== *)
theory Sd_Report
  imports Report Safedrop_Start
begin

section \<open>The reports of SafeDrop\<close>

text \<open>
  \<^verbatim>\<open>safedrop/bug_records.rs\<close> and \<open>report_bugs\<close> of \<^verbatim>\<open>safedrop/check_bugs.rs\<close>: what is printed for the records of a function. The order in
  which the loops visit the hash tables is the record \<open>report_order\<close>. A line of the output is a warning or a rendered report.
\<close>

datatype out_line = Warn string | Rendered report

record report_order =
  ro_map :: "(nat \<rightharpoonup> span) \<Rightarrow> (nat \<times> span) list"
  ro_set :: "span set \<Rightarrow> span list"

text \<open>The part that the outputs share: a snippet of the function with an annotation for every span in the same file.\<close>

definition bug_snippet :: "smap \<Rightarrow> span \<Rightarrow> string \<Rightarrow> string \<Rightarrow> string \<Rightarrow> string \<Rightarrow> span list \<Rightarrow> out_line res" where
  "bug_snippet sm sp code_source filename title label spans =
     rbind (rfold (\<lambda>i as. if are_spans_in_same_file sm sp i then rbind (annotate sm sp Lv_Warning (Some label) i) (\<lambda>a. Inr (as @ [a])) else Inr as)
         spans []) (\<lambda>as.
       Inr (Rendered \<lparr>rp_title = title, rp_source = code_source, rp_line_start = span_to_line_number sm sp, rp_origin = filename,
         rp_annotations = as, rp_footer = None\<rparr>))"

definition df_bugs_output :: "smap \<Rightarrow> report_order \<Rightarrow> bug_records \<Rightarrow> string \<Rightarrow> span \<Rightarrow> out_line list res" where
  "df_bugs_output sm ro r fn_name sp =
     (if df_bugs r \<noteq> Map.empty then
        rbind (span_to_source_code sm sp) (\<lambda>code_source.
        rbind (bug_snippet sm sp code_source (sm_filename sm sp) ''Double free detected.'' ''Double free detected.'' (map snd (ro_map ro (df_bugs r)))) (\<lambda>b.
          Inr [Warn (''Double free detected in function '' @ fn_name), b]))
      else Inr [])"

definition uaf_bugs_output :: "smap \<Rightarrow> report_order \<Rightarrow> bug_records \<Rightarrow> string \<Rightarrow> span \<Rightarrow> out_line list res" where
  "uaf_bugs_output sm ro r fn_name sp =
     (if uaf_bugs r \<noteq> {} then
        rbind (span_to_source_code sm sp) (\<lambda>code_source.
        rbind (bug_snippet sm sp code_source (sm_filename sm sp) ''Use after free detected.'' ''Use after free detected.'' (ro_set ro (uaf_bugs r))) (\<lambda>b.
          Inr [Warn (''Use after free detected in function '' @ sm_debug_str sm fn_name), b]))
      else Inr [])"

definition dp_bug_output :: "smap \<Rightarrow> report_order \<Rightarrow> bug_records \<Rightarrow> string \<Rightarrow> span \<Rightarrow> out_line list res" where
  "dp_bug_output sm ro r fn_name sp =
     rbind (span_to_source_code sm sp) (\<lambda>code_source.
     let filename = sm_filename sm sp in
     rbind (if dp_bugs r \<noteq> {} then
         rbind (bug_snippet sm sp code_source filename ''Dangling pointer detected.'' ''Dangling pointer detected.'' (ro_set ro (dp_bugs r))) (\<lambda>b.
           Inr [Warn (''Dangling pointer detected in function '' @ sm_debug_str sm fn_name), b])
       else Inr []) (\<lambda>out.
     if dp_bugs_unwind r \<noteq> {} then
       rbind (bug_snippet sm sp code_source filename ''Dangling pointer detected during unwinding.'' ''Dangling pointer detected during unwinding.'' (ro_set ro (dp_bugs_unwind r))) (\<lambda>b.
         Inr (out @ [Warn (''Dangling pointer detected in function '' @ sm_debug_str sm fn_name @ '' during unwinding.''), b]))
     else Inr out))"

definition report_bugs :: "smap \<Rightarrow> report_order \<Rightarrow> ncx \<Rightarrow> def_id \<Rightarrow> span \<Rightarrow> bug_records \<Rightarrow> out_line list res" where
  "report_bugs sm ro cx d sp r =
     (if case get_filename cx d of Some f \<Rightarrow> str_contains f ''.cargo'' | None \<Rightarrow> False then Inr []
      else if is_bug_free r then Inr []
      else let fn_name = (case get_name cx d of Some s \<Rightarrow> s | None \<Rightarrow> ''no symbol available'') in
        rbind (df_bugs_output sm ro r fn_name sp) (\<lambda>a.
        rbind (uaf_bugs_output sm ro r fn_name sp) (\<lambda>b.
        rbind (dp_bug_output sm ro r fn_name sp) (\<lambda>c. Inr (a @ b @ c)))))"

subsection \<open>What is printed\<close>

text \<open>The records that are printed, with the text they are labelled with.\<close>

definition sd_found :: "bug_records \<Rightarrow> (string \<times> span) set" where
  "sd_found r = Pair ''Double free detected.'' ` ran (df_bugs r) \<union> Pair ''Use after free detected.'' ` uaf_bugs r \<union>
     Pair ''Dangling pointer detected.'' ` dp_bugs r \<union> Pair ''Dangling pointer detected during unwinding.'' ` dp_bugs_unwind r"

definition rendered :: "out_line list \<Rightarrow> report list" where
  "rendered out = concat (map (\<lambda>l. case l of Rendered r \<Rightarrow> [r] | Warn _ \<Rightarrow> []) out)"

definition marks :: "out_line list \<Rightarrow> (string \<times> nat \<times> nat) set" where
  "marks out = (\<Union>r\<in>set (rendered out). (\<lambda>a. (the (an_label a), an_range a)) ` set (rp_annotations r))"

definition report_order_ok :: "report_order \<Rightarrow> bug_records \<Rightarrow> bool" where
  "report_order_ok ro r \<longleftrightarrow> snd ` set (ro_map ro (df_bugs r)) = ran (df_bugs r) \<and> set (ro_set ro (uaf_bugs r)) = uaf_bugs r \<and>
     set (ro_set ro (dp_bugs r)) = dp_bugs r \<and> set (ro_set ro (dp_bugs_unwind r)) = dp_bugs_unwind r"

lemma rendered_simps [simp]:
  "rendered [] = []" "rendered (Warn w # out) = rendered out" "rendered (Rendered r # out) = r # rendered out"
  "rendered (xs @ ys) = rendered xs @ rendered ys"
  by (simp_all add: rendered_def)

text \<open>The snippet for one kind of bug.\<close>

definition snippet_of :: "smap \<Rightarrow> span \<Rightarrow> string \<Rightarrow> string \<Rightarrow> string \<Rightarrow> span list \<Rightarrow> report" where
  "snippet_of sm sp src title label spans =
     \<lparr>rp_title = title, rp_source = src, rp_line_start = span_to_line_number sm sp, rp_origin = sm_filename sm sp,
      rp_annotations = map (\<lambda>s. \<lparr>an_level = Lv_Warning, an_range = rel_range sm sp s, an_label = Some label\<rparr>)
        (filter (are_spans_in_same_file sm sp) spans), rp_footer = None\<rparr>"

lemma bug_snippet_eq:
  assumes "smap_ok sm"
  shows "bug_snippet sm sp src (sm_filename sm sp) title label spans = Inr (Rendered (snippet_of sm sp src title label spans))"
proof -
  have "rfold (\<lambda>i as. if are_spans_in_same_file sm sp i then rbind (annotate sm sp Lv_Warning (Some label) i) (\<lambda>a. Inr (as @ [a])) else Inr as) spans as =
      Inr (as @ map (\<lambda>s. \<lparr>an_level = Lv_Warning, an_range = rel_range sm sp s, an_label = Some label\<rparr>) (filter (are_spans_in_same_file sm sp) spans))" for as
    by (induction spans arbitrary: as) (use assms in simp_all)
  then show ?thesis by (simp add: bug_snippet_def snippet_of_def)
qed

lemma snippet_of_fits: "smap_ok sm \<Longrightarrow> sm_snippet sm sp = Some src \<Longrightarrow> report_fits (snippet_of sm sp src title label spans)"
  by (auto simp: report_fits_def snippet_of_def list_all_iff rel_range_in_text)

lemma snippet_of_marks: "(\<lambda>a. (the (an_label a), an_range a)) ` set (rp_annotations (snippet_of sm sp src title label spans)) =
    (\<lambda>(l, s). (l, rel_range sm sp s)) ` {(l, s) \<in> Pair label ` set spans. are_spans_in_same_file sm sp s}"
  by (auto simp: snippet_of_def image_def)

text \<open>The lines for one kind of bug.\<close>

definition bug_part :: "string \<Rightarrow> report \<Rightarrow> bool \<Rightarrow> out_line list" where
  "bug_part w rp found = (if found then [Warn w, Rendered rp] else [])"

definition shown :: "smap \<Rightarrow> span \<Rightarrow> (string \<times> span) set \<Rightarrow> (string \<times> nat \<times> nat) set" where
  "shown sm sp F = (\<lambda>(l, s). (l, rel_range sm sp s)) ` {(l, s) \<in> F. are_spans_in_same_file sm sp s}"

lemma shown_Un: "shown sm sp (F \<union> G) = shown sm sp F \<union> shown sm sp G"
  unfolding shown_def by blast

lemma marks_append: "marks (xs @ ys) = marks xs \<union> marks ys"
  by (simp add: marks_def)

lemma marks_part: "set spans = S \<Longrightarrow> marks (bug_part w (snippet_of sm sp src title label spans) (S \<noteq> {})) = shown sm sp (Pair label ` S)"
  unfolding marks_def shown_def by (auto simp: bug_part_def snippet_of_marks)

lemma ran_empty_iff: "ran m = {} \<longleftrightarrow> m = Map.empty"
  by (auto simp: ran_def fun_eq_iff) (metis not_None_eq)

lemma report_bugs_parts:
  assumes "smap_ok sm" "sm_snippet sm sp = Some src"
    and "\<not> (case get_filename cx d of Some f \<Rightarrow> str_contains f ''.cargo'' | None \<Rightarrow> False)" "\<not> is_bug_free r"
  obtains w1 w2 w3 w4 where "report_bugs sm ro cx d sp r = Inr (
      bug_part w1 (snippet_of sm sp src ''Double free detected.'' ''Double free detected.'' (map snd (ro_map ro (df_bugs r)))) (ran (df_bugs r) \<noteq> {}) @
      bug_part w2 (snippet_of sm sp src ''Use after free detected.'' ''Use after free detected.'' (ro_set ro (uaf_bugs r))) (uaf_bugs r \<noteq> {}) @
      bug_part w3 (snippet_of sm sp src ''Dangling pointer detected.'' ''Dangling pointer detected.'' (ro_set ro (dp_bugs r))) (dp_bugs r \<noteq> {}) @
      bug_part w4 (snippet_of sm sp src ''Dangling pointer detected during unwinding.'' ''Dangling pointer detected during unwinding.'' (ro_set ro (dp_bugs_unwind r))) (dp_bugs_unwind r \<noteq> {}))"
proof -
  obtain f where f: "(case get_name cx d of Some s \<Rightarrow> s | None \<Rightarrow> ''no symbol available'') = f" by blast
  have "df_bugs_output sm ro r f sp = Inr (bug_part (''Double free detected in function '' @ f)
      (snippet_of sm sp src ''Double free detected.'' ''Double free detected.'' (map snd (ro_map ro (df_bugs r)))) (ran (df_bugs r) \<noteq> {}))"
    by (simp add: df_bugs_output_def span_to_source_code_def assms bug_snippet_eq bug_part_def ran_empty_iff)
  moreover have "uaf_bugs_output sm ro r f sp = Inr (bug_part (''Use after free detected in function '' @ sm_debug_str sm f)
      (snippet_of sm sp src ''Use after free detected.'' ''Use after free detected.'' (ro_set ro (uaf_bugs r))) (uaf_bugs r \<noteq> {}))"
    by (simp add: uaf_bugs_output_def span_to_source_code_def assms bug_snippet_eq bug_part_def)
  moreover have "dp_bug_output sm ro r f sp = Inr (bug_part (''Dangling pointer detected in function '' @ sm_debug_str sm f)
      (snippet_of sm sp src ''Dangling pointer detected.'' ''Dangling pointer detected.'' (ro_set ro (dp_bugs r))) (dp_bugs r \<noteq> {}) @
    bug_part (''Dangling pointer detected in function '' @ sm_debug_str sm f @ '' during unwinding.'')
      (snippet_of sm sp src ''Dangling pointer detected during unwinding.'' ''Dangling pointer detected during unwinding.'' (ro_set ro (dp_bugs_unwind r))) (dp_bugs_unwind r \<noteq> {}))"
    by (simp add: dp_bug_output_def span_to_source_code_def assms bug_snippet_eq bug_part_def Let_def)
  ultimately show thesis using that assms(3,4) by (simp add: report_bugs_def f Let_def)
qed

lemma report_bugs_lines:
  assumes "smap_ok sm" "report_order_ok ro r" "sm_snippet sm sp = Some src"
    and "\<not> (case get_filename cx d of Some f \<Rightarrow> str_contains f ''.cargo'' | None \<Rightarrow> False)"
  shows "\<exists>out. report_bugs sm ro cx d sp r = Inr out \<and> (out = [] \<longleftrightarrow> is_bug_free r) \<and> list_all report_fits (rendered out) \<and>
     marks out = shown sm sp (sd_found r)"
proof (cases "is_bug_free r")
  case True
  then have "sd_found r = {}" by (auto simp: is_bug_free_def sd_found_def)
  moreover have "report_bugs sm ro cx d sp r = Inr []" using True by (simp add: report_bugs_def)
  ultimately show ?thesis using True by (simp add: marks_def shown_def)
next
  case False
  obtain out where out: "report_bugs sm ro cx d sp r = Inr out" "marks out = shown sm sp (sd_found r)"
      "list_all report_fits (rendered out)" "out = [] \<longrightarrow> is_bug_free r"
  proof (rule report_bugs_parts [OF assms(1,3,4) False, where ro = ro])
    fix w1 w2 w3 w4
    let ?out = "bug_part w1 (snippet_of sm sp src ''Double free detected.'' ''Double free detected.'' (map snd (ro_map ro (df_bugs r)))) (ran (df_bugs r) \<noteq> {}) @
      bug_part w2 (snippet_of sm sp src ''Use after free detected.'' ''Use after free detected.'' (ro_set ro (uaf_bugs r))) (uaf_bugs r \<noteq> {}) @
      bug_part w3 (snippet_of sm sp src ''Dangling pointer detected.'' ''Dangling pointer detected.'' (ro_set ro (dp_bugs r))) (dp_bugs r \<noteq> {}) @
      bug_part w4 (snippet_of sm sp src ''Dangling pointer detected during unwinding.'' ''Dangling pointer detected during unwinding.'' (ro_set ro (dp_bugs_unwind r))) (dp_bugs_unwind r \<noteq> {})"
    assume r: "report_bugs sm ro cx d sp r = Inr ?out"
    have "marks ?out = shown sm sp (sd_found r)"
      unfolding marks_append sd_found_def shown_Un using assms(2) by (simp add: marks_part report_order_ok_def Un_assoc)
    moreover have "list_all report_fits (rendered ?out)"
      using snippet_of_fits [OF assms(1,3)] by (simp add: bug_part_def)
    moreover have "?out = [] \<longrightarrow> is_bug_free r" by (simp add: bug_part_def is_bug_free_def ran_empty_iff)
    ultimately show thesis using that r by blast
  qed
  then show ?thesis using False by blast
qed

text \<open>C39: Unless the function is in a file below \<^verbatim>\<open>.cargo\<close>, and if the text of the function is known, reporting returns. Nothing is
  printed exactly if the records are free of bugs; the annotations are exactly those for the recorded double frees, uses after free
  and dangling pointers, on unwinding paths too, that are in the file of the function; every annotation is a range of the printed text,
  and of a span inside the function it marks exactly the text of that span.\<close>

theorem report_bugs_exact:
  assumes "smap_ok sm" "report_order_ok ro r" "sm_snippet sm sp = Some src"
    and "\<not> (case get_filename cx d of Some f \<Rightarrow> str_contains f ''.cargo'' | None \<Rightarrow> False)"
  shows "\<exists>out. report_bugs sm ro cx d sp r = Inr out \<and> (out = [] \<longleftrightarrow> is_bug_free r) \<and> list_all report_fits (rendered out) \<and>
     marks out = (\<lambda>(l, s). (l, rel_range sm sp s)) ` {(l, s) \<in> sd_found r. are_spans_in_same_file sm sp s} \<and>
     (\<forall>s t. sm_snippet sm s = Some t \<and> span_inside sm s sp \<longrightarrow> marked src (rel_range sm sp s) = t)"
  using report_bugs_lines [OF assms] marked_text [OF assms(1,3)] unfolding shown_def by blast

text \<open>A function of four bytes at position 2 with a use after free at its third byte.\<close>

definition demo_smap :: smap where
  "demo_smap = \<lparr>sm_lo = (\<lambda>sp. if sp = 1 then 2 else if sp = 2 then 4 else 0), sm_hi = (\<lambda>sp. if sp = 1 then 6 else if sp = 2 then 5 else 0),
     sm_snippet = (\<lambda>sp. if sp = 1 then Some ''cdef'' else if sp = 2 then Some ''e'' else Some ''''), sm_source_file = (\<lambda>_. ''a.rs''),
     sm_filename = (\<lambda>_. ''a.rs''), sm_line = (\<lambda>_. 1), sm_extend_to_line = (\<lambda>sp. sp), sm_shrink_to_lo = (\<lambda>_. 0), sm_take_blank = (\<lambda>_. 0),
     sm_trim_start = (\<lambda>sp _. Some sp), sm_debug_str = (\<lambda>s. s)\<rparr>"

lemma demo_smap_ok: "smap_ok demo_smap"
  unfolding smap_ok_def by (rule conjI, simp add: demo_smap_def, rule exI [of _ "''abcdef''"]) (simp add: demo_smap_def numeral_eq_Suc)

definition demo_order :: report_order where
  "demo_order = \<lparr>ro_map = (\<lambda>_. []), ro_set = (\<lambda>S. filter (\<lambda>s. s \<in> S) [2])\<rparr>"

definition demo_ncx :: ncx where
  "demo_ncx = \<lparr>nc_is_local = (\<lambda>_. True), nc_node = (\<lambda>_. Some (Hn_Item ''f'')), nc_file = (\<lambda>_. Fn_Real ''a.rs''), nc_def_path = (\<lambda>_. ''f'')\<rparr>"

theorem report_bugs_exact_witness:
  "\<exists>out. report_bugs demo_smap demo_order demo_ncx 0 1 (bug_records_new\<lparr>uaf_bugs := {2}\<rparr>) = Inr out \<and>
     marks out = {(''Use after free detected.'', 2, 3)} \<and> marked ''cdef'' (2, 3) = ''e''"
proof -
  have "\<exists>out. report_bugs demo_smap demo_order demo_ncx 0 1 (bug_records_new\<lparr>uaf_bugs := {2}\<rparr>) = Inr out \<and>
      (out = [] \<longleftrightarrow> is_bug_free (bug_records_new\<lparr>uaf_bugs := {2}\<rparr>)) \<and> list_all report_fits (rendered out) \<and>
      marks out = (\<lambda>(l, s). (l, rel_range demo_smap 1 s)) ` {(l, s) \<in> sd_found (bug_records_new\<lparr>uaf_bugs := {2}\<rparr>). are_spans_in_same_file demo_smap 1 s} \<and>
      (\<forall>s t. sm_snippet demo_smap s = Some t \<and> span_inside demo_smap s 1 \<longrightarrow> marked ''cdef'' (rel_range demo_smap 1 s) = t)"
    by (rule report_bugs_exact [OF demo_smap_ok])
      (simp_all add: report_order_ok_def demo_order_def bug_records_new_def demo_smap_def demo_ncx_def get_filename_def convert_filename_def)
  moreover have "(\<lambda>(l, s). (l, rel_range demo_smap 1 s)) ` {(l, s) \<in> sd_found (bug_records_new\<lparr>uaf_bugs := {2}\<rparr>). are_spans_in_same_file demo_smap 1 s} =
      {(''Use after free detected.'', 2, 3)}"
    by (auto simp: sd_found_def bug_records_new_def rel_range_def demo_smap_def are_spans_in_same_file_def)
  moreover have "rel_range demo_smap 1 2 = (2, 3)" "sm_snippet demo_smap 2 = Some ''e''" "span_inside demo_smap 2 1"
    by (simp_all add: rel_range_def demo_smap_def span_inside_def)
  ultimately show ?thesis by metis
qed

end
