(* ===== verification/Rc_Report.thy ===== *)
theory Rc_Report
  imports Sd_Report Rc_Intra_Props
begin

section \<open>The reports of rCanary\<close>

text \<open>
  The end of \<open>handle_return\<close> in \<^verbatim>\<open>rcanary/ranalyzer/intra_visitor.rs\<close>: what is printed for a leak, with the calls at which ownership went
  into a pointer as candidates.
\<close>

definition leak_report :: "smap \<Rightarrow> ncx \<Rightarrow> def_id \<Rightarrow> span \<Rightarrow> terminator list \<Rightarrow> out_line list res" where
  "leak_report sm cx d body_sp taint_source =
     (let fn_name = (case get_name cx d of Some s \<Rightarrow> s | None \<Rightarrow> ''no symbol available'') in
      rbind (span_to_source_code sm body_sp) (\<lambda>source.
      rbind (bug_snippet sm body_sp source (sm_filename sm body_sp) ''Memory Leak detected.'' ''Memory Leak Candidates.'' (map t_span taint_source)) (\<lambda>b.
        Inr [Warn (''Memory Leak detected in function '' @ fn_name), b])))"

definition rc_print :: "smap \<Rightarrow> ncx \<Rightarrow> tcx \<Rightarrow> (def_id \<times> terminator list) list \<Rightarrow> out_line list res" where
  "rc_print sm cx tcx leaks =
     rfold (\<lambda>(d, sources) out. rbind (leak_report sm cx d (body_span (optimized_mir tcx d)) sources) (\<lambda>ls. Inr (out @ ls))) leaks []"

lemma leak_report_eq:
  assumes "smap_ok sm" "sm_snippet sm sp = Some src"
  shows "\<exists>w. leak_report sm cx d sp ts =
    Inr [Warn w, Rendered (snippet_of sm sp src ''Memory Leak detected.'' ''Memory Leak Candidates.'' (map t_span ts))]"
  by (simp add: leak_report_def span_to_source_code_def assms bug_snippet_eq Let_def)

text \<open>The ranges of the candidates of a leak that are in the file of the function.\<close>

definition leak_ranges :: "smap \<Rightarrow> tcx \<Rightarrow> def_id \<times> terminator list \<Rightarrow> (nat \<times> nat) list" where
  "leak_ranges sm tcx = (\<lambda>(d, ts). let sp = body_span (optimized_mir tcx d) in
     map (rel_range sm sp) (filter (are_spans_in_same_file sm sp) (map t_span ts)))"

definition leaks_printed :: "smap \<Rightarrow> tcx \<Rightarrow> (def_id \<times> terminator list) list \<Rightarrow> out_line list \<Rightarrow> bool" where
  "leaks_printed sm tcx leaks out \<longleftrightarrow> length out = 2 * length leaks \<and> list_all report_fits (rendered out) \<and>
     map (\<lambda>r. map an_range (rp_annotations r)) (rendered out) = map (leak_ranges sm tcx) leaks"

text \<open>If the texts of the functions with leaks are known, every leak is printed as one warning and one report in order, and its annotations
  are those of the candidates in the file of the function, inside the printed text.\<close>

theorem rc_print_exact:
  assumes "smap_ok sm" "list_all (\<lambda>(d, _). sm_snippet sm (body_span (optimized_mir tcx d)) \<noteq> None) leaks"
  shows "\<exists>out. rc_print sm cx tcx leaks = Inr out \<and> leaks_printed sm tcx leaks out"
proof -
  let ?f = "\<lambda>(d, sources) out. rbind (leak_report sm cx d (body_span (optimized_mir tcx d)) sources) (\<lambda>ls. Inr (out @ ls))"
  have "\<exists>out. rfold ?f leaks acc = Inr (acc @ out) \<and> leaks_printed sm tcx leaks out" for acc
    using assms(2)
  proof (induction leaks arbitrary: acc)
    case (Cons l leaks)
    obtain d ts where l: "l = (d, ts)" by (cases l)
    let ?sp = "body_span (optimized_mir tcx d)"
    from Cons.prems l obtain src where src: "sm_snippet sm ?sp = Some src" by auto
    let ?r = "snippet_of sm ?sp src ''Memory Leak detected.'' ''Memory Leak Candidates.'' (map t_span ts)"
    obtain w where w: "leak_report sm cx d ?sp ts = Inr [Warn w, Rendered ?r]" using leak_report_eq [OF assms(1) src] by blast
    have "list_all (\<lambda>(d, _). sm_snippet sm (body_span (optimized_mir tcx d)) \<noteq> None) leaks" using Cons.prems by simp
    from Cons.IH [OF this, of "acc @ [Warn w, Rendered ?r]"]
    obtain out where out: "rfold ?f leaks (acc @ [Warn w, Rendered ?r]) = Inr ((acc @ [Warn w, Rendered ?r]) @ out)" "leaks_printed sm tcx leaks out" by blast
    have "map an_range (rp_annotations ?r) = leak_ranges sm tcx l" by (simp add: l snippet_of_def leak_ranges_def comp_def Let_def)
    then have "leaks_printed sm tcx (l # leaks) (Warn w # Rendered ?r # out)"
      using out(2) snippet_of_fits [OF assms(1) src] by (simp add: leaks_printed_def)
    moreover have "rfold ?f (l # leaks) acc = Inr (acc @ Warn w # Rendered ?r # out)" using out(1) by (simp add: l w)
    ultimately show ?case by blast
  qed (simp add: leaks_printed_def)
  from this [of "[]"] show ?thesis by (simp add: rc_print_def)
qed

end
