(* ===== verification/Opt_Report.thy ===== *)
theory Opt_Report
  imports Report Opt_Props
begin

section \<open>The reports of the performance lints\<close>

text \<open>
  The functions \<open>report\<close> of \<^verbatim>\<open>analysis/opt\<close>: what is handed to the renderer for the records of each lint, and the loops of \<open>Opt::start\<close>
  over the records. A graph reports with the text of its function, a push in a loop with the text of the loop.
\<close>

subsection \<open>Reports of one record\<close>

definition snippet_report :: "smap \<Rightarrow> span \<Rightarrow> string \<Rightarrow> string \<Rightarrow> string \<Rightarrow> annotation list \<Rightarrow> string option \<Rightarrow> report" where
  "snippet_report sm sp title code_source filename as footer =
     \<lparr>rp_title = title, rp_source = code_source, rp_line_start = span_to_line_number sm sp, rp_origin = filename,
      rp_annotations = as, rp_footer = footer\<rparr>"

definition report_upperbound_bug :: "smap \<Rightarrow> df_graph \<Rightarrow> nat \<Rightarrow> nat list \<Rightarrow> report res" where
  "report_upperbound_bug sm g upperbound_node_idx index_record =
     rbind (at (df_nodes g) upperbound_node_idx) (\<lambda>ub.
     rbind (span_to_source_code sm (df_span g)) (\<lambda>code_source.
     rbind (annotate sm (df_span g) Lv_Info (Some ''Index is upperbounded.'') (gn_span ub)) (\<lambda>a.
     rbind (rmap (\<lambda>node_idx. rbind (at (df_nodes g) node_idx) (\<lambda>n. annotate sm (df_span g) Lv_Error (Some ''Checked here.'') (gn_span n))) index_record) (\<lambda>as.
       Inr (snippet_report sm (df_span g) ''Unnecessary bounds checkings detected'' code_source (sm_filename sm (gn_span ub)) (a # as) None)))))"

definition report_loop_push_bug :: "smap \<Rightarrow> span \<Rightarrow> span list \<Rightarrow> report res" where
  "report_loop_push_bug sm loop_span push_record =
     rbind (span_to_source_code sm loop_span) (\<lambda>code_source.
     rbind (span_to_trimmed_span sm (span_to_first_line sm loop_span)) (\<lambda>first.
     rbind (annotate sm loop_span Lv_Info (Some ''A loop operation.'') first) (\<lambda>a.
     rbind (rmap (annotate sm loop_span Lv_Error (Some ''Push happens here.'')) push_record) (\<lambda>as.
       Inr (snippet_report sm loop_span ''Unnecessary bounds checkings detected'' code_source (sm_filename sm loop_span) (a # as) None)))))"

definition report_used_as_immutable :: "smap \<Rightarrow> df_graph \<Rightarrow> span \<times> span \<Rightarrow> report res" where
  "report_used_as_immutable sm g = (\<lambda>(clone_span, use_span).
     rbind (span_to_source_code sm (df_span g)) (\<lambda>code_source.
     rbind (annotate sm (df_span g) Lv_Error (Some ''Cloning happens here.'') clone_span) (\<lambda>a.
     rbind (annotate sm (df_span g) Lv_Error (Some ''Used here'') use_span) (\<lambda>b.
       Inr (snippet_report sm (df_span g) ''Unnecessary memory cloning detected'' code_source (sm_filename sm clone_span) [a, b]
         (Some ''Use borrowings instead.''))))))"

definition report_hash_key_cloning :: "smap \<Rightarrow> df_graph \<Rightarrow> span \<times> span \<Rightarrow> report res" where
  "report_hash_key_cloning sm g = (\<lambda>(clone_span, insert_span).
     rbind (span_to_source_code sm (df_span g)) (\<lambda>code_source.
     rbind (annotate sm (df_span g) Lv_Error (Some ''Cloning happens here.'') clone_span) (\<lambda>a.
     rbind (annotate sm (df_span g) Lv_Error (Some ''Used here.'') insert_span) (\<lambda>b.
       Inr (snippet_report sm (df_span g) ''Unnecessary memory cloning detected'' code_source (sm_filename sm clone_span) [a, b]
         (Some ''Use borrowings as keys.''))))))"

definition report_slice_contains_bug :: "smap \<Rightarrow> df_graph \<Rightarrow> span \<Rightarrow> report res" where
  "report_slice_contains_bug sm g contains_span =
     rbind (span_to_source_code sm (df_span g)) (\<lambda>code_source.
     rbind (annotate sm (df_span g) Lv_Error (Some ''Slice contains happens here.'') contains_span) (\<lambda>a.
       Inr (snippet_report sm (df_span g) ''Improper data collection detected'' code_source (sm_filename sm (df_span g)) [a]
         (Some ''Use Set instead of Slice.''))))"

definition report_next_iterator_bug :: "smap \<Rightarrow> span list \<Rightarrow> span list \<Rightarrow> span \<Rightarrow> report res" where
  "report_next_iterator_bug sm next_record chain_record graph_span =
     rbind (span_to_source_code sm graph_span) (\<lambda>code_source.
     rbind (rmap (annotate sm graph_span Lv_Error None) next_record) (\<lambda>ns.
     rbind (rmap (annotate sm graph_span Lv_Error None) chain_record) (\<lambda>cs.
       Inr (snippet_report sm graph_span ''Inefficient iterators detected'' code_source (sm_filename sm graph_span) (ns @ cs)
         (Some ''Use chunk iterators.'')))))"

subsection \<open>Reports of a crate\<close>

definition bounds_len_report :: "smap \<Rightarrow> df_graph \<Rightarrow> bounds_len_record \<Rightarrow> report list res" where
  "bounds_len_report sm g rec = rmap (\<lambda>(u, is). report_upperbound_bug sm g u is) rec"

definition bounds_loop_push_report :: "smap \<Rightarrow> loop_push_record \<Rightarrow> report list res" where
  "bounds_loop_push_report sm rec = rmap (\<lambda>(l, ps). report_loop_push_bug sm l ps) rec"

definition bounds_report :: "smap \<Rightarrow> df_graph \<times> bounds_check \<Rightarrow> report list res" where
  "bounds_report sm = (\<lambda>(g, b).
     rbind (bounds_len_report sm g (bc_bounds_len b)) (\<lambda>xs.
     rbind (bounds_loop_push_report sm (bc_bounds_loop_push b)) (\<lambda>ys. Inr (xs @ ys))))"

definition used_as_immutable_report :: "smap \<Rightarrow> df_graph \<times> (span \<times> span) list \<Rightarrow> report list res" where
  "used_as_immutable_report sm = (\<lambda>(g, rec). rmap (report_used_as_immutable sm g) rec)"

definition slice_contains_report :: "smap \<Rightarrow> df_graph \<times> span list \<Rightarrow> report list res" where
  "slice_contains_report sm = (\<lambda>(g, rec). rmap (report_slice_contains_bug sm g) rec)"

definition next_iterator_report :: "smap \<Rightarrow> df_graph \<times> next_iterator_check \<Rightarrow> report list res" where
  "next_iterator_report sm = (\<lambda>(g, c). rbind (report_next_iterator_bug sm (ni_next_record c) (ni_chain_record c) (df_span g)) (\<lambda>r. Inr [r]))"

definition opt_print :: "smap \<Rightarrow> opt_output \<Rightarrow> report list res" where
  "opt_print sm oo =
     rbind (rmap (bounds_report sm) (oo_bounds oo)) (\<lambda>a.
     rbind (rmap (used_as_immutable_report sm) (oo_immutable oo)) (\<lambda>b.
     rbind (rmap (slice_contains_report sm) (oo_slice oo)) (\<lambda>c.
     rbind (rmap (next_iterator_report sm) (oo_next oo)) (\<lambda>d. Inr (concat (a @ b @ c @ d))))))"

subsection \<open>Records name nodes of the graph\<close>

lemma df_dfs_safe:
  fixes P :: "'s \<Rightarrow> bool"
  assumes op: "\<And>i s. P s \<Longrightarrow> safe (\<lambda>r. P (snd r)) (node_operator i s)"
    and ev: "\<And>e s. P s \<Longrightarrow> safe (\<lambda>r. P (snd r)) (edge_validator e s)"
  shows "P s \<Longrightarrow> safe (\<lambda>r. P (snd r)) (df_dfs n g dir node_operator edge_validator ta now s)"
proof (induction n arbitrary: now s)
  case (Suc n)
  let ?F = "df_dfs n g dir node_operator edge_validator ta"
  have tr: "safe (\<lambda>r. P (snd r)) (df_traverse ?F edge_validator ta g ep es s)" if "P s" for ep es s
    unfolding df_traverse_def
  proof (rule safe_rany [where P = P, unfolded case_prod_beta, OF that], rule safe_bind_any)
    fix e s ed assume "P s"
    show "safe (\<lambda>r. P (snd r)) (rbind (edge_validator e s) (\<lambda>(v, s). if v = Continue
        then rbind (?F (ep ed) s) (\<lambda>(r, s). Inr (r = Stop \<and> \<not> ta, s)) else Inr (False, s)))"
      by (rule safe_rbindI [OF ev [OF \<open>P s\<close>]]) (auto split: prod.split intro!: safe_rbindI [OF Suc.IH])
  qed
  have both: "safe (\<lambda>r. P (snd r)) (rbind (df_traverse ?F edge_validator ta g ep es s)
      (\<lambda>(stop, s). if stop then Inr (True, s) else df_traverse ?F edge_validator ta g ep' es' s))" if "P s" for ep es s ep' es'
    by (rule safe_rbindI [OF tr [OF that]]) (use tr in \<open>auto split: prod.split\<close>)
  show ?case unfolding df_dfs.simps
  proof (rule safe_rbindI [OF op [OF Suc.prems]], unfold case_prod_beta)
    fix r :: "dfs_status \<times> 's" assume "P (snd r)"
    then show "safe (\<lambda>r. P (snd r)) (if fst r = Continue then rbind (at (df_nodes g) now) (\<lambda>node.
        let F = ?F; up = df_traverse F edge_validator ta g ge_src (gn_in_edges node); down = df_traverse F edge_validator ta g ge_dst (gn_out_edges node)
        in rbind (case dir of Upside \<Rightarrow> up (snd r) | Downside \<Rightarrow> down (snd r)
             | Both \<Rightarrow> rbind (up (snd r)) (\<lambda>p. if fst p then Inr (True, snd p) else down (snd p)))
           (\<lambda>p. Inr (if fst p then Stop else Continue, snd p))) else Inr (Stop, snd r))"
      using tr both [unfolded case_prod_beta] unfolding Let_def
      by (cases "fst r = Continue") (simp_all, rule safe_bind_any, rule safe_rbindI [where Q = "\<lambda>p. P (snd p)"], cases dir, simp_all)
  qed
qed simp

lemma call_search_start: "df_dfs_top g dir (call_operator g t) ev ta i s = Inr r \<Longrightarrow> i < length (df_nodes g)"
  by (auto simp: df_dfs_top_def call_operator_def res_iffs)

lemma index_nodes_valid: "safe (\<lambda>is. \<forall>i\<in>set is. i < length (df_nodes g)) (find_downside_index_node ps g n)"
proof -
  have "safe (\<lambda>r. \<forall>i\<in>set (snd r). i < length (df_nodes g))
      (df_dfs_top g Downside (index_operator ps g) (pure_validator always_true_edge_validator g) True n [])"
    unfolding df_dfs_top_def
    by (rule df_dfs_safe [where P = "\<lambda>s. \<forall>i\<in>set s. i < length (df_nodes g)"])
      (auto simp: index_operator_def pure_validator_def always_true_edge_validator_def safe_def res_iffs)
  then show ?thesis unfolding find_downside_index_node_def by (rule safe_rbindI) (simp add: case_prod_beta)
qed

definition record_valid :: "df_graph \<Rightarrow> bounds_len_record \<Rightarrow> bool" where
  "record_valid g rec \<longleftrightarrow> (\<forall>(u, is)\<in>set rec. u < length (df_nodes g) \<and> (\<forall>i\<in>set is. i < length (df_nodes g)))"

lemma bounds_len_node_valid:
  assumes "record_valid g rec"
  shows "safe (record_valid g) (bounds_len_node ps g (idx, node) rec)"
proof -
  have keep: "safe (\<lambda>irec. set irec \<subseteq> set is) (rfold (\<lambda>index_node_idx index_record.
      rbind (rbind (get_upside_idx g index_node_idx 0) unwrap) (\<lambda>v.
        Inr (if v \<in> set vs then index_record @ [index_node_idx] else index_record))) is [])" for vs "is"
    by (rule safe_rfold) (auto intro!: safe_bind_any)
  have head: "safe (record_valid g) (rbind (find_upside_vec_len_node ps g u) (\<lambda>vl. case vl of None \<Rightarrow> Inr rec | Some k \<Rightarrow> f k))"
    if "\<And>k. u < length (df_nodes g) \<Longrightarrow> safe (record_valid g) (f k)" for u f
    using call_search_start [of g Upside "bp_vec_len ps" _ False u None] assms that
    by (cases "find_upside_vec_len_node ps g u") (auto simp: find_upside_vec_len_node_def res_iffs split: option.split)
  have tail: "safe (record_valid g) (rbind (find_downside_index_node ps g idx) (\<lambda>is. rbind (rfold (\<lambda>index_node_idx index_record.
      rbind (rbind (get_upside_idx g index_node_idx 0) unwrap) (\<lambda>v.
        Inr (if v \<in> set vs then index_record @ [index_node_idx] else index_record))) is []) (\<lambda>irec.
        Inr (if irec \<noteq> [] then rec @ [(u, irec)] else rec))))" if "u < length (df_nodes g)" for u vs
    by (rule safe_rbindI [OF index_nodes_valid], rule safe_rbindI [OF keep]) (use that assms in \<open>auto simp: record_valid_def\<close>)
  show ?thesis unfolding bounds_len_node_def prod.case
  proof (rule safe_bind_any, split option.split, intro conjI allI impI)
    fix u
    show "safe (record_valid g) (rbind (find_upside_vec_len_node ps g u) (\<lambda>vl. case vl of None \<Rightarrow> Inr rec | Some vec_len_node_idx \<Rightarrow>
        rbind (rbind (get_upside_idx g vec_len_node_idx 0) unwrap) (\<lambda>maybe_vec_node_idx.
        rbind (collect_equivalent_locals g maybe_vec_node_idx True) (\<lambda>vs.
        rbind (find_downside_index_node ps g idx) (\<lambda>is. rbind (rfold (\<lambda>index_node_idx index_record.
          rbind (rbind (get_upside_idx g index_node_idx 0) unwrap) (\<lambda>v.
            Inr (if v \<in> set vs then index_record @ [index_node_idx] else index_record))) is []) (\<lambda>irec.
            Inr (if irec \<noteq> [] then rec @ [(u, irec)] else rec)))))))"
      by (rule head, rule safe_bind_any, rule safe_bind_any, rule tail)
  qed (simp add: assms)
qed

lemma bounds_len_check_valid: "bounds_len_check dcx g = Inr rec \<Longrightarrow> record_valid g rec"
proof -
  have "safe (record_valid g) (bounds_len_check dcx g)" unfolding bounds_len_check_def
    by (intro safe_bind_any safe_rfold) (use bounds_len_node_valid in \<open>auto simp: record_valid_def\<close>)
  then show "bounds_len_check dcx g = Inr rec \<Longrightarrow> record_valid g rec" by simp
qed

lemma opt_start_bounds:
  assumes "opt_start tcx dcx hcx is_fn defs = Inr oo" "(g, b) \<in> set (oo_bounds oo)"
  shows "record_valid g (bc_bounds_len b)"
proof -
  from assms(1) obtain gs where "opt_report dcx hcx gs = Inr oo" by (auto simp: opt_start_def rbind_Inr_iff)
  then obtain bs where "rmap (bounds_check_run dcx hcx) gs = Inr bs" "oo_bounds oo = zip gs bs \<or> oo_bounds oo = []"
    by (auto simp: opt_report_def rbind_Inr_iff Let_def split: if_splits)
  then have "bounds_check_run dcx hcx g = Inr b" using assms(2) by (auto simp: rmap_Inr list_all2_iff)
  then show ?thesis by (auto simp: bounds_check_run_def rbind_Inr_iff intro: bounds_len_check_valid)
qed

subsection \<open>Every report fits\<close>

definition known :: "smap \<Rightarrow> span \<Rightarrow> bool" where
  "known sm sp \<longleftrightarrow> sm_snippet sm sp \<noteq> None"

definition sources_known :: "smap \<Rightarrow> opt_output \<Rightarrow> bool" where
  "sources_known sm oo \<longleftrightarrow>
     list_all (\<lambda>(g, b). known sm (df_span g) \<and> list_all (\<lambda>(l, _). known sm l \<and>
       sm_trim_start sm (span_to_first_line sm l) (sm_take_blank sm (span_to_first_line sm l)) \<noteq> None) (bc_bounds_loop_push b)) (oo_bounds oo) \<and>
     list_all (\<lambda>(g, _). known sm (df_span g)) (oo_immutable oo) \<and> list_all (\<lambda>(g, _). known sm (df_span g)) (oo_slice oo) \<and>
     list_all (\<lambda>(g, _). known sm (df_span g)) (oo_next oo)"

definition opt_count :: "opt_output \<Rightarrow> nat" where
  "opt_count oo = sum_list (map (\<lambda>(g, b). length (bc_bounds_len b) + length (bc_bounds_loop_push b)) (oo_bounds oo)) +
     sum_list (map (length \<circ> snd) (oo_immutable oo)) + sum_list (map (length \<circ> snd) (oo_slice oo)) + length (oo_next oo)"

text \<open>So many reports, and all of them fit.\<close>

definition prints :: "nat \<Rightarrow> report list res \<Rightarrow> bool" where
  "prints k = ok (\<lambda>rs. length rs = k \<and> list_all report_fits rs)"

lemma rmap_total: "(\<And>x. x \<in> set xs \<Longrightarrow> f x = Inr (h x)) \<Longrightarrow> rmap f xs = Inr (map h xs)"
  by (simp add: rmap_Inr list_all2_map2 list_all2_same)

lemma prints_rmap:
  assumes "\<And>x. x \<in> set xs \<Longrightarrow> ok report_fits (f x)"
  shows "prints (length xs) (rmap f xs)"
proof -
  from assms obtain h where h: "\<And>x. x \<in> set xs \<Longrightarrow> f x = Inr (h x) \<and> report_fits (h x)" unfolding ok_def by metis
  then have "rmap f xs = Inr (map h xs)" by (intro rmap_total) simp
  with h show ?thesis by (simp add: prints_def list_all_iff)
qed

lemma prints_rmap_concat:
  assumes "\<And>x. x \<in> set xs \<Longrightarrow> prints (k x) (f x)"
  shows "ok (\<lambda>rss. length (concat rss) = sum_list (map k xs) \<and> list_all report_fits (concat rss)) (rmap f xs)"
proof -
  from assms obtain h where h: "\<And>x. x \<in> set xs \<Longrightarrow> f x = Inr (h x) \<and> length (h x) = k x \<and> list_all report_fits (h x)"
    unfolding prints_def ok_def by metis
  then have "rmap f xs = Inr (map h xs)" by (intro rmap_total) simp
  moreover have "sum_list (map (length \<circ> h) xs) = sum_list (map k xs)" using h by (simp cong: map_cong)
  ultimately show ?thesis using h by (auto simp: length_concat list_all_iff)
qed

text \<open>Annotations of a span relative to the reported one.\<close>

definition an_of :: "smap \<Rightarrow> span \<Rightarrow> annotation \<Rightarrow> bool" where
  "an_of sm sp a \<longleftrightarrow> (\<exists>s. an_range a = rel_range sm sp s)"

lemma an_of_simps [simp]:
  "an_of sm sp \<lparr>an_level = lv, an_range = rel_range sm sp s, an_label = l\<rparr>"
  "list_all (an_of sm sp) (map (\<lambda>x. \<lparr>an_level = lv, an_range = rel_range sm sp (f x), an_label = l\<rparr>) xs)"
  by (auto simp: an_of_def list_all_iff)

lemma annotate_fits:
  assumes "smap_ok sm" "known sm sp"
  obtains src where "span_to_source_code sm sp = Inr src"
    "\<And>as title fn ft. list_all (an_of sm sp) as \<Longrightarrow> report_fits (snippet_report sm sp title src fn as ft)"
proof -
  from assms(2) obtain src where src: "sm_snippet sm sp = Some src" by (auto simp: known_def)
  show thesis
  proof (rule that)
    show "span_to_source_code sm sp = Inr src" by (simp add: span_to_source_code_def src)
    fix as title fn ft assume "list_all (an_of sm sp) as"
    then show "report_fits (snippet_report sm sp title src fn as ft)"
      using rel_range_in_text [OF assms(1) src] by (fastforce simp: report_fits_def snippet_report_def list_all_iff an_of_def)
  qed
qed

lemma rmap_annotate: "smap_ok sm \<Longrightarrow> rmap (annotate sm sp lv l) xs = Inr (map (\<lambda>s. \<lparr>an_level = lv, an_range = rel_range sm sp s, an_label = l\<rparr>) xs)"
  by (rule rmap_total) simp

lemma upperbound_fits:
  assumes "smap_ok sm" "known sm (df_span g)" "u < length (df_nodes g)" "\<forall>i\<in>set is. i < length (df_nodes g)"
  shows "ok report_fits (report_upperbound_bug sm g u is)"
proof -
  have *: "rmap (\<lambda>i. rbind (at (df_nodes g) i) (\<lambda>n. annotate sm (df_span g) Lv_Error l (gn_span n))) is =
      Inr (map (\<lambda>i. \<lparr>an_level = Lv_Error, an_range = rel_range sm (df_span g) (gn_span (df_nodes g ! i)), an_label = l\<rparr>) is)" for l
    by (rule rmap_total) (use assms in simp)
  show ?thesis unfolding report_upperbound_bug_def * by (rule annotate_fits [OF assms(1,2)]) (simp add: assms)
qed

lemma loop_push_fits:
  assumes "smap_ok sm" "known sm l" "sm_trim_start sm (span_to_first_line sm l) (sm_take_blank sm (span_to_first_line sm l)) \<noteq> None"
  shows "ok report_fits (report_loop_push_bug sm l ps)"
  by (rule annotate_fits [OF assms(1,2)]) (use assms in \<open>auto simp: report_loop_push_bug_def span_to_trimmed_span_def rmap_annotate\<close>)

lemma other_fits:
  assumes "smap_ok sm" "known sm (df_span g)"
  shows "ok report_fits (report_used_as_immutable sm g p)" "ok report_fits (report_slice_contains_bug sm g s)"
    "ok report_fits (report_next_iterator_bug sm ns cs (df_span g))" "ok report_fits (report_hash_key_cloning sm g p)"
  by (rule annotate_fits [OF assms], simp add: assms report_used_as_immutable_def report_slice_contains_bug_def
    report_next_iterator_bug_def report_hash_key_cloning_def rmap_annotate split: prod.split)+

lemma bounds_prints:
  assumes "smap_ok sm" "known sm (df_span g)" "record_valid g (bc_bounds_len b)"
    "list_all (\<lambda>(l, _). known sm l \<and> sm_trim_start sm (span_to_first_line sm l) (sm_take_blank sm (span_to_first_line sm l)) \<noteq> None) (bc_bounds_loop_push b)"
  shows "prints (length (bc_bounds_len b) + length (bc_bounds_loop_push b)) (bounds_report sm (g, b))"
proof -
  have "prints (length (bc_bounds_len b)) (bounds_len_report sm g (bc_bounds_len b))" unfolding bounds_len_report_def
    by (rule prints_rmap) (use assms(3) upperbound_fits [OF assms(1,2)] in \<open>auto simp: record_valid_def\<close>)
  moreover have "prints (length (bc_bounds_loop_push b)) (bounds_loop_push_report sm (bc_bounds_loop_push b))" unfolding bounds_loop_push_report_def
    by (rule prints_rmap) (use assms(4) loop_push_fits [OF assms(1)] in \<open>auto simp: list_all_iff\<close>)
  ultimately show ?thesis by (auto simp: prints_def bounds_report_def ok_def)
qed

lemma next_prints: "smap_ok sm \<Longrightarrow> known sm (df_span g) \<Longrightarrow> prints (Suc 0) (next_iterator_report sm (g, c))"
  using other_fits(3) [of sm g "ni_next_record c" "ni_chain_record c"] by (auto simp: next_iterator_report_def prints_def ok_def)

text \<open>C40: If the performance lints of a crate return and the texts of its functions and of the recorded loops are known, printing
  their records never panics: every node index in a record exists. There is one report per record, and each annotation of each report is a
  range of the text that is printed, even where a record is reported on the source of another function.\<close>

theorem opt_print_fits:
  assumes "smap_ok sm" "opt_start tcx dcx hcx is_fn defs = Inr oo" "sources_known sm oo"
  shows "\<exists>rs. opt_print sm oo = Inr rs \<and> length rs = opt_count oo \<and> list_all report_fits rs"
proof -
  have "ok (\<lambda>rss. length (concat rss) = sum_list (map (\<lambda>(g, b). length (bc_bounds_len b) + length (bc_bounds_loop_push b)) (oo_bounds oo)) \<and>
      list_all report_fits (concat rss)) (rmap (bounds_report sm) (oo_bounds oo))"
    by (rule prints_rmap_concat)
      (use assms(3) bounds_prints [OF assms(1)] opt_start_bounds [OF assms(2)] in \<open>auto simp: sources_known_def list_all_iff\<close>)
  moreover have "ok (\<lambda>rss. length (concat rss) = sum_list (map (length \<circ> snd) (oo_immutable oo)) \<and> list_all report_fits (concat rss))
      (rmap (used_as_immutable_report sm) (oo_immutable oo))"
    by (rule prints_rmap_concat)
      (use assms(3) in \<open>auto simp: sources_known_def list_all_iff used_as_immutable_report_def intro!: prints_rmap other_fits assms(1)\<close>)
  moreover have "ok (\<lambda>rss. length (concat rss) = sum_list (map (length \<circ> snd) (oo_slice oo)) \<and> list_all report_fits (concat rss))
      (rmap (slice_contains_report sm) (oo_slice oo))"
    by (rule prints_rmap_concat)
      (use assms(3) in \<open>auto simp: sources_known_def list_all_iff slice_contains_report_def intro!: prints_rmap other_fits assms(1)\<close>)
  moreover have "ok (\<lambda>rss. length (concat rss) = sum_list (map (\<lambda>_. 1) (oo_next oo)) \<and> list_all report_fits (concat rss))
      (rmap (next_iterator_report sm) (oo_next oo))"
    by (rule prints_rmap_concat) (use assms(3) in \<open>auto simp: sources_known_def list_all_iff intro!: next_prints assms(1)\<close>)
  ultimately show ?thesis unfolding opt_print_def opt_count_def ok_def
    by (elim exE conjE) (simp add: sum_list_triv)
qed

definition demo_loops :: smap where
  "demo_loops = \<lparr>sm_lo = (\<lambda>sp. if sp = 32 then 5 else 0), sm_hi = (\<lambda>sp. if sp = 30 then 10 else if sp = 32 then 9 else 0),
     sm_snippet = (\<lambda>sp. Some (if sp = 30 then ''loop{push}'' else if sp = 32 then ''push'' else '''')), sm_source_file = (\<lambda>_. ''a.rs''),
     sm_filename = (\<lambda>_. ''a.rs''), sm_line = (\<lambda>_. 1), sm_extend_to_line = (\<lambda>sp. sp), sm_shrink_to_lo = (\<lambda>sp. sp), sm_take_blank = (\<lambda>sp. sp),
     sm_trim_start = (\<lambda>sp _. Some sp), sm_debug_str = (\<lambda>s. s)\<rparr>"

lemma demo_loops_ok: "smap_ok demo_loops"
  unfolding smap_ok_def by (rule conjI, simp add: demo_loops_def, rule exI [of _ "''loop{push}''"]) (simp add: demo_loops_def numeral_eq_Suc)

theorem opt_print_fits_witness:
  "\<exists>oo rs. opt_start demo_opt_tcx demo_std demo_hcx (\<lambda>_. True) [0] = Inr oo \<and> opt_print demo_loops oo = Inr rs \<and> length rs = 2 \<and> list_all report_fits rs"
proof -
  have "\<not> isl (opt_start demo_opt_tcx demo_std demo_hcx (\<lambda>_. True) [0])" by code_simp
  then obtain oo where oo: "opt_start demo_opt_tcx demo_std demo_hcx (\<lambda>_. True) [0] = Inr oo" using sum.collapse(2) by metis
  have "opt_count (projr (opt_start demo_opt_tcx demo_std demo_hcx (\<lambda>_. True) [0])) = 2" by code_simp
  moreover have "sources_known demo_loops oo" by (simp add: sources_known_def known_def demo_loops_def list_all_iff)
  ultimately show ?thesis using opt_print_fits [OF demo_loops_ok oo] oo by simp
qed

end
