(* ===== verification/Sx_Report.thy ===== *)
theory Sx_Report
  imports Sx_Props Uig_Props
begin

section \<open>Senryx on a crate\<close>

text \<open>
  \<^verbatim>\<open>senryx.rs\<close>: \<open>start\<close> over the bodies that the collector of unsafety isolation finds in a crate, the lines it prints, and
  \<open>body_visit_and_check_uig\<close>, which asks unsafety isolation for the constructors of a method. The debug texts of contracts and of sets of
  strings are the fields of \<open>sx_text\<close>.
\<close>

datatype log_line = Log_Info string | Log_Warn string

record sx_text =
  tx_quote :: "string \<Rightarrow> string"
  tx_contract :: "nat \<times> contract \<Rightarrow> string"
  tx_set :: "string list \<Rightarrow> string"

definition show_check_results :: "sx_text \<Rightarrow> fcx \<Rightarrow> def_id \<Rightarrow> check_result list \<Rightarrow> log_line list" where
  "show_check_results tx fcx d rs =
     Log_Info (''--------In safe function '' @ tx_quote tx (get_cleaned_def_path_name fcx d) @ ''---------'') #
     concat (map (\<lambda>r.
       Log_Info (''  Unsafe api '' @ tx_quote tx (cr_func_name r) @ '': '' @ nat_to_string (length (cr_passed r)) @ '' passed, '' @
         nat_to_string (length (cr_failed r)) @ '' failed!'') #
       map (\<lambda>c. Log_Warn (''      Contract failed: '' @ tx_contract tx c)) (cr_failed r)) rs)"

definition show_annotate_results :: "sx_text \<Rightarrow> fcx \<Rightarrow> def_id \<Rightarrow> string list \<Rightarrow> log_line list" where
  "show_annotate_results tx fcx d annotation_results =
     [Log_Info (''--------In unsafe function '' @ tx_quote tx (get_cleaned_def_path_name fcx d) @ ''---------''),
      Log_Warn (''Lack safety annotations: '' @ tx_set tx annotation_results @ ''.'')]"

definition check_soundness :: "nat \<Rightarrow> nat \<Rightarrow> sx_text \<Rightarrow> tcx \<Rightarrow> fcx \<Rightarrow> sxcx \<Rightarrow> def_id \<Rightarrow> log_line list res" where
  "check_soundness n ln tx tcx fcx sx d =
     rbind (body_visit_and_check n ln tcx fcx sx Map.empty d) (\<lambda>rs.
       Inr (if length rs > 0 then show_check_results tx fcx d rs else []))"

definition sx_crate :: "nat \<Rightarrow> nat \<Rightarrow> sx_text \<Rightarrow> tcx \<Rightarrow> fcx \<Rightarrow> ucx \<Rightarrow> sxcx \<Rightarrow> check_level \<Rightarrow> log_line list res" where
  "sx_crate n ln tx tcx fcx ucx sx level =
     rfold (\<lambda>(body_id, _) out.
         let (function_unsafe, block_unsafe) = contains_unsafe fcx ucx body_id; d = uc_body_owner ucx body_id in
         if \<not> filter_by_check_level fcx level d then Inr out
         else if block_unsafe then rbind (check_soundness n ln tx tcx fcx sx d) (\<lambda>ls. Inr (out @ ls))
         else Inr out)
       (related_bodies ucx) []"

definition body_visit_and_check_uig :: "nat \<Rightarrow> sx_text \<Rightarrow> tcx \<Rightarrow> fcx \<Rightarrow> ucx \<Rightarrow> def_id \<Rightarrow> log_line list res" where
  "body_visit_and_check_uig n tx tcx fcx ucx d =
     (if get_type fcx d = 1 then
        rbind (get_annotation n tcx fcx d) (\<lambda>as.
        if length as > 0 then
          rbind (search_constructor fcx ucx d uig_check_new) (\<lambda>(func_cons, _).
          rfold (\<lambda>func_con out.
              if check_safety fcx func_con
              then rbind (get_annotation n tcx fcx d) (\<lambda>as. Inr (out @ show_annotate_results tx fcx func_con as))
              else Inr out)
            func_cons [])
        else Inr [])
      else Inr [])"

subsection \<open>What is shown\<close>

text \<open>The functions that are checked: those of the level that hold an unsafe block.\<close>

definition sx_checked :: "fcx \<Rightarrow> ucx \<Rightarrow> check_level \<Rightarrow> def_id list" where
  "sx_checked fcx ucx level =
     map (uc_body_owner ucx) (filter (\<lambda>b. filter_by_check_level fcx level (uc_body_owner ucx b) \<and> snd (contains_unsafe fcx ucx b))
       (map fst (related_bodies ucx)))"

lemma rfold_collect:
  "rfold (\<lambda>x out. if C x then rbind (f x) (\<lambda>ls. Inr (out @ ls)) else Inr out) xs out = Inr res \<longleftrightarrow>
     (\<exists>lss. list_all2 (\<lambda>x ls. f x = Inr ls) (filter C xs) lss \<and> res = out @ concat lss)"
proof (induction xs arbitrary: out)
  case (Cons x xs)
  show ?case
  proof (cases "C x")
    case True
    have "(\<exists>lss. list_all2 (\<lambda>x ls. f x = Inr ls) (x # filter C xs) lss \<and> res = out @ concat lss) \<longleftrightarrow>
        (\<exists>ls lss. f x = Inr ls \<and> list_all2 (\<lambda>x ls. f x = Inr ls) (filter C xs) lss \<and> res = (out @ ls) @ concat lss)"
      unfolding list_all2_Cons1 by (metis append_assoc concat.simps(2))
    moreover have "rfold (\<lambda>x out. if C x then rbind (f x) (\<lambda>ls. Inr (out @ ls)) else Inr out) (x # xs) out = Inr res \<longleftrightarrow>
        (\<exists>ls lss. f x = Inr ls \<and> list_all2 (\<lambda>x ls. f x = Inr ls) (filter C xs) lss \<and> res = (out @ ls) @ concat lss)"
      by (simp only: rfold.simps True if_True rbind_assoc rbind.simps rbind_Inr_iff Cons.IH) blast
    ultimately show ?thesis by (simp only: filter.simps True if_True)
  qed (simp only: rfold.simps filter.simps if_False rbind.simps Cons.IH)
qed auto

text \<open>The lines for one function.\<close>

definition results_shown :: "sx_text \<Rightarrow> fcx \<Rightarrow> def_id \<Rightarrow> check_result list \<Rightarrow> log_line list" where
  "results_shown tx fcx d rs = (if rs = [] then [] else show_check_results tx fcx d rs)"

lemma check_soundness_Inr:
  "check_soundness n ln tx tcx fcx sx d = Inr ls \<longleftrightarrow> (\<exists>rs. body_visit_and_check n ln tcx fcx sx Map.empty d = Inr rs \<and> ls = results_shown tx fcx d rs)"
  unfolding check_soundness_def results_shown_def by (cases "body_visit_and_check n ln tcx fcx sx Map.empty d") auto

lemma list_all2_choose:
  "list_all2 (\<lambda>x l. \<exists>r. P x r \<and> l = h x r) xs ls \<longleftrightarrow> (\<exists>rs. list_all2 P xs rs \<and> ls = map2 h xs rs)"
proof (induction xs arbitrary: ls)
  case (Cons x xs)
  have "(\<exists>l ls'. ls = l # ls' \<and> (\<exists>r. P x r \<and> l = h x r) \<and> (\<exists>rs. list_all2 P xs rs \<and> ls' = map2 h xs rs)) \<longleftrightarrow>
      (\<exists>r rs. P x r \<and> list_all2 P xs rs \<and> ls = h x r # map2 h xs rs)" by blast
  also have "\<dots> \<longleftrightarrow> (\<exists>rs. list_all2 P (x # xs) rs \<and> ls = map2 h (x # xs) rs)"
    unfolding list_all2_Cons1 by (metis list.simps(9) split_conv zip_Cons_Cons)
  finally show ?case unfolding list_all2_Cons1 Cons by blast
qed auto

text \<open>Senryx returns on a crate exactly if the check of every function of the level with an unsafe block returns; it prints
  the results of exactly these functions, in the order in which the bodies are found, and nothing for a function without results.\<close>

theorem sx_crate_shows:
  "sx_crate n ln tx tcx fcx ucx sx level = Inr out \<longleftrightarrow>
     (\<exists>rss. list_all2 (\<lambda>d rs. body_visit_and_check n ln tcx fcx sx Map.empty d = Inr rs) (sx_checked fcx ucx level) rss \<and>
        out = concat (map2 (results_shown tx fcx) (sx_checked fcx ucx level) rss))"
proof -
  let ?C = "\<lambda>b. filter_by_check_level fcx level (uc_body_owner ucx (fst b)) \<and> snd (contains_unsafe fcx ucx (fst b))"
  have "sx_crate n ln tx tcx fcx ucx sx level =
      rfold (\<lambda>b out. if ?C b then rbind (check_soundness n ln tx tcx fcx sx (uc_body_owner ucx (fst b))) (\<lambda>ls. Inr (out @ ls)) else Inr out) (related_bodies ucx) []"
    unfolding sx_crate_def by (rule arg_cong [where f = "\<lambda>f. rfold f _ _"]) (auto simp: fun_eq_iff Let_def case_prod_beta)
  moreover have "list_all2 (\<lambda>b ls. check_soundness n ln tx tcx fcx sx (uc_body_owner ucx (fst b)) = Inr ls) (filter ?C (related_bodies ucx)) lss \<longleftrightarrow>
      list_all2 (\<lambda>d ls. check_soundness n ln tx tcx fcx sx d = Inr ls) (sx_checked fcx ucx level) lss" for lss
    by (simp add: sx_checked_def list_all2_map1 filter_map comp_def)
  ultimately show ?thesis by (auto simp: rfold_collect check_soundness_Inr list_all2_choose)
qed

lemma search_constructor_finds:
  "ok (\<lambda>r. fst r = filter (\<lambda>i. get_type fcx i = 0) (struct_fns fcx ucx d)) (search_constructor fcx ucx d s)"
proof -
  have "ok (\<lambda>r. fst r = cs @ filter (\<lambda>i. get_type fcx i = 0) is) (rfold (\<lambda>item (constructors, s).
      if get_type fcx item = 0
      then rbind (insert_node_top fcx ucx item s) (\<lambda>s. Inr (constructors @ [item], set_method_for_constructor item d s))
      else Inr (constructors, s)) is (cs, s))" for cs s "is"
  proof (induction "is" arbitrary: cs s)
    case (Cons i "is")
    obtain t where "insert_node_top fcx ucx i s = Inr t" using insert_node_ok [of s i fcx ucx] by (auto simp: ok_def)
    then show ?case using Cons.IH [of "cs @ [i]"] Cons.IH [of cs] by simp
  qed simp
  from this [of "[]"] show ?thesis by (simp add: search_constructor_def search_constructor_with_def)
qed

text \<open>If the annotations of a method can be collected and there are some, they are shown for exactly the unsafe constructors of its
  type, in order.\<close>

theorem check_uig_exact:
  assumes "get_type fcx d = 1" "get_annotation n tcx fcx d = Inr as"
  shows "body_visit_and_check_uig n tx tcx fcx ucx d = Inr (if as = [] then [] else
    concat (map (\<lambda>c. show_annotate_results tx fcx c as) (filter (\<lambda>i. get_type fcx i = 0 \<and> check_safety fcx i) (struct_fns fcx ucx d))))"
proof (cases "as = []")
  case False
  obtain s where s: "search_constructor fcx ucx d uig_check_new = Inr (filter (\<lambda>i. get_type fcx i = 0) (struct_fns fcx ucx d), s)"
    using search_constructor_finds [of fcx ucx d uig_check_new] by (auto simp: ok_def)
  have "rfold (\<lambda>c out. if check_safety fcx c then rbind (get_annotation n tcx fcx d) (\<lambda>as. Inr (out @ show_annotate_results tx fcx c as)) else Inr out)
      cs out = Inr (out @ concat (map (\<lambda>c. show_annotate_results tx fcx c as) (filter (check_safety fcx) cs)))" for cs out
    by (induction cs arbitrary: out) (simp_all add: assms)
  then show ?thesis using assms s False by (simp add: body_visit_and_check_uig_def filter_filter conj_commute)
qed (simp add: body_visit_and_check_uig_def assms)

end
