(* ===== verification/Spec2Isabelle.thy ===== *)
theory Spec2Isabelle
  imports Sd_Check_Props Mop_Summary Dataflow_Equiv Safedrop_Start Heap_Item_Props Rc_Order Rc_Context Sx_Props Rc_Intra_Props Call_Graph Opt_Props Uig_Props Api_Props Cargo_Rapx Dataflow_Dot Rc_Report Opt_Report Sx_Report
begin

text \<open>
  A model of RAPx, a static analyser for Rust that runs as a compiler plug-in, and what its
  analyses compute. RAPx reads the compiler's mid-level representation (MIR) of every function of a
  crate and runs one of several analyses on it; the sources are under \<^verbatim>\<open>src/rapx/src\<close>.

  \<^bold>\<open>The parts of the program and how they interact.\<close>
  \<^item> The alias analysis (\<^verbatim>\<open>analysis/core/alias\<close>, called MoP) walks the control-flow graph of each function
    path by path, keeps the values that may alias in a union-find forest and summarises which parts
    of the arguments and of the return value alias. Calls are analysed on demand; the summaries are
    kept in a table from functions to summaries (\<open>FnMap\<close>).
  \<^item> SafeDrop (\<^verbatim>\<open>analysis/safedrop\<close>) walks the same graph with the summaries at hand, tracks which values
    are dead, and reports use after free, double free and dangling pointers.
    Whether a drop can free memory it looks up in the table of the type analysis.
  \<^item> The type analysis (\<^verbatim>\<open>analysis/core/heap_item\<close>) collects the ADTs of a crate and computes for each variant whether it
    owns heap memory and which generic parameters it holds by value; SafeDrop and the leak analysis rCanary read its table.
  \<^item> rCanary (\<^verbatim>\<open>analysis/rcanary\<close>) orders the blocks of each function, gives every local a bit vector of the components it
    owns, asserts in a solver how statements and calls change the vectors, and reports a leak if not all can be freed at a return.
  \<^item> Senryx (\<^verbatim>\<open>analysis/senryx\<close>) walks the paths of the SafeDrop graph of a function with an abstract state per path, checks the
    contracts of the unsafe functions it knows at their calls, and analyses callees in turn.
  \<^item> The dataflow graph (\<^verbatim>\<open>analysis/core/dataflow\<close>) is built from the statements of a function and queried
    by the performance lints (\<^verbatim>\<open>analysis/opt\<close>).
  \<^item> Unsafety isolation (\<^verbatim>\<open>analysis/unsafety_isolation\<close>) finds the functions that are unsafe or hold unsafe blocks and groups each with
    its constructors and its unsafe callees.
  \<^item> The API graph (\<^verbatim>\<open>analysis/core/api_dep\<close>) relates the functions of a crate to their generic parameters and to the types of their
    arguments and results, which are compared up to lifetimes.
  \<^item> The driver (\<^verbatim>\<open>lib.rs\<close>, \<^verbatim>\<open>bin/rapx.rs\<close>) decodes the options and starts the analyses after the compiler has run; the cargo command
    (\<^verbatim>\<open>bin/cargo-rapx\<close>) runs it on the crates of a workspace by way of cargo.

  \<^bold>\<open>Conventions.\<close> A function that may panic or not return has the result type \<open>rap_error + 'a\<close>
  (theory \<open>Prelude\<close>); \<open>&mut self\<close> is a record passed in and returned. A Rust loop or recursion whose
  end is not evident takes fuel and fails with \<open>Diverges\<close> when it runs out; each entry point fixes
  the fuel, and a theorem says that it is enough or exactly when it is not. Hash sets are lists
  without duplicates, hash maps are maps or association lists, and the order in which a loop visits
  a table is a parameter (\<open>set_order\<close>, \<open>alias_order\<close> of the record \<open>tcx\<close>), about which theorems assume
  only that every element is visited once (\<open>enum_order\<close>). The compiler is a parameter: theory \<open>Mir\<close> has
  the MIR as datatypes and the queries the sources make as fields of \<open>tcx\<close>.

  \<^bold>\<open>The theories.\<close>
  \<^item> \<open>Prelude\<close>: results, loops, correctness triples (\<open>ok\<close>, \<open>safe\<close>, \<open>within\<close>), hash tables, substrings.
  \<^item> \<open>Graph_Search\<close>: reference searches with and without a visited set, with the locale \<open>dfs_graph\<close>.
  \<^item> \<open>Union_Alias\<close>: \<open>union_find\<close>, \<open>union_merge\<close>, \<open>union_is_same\<close>, \<open>union_has_alias\<close>; the locale \<open>alias_partition\<close>
    states the contract of alias classes, which the forest is shown to fulfil.
  \<^item> \<open>Alias_Result\<close>: the summaries of \<^verbatim>\<open>core/alias.rs\<close> and their printing.
  \<^item> \<open>Mir\<close>, \<open>Value_Node\<close>, \<open>Ownership\<close>: the compiler's data, value and block nodes, owner records.
  \<^item> \<open>Block_Scc\<close>: Tarjan's algorithm on the blocks and the unfolding of components, shared by both analyses.
  \<^item> \<open>Sd_Graph\<close>, \<open>Sd_Value\<close>, \<open>Sd_Merge\<close>, \<open>Sd_Bugs\<close>, \<open>Sd_Check\<close>, \<open>Sd_Check_Props\<close>: SafeDrop (\<^verbatim>\<open>safedrop/graph.rs\<close>,
    \<^verbatim>\<open>alias.rs\<close>, \<^verbatim>\<open>check_bugs.rs\<close>, \<^verbatim>\<open>safedrop.rs\<close>): well-formedness of the value graph, what projections,
    merges, births and drops do to it, what the bug checks decide, bounds and frame of \<open>check\<close>.
  \<^item> \<open>Mop_Graph\<close>, \<open>Mop_Check\<close>, \<open>Mop_Check_Props\<close>, \<open>Mop_Summary\<close>: the alias analysis (\<^verbatim>\<open>core/alias/mop/*.rs\<close>):
    construction, transfer functions, paths, the bound on the interprocedural recursion, and what a
    summary records.
  \<^item> \<open>Dataflow_Graph\<close>, \<open>Dataflow_Props\<close>, \<open>Dataflow_Equiv\<close>: construction of the dataflow graph with its
    invariant, the traversal and the two queries built on it. \<open>Dataflow_Dot\<close>: the text of a graph (\<^verbatim>\<open>core/dataflow/debug.rs\<close>), its
    escaping, and exactly which functions have a graph that cannot be drawn; the locale \<open>graph_steps\<close> is what a relation needs to be kept by
    the whole construction.
  \<^item> \<open>Type_Visit\<close>, \<open>Type_Visit_Props\<close>, \<open>Type_Analysis_Props\<close>: the type visitors and the type analysis
    (\<^verbatim>\<open>core/heap_item/type_visitor.rs\<close>). The locale \<open>path_visitor\<close> is the contract of the visitors that follow fields, which the
    three of them fulfil; the analysis returns, covers every declared ADT and leaves a well-formed table.
  \<^item> \<open>Heap_Item\<close>, \<open>Heap_Item_Props\<close>: layouts and queries (\<^verbatim>\<open>core/heap_item.rs\<close>) on that table.
  \<^item> \<open>Safedrop_Start\<close>: \<open>SafeDrop::start\<close>; the theory at hand has the drop check on the table of the type analysis.
  \<^item> \<open>Rc_Order\<close>, \<open>Rc_Context\<close>: rCanary's order of the blocks (\<^verbatim>\<open>rcanary/ranalyzer/order.rs\<close>), shown to be topological, and its
    flow context (\<^verbatim>\<open>ranalyzer.rs\<close>, \<^verbatim>\<open>ranalyzer/ownership.rs\<close>).
  \<^item> \<open>Rc_Solver\<close>, \<open>Rc_Intra\<close>, \<open>Rc_Intra_Props\<close>: the terms and formulas rCanary asserts with their meaning (Z3 itself is the parameter
    \<open>re_check\<close>), all handlers of \<^verbatim>\<open>ranalyzer/intra_visitor.rs\<close>, and what their constraints say: a move transfers ownership, a report
    follows from the constraints, an aggregate of two owners has no model with both.
  \<^item> \<open>Fn_Info\<close>: the questions about functions of \<^verbatim>\<open>utils/fn_info.rs\<close>; compiler queries are fields of the record \<open>fcx\<close>.
  \<^item> \<open>Sx_Contract\<close>, \<open>Sx_Visitor\<close>, \<open>Sx_Props\<close>: senryx (\<^verbatim>\<open>senryx/contracts/*.rs\<close>, \<^verbatim>\<open>visitor.rs\<close>, \<^verbatim>\<open>matcher.rs\<close>, \<^verbatim>\<open>senryx.rs\<close>). The locale
    \<open>join_lattice\<close> is what the trait \<open>Lattice\<close> promises, which allocation and initialisation states fulfil; what contracts accept,
    what a call leaves, and which functions the analysis never finishes or panics on.

  \<^item> \<open>Call_Graph\<close>: the call graph (\<^verbatim>\<open>core/call_graph*\<close>). The locale \<open>call_store\<close> is the contract of its tables, which they are shown to keep;
    the graph of a crate is the relation of its calls.
  \<^item> \<open>Def_Path\<close>: resolution of paths (\<^verbatim>\<open>utils/def_path.rs\<close>), shown to compute the relation \<open>resolves\<close>.
  \<^item> \<open>Opt_Lints\<close>, \<open>Opt_Props\<close>: the performance lints (\<^verbatim>\<open>analysis/opt\<close>) on the dataflow graph and on the expressions of the source. A record
    of the lint on bounds checks is justified by the graph, the lint on loops is exact, and the driver pairs records and functions as shown.
  \<^item> \<open>Uig\<close>, \<open>Uig_Units\<close>, \<open>Uig_Props\<close>: unsafety isolation (\<^verbatim>\<open>analysis/unsafety_isolation*\<close>). The search from the unsafe functions of a crate ends and finds
    their unsafe callees, the units of a crate are exactly those of its visible functions, and the counters are the sums over the units.
  \<^item> \<open>Report\<close>, \<open>Sd_Report\<close>, \<open>Rc_Report\<close>, \<open>Opt_Report\<close>, \<open>Sx_Report\<close>: positions in the source (\<^verbatim>\<open>utils/log.rs\<close>, \<^verbatim>\<open>utils/source.rs\<close>) and what SafeDrop,
    rCanary, the lints and senryx print. Annotations are exactly those of the records and lie in the printed text; senryx shows the functions with unsafe blocks.
  \<^item> \<open>Api_Type\<close>, \<open>Api_Graph\<close>, \<open>Api_Props\<close>: the API graph (\<^verbatim>\<open>core/api_dep\<close>). Equality of types is equality after erasure and is respected by
    the hash; the locale \<open>interner\<close> is the contract of a table that keeps one node per key, which the graph fulfils; the graph of a
    crate is the one its signatures give. petgraph is a parameter with its documented behaviour as the hypothesis \<open>petgraph_ok\<close>.
  \<^item> \<open>Driver\<close>, \<open>Cargo_Rapx\<close>: options and commands. The analyses that are started are the ones asked for, on the whole way from the cargo
    command; the commands and their exit codes are a log, the environment and the answers of processes are the record \<open>pcx\<close>.

  \<^bold>\<open>Bounds.\<close> \<open>sd_check_top\<close> and \<open>mop_start\<close> bound the nesting of \<open>check\<close> by the visit limit (times the number
  of functions for the alias analysis); \<open>sd_check_nesting_bounded\<close> and \<open>mop_start_nesting_bounded\<close> show
  that more changes nothing. \<open>sd_exists_dead_from\<close> and \<open>sd_dead_node_top\<close> use one call per value and one
  more, which suffices because every nested call records one more value. \<open>union_find\<close> follows at most
  as many parents as there are values. The type visitors need at most \<open>visit_bound\<close> nested calls, the type
  analysis as a whole some finite number (\<open>type_analysis_total\<close>), the order of blocks one iteration per block and one more.

  \<^bold>\<open>Not modelled.\<close> The rendering of reports by a library, the printing of MIR and of states for debugging, help texts, the logger and
  files; the compiler, cargo, petgraph and the Z3 solver, which are parameters; the drawing of graphs with Graphviz; accessors, which
  are fields of records here.
\<close>

section \<open>SafeDrop on the table of the type analysis\<close>

text \<open>C20: The drop check of SafeDrop on the table the type analysis leaves. For a place of a recorded ADT it decides by the unit of
  the variant of the place, or of the first variant if the place has none: the drop counts if the unit is owned or holds a
  parameter by value. It panics exactly if the ADT has no such variant. That is never the case for structs and unions, but it is
  for an enum without variants.\<close>

theorem drop_check_on_table:
  assumes run: "ta_result tcx s" and laws: "ty_laws tcx"
    and d: "d \<in> set (ta_adt_recorder s)" and g: "g_adt_owner g = map_of (ta_adt_owner s)"
    and p: "place_ty tcx (g_def_id g) p = (Ty_Adt d args, v)"
  shows "\<exists>us. map_of (ta_adt_owner s) d = Some us \<and> length us = length (adt_variants tcx d (adt_ids tcx d)) \<and>
    (let i = (case v of Some i \<Rightarrow> i | None \<Rightarrow> 0) in
     sd_drop_heap_item_check tcx p g =
       (if i < length us then Inr (fst (us ! i) = Owned \<or> True \<in> set (snd (us ! i))) else Inl Out_of_bounds)) \<and>
    (adt_kind_of tcx d \<noteq> Adt_Enum \<and> v = None \<longrightarrow> length us = 1) \<and>
    (adt_kind_of tcx d = Adt_Enum \<and> adt_variants tcx d (adt_ids tcx d) = [] \<longrightarrow>
       sd_drop_heap_item_check tcx p g = Inl Out_of_bounds)"
proof -
  from recorded_units [OF run d] obtain us where us: "map_of (ta_adt_owner s) d = Some us" "units_ok tcx d us" .
  have owned: "rto_is_owned w \<longleftrightarrow> w = Owned" for w by (cases w) simp_all
  have one: "adt_kind_of tcx d \<noteq> Adt_Enum \<Longrightarrow> length us = 1"
    using us(2) ty_lawsD(7) [OF laws] by (simp add: units_ok_def)
  show ?thesis using us one by (intro exI [of _ us]) (auto simp: sd_drop_heap_item_check_def g p owned units_ok_def)
qed

lemma place_ty_frame [simp]:
  "adt_ids (t\<lparr>place_ty := f\<rparr>) = adt_ids t" "adt_all_fields (t\<lparr>place_ty := f\<rparr>) = adt_all_fields t"
  "decl_heads (t\<lparr>place_ty := f\<rparr>) = decl_heads t"
  by (simp_all add: adt_ids_def adt_all_fields_def decl_heads_def fun_eq_iff)

lemma ty_laws_place_ty [simp]: "ty_laws (t\<lparr>place_ty := f\<rparr>) \<longleftrightarrow> ty_laws t"
  by (simp add: ty_laws_def type_of_law_def field_ty_law_def variant_law_def)

theorem drop_check_on_table_witness:
  "\<exists>us. length us = 2 \<and> sd_drop_heap_item_check (demo_heap_tcx\<lparr>place_ty := (\<lambda>_ _. (Ty_Adt 3 [], Some 1))\<rparr>)
     \<lparr>p_local = 1, p_projection = []\<rparr> ((demo_graph [[]])\<lparr>g_adt_owner := map_of (ta_adt_owner demo_heap_state)\<rparr>) =
       Inr (fst (us ! 1) = Owned \<or> True \<in> set (snd (us ! 1)))"
proof -
  let ?t = "demo_heap_tcx\<lparr>place_ty := (\<lambda>_ _. (Ty_Adt 3 [], Some 1))\<rparr>"
  have "ty_laws ?t"
    using demo_heap_laws by simp
  moreover have "ta_result ?t demo_heap_state"
    using demo_heap_result
    by (simp add: ta_result_def declared_adts_def adts_closed_def owner_ok_def units_ok_def)
  moreover have "3 \<in> set (ta_adt_recorder demo_heap_state)" "length (adt_variants ?t 3 (adt_ids ?t 3)) = 2"
    by (simp_all add: demo_heap_state_def demo_heap_tcx_def)
  ultimately show ?thesis
    using drop_check_on_table [of ?t demo_heap_state 3 "(demo_graph [[]])\<lparr>g_adt_owner := map_of (ta_adt_owner demo_heap_state)\<rparr>"
        "\<lparr>p_local = 1, p_projection = []\<rparr>" "[]" "Some 1"]
    by (auto simp: Let_def)
qed

end
